(* ===== verification/Prelude.thy ===== *)
theory Prelude
  imports Main "HOL-Library.Char_ord" "HOL-Library.List_Lexorder" "HOL-Library.Multiset"
begin

text \<open>
  What every component of the development shares: the reading of C strings and buffers, the
  loops of the sources that search an array for its first match, the removal of an array entry
  by moving the last one into its place, decimal output, and the lemmas on lists and multisets
  that carry the proofs of the components.

  A C string is a \<^typ>\<open>string\<close> without its terminating NUL. A C \<open>int\<close> or \<open>time_t\<close>
  is an \<^typ>\<open>int\<close>; the components prove where their arithmetic stays within 32 bits
  (\<open>int32\<close> below). A status result (0, -1, -2) keeps its number.
\<close>

named_theorems cstr_simps \<open>facts on C strings and buffers\<close>
named_theorems idx_simps \<open>facts on search loops and array removal\<close>

section \<open>C strings and integers\<close>

definition int32 :: "int \<Rightarrow> bool" where
  "int32 v \<longleftrightarrow> - (2 ^ 31) \<le> v \<and> v \<le> 2 ^ 31 - 1"

text \<open>The sign of \<open>strcmp\<close>: bytes compare as unsigned characters.\<close>

definition strcmp :: "string \<Rightarrow> string \<Rightarrow> int" where
  "strcmp a b = (if a = b then 0 else if a < b then -1 else 1)"

text \<open>
  What a zeroed \<open>char[n]\<close> holds after \<open>strncpy(dst, s, n - 1)\<close> or
  \<open>snprintf(dst, n, "%s", s)\<close>.
\<close>

definition buf :: "nat \<Rightarrow> string \<Rightarrow> string" where
  "buf n s = take (n - 1) s"

fun split_on :: "char \<Rightarrow> string \<Rightarrow> string list" where
  "split_on d [] = [[]]"
| "split_on d (c # cs) =
     (if c = d then [] # split_on d cs
      else case split_on d cs of [] \<Rightarrow> [[c]] | w # ws \<Rightarrow> (c # w) # ws)"

text \<open>The tokens \<open>strtok\<close> yields: runs of delimiters count as one, empty tokens are skipped.\<close>

definition strtok :: "char \<Rightarrow> string \<Rightarrow> string list" where
  "strtok d s = filter (\<lambda>t. t \<noteq> []) (split_on d s)"

text \<open>The loops that strip leading and trailing blanks of a token.\<close>

definition trim_spaces :: "string \<Rightarrow> string" where
  "trim_spaces s = rev (dropWhile (\<lambda>c. c = CHR '' '') (rev (dropWhile (\<lambda>c. c = CHR '' '') s)))"

section \<open>Decimal output\<close>

definition digit :: "nat \<Rightarrow> char" where
  "digit d = char_of (48 + d)"

fun dec_nat :: "nat \<Rightarrow> string" where
  "dec_nat n = (if n < 10 then [digit n] else dec_nat (n div 10) @ [digit (n mod 10)])"

declare dec_nat.simps [simp del]

definition dec :: "int \<Rightarrow> string" where
  "dec i = (if i < 0 then CHR ''-'' # dec_nat (nat (- i)) else dec_nat (nat i))"

section \<open>Array loops\<close>

text \<open>\<open>for (i = 0; i < n; i++) if (P(xs[i])) { found = i; break; }\<close>\<close>

fun find_idx :: "('a \<Rightarrow> bool) \<Rightarrow> 'a list \<Rightarrow> nat option" where
  "find_idx P [] = None"
| "find_idx P (x # xs) = (if P x then Some 0 else map_option Suc (find_idx P xs))"

text \<open>\<open>xs[i] = xs[--n]\<close>\<close>

definition swap_remove :: "nat \<Rightarrow> 'a list \<Rightarrow> 'a list" where
  "swap_remove i xs = butlast (xs[i := last xs])"

text \<open>Popping a container up to \<open>n\<close> times, until it reports that it is empty.\<close>

fun pops :: "('q \<Rightarrow> ('j \<times> 'q) option) \<Rightarrow> nat \<Rightarrow> 'q \<Rightarrow> 'j list \<times> 'q" where
  "pops pop 0 q = ([], q)"
| "pops pop (Suc n) q =
     (case pop q of
        None \<Rightarrow> ([], q)
      | Some (j, q') \<Rightarrow> (let (js, q'') = pops pop n q' in (j # js, q'')))"

section \<open>Lemmas\<close>

lemma strcmp_eq_0 [simp, cstr_simps]: "strcmp a b = 0 \<longleftrightarrow> a = b"
  by (simp add: strcmp_def)

lemma strcmp_less_0 [simp, cstr_simps]: "strcmp a b < 0 \<longleftrightarrow> a < b"
  by (auto simp: strcmp_def)

lemma length_buf [cstr_simps]: "length (buf n s) \<le> n - 1"
  by (simp add: buf_def)

lemma buf_id [simp, cstr_simps]: "length s \<le> n - 1 \<Longrightarrow> buf n s = s"
  by (simp add: buf_def)

lemma buf_Nil [simp, cstr_simps]: "buf n [] = []"
  by (simp add: buf_def)

lemma split_on_not_Nil [simp]: "split_on d s \<noteq> []"
  by (induction s) (auto split: list.splits)

lemma find_idx_SomeD:
  "find_idx P xs = Some i \<Longrightarrow> i < length xs \<and> P (xs ! i) \<and> (\<forall>j < i. \<not> P (xs ! j))"
proof (induction xs arbitrary: i)
  case Nil
  then show ?case by simp
next
  case (Cons x xs)
  show ?case
  proof (cases "P x")
    case True
    with Cons.prems show ?thesis by simp
  next
    case False
    with Cons.prems obtain k where k: "find_idx P xs = Some k" "i = Suc k"
      by auto
    from Cons.IH [OF k(1)] k(2) False show ?thesis
      by (auto simp: less_Suc_eq_0_disj)
  qed
qed

lemma find_idx_None [idx_simps]: "find_idx P xs = None \<longleftrightarrow> (\<forall>x \<in> set xs. \<not> P x)"
  by (induction xs) auto

lemma find_idx_less [idx_simps]: "find_idx P xs = Some i \<Longrightarrow> i < length xs"
  by (simp add: find_idx_SomeD)

lemma find_idx_holds [idx_simps]: "find_idx P xs = Some i \<Longrightarrow> P (xs ! i)"
  by (simp add: find_idx_SomeD)

lemma find_idx_exists: "x \<in> set xs \<Longrightarrow> P x \<Longrightarrow> \<exists>i. find_idx P xs = Some i"
  by (metis find_idx_None not_None_eq)

lemma mset_update: "i < length xs \<Longrightarrow> mset (xs[i := y]) = add_mset y (mset xs - {#xs ! i#})"
proof (induction xs arbitrary: i)
  case Nil
  then show ?case by simp
next
  case (Cons x xs)
  show ?case
  proof (cases i)
    case 0
    then show ?thesis by simp
  next
    case (Suc k)
    with Cons have IH: "mset (xs[k := y]) = add_mset y (mset xs - {#xs ! k#})" by simp
    from Suc Cons.prems have "xs ! k \<in># mset xs" by simp
    with Suc IH show ?thesis by (auto simp: multiset_eq_iff)
  qed
qed

lemma length_swap_remove [simp, idx_simps]: "length (swap_remove i xs) = length xs - 1"
  by (simp add: swap_remove_def)

lemma mset_butlast: "xs \<noteq> [] \<Longrightarrow> mset (butlast xs) = mset xs - {#last xs#}"
  by (induction xs rule: rev_induct) auto

lemma swap_remove_last: "i = length xs - 1 \<Longrightarrow> swap_remove i xs = butlast xs"
  by (cases xs rule: rev_cases) (auto simp: swap_remove_def nth_append)

lemma last_list_update_other:
  "i < length xs - 1 \<Longrightarrow> last (xs[i := y]) = last xs"
  by (cases xs rule: rev_cases) (auto simp: list_update_append)

lemma mset_swap_remove [idx_simps]:
  assumes "i < length xs"
  shows "mset (swap_remove i xs) = mset xs - {#xs ! i#}"
proof (cases "i = length xs - 1")
  case True
  moreover from assms have "xs \<noteq> []" by auto
  ultimately have "xs \<noteq> []" "xs ! i = last xs" by (simp_all add: last_conv_nth)
  with True show ?thesis by (simp add: swap_remove_last mset_butlast)
next
  case False
  with assms have i: "i < length xs - 1" by simp
  then have ne: "xs[i := last xs] \<noteq> []" using assms by auto
  have "mset (swap_remove i xs) = mset (xs[i := last xs]) - {#last xs#}"
    unfolding swap_remove_def using ne i
    by (simp add: mset_butlast last_list_update_other)
  then show ?thesis using assms by (simp add: mset_update)
qed

lemma set_swap_remove_subset: "i < length xs \<Longrightarrow> set (swap_remove i xs) \<subseteq> set xs"
  by (metis mset_swap_remove in_diffD set_mset_mset subsetI)

lemma nth_swap_remove [idx_simps]:
  "j < length xs - 1 \<Longrightarrow> swap_remove i xs ! j = (if j = i then last xs else xs ! j)"
  by (simp add: swap_remove_def nth_butlast)

lemma nonempty_if_found: "find_idx P xs = Some i \<Longrightarrow> xs \<noteq> []"
  by auto

end
