(* ===== verification/Job.thy ===== *)
theory Job
  imports Prelude "HOL-Library.Word"
begin

text \<open>
  The \<open>Job\<close> structure of \<open>include/job.h\<close>, its status codes, the transition table and the
  identifier format of \<open>src/core/job.c\<close>, and the order in which the queue serves jobs.
  The operations of \<open>job.c\<close> that write to the database are in theory \<open>Lifecycle\<close>.
  Every field keeps its C name behind the prefix \<open>j_\<close>.
\<close>

unbundle bit_operations_syntax

section \<open>Status codes and transitions\<close>

text \<open>
  The codes of \<open>JobStatus\<close>. Code 1 has no enumerator: it was STARTING before v1 and may
  still stand in a row of an old database.
\<close>

datatype job_status =
  JOB_STATUS_QUEUED | JOB_STATUS_LEGACY_1 | JOB_STATUS_RUNNING | JOB_STATUS_SUCCEEDED |
  JOB_STATUS_CANCELLED | JOB_STATUS_FAILED | JOB_STATUS_CREATED

fun status_code :: "job_status \<Rightarrow> int" where
  "status_code JOB_STATUS_QUEUED = 0"
| "status_code JOB_STATUS_LEGACY_1 = 1"
| "status_code JOB_STATUS_RUNNING = 2"
| "status_code JOB_STATUS_SUCCEEDED = 3"
| "status_code JOB_STATUS_CANCELLED = 4"
| "status_code JOB_STATUS_FAILED = 5"
| "status_code JOB_STATUS_CREATED = 6"

fun transition_allowed :: "job_status \<Rightarrow> job_status \<Rightarrow> bool" where
  "transition_allowed JOB_STATUS_CREATED to =
     (to = JOB_STATUS_QUEUED \<or> to = JOB_STATUS_CANCELLED)"
| "transition_allowed JOB_STATUS_QUEUED to =
     (to = JOB_STATUS_RUNNING \<or> to = JOB_STATUS_FAILED \<or> to = JOB_STATUS_CANCELLED)"
| "transition_allowed JOB_STATUS_RUNNING to =
     (to = JOB_STATUS_SUCCEEDED \<or> to = JOB_STATUS_FAILED \<or> to = JOB_STATUS_CANCELLED)"
| "transition_allowed _ to = False"

fun job_status_str :: "job_status \<Rightarrow> string" where
  "job_status_str JOB_STATUS_CREATED = ''CREATED''"
| "job_status_str JOB_STATUS_QUEUED = ''QUEUED''"
| "job_status_str JOB_STATUS_RUNNING = ''RUNNING''"
| "job_status_str JOB_STATUS_SUCCEEDED = ''SUCCEEDED''"
| "job_status_str JOB_STATUS_CANCELLED = ''CANCELLED''"
| "job_status_str JOB_STATUS_FAILED = ''FAILED''"
| "job_status_str JOB_STATUS_LEGACY_1 = ''UNKNOWN''"

definition terminal :: "job_status \<Rightarrow> bool" where
  "terminal s \<longleftrightarrow> s \<in> {JOB_STATUS_SUCCEEDED, JOB_STATUS_CANCELLED, JOB_STATUS_FAILED}"

section \<open>The structure\<close>

record job =
  j_id :: string
  j_command :: string
  j_user_id :: string
  j_app_id :: string
  j_status :: job_status
  j_priority :: int
  j_req_cores :: int
  j_req_gpu :: int
  j_req_ram_mb :: int
  j_req_disk_mb :: int
  j_machine_id :: string
  j_input_dir :: string
  j_output_dir :: string
  j_input_files :: string
  j_submitted_at :: int
  j_started_at :: int
  j_ended_at :: int
  j_exit_code :: int
  j_timeout_seconds :: int
  j_status_reason :: string
  j_depends_on :: string
  j_workflow_id :: string
  j_batch_id :: string
  j_same_machine_as :: string

text \<open>\<open>calloc(1, sizeof(Job))\<close>: every string empty, every number 0, so the status is QUEUED.\<close>

definition job_zero :: job where
  "job_zero = \<lparr> j_id = [], j_command = [], j_user_id = [], j_app_id = [],
     j_status = JOB_STATUS_QUEUED, j_priority = 0, j_req_cores = 0, j_req_gpu = 0,
     j_req_ram_mb = 0, j_req_disk_mb = 0, j_machine_id = [], j_input_dir = [],
     j_output_dir = [], j_input_files = [], j_submitted_at = 0, j_started_at = 0,
     j_ended_at = 0, j_exit_code = 0, j_timeout_seconds = 0, j_status_reason = [],
     j_depends_on = [], j_workflow_id = [], j_batch_id = [], j_same_machine_as = [] \<rparr>"

definition JOB_ID_LEN :: nat where "JOB_ID_LEN = 37"
definition JOB_CMD_LEN :: nat where "JOB_CMD_LEN = 512"
definition JOB_USER_LEN :: nat where "JOB_USER_LEN = 128"
definition JOB_APP_LEN :: nat where "JOB_APP_LEN = 128"

section \<open>Identifiers\<close>

definition hex_digit :: "8 word \<Rightarrow> char" where
  "hex_digit d = (if d < 10 then char_of (48 + unat d) else char_of (87 + unat d))"

text \<open>\<open>%02x\<close>\<close>

definition hex2 :: "8 word \<Rightarrow> string" where
  "hex2 b = [hex_digit (drop_bit 4 b), hex_digit (b AND 15)]"

text \<open>
  \<open>gen_uuid\<close> on sixteen bytes read from \<open>/dev/urandom\<close>: the version and the variant
  are forced, then the bytes are printed in the five groups.
\<close>

definition uuid_bytes :: "8 word list \<Rightarrow> 8 word list" where
  "uuid_bytes b = b[6 := ((b ! 6) AND 0x0f) OR 0x40, 8 := ((b ! 8) AND 0x3f) OR 0x80]"

definition gen_uuid :: "8 word list \<Rightarrow> string" where
  "gen_uuid raw = (let b = uuid_bytes raw in
     hex2 (b!0) @ hex2 (b!1) @ hex2 (b!2) @ hex2 (b!3) @ ''-'' @
     hex2 (b!4) @ hex2 (b!5) @ ''-'' @ hex2 (b!6) @ hex2 (b!7) @ ''-'' @
     hex2 (b!8) @ hex2 (b!9) @ ''-'' @ hex2 (b!10) @ hex2 (b!11) @ hex2 (b!12) @
     hex2 (b!13) @ hex2 (b!14) @ hex2 (b!15))"

section \<open>The order of the queue\<close>

datatype job_key = Job_Key (key_priority: int) (key_submitted: int) (key_id: string)

definition job_key :: "job \<Rightarrow> job_key" where
  "job_key j = Job_Key (j_priority j) (j_submitted_at j) (j_id j)"

instantiation job_key :: linorder
begin

definition less_eq_job_key :: "job_key \<Rightarrow> job_key \<Rightarrow> bool" where
  "less_eq_job_key a b \<longleftrightarrow>
     key_priority a < key_priority b \<or>
     key_priority a = key_priority b \<and>
       (key_submitted a < key_submitted b \<or>
        key_submitted a = key_submitted b \<and> key_id a \<le> key_id b)"

definition less_job_key :: "job_key \<Rightarrow> job_key \<Rightarrow> bool" where
  "less_job_key a b \<longleftrightarrow>
     key_priority a < key_priority b \<or>
     key_priority a = key_priority b \<and>
       (key_submitted a < key_submitted b \<or>
        key_submitted a = key_submitted b \<and> key_id a < key_id b)"

instance
  by standard (auto simp: less_eq_job_key_def less_job_key_def job_key.expand)

end

text \<open>\<open>job_before\<close> of \<open>queue.c\<close>.\<close>

definition job_before :: "job \<Rightarrow> job \<Rightarrow> bool" where
  "job_before a b =
     (if j_priority a \<noteq> j_priority b then j_priority a < j_priority b
      else if j_submitted_at a \<noteq> j_submitted_at b then j_submitted_at a < j_submitted_at b
      else strcmp (j_id a) (j_id b) < 0)"

lemma job_before_iff: "job_before a b \<longleftrightarrow> job_key a < job_key b"
  by (auto simp: job_before_def job_key_def less_job_key_def)

lemma job_key_eqD: "job_key a = job_key b \<Longrightarrow> j_id a = j_id b"
  by (simp add: job_key_def)

end
