(* ===== verification/Queue.thy ===== *)
theory Queue
  imports Job
begin

text \<open>
  The priority queue of \<open>src/core/queue.c\<close>: a binary heap in an array, ordered by
  \<^const>\<open>job_before\<close>. The list \<open>q_heap\<close> is the live part \<open>heap[0 .. size-1]\<close> of the
  C array, so \<open>size\<close> is its length; every operation runs under the queue's lock and is one
  atomic step here. An argument the code tests against \<open>NULL\<close> is an \<open>option\<close>. The
  outcome of \<open>realloc\<close> and \<open>calloc\<close> is an argument.

  The second half proves that the array stays a heap under every operation, which job each
  operation returns, and, through the interface \<open>prio_queue\<close>, the order in which jobs
  leave the queue.
\<close>

section \<open>Model\<close>

record queue =
  q_heap :: "job list"
  q_capacity :: int
  q_shutdown :: bool

definition heap_swap :: "job list \<Rightarrow> nat \<Rightarrow> nat \<Rightarrow> job list" where
  "heap_swap h a b = h[a := h ! b, b := h ! a]"

fun heap_up :: "job list \<Rightarrow> nat \<Rightarrow> job list" where
  "heap_up h i =
     (if i > 0 then
        let parent = (i - 1) div 2 in
        if \<not> job_before (h ! i) (h ! parent) then h
        else heap_up (heap_swap h parent i) parent
      else h)"

definition smallest_child :: "job list \<Rightarrow> nat \<Rightarrow> nat" where
  "smallest_child h i =
     (let n = length h; l = 2 * i + 1; r = 2 * i + 2;
          s = (if l < n \<and> job_before (h ! l) (h ! i) then l else i)
      in if r < n \<and> job_before (h ! r) (h ! s) then r else s)"

function heap_down :: "job list \<Rightarrow> nat \<Rightarrow> job list" where
  "heap_down h i =
     (let smallest = smallest_child h i in
      if smallest = i then h else heap_down (heap_swap h i smallest) smallest)"
  by pat_completeness auto
termination
  by (relation "measure (\<lambda>(h, i). length h - i)")
     (auto simp: smallest_child_def heap_swap_def Let_def split: if_splits)

declare heap_up.simps [simp del] heap_down.simps [simp del]

definition queue_create :: "bool \<Rightarrow> int \<Rightarrow> queue option" where
  "queue_create calloc_ok initial_capacity =
     (if \<not> calloc_ok then None
      else Some \<lparr> q_heap = [],
                  q_capacity = (if initial_capacity < 8 then 8 else initial_capacity),
                  q_shutdown = False \<rparr>)"

definition push_locked :: "bool \<Rightarrow> queue \<Rightarrow> job \<Rightarrow> int \<times> queue" where
  "push_locked realloc_ok q job =
     (if q_shutdown q then (-1, q)
      else if int (length (q_heap q)) = q_capacity q \<and> \<not> realloc_ok then (-1, q)
      else
        let cap = (if int (length (q_heap q)) = q_capacity q then q_capacity q * 2
                   else q_capacity q);
            h = q_heap q @ [job]
        in (0, q\<lparr>q_heap := heap_up h (length h - 1), q_capacity := cap\<rparr>))"

fun queue_push :: "bool \<Rightarrow> queue option \<Rightarrow> job option \<Rightarrow> int \<times> queue option" where
  "queue_push realloc_ok (Some q) (Some job) =
     (let (r, q') = push_locked realloc_ok q job in (r, Some q'))"
| "queue_push realloc_ok q job = (-1, q)"

definition queue_try_pop :: "queue \<Rightarrow> (job \<times> queue) option" where
  "queue_try_pop q =
     (if q_heap q = [] then None
      else let h = swap_remove 0 (q_heap q)
           in Some (q_heap q ! 0, q\<lparr>q_heap := (if length h > 0 then heap_down h 0 else h)\<rparr>))"

text \<open>\<open>queue_pop\<close> waits on the condition variable while the queue is empty and not shut down.\<close>

datatype pop_outcome = Pop_Waits | Pop_Returns "job option" queue

definition queue_pop :: "queue \<Rightarrow> pop_outcome" where
  "queue_pop q =
     (if q_heap q = [] \<and> \<not> q_shutdown q then Pop_Waits
      else if q_shutdown q \<and> q_heap q = [] then Pop_Returns None q
      else let h = swap_remove 0 (q_heap q)
           in Pop_Returns (Some (q_heap q ! 0))
                (q\<lparr>q_heap := (if length h > 0 then heap_down h 0 else h)\<rparr>))"

text \<open>The scan of \<open>queue_try_pop_matching\<close>: \<open>best\<close> is the index \<open>best\<close>, \<open>None\<close> for -1.\<close>

function scan_best :: "(job \<Rightarrow> bool) \<Rightarrow> job list \<Rightarrow> nat \<Rightarrow> nat option \<Rightarrow> nat option" where
  "scan_best predicate h i best =
     (if i < length h then
        if \<not> predicate (h ! i) then scan_best predicate h (i + 1) best
        else if best = None \<or> job_before (h ! i) (h ! the best)
          then scan_best predicate h (i + 1) (Some i)
        else scan_best predicate h (i + 1) best
      else best)"
  by pat_completeness auto
termination
  by (relation "measure (\<lambda>(p, h, i, b). length h - i)") auto

declare scan_best.simps [simp del]

text \<open>The removal that \<open>queue_try_pop_matching\<close> and \<open>queue_remove\<close> share.\<close>

definition heap_remove_at :: "job list \<Rightarrow> nat \<Rightarrow> job list" where
  "heap_remove_at heap index =
     (let h = swap_remove index heap in
      if index < length h then
        let parent = (index - 1) div 2 in
        if index > 0 \<and> job_before (h ! index) (h ! parent) then heap_up h index
        else heap_down h index
      else h)"

fun queue_try_pop_matching ::
  "queue \<Rightarrow> (job \<Rightarrow> bool) option \<Rightarrow> (job \<times> queue) option" where
  "queue_try_pop_matching q None = queue_try_pop q"
| "queue_try_pop_matching q (Some predicate) =
     (case scan_best predicate (q_heap q) 0 None of
        None \<Rightarrow> None
      | Some best \<Rightarrow>
          Some (q_heap q ! best, q\<lparr>q_heap := heap_remove_at (q_heap q) best\<rparr>))"

fun queue_remove ::
  "queue option \<Rightarrow> string option \<Rightarrow> job option \<times> queue option" where
  "queue_remove (Some q) (Some job_id) =
     (case find_idx (\<lambda>j. strcmp (j_id j) job_id = 0) (q_heap q) of
        None \<Rightarrow> (None, Some q)
      | Some index \<Rightarrow>
          (Some (q_heap q ! index),
           Some (q\<lparr>q_heap := heap_remove_at (q_heap q) index\<rparr>)))"
| "queue_remove q job_id = (None, q)"

definition queue_remove_by_id ::
  "queue option \<Rightarrow> string option \<Rightarrow> job option \<times> queue option" where
  "queue_remove_by_id q job_id = queue_remove q job_id"

definition queue_size :: "queue \<Rightarrow> int" where
  "queue_size q = int (length (q_heap q))"

definition queue_shutdown :: "queue \<Rightarrow> queue" where
  "queue_shutdown q = q\<lparr>q_shutdown := True\<rparr>"

text \<open>\<open>while ((queued = queue_try_pop(s_queue)) != NULL) job_free(queued);\<close> of \<open>scheduler_stop\<close>.\<close>

definition queue_drain :: "queue \<Rightarrow> job list \<times> queue" where
  "queue_drain q = pops queue_try_pop (Suc (length (q_heap q))) q"

section \<open>The heap property\<close>

definition par :: "nat \<Rightarrow> nat" where
  "par i = (i - 1) div 2"

definition heap_ok :: "job list \<Rightarrow> bool" where
  "heap_ok h \<longleftrightarrow> (\<forall>i. 0 < i \<and> i < length h \<longrightarrow> job_key (h ! par i) \<le> job_key (h ! i))"

text \<open>A heap but for the entry at \<open>i\<close>, which may be less than its parent.\<close>

definition up_ok :: "job list \<Rightarrow> nat \<Rightarrow> bool" where
  "up_ok h i \<longleftrightarrow>
     (\<forall>j. 0 < j \<and> j < length h \<and> j \<noteq> i \<longrightarrow> job_key (h ! par j) \<le> job_key (h ! j)) \<and>
     (\<forall>j. 0 < j \<and> j < length h \<and> par j = i \<and> 0 < i \<longrightarrow> job_key (h ! par i) \<le> job_key (h ! j))"

text \<open>A heap but for the entry at \<open>i\<close>, which may be greater than its children.\<close>

definition down_ok :: "job list \<Rightarrow> nat \<Rightarrow> bool" where
  "down_ok h i \<longleftrightarrow>
     (\<forall>j. 0 < j \<and> j < length h \<and> par j \<noteq> i \<longrightarrow> job_key (h ! par j) \<le> job_key (h ! j)) \<and>
     (\<forall>j. 0 < j \<and> j < length h \<and> par j = i \<and> 0 < i \<longrightarrow> job_key (h ! par i) \<le> job_key (h ! j))"

definition queue_ok :: "queue \<Rightarrow> bool" where
  "queue_ok q \<longleftrightarrow> heap_ok (q_heap q) \<and> 8 \<le> q_capacity q \<and> queue_size q \<le> q_capacity q"

lemma par_less: "0 < i \<Longrightarrow> par i < i"
  by (simp add: par_def)

lemma par_child: "0 < j \<Longrightarrow> par j = i \<longleftrightarrow> j = 2 * i + 1 \<or> j = 2 * i + 2"
  by (auto simp: par_def)

lemma length_heap_swap [simp]: "length (heap_swap h a b) = length h"
  by (simp add: heap_swap_def)

lemma nth_heap_swap:
  "a < length h \<Longrightarrow> b < length h \<Longrightarrow>
   heap_swap h a b ! j = (if j = b then h ! a else if j = a then h ! b else h ! j)"
  by (auto simp: heap_swap_def nth_list_update)

lemma mset_heap_swap: "a < length h \<Longrightarrow> b < length h \<Longrightarrow> mset (heap_swap h a b) = mset h"
  by (simp add: heap_swap_def mset_swap)

lemma mset_heap_up: "i < length h \<Longrightarrow> mset (heap_up h i) = mset h"
proof (induction h i rule: heap_up.induct)
  case (1 h i)
  then show ?case
    by (subst heap_up.simps) (auto simp: Let_def mset_heap_swap)
qed

lemma smallest_child_less: "i < length h \<Longrightarrow> smallest_child h i < length h"
  by (auto simp: smallest_child_def Let_def)

lemma mset_heap_down: "i < length h \<Longrightarrow> mset (heap_down h i) = mset h"
proof (induction h i rule: heap_down.induct)
  case (1 h i)
  then show ?case
    by (subst heap_down.simps) (auto simp: Let_def mset_heap_swap smallest_child_less)
qed

lemma up_ok_swap:
  assumes ok: "up_ok h i" and i: "i < length h" "0 < i"
    and less: "job_key (h ! i) < job_key (h ! par i)"
  shows "up_ok (heap_swap h (par i) i) (par i)"
proof -
  let ?h = "heap_swap h (par i) i"
  have p: "par i < i" "par i < length h" using i par_less [of i] by auto
  have nth: "?h ! j = (if j = i then h ! par i else if j = par i then h ! i else h ! j)" for j
    using p i by (simp add: nth_heap_swap)
  have A: "job_key (h ! par j) \<le> job_key (h ! j)" if "0 < j" "j < length h" "j \<noteq> i" for j
    using ok that by (auto simp: up_ok_def)
  have B: "job_key (h ! par i) \<le> job_key (h ! j)" if "0 < j" "j < length h" "par j = i" for j
    using ok that i by (auto simp: up_ok_def)
  have "job_key (?h ! par j) \<le> job_key (?h ! j)"
    if j: "0 < j" "j < length h" "j \<noteq> par i" for j
  proof -
    consider "j = i" | "j \<noteq> i" "par j = i" | "j \<noteq> i" "par j = par i" "par j \<noteq> i"
      | "j \<noteq> i" "par j \<noteq> i" "par j \<noteq> par i" by blast
    then show ?thesis
    proof cases
      case 1
      with less p show ?thesis by (simp add: nth)
    next
      case 2
      with B j show ?thesis by (simp add: nth)
    next
      case 3
      with A [OF j(1,2)] less j show ?thesis by (simp add: nth)
    next
      case 4
      with A [OF j(1,2)] j show ?thesis by (simp add: nth)
    qed
  qed
  moreover have "job_key (?h ! par (par i)) \<le> job_key (?h ! j)"
    if j: "0 < j" "j < length h" "par j = par i" "0 < par i" for j
  proof -
    have pp: "par (par i) < par i" using j(4) by (rule par_less)
    have g: "job_key (h ! par (par i)) \<le> job_key (h ! par i)"
      using A [of "par i"] j(4) p by simp
    show ?thesis
    proof (cases "j = i")
      case True
      with g pp p show ?thesis by (simp add: nth)
    next
      case False
      with A [OF j(1,2)] g pp p j(3) par_less [OF j(1)] show ?thesis
        by (auto simp: nth intro: order_trans)
    qed
  qed
  ultimately show ?thesis by (simp add: up_ok_def)
qed

lemma heap_up_ok: "up_ok h i \<Longrightarrow> i < length h \<Longrightarrow> heap_ok (heap_up h i)"
proof (induction h i rule: heap_up.induct)
  case (1 h i)
  show ?case
  proof (cases "0 < i \<and> job_before (h ! i) (h ! par i)")
    case True
    then have "up_ok (heap_swap h (par i) i) (par i)"
      using 1 by (intro up_ok_swap) (auto simp: job_before_iff)
    moreover have "par i < length h" using True "1.prems"(2) par_less [of i] by simp
    ultimately have "heap_ok (heap_up (heap_swap h (par i) i) (par i))"
      using True "1.IH" by (simp add: par_def Let_def)
    with True show ?thesis by (subst heap_up.simps) (simp add: Let_def par_def)
  next
    case False
    with "1.prems" have "heap_ok h"
      by (force simp: up_ok_def heap_ok_def job_before_iff not_less)
    with False show ?thesis by (subst heap_up.simps) (auto simp: Let_def par_def)
  qed
qed

lemma par_children [simp]: "par (2 * i + 1) = i" "par (2 * i + 2) = i"
  by (simp_all add: par_def)

lemma smallest_child_cases:
  assumes "i < length h"
  shows "smallest_child h i = i \<or>
         smallest_child h i < length h \<and> i < smallest_child h i \<and>
         par (smallest_child h i) = i \<and>
         job_key (h ! smallest_child h i) < job_key (h ! i)"
  using assms by (auto simp: smallest_child_def Let_def job_before_iff par_def)

lemma smallest_child_least:
  assumes "i < length h" "0 < j" "j < length h" "par j = i"
  shows "job_key (h ! smallest_child h i) \<le> job_key (h ! j)"
proof -
  from assms have "j = 2 * i + 1 \<or> j = 2 * i + 2" by (simp add: par_child)
  then show ?thesis using assms(3)
    by (auto simp: smallest_child_def Let_def job_before_iff not_less)
qed

lemma down_ok_swap:
  assumes ok: "down_ok h i" and i: "i < length h"
    and s: "s < length h" "i < s" "par s = i"
    and less: "job_key (h ! s) < job_key (h ! i)"
    and least: "\<And>j. 0 < j \<Longrightarrow> j < length h \<Longrightarrow> par j = i \<Longrightarrow> job_key (h ! s) \<le> job_key (h ! j)"
  shows "down_ok (heap_swap h i s) s"
proof -
  let ?h = "heap_swap h i s"
  have nth: "?h ! j = (if j = s then h ! i else if j = i then h ! s else h ! j)" for j
    using s i by (simp add: nth_heap_swap)
  have A: "job_key (h ! par j) \<le> job_key (h ! j)" if "0 < j" "j < length h" "par j \<noteq> i" for j
    using ok that by (auto simp: down_ok_def)
  have B: "job_key (h ! par i) \<le> job_key (h ! s)" if "0 < i"
    using ok that s by (auto simp: down_ok_def)
  have "job_key (?h ! par j) \<le> job_key (?h ! j)"
    if j: "0 < j" "j < length h" "par j \<noteq> s" for j
  proof -
    consider "par j = i" "j = s" | "par j = i" "j \<noteq> s" | "j = i" "par j \<noteq> i"
      | "par j \<noteq> i" "j \<noteq> i" "j \<noteq> s" using s by blast
    then show ?thesis
    proof cases
      case 1
      with less s show ?thesis by (simp add: nth)
    next
      case 2
      with least [OF j(1,2)] par_less [OF j(1)] s show ?thesis by (simp add: nth)
    next
      case 3
      with B j par_less [of i] s show ?thesis by (simp add: nth)
    next
      case 4
      with A [OF j(1,2)] j show ?thesis by (simp add: nth)
    qed
  qed
  moreover have "job_key (?h ! par s) \<le> job_key (?h ! j)"
    if j: "0 < j" "j < length h" "par j = s" for j
    using A [OF j(1,2)] j par_less [OF j(1)] s by (auto simp: nth)
  ultimately show ?thesis by (simp add: down_ok_def)
qed

lemma heap_down_ok: "down_ok h i \<Longrightarrow> i < length h \<Longrightarrow> heap_ok (heap_down h i)"
proof (induction h i rule: heap_down.induct)
  case (1 h i)
  let ?s = "smallest_child h i"
  note sc = smallest_child_cases [OF "1.prems"(2)] smallest_child_least [OF "1.prems"(2)]
  show ?case
  proof (cases "?s = i")
    case True
    have "heap_ok h" unfolding heap_ok_def
    proof (intro allI impI)
      fix j assume j: "0 < j \<and> j < length h"
      show "job_key (h ! par j) \<le> job_key (h ! j)"
      proof (cases "par j = i")
        case True
        with sc(2) [of j] j \<open>?s = i\<close> show ?thesis by simp
      next
        case False
        with j "1.prems"(1) show ?thesis by (simp add: down_ok_def)
      qed
    qed
    with True show ?thesis by (subst heap_down.simps) simp
  next
    case False
    with sc "1.prems" have "down_ok (heap_swap h i ?s) ?s"
      by (intro down_ok_swap) auto
    with False sc "1.IH" have "heap_ok (heap_down (heap_swap h i ?s) ?s)" by simp
    with False show ?thesis by (subst heap_down.simps) (simp add: Let_def)
  qed
qed

lemma heap_root_least: "heap_ok h \<Longrightarrow> i < length h \<Longrightarrow> job_key (h ! 0) \<le> job_key (h ! i)"
proof (induction i rule: less_induct)
  case (less i)
  show ?case
  proof (cases "i = 0")
    case True
    then show ?thesis by simp
  next
    case False
    then have "par i < i" by (simp add: par_less)
    with less have "job_key (h ! 0) \<le> job_key (h ! par i)" by simp
    also have "\<dots> \<le> job_key (h ! i)" using less.prems False by (auto simp: heap_ok_def)
    finally show ?thesis .
  qed
qed

section \<open>Removal and insertion in a heap\<close>

lemma heap_ok_append_up:
  assumes "heap_ok h"
  shows "heap_ok (heap_up (h @ [j]) (length h))"
proof (rule heap_up_ok)
  have "par k < length h" if "k < length h" for k
    using that by (cases "k = 0") (auto simp: par_def)
  moreover have "par k \<noteq> length h" if "k \<le> length h" "0 < k" for k
    using that par_less [of k] by simp
  ultimately show "up_ok (h @ [j]) (length h)"
    using assms by (auto simp: up_ok_def heap_ok_def nth_append less_Suc_eq)
qed simp

text \<open>The array after the last entry moved to \<open>i\<close>: a heap away from \<open>i\<close>.\<close>

lemma hole_away:
  assumes ok: "heap_ok h" and j: "0 < j" "j < length h - 1" "j \<noteq> i" "par j \<noteq> i"
  shows "job_key (swap_remove i h ! par j) \<le> job_key (swap_remove i h ! j)"
proof -
  have "job_key (h ! par j) \<le> job_key (h ! j)" using ok j by (auto simp: heap_ok_def)
  then show ?thesis using j par_less [of j] by (simp add: nth_swap_remove)
qed

lemma hole_grand:
  assumes ok: "heap_ok h" and j: "0 < j" "j < length h - 1" "par j = i" "0 < i"
  shows "job_key (swap_remove i h ! par i) \<le> job_key (swap_remove i h ! j)"
proof -
  have lt: "i < j" "par i < i" using par_less [OF j(1)] par_less [OF j(4)] j(3) by simp_all
  have "job_key (h ! par i) \<le> job_key (h ! i)" using ok j(2,4) lt by (simp add: heap_ok_def)
  also have "\<dots> \<le> job_key (h ! j)" using ok j(1,2,3) by (auto simp: heap_ok_def)
  finally show ?thesis using lt j(2) by (simp add: nth_swap_remove)
qed

lemma heap_ok_butlast:
  assumes "heap_ok h"
  shows "heap_ok (butlast h)"
  unfolding heap_ok_def
proof (intro allI impI)
  fix j assume j: "0 < j \<and> j < length (butlast h)"
  then have "par j < length (butlast h)" using par_less [of j] by simp
  moreover have "job_key (h ! par j) \<le> job_key (h ! j)" using j assms by (auto simp: heap_ok_def)
  ultimately show "job_key (butlast h ! par j) \<le> job_key (butlast h ! j)"
    using j by (simp add: nth_butlast)
qed

lemma hole_up_ok:
  assumes "heap_ok h" "0 < i" "job_before (swap_remove i h ! i) (swap_remove i h ! par i)"
  shows "up_ok (swap_remove i h) i"
proof -
  let ?h = "swap_remove i h"
  have less: "job_key (?h ! i) < job_key (?h ! par i)" using assms(3) by (simp add: job_before_iff)
  have "job_key (?h ! par j) \<le> job_key (?h ! j)" if "0 < j" "j < length h - 1" "j \<noteq> i" for j
    using that hole_away [OF assms(1), of j i] hole_grand [OF assms(1), of j i] less assms(2)
    by (cases "par j = i") auto
  then show ?thesis using hole_grand [OF assms(1)] by (simp add: up_ok_def)
qed

lemma hole_down_ok:
  assumes "heap_ok h" "0 < i \<longrightarrow> \<not> job_before (swap_remove i h ! i) (swap_remove i h ! par i)"
  shows "down_ok (swap_remove i h) i"
proof -
  let ?h = "swap_remove i h"
  have "job_key (?h ! par j) \<le> job_key (?h ! j)" if "0 < j" "j < length h - 1" "par j \<noteq> i" for j
    using that hole_away [OF assms(1), of j i] assms(2)
    by (cases "j = i") (auto simp: job_before_iff not_less)
  then show ?thesis using hole_grand [OF assms(1)] by (simp add: down_ok_def)
qed

lemma heap_remove_at_ok:
  assumes ok: "heap_ok h" and i: "i < length h"
  shows "heap_ok (heap_remove_at h i)"
proof (cases "i < length (swap_remove i h)")
  case False
  then have "swap_remove i h = butlast h" using i by (intro swap_remove_last) simp
  then show ?thesis using False ok by (simp add: heap_remove_at_def Let_def heap_ok_butlast)
next
  case True
  then show ?thesis
    using heap_up_ok [OF hole_up_ok [OF ok], of i] heap_down_ok [OF hole_down_ok [OF ok], of i]
    by (auto simp: heap_remove_at_def Let_def par_def)
qed

lemma mset_heap_remove_at:
  "i < length h \<Longrightarrow> mset (heap_remove_at h i) = mset h - {#h ! i#}"
  by (auto simp: heap_remove_at_def Let_def mset_heap_up mset_heap_down mset_swap_remove)

lemma mset_heap_remove_at_add:
  "i < length h \<Longrightarrow> add_mset (h ! i) (mset (heap_remove_at h i)) = mset h"
  by (simp add: mset_heap_remove_at)

lemma heap_ok_Nil [simp]: "heap_ok []"
  by (simp add: heap_ok_def)

lemma swap_remove_0_mset: "h \<noteq> [] \<Longrightarrow> mset (swap_remove 0 h) = mset h - {#h ! 0#}"
  by (simp add: mset_swap_remove)

definition heap_pop :: "job list \<Rightarrow> job list" where
  "heap_pop h = (let h' = swap_remove 0 h in if length h' > 0 then heap_down h' 0 else h')"

lemma heap_pop_ok: "heap_ok h \<Longrightarrow> heap_ok (heap_pop h)"
  using heap_down_ok [OF hole_down_ok, of h 0]
  by (cases "swap_remove 0 h = []") (auto simp: heap_pop_def Let_def simp flip: length_greater_0_conv)

lemma mset_heap_pop: "h \<noteq> [] \<Longrightarrow> mset (heap_pop h) = mset h - {#h ! 0#}"
  by (auto simp: heap_pop_def Let_def mset_heap_down swap_remove_0_mset [symmetric]
      simp del: length_swap_remove)

lemma queue_try_pop_eq:
  "queue_try_pop q = (if q_heap q = [] then None else Some (q_heap q ! 0, q\<lparr>q_heap := heap_pop (q_heap q)\<rparr>))"
  by (simp add: queue_try_pop_def heap_pop_def Let_def)

section \<open>The operations keep the queue well-formed\<close>

lemma push_locked_spec:
  assumes "queue_ok q"
  shows "queue_ok (snd (push_locked ok q j))"
    and "fst (push_locked ok q j) =
           (if q_shutdown q \<or> queue_size q = q_capacity q \<and> \<not> ok then -1 else 0)"
    and "mset (q_heap (snd (push_locked ok q j))) =
           (if fst (push_locked ok q j) = 0 then add_mset j (mset (q_heap q)) else mset (q_heap q))"
    and "q_shutdown (snd (push_locked ok q j)) = q_shutdown q"
proof -
  have len: "length (heap_up (q_heap q @ [j]) (length (q_heap q))) = Suc (length (q_heap q))"
    by (metis length_append_singleton lessI mset_heap_up size_mset)
  show "queue_ok (snd (push_locked ok q j))"
    using assms by (auto simp: push_locked_def queue_ok_def queue_size_def Let_def len heap_ok_append_up)
qed (auto simp: push_locked_def queue_size_def Let_def mset_heap_up)

lemma queue_try_pop_None: "queue_try_pop q = None \<longleftrightarrow> q_heap q = []"
  by (simp add: queue_try_pop_def Let_def)

lemma queue_try_pop_spec:
  assumes ok: "queue_ok q" and pop: "queue_try_pop q = Some (j, q')"
  shows "queue_ok q'" and "j \<in># mset (q_heap q)"
    and "mset (q_heap q') = mset (q_heap q) - {#j#}"
    and "\<forall>x \<in> set (q_heap q). job_key j \<le> job_key x"
    and "q_shutdown q' = q_shutdown q"
proof -
  have ne: "q_heap q \<noteq> []" and j: "j = q_heap q ! 0"
    and q': "q' = q\<lparr>q_heap := heap_pop (q_heap q)\<rparr>"
    using pop by (auto simp: queue_try_pop_eq split: if_splits)
  show ms: "mset (q_heap q') = mset (q_heap q) - {#j#}"
    using ne by (simp add: q' j mset_heap_pop)
  have "size (mset (q_heap q')) < size (mset (q_heap q))"
    using ne by (simp add: ms j size_Diff_singleton)
  then have "length (q_heap q') < length (q_heap q)" by simp
  moreover have "heap_ok (q_heap q')"
    using ok by (simp add: q' queue_ok_def heap_pop_ok)
  ultimately show "queue_ok q'" using ok by (simp add: queue_ok_def queue_size_def q')
  show "\<forall>x \<in> set (q_heap q). job_key j \<le> job_key x"
    using ok heap_root_least by (auto simp: j queue_ok_def in_set_conv_nth)
  show "j \<in># mset (q_heap q)" using ne j by simp
  show "q_shutdown q' = q_shutdown q" by (simp add: q')
qed

text \<open>The scan keeps the least matching job of the part already seen.\<close>

definition best_upto :: "(job \<Rightarrow> bool) \<Rightarrow> job list \<Rightarrow> nat \<Rightarrow> nat option \<Rightarrow> bool" where
  "best_upto P h i best \<longleftrightarrow>
     (case best of
        None \<Rightarrow> (\<forall>k < i. \<not> P (h ! k))
      | Some b \<Rightarrow> b < i \<and> P (h ! b) \<and> (\<forall>k < i. P (h ! k) \<longrightarrow> job_key (h ! b) \<le> job_key (h ! k)))"

lemma scan_best_upto:
  "best_upto P h i best \<Longrightarrow> i \<le> length h \<Longrightarrow> best_upto P h (length h) (scan_best P h i best)"
proof (induction P h i best rule: scan_best.induct)
  case (1 P h i best)
  show ?case
  proof (cases "i < length h")
    case False
    with "1.prems" show ?thesis by (subst scan_best.simps) simp
  next
    case True
    have skip: "best_upto P h (i + 1) best" if "\<not> P (h ! i)"
      using "1.prems"(1) that by (auto simp: best_upto_def less_Suc_eq split: option.splits)
    have take: "best_upto P h (i + 1) (Some i)"
      if "P (h ! i)" "best = None \<or> job_before (h ! i) (h ! the best)"
      using "1.prems"(1) that
      by (auto simp: best_upto_def less_Suc_eq job_before_iff split: option.splits)
    have keep: "best_upto P h (i + 1) best"
      if "P (h ! i)" "\<not> (best = None \<or> job_before (h ! i) (h ! the best))"
      using "1.prems"(1) that
      by (auto simp: best_upto_def less_Suc_eq job_before_iff not_less split: option.splits)
    show ?thesis
      using True skip take keep "1.IH" by (subst scan_best.simps) auto
  qed
qed

lemma scan_best_spec:
  "best_upto P h (length h) (scan_best P h 0 None)"
  by (rule scan_best_upto) (simp_all add: best_upto_def)

lemma queue_ok_remove_at:
  assumes "queue_ok q" "i < length (q_heap q)"
  shows "queue_ok (q\<lparr>q_heap := heap_remove_at (q_heap q) i\<rparr>)"
proof -
  have "size (mset (heap_remove_at (q_heap q) i)) \<le> size (mset (q_heap q))"
    using assms(2) by (simp add: mset_heap_remove_at size_Diff_singleton)
  then have "length (heap_remove_at (q_heap q) i) \<le> length (q_heap q)" by simp
  with assms show ?thesis
    by (simp add: queue_ok_def queue_size_def heap_remove_at_ok)
qed

section \<open>The interface of a priority queue\<close>

text \<open>
  What the scheduler relies on. \<open>pop_order\<close>: a pop takes a job that no other precedes; from
  this follow the order in which jobs leave the queue and that this order depends only on the jobs
  in it. \<open>prio_queue\<close> adds that a push adds one job; then a job pushed back right after it
  was popped is popped again.
\<close>

locale pop_order =
  fixes pop :: "'q \<Rightarrow> ('j \<times> 'q) option"
    and invar :: "'q \<Rightarrow> bool"
    and content :: "'q \<Rightarrow> 'j multiset"
    and key :: "'j \<Rightarrow> 'k::linorder"
  assumes pop_None: "invar q \<Longrightarrow> pop q = None \<longleftrightarrow> content q = {#}"
    and invar_pop: "invar q \<Longrightarrow> pop q = Some (j, q') \<Longrightarrow> invar q'"
    and content_pop: "invar q \<Longrightarrow> pop q = Some (j, q') \<Longrightarrow> content q = add_mset j (content q')"
    and pop_least: "invar q \<Longrightarrow> pop q = Some (j, q') \<Longrightarrow> x \<in># content q \<Longrightarrow> key j \<le> key x"
begin

lemma pops_invar:
  "invar q \<Longrightarrow> pops pop n q = (js, q') \<Longrightarrow> invar q' \<and> content q = mset js + content q'"
proof (induction n arbitrary: q js)
  case 0
  then show ?case by simp
next
  case (Suc n)
  show ?case
  proof (cases "pop q")
    case None
    with Suc.prems show ?thesis by simp
  next
    case (Some a)
    obtain j q1 where jq: "a = (j, q1)" by (cases a)
    obtain js1 where js1: "pops pop n q1 = (js1, q')" "js = j # js1"
      using Suc.prems(2) Some jq by (auto split: prod.splits)
    have "invar q1" using Suc.prems(1) Some jq by (auto intro: invar_pop)
    with js1(1) have "invar q' \<and> content q1 = mset js1 + content q'" by (rule Suc.IH [rotated])
    moreover have "content q = add_mset j (content q1)"
      using content_pop Suc.prems(1) Some jq by blast
    ultimately show ?thesis using js1 by simp
  qed
qed

lemma pops_sorted:
  "invar q \<Longrightarrow> pops pop n q = (js, q') \<Longrightarrow> sorted (map key js)"
proof (induction n arbitrary: q js)
  case 0
  then show ?case by simp
next
  case (Suc n)
  show ?case
  proof (cases "pop q")
    case None
    with Suc.prems show ?thesis by simp
  next
    case (Some a)
    obtain j q1 where jq: "a = (j, q1)" by (cases a)
    obtain js1 where js1: "pops pop n q1 = (js1, q')" "js = j # js1"
      using Suc.prems(2) Some jq by (auto split: prod.splits)
    have q1: "invar q1" using Suc.prems(1) Some jq by (auto intro: invar_pop)
    have "set js1 \<subseteq> set_mset (content q1)"
      using pops_invar [OF q1 js1(1)] by simp
    also have "\<dots> \<subseteq> set_mset (content q)"
      using content_pop [OF Suc.prems(1)] Some jq by auto
    finally have "\<forall>x \<in> set js1. key j \<le> key x"
      using pop_least [OF Suc.prems(1)] Some jq by blast
    with Suc.IH [OF q1 js1(1)] js1 show ?thesis by simp
  qed
qed

lemma pops_length:
  "invar q \<Longrightarrow> pops pop n q = (js, q') \<Longrightarrow> length js = min n (size (content q))"
proof (induction n arbitrary: q js)
  case 0
  then show ?case by simp
next
  case (Suc n)
  show ?case
  proof (cases "pop q")
    case None
    with Suc.prems pop_None [OF Suc.prems(1)] show ?thesis by simp
  next
    case (Some a)
    obtain j q1 where jq: "a = (j, q1)" by (cases a)
    obtain js1 where js1: "pops pop n q1 = (js1, q')" "js = j # js1"
      using Suc.prems(2) Some jq by (auto split: prod.splits)
    have "invar q1" using Suc.prems(1) Some jq by (auto intro: invar_pop)
    moreover have "content q = add_mset j (content q1)"
      using content_pop Suc.prems(1) Some jq by blast
    ultimately show ?thesis using Suc.IH [OF _ js1(1)] js1 by simp
  qed
qed

lemma pops_all:
  assumes "invar q" "size (content q) \<le> n" "pops pop n q = (js, q')"
  shows "mset js = content q \<and> sorted (map key js) \<and> content q' = {#}"
proof -
  have "size (mset js) = size (content q)" using pops_length [OF assms(1,3)] assms(2) by simp
  moreover have c: "content q = mset js + content q'" using pops_invar [OF assms(1,3)] by simp
  ultimately have "content q' = {#}" by simp
  with c pops_sorted [OF assms(1,3)] show ?thesis by simp
qed

text \<open>With distinct keys the order depends only on the content.\<close>

lemma pops_deterministic:
  assumes "invar q1" "invar q2" "content q1 = content q2" "inj_on key (set_mset (content q1))"
    and "pops pop n q1 = (js1, r1)" "pops pop n q2 = (js2, r2)" "size (content q1) \<le> n"
  shows "js1 = js2"
proof -
  have 1: "mset js1 = content q1" "sorted (map key js1)"
    using pops_all [OF assms(1,7,5)] by simp_all
  have 2: "mset js2 = content q1" "sorted (map key js2)"
    using pops_all [OF assms(2) _ assms(6)] assms(3,7) by simp_all
  have "mset (map key js1) = mset (map key js2)" using 1(1) 2(1) by (simp add: mset_map)
  then have "map key js1 = map key js2" using 1(2) 2(2)
    by (metis properties_for_sort)
  moreover have "set js1 = set_mset (content q1)" "set js2 = set_mset (content q1)"
    using 1(1) 2(1) set_mset_mset by metis+
  ultimately show ?thesis using assms(4) by (metis inj_on_map_eq_map Un_absorb)
qed

end

locale prio_queue = pop_order pop invar content key
  for pop :: "'q \<Rightarrow> ('j \<times> 'q) option"
    and invar :: "'q \<Rightarrow> bool"
    and content :: "'q \<Rightarrow> 'j multiset"
    and key :: "'j \<Rightarrow> 'k::linorder" +
  fixes push :: "'j \<Rightarrow> 'q \<Rightarrow> 'q"
  assumes invar_push: "invar q \<Longrightarrow> invar (push j q)"
    and content_push: "invar q \<Longrightarrow> content (push j q) = add_mset j (content q)"
begin

text \<open>A job pushed back right after it was popped is the next one popped.\<close>

lemma requeue_head:
  assumes q: "invar q" "pop q = Some (j, q')" and inj: "inj_on key (set_mset (content q))"
  shows "\<exists>q''. pop (push j q') = Some (j, q'') \<and> invar q'' \<and> content q'' = content q'"
proof -
  have q': "invar q'" and c: "content q = add_mset j (content q')"
    using q by (auto intro: invar_pop content_pop)
  have p: "invar (push j q')" "content (push j q') = content q"
    using q' c by (simp_all add: invar_push content_push)
  then obtain k q'' where k: "pop (push j q') = Some (k, q'')"
    using pop_None [OF p(1)] c by (cases "pop (push j q')") auto
  have ck: "content q = add_mset k (content q'')" using content_pop [OF p(1) k] p(2) by simp
  have "key k \<le> key j" using pop_least [OF p(1) k, of j] p(2) c by simp
  moreover have "key j \<le> key k" using pop_least [OF q, of k] ck by simp
  moreover have "k \<in># content q" by (simp add: ck)
  moreover have "j \<in># content q" by (simp add: c)
  ultimately have "k = j" using inj by (auto dest: inj_onD)
  moreover have "invar q''" using invar_pop [OF p(1) k] .
  ultimately show ?thesis using k c ck by auto
qed

end

interpretation dq: pop_order queue_try_pop queue_ok "\<lambda>q. mset (q_heap q)" job_key
proof unfold_locales
  fix q j q' x
  assume ok: "queue_ok q"
  show "(queue_try_pop q = None) = (mset (q_heap q) = {#})" by (simp add: queue_try_pop_None)
  assume pop: "queue_try_pop q = Some (j, q')"
  note spec = queue_try_pop_spec [OF ok pop]
  show "queue_ok q'" using spec by simp
  show "mset (q_heap q) = add_mset j (mset (q_heap q'))" using spec by simp
  show "x \<in># mset (q_heap q) \<Longrightarrow> job_key j \<le> job_key x" using spec by simp
qed

text \<open>A queue that accepts jobs: it was not shut down, and its array can grow.\<close>

definition queue_open :: "queue \<Rightarrow> bool" where
  "queue_open q \<longleftrightarrow> queue_ok q \<and> \<not> q_shutdown q"

interpretation jq: prio_queue
  queue_try_pop queue_open "\<lambda>q. mset (q_heap q)" job_key "\<lambda>j q. snd (push_locked True q j)"
  by unfold_locales
     (auto simp: queue_open_def push_locked_spec queue_try_pop_None queue_try_pop_spec
        dest: queue_try_pop_spec(1,3,4,5) dq.content_pop)

section \<open>Properties of the queue\<close>

lemma pop_matching_spec:
  assumes ok: "queue_ok q" and r: "queue_try_pop_matching q (Some P) = Some (j, q')"
  shows "queue_ok q' \<and> P j \<and> mset (q_heap q) = add_mset j (mset (q_heap q')) \<and>
         (\<forall>x \<in> set (q_heap q). P x \<longrightarrow> job_key j \<le> job_key x)"
proof -
  from r obtain b where b: "scan_best P (q_heap q) 0 None = Some b"
    and j: "j = q_heap q ! b" and q': "q' = q\<lparr>q_heap := heap_remove_at (q_heap q) b\<rparr>"
    by (auto split: option.splits)
  have best: "b < length (q_heap q)" "P j"
    "\<forall>k < length (q_heap q). P (q_heap q ! k) \<longrightarrow> job_key j \<le> job_key (q_heap q ! k)"
    using scan_best_spec [of P "q_heap q"] by (simp_all add: best_upto_def b j)
  then show ?thesis
    using queue_ok_remove_at [OF ok best(1)]
    by (auto simp: q' j in_set_conv_nth mset_heap_remove_at_add)
qed

lemma queue_remove_spec:
  assumes ok: "queue_ok q" and r: "queue_remove (Some q) (Some i) = (Some j, Some q')"
  shows "queue_ok q' \<and> j_id j = i \<and> mset (q_heap q) = add_mset j (mset (q_heap q'))"
proof -
  from r obtain k where k: "find_idx (\<lambda>j. strcmp (j_id j) i = 0) (q_heap q) = Some k"
    and j: "j = q_heap q ! k" and q': "q' = q\<lparr>q_heap := heap_remove_at (q_heap q) k\<rparr>"
    by (auto split: option.splits)
  have "k < length (q_heap q)" "j_id j = i" using find_idx_SomeD [OF k] by (simp_all add: j)
  then show ?thesis
    using queue_ok_remove_at [OF ok] by (auto simp: q' j mset_heap_remove_at_add)
qed

definition demo_job :: "string \<Rightarrow> int \<Rightarrow> job" where
  "demo_job i p = job_zero\<lparr>j_id := i, j_priority := p, j_req_cores := 1\<rparr>"

definition demo_queue :: queue where
  "demo_queue = \<lparr> q_heap = [demo_job ''b'' 10, demo_job ''a'' 50, demo_job ''c'' 20],
                  q_capacity = 8, q_shutdown = False \<rparr>"

lemma demo_queue_ok: "queue_ok demo_queue"
  by (auto simp: queue_ok_def demo_queue_def heap_ok_def par_def queue_size_def demo_job_def
      job_key_def less_eq_job_key_def less_Suc_eq numeral_3_eq_3)

text \<open>
  \<open>queue_push\<close> on a well-formed queue refuses (result -1, queue unchanged) exactly when the
  queue was shut down or its array is full and cannot grow; otherwise it returns 0, adds exactly the
  job, and keeps the array a heap within its capacity.
\<close>

theorem queue_push_correct:
  assumes "queue_ok q"
  shows "let (r, p) = queue_push ok (Some q) (Some j) in
           \<exists>q'. p = Some q' \<and> queue_ok q' \<and> q_shutdown q' = q_shutdown q \<and>
             (if q_shutdown q \<or> queue_size q = q_capacity q \<and> \<not> ok then r = -1 \<and> q' = q
              else r = 0 \<and> mset (q_heap q') = add_mset j (mset (q_heap q)))"
  using push_locked_spec [OF assms, of ok j]
  by (auto simp: case_prod_beta Let_def push_locked_def queue_size_def)

theorem queue_push_correct_witness:
  "queue_ok demo_queue \<and>
   (let (r, p) = queue_push True (Some demo_queue) (Some (demo_job ''d'' 5)) in
      \<exists>q'. p = Some q' \<and> queue_ok q' \<and> q_shutdown q' = q_shutdown demo_queue \<and>
        (if q_shutdown demo_queue \<or> queue_size demo_queue = q_capacity demo_queue \<and> \<not> True
         then r = -1 \<and> q' = demo_queue
         else r = 0 \<and> mset (q_heap q') = add_mset (demo_job ''d'' 5) (mset (q_heap demo_queue))))"
  using demo_queue_ok queue_push_correct [OF demo_queue_ok, of True "demo_job ''d'' 5"] by simp

text \<open>
  C31: \<open>queue_try_pop\<close> returns nothing exactly on an empty queue; otherwise it takes out one job
  that no other precedes in (priority, submission time, identifier) and leaves a well-formed queue
  with exactly the other jobs.
\<close>

theorem queue_try_pop_correct:
  assumes "queue_ok q"
  shows "case queue_try_pop q of
           None \<Rightarrow> q_heap q = []
         | Some (j, q') \<Rightarrow>
             queue_ok q' \<and> mset (q_heap q) = add_mset j (mset (q_heap q')) \<and>
             (\<forall>x \<in> set (q_heap q). \<not> job_before x j)"
  using queue_try_pop_spec [OF assms]
  by (auto simp: queue_try_pop_None job_before_iff not_less split: option.splits)

theorem queue_try_pop_correct_witness:
  "queue_ok demo_queue \<and>
   (case queue_try_pop demo_queue of
      None \<Rightarrow> q_heap demo_queue = []
    | Some (j, q') \<Rightarrow>
        queue_ok q' \<and> mset (q_heap demo_queue) = add_mset j (mset (q_heap q')) \<and>
        (\<forall>x \<in> set (q_heap demo_queue). \<not> job_before x j))"
  using demo_queue_ok queue_try_pop_correct [OF demo_queue_ok] by blast

text \<open>
  \<open>queue_try_pop_matching\<close> with a predicate returns nothing exactly when no queued job
  satisfies it; otherwise it takes out a satisfying job that no other satisfying job precedes, and
  leaves a well-formed queue with exactly the other jobs.
\<close>

theorem queue_try_pop_matching_correct:
  assumes "queue_ok q"
  shows "case queue_try_pop_matching q (Some P) of
           None \<Rightarrow> (\<forall>x \<in> set (q_heap q). \<not> P x)
         | Some (j, q') \<Rightarrow>
             queue_ok q' \<and> P j \<and> mset (q_heap q) = add_mset j (mset (q_heap q')) \<and>
             (\<forall>x \<in> set (q_heap q). P x \<longrightarrow> \<not> job_before x j)"
proof (cases "queue_try_pop_matching q (Some P)")
  case None
  then show ?thesis using scan_best_spec [of P "q_heap q"]
    by (auto simp: best_upto_def in_set_conv_nth split: option.splits)
next
  case (Some r)
  then show ?thesis using pop_matching_spec [OF assms]
    by (cases r) (auto simp: job_before_iff not_less)
qed

theorem queue_try_pop_matching_correct_witness:
  "queue_ok demo_queue \<and>
   (case queue_try_pop_matching demo_queue (Some (\<lambda>j. j_priority j > 15)) of
      None \<Rightarrow> (\<forall>x \<in> set (q_heap demo_queue). \<not> j_priority x > 15)
    | Some (j, q') \<Rightarrow>
        queue_ok q' \<and> j_priority j > 15 \<and>
        mset (q_heap demo_queue) = add_mset j (mset (q_heap q')) \<and>
        (\<forall>x \<in> set (q_heap demo_queue). j_priority x > 15 \<longrightarrow> \<not> job_before x j))"
  using demo_queue_ok queue_try_pop_matching_correct [OF demo_queue_ok, of "\<lambda>j. j_priority j > 15"]
  by blast

text \<open>
  \<open>queue_remove\<close> finds a job exactly when one with that identifier is queued; it then takes
  out one such job and leaves a well-formed queue with exactly the others, and otherwise leaves the
  queue as it was.
\<close>

theorem queue_remove_correct:
  assumes "queue_ok q"
  shows "case queue_remove (Some q) (Some i) of
           (None, q') \<Rightarrow> q' = Some q \<and> i \<notin> j_id ` set (q_heap q)
         | (Some j, q') \<Rightarrow>
             j_id j = i \<and>
             (\<exists>p. q' = Some p \<and> queue_ok p \<and> mset (q_heap q) = add_mset j (mset (q_heap p)))"
proof (cases "find_idx (\<lambda>j. strcmp (j_id j) i = 0) (q_heap q)")
  case None
  then have "\<forall>j \<in> set (q_heap q). j_id j \<noteq> i" by (simp add: find_idx_None)
  with None show ?thesis by auto
next
  case (Some k)
  then show ?thesis using queue_remove_spec [OF assms, of i] by simp
qed

theorem queue_remove_correct_witness:
  "queue_ok demo_queue \<and>
   (case queue_remove (Some demo_queue) (Some ''a'') of
      (None, q') \<Rightarrow> q' = Some demo_queue \<and> ''a'' \<notin> j_id ` set (q_heap demo_queue)
    | (Some j, q') \<Rightarrow>
        j_id j = ''a'' \<and>
        (\<exists>p. q' = Some p \<and> queue_ok p \<and> mset (q_heap demo_queue) = add_mset j (mset (q_heap p))))"
  using demo_queue_ok queue_remove_correct [OF demo_queue_ok, of "''a''"] by blast

text \<open>
  Emptying a well-formed queue ends with an empty queue and frees every job once, in the order
  of (priority, submission time, identifier).
\<close>

theorem queue_drain_sorted:
  assumes "queue_ok q"
  shows "mset (fst (queue_drain q)) = mset (q_heap q) \<and>
         sorted (map job_key (fst (queue_drain q))) \<and> q_heap (snd (queue_drain q)) = []"
  using dq.pops_all [OF assms, of "Suc (length (q_heap q))"]
  by (cases "queue_drain q") (simp add: queue_drain_def)

theorem queue_drain_sorted_witness:
  "queue_ok demo_queue \<and>
   mset (fst (queue_drain demo_queue)) = mset (q_heap demo_queue) \<and>
   sorted (map job_key (fst (queue_drain demo_queue))) \<and> q_heap (snd (queue_drain demo_queue)) = []"
  using demo_queue_ok queue_drain_sorted [OF demo_queue_ok] by blast

text \<open>
  The order in which jobs leave the queue is deterministic: two well-formed queues that hold the
  same jobs, with distinct identifiers, serve them in the same order, whatever the order of the
  pushes and removals that built them.
\<close>

theorem queue_order_deterministic:
  assumes "queue_ok p" and "queue_ok q" and "mset (q_heap p) = mset (q_heap q)"
    and "distinct (map j_id (q_heap p))"
  shows "fst (queue_drain p) = fst (queue_drain q)"
proof -
  have len: "length (q_heap p) = length (q_heap q)" using assms(3) by (metis size_mset)
  have inj: "inj_on job_key (set_mset (mset (q_heap p)))"
    using assms(4) by (auto simp: inj_on_def distinct_map dest: job_key_eqD)
  obtain js r ks t where "pops queue_try_pop (Suc (length (q_heap p))) p = (js, r)"
    and "pops queue_try_pop (Suc (length (q_heap p))) q = (ks, t)" by fastforce
  moreover from dq.pops_deterministic [OF assms(1-3) inj this] have "js = ks" by simp
  ultimately show ?thesis by (simp add: queue_drain_def len)
qed

theorem queue_order_deterministic_witness:
  "queue_ok demo_queue \<and>
   fst (queue_drain demo_queue) =
   fst (queue_drain (demo_queue\<lparr>q_capacity := 16\<rparr>))"
proof -
  have ok: "queue_ok (demo_queue\<lparr>q_capacity := 16\<rparr>)"
    using demo_queue_ok by (simp add: queue_ok_def queue_size_def demo_queue_def)
  have d: "distinct (map j_id (q_heap demo_queue))"
    by (simp add: demo_queue_def demo_job_def)
  show ?thesis using demo_queue_ok queue_order_deterministic [OF demo_queue_ok ok _ d] by simp
qed

end
