(* ===== verification/Db.thy ===== *)
theory Db
  imports Job
begin

text \<open>
  The persistence layer of \<open>src/persistence/db.c\<close>: the tables as lists of rows in the order of
  their row identifiers, the statements the functions run on them, and the transactions.

  SQLite itself is outside the sources. A statement either runs completely, on the rows the
  tables hold at that moment, or fails without effect; which of the two is the environment's
  choice, taken from the list \<open>db_plan\<close> (an exhausted list means success). Failing
  while the statement is prepared and failing while it is stepped are told apart where the
  code does. \<open>BEGIN\<close> saves the tables and is refused inside a transaction, \<open>ROLLBACK\<close> restores
  them, a failed \<open>COMMIT\<close> leaves the transaction open. \<open>now\<close> is the clock
  (\<open>strftime('%s','now')\<close> or \<open>time(NULL)\<close>). Each function is one atomic step.
  Rows with equal keys of an \<open>ORDER BY\<close> stay in table order.
\<close>

section \<open>Tables and statements\<close>

record job_row =
  r_id :: string
  r_command :: string
  r_status :: job_status
  r_priority :: int
  r_req_cores :: int
  r_req_gpu :: int
  r_req_ram_mb :: int
  r_req_disk_mb :: int
  r_machine_id :: "string option"
  r_input_dir :: string
  r_output_dir :: string
  r_exit_code :: "int option"
  r_submitted_at :: int
  r_started_at :: "int option"
  r_ended_at :: "int option"
  r_input_files :: string
  r_timeout_seconds :: int
  r_status_reason :: string
  r_user_id :: string
  r_app_id :: string
  r_depends_on :: string
  r_workflow_id :: string
  r_same_machine_as :: string
  r_batch_id :: string

record alloc_row =
  al_job_id :: string
  al_machine_id :: string
  al_cores :: int
  al_gpu :: int
  al_ram_mb :: int
  al_disk_mb :: int
  al_allocated_at :: int
  al_released_at :: "int option"

record batch_row =
  ba_id :: string
  ba_name :: string
  ba_user_id :: string
  ba_created_at :: int

record artifact_row =
  ar_id :: int
  ar_job_id :: string
  ar_type :: string
  ar_uri :: string
  ar_size_bytes :: int
  ar_checksum :: string
  ar_created_at :: int

record key_row =
  ak_key_hash :: string
  ak_label :: string
  ak_role :: string
  ak_user_id :: string
  ak_created_at :: int
  ak_expires_at :: int
  ak_revoked :: bool

record quota =
  qu_user_id :: string
  qu_app_id :: string
  qu_max_jobs :: int
  qu_max_ram_mb :: int
  qu_max_cores :: int
  qu_max_concurrent :: int

record submission_row =
  su_user_id :: string
  su_idempotency_key :: string
  su_job_id :: string
  su_created_at :: int

record user_row =
  us_user_id :: string
  us_display_name :: string
  us_email :: string
  us_password_hash :: string
  us_enabled :: int
  us_created_at :: int

record workflow_row =
  wf_id :: string
  wf_name :: string
  wf_owner_id :: string
  wf_is_global :: int
  wf_steps_json :: string
  wf_created_at :: int
  wf_updated_at :: int

record event_row =
  ev_id :: int
  ev_category :: string
  ev_event_type :: string
  ev_detail :: string
  ev_user_id :: string
  ev_job_id :: string
  ev_machine_id :: string
  ev_created_at :: int

record tables =
  t_jobs :: "job_row list"
  t_allocations :: "alloc_row list"
  t_batches :: "batch_row list"
  t_artifacts :: "artifact_row list"
  t_artifact_seq :: int
  t_api_keys :: "key_row list"
  t_quotas :: "quota list"
  t_submission_keys :: "submission_row list"
  t_users :: "user_row list"
  t_workflows :: "workflow_row list"
  t_favorites :: "(string \<times> string) list"
  t_events :: "event_row list"
  t_event_seq :: int
  t_audit_log :: "(string \<times> string \<times> int) list"

datatype sql_outcome = SQL_OK | SQL_PREPARE_FAILS | SQL_STEP_FAILS

record db =
  db_tables :: tables
  db_is_open :: bool
  db_saved :: "tables option"
  db_transaction_active :: bool
  db_plan :: "sql_outcome list"

definition empty_tables :: tables where
  "empty_tables = \<lparr> t_jobs = [], t_allocations = [], t_batches = [], t_artifacts = [],
     t_artifact_seq = 0, t_api_keys = [], t_quotas = [], t_submission_keys = [], t_users = [],
     t_workflows = [], t_favorites = [], t_events = [], t_event_seq = 0, t_audit_log = [] \<rparr>"

definition opened_db :: "tables \<Rightarrow> db" where
  "opened_db t = \<lparr> db_tables = t, db_is_open = True, db_saved = None,
     db_transaction_active = False, db_plan = [] \<rparr>"

definition sql_next :: "db \<Rightarrow> sql_outcome \<times> db" where
  "sql_next d = (case db_plan d of [] \<Rightarrow> (SQL_OK, d) | x # xs \<Rightarrow> (x, d\<lparr>db_plan := xs\<rparr>))"

text \<open>
  A writing statement; the function on the tables is \<open>None\<close> when a constraint refuses it.
  The number is that of \<open>sqlite3_changes\<close>.
\<close>

definition sql_write :: "(tables \<Rightarrow> (tables \<times> nat) option) \<Rightarrow> db \<Rightarrow> nat option \<times> db" where
  "sql_write f d =
     (let (x, d') = sql_next d in
      case x of
        SQL_OK \<Rightarrow> (case f (db_tables d') of
                     None \<Rightarrow> (None, d')
                   | Some (t, n) \<Rightarrow> (Some n, d'\<lparr>db_tables := t\<rparr>))
      | _ \<Rightarrow> (None, d'))"

text \<open>\<open>return rc == SQLITE_DONE ? 0 : -1;\<close>\<close>

definition sql_run :: "(tables \<Rightarrow> (tables \<times> nat) option) \<Rightarrow> db \<Rightarrow> int \<times> db" where
  "sql_run f d = (let (r, d') = sql_write f d in (if r = None then -1 else 0, d'))"

definition sql_read :: "(tables \<Rightarrow> 'a) \<Rightarrow> 'a \<Rightarrow> 'a \<Rightarrow> db \<Rightarrow> 'a \<times> db" where
  "sql_read f on_prepare on_step d =
     (let (x, d') = sql_next d in
      case x of
        SQL_OK \<Rightarrow> (f (db_tables d'), d')
      | SQL_PREPARE_FAILS \<Rightarrow> (on_prepare, d')
      | SQL_STEP_FAILS \<Rightarrow> (on_step, d'))"

text \<open>\<open>UPDATE ... WHERE P\<close> and \<open>DELETE ... WHERE P\<close> on one list of rows, with the rows changed.\<close>

definition update_rows :: "('r \<Rightarrow> bool) \<Rightarrow> ('r \<Rightarrow> 'r) \<Rightarrow> 'r list \<Rightarrow> 'r list \<times> nat" where
  "update_rows P f rows = (map (\<lambda>r. if P r then f r else r) rows, length (filter P rows))"

definition update_jobs :: "(job_row \<Rightarrow> bool) \<Rightarrow> (job_row \<Rightarrow> job_row) \<Rightarrow> tables \<Rightarrow> (tables \<times> nat) option" where
  "update_jobs P f t =
     (let (rows, n) = update_rows P f (t_jobs t) in Some (t\<lparr>t_jobs := rows\<rparr>, n))"

definition update_job :: "string \<Rightarrow> (job_row \<Rightarrow> job_row) \<Rightarrow> db \<Rightarrow> int \<times> db" where
  "update_job job_id f = sql_run (update_jobs (\<lambda>r. r_id r = job_id) f)"

subsection \<open>Transactions\<close>

definition sql_begin :: "db \<Rightarrow> bool \<times> db" where
  "sql_begin d =
     (let (x, d') = sql_next d in
      if x = SQL_OK \<and> db_saved d' = None then (True, d'\<lparr>db_saved := Some (db_tables d')\<rparr>)
      else (False, d'))"

definition sql_commit :: "db \<Rightarrow> bool \<times> db" where
  "sql_commit d =
     (let (x, d') = sql_next d in
      if x = SQL_OK \<and> db_saved d' \<noteq> None then (True, d'\<lparr>db_saved := None\<rparr>) else (False, d'))"

definition sql_rollback :: "db \<Rightarrow> bool \<times> db" where
  "sql_rollback d =
     (case db_saved d of
        None \<Rightarrow> (False, d)
      | Some t \<Rightarrow> (True, d\<lparr>db_tables := t, db_saved := None\<rparr>))"

definition db_begin :: "db \<Rightarrow> int \<times> db" where
  "db_begin d =
     (if \<not> db_is_open d then (-1, d)
      else if db_transaction_active d then (-1, d)
      else let (ok, d') = sql_begin d in
           if \<not> ok then (-1, d') else (0, d'\<lparr>db_transaction_active := True\<rparr>))"

definition db_commit :: "db \<Rightarrow> int \<times> db" where
  "db_commit d =
     (if \<not> db_is_open d \<or> \<not> db_transaction_active d then (-1, d)
      else let (ok, d1) = sql_commit d;
               d2 = (if ok then d1 else snd (sql_rollback d1))
           in (if ok then 0 else -1, d2\<lparr>db_transaction_active := False\<rparr>))"

definition db_rollback :: "db \<Rightarrow> int \<times> db" where
  "db_rollback d =
     (if \<not> db_is_open d \<or> \<not> db_transaction_active d then (-1, d)
      else let (ok, d1) = sql_rollback d
           in (if ok then 0 else -1, d1\<lparr>db_transaction_active := False\<rparr>))"

subsection \<open>Jobs\<close>

definition insert_job_row :: "job \<Rightarrow> job_row" where
  "insert_job_row job = \<lparr> r_id = j_id job, r_command = j_command job, r_status = j_status job,
     r_priority = j_priority job, r_req_cores = j_req_cores job, r_req_gpu = j_req_gpu job,
     r_req_ram_mb = j_req_ram_mb job, r_req_disk_mb = j_req_disk_mb job, r_machine_id = None,
     r_input_dir = j_input_dir job, r_output_dir = j_output_dir job, r_exit_code = None,
     r_submitted_at = j_submitted_at job, r_started_at = None, r_ended_at = None,
     r_input_files = j_input_files job, r_timeout_seconds = j_timeout_seconds job,
     r_status_reason = [], r_user_id = j_user_id job, r_app_id = j_app_id job,
     r_depends_on = j_depends_on job, r_workflow_id = j_workflow_id job,
     r_same_machine_as = j_same_machine_as job, r_batch_id = j_batch_id job \<rparr>"

definition db_insert_job :: "job \<Rightarrow> db \<Rightarrow> int \<times> db" where
  "db_insert_job job = sql_run (\<lambda>t.
     if j_id job \<in> r_id ` set (t_jobs t) then None
     else Some (t\<lparr>t_jobs := t_jobs t @ [insert_job_row job]\<rparr>, 1))"

definition db_update_job_status :: "string \<Rightarrow> job_status \<Rightarrow> int \<Rightarrow> int \<Rightarrow> db \<Rightarrow> int \<times> db" where
  "db_update_job_status job_id status exit_code ended_at =
     update_job job_id (\<lambda>r. r\<lparr>r_status := status, r_exit_code := Some exit_code,
                               r_ended_at := Some ended_at\<rparr>)"

text \<open>The jump to \<open>rollback\<close> and the exits with -1.\<close>

definition fail_rollback :: "db \<Rightarrow> int \<times> db" where
  "fail_rollback d = (-1, snd (sql_rollback d))"

definition db_retry_job :: "string \<Rightarrow> db \<Rightarrow> int \<times> db" where
  "db_retry_job job_id d =
     (let (ok, d1) = sql_begin d in
      if \<not> ok then (-1, d1)
      else let (n, d2) = sql_write (update_jobs
                 (\<lambda>r. r_id r = job_id \<and> r_status r \<in> {JOB_STATUS_FAILED, JOB_STATUS_CANCELLED})
                 (\<lambda>r. r\<lparr>r_status := JOB_STATUS_QUEUED, r_machine_id := Some [], r_exit_code := None,
                         r_started_at := None, r_ended_at := None,
                         r_status_reason := ''Retry requested''\<rparr>)) d1 in
           if n \<noteq> Some 1 then fail_rollback d2
           else let (m, d3) = sql_write (\<lambda>t. Some (t\<lparr>t_artifacts :=
                      filter (\<lambda>a. ar_job_id a \<noteq> job_id) (t_artifacts t)\<rparr>, 0)) d2 in
                if m = None then fail_rollback d3
                else let (c, d4) = sql_commit d3 in
                     if c then (0, d4) else fail_rollback d4)"

definition db_update_job_started :: "string \<Rightarrow> string \<Rightarrow> int \<Rightarrow> db \<Rightarrow> int \<times> db" where
  "db_update_job_started job_id machine_id started_at =
     update_job job_id (\<lambda>r. r\<lparr>r_machine_id := Some machine_id, r_started_at := Some started_at,
                               r_status := JOB_STATUS_RUNNING\<rparr>)"

text \<open>A \<open>NULL\<close> column leaves the zeroed field.\<close>

definition col_int :: "int option \<Rightarrow> int" where
  "col_int c = (case c of None \<Rightarrow> 0 | Some v \<Rightarrow> v)"

definition col_text :: "string option \<Rightarrow> string" where
  "col_text c = (case c of None \<Rightarrow> [] | Some s \<Rightarrow> s)"

text \<open>\<open>batch_col\<close>: whether the statement selects \<open>batch_id\<close> as its last column.\<close>

definition row_to_job :: "bool \<Rightarrow> job_row \<Rightarrow> job" where
  "row_to_job batch_col r = \<lparr> j_id = buf JOB_ID_LEN (r_id r), j_command = buf JOB_CMD_LEN (r_command r),
     j_user_id = buf JOB_USER_LEN (r_user_id r), j_app_id = buf JOB_APP_LEN (r_app_id r),
     j_status = r_status r, j_priority = r_priority r, j_req_cores = r_req_cores r,
     j_req_gpu = r_req_gpu r, j_req_ram_mb = r_req_ram_mb r, j_req_disk_mb = r_req_disk_mb r,
     j_machine_id = buf 64 (col_text (r_machine_id r)), j_input_dir = buf 512 (r_input_dir r),
     j_output_dir = buf 512 (r_output_dir r), j_input_files = buf 2048 (r_input_files r),
     j_submitted_at = r_submitted_at r, j_started_at = col_int (r_started_at r),
     j_ended_at = col_int (r_ended_at r), j_exit_code = col_int (r_exit_code r),
     j_timeout_seconds = r_timeout_seconds r, j_status_reason = buf 256 (r_status_reason r),
     j_depends_on = buf 2048 (r_depends_on r), j_workflow_id = buf 64 (r_workflow_id r),
     j_batch_id = (if batch_col then buf 64 (r_batch_id r) else []),
     j_same_machine_as = buf JOB_ID_LEN (r_same_machine_as r) \<rparr>"

text \<open>\<open>None\<close> is the result -1.\<close>

definition db_load_jobs_by_status :: "bool \<Rightarrow> job_status \<Rightarrow> db \<Rightarrow> job list option \<times> db" where
  "db_load_jobs_by_status calloc_ok status d =
     (let (n, d1) = sql_read (\<lambda>t. Some (length (filter (\<lambda>r. r_status r = status) (t_jobs t))))
                      None (Some 0) d in
      case n of
        None \<Rightarrow> (None, d1)
      | Some expected \<Rightarrow>
          if expected = 0 then (Some [], d1)
          else if \<not> calloc_ok then (None, d1)
          else sql_read (\<lambda>t. Some (map (row_to_job False) (take expected
                 (sort_key r_priority (sort_key r_submitted_at
                    (filter (\<lambda>r. r_status r = status) (t_jobs t)))))))
                 None (Some []) d1)"

definition release_all_allocations :: "int \<Rightarrow> tables \<Rightarrow> (tables \<times> nat) option" where
  "release_all_allocations now t =
     (let (rows, n) = update_rows (\<lambda>a. al_released_at a = None) (\<lambda>a. a\<lparr>al_released_at := Some now\<rparr>)
                        (t_allocations t)
      in Some (t\<lparr>t_allocations := rows\<rparr>, n))"

definition interrupt_jobs :: "int \<Rightarrow> string \<Rightarrow> tables \<Rightarrow> (tables \<times> nat) option" where
  "interrupt_jobs now reason =
     update_jobs (\<lambda>r. r_status r \<in> {JOB_STATUS_LEGACY_1, JOB_STATUS_RUNNING})
       (\<lambda>r. r\<lparr>r_status := JOB_STATUS_FAILED, r_exit_code := Some (-1), r_ended_at := Some now,
               r_status_reason := reason\<rparr>)"

definition db_recover_after_restart :: "int \<Rightarrow> db \<Rightarrow> int \<times> db" where
  "db_recover_after_restart now d =
     (let (b, d1) = db_begin d in
      if b \<noteq> 0 then (-1, d1)
      else let (n, d2) = sql_write (interrupt_jobs now ''Interrupted by orchestrator restart'') d1 in
           case n of
             None \<Rightarrow> (-1, snd (db_rollback d2))
           | Some interrupted \<Rightarrow>
               let (m, d3) = sql_write (release_all_allocations now) d2 in
               if m = None then (-1, snd (db_rollback d3))
               else let (c, d4) = db_commit d3 in
                    if c \<noteq> 0 then (-1, d4) else (int interrupted, d4))"

definition db_get_job :: "string \<Rightarrow> db \<Rightarrow> job option \<times> db" where
  "db_get_job job_id =
     sql_read (\<lambda>t. map_option (row_to_job True) (find (\<lambda>r. r_id r = job_id) (t_jobs t))) None None"

definition select_jobs ::
  "(job_row \<Rightarrow> bool) \<Rightarrow> (job_row list \<Rightarrow> job_row list) \<Rightarrow> int \<Rightarrow> int \<Rightarrow> tables \<Rightarrow> job list" where
  "select_jobs P order limit offset t =
     map (row_to_job True) (take (nat limit) (drop (nat offset) (order (filter P (t_jobs t)))))"

definition newest_first :: "job_row list \<Rightarrow> job_row list" where
  "newest_first = sort_key (\<lambda>r. - r_submitted_at r)"

definition db_list_jobs :: "int \<Rightarrow> db \<Rightarrow> job list \<times> db" where
  "db_list_jobs max_count = sql_read (select_jobs (\<lambda>r. True) newest_first max_count 0) [] []"

definition db_query_jobs ::
  "bool \<Rightarrow> string option \<Rightarrow> int \<Rightarrow> string option \<Rightarrow> int \<Rightarrow> int \<Rightarrow> db \<Rightarrow> job list option \<times> db" where
  "db_query_jobs calloc_ok user_id status app_id limit offset d =
     (if limit < 1 \<or> offset < 0 then (None, d)
      else if \<not> calloc_ok then (None, snd (sql_next d))
      else sql_read (\<lambda>t. Some (select_jobs
             (\<lambda>r. (col_text user_id = [] \<or> r_user_id r = col_text user_id) \<and>
                  (status < 0 \<or> status_code (r_status r) = status) \<and>
                  (col_text app_id = [] \<or> r_app_id r = col_text app_id))
             newest_first limit offset t)) None None d)"

definition db_list_held_jobs :: "int \<Rightarrow> db \<Rightarrow> job list \<times> db" where
  "db_list_held_jobs max_count =
     sql_read (select_jobs (\<lambda>r. r_status r = JOB_STATUS_CREATED) (sort_key r_submitted_at) max_count 0) [] []"

text \<open>\<open>NULL\<close> sorts before every number.\<close>

definition null_first :: "int option \<Rightarrow> nat \<times> int" where
  "null_first c = (case c of None \<Rightarrow> (0, 0) | Some v \<Rightarrow> (1, v))"

definition db_list_running_jobs :: "int \<Rightarrow> db \<Rightarrow> job list \<times> db" where
  "db_list_running_jobs max_count =
     sql_read (select_jobs (\<lambda>r. r_status r \<in> {JOB_STATUS_LEGACY_1, JOB_STATUS_RUNNING})
       (\<lambda>rs. sort_key (\<lambda>r. fst (null_first (r_started_at r)))
               (sort_key (\<lambda>r. snd (null_first (r_started_at r))) rs)) max_count 0) [] []"

definition db_list_queued_jobs :: "int \<Rightarrow> int \<Rightarrow> db \<Rightarrow> job list \<times> db" where
  "db_list_queued_jobs max_count offset =
     sql_read (select_jobs (\<lambda>r. r_status r = JOB_STATUS_QUEUED)
       (\<lambda>rs. sort_key r_priority (sort_key r_submitted_at (sort_key r_id rs))) max_count offset) [] []"

definition db_recover_incomplete_jobs :: "int \<Rightarrow> db \<Rightarrow> int \<times> db" where
  "db_recover_incomplete_jobs now d =
     (let (ok, d1) = sql_begin d in
      if \<not> ok then (-1, d1)
      else let (n, d2) = sql_write (interrupt_jobs now ''Scheduler restarted while job was active'') d1 in
           case n of
             None \<Rightarrow> fail_rollback d2
           | Some recovered \<Rightarrow>
               let (m, d3) = sql_write (release_all_allocations now) d2 in
               if m = None then fail_rollback d3
               else let (c, d4) = sql_commit d3 in
                    if c then (int recovered, d4) else fail_rollback d4)"

definition db_update_job_batch_id :: "string \<Rightarrow> string \<Rightarrow> db \<Rightarrow> int \<times> db" where
  "db_update_job_batch_id job_id batch_id = update_job job_id (\<lambda>r. r\<lparr>r_batch_id := batch_id\<rparr>)"

definition db_update_input_files :: "string \<Rightarrow> string \<Rightarrow> db \<Rightarrow> int \<times> db" where
  "db_update_input_files job_id input_files = update_job job_id (\<lambda>r. r\<lparr>r_input_files := input_files\<rparr>)"

definition db_update_job_timeout :: "string \<Rightarrow> int \<Rightarrow> db \<Rightarrow> int \<times> db" where
  "db_update_job_timeout job_id timeout_seconds =
     update_job job_id (\<lambda>r. r\<lparr>r_timeout_seconds := timeout_seconds\<rparr>)"

definition db_update_depends_on :: "string \<Rightarrow> string \<Rightarrow> db \<Rightarrow> int \<times> db" where
  "db_update_depends_on job_id depends_on = update_job job_id (\<lambda>r. r\<lparr>r_depends_on := depends_on\<rparr>)"

definition db_update_workflow_id :: "string \<Rightarrow> string \<Rightarrow> db \<Rightarrow> int \<times> db" where
  "db_update_workflow_id job_id workflow_id = update_job job_id (\<lambda>r. r\<lparr>r_workflow_id := workflow_id\<rparr>)"

definition db_update_same_machine_as :: "string \<Rightarrow> string \<Rightarrow> db \<Rightarrow> int \<times> db" where
  "db_update_same_machine_as job_id ref_id = update_job job_id (\<lambda>r. r\<lparr>r_same_machine_as := ref_id\<rparr>)"

definition db_update_status_reason :: "string \<Rightarrow> string \<Rightarrow> db \<Rightarrow> int \<times> db" where
  "db_update_status_reason job_id reason = update_job job_id (\<lambda>r. r\<lparr>r_status_reason := reason\<rparr>)"

definition db_update_job_submission :: "job \<Rightarrow> db \<Rightarrow> int \<times> db" where
  "db_update_job_submission job d =
     (let (n, d') = sql_write (update_jobs (\<lambda>r. r_id r = j_id job)
            (\<lambda>r. r\<lparr>r_status := j_status job, r_input_dir := j_input_dir job,
                    r_output_dir := j_output_dir job, r_input_files := j_input_files job,
                    r_timeout_seconds := j_timeout_seconds job, r_status_reason := j_status_reason job,
                    r_depends_on := j_depends_on job, r_workflow_id := j_workflow_id job,
                    r_same_machine_as := j_same_machine_as job\<rparr>)) d
      in (if n = Some 1 then 0 else -1, d'))"

subsection \<open>Dependencies\<close>

definition lookup_status :: "string \<Rightarrow> tables \<Rightarrow> job_status option" where
  "lookup_status job_id t = map_option r_status (find (\<lambda>r. r_id r = job_id) (t_jobs t))"

text \<open>The loop over the tokens; a failed query counts as waiting, a failed step as not found.\<close>

fun check_deps :: "string list \<Rightarrow> db \<Rightarrow> int \<times> db" where
  "check_deps [] d = (0, d)"
| "check_deps (tok # toks) d =
     (let tok' = trim_spaces tok in
      if tok' = [] then check_deps toks d
      else let (r, d') = sql_read (\<lambda>t. Some (lookup_status tok' t)) None (Some None) d in
           case r of
             None \<Rightarrow> (1, d')
           | Some None \<Rightarrow> (-1, d')
           | Some (Some status) \<Rightarrow>
               if status = JOB_STATUS_FAILED \<or> status = JOB_STATUS_CANCELLED then (-1, d')
               else if status \<noteq> JOB_STATUS_SUCCEEDED then (1, d')
               else check_deps toks d')"

definition db_check_deps_status :: "string \<Rightarrow> db \<Rightarrow> int \<times> db" where
  "db_check_deps_status depends_on_csv d =
     (if depends_on_csv = [] then (0, d)
      else check_deps (strtok CHR '','' (buf 2048 depends_on_csv)) d)"

subsection \<open>Allocations\<close>

definition db_insert_allocation ::
  "int \<Rightarrow> string \<Rightarrow> string \<Rightarrow> int \<Rightarrow> int \<Rightarrow> int \<Rightarrow> int \<Rightarrow> db \<Rightarrow> int \<times> db" where
  "db_insert_allocation now job_id machine_id cores gpu ram_mb disk_mb = sql_run (\<lambda>t.
     Some (t\<lparr>t_allocations :=
       filter (\<lambda>a. \<not> (al_job_id a = job_id \<and> al_machine_id a = machine_id)) (t_allocations t) @
       [\<lparr> al_job_id = job_id, al_machine_id = machine_id, al_cores = cores, al_gpu = gpu,
          al_ram_mb = ram_mb, al_disk_mb = disk_mb, al_allocated_at = now, al_released_at = None \<rparr>]\<rparr>, 1))"

definition db_release_allocation :: "int \<Rightarrow> string \<Rightarrow> db \<Rightarrow> int \<times> db" where
  "db_release_allocation now job_id = sql_run (\<lambda>t.
     let (rows, n) = update_rows (\<lambda>a. al_job_id a = job_id) (\<lambda>a. a\<lparr>al_released_at := Some now\<rparr>)
                       (t_allocations t)
     in Some (t\<lparr>t_allocations := rows\<rparr>, n))"

section \<open>Laws of the statements\<close>

named_theorems db_frame \<open>what a statement leaves alone\<close>

lemma sql_next_frame [simp]:
  "db_tables (snd (sql_next d)) = db_tables d" "db_saved (snd (sql_next d)) = db_saved d"
  "db_is_open (snd (sql_next d)) = db_is_open d"
  "db_transaction_active (snd (sql_next d)) = db_transaction_active d"
  by (simp_all add: sql_next_def split: list.split)

lemma sql_next_plan_Nil [simp]: "db_plan d = [] \<Longrightarrow> sql_next d = (SQL_OK, d)"
  by (simp add: sql_next_def)

lemma sql_nextE:
  obtains x d1 where "sql_next d = (x, d1)" "db_tables d1 = db_tables d" "db_saved d1 = db_saved d"
    "db_is_open d1 = db_is_open d" "db_transaction_active d1 = db_transaction_active d"
  using sql_next_frame [of d] by (cases "sql_next d") simp

lemma sql_write_cases:
  assumes "sql_write f d = (r, d')"
  shows "(r = None \<and> db_tables d' = db_tables d \<or>
          (\<exists>t n. r = Some n \<and> f (db_tables d) = Some (t, n) \<and> db_tables d' = t)) \<and>
         db_saved d' = db_saved d \<and> db_is_open d' = db_is_open d \<and>
         db_transaction_active d' = db_transaction_active d"
proof -
  obtain x d1 where "sql_next d = (x, d1)" "db_tables d1 = db_tables d" "db_saved d1 = db_saved d"
    "db_is_open d1 = db_is_open d" "db_transaction_active d1 = db_transaction_active d" by (rule sql_nextE)
  then show ?thesis using assms
    by (auto simp: sql_write_def split: sql_outcome.splits option.splits)
qed

lemma sql_run_cases:
  assumes "sql_run f d = (r, d')"
  shows "(r = -1 \<and> db_tables d' = db_tables d \<or>
          (\<exists>n. r = 0 \<and> f (db_tables d) = Some (db_tables d', n))) \<and>
         db_saved d' = db_saved d \<and> db_is_open d' = db_is_open d \<and>
         db_transaction_active d' = db_transaction_active d"
proof -
  obtain w d1 where w: "sql_write f d = (w, d1)" by force
  then show ?thesis using sql_write_cases [OF w] assms by (auto simp: sql_run_def split: if_splits)
qed

lemma sql_run_0D: "sql_run f d = (0, d') \<Longrightarrow> \<exists>n. f (db_tables d) = Some (db_tables d', n)"
  using sql_run_cases by fastforce

lemma sql_run_fails: "sql_run f d = (r, d') \<Longrightarrow> r \<noteq> 0 \<Longrightarrow> r = -1 \<and> db_tables d' = db_tables d"
  using sql_run_cases by fastforce

lemma sql_read_cases:
  assumes "sql_read f p s d = (x, d')"
  shows "(x = f (db_tables d) \<or> x = p \<or> x = s) \<and> db_tables d' = db_tables d \<and> db_saved d' = db_saved d \<and>
    db_is_open d' = db_is_open d \<and> db_transaction_active d' = db_transaction_active d"
proof -
  obtain y d1 where "sql_next d = (y, d1)" "db_tables d1 = db_tables d" "db_saved d1 = db_saved d"
    "db_is_open d1 = db_is_open d" "db_transaction_active d1 = db_transaction_active d" by (rule sql_nextE)
  then show ?thesis using assms by (auto simp: sql_read_def split: sql_outcome.splits)
qed

lemma sql_read_tables [simp]: "db_tables (snd (sql_read f p s d)) = db_tables d"
  using sql_read_cases by (metis prod.collapse)

lemma sql_read_ok [simp]: "db_plan d = [] \<Longrightarrow> sql_read f p s d = (f (db_tables d), d)"
  by (simp add: sql_read_def)

lemma sql_run_ok [simp]:
  "db_plan d = [] \<Longrightarrow> f (db_tables d) = Some (t, n) \<Longrightarrow> sql_run f d = (0, d\<lparr>db_tables := t\<rparr>)"
  by (simp add: sql_run_def sql_write_def)

lemma sql_begin_cases:
  assumes "sql_begin d = (ok, d')"
  shows "db_tables d' = db_tables d \<and> db_is_open d' = db_is_open d \<and>
    db_transaction_active d' = db_transaction_active d \<and>
    (if ok then db_saved d = None \<and> db_saved d' = Some (db_tables d) else db_saved d' = db_saved d)"
proof -
  obtain x d1 where "sql_next d = (x, d1)" "db_tables d1 = db_tables d" "db_saved d1 = db_saved d"
    "db_is_open d1 = db_is_open d" "db_transaction_active d1 = db_transaction_active d" by (rule sql_nextE)
  then show ?thesis using assms by (auto simp: sql_begin_def split: if_splits)
qed

lemma sql_commit_cases:
  assumes "sql_commit d = (ok, d')"
  shows "db_tables d' = db_tables d \<and> db_is_open d' = db_is_open d \<and>
    db_transaction_active d' = db_transaction_active d \<and>
    (if ok then db_saved d \<noteq> None \<and> db_saved d' = None else db_saved d' = db_saved d)"
proof -
  obtain x d1 where "sql_next d = (x, d1)" "db_tables d1 = db_tables d" "db_saved d1 = db_saved d"
    "db_is_open d1 = db_is_open d" "db_transaction_active d1 = db_transaction_active d" by (rule sql_nextE)
  then show ?thesis using assms by (auto simp: sql_commit_def split: if_splits)
qed

text \<open>The state between two calls: the database open and no transaction under way.\<close>

definition db_idle :: "db \<Rightarrow> bool" where
  "db_idle d \<longleftrightarrow> db_is_open d \<and> db_saved d = None \<and> \<not> db_transaction_active d"

text \<open>Inside \<open>db_begin\<close> \<dots> \<open>db_commit\<close>, with the tables to return to.\<close>

definition in_txn :: "tables \<Rightarrow> db \<Rightarrow> bool" where
  "in_txn t d \<longleftrightarrow> db_is_open d \<and> db_saved d = Some t \<and> db_transaction_active d"

lemma db_idle_opened [simp]: "db_idle (opened_db t)" "db_tables (opened_db t) = t" "db_plan (opened_db t) = []"
  by (simp_all add: db_idle_def opened_db_def)

lemma db_begin_cases:
  assumes "db_idle d" "db_begin d = (r, d')"
  shows "db_tables d' = db_tables d \<and>
    (r = 0 \<and> in_txn (db_tables d) d' \<or> r = -1 \<and> db_idle d')"
proof -
  obtain ok d1 where b: "sql_begin d = (ok, d1)" by force
  then show ?thesis using sql_begin_cases [OF b] assms
    by (auto simp: db_begin_def db_idle_def in_txn_def split: if_splits)
qed

lemma db_commit_cases:
  assumes "in_txn t d" "db_commit d = (r, d')"
  shows "db_idle d' \<and> (r = 0 \<and> db_tables d' = db_tables d \<or> r = -1 \<and> db_tables d' = t)"
proof -
  obtain ok d1 where c: "sql_commit d = (ok, d1)" by force
  then show ?thesis using sql_commit_cases [OF c] assms
    by (auto simp: db_commit_def in_txn_def db_idle_def sql_rollback_def split: if_splits)
qed

lemma db_rollback_restores:
  assumes "in_txn t d" "db_rollback d = (r, d')"
  shows "r = 0 \<and> db_idle d' \<and> db_tables d' = t"
  using assms by (auto simp: db_rollback_def in_txn_def db_idle_def sql_rollback_def)

lemma in_txn_write: "in_txn t d \<Longrightarrow> sql_write f d = (r, d') \<Longrightarrow> in_txn t d'"
  using sql_write_cases by (fastforce simp: in_txn_def)

lemma in_txn_run: "in_txn t d \<Longrightarrow> sql_run f d = (r, d') \<Longrightarrow> in_txn t d'"
  using sql_run_cases by (fastforce simp: in_txn_def)

lemma db_idle_run: "db_idle d \<Longrightarrow> sql_run f d = (r, d') \<Longrightarrow> db_idle d'"
  using sql_run_cases by (fastforce simp: db_idle_def)

lemma db_idle_write: "db_idle d \<Longrightarrow> sql_write f d = (r, d') \<Longrightarrow> db_idle d'"
  using sql_write_cases by (fastforce simp: db_idle_def)

lemma db_idle_read: "db_idle d \<Longrightarrow> sql_read f p s d = (r, d') \<Longrightarrow> db_idle d'"
  using sql_read_cases by (fastforce simp: db_idle_def)

lemmas db_idle_intros = db_idle_run db_idle_write db_idle_read

subsection \<open>Rows of the jobs table\<close>

definition job_row_of :: "tables \<Rightarrow> string \<Rightarrow> job_row option" where
  "job_row_of t job_id = find (\<lambda>r. r_id r = job_id) (t_jobs t)"

definition jobs_unique :: "tables \<Rightarrow> bool" where
  "jobs_unique t \<longleftrightarrow> distinct (map r_id (t_jobs t))"

lemma lookup_status_row: "lookup_status job_id t = map_option r_status (job_row_of t job_id)"
  by (simp add: lookup_status_def job_row_of_def)

lemma find_map_same:
  assumes "\<And>r. P (f r) = P r"
  shows "find P (map f rs) = map_option f (find P rs)"
  by (induction rs) (auto simp: assms)

lemma job_row_of_update:
  assumes "update_jobs P f t = Some (t', n)" "\<And>r. r_id (f r) = r_id r"
  shows "job_row_of t' k = map_option (\<lambda>r. if P r then f r else r) (job_row_of t k)"
  using assms by (auto simp: update_jobs_def update_rows_def job_row_of_def find_map_same)

lemma job_row_of_Some: "job_row_of t k = Some r \<Longrightarrow> r \<in> set (t_jobs t) \<and> r_id r = k"
  by (auto simp: job_row_of_def find_Some_iff)

lemma job_row_of_None: "job_row_of t k = None \<longleftrightarrow> k \<notin> r_id ` set (t_jobs t)"
  by (auto simp: job_row_of_def find_None_iff)

lemma job_row_of_in:
  assumes "jobs_unique t" "r \<in> set (t_jobs t)"
  shows "job_row_of t (r_id r) = Some r"
proof -
  obtain r' where r': "job_row_of t (r_id r) = Some r'"
    using assms(2) job_row_of_None [of t "r_id r"] by (cases "job_row_of t (r_id r)") auto
  then have "r' = r" using job_row_of_Some [OF r'] assms by (auto simp: jobs_unique_def distinct_map inj_on_def)
  with r' show ?thesis by simp
qed

lemma jobs_unique_update:
  assumes "update_jobs P f t = Some (t', n)" "\<And>r. r_id (f r) = r_id r" "jobs_unique t"
  shows "jobs_unique t'"
proof -
  have "map r_id (t_jobs t') = map r_id (t_jobs t)"
    using assms(1,2) by (auto simp: update_jobs_def update_rows_def)
  then show ?thesis using assms(3) by (simp add: jobs_unique_def)
qed

lemma update_job_0:
  assumes "update_job job_id f d = (0, d')" "\<And>r. r_id (f r) = r_id r"
  shows "job_row_of (db_tables d') k =
    (if k = job_id then map_option f (job_row_of (db_tables d) k) else job_row_of (db_tables d) k)"
proof -
  obtain n where n: "update_jobs (\<lambda>r. r_id r = job_id) f (db_tables d) = Some (db_tables d', n)"
    using sql_run_0D [OF assms(1) [unfolded update_job_def]] by blast
  show ?thesis
    using job_row_of_update [OF n assms(2)] job_row_of_Some [of "db_tables d" k]
    by (cases "job_row_of (db_tables d) k") auto
qed

lemma update_job_fails:
  "update_job job_id f d = (r, d') \<Longrightarrow> r \<noteq> 0 \<Longrightarrow> r = -1 \<and> db_tables d' = db_tables d"
  using sql_run_fails by (simp add: update_job_def)

lemma update_job_frame:
  assumes "update_job job_id f d = (r, d')"
  shows "db_tables d' = (db_tables d)\<lparr>t_jobs := t_jobs (db_tables d')\<rparr> \<and> db_saved d' = db_saved d \<and>
    db_is_open d' = db_is_open d \<and> db_transaction_active d' = db_transaction_active d"
  using sql_run_cases [OF assms [unfolded update_job_def]]
  by (auto simp: update_jobs_def update_rows_def dest!: sym [of _ "db_tables d'"])

lemma db_idle_update_job: "db_idle d \<Longrightarrow> update_job job_id f d = (r, d') \<Longrightarrow> db_idle d'"
  using update_job_frame by (fastforce simp: db_idle_def)

subsection \<open>Recovery, retry, dependencies\<close>

text \<open>The tables after the two statements of a recovery.\<close>

definition recovered :: "int \<Rightarrow> string \<Rightarrow> tables \<Rightarrow> tables" where
  "recovered now reason t = t\<lparr>
     t_jobs := map (\<lambda>r. if r_status r \<in> {JOB_STATUS_LEGACY_1, JOB_STATUS_RUNNING}
                 then r\<lparr>r_status := JOB_STATUS_FAILED, r_exit_code := Some (-1), r_ended_at := Some now,
                        r_status_reason := reason\<rparr> else r) (t_jobs t),
     t_allocations := map (\<lambda>a. if al_released_at a = None then a\<lparr>al_released_at := Some now\<rparr> else a)
                        (t_allocations t)\<rparr>"

definition active_count :: "tables \<Rightarrow> nat" where
  "active_count t =
     length (filter (\<lambda>r. r_status r \<in> {JOB_STATUS_LEGACY_1, JOB_STATUS_RUNNING}) (t_jobs t))"

lemma recovery_statements:
  assumes "sql_write (interrupt_jobs now reason) d = (Some n, d1)"
    "sql_write (release_all_allocations now) d1 = (m, d2)" "m \<noteq> None"
  shows "db_tables d2 = recovered now reason (db_tables d) \<and> n = active_count (db_tables d)"
  using sql_write_cases [OF assms(1)] sql_write_cases [OF assms(2)] assms(3)
  by (auto simp: interrupt_jobs_def update_jobs_def update_rows_def release_all_allocations_def
      recovered_def active_count_def)

lemma recovered_none_active:
  "r \<in> set (t_jobs (recovered now reason t)) \<Longrightarrow> r_status r \<notin> {JOB_STATUS_LEGACY_1, JOB_STATUS_RUNNING}"
  by (auto simp: recovered_def)

lemma recovered_all_released: "a \<in> set (t_allocations (recovered now reason t)) \<Longrightarrow> al_released_at a \<noteq> None"
  by (auto simp: recovered_def)

lemma db_recover_after_restart_cases:
  assumes "db_idle d" "db_recover_after_restart now d = (r, d')"
  shows "db_idle d' \<and>
    (r = -1 \<and> db_tables d' = db_tables d \<or>
     r = int (active_count (db_tables d)) \<and>
       db_tables d' = recovered now ''Interrupted by orchestrator restart'' (db_tables d))"
proof -
  obtain b d1 where b: "db_begin d = (b, d1)" by force
  note B = db_begin_cases [OF assms(1) b]
  obtain n d2 where w: "sql_write (interrupt_jobs now ''Interrupted by orchestrator restart'') d1 = (n, d2)"
    by force
  obtain m d3 where v: "sql_write (release_all_allocations now) d2 = (m, d3)" by force
  obtain c d4 where c: "db_commit d3 = (c, d4)" by force
  show ?thesis
  proof (cases "b = 0")
    case False
    then show ?thesis using B b assms(2) by (auto simp: db_recover_after_restart_def)
  next
    case True
    then have T: "in_txn (db_tables d) d1" "in_txn (db_tables d) d2" "in_txn (db_tables d) d3"
      using B in_txn_write [OF _ w] in_txn_write [OF _ v] by auto
    have R: "\<And>e. in_txn (db_tables d) e \<Longrightarrow>
        db_idle (snd (db_rollback e)) \<and> db_tables (snd (db_rollback e)) = db_tables d"
      using db_rollback_restores by (metis prod.collapse)
    consider "n = None" | k where "n = Some k" "m = None" | k where "n = Some k" "m \<noteq> None"
      by (cases n) auto
    then show ?thesis
    proof cases
      case 1
      then show ?thesis using True b w R [OF T(2)] assms(2) by (auto simp: db_recover_after_restart_def)
    next
      case 2
      then show ?thesis using True b w v R [OF T(3)] assms(2) by (auto simp: db_recover_after_restart_def)
    next
      case 3
      have "db_tables d3 = recovered now ''Interrupted by orchestrator restart'' (db_tables d) \<and>
          k = active_count (db_tables d)"
        using recovery_statements [of now _ d1 k d2 m d3] w v 3 B by auto
      then show ?thesis using True b w v c 3 db_commit_cases [OF T(3) c] assms(2)
        by (auto simp: db_recover_after_restart_def)
    qed
  qed
qed

text \<open>Inside \<open>BEGIN\<close> \<dots> \<open>COMMIT\<close> run without \<open>db_begin\<close>.\<close>

definition in_raw_txn :: "tables \<Rightarrow> db \<Rightarrow> bool" where
  "in_raw_txn t d \<longleftrightarrow> db_is_open d \<and> db_saved d = Some t \<and> \<not> db_transaction_active d"

lemma raw_begin:
  assumes "db_idle d" "sql_begin d = (ok, d')"
  shows "db_tables d' = db_tables d \<and> (if ok then in_raw_txn (db_tables d) d' else db_idle d')"
  using sql_begin_cases [OF assms(2)] assms(1) by (auto simp: db_idle_def in_raw_txn_def)

lemma raw_write: "in_raw_txn t d \<Longrightarrow> sql_write f d = (r, d') \<Longrightarrow> in_raw_txn t d'"
  using sql_write_cases by (fastforce simp: in_raw_txn_def)

lemma raw_rollback:
  "in_raw_txn t d \<Longrightarrow> fst (fail_rollback d) = -1 \<and> db_idle (snd (fail_rollback d)) \<and>
     db_tables (snd (fail_rollback d)) = t"
  by (simp add: fail_rollback_def in_raw_txn_def db_idle_def sql_rollback_def)

lemma raw_commit:
  assumes "in_raw_txn t d" "sql_commit d = (ok, d')"
  shows "if ok then db_idle d' \<and> db_tables d' = db_tables d else in_raw_txn t d'"
  using sql_commit_cases [OF assms(2)] assms(1) by (auto simp: db_idle_def in_raw_txn_def)

text \<open>The row a retry leaves.\<close>

definition retried :: "job_row \<Rightarrow> job_row" where
  "retried r = r\<lparr>r_status := JOB_STATUS_QUEUED, r_machine_id := Some [], r_exit_code := None,
     r_started_at := None, r_ended_at := None, r_status_reason := ''Retry requested''\<rparr>"

definition retry_pred :: "string \<Rightarrow> job_row \<Rightarrow> bool" where
  "retry_pred job_id r \<longleftrightarrow> r_id r = job_id \<and> r_status r \<in> {JOB_STATUS_FAILED, JOB_STATUS_CANCELLED}"

definition retry_tables :: "string \<Rightarrow> tables \<Rightarrow> tables" where
  "retry_tables job_id t = t\<lparr>
     t_jobs := map (\<lambda>r. if retry_pred job_id r then retried r else r) (t_jobs t),
     t_artifacts := filter (\<lambda>a. ar_job_id a \<noteq> job_id) (t_artifacts t)\<rparr>"

lemma db_retry_job_cases:
  assumes "db_idle d" "db_retry_job job_id d = (r, d')"
  shows "db_idle d' \<and>
    (r = -1 \<and> db_tables d' = db_tables d \<or>
     r = 0 \<and> length (filter (retry_pred job_id) (t_jobs (db_tables d))) = 1 \<and>
       db_tables d' = retry_tables job_id (db_tables d))"
proof -
  let ?f = "update_jobs (retry_pred job_id) retried"
  let ?g = "\<lambda>t. Some (t\<lparr>t_artifacts := filter (\<lambda>a. ar_job_id a \<noteq> job_id) (t_artifacts t)\<rparr>, 0 :: nat)"
  obtain ok d1 where b: "sql_begin d = (ok, d1)" by force
  obtain n d2 where w: "sql_write ?f d1 = (n, d2)" by force
  obtain m d3 where v: "sql_write ?g d2 = (m, d3)" by force
  obtain c d4 where c: "sql_commit d3 = (c, d4)" by force
  have D: "db_retry_job job_id d =
      (if \<not> ok then (-1, d1) else if n \<noteq> Some 1 then fail_rollback d2
       else if m = None then fail_rollback d3 else if c then (0, d4) else fail_rollback d4)"
    using b w v c by (simp add: db_retry_job_def retry_pred_def [abs_def] retried_def [abs_def])
  note B = raw_begin [OF assms(1) b]
  show ?thesis
  proof (cases ok)
    case False
    then show ?thesis using B D assms(2) by auto
  next
    case True
    then have T1: "in_raw_txn (db_tables d) d1" using B by simp
    then have T2: "in_raw_txn (db_tables d) d2" using raw_write [OF _ w] by simp
    then have T3: "in_raw_txn (db_tables d) d3" using raw_write [OF _ v] by simp
    note C = raw_commit [OF T3 c]
    show ?thesis
    proof (cases "n = Some 1 \<and> m \<noteq> None \<and> c")
      case True
      then show ?thesis
        using sql_write_cases [OF w] sql_write_cases [OF v] B C D \<open>ok\<close> assms(2)
        by (auto simp: update_jobs_def update_rows_def retry_tables_def)
    next
      case False
      then show ?thesis
        using raw_rollback [OF T2] raw_rollback [OF T3] raw_rollback [of "db_tables d" d4] C D \<open>ok\<close> assms(2)
        by (auto simp: prod_eq_iff split: if_splits)
    qed
  qed
qed

definition dep_ids :: "string \<Rightarrow> string list" where
  "dep_ids csv = filter (\<lambda>s. s \<noteq> []) (map trim_spaces (strtok CHR '','' (buf 2048 csv)))"

text \<open>What one dependency contributes: satisfied, still to wait for, or failed.\<close>

definition dep_state :: "tables \<Rightarrow> string \<Rightarrow> int" where
  "dep_state t job_id =
     (case lookup_status job_id t of
        None \<Rightarrow> -1
      | Some s \<Rightarrow> if s = JOB_STATUS_FAILED \<or> s = JOB_STATUS_CANCELLED then -1
                  else if s \<noteq> JOB_STATUS_SUCCEEDED then 1 else 0)"

definition first_unmet :: "tables \<Rightarrow> string list \<Rightarrow> int" where
  "first_unmet t ids = (case find (\<lambda>i. dep_state t i \<noteq> 0) ids of None \<Rightarrow> 0 | Some i \<Rightarrow> dep_state t i)"

lemma check_deps_spec:
  assumes "db_plan d = []"
  shows "check_deps toks d =
    (first_unmet (db_tables d) (filter (\<lambda>s. s \<noteq> []) (map trim_spaces toks)), d)"
  using assms
  by (induction toks) (auto simp: first_unmet_def dep_state_def Let_def split: option.splits)

section \<open>The jobs table as a store of statuses\<close>

text \<open>
  What the code that moves jobs between states relies on: writing the status of one job is
  visible for that job and no other, a failed write changes nothing, and reading is not writing.
\<close>

locale status_store =
  fixes status_of :: "'d \<Rightarrow> string \<Rightarrow> job_status option"
    and set_status :: "string \<Rightarrow> job_status \<Rightarrow> int \<Rightarrow> int \<Rightarrow> 'd \<Rightarrow> int \<times> 'd"
    and annotate :: "string \<Rightarrow> string \<Rightarrow> 'd \<Rightarrow> int \<times> 'd"
  assumes set_done: "set_status j s e t d = (0, d') \<Longrightarrow>
        status_of d' k = (if k = j then map_option (\<lambda>_. s) (status_of d k) else status_of d k)"
    and set_failed: "set_status j s e t d = (r, d') \<Longrightarrow> r \<noteq> 0 \<Longrightarrow> status_of d' = status_of d"
    and note_keeps: "annotate j msg d = (r, d') \<Longrightarrow> status_of d' = status_of d"
begin

text \<open>A status write followed by a note on its reason, as \<open>job_set_status_r\<close> runs them.\<close>

lemma set_and_note:
  assumes "set_status j s e t d = (r, d1)" "annotate j msg d1 = (q, d2)"
  shows "status_of d2 k =
    (if r = 0 \<and> k = j then map_option (\<lambda>_. s) (status_of d k) else status_of d k)"
  using assms set_done [of j s e t d d1] set_failed [OF assms(1)] note_keeps [OF assms(2)]
  by (cases "r = 0") auto

lemma set_others: "set_status j s e t d = (r, d') \<Longrightarrow> k \<noteq> j \<Longrightarrow> status_of d' k = status_of d k"
  using set_done set_failed by (metis (full_types))

lemma set_known:
  "set_status j s e t d = (r, d') \<Longrightarrow> status_of d' k = None \<longleftrightarrow> status_of d k = None"
  using set_done set_failed by (metis (full_types) map_option_is_None)

end

definition db_status :: "db \<Rightarrow> string \<Rightarrow> job_status option" where
  "db_status d job_id = lookup_status job_id (db_tables d)"

lemma update_job_status_of:
  assumes "update_job job_id f d = (r, d')" "\<And>r. r_id (f r) = r_id r" "\<And>r. r_status (f r) = g (r_status r)"
  shows "db_status d' k =
    (if r = 0 \<and> k = job_id then map_option g (db_status d k) else db_status d k)"
proof (cases "r = 0")
  case True
  then show ?thesis using update_job_0 [OF assms(1) [unfolded True] assms(2)] assms(3)
    by (auto simp: db_status_def lookup_status_row option.map_comp comp_def)
next
  case False
  then show ?thesis using update_job_fails [OF assms(1)] by (simp add: db_status_def)
qed

lemmas db_update_defs =
  db_update_job_status_def db_update_status_reason_def db_update_job_started_def
  db_update_depends_on_def db_update_job_timeout_def db_update_input_files_def
  db_update_workflow_id_def db_update_same_machine_as_def db_update_job_batch_id_def

interpretation js: status_store db_status db_update_job_status db_update_status_reason
proof
  fix j s e t d d' k
  assume "db_update_job_status j s e t d = (0, d')"
  then show "db_status d' k = (if k = j then map_option (\<lambda>_. s) (db_status d k) else db_status d k)"
    using update_job_status_of [of j _ d 0 d' "\<lambda>_. s" k] by (auto simp: db_update_defs)
next
  fix j s e t d r d'
  assume "db_update_job_status j s e t d = (r, d')" "r \<noteq> 0"
  then show "db_status d' = db_status d"
    using update_job_fails by (fastforce simp: db_update_defs db_status_def)
next
  fix j msg d r d'
  assume "db_update_status_reason j msg d = (r, d')"
  then show "db_status d' = db_status d"
    using update_job_status_of [of j _ d r d' "\<lambda>s. s"]
    by (force simp: db_update_defs option.map_ident fun_eq_iff)
qed

section \<open>Claims\<close>

text \<open>Every text field within its buffer, as a \<open>Job\<close> structure always has it.\<close>

definition job_fits :: "job \<Rightarrow> bool" where
  "job_fits j \<longleftrightarrow> length (j_id j) < JOB_ID_LEN \<and> length (j_command j) < JOB_CMD_LEN \<and>
     length (j_user_id j) < JOB_USER_LEN \<and> length (j_app_id j) < JOB_APP_LEN \<and>
     length (j_input_dir j) < 512 \<and> length (j_output_dir j) < 512 \<and> length (j_input_files j) < 2048 \<and>
     length (j_depends_on j) < 2048 \<and> length (j_workflow_id j) < 64 \<and> length (j_batch_id j) < 64 \<and>
     length (j_same_machine_as j) < JOB_ID_LEN"

lemma row_to_job_insert:
  "job_fits job \<Longrightarrow> row_to_job True (insert_job_row job) =
     job\<lparr>j_machine_id := [], j_exit_code := 0, j_started_at := 0, j_ended_at := 0, j_status_reason := []\<rparr>"
  by (simp add: row_to_job_def insert_job_row_def job_fits_def col_int_def col_text_def JOB_ID_LEN_def
      JOB_CMD_LEN_def JOB_USER_LEN_def JOB_APP_LEN_def)

lemma find_append: "find P (xs @ ys) = (case find P xs of None \<Rightarrow> find P ys | Some x \<Rightarrow> Some x)"
  by (induction xs) auto

lemma db_insert_job_0:
  assumes "db_insert_job job d = (0, d')"
  shows "job_row_of (db_tables d) (j_id job) = None"
    "db_tables d' = (db_tables d)\<lparr>t_jobs := t_jobs (db_tables d) @ [insert_job_row job]\<rparr>"
  using sql_run_0D [OF assms [unfolded db_insert_job_def]]
  by (auto simp: job_row_of_None split: if_splits)

lemma job_row_of_insert:
  assumes "db_insert_job job d = (0, d')"
  shows "job_row_of (db_tables d') = (job_row_of (db_tables d))(j_id job \<mapsto> insert_job_row job)"
  using db_insert_job_0 [OF assms]
  by (auto simp: job_row_of_def find_append insert_job_row_def fun_eq_iff split: option.splits)

text \<open>
  A job that \<open>db_insert_job\<close> stored is what \<open>db_get_job\<close> reads back, field by field, except
  for the columns the insert leaves NULL or empty; every other job reads as before. An
  identifier already in the table is refused and changes nothing.
\<close>

theorem db_insert_get:
  assumes "job_fits job" "db_plan d = []" "db_insert_job job d = (r, d')"
  shows "if j_id job \<in> r_id ` set (t_jobs (db_tables d)) then r = -1 \<and> db_tables d' = db_tables d
    else r = 0 \<and>
      fst (db_get_job (j_id job) d') = Some (job\<lparr>j_machine_id := [], j_exit_code := 0,
        j_started_at := 0, j_ended_at := 0, j_status_reason := []\<rparr>) \<and>
      (\<forall>k. k \<noteq> j_id job \<longrightarrow> fst (db_get_job k d') = fst (db_get_job k d))"
proof (cases "j_id job \<in> r_id ` set (t_jobs (db_tables d))")
  case True
  then show ?thesis using assms(2,3)
    by (auto simp: db_insert_job_def sql_run_def sql_write_def)
next
  case False
  then have r: "r = 0" "db_plan d' = []" using assms(2,3)
    by (auto simp: db_insert_job_def sql_run_def sql_write_def)
  then have i: "db_insert_job job d = (0, d')" using assms(3) by simp
  have g: "fst (db_get_job k e) = map_option (row_to_job True) (job_row_of (db_tables e) k)"
    if "db_plan e = []" for k e
    using that by (simp add: db_get_job_def job_row_of_def)
  show ?thesis
    using False r assms(1,2) by (simp add: g job_row_of_insert [OF i] row_to_job_insert)
qed

theorem db_insert_get_witness:
  "\<exists>d'. db_insert_job (job_zero\<lparr>j_id := ''a'', j_command := ''x'', j_priority := 7\<rparr>)
      (opened_db empty_tables) = (0, d') \<and>
    fst (db_get_job ''a'' d') = Some (job_zero\<lparr>j_id := ''a'', j_command := ''x'', j_priority := 7\<rparr>)"
proof -
  let ?j = "job_zero\<lparr>j_id := ''a'', j_command := ''x'', j_priority := 7\<rparr>"
  obtain r d' where i: "db_insert_job ?j (opened_db empty_tables) = (r, d')" by force
  have "job_fits ?j"
    by (simp add: job_fits_def job_zero_def JOB_ID_LEN_def JOB_CMD_LEN_def JOB_USER_LEN_def JOB_APP_LEN_def)
  from db_insert_get [OF this _ i] i show ?thesis by (simp add: empty_tables_def job_zero_def)
qed

text \<open>
  C32: the recovery after a restart is atomic. Whatever statement fails, the tables are as
  before and the result is -1; otherwise the result is the number of jobs that were active,
  each of them is FAILED with exit code -1 and every other job is untouched, no job is left
  active and no allocation is left open. Either way no transaction is left under way.
\<close>

theorem db_recover_after_restart_atomic:
  assumes "db_idle d" "db_recover_after_restart now d = (r, d')"
  shows "db_idle d' \<and>
    (r = -1 \<and> db_tables d' = db_tables d \<or>
     r = int (active_count (db_tables d)) \<and> active_count (db_tables d') = 0 \<and>
       (\<forall>a \<in> set (t_allocations (db_tables d')). al_released_at a \<noteq> None) \<and>
       (\<forall>k. lookup_status k (db_tables d') =
          map_option (\<lambda>s. if s \<in> {JOB_STATUS_LEGACY_1, JOB_STATUS_RUNNING} then JOB_STATUS_FAILED else s)
            (lookup_status k (db_tables d))))"
proof -
  let ?R = "recovered now ''Interrupted by orchestrator restart'' (db_tables d)"
  have "active_count ?R = 0"
    unfolding active_count_def length_0_conv filter_empty_conv by (blast dest: recovered_none_active)
  moreover have "\<forall>a \<in> set (t_allocations ?R). al_released_at a \<noteq> None" using recovered_all_released by blast
  moreover have "lookup_status k ?R =
      map_option (\<lambda>s. if s \<in> {JOB_STATUS_LEGACY_1, JOB_STATUS_RUNNING} then JOB_STATUS_FAILED else s)
        (lookup_status k (db_tables d))" for k
    by (auto simp: lookup_status_def recovered_def find_map_same option.map_comp comp_def
        intro!: option.map_cong)
  ultimately show ?thesis using db_recover_after_restart_cases [OF assms] by auto
qed

theorem db_recover_after_restart_atomic_witness:
  "\<exists>d'. db_recover_after_restart 9 (opened_db (empty_tables\<lparr>t_jobs :=
        [insert_job_row (job_zero\<lparr>j_id := ''a'', j_status := JOB_STATUS_RUNNING\<rparr>)]\<rparr>)) = (1, d') \<and>
     db_idle d' \<and> lookup_status ''a'' (db_tables d') = Some JOB_STATUS_FAILED"
proof -
  let ?t = "empty_tables\<lparr>t_jobs := [insert_job_row (job_zero\<lparr>j_id := ''a'', j_status := JOB_STATUS_RUNNING\<rparr>)]\<rparr>"
  obtain r d' where r: "db_recover_after_restart 9 (opened_db ?t) = (r, d')" by force
  have "r = 1" using r by (auto simp: db_recover_after_restart_def db_begin_def sql_begin_def opened_db_def
      sql_write_def interrupt_jobs_def update_jobs_def update_rows_def release_all_allocations_def
      db_commit_def sql_commit_def empty_tables_def insert_job_row_def job_zero_def)
  moreover have "lookup_status ''a'' (db_tables (opened_db ?t)) = Some JOB_STATUS_RUNNING"
    by (simp add: lookup_status_def insert_job_row_def job_zero_def)
  ultimately show ?thesis using db_recover_after_restart_atomic [OF db_idle_opened(1) r] r by auto
qed

text \<open>
  A retry succeeds only for a job that is FAILED or CANCELLED. It then becomes QUEUED, with
  machine, exit code and times cleared, loses its recorded artifacts, and every other job keeps
  its row; in every other case, a failing statement included, the result is -1 and the tables
  are as they were.
\<close>

theorem db_retry_job_correct:
  assumes "db_idle d" "jobs_unique (db_tables d)" "db_retry_job job_id d = (r, d')"
  shows "db_idle d' \<and>
    (r = -1 \<and> db_tables d' = db_tables d \<or>
     r = 0 \<and> (\<exists>row. job_row_of (db_tables d) job_id = Some row \<and>
         r_status row \<in> {JOB_STATUS_FAILED, JOB_STATUS_CANCELLED} \<and>
         job_row_of (db_tables d') = (job_row_of (db_tables d))(job_id \<mapsto>
           row\<lparr>r_status := JOB_STATUS_QUEUED, r_machine_id := Some [], r_exit_code := None,
                r_started_at := None, r_ended_at := None, r_status_reason := ''Retry requested''\<rparr>) \<and>
         (\<forall>a \<in> set (t_artifacts (db_tables d')). ar_job_id a \<noteq> job_id)))"
proof -
  consider (no) "r = -1" "db_tables d' = db_tables d"
    | (yes) "r = 0" "length (filter (retry_pred job_id) (t_jobs (db_tables d))) = 1"
        "db_tables d' = retry_tables job_id (db_tables d)"
    using db_retry_job_cases [OF assms(1,3)] by blast
  then show ?thesis
  proof cases
    case yes
    then obtain row where "filter (retry_pred job_id) (t_jobs (db_tables d)) = [row]"
      by (auto simp: length_Suc_conv)
    then have "row \<in> set (filter (retry_pred job_id) (t_jobs (db_tables d)))" by simp
    then have row: "row \<in> set (t_jobs (db_tables d))" "retry_pred job_id row" by auto
    then have j: "job_row_of (db_tables d) job_id = Some row"
      using job_row_of_in [OF assms(2) row(1)] by (simp add: retry_pred_def)
    have upd: "job_row_of (retry_tables job_id (db_tables d)) k =
        map_option (\<lambda>r. if retry_pred job_id r then retried r else r) (job_row_of (db_tables d) k)" for k
      by (simp add: job_row_of_def retry_tables_def find_map_same retried_def)
    have "job_row_of (retry_tables job_id (db_tables d)) k =
        ((job_row_of (db_tables d))(job_id \<mapsto> retried row)) k" for k
    proof (cases "k = job_id")
      case True
      then show ?thesis using row j by (simp add: upd)
    next
      case False
      then show ?thesis
        using job_row_of_Some [of "db_tables d" k] unfolding upd
        by (cases "job_row_of (db_tables d) k") (auto simp: retry_pred_def)
    qed
    then show ?thesis using db_retry_job_cases [OF assms(1,3)] yes row j
      by (auto simp: retry_pred_def retried_def [symmetric] retry_tables_def fun_eq_iff)
  qed (use db_retry_job_cases [OF assms(1,3)] in auto)
qed

theorem db_retry_job_correct_witness:
  "\<exists>d'. db_retry_job ''a'' (opened_db (empty_tables\<lparr>t_jobs :=
        [insert_job_row (job_zero\<lparr>j_id := ''a'', j_status := JOB_STATUS_FAILED\<rparr>)]\<rparr>)) = (0, d') \<and>
     db_idle d' \<and> map_option r_status (job_row_of (db_tables d') ''a'') = Some JOB_STATUS_QUEUED"
proof -
  let ?t = "empty_tables\<lparr>t_jobs := [insert_job_row (job_zero\<lparr>j_id := ''a'', j_status := JOB_STATUS_FAILED\<rparr>)]\<rparr>"
  obtain r d' where r: "db_retry_job ''a'' (opened_db ?t) = (r, d')" by force
  have u: "jobs_unique (db_tables (opened_db ?t))" by (simp add: jobs_unique_def)
  have "r = 0" using r by (auto simp: db_retry_job_def sql_begin_def opened_db_def sql_write_def
      update_jobs_def update_rows_def sql_commit_def empty_tables_def insert_job_row_def job_zero_def)
  then show ?thesis using db_retry_job_correct [OF db_idle_opened(1) u r] r by auto
qed

text \<open>
  The dependency check reads the listed identifiers from left to right and answers for the
  first one that has not SUCCEEDED: -1 if it is FAILED, CANCELLED or unknown, 1 if it is still
  under way. It answers 0 exactly when every one has SUCCEEDED.
\<close>

theorem db_check_deps_correct:
  assumes "db_plan d = []"
  shows "fst (db_check_deps_status csv d) = first_unmet (db_tables d) (dep_ids csv) \<and>
    snd (db_check_deps_status csv d) = d \<and>
    (fst (db_check_deps_status csv d) = 0 \<longleftrightarrow>
       (\<forall>i \<in> set (dep_ids csv). lookup_status i (db_tables d) = Some JOB_STATUS_SUCCEEDED))"
proof -
  have s: "db_check_deps_status csv d = (first_unmet (db_tables d) (dep_ids csv), d)"
  proof (cases "csv = []")
    case True
    then show ?thesis by (simp add: db_check_deps_status_def dep_ids_def first_unmet_def strtok_def)
  next
    case False
    then show ?thesis using check_deps_spec [OF assms] by (simp add: db_check_deps_status_def dep_ids_def)
  qed
  have "dep_state (db_tables d) i = 0 \<longleftrightarrow> lookup_status i (db_tables d) = Some JOB_STATUS_SUCCEEDED" for i
    by (auto simp: dep_state_def split: option.splits)
  then have "first_unmet (db_tables d) ids = 0 \<longleftrightarrow>
      (\<forall>i \<in> set ids. lookup_status i (db_tables d) = Some JOB_STATUS_SUCCEEDED)" for ids
    by (induction ids) (auto simp: first_unmet_def)
  with s show ?thesis by simp
qed

theorem db_check_deps_correct_witness:
  "db_plan (opened_db empty_tables) = [] \<and>
   fst (db_check_deps_status '' a,b'' (opened_db empty_tables)) = -1"
proof -
  have "first_unmet empty_tables (dep_ids '' a,b'') = -1"
    by (simp add: dep_ids_def strtok_def buf_def trim_spaces_def first_unmet_def dep_state_def
        lookup_status_def empty_tables_def)
  with db_check_deps_correct [of "opened_db empty_tables" "'' a,b''"] show ?thesis by simp
qed

text \<open>
  A failed dependency stays hidden behind an earlier one that is still under way: the check
  then answers 1 (wait) and not -1, although the interface documents -1 for a failed one.
\<close>

theorem db_check_deps_failure_hidden:
  "fst (db_check_deps_status ''a,b'' (opened_db (empty_tables\<lparr>t_jobs :=
      [insert_job_row (job_zero\<lparr>j_id := ''a'', j_status := JOB_STATUS_RUNNING\<rparr>),
       insert_job_row (job_zero\<lparr>j_id := ''b'', j_status := JOB_STATUS_FAILED\<rparr>)]\<rparr>))) = 1"
  by (simp add: db_check_deps_status_def strtok_def buf_def trim_spaces_def Let_def lookup_status_def
      insert_job_row_def job_zero_def)

end
