(* ===== verification/DbMeta.thy ===== *)
theory DbMeta
  imports Db
begin

text \<open>
  The remaining tables of \<open>src/persistence/db.c\<close>: batches, artifacts, API keys, users, quotas,
  submission keys, workflows with their favorites, the persistent events and the audit log,
  with the job statistics and the purge of finished jobs.
\<close>

section \<open>Model\<close>

subsection \<open>Batches\<close>

definition db_insert_batch :: "batch_row \<Rightarrow> db \<Rightarrow> int \<times> db" where
  "db_insert_batch b = sql_run (\<lambda>t.
     if ba_id b \<in> ba_id ` set (t_batches t) then None
     else Some (t\<lparr>t_batches := t_batches t @ [b]\<rparr>, 1))"

definition read_batch :: "batch_row \<Rightarrow> batch_row" where
  "read_batch b = b\<lparr>ba_id := buf 64 (ba_id b), ba_name := buf 256 (ba_name b),
                     ba_user_id := buf 128 (ba_user_id b)\<rparr>"

definition db_get_batch :: "string \<Rightarrow> db \<Rightarrow> batch_row option \<times> db" where
  "db_get_batch batch_id =
     sql_read (\<lambda>t. map_option read_batch (find (\<lambda>b. ba_id b = batch_id) (t_batches t))) None None"

record job_stats =
  st_total :: int
  st_created :: int
  st_queued :: int
  st_running :: int
  st_succeeded :: int
  st_cancelled :: int
  st_failed :: int

definition stats_zero :: job_stats where
  "stats_zero = \<lparr> st_total = 0, st_created = 0, st_queued = 0, st_running = 0, st_succeeded = 0,
     st_cancelled = 0, st_failed = 0 \<rparr>"

text \<open>
  The body of the loop over the groups of \<open>SELECT status,COUNT(*) ... GROUP BY status\<close>.
  \<open>legacy\<close>: whether code 1 is counted as running (\<open>db_job_stats\<close>) or only in the total
  (\<open>db_get_batch_stats\<close>).
\<close>

fun count_group :: "bool \<Rightarrow> job_status \<times> int \<Rightarrow> job_stats \<Rightarrow> job_stats" where
  "count_group legacy (s, n) st =
     (let st' = st\<lparr>st_total := st_total st + n\<rparr> in
      case s of
        JOB_STATUS_CREATED \<Rightarrow> st'\<lparr>st_created := st_created st' + n\<rparr>
      | JOB_STATUS_QUEUED \<Rightarrow> st'\<lparr>st_queued := st_queued st' + n\<rparr>
      | JOB_STATUS_RUNNING \<Rightarrow> st'\<lparr>st_running := st_running st' + n\<rparr>
      | JOB_STATUS_SUCCEEDED \<Rightarrow> st'\<lparr>st_succeeded := st_succeeded st' + n\<rparr>
      | JOB_STATUS_CANCELLED \<Rightarrow> st'\<lparr>st_cancelled := st_cancelled st' + n\<rparr>
      | JOB_STATUS_FAILED \<Rightarrow> st'\<lparr>st_failed := st_failed st' + n\<rparr>
      | JOB_STATUS_LEGACY_1 \<Rightarrow> if legacy then st'\<lparr>st_running := st_running st' + n\<rparr> else st')"

text \<open>The groups in the order of the codes; a status without rows gives no group.\<close>

definition status_groups :: "job_row list \<Rightarrow> (job_status \<times> int) list" where
  "status_groups rows =
     filter (\<lambda>(s, n). n \<noteq> 0)
       (map (\<lambda>s. (s, int (length (filter (\<lambda>r. r_status r = s) rows))))
          [JOB_STATUS_QUEUED, JOB_STATUS_LEGACY_1, JOB_STATUS_RUNNING, JOB_STATUS_SUCCEEDED,
           JOB_STATUS_CANCELLED, JOB_STATUS_FAILED, JOB_STATUS_CREATED])"

definition db_get_batch_stats :: "string \<Rightarrow> db \<Rightarrow> job_stats option \<times> db" where
  "db_get_batch_stats batch_id =
     sql_read (\<lambda>t. Some (fold (count_group False)
         (status_groups (filter (\<lambda>r. r_batch_id r = batch_id) (t_jobs t))) stats_zero))
       None (Some stats_zero)"

definition db_job_stats :: "db \<Rightarrow> job_stats option \<times> db" where
  "db_job_stats =
     sql_read (\<lambda>t. Some (fold (count_group True) (status_groups (t_jobs t)) stats_zero))
       None (Some stats_zero)"

subsection \<open>Artifacts\<close>

definition same_artifact :: "artifact_row \<Rightarrow> artifact_row \<Rightarrow> bool" where
  "same_artifact a b \<longleftrightarrow> ar_job_id a = ar_job_id b \<and> ar_type a = ar_type b \<and> ar_uri a = ar_uri b"

definition upsert_artifact_row :: "artifact_row \<Rightarrow> tables \<Rightarrow> (tables \<times> nat) option" where
  "upsert_artifact_row a t =
     (if \<exists>b \<in> set (t_artifacts t). same_artifact b a then
        Some (t\<lparr>t_artifacts := map (\<lambda>b. if same_artifact b a
                 then b\<lparr>ar_size_bytes := ar_size_bytes a, ar_checksum := ar_checksum a\<rparr> else b)
                 (t_artifacts t)\<rparr>, 1)
      else Some (t\<lparr>t_artifacts := t_artifacts t @ [a\<lparr>ar_id := t_artifact_seq t + 1\<rparr>],
                   t_artifact_seq := t_artifact_seq t + 1\<rparr>, 1))"

text \<open>The result and the structure with its identifier and its time read back.\<close>

definition db_upsert_artifact :: "artifact_row \<Rightarrow> db \<Rightarrow> int \<times> artifact_row \<times> db" where
  "db_upsert_artifact a d =
     (let (n, d1) = sql_write (upsert_artifact_row a) d in
      if n = None then (-1, a, d1)
      else let (r, d2) = sql_read (\<lambda>t. find (\<lambda>b. same_artifact b a) (t_artifacts t)) None None d1 in
           case r of
             None \<Rightarrow> (-1, a, d2)
           | Some b \<Rightarrow> (0, a\<lparr>ar_id := ar_id b, ar_created_at := ar_created_at b\<rparr>, d2))"

definition read_artifact :: "artifact_row \<Rightarrow> artifact_row" where
  "read_artifact a = a\<lparr>ar_job_id := buf 37 (ar_job_id a), ar_type := buf 32 (ar_type a),
     ar_uri := buf 1024 (ar_uri a), ar_checksum := buf 65 (ar_checksum a)\<rparr>"

definition db_list_artifacts :: "string \<Rightarrow> int \<Rightarrow> db \<Rightarrow> artifact_row list option \<times> db" where
  "db_list_artifacts job_id max_count d =
     (if max_count \<le> 0 then (None, d)
      else sql_read (\<lambda>t. Some (map read_artifact (take (nat max_count)
             (sort_key ar_id (filter (\<lambda>a. ar_job_id a = job_id) (t_artifacts t)))))) None (Some []) d)"

subsection \<open>API keys\<close>

definition db_insert_api_key_full ::
  "int \<Rightarrow> string \<Rightarrow> string \<Rightarrow> string option \<Rightarrow> string option \<Rightarrow> int \<Rightarrow> db \<Rightarrow> int \<times> db" where
  "db_insert_api_key_full now key_hash label role user_id expires_at = sql_run (\<lambda>t.
     if key_hash \<in> ak_key_hash ` set (t_api_keys t) then None
     else Some (t\<lparr>t_api_keys := t_api_keys t @
       [\<lparr> ak_key_hash = key_hash, ak_label = label,
          ak_role = (if col_text role = [] then ''user'' else col_text role),
          ak_user_id = col_text user_id, ak_created_at = now, ak_expires_at = expires_at,
          ak_revoked = False \<rparr>]\<rparr>, 1))"

definition db_insert_api_key_ex :: "int \<Rightarrow> string \<Rightarrow> string \<Rightarrow> string option \<Rightarrow> int \<Rightarrow> db \<Rightarrow> int \<times> db" where
  "db_insert_api_key_ex now key_hash label role expires_at =
     db_insert_api_key_full now key_hash label role (Some []) expires_at"

definition db_insert_api_key :: "int \<Rightarrow> string \<Rightarrow> string \<Rightarrow> db \<Rightarrow> int \<times> db" where
  "db_insert_api_key now key_hash label = db_insert_api_key_ex now key_hash label (Some ''admin'') 0"

text \<open>\<open>Some (role, user)\<close> is the result 1 with the two buffers filled, \<open>None\<close> is 0.\<close>

definition db_resolve_api_key_full :: "int \<Rightarrow> string \<Rightarrow> nat \<Rightarrow> db \<Rightarrow> (string \<times> string) option \<times> db" where
  "db_resolve_api_key_full now key_hash uid_len =
     sql_read (\<lambda>t. case find (\<lambda>k. ak_key_hash k = key_hash \<and> \<not> ak_revoked k) (t_api_keys t) of
         None \<Rightarrow> None
       | Some k \<Rightarrow> if ak_expires_at k > 0 \<and> ak_expires_at k < now then None
                   else Some (buf 16 (ak_role k), buf uid_len (ak_user_id k)))
       None None"

definition db_resolve_api_key_role :: "int \<Rightarrow> string \<Rightarrow> db \<Rightarrow> string option \<times> db" where
  "db_resolve_api_key_role now key_hash d =
     (let (r, d') = db_resolve_api_key_full now key_hash 128 d in (map_option fst r, d'))"

definition db_validate_api_key :: "int \<Rightarrow> string \<Rightarrow> db \<Rightarrow> bool \<times> db" where
  "db_validate_api_key now key_hash d =
     (let (r, d') = db_resolve_api_key_role now key_hash d in (r \<noteq> None, d'))"

definition read_key :: "key_row \<Rightarrow> key_row" where
  "read_key k = k\<lparr>ak_key_hash := buf 65 (ak_key_hash k), ak_label := buf 128 (ak_label k),
     ak_role := buf 16 (ak_role k), ak_user_id := buf 128 (ak_user_id k)\<rparr>"

definition db_list_api_keys :: "int \<Rightarrow> db \<Rightarrow> key_row list \<times> db" where
  "db_list_api_keys max_count =
     sql_read (\<lambda>t. map read_key (take (nat max_count)
       (sort_key (\<lambda>k. - ak_created_at k) (t_api_keys t)))) [] []"

definition db_revoke_api_key :: "string \<Rightarrow> db \<Rightarrow> int \<times> db" where
  "db_revoke_api_key key_hash = sql_run (\<lambda>t.
     let (rows, n) = update_rows (\<lambda>k. ak_key_hash k = key_hash) (\<lambda>k. k\<lparr>ak_revoked := True\<rparr>) (t_api_keys t)
     in Some (t\<lparr>t_api_keys := rows\<rparr>, n))"

definition db_find_user_key :: "int \<Rightarrow> string \<Rightarrow> nat \<Rightarrow> db \<Rightarrow> string option \<times> db" where
  "db_find_user_key now user_id hash_len =
     sql_read (\<lambda>t. map_option (\<lambda>k. buf hash_len (ak_key_hash k))
       (find (\<lambda>k. ak_user_id k = user_id \<and> \<not> ak_revoked k \<and>
                  (ak_expires_at k = 0 \<or> ak_expires_at k > now)) (t_api_keys t))) None None"

subsection \<open>Submission keys\<close>

text \<open>\<open>Some (Some id)\<close> is 1 with the identifier, \<open>Some None\<close> is 0, \<open>None\<close> is -1.\<close>

definition db_get_submission_job ::
  "string \<Rightarrow> string \<Rightarrow> nat \<Rightarrow> db \<Rightarrow> string option option \<times> db" where
  "db_get_submission_job user_id idempotency_key out_len d =
     (if out_len < 1 then (None, d)
      else sql_read (\<lambda>t. Some (map_option (\<lambda>s. buf out_len (su_job_id s))
             (find (\<lambda>s. su_user_id s = user_id \<and> su_idempotency_key s = idempotency_key \<and>
                        su_job_id s \<in> r_id ` set (t_jobs t)) (t_submission_keys t)))) None None d)"

definition db_store_submission_key :: "int \<Rightarrow> string \<Rightarrow> string \<Rightarrow> string \<Rightarrow> db \<Rightarrow> int \<times> db" where
  "db_store_submission_key now user_id idempotency_key job_id = sql_run (\<lambda>t.
     Some (t\<lparr>t_submission_keys :=
       filter (\<lambda>s. \<not> (su_user_id s = user_id \<and> su_idempotency_key s = idempotency_key))
         (t_submission_keys t) @
       [\<lparr> su_user_id = user_id, su_idempotency_key = idempotency_key, su_job_id = job_id,
          su_created_at = now \<rparr>]\<rparr>, 1))"

subsection \<open>Purging\<close>

definition db_purge_jobs :: "db \<Rightarrow> int \<times> db" where
  "db_purge_jobs d =
     (let (b, d1) = db_begin d in
      if b \<noteq> 0 then (-1, d1)
      else let (n, d2) = sql_write (\<lambda>t. Some (t\<lparr>t_submission_keys :=
                 filter (\<lambda>s. \<not> (\<exists>r \<in> set (t_jobs t). r_id r = su_job_id s \<and> terminal (r_status r)))
                   (t_submission_keys t)\<rparr>, 0)) d1 in
           if n = None then (-1, snd (db_rollback d2))
           else let (m, d3) = sql_write (\<lambda>t. Some (t\<lparr>t_jobs :=
                      filter (\<lambda>r. \<not> terminal (r_status r)) (t_jobs t)\<rparr>,
                      length (filter (\<lambda>r. terminal (r_status r)) (t_jobs t)))) d2 in
                case m of
                  None \<Rightarrow> (-1, snd (db_rollback d3))
                | Some deleted \<Rightarrow>
                    let (c, d4) = db_commit d3 in
                    if c \<noteq> 0 then (-1, snd (db_rollback d4)) else (int deleted, d4))"

subsection \<open>Users\<close>

definition db_create_user :: "int \<Rightarrow> user_row \<Rightarrow> db \<Rightarrow> int \<times> db" where
  "db_create_user now u = sql_run (\<lambda>t.
     if us_user_id u \<in> us_user_id ` set (t_users t) then None
     else Some (t\<lparr>t_users := t_users t @ [u\<lparr>us_password_hash := [], us_created_at := now\<rparr>]\<rparr>, 1))"

text \<open>\<open>return sqlite3_changes(s_db) > 0 ? 0 : -1;\<close>\<close>

definition sql_run_some :: "(tables \<Rightarrow> (tables \<times> nat) option) \<Rightarrow> db \<Rightarrow> int \<times> db" where
  "sql_run_some f d =
     (let (r, d') = sql_write f d in
      (case r of None \<Rightarrow> -1 | Some n \<Rightarrow> if n > 0 then 0 else -1, d'))"

definition update_users :: "string \<Rightarrow> (user_row \<Rightarrow> user_row) \<Rightarrow> tables \<Rightarrow> (tables \<times> nat) option" where
  "update_users user_id f t =
     (let (rows, n) = update_rows (\<lambda>u. us_user_id u = user_id) f (t_users t)
      in Some (t\<lparr>t_users := rows\<rparr>, n))"

definition db_set_user_password :: "string \<Rightarrow> string \<Rightarrow> db \<Rightarrow> int \<times> db" where
  "db_set_user_password user_id password_hash =
     sql_run_some (update_users user_id (\<lambda>u. u\<lparr>us_password_hash := password_hash\<rparr>))"

definition db_check_user_password :: "string \<Rightarrow> string \<Rightarrow> db \<Rightarrow> int \<times> db" where
  "db_check_user_password user_id password_hash =
     sql_read (\<lambda>t. case find (\<lambda>u. us_user_id u = user_id \<and> us_password_hash u = password_hash) (t_users t) of
         None \<Rightarrow> -1 | Some u \<Rightarrow> if us_enabled u \<noteq> 0 then 0 else -2) (-1) (-1)"

definition db_get_user_auth :: "string \<Rightarrow> nat \<Rightarrow> db \<Rightarrow> (string \<times> int) option \<times> db" where
  "db_get_user_auth user_id hash_len =
     sql_read (\<lambda>t. map_option (\<lambda>u. (buf hash_len (us_password_hash u), us_enabled u))
       (find (\<lambda>u. us_user_id u = user_id) (t_users t))) None None"

definition db_update_user :: "user_row \<Rightarrow> db \<Rightarrow> int \<times> db" where
  "db_update_user u = sql_run_some (update_users (us_user_id u)
     (\<lambda>v. v\<lparr>us_display_name := us_display_name u, us_email := us_email u, us_enabled := us_enabled u\<rparr>))"

definition db_delete_user :: "string \<Rightarrow> db \<Rightarrow> int \<times> db" where
  "db_delete_user user_id = sql_run_some (\<lambda>t.
     Some (t\<lparr>t_users := filter (\<lambda>u. us_user_id u \<noteq> user_id) (t_users t)\<rparr>,
           length (filter (\<lambda>u. us_user_id u = user_id) (t_users t))))"

text \<open>A \<open>UserRecord\<close> has no password field: it reads as empty.\<close>

definition read_user :: "user_row \<Rightarrow> user_row" where
  "read_user u = u\<lparr>us_user_id := buf 128 (us_user_id u), us_display_name := buf 256 (us_display_name u),
     us_email := buf 256 (us_email u), us_password_hash := []\<rparr>"

definition db_get_user :: "string \<Rightarrow> db \<Rightarrow> user_row option \<times> db" where
  "db_get_user user_id =
     sql_read (\<lambda>t. map_option read_user (find (\<lambda>u. us_user_id u = user_id) (t_users t))) None None"

definition db_list_user_records :: "int \<Rightarrow> db \<Rightarrow> user_row list \<times> db" where
  "db_list_user_records max_count =
     sql_read (\<lambda>t. map read_user (take (nat max_count) (sort_key us_user_id (t_users t)))) [] []"

subsection \<open>Quotas\<close>

definition same_quota :: "string \<Rightarrow> string \<Rightarrow> quota \<Rightarrow> bool" where
  "same_quota user_id app_id q \<longleftrightarrow> qu_user_id q = user_id \<and> qu_app_id q = app_id"

definition db_insert_quota :: "quota \<Rightarrow> db \<Rightarrow> int \<times> db" where
  "db_insert_quota q = sql_run (\<lambda>t.
     if \<exists>p \<in> set (t_quotas t). same_quota (qu_user_id q) (qu_app_id q) p then None
     else Some (t\<lparr>t_quotas := t_quotas t @ [q]\<rparr>, 1))"

definition db_update_quota :: "quota \<Rightarrow> db \<Rightarrow> int \<times> db" where
  "db_update_quota q = sql_run_some (\<lambda>t.
     let (rows, n) = update_rows (same_quota (qu_user_id q) (qu_app_id q))
           (\<lambda>p. p\<lparr>qu_max_jobs := qu_max_jobs q, qu_max_ram_mb := qu_max_ram_mb q,
                   qu_max_cores := qu_max_cores q, qu_max_concurrent := qu_max_concurrent q\<rparr>) (t_quotas t)
     in Some (t\<lparr>t_quotas := rows\<rparr>, n))"

definition db_delete_quota :: "string \<Rightarrow> string \<Rightarrow> db \<Rightarrow> int \<times> db" where
  "db_delete_quota user_id app_id = sql_run_some (\<lambda>t.
     Some (t\<lparr>t_quotas := filter (\<lambda>q. \<not> same_quota user_id app_id q) (t_quotas t)\<rparr>,
           length (filter (same_quota user_id app_id) (t_quotas t))))"

definition read_quota :: "quota \<Rightarrow> quota" where
  "read_quota q = q\<lparr>qu_user_id := buf 128 (qu_user_id q), qu_app_id := buf 128 (qu_app_id q)\<rparr>"

definition db_get_quota :: "string \<Rightarrow> string \<Rightarrow> db \<Rightarrow> quota option \<times> db" where
  "db_get_quota user_id app_id =
     sql_read (\<lambda>t. map_option read_quota (find (same_quota user_id app_id) (t_quotas t))) None None"

definition db_list_quotas :: "int \<Rightarrow> db \<Rightarrow> quota list \<times> db" where
  "db_list_quotas max_count =
     sql_read (\<lambda>t. map read_quota (take (nat max_count)
       (sort_key qu_user_id (sort_key qu_app_id (t_quotas t))))) [] []"

text \<open>The lookups of \<open>resolve_quota\<close>, tried in order until one succeeds.\<close>

fun first_quota :: "(string \<times> string) list \<Rightarrow> db \<Rightarrow> quota option \<times> db" where
  "first_quota [] d = (None, d)"
| "first_quota ((u, a) # rest) d =
     (let (q, d') = db_get_quota u a d in
      if q \<noteq> None then (q, d') else first_quota rest d')"

definition quota_keys :: "string \<Rightarrow> string \<Rightarrow> (string \<times> string) list" where
  "quota_keys user_id app_id =
     (if user_id \<noteq> [] \<and> app_id \<noteq> [] then [(user_id, app_id)] else []) @
     (if user_id \<noteq> [] then [(user_id, [])] else []) @
     (if app_id \<noteq> [] then [([], app_id)] else []) @ [([], [])]"

definition resolve_quota :: "string \<Rightarrow> string \<Rightarrow> db \<Rightarrow> quota option \<times> db" where
  "resolve_quota user_id app_id = first_quota (quota_keys user_id app_id)"

text \<open>Jobs, cores and memory of the active jobs the usage query selects.\<close>

definition quota_usage :: "string \<Rightarrow> string \<Rightarrow> tables \<Rightarrow> int \<times> int \<times> int" where
  "quota_usage uid aid t =
     (let rs = filter (\<lambda>r. r_status r \<in> {JOB_STATUS_LEGACY_1, JOB_STATUS_RUNNING} \<and>
                 (uid = [] \<or> r_user_id r = uid) \<and> (aid = [] \<or> r_app_id r = aid)) (t_jobs t)
      in (int (length rs), sum_list (map r_req_cores rs), sum_list (map r_req_ram_mb rs)))"

text \<open>\<open>(uid, aid)\<close> at the end of each message.\<close>

definition quota_tail :: "string \<Rightarrow> string \<Rightarrow> string" where
  "quota_tail uid aid = '' waiting in queue (user='' @ uid @ '', app='' @ aid @ '')''"

text \<open>The UTF-8 bytes of the dash in the messages.\<close>

definition em_dash :: string where
  "em_dash = map char_of [226, 128, 148 :: nat]"

definition db_quota_check ::
  "string \<Rightarrow> string \<Rightarrow> int \<Rightarrow> int \<Rightarrow> nat \<Rightarrow> db \<Rightarrow> (string + unit) \<times> db" where
  "db_quota_check user_id app_id req_cores req_ram_mb reason_len d =
     (let (qo, d1) = resolve_quota user_id app_id d in
      case qo of
        None \<Rightarrow> (Inr (), d1)
      | Some q \<Rightarrow>
          let (u, d2) = sql_read (\<lambda>t. Some (quota_usage user_id app_id t)) None (Some (0, 0, 0)) d1 in
          case u of
            None \<Rightarrow> (Inr (), d2)
          | Some (running_jobs, used_cores, used_ram) \<Rightarrow>
              let no = (\<lambda>msg. Inl (buf reason_len (msg @ '' '' @ em_dash @ quota_tail user_id app_id)))
              in (if qu_max_jobs q > 0 \<and> running_jobs + 1 > qu_max_jobs q then
                    no (''Quota: max_jobs='' @ dec (qu_max_jobs q) @ '', running='' @ dec running_jobs)
                  else if qu_max_concurrent q > 0 \<and> running_jobs + 1 > qu_max_concurrent q then
                    no (''Quota: max_concurrent='' @ dec (qu_max_concurrent q) @ '', running='' @
                        dec running_jobs)
                  else if qu_max_cores q > 0 \<and> used_cores + req_cores > qu_max_cores q then
                    no (''Quota: max_cores='' @ dec (qu_max_cores q) @ '', used='' @ dec used_cores @
                        '', requested='' @ dec req_cores)
                  else if qu_max_ram_mb q > 0 \<and> used_ram + req_ram_mb > qu_max_ram_mb q then
                    no (''Quota: max_ram_mb='' @ dec (qu_max_ram_mb q) @ '', used='' @ dec used_ram @
                        '', requested='' @ dec req_ram_mb)
                  else Inr (), d2))"

subsection \<open>Workflows and favorites\<close>

definition db_insert_workflow :: "workflow_row \<Rightarrow> db \<Rightarrow> int \<times> db" where
  "db_insert_workflow w = sql_run (\<lambda>t.
     if wf_id w \<in> wf_id ` set (t_workflows t) then None
     else Some (t\<lparr>t_workflows := t_workflows t @ [w]\<rparr>, 1))"

definition db_update_workflow :: "workflow_row \<Rightarrow> db \<Rightarrow> int \<times> db" where
  "db_update_workflow w = sql_run (\<lambda>t.
     let (rows, n) = update_rows (\<lambda>v. wf_id v = wf_id w)
           (\<lambda>v. v\<lparr>wf_name := wf_name w, wf_is_global := wf_is_global w,
                   wf_steps_json := wf_steps_json w, wf_updated_at := wf_updated_at w\<rparr>) (t_workflows t)
     in Some (t\<lparr>t_workflows := rows\<rparr>, n))"

definition db_delete_workflow :: "string \<Rightarrow> db \<Rightarrow> int \<times> db" where
  "db_delete_workflow w d =
     (let (n, d1) = sql_run (\<lambda>t. Some (t\<lparr>t_workflows :=
            filter (\<lambda>v. wf_id v \<noteq> w) (t_workflows t)\<rparr>, 0)) d;
          (m, d2) = sql_run (\<lambda>t. Some (t\<lparr>t_favorites :=
            filter (\<lambda>(u, v). v \<noteq> w) (t_favorites t)\<rparr>, 0)) d1
      in (n, d2))"

definition read_workflow :: "workflow_row \<Rightarrow> workflow_row" where
  "read_workflow w = w\<lparr>wf_id := buf 64 (wf_id w), wf_name := buf 256 (wf_name w),
     wf_owner_id := buf 128 (wf_owner_id w), wf_steps_json := buf 16384 (wf_steps_json w)\<rparr>"

definition db_get_workflow :: "string \<Rightarrow> db \<Rightarrow> workflow_row option \<times> db" where
  "db_get_workflow w =
     sql_read (\<lambda>t. map_option read_workflow (find (\<lambda>v. wf_id v = w) (t_workflows t))) None None"

definition db_list_workflows :: "string option \<Rightarrow> int \<Rightarrow> db \<Rightarrow> workflow_row list \<times> db" where
  "db_list_workflows user_id max_count =
     sql_read (\<lambda>t. map read_workflow (take (nat max_count) (sort_key (\<lambda>w. - wf_updated_at w)
       (filter (\<lambda>w. col_text user_id = [] \<or> wf_owner_id w = col_text user_id \<or> wf_is_global w = 1)
          (t_workflows t))))) [] []"

definition db_add_workflow_favorite :: "string \<Rightarrow> string \<Rightarrow> db \<Rightarrow> int \<times> db" where
  "db_add_workflow_favorite user_id w = sql_run (\<lambda>t.
     if (user_id, w) \<in> set (t_favorites t) then Some (t, 0)
     else Some (t\<lparr>t_favorites := t_favorites t @ [(user_id, w)]\<rparr>, 1))"

definition db_remove_workflow_favorite :: "string \<Rightarrow> string \<Rightarrow> db \<Rightarrow> int \<times> db" where
  "db_remove_workflow_favorite user_id w = sql_run (\<lambda>t.
     Some (t\<lparr>t_favorites := filter (\<lambda>f. f \<noteq> (user_id, w)) (t_favorites t)\<rparr>, 0))"

definition db_is_workflow_favorite :: "string \<Rightarrow> string \<Rightarrow> db \<Rightarrow> bool \<times> db" where
  "db_is_workflow_favorite user_id w =
     sql_read (\<lambda>t. (user_id, w) \<in> set (t_favorites t)) False False"

subsection \<open>Persistent events and the audit log\<close>

definition db_insert_event ::
  "int \<Rightarrow> string option \<Rightarrow> string option \<Rightarrow> string option \<Rightarrow> string option \<Rightarrow> string option \<Rightarrow>
   string option \<Rightarrow> db \<Rightarrow> int \<times> db" where
  "db_insert_event now category event_type detail user_id job_id machine_id = sql_run (\<lambda>t.
     Some (t\<lparr>t_events := t_events t @
       [\<lparr> ev_id = t_event_seq t + 1, ev_category = col_text category, ev_event_type = col_text event_type,
          ev_detail = col_text detail, ev_user_id = col_text user_id, ev_job_id = col_text job_id,
          ev_machine_id = col_text machine_id, ev_created_at = now \<rparr>],
       t_event_seq := t_event_seq t + 1\<rparr>, 1))"

definition read_event :: "event_row \<Rightarrow> event_row" where
  "read_event e = e\<lparr>ev_category := buf 64 (ev_category e), ev_event_type := buf 64 (ev_event_type e),
     ev_detail := buf 1024 (ev_detail e), ev_user_id := buf 128 (ev_user_id e),
     ev_job_id := buf 37 (ev_job_id e), ev_machine_id := buf 64 (ev_machine_id e)\<rparr>"

definition db_list_events :: "int \<Rightarrow> string option \<Rightarrow> int \<Rightarrow> int \<Rightarrow> db \<Rightarrow> event_row list \<times> db" where
  "db_list_events max_count category_filter from_ts to_ts =
     sql_read (\<lambda>t. map read_event (take (nat max_count) (sort_key (\<lambda>e. - ev_created_at e)
       (filter (\<lambda>e. (col_text category_filter = [] \<or> ev_category e = col_text category_filter) \<and>
                    ev_created_at e \<ge> from_ts \<and> (to_ts = 0 \<or> ev_created_at e \<le> to_ts)) (t_events t))))) [] []"

definition db_audit :: "int \<Rightarrow> string \<Rightarrow> string \<Rightarrow> db \<Rightarrow> int \<times> db" where
  "db_audit now event detail = sql_run (\<lambda>t.
     Some (t\<lparr>t_audit_log := t_audit_log t @ [(event, detail, now)]\<rparr>, 1))"

end
