(* ===== verification/DbOpen.thy ===== *)
theory DbOpen
  imports Prelude
begin

text \<open>
  \<open>db_open\<close> of \<open>src/persistence/db.c\<close>: the schema, and the migrations of a file an older version wrote. A file is a list of
  tables with their columns, primary key and rows; a row lists the values of its columns. Indexes and
  the remaining constraints do not change rows and are left out. Which statement fails is an argument.
\<close>

section \<open>Model\<close>

datatype sval = SNull | SInt int | SText string

type_synonym raw_row = "(string \<times> sval) list"

record raw_table =
  rt_cols :: "string list"
  rt_key :: "string list"
  rt_rows :: "raw_row list"

type_synonym db_file = "(string \<times> raw_table) list"

definition empty_table :: "string list \<Rightarrow> string list \<Rightarrow> raw_table" where
  "empty_table cols key = \<lparr> rt_cols = cols, rt_key = key, rt_rows = [] \<rparr>"

definition allocation_cols :: "string list" where
  "allocation_cols = [''job_id'', ''machine_id'', ''cores'', ''gpu'', ''ram_mb'', ''disk_mb'', ''allocated_at'', ''released_at'']"

definition SCHEMA :: db_file where
  "SCHEMA =
     [(''jobs'', empty_table [''id'', ''command'', ''status'', ''priority'', ''req_cores'', ''req_gpu'', ''req_ram_mb'', ''req_disk_mb'', ''machine_id'', ''input_dir'',
        ''output_dir'', ''exit_code'', ''submitted_at'', ''started_at'', ''ended_at'', ''input_files'', ''timeout_seconds'', ''status_reason''] [''id'']),
      (''api_keys'', empty_table [''key_hash'', ''label'', ''role'', ''user_id'', ''created_at'', ''expires_at'', ''revoked''] [''key_hash'']),
      (''allocations'', empty_table allocation_cols [''job_id'', ''machine_id'']),
      (''batches'', empty_table [''id'', ''name'', ''user_id'', ''created_at''] [''id'']),
      (''artifacts'', empty_table [''id'', ''job_id'', ''type'', ''uri'', ''size_bytes'', ''checksum'', ''created_at''] [''id'']),
      (''audit_log'', empty_table [''id'', ''event'', ''detail'', ''ts''] [''id'']),
      (''quotas'', empty_table [''user_id'', ''app_id'', ''max_jobs'', ''max_ram_mb'', ''max_cores'', ''max_concurrent''] [''user_id'', ''app_id'']),
      (''users'', empty_table [''user_id'', ''display_name'', ''email'', ''password_hash'', ''enabled'', ''created_at''] [''user_id'']),
      (''workflows'', empty_table [''id'', ''name'', ''owner_id'', ''is_global'', ''steps_json'', ''created_at'', ''updated_at''] [''id'']),
      (''workflow_favorites'', empty_table [''user_id'', ''workflow_id''] [''user_id'', ''workflow_id'']),
      (''events'', empty_table [''id'', ''category'', ''event_type'', ''detail'', ''user_id'', ''job_id'', ''machine_id'', ''created_at''] [''id'']),
      (''submission_keys'', empty_table [''user_id'', ''idempotency_key'', ''job_id'', ''created_at''] [''user_id'', ''idempotency_key''])]"

text \<open>\<open>CREATE TABLE IF NOT EXISTS\<close>\<close>

definition create_table :: "string \<times> raw_table \<Rightarrow> db_file \<Rightarrow> db_file" where
  "create_table nt f = (if map_of f (fst nt) = None then f @ [nt] else f)"

definition set_table :: "string \<Rightarrow> raw_table \<Rightarrow> db_file \<Rightarrow> db_file" where
  "set_table name t f = map (\<lambda>(n, u). (n, if n = name then t else u)) f"

definition drop_table :: "string \<Rightarrow> db_file \<Rightarrow> db_file" where
  "drop_table name f = filter (\<lambda>(n, _). n \<noteq> name) f"

text \<open>\<open>ALTER TABLE ... ADD COLUMN ... DEFAULT\<close>, whose failure is ignored.\<close>

definition add_column :: "string \<Rightarrow> string \<Rightarrow> sval \<Rightarrow> db_file \<Rightarrow> db_file" where
  "add_column name col dflt f =
     (case map_of f name of
        None \<Rightarrow> f
      | Some t \<Rightarrow>
          if col \<in> set (rt_cols t) then f
          else set_table name (t\<lparr>rt_cols := rt_cols t @ [col], rt_rows := map (\<lambda>r. r @ [(col, dflt)]) (rt_rows t)\<rparr>) f)"

definition added_columns :: "(string \<times> string \<times> sval) list" where
  "added_columns =
     [(''jobs'', ''input_files'', SText []), (''jobs'', ''timeout_seconds'', SInt 0), (''jobs'', ''status_reason'', SText []),
      (''jobs'', ''user_id'', SText []), (''jobs'', ''app_id'', SText []),
      (''api_keys'', ''role'', SText ''admin''), (''api_keys'', ''expires_at'', SInt 0), (''api_keys'', ''user_id'', SText []),
      (''users'', ''password_hash'', SText []),
      (''jobs'', ''depends_on'', SText []), (''jobs'', ''workflow_id'', SText []), (''jobs'', ''same_machine_as'', SText []), (''jobs'', ''batch_id'', SText [])]"

fun add_columns :: "(nat \<Rightarrow> bool) \<Rightarrow> nat \<Rightarrow> (string \<times> string \<times> sval) list \<Rightarrow> db_file \<Rightarrow> db_file" where
  "add_columns ok i [] f = f"
| "add_columns ok i ((name, col, dflt) # cs) f = add_columns ok (Suc i) cs (if ok i then add_column name col dflt f else f)"

text \<open>
  \<open>INSERT OR REPLACE INTO ... SELECT\<close> of the legacy rows: it fails when a column is missing or a row has no job or
  machine; a NULL in a column that is \<open>NOT NULL\<close> becomes its default, and a row replaces an earlier one with its key.
\<close>

definition row_val :: "raw_row \<Rightarrow> string \<Rightarrow> sval" where
  "row_val r c = (case map_of r c of None \<Rightarrow> SNull | Some v \<Rightarrow> v)"

definition row_num :: "raw_row \<Rightarrow> string \<Rightarrow> sval" where
  "row_num r c = (if row_val r c = SNull then SInt 0 else row_val r c)"

definition copied_row :: "raw_row \<Rightarrow> raw_row option" where
  "copied_row r =
     (if row_val r ''job_id'' = SNull \<or> row_val r ''machine_id'' = SNull then None
      else Some (map (\<lambda>c. (c, row_val r c)) [''job_id'', ''machine_id''] @ map (\<lambda>c. (c, row_num r c)) [''cores'', ''gpu'', ''ram_mb'', ''disk_mb''] @
             map (\<lambda>c. (c, row_val r c)) [''allocated_at'', ''released_at'']))"

definition alloc_key :: "raw_row \<Rightarrow> sval option \<times> sval option" where
  "alloc_key r = (map_of r ''job_id'', map_of r ''machine_id'')"

fun copy_rows :: "raw_row list \<Rightarrow> raw_row list \<Rightarrow> raw_row list option" where
  "copy_rows done [] = Some done"
| "copy_rows done (r # rs) =
     (case copied_row r of
        None \<Rightarrow> None
      | Some r' \<Rightarrow> copy_rows (filter (\<lambda>x. alloc_key x \<noteq> alloc_key r') done @ [r']) rs)"

definition rebuilt :: "raw_table \<Rightarrow> raw_table option" where
  "rebuilt t =
     (if \<not> set allocation_cols \<subseteq> set (rt_cols t) then None
      else map_option (\<lambda>rows. \<lparr> rt_cols = allocation_cols, rt_key = [''job_id'', ''machine_id''], rt_rows = rows \<rparr>) (copy_rows [] (rt_rows t)))"

text \<open>The position of a column in the primary key, 0 for none, as \<open>PRAGMA table_info\<close> gives it.\<close>

definition pk_order :: "string \<Rightarrow> raw_table \<Rightarrow> nat" where
  "pk_order col t = (if col \<in> set (rt_key t) then Suc (length (takeWhile (\<lambda>c. c \<noteq> col) (rt_key t))) else 0)"

definition rebuild_allocations :: "bool \<Rightarrow> raw_table \<Rightarrow> db_file \<Rightarrow> int \<times> db_file" where
  "rebuild_allocations exec_ok t f =
     (case rebuilt t of
        None \<Rightarrow> (-1, f)
      | Some u \<Rightarrow> if exec_ok then (0, set_table ''allocations'' u f) else (-1, f))"

definition migrate_allocations_primary_key :: "bool \<Rightarrow> bool \<Rightarrow> db_file \<Rightarrow> int \<times> db_file" where
  "migrate_allocations_primary_key prepare_ok exec_ok f =
     (case map_of f ''allocations'' of
        None \<Rightarrow> (-1, f)
      | Some t \<Rightarrow>
          if \<not> prepare_ok then (-1, f)
          else if pk_order ''job_id'' t = 1 \<and> pk_order ''machine_id'' t = 2 then (0, f)
          else let (r, f1) = rebuild_allocations exec_ok t f in (r, if r = 0 then drop_table ''allocations_new'' f1 else f1))"

definition migrate_allocations_schema :: "bool \<Rightarrow> bool \<Rightarrow> db_file \<Rightarrow> int \<times> db_file" where
  "migrate_allocations_schema prepare_ok exec_ok f =
     (case map_of f ''allocations'' of
        None \<Rightarrow> (-1, f)
      | Some t \<Rightarrow>
          if \<not> prepare_ok then (-1, f)
          else if pk_order ''machine_id'' t > 0 then (0, f)
          else if map_of f ''allocations_legacy'' \<noteq> None then (-1, f)
          else rebuild_allocations exec_ok t f)"

record open_outcome =
  oo_open :: bool
  oo_schema :: "nat option"
  oo_key :: "bool \<times> bool"
  oo_alter :: "nat \<Rightarrow> bool"
  oo_legacy :: "bool \<times> bool"

text \<open>\<open>oo_schema\<close>: after how many tables the schema fails, if it does.\<close>

definition db_open :: "open_outcome \<Rightarrow> db_file \<Rightarrow> int \<times> db_file" where
  "db_open oo f =
     (if \<not> oo_open oo then (-1, f)
      else case oo_schema oo of
        Some n \<Rightarrow> (-1, fold create_table (take n SCHEMA) f)
      | None \<Rightarrow>
          let (r, f1) = migrate_allocations_primary_key (fst (oo_key oo)) (snd (oo_key oo)) (fold create_table SCHEMA f) in
          if r \<noteq> 0 then (-1, f1)
          else let (r2, f2) = migrate_allocations_schema (fst (oo_legacy oo)) (snd (oo_legacy oo)) (add_columns (oo_alter oo) 0 added_columns f1) in
               if r2 \<noteq> 0 then (-1, f2) else (0, f2))"

section \<open>Laws\<close>

text \<open>
  A table that has become another: the columns it had are there, and so are its rows, each with the
  values it had in them.
\<close>

definition extends :: "raw_table \<Rightarrow> raw_table \<Rightarrow> bool" where
  "extends t t' \<longleftrightarrow> set (rt_cols t) \<subseteq> set (rt_cols t') \<and> rt_key t' = rt_key t \<and>
     list_all2 (\<lambda>r r'. map_of r \<subseteq>\<^sub>m map_of r') (rt_rows t) (rt_rows t')"

definition file_extends :: "db_file \<Rightarrow> db_file \<Rightarrow> bool" where
  "file_extends f f' \<longleftrightarrow> (\<forall>n t. map_of f n = Some t \<longrightarrow> (\<exists>t'. map_of f' n = Some t' \<and> extends t t'))"

lemma extends_refl [simp]: "extends t t"
  by (simp add: extends_def list_all2_refl)

lemma extends_trans: "extends t u \<Longrightarrow> extends u v \<Longrightarrow> extends t v"
  unfolding extends_def
  using list_all2_trans [of "\<lambda>r r'. map_of r \<subseteq>\<^sub>m map_of r'" "\<lambda>r r'. map_of r \<subseteq>\<^sub>m map_of r'" "\<lambda>r r'. map_of r \<subseteq>\<^sub>m map_of r'" "rt_rows t" "rt_rows u" "rt_rows v"]
  by (auto intro: map_le_trans)

lemma file_extends_refl [simp]: "file_extends f f"
  by (auto simp: file_extends_def)

lemma file_extends_trans: "file_extends f g \<Longrightarrow> file_extends g h \<Longrightarrow> file_extends f h"
  unfolding file_extends_def by (meson extends_trans)

lemma map_of_set_table: "map_of (set_table name t f) n = (if n = name \<and> map_of f name \<noteq> None then Some t else map_of f n)"
  unfolding set_table_def by (induction f) auto

lemma map_of_drop_table: "map_of (drop_table name f) n = (if n = name then None else map_of f n)"
  unfolding drop_table_def by (induction f) auto

lemma create_table_extends: "file_extends f (create_table nt f)"
  by (auto simp: file_extends_def create_table_def map_add_def split: option.splits)

lemma create_tables_extend: "file_extends f (fold create_table ts f)"
  by (induction ts arbitrary: f) (auto intro: file_extends_trans create_table_extends)

lemma create_tables_same: "map_of f n = Some t \<Longrightarrow> map_of (fold create_table ts f) n = Some t"
  by (induction ts arbitrary: f) (auto simp: create_table_def)

lemma create_tables_names: "n \<in> fst ` set ts \<Longrightarrow> map_of (fold create_table ts f) n \<noteq> None"
proof (induction ts arbitrary: f)
  case (Cons nt ts)
  have keep: "map_of g n \<noteq> None \<Longrightarrow> map_of (fold create_table ts g) n \<noteq> None" for g
    using create_tables_extend [of g ts] unfolding file_extends_def by fastforce
  show ?case
  proof (cases "n = fst nt")
    case True
    then have "map_of (create_table nt f) n \<noteq> None" by (cases nt) (auto simp: create_table_def map_add_def split: option.splits)
    then show ?thesis using keep by simp
  next
    case False
    then show ?thesis using Cons by auto
  qed
qed simp

lemma add_column_extends: "file_extends f (add_column name col dflt f)"
proof (cases "map_of f name")
  case (Some t)
  let ?t = "t\<lparr>rt_cols := rt_cols t @ [col], rt_rows := map (\<lambda>r. r @ [(col, dflt)]) (rt_rows t)\<rparr>"
  have "extends t ?t" by (auto simp: extends_def list_all2_map2 map_le_def map_add_def intro!: list_all2_refl split: option.splits)
  then show ?thesis using Some by (auto simp: add_column_def file_extends_def map_of_set_table)
qed (simp add: add_column_def)

lemma add_column_has: "map_of (add_column name col dflt f) name = Some t \<Longrightarrow> col \<in> set (rt_cols t)"
  by (auto simp: add_column_def map_of_set_table split: option.splits if_splits)

lemma add_columns_extend: "file_extends f (add_columns ok i cs f)"
proof (induction cs arbitrary: i f)
  case (Cons c cs)
  obtain name col dflt where c: "c = (name, col, dflt)" by (metis prod.exhaust)
  show ?case using Cons [where i = "Suc i" and f = "add_column name col dflt f"] Cons [where i = "Suc i" and f = f] add_column_extends [of f name col dflt] c
    by (auto intro: file_extends_trans)
qed simp

lemma add_columns_has:
  "\<forall>k. ok k \<Longrightarrow> (name, col, dflt) \<in> set cs \<Longrightarrow> map_of f name \<noteq> None \<Longrightarrow> \<exists>t. map_of (add_columns ok i cs f) name = Some t \<and> col \<in> set (rt_cols t)"
proof (induction cs arbitrary: i f)
  case (Cons c cs)
  obtain n a v where c: "c = (n, a, v)" by (metis prod.exhaust)
  have e: "add_columns ok i (c # cs) f = add_columns ok (Suc i) cs (add_column n a v f)" using Cons.prems(1) c by simp
  have some: "map_of (add_column n a v f) name \<noteq> None"
    using add_column_extends [of f n a v] Cons.prems(3) unfolding file_extends_def by fastforce
  show ?case
  proof (cases "c = (name, col, dflt)")
    case True
    then obtain t where "map_of (add_column n a v f) name = Some t" "col \<in> set (rt_cols t)" using some add_column_has c by blast
    then show ?thesis using add_columns_extend [of "add_column n a v f" ok "Suc i" cs] unfolding e file_extends_def extends_def by blast
  next
    case False
    then show ?thesis using Cons.IH [OF Cons.prems(1) _ some, of "Suc i"] Cons.prems(2) e by auto
  qed
qed simp

subsection \<open>Allocations\<close>

definition kept_alloc :: "raw_row \<Rightarrow> raw_row \<Rightarrow> bool" where
  "kept_alloc r r' \<longleftrightarrow> (\<forall>c \<in> set allocation_cols. \<forall>v. map_of r c = Some v \<and> v \<noteq> SNull \<longrightarrow> map_of r' c = Some v)"

definition full_key :: "raw_table \<Rightarrow> bool" where
  "full_key t \<longleftrightarrow> pk_order ''job_id'' t = 1 \<and> pk_order ''machine_id'' t = 2"

lemma row_val_Some: "map_of r c = Some v \<Longrightarrow> row_val r c = v" "row_val r c \<noteq> SNull \<Longrightarrow> map_of r c = Some (row_val r c)"
  by (auto simp: row_val_def split: option.splits)

lemma copied_row_kept: "copied_row r = Some r' \<Longrightarrow> kept_alloc r r' \<and> alloc_key r' = alloc_key r"
proof -
  assume "copied_row r = Some r'"
  then have n: "row_val r ''job_id'' \<noteq> SNull" "row_val r ''machine_id'' \<noteq> SNull"
    and r': "r' = map (\<lambda>c. (c, row_val r c)) [''job_id'', ''machine_id''] @ map (\<lambda>c. (c, row_num r c)) [''cores'', ''gpu'', ''ram_mb'', ''disk_mb''] @
             map (\<lambda>c. (c, row_val r c)) [''allocated_at'', ''released_at'']"
    by (auto simp: copied_row_def split: if_splits)
  have "map_of r' c \<in> {Some (row_val r c), Some (row_num r c)}" if "c \<in> set allocation_cols" for c
    using that unfolding r' allocation_cols_def by auto
  moreover have "row_val r c = v \<and> row_num r c = v" if "map_of r c = Some v" "v \<noteq> SNull" for c v
    using row_val_Some(1) [OF that(1)] that(2) by (simp add: row_num_def)
  ultimately have "kept_alloc r r'" unfolding kept_alloc_def by fastforce
  moreover have "alloc_key r' = alloc_key r" using row_val_Some(2) [OF n(1)] row_val_Some(2) [OF n(2)] by (simp add: r' alloc_key_def)
  ultimately show ?thesis by simp
qed

lemma copy_rows_kept:
  "copy_rows done rs = Some out \<Longrightarrow> distinct (map alloc_key (done @ rs)) \<Longrightarrow> \<exists>new. out = done @ new \<and> list_all2 kept_alloc rs new"
proof (induction rs arbitrary: "done")
  case (Cons r rs)
  obtain r' where r': "copied_row r = Some r'" "copy_rows (filter (\<lambda>x. alloc_key x \<noteq> alloc_key r') done @ [r']) rs = Some out"
    using Cons.prems(1) by (auto split: option.splits)
  note k = copied_row_kept [OF r'(1)]
  have "alloc_key r' \<notin> alloc_key ` set done" using Cons.prems(2) k by auto
  then have "filter (\<lambda>x. alloc_key x \<noteq> alloc_key r') done = done" by (intro filter_True) (metis imageI)
  moreover have "distinct (map alloc_key ((done @ [r']) @ rs))" using Cons.prems(2) k by simp
  ultimately obtain new where "out = (done @ [r']) @ new" "list_all2 kept_alloc rs new" using Cons.IH r'(2) by metis
  then show ?case using k by (intro exI [of _ "r' # new"]) simp
qed simp

lemma rebuilt_kept:
  assumes "rebuilt t = Some u"
  shows "full_key u" "distinct (map alloc_key (rt_rows t)) \<Longrightarrow> list_all2 kept_alloc (rt_rows t) (rt_rows u)"
  using assms copy_rows_kept [of "[]" "rt_rows t"] by (auto simp: rebuilt_def full_key_def pk_order_def split: if_splits)

lemma full_key_extends: "extends t u \<Longrightarrow> full_key u = full_key t"
  by (simp add: extends_def full_key_def pk_order_def)

lemma extends_kept: "extends t u \<Longrightarrow> list_all2 kept_alloc (rt_rows t) (rt_rows u)"
  unfolding extends_def by (auto elim!: list_all2_mono simp: kept_alloc_def map_le_def dom_def)

lemma kept_alloc_le: "kept_alloc r s \<Longrightarrow> map_of s \<subseteq>\<^sub>m map_of t \<Longrightarrow> kept_alloc r t"
  by (fastforce simp: kept_alloc_def map_le_def dom_def)

lemma kept_extends:
  assumes "list_all2 kept_alloc rs (rt_rows t)" "extends t u"
  shows "list_all2 kept_alloc rs (rt_rows u)"
  using assms list_all2_trans [of kept_alloc "\<lambda>r r'. map_of r \<subseteq>\<^sub>m map_of r'" kept_alloc rs "rt_rows t" "rt_rows u"]
  by (auto simp: extends_def intro: kept_alloc_le)

lemma migrate_key:
  assumes "migrate_allocations_primary_key p e f = (0, f1)"
  shows "\<exists>t u. map_of f ''allocations'' = Some t \<and> map_of f1 ''allocations'' = Some u \<and> full_key u \<and>
    (\<forall>n. n \<notin> {''allocations'', ''allocations_new''} \<longrightarrow> map_of f1 n = map_of f n) \<and>
    (distinct (map alloc_key (rt_rows t)) \<longrightarrow> list_all2 kept_alloc (rt_rows t) (rt_rows u))"
proof -
  obtain t where t: "map_of f ''allocations'' = Some t" using assms by (auto simp: migrate_allocations_primary_key_def split: option.splits)
  show ?thesis
  proof (cases "full_key t")
    case True
    then have "f1 = f" using assms t by (auto simp: migrate_allocations_primary_key_def full_key_def split: if_splits)
    then show ?thesis using t True extends_kept [of t t] by auto
  next
    case False
    then obtain u where u: "rebuilt t = Some u" "f1 = drop_table ''allocations_new'' (set_table ''allocations'' u f)"
      using assms t by (auto simp: migrate_allocations_primary_key_def full_key_def rebuild_allocations_def split: if_splits option.splits)
    then show ?thesis using t rebuilt_kept [OF u(1)] by (intro exI [of _ t] exI [of _ u]) (auto simp: map_of_set_table map_of_drop_table)
  qed
qed

lemma add_columns_other: "(\<forall>c \<in> set cs. fst c \<noteq> n) \<Longrightarrow> map_of (add_columns ok i cs f) n = map_of f n"
proof (induction cs arbitrary: i f)
  case (Cons c cs)
  obtain m a v where c: "c = (m, a, v)" by (metis prod.exhaust)
  have "map_of (add_column m a v f) n = map_of f n" using Cons.prems c by (auto simp: add_column_def map_of_set_table split: option.splits)
  then show ?case using Cons c by simp
qed simp

lemma add_columns_append: "add_columns ok i (cs @ cs') f = add_columns ok (i + length cs) cs' (add_columns ok i cs f)"
  by (induction cs arbitrary: i f) auto

lemma list_all2_in_right: "list_all2 P xs ys \<Longrightarrow> y \<in> set ys \<Longrightarrow> \<exists>x \<in> set xs. P x y"
  by (induction rule: list_all2_induct) auto

text \<open>What the first migration leaves, the second accepts.\<close>

lemma db_open_ends:
  assumes "migrate_allocations_primary_key p e f0 = (0, f1)"
  shows "migrate_allocations_schema p' e' (add_columns ok i cs f1) = (if p' then 0 else -1, add_columns ok i cs f1)"
proof -
  obtain u where u: "map_of f1 ''allocations'' = Some u" "full_key u" using migrate_key [OF assms] by blast
  then obtain w where w: "map_of (add_columns ok i cs f1) ''allocations'' = Some w" "extends u w"
    using add_columns_extend [of f1 ok i cs] unfolding file_extends_def by blast
  then have "full_key w" using u(2) full_key_extends by blast
  then show ?thesis using w(1) by (simp add: migrate_allocations_schema_def full_key_def)
qed

lemma db_open_steps:
  assumes "db_open oo f = (0, f')"
  obtains f1 where "migrate_allocations_primary_key (fst (oo_key oo)) (snd (oo_key oo)) (fold create_table SCHEMA f) = (0, f1)"
    "\<And>n. n \<notin> {''allocations'', ''allocations_new''} \<Longrightarrow> map_of f1 n = map_of (fold create_table SCHEMA f) n" "f' = add_columns (oo_alter oo) 0 added_columns f1"
proof -
  obtain f1 where f1: "migrate_allocations_primary_key (fst (oo_key oo)) (snd (oo_key oo)) (fold create_table SCHEMA f) = (0, f1)"
    and f2: "migrate_allocations_schema (fst (oo_legacy oo)) (snd (oo_legacy oo)) (add_columns (oo_alter oo) 0 added_columns f1) = (0, f')"
    using assms by (auto simp: db_open_def split: if_splits option.splits prod.splits)
  then show ?thesis using that migrate_key [OF f1] db_open_ends [OF f1] by (auto split: if_splits)
qed


text \<open>
  Keys of a file without roles become keys of administrators. When an older file has no column for the role, its keys
  are all there after \<open>db_open\<close>, with the role admin; the schema of a new file says user.
\<close>

theorem old_keys_become_admin:
  assumes "db_open oo f = (0, f')" "\<forall>k. oo_alter oo k" "map_of f ''api_keys'' = Some t" "''role'' \<notin> set (rt_cols t)"
    and "\<forall>r \<in> set (rt_rows t). map_of r ''role'' = None"
  shows "\<exists>t'. map_of f' ''api_keys'' = Some t' \<and> extends t t' \<and> (\<forall>r \<in> set (rt_rows t'). map_of r ''role'' = Some (SText ''admin''))"
proof -
  obtain f1 where f1: "map_of f1 ''api_keys'' = Some t" "f' = add_columns (oo_alter oo) 0 added_columns f1"
  proof (rule db_open_steps [OF assms(1)])
    fix f1
    assume "\<And>n. n \<notin> {''allocations'', ''allocations_new''} \<Longrightarrow> map_of f1 n = map_of (fold create_table SCHEMA f) n" "f' = add_columns (oo_alter oo) 0 added_columns f1"
    then show thesis using create_tables_same [OF assms(3), of SCHEMA] that [of f1] by simp
  qed
  let ?before = "take 5 added_columns" and ?after = "drop 6 added_columns" and ?role = "(''api_keys'', ''role'', SText ''admin'')"
  have cs: "added_columns = ?before @ ?role # ?after" by (simp add: added_columns_def)
  let ?g = "add_columns (oo_alter oo) 0 ?before f1"
  let ?t = "t\<lparr>rt_cols := rt_cols t @ [''role''], rt_rows := map (\<lambda>r. r @ [(''role'', SText ''admin'')]) (rt_rows t)\<rparr>"
  have "map_of ?g ''api_keys'' = Some t" using f1(1) by (subst add_columns_other) (auto simp: added_columns_def)
  then have g: "map_of (add_column ''api_keys'' ''role'' (SText ''admin'') ?g) ''api_keys'' = Some ?t"
    using assms(4) by (simp add: add_column_def map_of_set_table)
  obtain i where "f' = add_columns (oo_alter oo) i ?after (add_column ''api_keys'' ''role'' (SText ''admin'') ?g)"
  proof
    have "f' = add_columns (oo_alter oo) 0 (?before @ ?role # ?after) f1" unfolding f1(2) cs [symmetric] ..
    also have "\<dots> = add_columns (oo_alter oo) (0 + length ?before) (?role # ?after) ?g" by (rule add_columns_append)
    also have "\<dots> = add_columns (oo_alter oo) (Suc (0 + length ?before)) ?after (add_column ''api_keys'' ''role'' (SText ''admin'') ?g)"
      using assms(2) by (simp only: add_columns.simps if_True)
    finally show "f' = add_columns (oo_alter oo) (Suc (0 + length ?before)) ?after (add_column ''api_keys'' ''role'' (SText ''admin'') ?g)" .
  qed
  then obtain t' where t': "map_of f' ''api_keys'' = Some t'" "extends ?t t'"
    using add_columns_extend [of "add_column ''api_keys'' ''role'' (SText ''admin'') ?g"] g unfolding file_extends_def by blast
  have "extends t ?t" by (auto simp: extends_def list_all2_map2 map_le_def map_add_def intro!: list_all2_refl split: option.splits)
  moreover have "map_of r ''role'' = Some (SText ''admin'')" if r: "r \<in> set (rt_rows t')" for r
  proof -
    have "list_all2 (\<lambda>r r'. map_of r \<subseteq>\<^sub>m map_of r') (rt_rows ?t) (rt_rows t')" using t'(2) by (simp only: extends_def)
    from list_all2_in_right [OF this r] obtain r0 where r0: "r0 \<in> set (rt_rows ?t)" "map_of r0 \<subseteq>\<^sub>m map_of r" by blast
    then obtain r1 where "r1 \<in> set (rt_rows t)" "r0 = r1 @ [(''role'', SText ''admin'')]" by auto
    then have "map_of r0 ''role'' = Some (SText ''admin'')" using assms(5) by (simp add: map_add_def)
    then show ?thesis using r0(2) by (metis domI map_le_def)
  qed
  ultimately show ?thesis using t' extends_trans by blast
qed

subsection \<open>Witnesses\<close>

definition old_keys :: raw_table where
  "old_keys = \<lparr> rt_cols = [''key_hash'', ''label'', ''created_at'', ''revoked''], rt_key = [''key_hash''],
     rt_rows = [[(''key_hash'', SText ''h''), (''label'', SText ''laptop''), (''created_at'', SInt 1), (''revoked'', SInt 0)]] \<rparr>"

definition old_allocations :: raw_table where
  "old_allocations = \<lparr> rt_cols = allocation_cols, rt_key = [''job_id''],
     rt_rows = [[(''job_id'', SText ''j1''), (''machine_id'', SText ''n1''), (''cores'', SInt 2), (''gpu'', SInt 0), (''ram_mb'', SInt 0), (''disk_mb'', SInt 0),
                 (''allocated_at'', SInt 5), (''released_at'', SNull)]] \<rparr>"

definition old_file :: db_file where
  "old_file = [(''api_keys'', old_keys), (''allocations'', old_allocations)]"

definition all_works :: open_outcome where
  "all_works = \<lparr> oo_open = True, oo_schema = None, oo_key = (True, True), oo_alter = (\<lambda>_. True), oo_legacy = (True, True) \<rparr>"

lemma old_file_opens: "\<exists>f'. db_open all_works old_file = (0, f')"
proof -
  have "map_of (fold create_table SCHEMA old_file) ''allocations'' = Some old_allocations"
    by (rule create_tables_same) (simp add: old_file_def)
  moreover have "rebuilt old_allocations \<noteq> None"
    by (simp add: rebuilt_def old_allocations_def copied_row_def row_val_def allocation_cols_def)
  ultimately have "\<exists>f1. migrate_allocations_primary_key True True (fold create_table SCHEMA old_file) = (0, f1)"
    by (auto simp: migrate_allocations_primary_key_def rebuild_allocations_def)
  then obtain f1 where "migrate_allocations_primary_key True True (fold create_table SCHEMA old_file) = (0, f1)" by blast
  then show ?thesis using db_open_ends [of True True _ f1 True True "\<lambda>_. True" 0 added_columns] by (simp add: db_open_def all_works_def)
qed


theorem old_keys_become_admin_witness:
  "\<exists>f' t'. db_open all_works old_file = (0, f') \<and> map_of f' ''api_keys'' = Some t' \<and> length (rt_rows t') = 1 \<and>
     (\<forall>r \<in> set (rt_rows t'). map_of r ''role'' = Some (SText ''admin''))"
proof -
  obtain f' where run: "db_open all_works old_file = (0, f')" using old_file_opens by blast
  have "\<forall>k. oo_alter all_works k" "map_of old_file ''api_keys'' = Some old_keys" by (simp_all add: all_works_def old_file_def)
  from old_keys_become_admin [OF run this] obtain t' where "map_of f' ''api_keys'' = Some t'" "extends old_keys t'"
    "\<forall>r \<in> set (rt_rows t'). map_of r ''role'' = Some (SText ''admin'')" by (auto simp: old_keys_def)
  then show ?thesis using run by (auto simp: extends_def old_keys_def dest: list_all2_lengthD)
qed

end
