(* ===== verification/Config.thy ===== *)
theory Config
  imports Complex_Main Prelude
begin

text \<open>
  The configuration of \<open>src/persistence/config.c\<close>: the structure, its defaults (the POSIX branch),
  the reading of a configuration file line by line, and the validation. Fields keep their C names
  behind the prefix \<open>cf_\<close>. The C library's \<open>strtod\<close> is an argument of the functions that
  read a floating-point value; everything else it uses is modelled.
\<close>

section \<open>Model\<close>

record config =
  cf_listen_port :: int
  cf_work_dir :: string
  cf_db_path :: string
  cf_provisioning_json :: string
  cf_log_level :: string
  cf_cleanup_ttl_seconds :: int
  cf_scheduler_poll_ms :: int
  cf_pre_job_script_win :: string
  cf_pre_job_script_linux :: string
  cf_job_timeout_seconds :: int
  cf_apps_dir :: string
  cf_temp_dir :: string
  cf_pid_file :: string
  cf_ssh_user :: string
  cf_ssh_key :: string
  cf_ssh_remote_work_dir :: string
  cf_ssh_shell :: string
  cf_command_mode :: string
  cf_cors_allowed_origin :: string
  cf_require_https :: int
  cf_web_ui_enabled :: int
  cf_experimental_features_enabled :: int
  cf_listen_address :: string
  cf_probe_method :: string
  cf_probe_port :: int
  cf_probe_timeout_ms :: int
  cf_probe_retries :: int
  cf_probe_interval_ms :: int
  cf_cloud_credentials_file :: string
  cf_cloud_auto_provision :: int
  cf_cloud_auto_deprovision :: int
  cf_cloud_default_provider :: string
  cf_cloud_default_instance_type :: string
  cf_cloud_default_region :: string
  cf_cloud_default_image_id :: string
  cf_presim_domains :: string
  cf_presim_threshold_max :: real
  cf_presim_refine_multiplier :: real
  cf_presim_high_multiplier :: real
  cf_presim_uncertainty_weight :: real
  cf_presim_fidelity_map :: string

definition config_defaults :: config where
  "config_defaults = \<lparr>
     cf_listen_port = 8080, cf_work_dir = ''jobs'', cf_db_path = ''orchestrator.db'',
     cf_provisioning_json = ''config/provisioning.json'', cf_log_level = ''info'',
     cf_cleanup_ttl_seconds = 3600, cf_scheduler_poll_ms = 500, cf_pre_job_script_win = [],
     cf_pre_job_script_linux = [], cf_job_timeout_seconds = 0, cf_apps_dir = ''config/apps'',
     cf_temp_dir = [], cf_pid_file = ''/var/run/orchestrator.pid'', cf_ssh_user = [], cf_ssh_key = [],
     cf_ssh_remote_work_dir = ''/tmp/orch'', cf_ssh_shell = [], cf_command_mode = ''app_only'',
     cf_cors_allowed_origin = [], cf_require_https = 0, cf_web_ui_enabled = 0,
     cf_experimental_features_enabled = 0, cf_listen_address = ''0.0.0.0'', cf_probe_method = ''tcp'',
     cf_probe_port = 22, cf_probe_timeout_ms = 3000, cf_probe_retries = 2, cf_probe_interval_ms = 60000,
     cf_cloud_credentials_file = [], cf_cloud_auto_provision = 0, cf_cloud_auto_deprovision = 0,
     cf_cloud_default_provider = [], cf_cloud_default_instance_type = [], cf_cloud_default_region = [],
     cf_cloud_default_image_id = [], cf_presim_domains = [], cf_presim_threshold_max = 0.03,
     cf_presim_refine_multiplier = 0.8, cf_presim_high_multiplier = 2, cf_presim_uncertainty_weight = 1,
     cf_presim_fidelity_map = ''0,1,3,6'' \<rparr>"

subsection \<open>Reading values\<close>

definition tab :: char where "tab = char_of (9 :: nat)"
definition newline :: char where "newline = char_of (10 :: nat)"
definition carriage_return :: char where "carriage_return = char_of (13 :: nat)"

text \<open>Also \<open>trim_local\<close> of \<open>scheduler.c\<close>.\<close>

definition trim :: "string \<Rightarrow> string" where
  "trim s = rev (dropWhile (\<lambda>c. c \<in> {CHR '' '', tab, carriage_return, newline})
              (rev (dropWhile (\<lambda>c. c \<in> {CHR '' '', tab}) s)))"

definition safe_token :: "string \<Rightarrow> string \<Rightarrow> bool" where
  "safe_token value extra \<longleftrightarrow> value \<noteq> [] \<and> hd value \<noteq> CHR ''-'' \<and>
     list_all (\<lambda>p. (CHR ''a'' \<le> p \<and> p \<le> CHR ''z'') \<or> (CHR ''A'' \<le> p \<and> p \<le> CHR ''Z'') \<or>
       (CHR ''0'' \<le> p \<and> p \<le> CHR ''9'') \<or> p \<in> set extra) value"

definition ascii_digit :: "char \<Rightarrow> bool" where
  "ascii_digit c \<longleftrightarrow> 48 \<le> (of_char c :: nat) \<and> (of_char c :: nat) \<le> 57"

definition digits_to_nat :: "string \<Rightarrow> nat" where
  "digits_to_nat s = foldl (\<lambda>acc c. 10 * acc + (of_char c - 48)) 0 s"

text \<open>The white space \<open>strtol\<close> skips: space and the characters 9 to 13.\<close>

definition c_space :: "char \<Rightarrow> bool" where
  "c_space c \<longleftrightarrow> c = CHR '' '' \<or> 9 \<le> (of_char c :: nat) \<and> (of_char c :: nat) \<le> 13"

text \<open>\<open>None\<close> is -1: no digits, something after them, or a value that is no \<open>int\<close>.\<close>

definition parse_int_value :: "string \<Rightarrow> int option" where
  "parse_int_value txt =
     (let s = dropWhile c_space txt;
          neg = (s \<noteq> [] \<and> hd s = CHR ''-'');
          ds = (if s \<noteq> [] \<and> (hd s = CHR ''-'' \<or> hd s = CHR ''+'') then tl s else s);
          v = (if neg then - int (digits_to_nat ds) else int (digits_to_nat ds))
      in if ds = [] \<or> \<not> list_all ascii_digit ds \<or> \<not> int32 v then None else Some v)"

text \<open>\<open>strtol\<close> in base 10: the number and what follows it, \<open>None\<close> when there are no digits.\<close>

definition strtol :: "string \<Rightarrow> (int \<times> string) option" where
  "strtol s =
     (let s1 = dropWhile c_space s;
          neg = (s1 \<noteq> [] \<and> hd s1 = CHR ''-'');
          s2 = (if s1 \<noteq> [] \<and> (hd s1 = CHR ''-'' \<or> hd s1 = CHR ''+'') then tl s1 else s1);
          ds = takeWhile ascii_digit s2
      in if ds = [] then None
         else Some ((if neg then - int (digits_to_nat ds) else int (digits_to_nat ds)), dropWhile ascii_digit s2))"

subsection \<open>Validation\<close>

definition starts_with :: "string \<Rightarrow> string \<Rightarrow> bool" where
  "starts_with p s \<longleftrightarrow> take (length p) s = p"

definition config_validate :: "config \<Rightarrow> string + unit" where
  "config_validate g =
     (if cf_listen_port g < 1 \<or> cf_listen_port g > 65535 then
        Inl ''listen_port must be between 1 and 65535''
      else if cf_work_dir g = [] \<or> cf_db_path g = [] \<or> cf_provisioning_json g = [] \<or> cf_apps_dir g = [] then
        Inl ''work_dir, db_path, provisioning_json and apps_dir are required''
      else if cf_log_level g \<notin> {''debug'', ''info'', ''warn'', ''error''} then
        Inl ''log_level must be debug, info, warn or error''
      else if cf_cleanup_ttl_seconds g < 0 \<or> cf_scheduler_poll_ms g < 10 \<or>
              cf_scheduler_poll_ms g > 3600000 \<or> cf_job_timeout_seconds g < 0 then
        Inl ''scheduler and timeout values are outside supported ranges''
      else if cf_command_mode g \<notin> {''app_only'', ''free''} then
        Inl ''command_mode must be app_only or free''
      else if cf_require_https g \<notin> {0, 1} \<or> cf_web_ui_enabled g \<notin> {0, 1} \<or>
              cf_cloud_auto_provision g \<notin> {0, 1} \<or> cf_cloud_auto_deprovision g \<notin> {0, 1} then
        Inl ''boolean configuration values must be 0 or 1''
      else if \<not> safe_token (cf_listen_address g) ''.:'' \<or> carriage_return \<in> set (cf_cors_allowed_origin g) \<or>
              newline \<in> set (cf_cors_allowed_origin g) then
        Inl ''listen_address or CORS origin is invalid''
      else if cf_cors_allowed_origin g \<noteq> [] \<and> \<not> starts_with ''http://'' (cf_cors_allowed_origin g) \<and>
              \<not> starts_with ''https://'' (cf_cors_allowed_origin g) then
        Inl ''cors_allowed_origin must be an absolute HTTP(S) origin''
      else if cf_probe_method g \<notin> {''tcp'', ''ping'', ''ssh''} then
        Inl ''probe_method must be tcp, ping or ssh''
      else if cf_probe_port g < 1 \<or> cf_probe_port g > 65535 \<or> cf_probe_timeout_ms g < 100 \<or>
              cf_probe_timeout_ms g > 600000 \<or> cf_probe_retries g < 0 \<or> cf_probe_retries g > 10 \<or>
              cf_probe_interval_ms g < 100 \<or> cf_probe_interval_ms g > 86400000 then
        Inl ''probe settings are outside supported ranges''
      else if cf_ssh_user g \<noteq> [] \<and> \<not> safe_token (cf_ssh_user g) ''._-'' then
        Inl ''ssh_user contains unsupported characters''
      else if \<not> safe_token (cf_ssh_remote_work_dir g) ''/._-'' \<or>
              cf_ssh_shell g \<noteq> [] \<and> \<not> safe_token (cf_ssh_shell g) ''/._-'' then
        Inl ''SSH remote path or shell contains unsupported characters''
      else if cf_presim_threshold_max g \<le> 0 \<or> cf_presim_refine_multiplier g \<le> 0 \<or>
              cf_presim_high_multiplier g \<le> 0 \<or> cf_presim_uncertainty_weight g < 0 then
        Inl ''presimulation numeric settings must be finite and positive''
      else if cf_cloud_auto_provision g \<noteq> 0 \<and>
              (cf_cloud_default_provider g \<notin> {''aws'', ''gcp'', ''azure''} \<or>
               \<not> safe_token (cf_cloud_default_instance_type g) ''-_.'' \<or>
               \<not> safe_token (cf_cloud_default_region g) ''-_./:'' \<or>
               cf_cloud_default_provider g = ''aws'' \<and> \<not> safe_token (cf_cloud_default_image_id g) ''-_./:'') then
        Inl ''cloud auto-provision defaults are incomplete or invalid''
      else Inr ())"

subsection \<open>The file\<close>

text \<open>\<open>LOAD_INT\<close>, \<open>LOAD_DOUBLE\<close> and \<open>LOAD_STRING\<close>: \<open>None\<close> sets \<open>line_failed\<close> and no field.\<close>

definition load_int :: "string \<Rightarrow> (int \<Rightarrow> config) \<Rightarrow> config option" where
  "load_int val store = map_option store (parse_int_value val)"

definition load_double :: "(string \<Rightarrow> real option) \<Rightarrow> string \<Rightarrow> (real \<Rightarrow> config) \<Rightarrow> config option" where
  "load_double strtod val store = map_option store (strtod val)"

definition load_string :: "nat \<Rightarrow> string \<Rightarrow> (string \<Rightarrow> config) \<Rightarrow> config option" where
  "load_string sz val store = (if length val \<ge> sz then None else Some (store val))"

definition set_key :: "(string \<Rightarrow> real option) \<Rightarrow> string \<Rightarrow> string \<Rightarrow> config \<Rightarrow> config option" where
  "set_key strtod key val g =
     (if key = ''listen_port'' then load_int val (\<lambda>v. g\<lparr>cf_listen_port := v\<rparr>)
      else if key = ''work_dir'' then load_string 512 val (\<lambda>v. g\<lparr>cf_work_dir := v\<rparr>)
      else if key = ''db_path'' then load_string 512 val (\<lambda>v. g\<lparr>cf_db_path := v\<rparr>)
      else if key = ''provisioning_json'' then load_string 512 val (\<lambda>v. g\<lparr>cf_provisioning_json := v\<rparr>)
      else if key = ''log_level'' then load_string 16 val (\<lambda>v. g\<lparr>cf_log_level := v\<rparr>)
      else if key = ''cleanup_ttl_seconds'' then load_int val (\<lambda>v. g\<lparr>cf_cleanup_ttl_seconds := v\<rparr>)
      else if key = ''scheduler_poll_ms'' then load_int val (\<lambda>v. g\<lparr>cf_scheduler_poll_ms := v\<rparr>)
      else if key = ''pre_job_script_win'' then load_string 512 val (\<lambda>v. g\<lparr>cf_pre_job_script_win := v\<rparr>)
      else if key = ''pre_job_script_linux'' then load_string 512 val (\<lambda>v. g\<lparr>cf_pre_job_script_linux := v\<rparr>)
      else if key = ''job_timeout_seconds'' then load_int val (\<lambda>v. g\<lparr>cf_job_timeout_seconds := v\<rparr>)
      else if key = ''ssh_user'' then load_string 64 val (\<lambda>v. g\<lparr>cf_ssh_user := v\<rparr>)
      else if key = ''ssh_key'' then load_string 512 val (\<lambda>v. g\<lparr>cf_ssh_key := v\<rparr>)
      else if key = ''ssh_remote_work_dir'' then load_string 512 val (\<lambda>v. g\<lparr>cf_ssh_remote_work_dir := v\<rparr>)
      else if key = ''apps_dir'' then load_string 512 val (\<lambda>v. g\<lparr>cf_apps_dir := v\<rparr>)
      else if key = ''temp_dir'' then load_string 512 val (\<lambda>v. g\<lparr>cf_temp_dir := v\<rparr>)
      else if key = ''pid_file'' then load_string 512 val (\<lambda>v. g\<lparr>cf_pid_file := v\<rparr>)
      else if key = ''ssh_shell'' then load_string 64 val (\<lambda>v. g\<lparr>cf_ssh_shell := v\<rparr>)
      else if key = ''command_mode'' then load_string 16 val (\<lambda>v. g\<lparr>cf_command_mode := v\<rparr>)
      else if key = ''cors_allowed_origin'' then load_string 256 val (\<lambda>v. g\<lparr>cf_cors_allowed_origin := v\<rparr>)
      else if key = ''require_https'' then load_int val (\<lambda>v. g\<lparr>cf_require_https := v\<rparr>)
      else if key = ''web_ui_enabled'' then load_int val (\<lambda>v. g\<lparr>cf_web_ui_enabled := v\<rparr>)
      else if key = ''experimental_features_enabled'' then
        load_int val (\<lambda>v. g\<lparr>cf_experimental_features_enabled := v\<rparr>)
      else if key = ''listen_address'' then load_string 64 val (\<lambda>v. g\<lparr>cf_listen_address := v\<rparr>)
      else if key = ''probe_method'' then load_string 16 val (\<lambda>v. g\<lparr>cf_probe_method := v\<rparr>)
      else if key = ''probe_port'' then load_int val (\<lambda>v. g\<lparr>cf_probe_port := v\<rparr>)
      else if key = ''probe_timeout_ms'' then load_int val (\<lambda>v. g\<lparr>cf_probe_timeout_ms := v\<rparr>)
      else if key = ''probe_retries'' then load_int val (\<lambda>v. g\<lparr>cf_probe_retries := v\<rparr>)
      else if key = ''probe_interval_ms'' then load_int val (\<lambda>v. g\<lparr>cf_probe_interval_ms := v\<rparr>)
      else if key = ''cloud_credentials_file'' then
        load_string 512 val (\<lambda>v. g\<lparr>cf_cloud_credentials_file := v\<rparr>)
      else if key = ''cloud_auto_provision'' then load_int val (\<lambda>v. g\<lparr>cf_cloud_auto_provision := v\<rparr>)
      else if key = ''cloud_auto_deprovision'' then load_int val (\<lambda>v. g\<lparr>cf_cloud_auto_deprovision := v\<rparr>)
      else if key = ''cloud_default_provider'' then load_string 32 val (\<lambda>v. g\<lparr>cf_cloud_default_provider := v\<rparr>)
      else if key = ''cloud_default_instance_type'' then
        load_string 64 val (\<lambda>v. g\<lparr>cf_cloud_default_instance_type := v\<rparr>)
      else if key = ''cloud_default_region'' then load_string 64 val (\<lambda>v. g\<lparr>cf_cloud_default_region := v\<rparr>)
      else if key = ''cloud_default_image_id'' then load_string 128 val (\<lambda>v. g\<lparr>cf_cloud_default_image_id := v\<rparr>)
      else if key = ''presim_threshold_max'' then
        load_double strtod val (\<lambda>v. g\<lparr>cf_presim_threshold_max := v\<rparr>)
      else if key = ''presim_refine_multiplier'' then
        load_double strtod val (\<lambda>v. g\<lparr>cf_presim_refine_multiplier := v\<rparr>)
      else if key = ''presim_high_multiplier'' then
        load_double strtod val (\<lambda>v. g\<lparr>cf_presim_high_multiplier := v\<rparr>)
      else if key = ''presim_uncertainty_weight'' then
        load_double strtod val (\<lambda>v. g\<lparr>cf_presim_uncertainty_weight := v\<rparr>)
      else if key = ''presim_fidelity_map'' then load_string 64 val (\<lambda>v. g\<lparr>cf_presim_fidelity_map := v\<rparr>)
      else if key = ''presim_domains'' then load_string 256 val (\<lambda>v. g\<lparr>cf_presim_domains := v\<rparr>)
      else None)"

text \<open>
  One line without its newline: whether it failed, and the configuration. A line of 511
  characters or more does not fit the buffer of \<open>fgets\<close>.
\<close>

definition load_line :: "(string \<Rightarrow> real option) \<Rightarrow> string \<Rightarrow> config \<Rightarrow> bool \<times> config" where
  "load_line strtod line g =
     (if length line \<ge> 511 then (True, g)
      else let text = trim (takeWhile (\<lambda>c. c \<noteq> CHR ''#'') line) in
        if text = [] \<or> CHR ''='' \<notin> set text then (False, g)
        else let key = trim (takeWhile (\<lambda>c. c \<noteq> CHR ''='') text);
                 val = trim (tl (dropWhile (\<lambda>c. c \<noteq> CHR ''='') text)) in
             case set_key strtod key val g of None \<Rightarrow> (True, g) | Some g' \<Rightarrow> (False, g'))"

fun load_lines :: "(string \<Rightarrow> real option) \<Rightarrow> string list \<Rightarrow> config \<Rightarrow> bool \<times> config" where
  "load_lines strtod [] g = (False, g)"
| "load_lines strtod (l # ls) g =
     (let (f, g1) = load_line strtod l g; (fs, g2) = load_lines strtod ls g1 in (f \<or> fs, g2))"

text \<open>\<open>None\<close>: the file cannot be opened, which is not an error.\<close>

definition config_load :: "(string \<Rightarrow> real option) \<Rightarrow> string option \<Rightarrow> config \<Rightarrow> int \<times> config" where
  "config_load strtod contents g =
     (case contents of
        None \<Rightarrow> (0, g)
      | Some txt \<Rightarrow>
          let pieces = split_on newline txt;
              ls = (if last pieces = [] then butlast pieces else pieces);
              (failed, g') = load_lines strtod ls g
          in (if failed then -1 else 0, g'))"

section \<open>Laws\<close>

lemma of_char_digit: "d < 10 \<Longrightarrow> (of_char (digit d) :: nat) = 48 + d"
  by (simp add: digit_def)

lemma ascii_digit_digit: "d < 10 \<Longrightarrow> ascii_digit (digit d)"
  by (simp add: ascii_digit_def of_char_digit)

lemma digits_to_nat_append [simp]:
  "digits_to_nat (s @ [c]) = 10 * digits_to_nat s + (of_char c - 48)"
  by (simp add: digits_to_nat_def)

lemma dec_nat_digits: "dec_nat n \<noteq> [] \<and> list_all ascii_digit (dec_nat n) \<and> digits_to_nat (dec_nat n) = n"
proof (induction n rule: dec_nat.induct)
  case (1 n)
  show ?case
  proof (cases "n < 10")
    case True
    then show ?thesis
      by (subst (1 2 3) dec_nat.simps) (simp add: ascii_digit_digit of_char_digit digits_to_nat_def)
  next
    case False
    then show ?thesis using 1
      by (subst (1 2 3) dec_nat.simps) (simp add: ascii_digit_digit of_char_digit)
  qed
qed

lemma ascii_digit_not_space: "ascii_digit c \<Longrightarrow> \<not> c_space c \<and> c \<noteq> CHR ''-'' \<and> c \<noteq> CHR ''+''"
  by (auto simp: ascii_digit_def c_space_def)

lemma parse_dec_nat: "int32 (int n) \<Longrightarrow> parse_int_value (dec_nat n) = Some (int n)"
proof -
  assume "int32 (int n)"
  obtain c cs where c: "dec_nat n = c # cs" using dec_nat_digits [of n] by (cases "dec_nat n") auto
  then have "ascii_digit c" using dec_nat_digits [of n] by simp
  then show ?thesis
    using c dec_nat_digits [of n] ascii_digit_not_space [of c] \<open>int32 (int n)\<close>
    by (simp add: parse_int_value_def Let_def)
qed

lemma validate_cases:
  assumes "config_validate g = Inr ()"
  shows "1 \<le> cf_listen_port g \<and> cf_listen_port g \<le> 65535"
    "10 \<le> cf_scheduler_poll_ms g \<and> cf_scheduler_poll_ms g \<le> 3600000"
    "0 \<le> cf_job_timeout_seconds g"
    "safe_token (cf_listen_address g) ''.:''"
    "cf_ssh_user g = [] \<or> safe_token (cf_ssh_user g) ''._-''"
    "safe_token (cf_ssh_remote_work_dir g) ''/._-''"
    "cf_ssh_shell g = [] \<or> safe_token (cf_ssh_shell g) ''/._-''"
    "carriage_return \<notin> set (cf_cors_allowed_origin g) \<and> newline \<notin> set (cf_cors_allowed_origin g)"
  using assms unfolding config_validate_def by (simp_all split: if_split_asm)

definition alnum :: "char \<Rightarrow> bool" where
  "alnum c \<longleftrightarrow> (CHR ''a'' \<le> c \<and> c \<le> CHR ''z'') \<or> (CHR ''A'' \<le> c \<and> c \<le> CHR ''Z'') \<or>
     (CHR ''0'' \<le> c \<and> c \<le> CHR ''9'')"

lemma safe_token_alnum:
  "safe_token v extra \<longleftrightarrow> v \<noteq> [] \<and> hd v \<noteq> CHR ''-'' \<and> (\<forall>c \<in> set v. alnum c \<or> c \<in> set extra)"
  unfolding safe_token_def list_all_iff alnum_def by (simp only: disj_assoc)

section \<open>Claims\<close>

text \<open>The built-in defaults pass the validation.\<close>

theorem config_defaults_valid: "config_validate config_defaults = Inr ()"
  by (simp add: config_validate_def config_defaults_def safe_token_def less_eq_char_def)

text \<open>
  In a configuration that passes the validation the text that reaches shell commands and
  HTTP headers is harmless: the SSH user, the remote directory and the remote shell hold only
  letters, digits and their listed punctuation and never start with a hyphen, and the CORS
  origin holds no line break; ports and the poll interval are within their ranges.
\<close>

theorem config_validate_sound:
  assumes "config_validate g = Inr ()"
  shows "1 \<le> cf_listen_port g \<and> cf_listen_port g \<le> 65535 \<and>
    10 \<le> cf_scheduler_poll_ms g \<and> cf_scheduler_poll_ms g \<le> 3600000 \<and>
    (\<forall>c \<in> set (cf_ssh_user g @ cf_ssh_remote_work_dir g @ cf_ssh_shell g).
       alnum c \<or> c \<in> {CHR ''/'', CHR ''.'', CHR ''_'', CHR ''-''}) \<and>
    (cf_ssh_user g \<noteq> [] \<longrightarrow> hd (cf_ssh_user g) \<noteq> CHR ''-'') \<and>
    hd (cf_ssh_remote_work_dir g) \<noteq> CHR ''-'' \<and>
    (cf_ssh_shell g \<noteq> [] \<longrightarrow> hd (cf_ssh_shell g) \<noteq> CHR ''-'') \<and>
    carriage_return \<notin> set (cf_cors_allowed_origin g) \<and> newline \<notin> set (cf_cors_allowed_origin g)"
  using validate_cases [OF assms] unfolding safe_token_alnum by (intro conjI) auto

theorem config_validate_sound_witness:
  "config_validate config_defaults = Inr () \<and> hd (cf_ssh_remote_work_dir config_defaults) \<noteq> CHR ''-''"
proof -
  have "config_validate config_defaults = Inr ()"
    by (simp add: config_validate_def config_defaults_def safe_token_def less_eq_char_def)
  with config_validate_sound [OF this] show ?thesis by blast
qed

text \<open>
  Reading back a printed number gives the number: \<open>parse_int_value\<close> on the decimal form of a
  32-bit value returns it, and a value of 2 to the 31 or more is refused.
\<close>

theorem parse_int_value_dec:
  "(int32 v \<longrightarrow> parse_int_value (dec v) = Some v) \<and> (2 ^ 31 \<le> v \<longrightarrow> parse_int_value (dec v) = None)"
proof (cases "v < 0")
  case False
  obtain c cs where c: "dec_nat (nat v) = c # cs" using dec_nat_digits [of "nat v"] by (cases "dec_nat (nat v)") auto
  then have "ascii_digit c" using dec_nat_digits [of "nat v"] by simp
  then have "2 ^ 31 \<le> v \<Longrightarrow> parse_int_value (dec_nat (nat v)) = None"
    using c dec_nat_digits [of "nat v"] ascii_digit_not_space [of c] False
    by (simp add: parse_int_value_def Let_def int32_def)
  then show ?thesis using False parse_dec_nat [of "nat v"] by (simp add: dec_def)
next
  case True
  have "parse_int_value (CHR ''-'' # dec_nat (nat (- v))) = Some v" if "int32 v"
    using dec_nat_digits [of "nat (- v)"] that True
    by (simp add: parse_int_value_def Let_def c_space_def)
  then show ?thesis using True by (simp add: dec_def)
qed

theorem parse_int_value_dec_witness:
  "int32 8080 \<and> parse_int_value (dec 8080) = Some 8080 \<and> parse_int_value (dec 4294967296) = None"
  using parse_int_value_dec [of 8080] parse_int_value_dec [of 4294967296] by (simp add: int32_def)

end
