(* ===== verification/Json.thy ===== *)
theory Json
  imports Complex_Main Prelude
begin

text \<open>
  JSON values as the cJSON library hands them to the program, and the accessors the sources use.
  A number is its \<open>valuedouble\<close>; a literal beyond the range of doubles is infinite, with
  \<open>True\<close> for the positive one. The parser itself (\<open>cJSON_Parse\<close>) is an argument of the
  definitions that call it.
\<close>

datatype cnum = Finite real | Infinite bool

datatype json =
  JNull | JBool bool | JNumber cnum | JString string |
  JArray "json list" | JObject "(string \<times> json) list"

fun get_item :: "json \<Rightarrow> string \<Rightarrow> json option" where
  "get_item (JObject kvs) key = map_of kvs key"
| "get_item _ key = None"

fun array_items :: "json option \<Rightarrow> json list option" where
  "array_items (Some (JArray xs)) = Some xs"
| "array_items _ = None"

fun string_value :: "json option \<Rightarrow> string option" where
  "string_value (Some (JString s)) = Some s"
| "string_value _ = None"

fun bool_value :: "json option \<Rightarrow> bool option" where
  "bool_value (Some (JBool b)) = Some b"
| "bool_value _ = None"

text \<open>
  \<open>isfinite(v) && floor(v) == v && lo <= v && v <= hi\<close>, then the cast to \<open>int\<close>.
\<close>

fun whole_number :: "json \<Rightarrow> int \<Rightarrow> int \<Rightarrow> int option" where
  "whole_number (JNumber (Finite v)) lo hi =
     (if of_int \<lfloor>v\<rfloor> = v \<and> of_int lo \<le> v \<and> v \<le> of_int hi then Some \<lfloor>v\<rfloor> else None)"
| "whole_number _ lo hi = None"

lemma whole_number_range: "whole_number j lo hi = Some v \<Longrightarrow> lo \<le> v \<and> v \<le> hi"
  by (cases "(j, lo, hi)" rule: whole_number.cases) (auto simp: le_floor_iff floor_le_iff split: if_splits)

end
