(* ===== verification/Registry.thy ===== *)
theory Registry
  imports Json
begin

text \<open>
  The machine registry of \<open>src/resources/registry.c\<close>: the table of machines, the loading of
  \<open>provisioning.json\<close> with its pools, and the operations that reserve and release resources.
  The list is the live part \<open>s_machines[0 .. s_count-1]\<close>; every operation runs under the
  registry's lock. Fields keep their C names behind the prefix \<open>m_\<close>.
\<close>

section \<open>Model\<close>

datatype machine_status = MACHINE_ONLINE | MACHINE_OFFLINE | MACHINE_PROBING
datatype machine_type = MACHINE_TYPE_STATIC | MACHINE_TYPE_CLOUD

record machine =
  m_id :: string
  m_hostname :: string
  m_ip :: string
  m_enabled :: bool
  m_cores_total :: int
  m_gpu_count_total :: int
  m_ram_mb_total :: int
  m_disk_mb_total :: int
  m_cores_reserved :: int
  m_gpu_count_reserved :: int
  m_ram_mb_reserved :: int
  m_disk_mb_reserved :: int
  m_probe_status :: machine_status
  m_last_probe_time :: int
  m_probe_fail_count :: int
  m_type :: machine_type
  m_cloud_provider :: string
  m_cloud_instance_id :: string
  m_cores_min :: int
  m_ram_mb_min :: int
  m_disk_mb_min :: int
  m_mac_address :: string

type_synonym registry = "machine list"

definition MAX_MACHINES :: nat where "MAX_MACHINES = 1024"

text \<open>\<open>memset(M, 0, sizeof(*M))\<close>\<close>

definition machine_zero :: machine where
  "machine_zero = \<lparr> m_id = [], m_hostname = [], m_ip = [], m_enabled = False,
     m_cores_total = 0, m_gpu_count_total = 0, m_ram_mb_total = 0, m_disk_mb_total = 0,
     m_cores_reserved = 0, m_gpu_count_reserved = 0, m_ram_mb_reserved = 0, m_disk_mb_reserved = 0,
     m_probe_status = MACHINE_ONLINE, m_last_probe_time = 0, m_probe_fail_count = 0,
     m_type = MACHINE_TYPE_STATIC, m_cloud_provider = [], m_cloud_instance_id = [],
     m_cores_min = 0, m_ram_mb_min = 0, m_disk_mb_min = 0, m_mac_address = [] \<rparr>"

subsection \<open>Reading the provisioning file\<close>

text \<open>\<open>None\<close> is the result -1; an absent key gives the default.\<close>

definition read_int :: "json \<Rightarrow> string \<Rightarrow> int \<Rightarrow> int \<Rightarrow> int \<Rightarrow> int option" where
  "read_int object key default_value minimum maximum =
     (case get_item object key of
        None \<Rightarrow> Some default_value
      | Some item \<Rightarrow> whole_number item minimum maximum)"

definition copy_string :: "json \<Rightarrow> string \<Rightarrow> nat \<Rightarrow> string option" where
  "copy_string object key out_len =
     (case get_item object key of
        None \<Rightarrow> Some []
      | Some item \<Rightarrow>
          (case item of
             JString s \<Rightarrow> if length s \<ge> out_len then None else Some s
           | _ \<Rightarrow> None))"

definition safe_machine_char :: "char \<Rightarrow> bool" where
  "safe_machine_char p \<longleftrightarrow>
     (CHR ''a'' \<le> p \<and> p \<le> CHR ''z'') \<or> (CHR ''A'' \<le> p \<and> p \<le> CHR ''Z'') \<or>
     (CHR ''0'' \<le> p \<and> p \<le> CHR ''9'') \<or> p = CHR ''.'' \<or> p = CHR ''_'' \<or>
     p = CHR ''-'' \<or> p = CHR '':''"

definition safe_machine_text :: "string \<Rightarrow> bool" where
  "safe_machine_text s = list_all safe_machine_char s"

definition is_digit :: "char \<Rightarrow> bool" where
  "is_digit c \<longleftrightarrow> CHR ''0'' \<le> c \<and> c \<le> CHR ''9''"

text \<open>Skipping at most \<open>n\<close> digits, as the width loop of \<open>valid_pool_format\<close>.\<close>

fun skip_digits :: "nat \<Rightarrow> string \<Rightarrow> string" where
  "skip_digits (Suc n) (c # cs) = (if is_digit c then skip_digits n cs else c # cs)"
| "skip_digits _ cs = cs"

lemma length_skip_digits: "length (skip_digits n cs) \<le> length cs"
  by (induction n cs rule: skip_digits.induct) auto

text \<open>What follows a \<open>%\<close> that does not start \<open>%%\<close>: an optional 0, up to two digits.\<close>

definition after_width :: "string \<Rightarrow> string" where
  "after_width p = skip_digits 2 (case p of c # cs \<Rightarrow> if c = CHR ''0'' then cs else p | [] \<Rightarrow> [])"

lemma length_after_width: "length (after_width p) \<le> length p"
proof (cases p)
  case (Cons c cs)
  then show ?thesis
    using length_skip_digits [of 2 cs] length_skip_digits [of 2 p]
    by (simp add: after_width_def del: skip_digits.simps)
qed (simp add: after_width_def numeral_2_eq_2)

function pool_format_scan :: "string \<Rightarrow> nat \<Rightarrow> bool" where
  "pool_format_scan [] conversions = (conversions = 1)"
| "pool_format_scan (c # cs) conversions =
     (if c \<noteq> CHR ''%'' then pool_format_scan cs conversions
      else if cs \<noteq> [] \<and> hd cs = CHR ''%'' then pool_format_scan (tl cs) conversions
      else case after_width cs of
             [] \<Rightarrow> False
           | d # ds \<Rightarrow>
               if is_digit d \<or> d \<noteq> CHR ''d'' \<or> conversions + 1 > 1 then False
               else pool_format_scan ds (conversions + 1))"
  by pat_completeness auto
termination
proof (relation "measure (\<lambda>(cs, n). length cs)")
  fix c :: char and cs :: string and n d ds
  assume "after_width cs = d # ds"
  then show "((ds, n + 1), c # cs, n) \<in> measure (\<lambda>(cs, n). length cs)"
    using length_after_width [of cs] by simp
qed auto

definition valid_pool_format :: "string \<Rightarrow> bool" where
  "valid_pool_format fmt \<longleftrightarrow> fmt \<noteq> [] \<and> length fmt < 256 \<and> pool_format_scan fmt 0"

text \<open>
  \<open>snprintf\<close> with such a format and one \<open>int\<close>: \<open>%%\<close>, or \<open>%\<close>, an optional 0 flag, a width
  and \<open>d\<close>. \<open>None\<close> stands for a directive outside this shape.
\<close>

definition pad_left :: "char \<Rightarrow> nat \<Rightarrow> string \<Rightarrow> string" where
  "pad_left c w s = replicate (w - length s) c @ s"

fun digits_value :: "nat \<Rightarrow> string \<Rightarrow> nat" where
  "digits_value acc [] = acc"
| "digits_value acc (c # cs) = digits_value (10 * acc + (of_char c - 48)) cs"

function pool_printf :: "string \<Rightarrow> int \<Rightarrow> string option" where
  "pool_printf [] i = Some []"
| "pool_printf (c # cs) i =
     (if c \<noteq> CHR ''%'' then map_option ((#) c) (pool_printf cs i)
      else if cs \<noteq> [] \<and> hd cs = CHR ''%'' then map_option ((#) c) (pool_printf (tl cs) i)
      else case after_width cs of
             [] \<Rightarrow> None
           | d # ds \<Rightarrow>
               if d \<noteq> CHR ''d'' then None
               else map_option
                      ((@) (pad_left (if cs \<noteq> [] \<and> hd cs = CHR ''0'' then CHR ''0'' else CHR '' '')
                              (digits_value 0 (take (length cs - length (d # ds)) cs)) (dec i)))
                      (pool_printf ds i))"
  by pat_completeness auto
termination
proof (relation "measure (\<lambda>(cs, i). length cs)")
  fix c :: char and cs :: string and i d ds
  assume "after_width cs = d # ds"
  then show "((ds, i), c # cs, i) \<in> measure (\<lambda>(cs, i). length cs)"
    using length_after_width [of cs] by simp
qed auto

definition registry_contains :: "registry \<Rightarrow> string \<Rightarrow> bool" where
  "registry_contains reg machine_id \<longleftrightarrow> (\<exists>m \<in> set reg. strcmp (m_id m) machine_id = 0)"

text \<open>
  One element of the \<open>machines\<close> array: the structure it fills and whether a field was invalid.
  A field whose reader failed keeps its zero.
\<close>

definition read_machine :: "json \<Rightarrow> machine \<times> bool" where
  "read_machine m =
     (let cs = copy_string m; ri = (\<lambda>key lo hi. read_int m key 0 lo hi);
          strs = [cs ''id'' 64, cs ''hostname'' 256, cs ''ip'' 46, cs ''mac_address'' 18,
                  cs ''cloud_provider'' 32, cs ''cloud_instance_id'' 128];
          ints = [ri ''cores'' 1 10000, ri ''gpu_count'' 0 1000, ri ''ram_mb'' 0 10000000,
                  ri ''disk_mb'' 0 10000000, ri ''cores_min'' 0 10000,
                  ri ''ram_mb_min'' 0 10000000, ri ''disk_mb_min'' 0 10000000];
          str = (\<lambda>k. case strs ! k of None \<Rightarrow> [] | Some s \<Rightarrow> s);
          num = (\<lambda>k. case ints ! k of None \<Rightarrow> 0 | Some v \<Rightarrow> v)
      in (machine_zero\<lparr>
            m_id := str 0, m_hostname := str 1, m_ip := str 2, m_mac_address := str 3,
            m_cloud_provider := str 4, m_cloud_instance_id := str 5,
            m_cores_total := num 0, m_gpu_count_total := num 1, m_ram_mb_total := num 2,
            m_disk_mb_total := num 3, m_cores_min := num 4, m_ram_mb_min := num 5,
            m_disk_mb_min := num 6,
            m_type := (if string_value (get_item m ''type'') = Some ''cloud''
                       then MACHINE_TYPE_CLOUD else MACHINE_TYPE_STATIC),
            m_probe_status := MACHINE_PROBING,
            m_enabled := (case bool_value (get_item m ''enabled'') of
                            Some b \<Rightarrow> b | None \<Rightarrow> True)\<rparr>,
          None \<in> set strs \<or> None \<in> set ints))"

definition reject_machine :: "registry \<Rightarrow> machine \<Rightarrow> bool \<Rightarrow> bool" where
  "reject_machine reg M invalid \<longleftrightarrow>
     invalid \<or> m_id M = [] \<or> m_cores_total M < 1 \<or>
     registry_contains reg (m_id M) \<or> \<not> safe_machine_text (m_id M) \<or>
     \<not> safe_machine_text (m_hostname M) \<or> \<not> safe_machine_text (m_ip M) \<or>
     m_cores_min M > m_cores_total M \<or> m_ram_mb_min M > m_ram_mb_total M \<or>
     m_disk_mb_min M > m_disk_mb_total M \<or>
     (m_type M = MACHINE_TYPE_CLOUD \<and>
      (m_cloud_provider M \<notin> {''aws'', ''gcp'', ''azure''} \<or>
       m_cloud_instance_id M = [] \<or> \<not> safe_machine_text (m_cloud_instance_id M)))"

fun load_machines :: "json list \<Rightarrow> registry \<Rightarrow> registry" where
  "load_machines [] reg = reg"
| "load_machines (m # ms) reg =
     (if length reg \<ge> MAX_MACHINES then reg
      else let (M, invalid) = read_machine m
           in load_machines ms (if reject_machine reg M invalid then reg else reg @ [M]))"

record pool =
  p_prefix :: string
  p_start :: int
  p_end :: int
  p_hostname_fmt :: "string option"
  p_ip_fmt :: "string option"
  p_cores :: int
  p_gpu :: int
  p_ram :: int
  p_disk :: int
  p_enabled :: bool

fun pool_enabled :: "json option \<Rightarrow> bool option" where
  "pool_enabled None = Some True"
| "pool_enabled (Some (JBool b)) = Some b"
| "pool_enabled (Some _) = None"

text \<open>The checks on one element of \<open>pools\<close>; \<open>None\<close> when it is skipped.\<close>

definition read_pool :: "json \<Rightarrow> pool option" where
  "read_pool p =
     (case (string_value (get_item p ''id_prefix''), get_item p ''range_start'',
            get_item p ''range_end'') of
        (Some prefix, Some (JNumber (Finite s)), Some (JNumber (Finite e))) \<Rightarrow>
          if \<not> safe_machine_text prefix \<or> prefix = [] \<or> length prefix > 48 \<or>
             of_int \<lfloor>s\<rfloor> \<noteq> s \<or> of_int \<lfloor>e\<rfloor> \<noteq> e \<or> s < 0 \<or> e > 100000000 \<or> s > e then None
          else
            let hostname_fmt = string_value (get_item p ''hostname_format'');
                ip_fmt = string_value (get_item p ''ip_format'')
            in if (case hostname_fmt of Some f \<Rightarrow> \<not> valid_pool_format f | None \<Rightarrow> False) \<or>
                  (case ip_fmt of Some f \<Rightarrow> \<not> valid_pool_format f | None \<Rightarrow> False) then None
               else
                 case (read_int p ''cores'' 0 1 10000, read_int p ''gpu_count'' 0 0 1000,
                       read_int p ''ram_mb'' 0 0 10000000, read_int p ''disk_mb'' 0 0 10000000) of
                   (Some cores, Some gpu, Some ram, Some disk) \<Rightarrow>
                     if cores < 1 then None
                     else map_option (\<lambda>en. \<lparr> p_prefix = prefix, p_start = \<lfloor>s\<rfloor>, p_end = \<lfloor>e\<rfloor>,
                            p_hostname_fmt = hostname_fmt, p_ip_fmt = ip_fmt, p_cores = cores,
                            p_gpu = gpu, p_ram = ram, p_disk = disk, p_enabled = en \<rparr>)
                            (pool_enabled (get_item p ''enabled''))
                 | _ \<Rightarrow> None
      | _ \<Rightarrow> None)"

text \<open>\<open>width = 1; while (tmp >= 10) { width++; tmp /= 10; }\<close>\<close>

fun dec_width :: "nat \<Rightarrow> nat" where
  "dec_width n = (if n \<ge> 10 then Suc (dec_width (n div 10)) else 1)"

declare dec_width.simps [simp del]

definition pool_name :: "pool \<Rightarrow> int \<Rightarrow> string" where
  "pool_name p i = p_prefix p @ pad_left CHR ''0'' (dec_width (nat (p_end p))) (dec i)"

definition pool_machine :: "pool \<Rightarrow> int \<Rightarrow> machine" where
  "pool_machine p i =
     (let text = (\<lambda>fmt other. case fmt of None \<Rightarrow> other
                    | Some f \<Rightarrow> (case pool_printf f i of Some s \<Rightarrow> s | None \<Rightarrow> []))
      in machine_zero\<lparr>
           m_id := buf 64 (pool_name p i),
           m_hostname := buf 256 (text (p_hostname_fmt p) (pool_name p i)),
           m_ip := buf 46 (text (p_ip_fmt p) []),
           m_enabled := p_enabled p, m_cores_total := p_cores p, m_gpu_count_total := p_gpu p,
           m_ram_mb_total := p_ram p, m_disk_mb_total := p_disk p,
           m_type := MACHINE_TYPE_STATIC, m_probe_status := MACHINE_PROBING\<rparr>)"

function expand_pool :: "pool \<Rightarrow> int \<Rightarrow> registry \<Rightarrow> registry" where
  "expand_pool p i reg =
     (if i \<le> p_end p \<and> length reg < MAX_MACHINES then
        let M = pool_machine p i in
        expand_pool p (i + 1)
          (if \<not> safe_machine_text (m_id M) \<or> \<not> safe_machine_text (m_hostname M) \<or>
              \<not> safe_machine_text (m_ip M) \<or> registry_contains reg (m_id M) then reg
           else reg @ [M])
      else reg)"
  by pat_completeness auto
termination
  by (relation "measure (\<lambda>(p, i, reg). nat (p_end p + 1 - i))") auto

declare expand_pool.simps [simp del]

declare expand_pool.simps [simp del]

fun load_pools :: "json list \<Rightarrow> registry \<Rightarrow> registry" where
  "load_pools [] reg = reg"
| "load_pools (p # ps) reg =
     (if length reg \<ge> MAX_MACHINES then reg
      else case read_pool p of
             None \<Rightarrow> load_pools ps reg
           | Some pl \<Rightarrow> load_pools ps (expand_pool pl (p_start pl) reg))"

text \<open>
  The file is \<open>None\<close> when it cannot be opened or read in full; its text is limited to 4 MB.
\<close>

definition registry_load ::
  "(string \<Rightarrow> json option) \<Rightarrow> string option \<Rightarrow> registry \<Rightarrow> int \<times> registry" where
  "registry_load cJSON_Parse file reg =
     (case file of
        None \<Rightarrow> (-1, reg)
      | Some txt \<Rightarrow>
          if txt = [] \<or> length txt > 4 * 1024 * 1024 then (-1, reg)
          else case cJSON_Parse txt of
                 None \<Rightarrow> (-1, reg)
               | Some doc \<Rightarrow>
                   (case array_items (get_item doc ''machines'') of
                      None \<Rightarrow> (-1, reg)
                    | Some ms \<Rightarrow>
                        let r1 = load_machines ms [];
                            r2 = (case array_items (get_item doc ''pools'') of
                                    None \<Rightarrow> r1 | Some ps \<Rightarrow> load_pools ps r1)
                        in (int (length r2), r2)))"

subsection \<open>Operations at run time\<close>

definition find_machine :: "registry \<Rightarrow> string \<Rightarrow> nat option" where
  "find_machine reg machine_id = find_idx (\<lambda>m. strcmp (m_id m) machine_id = 0) reg"

text \<open>\<open>Some m\<close> is the result 0 with \<open>*out = m\<close>, \<open>None\<close> is -1.\<close>

definition registry_get_copy :: "registry \<Rightarrow> string \<Rightarrow> machine option" where
  "registry_get_copy reg machine_id = map_option ((!) reg) (find_machine reg machine_id)"

text \<open>\<open>None\<close> is -1: the copy could not be allocated.\<close>

definition registry_snapshot :: "bool \<Rightarrow> registry \<Rightarrow> machine list option" where
  "registry_snapshot malloc_ok reg = (if reg \<noteq> [] \<and> \<not> malloc_ok then None else Some reg)"

definition registry_upsert :: "machine \<Rightarrow> registry \<Rightarrow> int \<times> registry" where
  "registry_upsert m reg =
     (if m_id m = [] \<or> \<not> safe_machine_text (m_id m) \<or> m_cores_total m < 1 \<or>
         m_gpu_count_total m < 0 \<or> m_ram_mb_total m < 0 \<or> m_disk_mb_total m < 0 \<or>
         m_cores_min m < 0 \<or> m_ram_mb_min m < 0 \<or> m_disk_mb_min m < 0 \<or>
         m_cores_min m > m_cores_total m \<or> m_ram_mb_min m > m_ram_mb_total m \<or>
         m_disk_mb_min m > m_disk_mb_total m then (-1, reg)
      else case find_machine reg (m_id m) of
        Some i \<Rightarrow>
          let old = reg ! i in
          if m_cores_total m < m_cores_reserved old + m_cores_min m \<or>
             m_gpu_count_total m < m_gpu_count_reserved old \<or>
             m_ram_mb_total m < m_ram_mb_reserved old + m_ram_mb_min m \<or>
             m_disk_mb_total m < m_disk_mb_reserved old + m_disk_mb_min m then (-2, reg)
          else (0, reg[i := m\<lparr>
                  m_cores_reserved := m_cores_reserved old,
                  m_gpu_count_reserved := m_gpu_count_reserved old,
                  m_ram_mb_reserved := m_ram_mb_reserved old,
                  m_disk_mb_reserved := m_disk_mb_reserved old,
                  m_probe_status := m_probe_status old,
                  m_last_probe_time := m_last_probe_time old,
                  m_probe_fail_count := m_probe_fail_count old\<rparr>])
      | None \<Rightarrow> if length reg \<ge> MAX_MACHINES then (-1, reg) else (0, reg @ [m]))"

definition registry_remove :: "string \<Rightarrow> registry \<Rightarrow> int \<times> registry" where
  "registry_remove machine_id reg =
     (case find_machine reg machine_id of
        None \<Rightarrow> (-1, reg)
      | Some i \<Rightarrow>
          if m_cores_reserved (reg ! i) > 0 \<or> m_gpu_count_reserved (reg ! i) > 0 \<or>
             m_ram_mb_reserved (reg ! i) > 0 \<or> m_disk_mb_reserved (reg ! i) > 0 then (-2, reg)
          else (0, swap_remove i reg))"

definition registry_reserve ::
  "string \<Rightarrow> int \<Rightarrow> int \<Rightarrow> int \<Rightarrow> int \<Rightarrow> registry \<Rightarrow> int \<times> registry" where
  "registry_reserve machine_id cores gpu ram_mb disk_mb reg =
     (if cores < 0 \<or> gpu < 0 \<or> ram_mb < 0 \<or> disk_mb < 0 then (-1, reg)
      else case find_machine reg machine_id of
        None \<Rightarrow> (-1, reg)
      | Some i \<Rightarrow>
          let m = reg ! i;
              free_cores = m_cores_total m - m_cores_reserved m - m_cores_min m;
              free_gpu = m_gpu_count_total m - m_gpu_count_reserved m;
              free_ram = m_ram_mb_total m - m_ram_mb_reserved m - m_ram_mb_min m;
              free_disk = m_disk_mb_total m - m_disk_mb_reserved m - m_disk_mb_min m
          in if m_enabled m \<and> m_probe_status m = MACHINE_ONLINE \<and>
                free_cores \<ge> cores \<and> free_gpu \<ge> gpu \<and> free_ram \<ge> ram_mb \<and> free_disk \<ge> disk_mb
             then (0, reg[i := m\<lparr>
                    m_cores_reserved := m_cores_reserved m + cores,
                    m_gpu_count_reserved := m_gpu_count_reserved m + gpu,
                    m_ram_mb_reserved := m_ram_mb_reserved m + ram_mb,
                    m_disk_mb_reserved := m_disk_mb_reserved m + disk_mb\<rparr>])
             else (-1, reg))"

definition clamp0 :: "int \<Rightarrow> int" where
  "clamp0 v = (if v < 0 then 0 else v)"

definition registry_release ::
  "string \<Rightarrow> int \<Rightarrow> int \<Rightarrow> int \<Rightarrow> int \<Rightarrow> registry \<Rightarrow> int \<times> registry" where
  "registry_release machine_id cores gpu ram_mb disk_mb reg =
     (if cores < 0 \<or> gpu < 0 \<or> ram_mb < 0 \<or> disk_mb < 0 then (-1, reg)
      else case find_machine reg machine_id of
        None \<Rightarrow> (-1, reg)
      | Some i \<Rightarrow>
          let m = reg ! i
          in (0, reg[i := m\<lparr>
                m_cores_reserved := clamp0 (m_cores_reserved m - cores),
                m_gpu_count_reserved := clamp0 (m_gpu_count_reserved m - gpu),
                m_ram_mb_reserved := clamp0 (m_ram_mb_reserved m - ram_mb),
                m_disk_mb_reserved := clamp0 (m_disk_mb_reserved m - disk_mb)\<rparr>]))"

definition registry_update_probe ::
  "string \<Rightarrow> machine_status \<Rightarrow> int \<Rightarrow> int \<Rightarrow> registry \<Rightarrow> int \<times> registry" where
  "registry_update_probe machine_id status probe_time reachable reg =
     (case find_machine reg machine_id of
        None \<Rightarrow> (-1, reg)
      | Some i \<Rightarrow>
          let m = reg ! i
          in (0, reg[i := m\<lparr>
                m_probe_status := status, m_last_probe_time := probe_time,
                m_probe_fail_count :=
                  (if reachable > 0 then 0
                   else if reachable = 0 then m_probe_fail_count m + 1
                   else m_probe_fail_count m)\<rparr>]))"

section \<open>Resource vectors\<close>

text \<open>Cores, GPUs, megabytes of memory and of disk, added and compared componentwise.\<close>

datatype res = Res (r_cores: int) (r_gpu: int) (r_ram: int) (r_disk: int)

instantiation res :: ordered_ab_group_add
begin

definition zero_res :: res where "zero_res = Res 0 0 0 0"

definition plus_res :: "res \<Rightarrow> res \<Rightarrow> res" where
  "plus_res a b = Res (r_cores a + r_cores b) (r_gpu a + r_gpu b) (r_ram a + r_ram b) (r_disk a + r_disk b)"

definition minus_res :: "res \<Rightarrow> res \<Rightarrow> res" where
  "minus_res a b = Res (r_cores a - r_cores b) (r_gpu a - r_gpu b) (r_ram a - r_ram b) (r_disk a - r_disk b)"

definition uminus_res :: "res \<Rightarrow> res" where
  "uminus_res a = Res (- r_cores a) (- r_gpu a) (- r_ram a) (- r_disk a)"

definition less_eq_res :: "res \<Rightarrow> res \<Rightarrow> bool" where
  "less_eq_res a b \<longleftrightarrow>
     r_cores a \<le> r_cores b \<and> r_gpu a \<le> r_gpu b \<and> r_ram a \<le> r_ram b \<and> r_disk a \<le> r_disk b"

definition less_res :: "res \<Rightarrow> res \<Rightarrow> bool" where
  "less_res a b \<longleftrightarrow> a \<le> b \<and> \<not> b \<le> (a :: res)"

instance
  by standard
    (auto simp: zero_res_def plus_res_def minus_res_def uminus_res_def less_eq_res_def less_res_def
      res.expand)

end

lemmas res_simps = zero_res_def plus_res_def minus_res_def uminus_res_def less_eq_res_def

definition reserved :: "machine \<Rightarrow> res" where
  "reserved m = Res (m_cores_reserved m) (m_gpu_count_reserved m) (m_ram_mb_reserved m) (m_disk_mb_reserved m)"

definition total :: "machine \<Rightarrow> res" where
  "total m = Res (m_cores_total m) (m_gpu_count_total m) (m_ram_mb_total m) (m_disk_mb_total m)"

text \<open>What the machine keeps for itself.\<close>

definition kept :: "machine \<Rightarrow> res" where
  "kept m = Res (m_cores_min m) 0 (m_ram_mb_min m) (m_disk_mb_min m)"

definition usable :: "machine \<Rightarrow> bool" where
  "usable m \<longleftrightarrow> m_enabled m \<and> m_probe_status m = MACHINE_ONLINE"

definition add_reserved :: "res \<Rightarrow> machine \<Rightarrow> machine" where
  "add_reserved v m = m\<lparr>
     m_cores_reserved := m_cores_reserved m + r_cores v,
     m_gpu_count_reserved := m_gpu_count_reserved m + r_gpu v,
     m_ram_mb_reserved := m_ram_mb_reserved m + r_ram v,
     m_disk_mb_reserved := m_disk_mb_reserved m + r_disk v\<rparr>"

definition set_reserved :: "res \<Rightarrow> machine \<Rightarrow> machine" where
  "set_reserved v m = m\<lparr>
     m_cores_reserved := r_cores v, m_gpu_count_reserved := r_gpu v,
     m_ram_mb_reserved := r_ram v, m_disk_mb_reserved := r_disk v\<rparr>"

section \<open>The invariant\<close>

definition machine_ok :: "machine \<Rightarrow> bool" where
  "machine_ok m \<longleftrightarrow>
     m_id m \<noteq> [] \<and> length (m_id m) < 64 \<and> safe_machine_text (m_id m) \<and> 1 \<le> m_cores_total m \<and>
     0 \<le> kept m \<and> 0 \<le> reserved m \<and> reserved m + kept m \<le> total m \<and>
     total m \<le> Res (2 ^ 31 - 1) (2 ^ 31 - 1) (2 ^ 31 - 1) (2 ^ 31 - 1)"

definition registry_ok :: "registry \<Rightarrow> bool" where
  "registry_ok reg \<longleftrightarrow>
     length reg \<le> MAX_MACHINES \<and> distinct (map m_id reg) \<and> (\<forall>m \<in> set reg. machine_ok m)"

lemma registry_ok_Nil [simp]: "registry_ok []"
  by (simp add: registry_ok_def)

lemma res_sel [simp]:
  "r_cores (a + b) = r_cores a + r_cores b" "r_gpu (a + b) = r_gpu a + r_gpu b"
  "r_ram (a + b) = r_ram a + r_ram b" "r_disk (a + b) = r_disk a + r_disk b"
  "r_cores (a - b) = r_cores a - r_cores b" "r_gpu (a - b) = r_gpu a - r_gpu b"
  "r_ram (a - b) = r_ram a - r_ram b" "r_disk (a - b) = r_disk a - r_disk b"
  "r_cores (- a) = - r_cores a" "r_gpu (- a) = - r_gpu a"
  "r_ram (- a) = - r_ram a" "r_disk (- a) = - r_disk a"
  "r_cores 0 = 0" "r_gpu 0 = 0" "r_ram 0 = 0" "r_disk 0 = 0"
  by (simp_all add: res_simps)

lemma res_le_iff: "a \<le> b \<longleftrightarrow>
    r_cores a \<le> r_cores b \<and> r_gpu a \<le> r_gpu b \<and> r_ram a \<le> r_ram b \<and> r_disk a \<le> r_disk b"
  by (simp add: less_eq_res_def)

lemma reserved_sel [simp]:
  "r_cores (reserved m) = m_cores_reserved m" "r_gpu (reserved m) = m_gpu_count_reserved m"
  "r_ram (reserved m) = m_ram_mb_reserved m" "r_disk (reserved m) = m_disk_mb_reserved m"
  by (simp_all add: reserved_def)

lemma add_reserved_sel [simp]:
  "m_id (add_reserved v m) = m_id m" "reserved (add_reserved v m) = reserved m + v"
  "total (add_reserved v m) = total m" "kept (add_reserved v m) = kept m"
  "usable (add_reserved v m) = usable m" "m_cores_total (add_reserved v m) = m_cores_total m"
  by (simp_all add: add_reserved_def reserved_def total_def kept_def usable_def res_simps)

lemma add_reserved_0 [simp]: "add_reserved 0 m = m"
  by (simp add: add_reserved_def)

lemma add_reserved_add [simp]: "add_reserved v (add_reserved w m) = add_reserved (w + v) m"
  by (simp add: add_reserved_def)

lemma machine_ok_add_reserved:
  "machine_ok m \<Longrightarrow> 0 \<le> reserved m + v \<Longrightarrow> reserved m + v + kept m \<le> total m \<Longrightarrow>
   machine_ok (add_reserved v m)"
  by (simp add: machine_ok_def add_reserved_def [symmetric])

subsection \<open>Looking up and replacing one machine\<close>

lemma find_machine_SomeD:
  assumes "find_machine reg mid = Some i"
  shows "i < length reg \<and> m_id (reg ! i) = mid \<and> reg ! i \<in> set reg"
  using find_idx_SomeD [OF assms [unfolded find_machine_def]] by simp

lemma find_machine_None: "find_machine reg mid = None \<longleftrightarrow> mid \<notin> m_id ` set reg"
  by (auto simp: find_machine_def find_idx_None)

lemma find_machine_update:
  assumes "find_machine reg mid = Some i" "m_id m' = mid"
  shows "find_machine (reg[i := m']) k = find_machine reg k"
proof -
  have "\<And>P. P m' = P (reg ! i) \<Longrightarrow> find_idx P (reg[i := m']) = find_idx P reg"
    subgoal for P
      using find_machine_SomeD [OF assms(1), THEN conjunct1]
      by (induction reg arbitrary: i) (auto split: nat.splits)
    done
  then show ?thesis using assms find_machine_SomeD [OF assms(1)] by (simp add: find_machine_def)
qed

lemma registry_get_copy_update:
  assumes "find_machine reg mid = Some i" "m_id m' = mid"
  shows "registry_get_copy (reg[i := m']) = (registry_get_copy reg)(mid \<mapsto> m')"
proof
  fix k
  note f = find_machine_SomeD [OF assms(1)]
  show "registry_get_copy (reg[i := m']) k = ((registry_get_copy reg)(mid \<mapsto> m')) k"
  proof (cases "k = mid")
    case True
    then show ?thesis using assms f by (simp add: registry_get_copy_def find_machine_update)
  next
    case False
    have "find_machine reg k \<noteq> Some i" using False f find_machine_SomeD [of reg k i] by auto
    then show ?thesis using assms False
      by (cases "find_machine reg k") (auto simp: registry_get_copy_def find_machine_update)
  qed
qed

lemma registry_get_copyD:
  "registry_get_copy reg mid = Some m \<Longrightarrow> m \<in> set reg \<and> m_id m = mid"
  by (auto simp: registry_get_copy_def dest: find_machine_SomeD)

lemma registry_get_copy_None: "registry_get_copy reg mid = None \<longleftrightarrow> mid \<notin> m_id ` set reg"
  by (simp add: registry_get_copy_def find_machine_None)

lemma registry_get_copy_iff:
  assumes "distinct (map m_id reg)"
  shows "registry_get_copy reg mid = Some m \<longleftrightarrow> m \<in> set reg \<and> m_id m = mid"
proof
  assume m: "m \<in> set reg \<and> m_id m = mid"
  then obtain m' where m': "registry_get_copy reg mid = Some m'"
    by (cases "registry_get_copy reg mid") (auto simp: registry_get_copy_None)
  then have "m' \<in> set reg" "m_id m' = m_id m" using registry_get_copyD m by auto
  then have "m' = m" using assms m by (auto simp: distinct_map inj_on_def)
  with m' show "registry_get_copy reg mid = Some m" by simp
qed (rule registry_get_copyD)

lemma registry_get_copy_cong:
  assumes "distinct (map m_id reg)" "distinct (map m_id reg')"
    "\<And>m. m_id m = k \<Longrightarrow> m \<in> set reg \<longleftrightarrow> m \<in> set reg'"
  shows "registry_get_copy reg k = registry_get_copy reg' k"
proof -
  have "registry_get_copy reg k = Some m \<longleftrightarrow> registry_get_copy reg' k = Some m" for m
    using assms by (auto simp: registry_get_copy_iff)
  then show ?thesis by (metis not_Some_eq)
qed

lemma map_id_update: "i < length reg \<Longrightarrow> m_id m' = m_id (reg ! i) \<Longrightarrow> map m_id (reg[i := m']) = map m_id reg"
  by (simp add: map_update list_update_same_conv)

lemma registry_ok_update:
  assumes "registry_ok reg" "find_machine reg mid = Some i" "m_id m' = mid" "machine_ok m'"
  shows "registry_ok (reg[i := m'])"
  using assms find_machine_SomeD [OF assms(2)] set_update_subset_insert [of reg i m']
  by (auto simp: registry_ok_def map_id_update)

lemma registry_ok_get: "registry_ok reg \<Longrightarrow> registry_get_copy reg mid = Some m \<Longrightarrow> machine_ok m"
  by (auto simp: registry_ok_def dest: registry_get_copyD)

subsection \<open>The operations on one machine\<close>

text \<open>The four counters a caller passes, as one vector.\<close>

definition reserve_vec :: "string \<Rightarrow> res \<Rightarrow> registry \<Rightarrow> int \<times> registry" where
  "reserve_vec mid v = registry_reserve mid (r_cores v) (r_gpu v) (r_ram v) (r_disk v)"

definition release_vec :: "string \<Rightarrow> res \<Rightarrow> registry \<Rightarrow> int \<times> registry" where
  "release_vec mid v = registry_release mid (r_cores v) (r_gpu v) (r_ram v) (r_disk v)"

definition fits :: "res \<Rightarrow> machine \<Rightarrow> bool" where
  "fits v m \<longleftrightarrow> usable m \<and> reserved m + v + kept m \<le> total m"

lemma reserve_vec_eq:
  "reserve_vec mid v reg =
     (case find_machine reg mid of
        None \<Rightarrow> (-1, reg)
      | Some i \<Rightarrow> if 0 \<le> v \<and> fits v (reg ! i) then (0, reg[i := add_reserved v (reg ! i)]) else (-1, reg))"
proof -
  have "m_cores_total m - m_cores_reserved m - m_cores_min m \<ge> r_cores v \<and>
        m_gpu_count_total m - m_gpu_count_reserved m \<ge> r_gpu v \<and>
        m_ram_mb_total m - m_ram_mb_reserved m - m_ram_mb_min m \<ge> r_ram v \<and>
        m_disk_mb_total m - m_disk_mb_reserved m - m_disk_mb_min m \<ge> r_disk v \<longleftrightarrow>
        reserved m + v + kept m \<le> total m" for m
    by (auto simp: res_le_iff total_def kept_def)
  then show ?thesis
    by (auto simp: reserve_vec_def registry_reserve_def fits_def usable_def res_le_iff Let_def
        add_reserved_def not_less split: option.split)
qed

lemma release_vec_eq:
  assumes "0 \<le> v" "find_machine reg mid = Some i" "v \<le> reserved (reg ! i)"
  shows "release_vec mid v reg = (0, reg[i := add_reserved (- v) (reg ! i)])"
proof -
  have "clamp0 (m_cores_reserved (reg ! i) - r_cores v) = m_cores_reserved (reg ! i) - r_cores v"
    "clamp0 (m_gpu_count_reserved (reg ! i) - r_gpu v) = m_gpu_count_reserved (reg ! i) - r_gpu v"
    "clamp0 (m_ram_mb_reserved (reg ! i) - r_ram v) = m_ram_mb_reserved (reg ! i) - r_ram v"
    "clamp0 (m_disk_mb_reserved (reg ! i) - r_disk v) = m_disk_mb_reserved (reg ! i) - r_disk v"
    using assms(3) by (auto simp: clamp0_def res_le_iff)
  then show ?thesis
    using assms(1,2) by (auto simp: release_vec_def registry_release_def res_le_iff add_reserved_def Let_def)
qed

lemma release_vec_None:
  "find_machine reg mid = None \<Longrightarrow> release_vec mid v reg = (-1, reg)"
  by (simp add: release_vec_def registry_release_def)

lemma reserve_vec_fail: "reserve_vec mid v reg = (r, reg') \<Longrightarrow> r \<noteq> 0 \<Longrightarrow> r = -1 \<and> reg' = reg"
  by (auto simp: reserve_vec_eq split: option.splits if_splits)

lemma reserve_vec_ok:
  assumes "reserve_vec mid v reg = (0, reg')"
  obtains i where "find_machine reg mid = Some i" "0 \<le> v" "fits v (reg ! i)"
    "reg' = reg[i := add_reserved v (reg ! i)]"
  using assms by (auto simp: reserve_vec_eq split: option.splits if_splits)

lemma reserve_vec_registry_ok:
  assumes "registry_ok reg" "reserve_vec mid v reg = (r, reg')"
  shows "registry_ok reg'"
proof (cases "r = 0")
  case True
  with assms obtain i where i: "find_machine reg mid = Some i" "0 \<le> v" "fits v (reg ! i)"
    "reg' = reg[i := add_reserved v (reg ! i)]" using reserve_vec_ok by blast
  have "machine_ok (reg ! i)" using assms(1) find_machine_SomeD [OF i(1)] by (auto simp: registry_ok_def)
  then have "machine_ok (add_reserved v (reg ! i))"
    using i(2,3) by (intro machine_ok_add_reserved) (auto simp: fits_def machine_ok_def)
  then show ?thesis using i find_machine_SomeD [OF i(1)] assms(1) by (auto intro: registry_ok_update)
qed (use assms reserve_vec_fail in blast)

lemma machine_ok_set_reserved:
  "machine_ok m \<Longrightarrow> 0 \<le> v \<Longrightarrow> v \<le> reserved m \<Longrightarrow> machine_ok (set_reserved v m)"
  by (auto simp: machine_ok_def set_reserved_def reserved_def total_def kept_def res_le_iff)

lemma release_vec_set:
  assumes "find_machine reg mid = Some i" "0 \<le> v"
  obtains w where "release_vec mid v reg = (0, reg[i := set_reserved w (reg ! i)])"
    "w = Res (clamp0 (m_cores_reserved (reg ! i) - r_cores v))
             (clamp0 (m_gpu_count_reserved (reg ! i) - r_gpu v))
             (clamp0 (m_ram_mb_reserved (reg ! i) - r_ram v))
             (clamp0 (m_disk_mb_reserved (reg ! i) - r_disk v))"
  using assms
  by (auto simp: release_vec_def registry_release_def res_le_iff set_reserved_def Let_def)

lemma release_vec_registry_ok:
  assumes ok: "registry_ok reg" and rel: "release_vec mid v reg = (r, reg')"
  shows "registry_ok reg'"
proof (cases "0 \<le> v \<and> find_machine reg mid \<noteq> None")
  case True
  then obtain i w where i: "find_machine reg mid = Some i"
    and w: "release_vec mid v reg = (0, reg[i := set_reserved w (reg ! i)])"
      "w = Res (clamp0 (m_cores_reserved (reg ! i) - r_cores v))
               (clamp0 (m_gpu_count_reserved (reg ! i) - r_gpu v))
               (clamp0 (m_ram_mb_reserved (reg ! i) - r_ram v))
               (clamp0 (m_disk_mb_reserved (reg ! i) - r_disk v))"
    by (metis not_None_eq release_vec_set)
  have m: "machine_ok (reg ! i)" using ok find_machine_SomeD [OF i] by (auto simp: registry_ok_def)
  then have "0 \<le> w \<and> w \<le> reserved (reg ! i)"
    using True w(2) by (auto simp: clamp0_def res_le_iff machine_ok_def)
  with m have "machine_ok (set_reserved w (reg ! i))" by (auto intro: machine_ok_set_reserved)
  moreover have "m_id (set_reserved w (reg ! i)) = mid"
    using find_machine_SomeD [OF i] by (simp add: set_reserved_def)
  ultimately show ?thesis using ok i w(1) rel by (auto intro: registry_ok_update)
next
  case False
  then show ?thesis using ok rel
    by (auto simp: release_vec_def registry_release_def res_le_iff not_le split: if_splits option.splits)
qed

lemma reserve_release_vec:
  assumes "registry_ok reg" "reserve_vec mid v reg = (0, reg1)"
  shows "release_vec mid v reg1 = (0, reg)"
proof -
  obtain i where i: "find_machine reg mid = Some i" "0 \<le> v"
    "reg1 = reg[i := add_reserved v (reg ! i)]" using reserve_vec_ok [OF assms(2)] by blast
  note f = find_machine_SomeD [OF i(1)]
  then have "0 \<le> reserved (reg ! i)" using assms(1) by (auto simp: registry_ok_def machine_ok_def)
  then have "release_vec mid v reg1 = (0, reg1[i := add_reserved (- v) (reg1 ! i)])"
    using i f by (intro release_vec_eq) (auto simp: find_machine_update)
  then show ?thesis using i f by simp
qed

section \<open>The registry as a store of capacities\<close>

text \<open>
  What the allocator relies on: a reservation is granted only within the free capacity and is
  added to what the machine has reserved, a refused one changes nothing, and releasing no more
  than is reserved takes exactly that amount off.
\<close>

locale capacity_store =
  fixes get :: "'s \<Rightarrow> string \<Rightarrow> machine option"
    and reserve release :: "string \<Rightarrow> res \<Rightarrow> 's \<Rightarrow> int \<times> 's"
    and invar :: "'s \<Rightarrow> bool"
  assumes reserve_invar: "invar s \<Longrightarrow> reserve mid v s = (r, s') \<Longrightarrow> invar s'"
    and release_invar: "invar s \<Longrightarrow> release mid v s = (r, s') \<Longrightarrow> invar s'"
    and get_bounds: "invar s \<Longrightarrow> get s mid = Some m \<Longrightarrow> 0 \<le> reserved m \<and> reserved m + kept m \<le> total m"
    and reserve_granted: "reserve mid v s = (0, s') \<Longrightarrow>
          \<exists>m. get s mid = Some m \<and> 0 \<le> v \<and> fits v m \<and> get s' = (get s)(mid \<mapsto> add_reserved v m)"
    and reserve_refused: "reserve mid v s = (r, s') \<Longrightarrow> r \<noteq> 0 \<Longrightarrow> s' = s"
    and reserve_fits: "get s mid = Some m \<Longrightarrow> 0 \<le> v \<Longrightarrow> fits v m \<Longrightarrow> \<exists>s'. reserve mid v s = (0, s')"
    and release_known: "get s mid = Some m \<Longrightarrow> 0 \<le> v \<Longrightarrow> v \<le> reserved m \<Longrightarrow>
          \<exists>s'. release mid v s = (0, s') \<and> get s' = (get s)(mid \<mapsto> add_reserved (- v) m)"
    and release_unknown: "get s mid = None \<Longrightarrow> release mid v s = (r, s') \<Longrightarrow> s' = s"
begin

text \<open>What is reserved on a machine; nothing on one the store does not hold.\<close>

definition used :: "'s \<Rightarrow> string \<Rightarrow> res" where
  "used s mid = (case get s mid of None \<Rightarrow> 0 | Some m \<Rightarrow> reserved m)"

lemma reserve_used:
  assumes "reserve mid v s = (0, s')"
  shows "used s' = (used s)(mid := used s mid + v)"
  using reserve_granted [OF assms] by (auto simp: used_def fun_eq_iff)

lemma release_used:
  assumes "0 \<le> v" "v \<le> used s mid" "release mid v s = (r, s')"
  shows "used s' = (used s)(mid := used s mid - v)"
proof (cases "get s mid")
  case None
  then have "v = 0" using assms(1,2) by (simp add: used_def)
  then show ?thesis using release_unknown [OF None assms(3)] by (simp add: fun_eq_iff)
next
  case (Some m)
  then show ?thesis
    using release_known [OF Some assms(1)] assms(2,3) by (auto simp: used_def fun_eq_iff)
qed

lemma used_within: "invar s \<Longrightarrow> get s mid = Some m \<Longrightarrow> used s mid + kept m \<le> total m"
  by (simp add: used_def get_bounds)

lemma reserve_then_release:
  assumes "invar s" "reserve mid v s = (0, s1)"
  shows "\<exists>s2. release mid v s1 = (0, s2) \<and> get s2 = get s"
proof -
  obtain m where m: "get s mid = Some m" "0 \<le> v" "get s1 = (get s)(mid \<mapsto> add_reserved v m)"
    using reserve_granted [OF assms(2)] by blast
  have "v \<le> reserved (add_reserved v m)" using get_bounds [OF assms(1) m(1)] by simp
  then obtain s2 where "release mid v s1 = (0, s2)"
    "get s2 = (get s1)(mid \<mapsto> add_reserved (- v) (add_reserved v m))"
    using release_known [of s1 mid "add_reserved v m" v] m by auto
  then show ?thesis using m by (auto simp: fun_eq_iff)
qed

end

lemma registry_get_copy_find:
  "registry_get_copy reg mid = Some m \<longleftrightarrow> (\<exists>i. find_machine reg mid = Some i \<and> reg ! i = m)"
  by (auto simp: registry_get_copy_def)

interpretation rs: capacity_store registry_get_copy reserve_vec release_vec registry_ok
proof
  fix mid v and s s' :: registry
  assume "reserve_vec mid v s = (0, s')"
  then obtain i where i: "find_machine s mid = Some i" "0 \<le> v" "fits v (s ! i)"
    "s' = s[i := add_reserved v (s ! i)]" by (rule reserve_vec_ok)
  then show "\<exists>m. registry_get_copy s mid = Some m \<and> 0 \<le> v \<and> fits v m \<and>
      registry_get_copy s' = (registry_get_copy s)(mid \<mapsto> add_reserved v m)"
    using find_machine_SomeD [OF i(1)]
    by (auto simp: registry_get_copy_update registry_get_copy_find)
next
  fix mid v m and s :: registry
  assume "registry_get_copy s mid = Some m" and v: "0 \<le> v" "v \<le> reserved m"
  then obtain i where i: "find_machine s mid = Some i" "s ! i = m"
    by (auto simp: registry_get_copy_find)
  then show "\<exists>s'. release_vec mid v s = (0, s') \<and>
      registry_get_copy s' = (registry_get_copy s)(mid \<mapsto> add_reserved (- v) m)"
    using v find_machine_SomeD [OF i(1)] by (auto simp: release_vec_eq registry_get_copy_update)
next
  fix mid v m and s :: registry
  assume "registry_get_copy s mid = Some m" "0 \<le> v" "fits v m"
  then show "\<exists>s'. reserve_vec mid v s = (0, s')"
    by (auto simp: registry_get_copy_find reserve_vec_eq)
next
  fix mid v r and s s' :: registry
  assume "registry_get_copy s mid = None" "release_vec mid v s = (r, s')"
  then show "s' = s" by (simp add: registry_get_copy_def release_vec_None)
next
  fix mid m and s :: registry
  assume "registry_ok s" "registry_get_copy s mid = Some m"
  then show "0 \<le> reserved m \<and> reserved m + kept m \<le> total m"
    using registry_ok_get machine_ok_def by blast
qed (use reserve_vec_registry_ok release_vec_registry_ok reserve_vec_fail in blast)+

section \<open>Loading and the administrative operations\<close>

text \<open>A machine no job has touched yet.\<close>

definition idle :: "machine \<Rightarrow> bool" where
  "idle m \<longleftrightarrow> reserved m = 0 \<and> m_probe_status m = MACHINE_PROBING"

definition loaded_ok :: "registry \<Rightarrow> bool" where
  "loaded_ok reg \<longleftrightarrow> registry_ok reg \<and> (\<forall>m \<in> set reg. idle m)"

lemma loaded_ok_append:
  assumes "loaded_ok reg" "length reg < MAX_MACHINES" "\<not> registry_contains reg (m_id m)"
    "machine_ok m" "idle m"
  shows "loaded_ok (reg @ [m])"
  using assms by (auto simp: loaded_ok_def registry_ok_def registry_contains_def)

lemma read_int_range:
  "read_int j key d lo hi = Some v \<Longrightarrow> v = d \<or> lo \<le> v \<and> v \<le> hi"
  by (auto simp: read_int_def dest: whole_number_range split: option.splits)

lemma read_int_or_zero:
  "lo \<ge> 0 \<Longrightarrow> hi \<le> 10000000 \<Longrightarrow>
   0 \<le> (case read_int j key 0 lo hi of None \<Rightarrow> 0 | Some v \<Rightarrow> v) \<and>
   (case read_int j key 0 lo hi of None \<Rightarrow> 0 | Some v \<Rightarrow> v) \<le> 10000000"
  by (auto dest: read_int_range split: option.splits)

lemma read_machine_bounds:
  assumes "read_machine j = (M, invalid)"
  shows "0 \<le> total M" "0 \<le> kept M" "total M \<le> Res 10000000 10000000 10000000 10000000" "idle M"
    "length (m_id M) < 64"
proof -
  note r = read_int_or_zero [of _ _ j]
  note M = assms [unfolded read_machine_def Let_def, THEN arg_cong, of fst, unfolded fst_conv, symmetric]
  show "0 \<le> total M" "total M \<le> Res 10000000 10000000 10000000 10000000"
    using r [of 1 10000 "''cores''"] r [of 0 1000 "''gpu_count''"] r [of 0 10000000 "''ram_mb''"]
      r [of 0 10000000 "''disk_mb''"]
    by (simp_all add: M total_def res_le_iff)
  show "0 \<le> kept M"
    using r [of 0 10000 "''cores_min''"] r [of 0 10000000 "''ram_mb_min''"]
      r [of 0 10000000 "''disk_mb_min''"]
    by (simp add: M kept_def res_le_iff)
  show "idle M" by (simp add: M idle_def reserved_def machine_zero_def zero_res_def)
  show "length (m_id M) < 64"
    by (simp add: M) (simp add: copy_string_def split: option.split json.split)
qed

lemma not_rejectedD:
  assumes "\<not> reject_machine reg M invalid" "0 \<le> total M"
  shows "m_id M \<noteq> []" "safe_machine_text (m_id M)" "1 \<le> m_cores_total M" "kept M \<le> total M"
    "\<not> registry_contains reg (m_id M)"
proof -
  show "m_id M \<noteq> []" using assms(1) unfolding reject_machine_def by blast
  show "safe_machine_text (m_id M)" using assms(1) unfolding reject_machine_def by blast
  show "\<not> registry_contains reg (m_id M)" using assms(1) unfolding reject_machine_def by blast
  have "\<not> m_cores_total M < 1" using assms(1) unfolding reject_machine_def by blast
  then show "1 \<le> m_cores_total M" by simp
  have "\<not> m_cores_min M > m_cores_total M \<and> \<not> m_ram_mb_min M > m_ram_mb_total M \<and>
      \<not> m_disk_mb_min M > m_disk_mb_total M"
    using assms(1) unfolding reject_machine_def by blast
  then show "kept M \<le> total M" using assms(2) by (simp add: kept_def total_def res_le_iff)
qed

lemma read_machine_ok:
  assumes "read_machine j = (M, invalid)" "\<not> reject_machine reg M invalid"
  shows "machine_ok M \<and> idle M"
  using read_machine_bounds [OF assms(1)] not_rejectedD [OF assms(2)]
  by (simp add: machine_ok_def idle_def res_le_iff)

lemma load_machines_ok: "loaded_ok reg \<Longrightarrow> loaded_ok (load_machines ms reg)"
proof (induction ms reg rule: load_machines.induct)
  case (2 m ms reg)
  obtain M invalid where M: "read_machine m = (M, invalid)" by force
  have "length reg < MAX_MACHINES \<Longrightarrow>
      loaded_ok (if reject_machine reg M invalid then reg else reg @ [M])"
    using 2(2) read_machine_ok [OF M] not_rejectedD(5) read_machine_bounds(1) [OF M]
    by (auto intro!: loaded_ok_append)
  with 2 M show ?case by (simp add: not_le)
qed simp

definition pool_ok :: "pool \<Rightarrow> bool" where
  "pool_ok p \<longleftrightarrow> p_prefix p \<noteq> [] \<and> safe_machine_text (p_prefix p) \<and> 1 \<le> p_cores p \<and>
     0 \<le> p_gpu p \<and> 0 \<le> p_ram p \<and> 0 \<le> p_disk p \<and> p_cores p \<le> 10000000 \<and> p_gpu p \<le> 10000000 \<and>
     p_ram p \<le> 10000000 \<and> p_disk p \<le> 10000000"

lemma read_pool_cases:
  assumes "read_pool p = Some q"
  shows "p_prefix q \<noteq> [] \<and> safe_machine_text (p_prefix q) \<and> \<not> p_cores q < 1 \<and>
    read_int p ''cores'' 0 1 10000 = Some (p_cores q) \<and>
    read_int p ''gpu_count'' 0 0 1000 = Some (p_gpu q) \<and>
    read_int p ''ram_mb'' 0 0 10000000 = Some (p_ram q) \<and>
    read_int p ''disk_mb'' 0 0 10000000 = Some (p_disk q)"
  using assms unfolding read_pool_def Let_def
  by (auto split: option.splits json.splits cnum.splits if_split_asm)

lemma read_pool_ok: "read_pool p = Some q \<Longrightarrow> pool_ok q"
  using read_pool_cases [of p q] read_int_range [of p "''cores''" 0 1 10000 "p_cores q"]
    read_int_range [of p "''gpu_count''" 0 0 1000 "p_gpu q"]
    read_int_range [of p "''ram_mb''" 0 0 10000000 "p_ram q"]
    read_int_range [of p "''disk_mb''" 0 0 10000000 "p_disk q"]
  by (auto simp: pool_ok_def)

lemma pool_machine_ok:
  assumes "pool_ok p" "safe_machine_text (m_id (pool_machine p i))"
  shows "machine_ok (pool_machine p i) \<and> idle (pool_machine p i)"
proof -
  have "length (buf 64 (pool_name p i)) < 64" using length_buf [of 64 "pool_name p i"] by simp
  moreover have "buf 64 (pool_name p i) \<noteq> []" using assms(1) by (simp add: pool_ok_def pool_name_def buf_def)
  ultimately show ?thesis using assms
    by (simp add: machine_ok_def idle_def pool_machine_def Let_def pool_ok_def reserved_def total_def
        kept_def res_le_iff machine_zero_def zero_res_def)
qed

lemma expand_pool_ok: "pool_ok p \<Longrightarrow> loaded_ok reg \<Longrightarrow> loaded_ok (expand_pool p i reg)"
proof (induction p i reg rule: expand_pool.induct)
  case (1 p i reg)
  let ?M = "pool_machine p i"
  have "length reg < MAX_MACHINES \<Longrightarrow> loaded_ok
      (if \<not> safe_machine_text (m_id ?M) \<or> \<not> safe_machine_text (m_hostname ?M) \<or>
          \<not> safe_machine_text (m_ip ?M) \<or> registry_contains reg (m_id ?M) then reg else reg @ [?M])"
    using 1(2,3) pool_machine_ok [of p i] by (auto intro: loaded_ok_append)
  then show ?case
    using 1 by (subst expand_pool.simps) (simp add: Let_def)
qed

lemma load_pools_ok: "loaded_ok reg \<Longrightarrow> loaded_ok (load_pools ps reg)"
  by (induction ps reg rule: load_pools.induct)
     (auto split: option.splits intro: expand_pool_ok read_pool_ok)

lemma registry_load_cases:
  assumes "registry_load cJSON_Parse file reg = (r, reg')"
  shows "(r = -1 \<and> reg' = reg) \<or> (r = int (length reg') \<and> loaded_ok reg')"
proof -
  have "loaded_ok []" by (simp add: loaded_ok_def)
  then show ?thesis using assms
    by (auto simp: registry_load_def Let_def intro: load_machines_ok load_pools_ok
        split: option.splits if_splits)
qed

text \<open>What the callers of \<open>registry_upsert\<close> pass: a zeroed structure with its configuration filled in.\<close>

definition config_only :: "machine \<Rightarrow> bool" where
  "config_only m \<longleftrightarrow> reserved m = 0 \<and> length (m_id m) < 64 \<and>
     total m \<le> Res (2 ^ 31 - 1) (2 ^ 31 - 1) (2 ^ 31 - 1) (2 ^ 31 - 1)"

lemma upsert_checked_ok:
  assumes "config_only m" "fst (registry_upsert m reg) = 0" "0 \<le> v" "v + kept m \<le> total m"
  shows "machine_ok (set_reserved v m)"
  using assms
  by (auto simp: registry_upsert_def config_only_def machine_ok_def set_reserved_def res_le_iff total_def
      kept_def reserved_def zero_res_def split: if_splits)

text \<open>The entry \<open>registry_upsert\<close> stores over an existing one.\<close>

definition reconfigured :: "machine \<Rightarrow> machine \<Rightarrow> machine" where
  "reconfigured old m = (set_reserved (reserved old) m)\<lparr>
     m_probe_status := m_probe_status old, m_last_probe_time := m_last_probe_time old,
     m_probe_fail_count := m_probe_fail_count old\<rparr>"

lemma registry_upsert_existing:
  assumes "find_machine reg (m_id m) = Some i" "registry_upsert m reg = (0, reg')"
  shows "reserved (reg ! i) + kept m \<le> total m" "reg' = reg[i := reconfigured (reg ! i) m]"
  using assms
  by (auto simp: registry_upsert_def Let_def kept_def total_def res_le_iff reconfigured_def
      set_reserved_def split: if_splits)

lemma registry_upsert_new:
  assumes "find_machine reg (m_id m) = None" "registry_upsert m reg = (0, reg')"
  shows "kept m \<le> total m" "reg' = reg @ [m]" "length reg < MAX_MACHINES"
  using assms by (auto simp: registry_upsert_def kept_def total_def res_le_iff split: if_splits)

lemma registry_upsert_ok:
  assumes "registry_ok reg" "config_only m" "registry_upsert m reg = (r, reg')"
  shows "registry_ok reg'"
proof (cases "r = 0")
  case False
  then show ?thesis using assms by (auto simp: registry_upsert_def Let_def split: if_splits option.splits)
next
  case True
  show ?thesis
  proof (cases "find_machine reg (m_id m)")
    case (Some i)
    note u = registry_upsert_existing [OF Some, of reg'] and f = find_machine_SomeD [OF Some]
    have "0 \<le> reserved (reg ! i)" using f assms(1) by (auto simp: registry_ok_def machine_ok_def)
    then have "machine_ok (set_reserved (reserved (reg ! i)) m)"
      using assms True u by (intro upsert_checked_ok [where reg = reg]) auto
    then have "machine_ok (reconfigured (reg ! i) m)"
      by (simp add: reconfigured_def machine_ok_def reserved_def total_def kept_def)
    then show ?thesis
      using u assms True Some by (auto intro!: registry_ok_update simp: reconfigured_def set_reserved_def)
  next
    case None
    note u = registry_upsert_new [OF None, of reg']
    have "machine_ok (set_reserved 0 m)"
      using assms True u by (intro upsert_checked_ok [where reg = reg]) auto
    moreover have "set_reserved 0 m = m"
      using assms(2) by (simp add: set_reserved_def config_only_def reserved_def zero_res_def)
    ultimately show ?thesis using None assms True u by (auto simp: registry_ok_def find_machine_None)
  qed
qed

lemma registry_remove_cases:
  assumes "registry_remove mid reg = (r, reg')"
  shows "case registry_get_copy reg mid of
      None \<Rightarrow> r = -1 \<and> reg' = reg
    | Some m \<Rightarrow> if 0 < m_cores_reserved m \<or> 0 < m_gpu_count_reserved m \<or> 0 < m_ram_mb_reserved m \<or>
                    0 < m_disk_mb_reserved m
                 then r = -2 \<and> reg' = reg
                 else r = 0 \<and> mset reg' = mset reg - {#m#}"
proof (cases "find_machine reg mid")
  case None
  then show ?thesis using assms by (simp add: registry_remove_def registry_get_copy_def)
next
  case (Some i)
  then show ?thesis using assms find_machine_SomeD [OF Some]
    by (auto simp: registry_remove_def registry_get_copy_def mset_swap_remove split: if_splits)
qed

lemma registry_ok_mset_subset:
  assumes "registry_ok reg" "mset reg' \<subseteq># mset reg"
  shows "registry_ok reg'"
proof -
  have "length reg' \<le> length reg" using assms(2) by (metis size_mset size_mset_mono)
  moreover have "set reg' \<subseteq> set reg" using assms(2) by (metis set_mset_mono set_mset_mset)
  moreover have "mset (map m_id reg') \<subseteq># mset (map m_id reg)"
    using assms(2) by (simp add: image_mset_subseteq_mono)
  then have "distinct (map m_id reg')"
    using assms(1) unfolding registry_ok_def distinct_count_atmost_1
    by (metis (no_types, lifting) count_mset_0_iff le_zero_eq mset_subset_eq_count not_less_eq_eq
        One_nat_def le_Suc_eq set_mset_mset mset_subset_eqD)
  ultimately show ?thesis using assms(1) by (auto simp: registry_ok_def)
qed

lemma registry_remove_ok:
  assumes "registry_ok reg" "registry_remove mid reg = (r, reg')"
  shows "registry_ok reg'"
proof -
  have "mset reg' \<subseteq># mset reg"
    using registry_remove_cases [OF assms(2)] by (auto split: option.splits if_splits)
  then show ?thesis using assms(1) by (rule registry_ok_mset_subset [rotated])
qed

lemma registry_update_probe_ok:
  assumes "registry_ok reg" "registry_update_probe mid st t rc reg = (r, reg')"
  shows "registry_ok reg'"
proof (cases "find_machine reg mid")
  case (Some i)
  have "machine_ok (reg ! i)" using assms(1) find_machine_SomeD [OF Some] by (auto simp: registry_ok_def)
  then show ?thesis using assms Some find_machine_SomeD [OF Some]
    by (auto simp: registry_update_probe_def Let_def machine_ok_def reserved_def total_def kept_def
        intro!: registry_ok_update)
qed (use assms in \<open>simp add: registry_update_probe_def\<close>)

section \<open>The registry over time\<close>

text \<open>
  Every operation that writes the table. Upserts come from the HTTP routes and the cloud
  providers, which pass a zeroed structure with the configuration filled in.
\<close>

inductive registry_step :: "registry \<Rightarrow> registry \<Rightarrow> bool" where
  step_load: "registry_load parse contents reg = (r, reg') \<Longrightarrow> registry_step reg reg'"
| step_upsert: "config_only m \<Longrightarrow> registry_upsert m reg = (r, reg') \<Longrightarrow> registry_step reg reg'"
| step_remove: "registry_remove mid reg = (r, reg') \<Longrightarrow> registry_step reg reg'"
| step_reserve: "registry_reserve mid c g m d reg = (r, reg') \<Longrightarrow> registry_step reg reg'"
| step_release: "registry_release mid c g m d reg = (r, reg') \<Longrightarrow> registry_step reg reg'"
| step_probe: "registry_update_probe mid st t rc reg = (r, reg') \<Longrightarrow> registry_step reg reg'"

inductive_cases registry_stepE: "registry_step reg reg'"

lemma registry_step_ok: "registry_step reg reg' \<Longrightarrow> registry_ok reg \<Longrightarrow> registry_ok reg'"
proof (induction rule: registry_step.induct)
  case (step_load parse contents reg r reg')
  then show ?case using registry_load_cases loaded_ok_def by blast
next
  case (step_upsert m reg r reg')
  then show ?case using registry_upsert_ok by blast
next
  case (step_remove mid reg r reg')
  then show ?case using registry_remove_ok by blast
next
  case (step_reserve mid c g m d reg r reg')
  then show ?case using reserve_vec_registry_ok [of reg mid "Res c g m d"] by (simp add: reserve_vec_def)
next
  case (step_release mid c g m d reg r reg')
  then show ?case using release_vec_registry_ok [of reg mid "Res c g m d"] by (simp add: release_vec_def)
next
  case (step_probe mid st t rc reg r reg')
  then show ?case using registry_update_probe_ok by blast
qed

section \<open>Pool formats\<close>

text \<open>A rest of a format that prints, with \<open>n\<close> conversions behind it and one in all.\<close>

definition prints_once :: "string \<Rightarrow> nat \<Rightarrow> bool" where
  "prints_once cs n \<longleftrightarrow>
     (if n = 0 then \<exists>pre c w post. \<forall>i. pool_printf cs i = Some (pre @ pad_left c w (dec i) @ post)
      else \<exists>t. \<forall>i. pool_printf cs i = Some t)"

lemma prints_once_0I:
  "\<forall>i. pool_printf cs i = Some (pre @ pad_left c w (dec i) @ post) \<Longrightarrow> prints_once cs 0"
  unfolding prints_once_def by (simp only: simp_thms if_True) blast

lemma prints_once_Cons:
  assumes "prints_once cs n" "\<And>i. pool_printf cs' i = map_option ((#) c) (pool_printf cs i)"
  shows "prints_once cs' n"
proof (cases "n = 0")
  case True
  then obtain pre d w post where "\<forall>i. pool_printf cs i = Some (pre @ pad_left d w (dec i) @ post)"
    using assms(1) by (auto simp: prints_once_def)
  then have "\<forall>i. pool_printf cs' i = Some ((c # pre) @ pad_left d w (dec i) @ post)"
    using assms(2) by simp
  then show ?thesis using True unfolding prints_once_def by (simp del: append_Cons) blast
qed (use assms in \<open>auto simp: prints_once_def\<close>)

lemma pool_format_scan_printf:
  "pool_format_scan cs n \<Longrightarrow> n \<le> 1 \<Longrightarrow> prints_once cs n"
proof (induction cs n rule: pool_format_scan.induct)
  case (1 n)
  then show ?case by (simp add: prints_once_def)
next
  case (2 c cs n)
  consider (lit) "c \<noteq> CHR ''%''" | (pct) "c = CHR ''%''" "cs \<noteq> []" "hd cs = CHR ''%''"
    | (conv) "c = CHR ''%''" "\<not> (cs \<noteq> [] \<and> hd cs = CHR ''%'')" by blast
  then show ?case
  proof cases
    case lit
    with 2(1,4,5) have "prints_once cs n" by simp
    then show ?thesis by (rule prints_once_Cons) (simp add: lit)
  next
    case pct
    with 2(2,4,5) have "prints_once (tl cs) n" by simp
    then show ?thesis by (rule prints_once_Cons) (simp add: pct)
  next
    case conv
    then obtain ds where ds: "after_width cs = CHR ''d'' # ds" "n = 0" "pool_format_scan ds 1"
      using 2(4) by (auto split: list.splits if_splits)
    have "prints_once ds (n + 1)"
      using ds conv by (intro 2(3) [of "CHR ''d''"]) (simp_all add: is_digit_def)
    then have "prints_once ds 1" using ds by simp
    then obtain t where t: "\<forall>i. pool_printf ds i = Some t" by (auto simp: prints_once_def)
    have "\<forall>i. pool_printf (c # cs) i = Some ([] @
        pad_left (if cs \<noteq> [] \<and> hd cs = CHR ''0'' then CHR ''0'' else CHR '' '')
          (digits_value 0 (take (length cs - length (CHR ''d'' # ds)) cs)) (dec i) @ t)"
      unfolding pool_printf.simps using conv ds(1) t by (simp only: if_False list.case) simp
    then show ?thesis unfolding ds(2) by (rule prints_once_0I)
  qed
qed

section \<open>Claims\<close>

text \<open>Two machines used by the concrete instances below.\<close>

definition demo_machine :: "string \<Rightarrow> machine" where
  "demo_machine mid = machine_zero\<lparr> m_id := mid, m_enabled := True, m_cores_total := 8,
     m_gpu_count_total := 1, m_ram_mb_total := 4096, m_disk_mb_total := 1000, m_cores_min := 1 \<rparr>"

definition demo_registry :: registry where
  "demo_registry = [demo_machine ''n1'', demo_machine ''n2'']"

lemmas demo_registry_simps =
  demo_registry_def demo_machine_def machine_zero_def registry_get_copy_def find_machine_def
  registry_reserve_def registry_release_def clamp0_def Let_def

lemma demo_registry_ok: "registry_ok demo_registry"
  by (simp add: registry_ok_def demo_registry_def demo_machine_def machine_zero_def MAX_MACHINES_def
      machine_ok_def reserved_def total_def kept_def res_le_iff safe_machine_text_def
      safe_machine_char_def less_eq_char_def)

text \<open>
  C34: whatever the provisioning file holds, loading it either fails with -1 and leaves the table
  as it was, or replaces it by a table whose length is the result and that satisfies the
  invariant (unique identifiers, at most 1024 machines, capacities within 32 bits and at least
  what the machine keeps for itself), with nothing reserved and no machine yet online.
\<close>

theorem registry_load_correct:
  assumes "registry_load cJSON_Parse contents reg = (r, reg')"
  shows "(r = -1 \<and> reg' = reg) \<or>
    (r = int (length reg') \<and> registry_ok reg' \<and>
     (\<forall>m \<in> set reg'. reserved m = 0 \<and> m_probe_status m = MACHINE_PROBING))"
  using registry_load_cases [OF assms] by (auto simp: loaded_ok_def idle_def)

theorem registry_load_correct_witness:
  "\<exists>m. registry_load (\<lambda>_. Some (JObject [(''machines'', JArray [JObject [(''id'', JString ''n1''),
       (''cores'', JNumber (Finite 4))], JObject [(''id'', JString ''n2'')]])])) (Some ''{}'') demo_registry = (1, [m]) \<and>
     m_id m = ''n1'' \<and> registry_ok [m] \<and> reserved m = 0 \<and> m_probe_status m = MACHINE_PROBING"
proof -
  let ?m = "machine_zero\<lparr>m_id := ''n1'', m_cores_total := 4, m_probe_status := MACHINE_PROBING, m_enabled := True\<rparr>"
  have run: "registry_load (\<lambda>_. Some (JObject [(''machines'', JArray [JObject [(''id'', JString ''n1''),
       (''cores'', JNumber (Finite 4))], JObject [(''id'', JString ''n2'')]])])) (Some ''{}'') demo_registry = (1, [?m])"
    by (simp add: registry_load_def read_machine_def reject_machine_def copy_string_def read_int_def
        registry_contains_def MAX_MACHINES_def machine_zero_def safe_machine_text_def safe_machine_char_def
        less_eq_char_def)
  from registry_load_correct [OF run] show ?thesis using run by (auto simp: machine_zero_def)
qed

text \<open>
  In every state the registry reaches from an empty table, through loads, upserts of a
  configuration, removals, reservations, releases and probe results in any order, identifiers
  are unique, the table has room, and every machine's reserved resources are non-negative and,
  together with what it keeps for itself, within its total.
\<close>

theorem registry_invariant:
  assumes "registry_step\<^sup>*\<^sup>* [] reg"
  shows "distinct (map m_id reg) \<and> length reg \<le> MAX_MACHINES \<and>
    (\<forall>m \<in> set reg. 0 \<le> reserved m \<and> reserved m + kept m \<le> total m)"
proof -
  from assms have "registry_ok reg"
    by (induction rule: rtranclp_induct) (auto intro: registry_step_ok)
  then show ?thesis by (auto simp: registry_ok_def machine_ok_def)
qed

theorem registry_invariant_witness:
  "registry_step\<^sup>*\<^sup>* [] [demo_machine ''n1''] \<and>
   distinct (map m_id [demo_machine ''n1'']) \<and> length [demo_machine ''n1''] \<le> MAX_MACHINES \<and>
   0 \<le> reserved (demo_machine ''n1'') \<and>
   reserved (demo_machine ''n1'') + kept (demo_machine ''n1'') \<le> total (demo_machine ''n1'')"
proof -
  have "registry_upsert (demo_machine ''n1'') [] = (0, [demo_machine ''n1''])"
    by (simp add: registry_upsert_def demo_machine_def machine_zero_def find_machine_def
        MAX_MACHINES_def safe_machine_text_def safe_machine_char_def less_eq_char_def)
  moreover have "config_only (demo_machine ''n1'')"
    by (simp add: config_only_def demo_machine_def machine_zero_def reserved_def zero_res_def
        total_def res_le_iff)
  ultimately have "registry_step\<^sup>*\<^sup>* [] [demo_machine ''n1'']"
    by (intro r_into_rtranclp step_upsert)
  with registry_invariant [OF this] show ?thesis by simp
qed

text \<open>
  \<open>registry_reserve\<close> succeeds exactly when the machine is known, enabled, online and has the
  amounts free above what it keeps for itself. It then adds exactly these amounts to that
  machine, every other machine is as before, and its \<open>int\<close> arithmetic stays within 32
  bits; otherwise the result is -1 and nothing changes.
\<close>

theorem registry_reserve_correct:
  assumes "registry_ok reg" "registry_reserve mid c g ram disk reg = (r, reg')"
  shows "if \<exists>m. registry_get_copy reg mid = Some m \<and> m_enabled m \<and> m_probe_status m = MACHINE_ONLINE \<and>
              0 \<le> Res c g ram disk \<and> reserved m + Res c g ram disk + kept m \<le> total m
     then r = 0 \<and>
       (\<exists>m. registry_get_copy reg mid = Some m \<and>
            registry_get_copy reg' = (registry_get_copy reg)(mid \<mapsto> add_reserved (Res c g ram disk) m) \<and>
            int32 (m_cores_reserved m + c) \<and> int32 (m_gpu_count_reserved m + g) \<and>
            int32 (m_ram_mb_reserved m + ram) \<and> int32 (m_disk_mb_reserved m + disk))
     else r = -1 \<and> reg' = reg"
proof -
  let ?v = "Res c g ram disk"
  have vec: "reserve_vec mid ?v reg = (r, reg')" using assms(2) by (simp add: reserve_vec_def)
  show ?thesis
  proof (cases "r = 0")
    case True
    then obtain m where m: "registry_get_copy reg mid = Some m" "0 \<le> ?v" "fits ?v m"
      "registry_get_copy reg' = (registry_get_copy reg)(mid \<mapsto> add_reserved ?v m)"
      using rs.reserve_granted vec by blast
    have "machine_ok m" using registry_ok_get [OF assms(1) m(1)] .
    then have "0 \<le> reserved m + ?v \<and>
        reserved m + ?v \<le> Res (2 ^ 31 - 1) (2 ^ 31 - 1) (2 ^ 31 - 1) (2 ^ 31 - 1)"
      using m(2,3) by (auto simp: machine_ok_def fits_def res_le_iff)
    then have "int32 (m_cores_reserved m + c) \<and> int32 (m_gpu_count_reserved m + g) \<and>
        int32 (m_ram_mb_reserved m + ram) \<and> int32 (m_disk_mb_reserved m + disk)"
      by (auto simp: int32_def res_le_iff)
    then show ?thesis using True m by (auto simp: fits_def usable_def)
  next
    case False
    then have "r = -1 \<and> reg' = reg" using reserve_vec_fail [OF vec] by simp
    moreover have "\<not> (\<exists>m. registry_get_copy reg mid = Some m \<and> m_enabled m \<and>
        m_probe_status m = MACHINE_ONLINE \<and> 0 \<le> ?v \<and> reserved m + ?v + kept m \<le> total m)"
      using rs.reserve_fits [of reg mid _ ?v] vec False by (fastforce simp: fits_def usable_def)
    ultimately show ?thesis by simp
  qed
qed

theorem registry_reserve_correct_witness:
  "registry_ok demo_registry \<and> (\<exists>r reg'.
     registry_reserve ''n2'' 7 1 100 0 demo_registry = (r, reg') \<and> r = 0 \<and>
     registry_get_copy reg' ''n2'' = Some (add_reserved (Res 7 1 100 0) (demo_machine ''n2'')) \<and>
     registry_get_copy reg' ''n1'' = Some (demo_machine ''n1''))"
proof -
  obtain r reg' where r: "registry_reserve ''n2'' 7 1 100 0 demo_registry = (r, reg')" by force
  have g: "registry_get_copy demo_registry ''n2'' = Some (demo_machine ''n2'')"
    "registry_get_copy demo_registry ''n1'' = Some (demo_machine ''n1'')"
    by (simp_all add: demo_registry_simps)
  have "\<exists>m. registry_get_copy demo_registry ''n2'' = Some m \<and> m_enabled m \<and>
      m_probe_status m = MACHINE_ONLINE \<and> 0 \<le> Res 7 1 100 0 \<and>
      reserved m + Res 7 1 100 0 + kept m \<le> total m"
    unfolding g by (simp add: demo_machine_def machine_zero_def res_le_iff kept_def total_def)
  with registry_reserve_correct [OF demo_registry_ok r] g show ?thesis
    using r demo_registry_ok by auto
qed

text \<open>
  A successful reservation followed by the release of the same amounts succeeds and gives
  back exactly the table there was before: the clamping at zero never takes effect.
\<close>

theorem registry_reserve_release:
  assumes "registry_ok reg" "registry_reserve mid c g ram disk reg = (0, reg1)"
  shows "registry_release mid c g ram disk reg1 = (0, reg)"
  using reserve_release_vec [OF assms(1), of mid "Res c g ram disk" reg1] assms(2)
  by (simp add: reserve_vec_def release_vec_def)

theorem registry_reserve_release_witness:
  "registry_ok demo_registry \<and> (\<exists>reg1. registry_reserve ''n1'' 2 0 64 8 demo_registry = (0, reg1) \<and>
     reg1 \<noteq> demo_registry \<and> registry_release ''n1'' 2 0 64 8 reg1 = (0, demo_registry))"
proof -
  have "\<exists>reg1. registry_reserve ''n1'' 2 0 64 8 demo_registry = (0, reg1) \<and> reg1 \<noteq> demo_registry"
    by (simp add: demo_registry_simps)
  with registry_reserve_release [OF demo_registry_ok] demo_registry_ok show ?thesis by blast
qed

text \<open>
  \<open>registry_upsert\<close> of an identifier already in the table is refused with -2 when the new
  totals do not cover what is reserved plus the new minimum, and otherwise replaces the
  configuration while the reservations and the probe state of the entry stay. Afterwards every
  machine still satisfies reserved plus kept within total.
\<close>

theorem registry_upsert_keeps_reservations:
  assumes "registry_ok reg" "config_only m" "registry_get_copy reg (m_id m) = Some old"
    "registry_upsert m reg = (r, reg')"
  shows "registry_ok reg' \<and>
    (r = 0 \<longrightarrow> (\<exists>new. registry_get_copy reg' = (registry_get_copy reg)(m_id m \<mapsto> new) \<and>
        reserved new = reserved old \<and> total new = total m \<and> kept new = kept m \<and>
        m_probe_status new = m_probe_status old \<and> reserved old + kept m \<le> total m)) \<and>
    (r \<noteq> 0 \<longrightarrow> reg' = reg) \<and>
    (\<not> reserved old + kept m \<le> total m \<longrightarrow> r \<noteq> 0)"
proof -
  obtain i where i: "find_machine reg (m_id m) = Some i" "reg ! i = old"
    using assms(3) by (auto simp: registry_get_copy_find)
  have "r \<noteq> 0 \<longrightarrow> reg' = reg" using assms(4)
    by (auto simp: registry_upsert_def Let_def split: if_splits option.splits)
  moreover have "r = 0 \<longrightarrow> registry_get_copy reg' = (registry_get_copy reg)(m_id m \<mapsto> reconfigured old m) \<and>
      reserved old + kept m \<le> total m"
    using registry_upsert_existing [OF i(1), of reg'] assms(4) i
    by (auto simp: registry_get_copy_update reconfigured_def set_reserved_def)
  moreover have "reserved (reconfigured old m) = reserved old" "total (reconfigured old m) = total m"
    "kept (reconfigured old m) = kept m" "m_probe_status (reconfigured old m) = m_probe_status old"
    by (simp_all add: reconfigured_def set_reserved_def reserved_def total_def kept_def)
  ultimately show ?thesis using registry_upsert_ok [OF assms(1,2,4)] by blast
qed

theorem registry_upsert_keeps_reservations_witness:
  "\<exists>reg'. registry_upsert (demo_machine ''n1''\<lparr>m_cores_total := 1\<rparr>)
      [add_reserved (Res 3 0 0 0) (demo_machine ''n1'')] = (-2, reg') \<and>
    reg' = [add_reserved (Res 3 0 0 0) (demo_machine ''n1'')] \<and> registry_ok reg'"
proof -
  let ?reg = "[add_reserved (Res 3 0 0 0) (demo_machine ''n1'')]"
  let ?m = "demo_machine ''n1''\<lparr>m_cores_total := 1\<rparr>"
  have ok: "registry_ok ?reg"
    by (simp add: registry_ok_def demo_machine_def machine_zero_def MAX_MACHINES_def add_reserved_def
      machine_ok_def reserved_def total_def kept_def res_le_iff safe_machine_text_def
      safe_machine_char_def less_eq_char_def)
  have c: "config_only ?m"
    by (simp add: config_only_def demo_machine_def machine_zero_def reserved_def zero_res_def
        total_def res_le_iff)
  have g: "registry_get_copy ?reg (m_id ?m) = Some (add_reserved (Res 3 0 0 0) (demo_machine ''n1''))"
    by (simp add: registry_get_copy_def find_machine_def demo_machine_def)
  have u: "registry_upsert ?m ?reg = (-2, ?reg)"
    by (simp add: registry_upsert_def demo_machine_def machine_zero_def find_machine_def add_reserved_def
        MAX_MACHINES_def safe_machine_text_def safe_machine_char_def less_eq_char_def)
  from registry_upsert_keeps_reservations [OF ok c g u] u show ?thesis by blast
qed

text \<open>
  \<open>registry_remove\<close> never removes a machine with resources reserved (-2), reports an unknown
  one (-1), and otherwise removes exactly that machine: the others remain, each once.
\<close>

theorem registry_remove_correct:
  assumes "registry_ok reg" "registry_remove mid reg = (r, reg')"
  shows "registry_ok reg' \<and>
    (case registry_get_copy reg mid of
       None \<Rightarrow> r = -1 \<and> reg' = reg
     | Some m \<Rightarrow> if reserved m \<noteq> 0 then r = -2 \<and> reg' = reg
                 else r = 0 \<and> mset reg' = mset reg - {#m#} \<and> registry_get_copy reg' mid = None)"
proof (cases "registry_get_copy reg mid")
  case None
  then show ?thesis using registry_remove_cases [OF assms(2)] assms(1) by simp
next
  case (Some m)
  have "0 \<le> reserved m" using registry_ok_get [OF assms(1) Some] by (simp add: machine_ok_def)
  then have pos: "0 < m_cores_reserved m \<or> 0 < m_gpu_count_reserved m \<or> 0 < m_ram_mb_reserved m \<or>
      0 < m_disk_mb_reserved m \<longleftrightarrow> reserved m \<noteq> 0"
    by (auto simp: res_le_iff reserved_def zero_res_def)
  have "mid \<notin> m_id ` set reg'" if gone: "mset reg' = mset reg - {#m#}"
  proof
    assume "mid \<in> m_id ` set reg'"
    then obtain m' where m': "m' \<in># mset reg - {#m#}" "m_id m' = mid" unfolding gone [symmetric] by auto
    then have "registry_get_copy reg mid = Some m'"
      using assms(1) by (auto simp: registry_get_copy_iff registry_ok_def dest: in_diffD)
    then have "m' = m" using Some by simp
    moreover have "distinct reg" using assms(1) by (auto simp: registry_ok_def distinct_map)
    ultimately show False using m'(1) by (simp add: distinct_count_atmost_1 in_diff_count split: if_splits)
  qed
  then show ?thesis
    using registry_remove_cases [OF assms(2)] registry_remove_ok [OF assms] Some pos
    by (simp add: registry_get_copy_None)
qed

theorem registry_remove_correct_witness:
  "registry_ok demo_registry \<and> registry_get_copy demo_registry ''n2'' = Some (demo_machine ''n2'') \<and>
   (\<exists>reg'. registry_remove ''n2'' demo_registry = (0, reg') \<and> registry_get_copy reg' ''n2'' = None \<and>
     mset reg' = mset demo_registry - {#demo_machine ''n2''#})"
proof -
  have g: "registry_get_copy demo_registry ''n2'' = Some (demo_machine ''n2'')"
    by (simp add: demo_registry_simps)
  obtain r reg' where r: "registry_remove ''n2'' demo_registry = (r, reg')" by force
  have "reserved (demo_machine ''n2'') = 0"
    by (simp add: demo_machine_def machine_zero_def reserved_def zero_res_def)
  then show ?thesis using registry_remove_correct [OF demo_registry_ok r] g r demo_registry_ok by auto
qed

text \<open>
  A format \<open>valid_pool_format\<close> accepts makes \<open>snprintf\<close> print exactly one integer between
  two fixed texts, so a pool's host name and address formats can consume no argument that was
  not passed.
\<close>

theorem valid_pool_format_safe:
  assumes "valid_pool_format fmt"
  shows "\<exists>pre c w post. \<forall>i. pool_printf fmt i = Some (pre @ pad_left c w (dec i) @ post)"
  using assms pool_format_scan_printf [of fmt 0] by (simp add: valid_pool_format_def prints_once_def)

theorem valid_pool_format_safe_witness:
  "valid_pool_format ''n%03d.a'' \<and> pool_printf ''n%03d.a'' 7 = Some ''n007.a'' \<and>
   \<not> valid_pool_format ''%s'' \<and> \<not> valid_pool_format ''%d%d'' \<and>
   (\<exists>pre c w post. \<forall>i. pool_printf ''n%03d.a'' i = Some (pre @ pad_left c w (dec i) @ post))"
proof (intro conjI)
  show v: "valid_pool_format ''n%03d.a''"
    by (simp add: valid_pool_format_def after_width_def is_digit_def less_eq_char_def numeral_2_eq_2)
  show "pool_printf ''n%03d.a'' 7 = Some ''n007.a''"
    by code_simp
  show "\<not> valid_pool_format ''%s''" "\<not> valid_pool_format ''%d%d''"
    by (simp_all add: valid_pool_format_def after_width_def is_digit_def less_eq_char_def numeral_2_eq_2)
  show "\<exists>pre c w post. \<forall>i. pool_printf ''n%03d.a'' i = Some (pre @ pad_left c w (dec i) @ post)"
    by (rule valid_pool_format_safe [OF v])
qed

end
