(* ===== verification/Allocator.thy ===== *)
theory Allocator
  imports Registry Db
begin

text \<open>
  The allocator of \<open>src/resources/allocator.c\<close>: the table of allocation records, one per running
  job, and the operations that reserve resources on machines of the registry, persist the
  reservation, and give it back. The list \<open>sy_allocs\<close> is \<open>s_allocs[0 .. s_alloc_count-1]\<close>, the
  slots of a record are \<open>slots[0 .. n_slots-1]\<close>. The allocator's lock makes each public operation
  one step. Outcomes of \<open>malloc\<close> and \<open>realloc\<close> are arguments.

  The invariant \<open>alloc_ok\<close> states that what the registry has reserved on every machine is exactly
  the sum of the slots of the records. It is shown for every operation here and every
  administrative operation of the registry, through the interface \<open>capacity_store\<close>.
\<close>

section \<open>Model\<close>

record slot =
  sl_machine_id :: string
  sl_cores :: int
  sl_gpu :: int
  sl_ram_mb :: int
  sl_disk_mb :: int

record alloc_record =
  ac_job_id :: string
  ac_slots :: "slot list"
  ac_active :: bool

record alloc_sys =
  sy_reg :: registry
  sy_allocs :: "alloc_record list"
  sy_alloc_capacity :: nat
  sy_db :: db
  sy_now :: int

definition ALLOC_MAX_MACHINES_PER_JOB :: nat where "ALLOC_MAX_MACHINES_PER_JOB = 16"

text \<open>\<open>memset(record, 0, sizeof(*record))\<close>\<close>

definition zero_record :: alloc_record where
  "zero_record = \<lparr> ac_job_id = [], ac_slots = [], ac_active = False \<rparr>"

definition non_negative :: "int \<Rightarrow> int" where
  "non_negative value = (if value > 0 then value else 0)"

definition free_cores :: "machine \<Rightarrow> int" where
  "free_cores m = non_negative (m_cores_total m - m_cores_reserved m - m_cores_min m)"

definition free_gpu :: "machine \<Rightarrow> int" where
  "free_gpu m = non_negative (m_gpu_count_total m - m_gpu_count_reserved m)"

definition free_ram :: "machine \<Rightarrow> int" where
  "free_ram m = non_negative (m_ram_mb_total m - m_ram_mb_reserved m - m_ram_mb_min m)"

definition free_disk :: "machine \<Rightarrow> int" where
  "free_disk m = non_negative (m_disk_mb_total m - m_disk_mb_reserved m - m_disk_mb_min m)"

definition machine_can_fit :: "machine \<Rightarrow> int \<Rightarrow> int \<Rightarrow> int \<Rightarrow> int \<Rightarrow> bool" where
  "machine_can_fit m cores gpu ram_mb disk_mb =
     (if \<not> m_enabled m \<or> m_probe_status m \<noteq> MACHINE_ONLINE then False
      else free_cores m \<ge> cores \<and> free_gpu m \<ge> gpu \<and> free_ram m \<ge> ram_mb \<and> free_disk m \<ge> disk_mb)"

text \<open>The index of the record acquired, with the table and its capacity.\<close>

definition alloc_record_acquire ::
  "bool \<Rightarrow> string \<Rightarrow> alloc_record list \<Rightarrow> nat \<Rightarrow> nat option \<times> alloc_record list \<times> nat" where
  "alloc_record_acquire realloc_ok job_id recs cap =
     (let new = zero_record\<lparr>ac_job_id := buf JOB_ID_LEN job_id, ac_active := True\<rparr> in
      if \<exists>a \<in> set recs. ac_active a \<and> strcmp (ac_job_id a) job_id = 0 then (None, recs, cap)
      else case find_idx (\<lambda>a. \<not> ac_active a) recs of
        Some i \<Rightarrow> (Some i, recs[i := new], cap)
      | None \<Rightarrow>
          if length recs = cap \<and> \<not> realloc_ok then (None, recs, cap)
          else (Some (length recs), recs @ [new],
                if length recs = cap then (if cap \<noteq> 0 then cap * 2 else 64) else cap))"

definition apply_slot :: "slot \<Rightarrow> int \<Rightarrow> registry \<Rightarrow> int \<times> registry" where
  "apply_slot slot direction reg =
     (if direction > 0 then
        registry_reserve (sl_machine_id slot) (sl_cores slot) (sl_gpu slot) (sl_ram_mb slot)
          (sl_disk_mb slot) reg
      else registry_release (sl_machine_id slot) (sl_cores slot) (sl_gpu slot) (sl_ram_mb slot)
             (sl_disk_mb slot) reg)"

fun persist_slots :: "int \<Rightarrow> string \<Rightarrow> slot list \<Rightarrow> db \<Rightarrow> int \<times> db" where
  "persist_slots now job_id [] d = db_commit d"
| "persist_slots now job_id (slot # slots) d =
     (let (r, d') = db_insert_allocation now job_id (sl_machine_id slot) (sl_cores slot) (sl_gpu slot)
                      (sl_ram_mb slot) (sl_disk_mb slot) d in
      if r \<noteq> 0 then (-1, snd (db_rollback d')) else persist_slots now job_id slots d')"

definition persist_record :: "int \<Rightarrow> alloc_record \<Rightarrow> db \<Rightarrow> int \<times> db" where
  "persist_record now record d =
     (let (b, d') = db_begin d in
      if b \<noteq> 0 then (-1, d') else persist_slots now (ac_job_id record) (ac_slots record) d')"

text \<open>\<open>for (i = 0; i < n; i++) apply_slot(&slots[i], -1);\<close>\<close>

fun release_slots :: "slot list \<Rightarrow> registry \<Rightarrow> registry" where
  "release_slots [] reg = reg"
| "release_slots (slot # slots) reg = release_slots slots (snd (apply_slot slot (-1) reg))"

definition discard_record :: "nat \<Rightarrow> 'a alloc_sys_scheme \<Rightarrow> 'a alloc_sys_scheme" where
  "discard_record i sys =
     sys\<lparr>sy_reg := release_slots (ac_slots (sy_allocs sys ! i)) (sy_reg sys),
         sy_allocs := (sy_allocs sys)[i := zero_record]\<rparr>"

definition alloc_can_fit :: "bool \<Rightarrow> int \<Rightarrow> int \<Rightarrow> int \<Rightarrow> int \<Rightarrow> 'a alloc_sys_scheme \<Rightarrow> bool" where
  "alloc_can_fit malloc_ok cores gpu ram_mb disk_mb sys =
     (case registry_snapshot malloc_ok (sy_reg sys) of
        None \<Rightarrow> False
      | Some machines \<Rightarrow> \<exists>m \<in> set machines. machine_can_fit m cores gpu ram_mb disk_mb)"

text \<open>The loop of \<open>alloc_diagnose\<close>: enabled, online, and the best free amount of each kind.\<close>

fun diagnose_scan :: "machine list \<Rightarrow> int \<times> int \<times> int \<times> int \<times> int \<times> int \<Rightarrow> int \<times> int \<times> int \<times> int \<times> int \<times> int" where
  "diagnose_scan [] acc = acc"
| "diagnose_scan (m # ms) (enabled, online, bc, bg, br, bd) =
     (if \<not> m_enabled m then diagnose_scan ms (enabled, online, bc, bg, br, bd)
      else if m_probe_status m \<noteq> MACHINE_ONLINE then diagnose_scan ms (enabled + 1, online, bc, bg, br, bd)
      else diagnose_scan ms (enabled + 1, online + 1,
             if free_cores m > bc then free_cores m else bc,
             if free_gpu m > bg then free_gpu m else bg,
             if free_ram m > br then free_ram m else br,
             if free_disk m > bd then free_disk m else bd))"

definition alloc_diagnose ::
  "bool \<Rightarrow> int \<Rightarrow> int \<Rightarrow> int \<Rightarrow> int \<Rightarrow> nat \<Rightarrow> 'a alloc_sys_scheme \<Rightarrow> string" where
  "alloc_diagnose malloc_ok req_cores req_gpu req_ram_mb req_disk_mb out_len sys =
     (case registry_snapshot malloc_ok (sy_reg sys) of
        None \<Rightarrow> buf out_len ''No machines registered (check provisioning.json)''
      | Some [] \<Rightarrow> buf out_len ''No machines registered (check provisioning.json)''
      | Some machines \<Rightarrow>
          let (enabled, online, bc, bg, br, bd) = diagnose_scan machines (0, 0, 0, 0, 0, 0) in
          if enabled = 0 then
            buf out_len (''All '' @ dec (int (length machines)) @ '' registered machine(s) are disabled'')
          else if online = 0 then buf out_len ''No enabled machine is online''
          else buf out_len (''No online machine fits: need cores='' @ dec req_cores @ '' gpu='' @ dec req_gpu @
                 '' ram='' @ dec req_ram_mb @ ''MB disk='' @ dec req_disk_mb @ ''MB; best free cores='' @
                 dec bc @ '' gpu='' @ dec bg @ '' ram='' @ dec br @ ''MB disk='' @ dec bd @ ''MB''))"

subsection \<open>One machine\<close>

definition reserve_single ::
  "bool \<Rightarrow> string \<Rightarrow> machine \<Rightarrow> int \<Rightarrow> int \<Rightarrow> int \<Rightarrow> int \<Rightarrow> 'a alloc_sys_scheme \<Rightarrow>
   int \<times> 'a alloc_sys_scheme" where
  "reserve_single realloc_ok job_id machine req_cores req_gpu req_ram_mb req_disk_mb sys =
     (let (i, recs, cap) = alloc_record_acquire realloc_ok job_id (sy_allocs sys) (sy_alloc_capacity sys);
          sys1 = sys\<lparr>sy_allocs := recs, sy_alloc_capacity := cap\<rparr> in
      case i of
        None \<Rightarrow> (-1, sys1)
      | Some i \<Rightarrow>
          let slot = \<lparr> sl_machine_id = buf 64 (m_id machine), sl_cores = req_cores, sl_gpu = req_gpu,
                       sl_ram_mb = req_ram_mb, sl_disk_mb = req_disk_mb \<rparr>;
              record = (recs ! i)\<lparr>ac_slots := [slot]\<rparr>;
              sys2 = sys1\<lparr>sy_allocs := recs[i := record]\<rparr>;
              (a, reg) = apply_slot slot 1 (sy_reg sys2) in
          if a \<noteq> 0 then (-1, sys2\<lparr>sy_allocs := recs[i := zero_record], sy_reg := reg\<rparr>)
          else let (p, d) = persist_record (sy_now sys) record (sy_db sys2);
                   sys3 = sys2\<lparr>sy_reg := reg, sy_db := d\<rparr> in
               if p \<noteq> 0 then (-1, discard_record i sys3) else (0, sys3))"

text \<open>\<open>Some m\<close>: the result 0 with \<open>out_machine_id\<close> set to \<open>m\<close>.\<close>

definition alloc_reserve ::
  "bool \<Rightarrow> bool \<Rightarrow> string \<Rightarrow> int \<Rightarrow> int \<Rightarrow> int \<Rightarrow> int \<Rightarrow> 'a alloc_sys_scheme \<Rightarrow>
   string option \<times> 'a alloc_sys_scheme" where
  "alloc_reserve malloc_ok realloc_ok job_id req_cores req_gpu req_ram_mb req_disk_mb sys =
     (if req_cores \<le> 0 then (None, sys)
      else case registry_snapshot malloc_ok (sy_reg sys) of
        None \<Rightarrow> (None, sys)
      | Some machines \<Rightarrow>
          (case find (\<lambda>m. machine_can_fit m req_cores req_gpu req_ram_mb req_disk_mb) machines of
             None \<Rightarrow> (None, sys)
           | Some chosen \<Rightarrow>
               let (r, sys') = reserve_single realloc_ok job_id chosen req_cores req_gpu req_ram_mb
                                 req_disk_mb sys in
               if r \<noteq> 0 then (None, sys') else (Some (buf 64 (m_id chosen)), sys')))"

definition alloc_reserve_on ::
  "bool \<Rightarrow> string \<Rightarrow> string \<Rightarrow> int \<Rightarrow> int \<Rightarrow> int \<Rightarrow> int \<Rightarrow> 'a alloc_sys_scheme \<Rightarrow>
   int \<times> 'a alloc_sys_scheme" where
  "alloc_reserve_on realloc_ok job_id target_machine_id req_cores req_gpu req_ram_mb req_disk_mb sys =
     (if req_cores \<le> 0 then (-1, sys)
      else case registry_get_copy (sy_reg sys) target_machine_id of
        None \<Rightarrow> (-1, sys)
      | Some machine \<Rightarrow>
          if machine_can_fit machine req_cores req_gpu req_ram_mb req_disk_mb
          then reserve_single realloc_ok job_id machine req_cores req_gpu req_ram_mb req_disk_mb sys
          else (-1, sys))"

definition alloc_release :: "string \<Rightarrow> 'a alloc_sys_scheme \<Rightarrow> int \<times> 'a alloc_sys_scheme" where
  "alloc_release job_id sys =
     (let (released_slots, sys1) =
            (case find_idx (\<lambda>a. ac_active a \<and> strcmp (ac_job_id a) job_id = 0) (sy_allocs sys) of
               None \<Rightarrow> (0, sys)
             | Some i \<Rightarrow> (length (ac_slots (sy_allocs sys ! i)), discard_record i sys));
          (db_result, d) = db_release_allocation (sy_now sys1) job_id (sy_db sys1);
          sys2 = sys1\<lparr>sy_db := d\<rparr>
      in (if released_slots > 0 then 0 else if db_result = 0 then 0 else -1, sys2))"

definition alloc_shutdown :: "'a alloc_sys_scheme \<Rightarrow> 'a alloc_sys_scheme" where
  "alloc_shutdown sys = sys\<lparr>sy_allocs := [], sy_alloc_capacity := 0\<rparr>"

subsection \<open>Several machines\<close>

fun multi_candidates :: "int \<Rightarrow> machine list \<Rightarrow> machine list \<Rightarrow> int \<Rightarrow> machine list \<times> int" where
  "multi_candidates req_cores [] cands available = (cands, available)"
| "multi_candidates req_cores (m # ms) cands available =
     (if length cands \<ge> ALLOC_MAX_MACHINES_PER_JOB then (cands, available)
      else if \<not> m_enabled m \<or> m_probe_status m \<noteq> MACHINE_ONLINE \<or> free_cores m \<le> 0
        then multi_candidates req_cores ms cands available
      else let cands' = cands @ [m]; available' = available + free_cores m in
           if available' \<ge> req_cores then (cands', available')
           else multi_candidates req_cores ms cands' available')"

text \<open>\<open>(total + n - 1) / n\<close>, truncating.\<close>

definition share :: "int \<Rightarrow> int \<Rightarrow> int" where
  "share amount n = (let v = amount + n - 1 in if v \<ge> 0 then v div n else - ((- v) div n))"

definition alloc_can_fit_multi ::
  "bool \<Rightarrow> int \<Rightarrow> int \<Rightarrow> int \<Rightarrow> int \<Rightarrow> 'a alloc_sys_scheme \<Rightarrow> int" where
  "alloc_can_fit_multi malloc_ok req_cores req_gpu req_ram_mb req_disk_mb sys =
     (if req_gpu > 0 then 0
      else let machines = (case registry_snapshot malloc_ok (sy_reg sys) of None \<Rightarrow> [] | Some ms \<Rightarrow> ms);
               (cands, available) = multi_candidates req_cores machines [] 0 in
           if available < req_cores \<or> cands = [] then 0
           else let n = int (length cands); ram_per = share req_ram_mb n; disk_per = share req_disk_mb n in
                if \<exists>m \<in> set cands. free_ram m < ram_per \<or> free_disk m < disk_per then 0 else n)"

text \<open>The loop that spreads the cores over the machines in order.\<close>

fun multi_slots :: "machine list \<Rightarrow> slot list \<Rightarrow> int \<Rightarrow> slot list \<times> int" where
  "multi_slots [] slots remaining = (slots, remaining)"
| "multi_slots (m # ms) slots remaining =
     (if length slots < ALLOC_MAX_MACHINES_PER_JOB \<and> remaining > 0 then
        if \<not> m_enabled m \<or> m_probe_status m \<noteq> MACHINE_ONLINE \<or> free_cores m \<le> 0
        then multi_slots ms slots remaining
        else let c = (if free_cores m < remaining then free_cores m else remaining)
             in multi_slots ms (slots @ [\<lparr> sl_machine_id = buf 64 (m_id m), sl_cores = c, sl_gpu = 0,
                                          sl_ram_mb = 0, sl_disk_mb = 0 \<rparr>]) (remaining - c)
      else (slots, remaining))"

text \<open>\<open>None\<close> when some machine lacks its share of memory or disk.\<close>

fun multi_fill :: "machine list \<Rightarrow> int \<Rightarrow> int \<Rightarrow> slot list \<Rightarrow> slot list option" where
  "multi_fill machines ram_per disk_per [] = Some []"
| "multi_fill machines ram_per disk_per (slot # slots) =
     (case find (\<lambda>m. strcmp (m_id m) (sl_machine_id slot) = 0) machines of
        None \<Rightarrow> None
      | Some m \<Rightarrow>
          if free_ram m < ram_per \<or> free_disk m < disk_per then None
          else map_option ((#) (slot\<lparr>sl_ram_mb := ram_per, sl_disk_mb := disk_per\<rparr>))
                 (multi_fill machines ram_per disk_per slots))"

text \<open>The slots applied so far are given back when one is refused.\<close>

fun apply_all :: "slot list \<Rightarrow> slot list \<Rightarrow> registry \<Rightarrow> bool \<times> registry" where
  "apply_all applied [] reg = (True, reg)"
| "apply_all applied (slot # slots) reg =
     (let (r, reg') = apply_slot slot 1 reg in
      if r \<noteq> 0 then (False, release_slots applied reg')
      else apply_all (applied @ [slot]) slots reg')"

text \<open>The identifiers joined by commas into \<open>char[1024]\<close>; \<open>None\<close> when they do not fit.\<close>

fun join_ids :: "bool \<Rightarrow> string list \<Rightarrow> string \<Rightarrow> string option" where
  "join_ids first [] acc = Some acc"
| "join_ids first (i # ids) acc =
     (let w = (if first then [] else '','') @ i in
      if length w \<ge> 1024 - length acc then None else join_ids False ids (acc @ w))"

definition alloc_reserve_multi ::
  "bool \<Rightarrow> bool \<Rightarrow> string \<Rightarrow> int \<Rightarrow> int \<Rightarrow> int \<Rightarrow> int \<Rightarrow> 'a alloc_sys_scheme \<Rightarrow>
   (string \<times> int) option \<times> 'a alloc_sys_scheme" where
  "alloc_reserve_multi malloc_ok realloc_ok job_id req_cores req_gpu req_ram_mb req_disk_mb sys =
     (if req_gpu > 0 \<or> req_cores \<le> 0 then (None, sys)
      else
        let (i, recs, cap) = alloc_record_acquire realloc_ok job_id (sy_allocs sys) (sy_alloc_capacity sys);
            sys1 = sys\<lparr>sy_allocs := recs, sy_alloc_capacity := cap\<rparr> in
        case (i, registry_snapshot malloc_ok (sy_reg sys)) of
          (None, _) \<Rightarrow> (None, sys1)
        | (Some i, None) \<Rightarrow> (None, sys1\<lparr>sy_allocs := recs[i := zero_record]\<rparr>)
        | (Some i, Some machines) \<Rightarrow>
            let forget = sys1\<lparr>sy_allocs := recs[i := zero_record]\<rparr>;
                (slots, remaining) = multi_slots machines [] req_cores in
            if remaining > 0 \<or> slots = [] then (None, forget)
            else let n = int (length slots) in
              case multi_fill machines (share req_ram_mb n) (share req_disk_mb n) slots of
                None \<Rightarrow> (None, forget)
              | Some slots' \<Rightarrow>
                  let (ok, reg) = apply_all [] slots' (sy_reg sys) in
                  if \<not> ok then (None, forget\<lparr>sy_reg := reg\<rparr>)
                  else let record = (recs ! i)\<lparr>ac_slots := slots'\<rparr>;
                           (p, d) = persist_record (sy_now sys) record (sy_db sys);
                           sys2 = sys1\<lparr>sy_allocs := recs[i := record], sy_reg := reg, sy_db := d\<rparr> in
                    if p \<noteq> 0 then (None, discard_record i sys2)
                    else case join_ids True (map sl_machine_id slots') [] of
                      None \<Rightarrow>
                        let sys3 = discard_record i sys2;
                            (q, d') = db_release_allocation (sy_now sys3) job_id (sy_db sys3)
                        in (None, sys3\<lparr>sy_db := d'\<rparr>)
                    | Some ids \<Rightarrow> (Some (ids, n), sys2))"

section \<open>Accounting\<close>

definition slot_vec :: "slot \<Rightarrow> res" where
  "slot_vec s = Res (sl_cores s) (sl_gpu s) (sl_ram_mb s) (sl_disk_mb s)"

text \<open>What a list of slots takes on one machine, and all records together.\<close>

definition slots_on :: "string \<Rightarrow> slot list \<Rightarrow> res" where
  "slots_on mid ss = sum_list (map slot_vec (filter (\<lambda>s. sl_machine_id s = mid) ss))"

definition alloc_sum :: "alloc_record list \<Rightarrow> string \<Rightarrow> res" where
  "alloc_sum recs mid = sum_list (map (\<lambda>a. slots_on mid (ac_slots a)) recs)"

text \<open>The allocation map that the records represent.\<close>

definition held :: "alloc_record list \<Rightarrow> string \<Rightarrow> slot list option" where
  "held recs job_id = map_option ac_slots (find (\<lambda>a. ac_active a \<and> ac_job_id a = job_id) recs)"

definition record_ok :: "alloc_record \<Rightarrow> bool" where
  "record_ok a \<longleftrightarrow> (\<forall>s \<in> set (ac_slots a). 0 \<le> slot_vec s) \<and> (\<not> ac_active a \<longrightarrow> ac_slots a = [])"

definition records_ok :: "alloc_record list \<Rightarrow> bool" where
  "records_ok recs \<longleftrightarrow> (\<forall>a \<in> set recs. record_ok a) \<and> distinct (map ac_job_id (filter ac_active recs))"

definition alloc_ok :: "'a alloc_sys_scheme \<Rightarrow> bool" where
  "alloc_ok sys \<longleftrightarrow> registry_ok (sy_reg sys) \<and> records_ok (sy_allocs sys) \<and> db_idle (sy_db sys) \<and>
     (\<forall>mid. rs.used (sy_reg sys) mid = alloc_sum (sy_allocs sys) mid)"

lemma apply_slot_vec:
  "apply_slot s 1 = reserve_vec (sl_machine_id s) (slot_vec s)"
  "apply_slot s (-1) = release_vec (sl_machine_id s) (slot_vec s)"
  by (auto simp: apply_slot_def reserve_vec_def release_vec_def slot_vec_def fun_eq_iff)

lemma slots_on_Nil [simp]: "slots_on mid [] = 0"
  by (simp add: slots_on_def)

lemma slots_on_Cons [simp]:
  "slots_on mid (s # ss) = (if sl_machine_id s = mid then slot_vec s else 0) + slots_on mid ss"
  by (simp add: slots_on_def)

lemma slots_on_nonneg: "\<forall>s \<in> set ss. 0 \<le> slot_vec s \<Longrightarrow> 0 \<le> slots_on mid ss"
  by (induction ss) auto

lemma alloc_sum_append [simp]: "alloc_sum (recs @ [a]) mid = alloc_sum recs mid + slots_on mid (ac_slots a)"
  by (simp add: alloc_sum_def)

lemma sum_list_update_group:
  fixes f :: "'b \<Rightarrow> 'a :: ab_group_add"
  assumes "i < length xs"
  shows "sum_list (map f (xs[i := y])) = sum_list (map f xs) - f (xs ! i) + f y"
  using assms
proof (induction xs arbitrary: i)
  case (Cons x xs)
  then show ?case by (cases i) (auto simp: algebra_simps)
qed simp

lemma alloc_sum_update:
  "i < length recs \<Longrightarrow> alloc_sum (recs[i := a]) mid =
     alloc_sum recs mid - slots_on mid (ac_slots (recs ! i)) + slots_on mid (ac_slots a)"
  by (simp add: alloc_sum_def sum_list_update_group)

lemma slots_le_alloc_sum:
  assumes "records_ok recs" "a \<in> set recs"
  shows "slots_on mid (ac_slots a) \<le> alloc_sum recs mid"
proof -
  have "\<forall>b \<in> set recs. 0 \<le> slots_on mid (ac_slots b)"
    using assms(1) by (auto simp: records_ok_def record_ok_def intro: slots_on_nonneg)
  then have "slots_on mid (ac_slots a) \<le> sum_list (map (\<lambda>a. slots_on mid (ac_slots a)) recs)"
    using assms(2)
  proof (induction recs)
    case (Cons b bs)
    then have nn: "0 \<le> slots_on mid (ac_slots b)"
      "0 \<le> sum_list (map (\<lambda>a. slots_on mid (ac_slots a)) bs)" by (auto intro!: sum_list_nonneg)
    show ?case
    proof (cases "a = b")
      case True
      then show ?thesis using nn by simp
    next
      case False
      then have "slots_on mid (ac_slots a) \<le> sum_list (map (\<lambda>a. slots_on mid (ac_slots a)) bs)"
        using Cons by auto
      then show ?thesis using nn by (simp add: add_increasing)
    qed
  qed simp
  then show ?thesis by (simp add: alloc_sum_def)
qed

lemma release_slots_used:
  assumes "registry_ok reg" "\<forall>s \<in> set ss. 0 \<le> slot_vec s" "\<And>mid. slots_on mid ss \<le> rs.used reg mid"
  shows "registry_ok (release_slots ss reg) \<and>
    (\<forall>mid. rs.used (release_slots ss reg) mid = rs.used reg mid - slots_on mid ss)"
  using assms
proof (induction ss arbitrary: reg)
  case (Cons s ss)
  let ?m = "sl_machine_id s" and ?v = "slot_vec s"
  obtain r reg' where r: "release_vec ?m ?v reg = (r, reg')" by force
  have v: "0 \<le> ?v" "?v \<le> rs.used reg ?m"
    using Cons.prems(2) Cons.prems(3) [of ?m] slots_on_nonneg [of ss ?m]
    by (auto intro: order_trans [rotated] simp: add_increasing2)
  note u = rs.release_used [OF v r]
  have "slots_on mid ss \<le> rs.used reg' mid" for mid
    using Cons.prems(3) [of mid] by (auto simp: u algebra_simps split: if_splits)
  moreover have "registry_ok reg'" using rs.release_invar [OF Cons.prems(1) r] .
  ultimately have "registry_ok (release_slots ss reg') \<and>
    (\<forall>mid. rs.used (release_slots ss reg') mid = rs.used reg' mid - slots_on mid ss)"
    using Cons.IH Cons.prems(2) by simp
  then show ?case using r by (auto simp: apply_slot_vec u algebra_simps)
qed simp

subsection \<open>The records\<close>

lemma find_list_update_other:
  "\<not> P (xs ! i) \<Longrightarrow> \<not> P y \<Longrightarrow> find P (xs[i := y]) = find P xs"
proof (induction xs arbitrary: i)
  case (Cons x xs)
  then show ?case by (cases i) auto
qed simp

lemma find_list_update_only:
  "i < length xs \<Longrightarrow> \<forall>x \<in> set xs. \<not> P x \<Longrightarrow> P y \<Longrightarrow> find P (xs[i := y]) = Some y"
proof (induction xs arbitrary: i)
  case (Cons x xs)
  then show ?case by (cases i) auto
qed simp

lemma filter_update_inactive:
  "i < length xs \<Longrightarrow> \<not> P (xs ! i) \<Longrightarrow> \<exists>us vs. filter P xs = us @ vs \<and>
     (\<forall>y. filter P (xs[i := y]) = us @ (if P y then [y] else []) @ vs)"
proof (induction xs arbitrary: i)
  case (Cons x xs)
  show ?case
  proof (cases i)
    case 0
    then show ?thesis using Cons.prems by (intro exI [of _ "[]"] exI [of _ "filter P xs"]) auto
  next
    case (Suc k)
    with Cons.prems have "k < length xs" "\<not> P (xs ! k)" by auto
    then obtain us vs where "filter P xs = us @ vs"
      "\<forall>y. filter P (xs[k := y]) = us @ (if P y then [y] else []) @ vs" using Cons.IH by blast
    with Suc show ?thesis
      by (intro exI [of _ "(if P x then [x] else []) @ us"] exI [of _ vs]) auto
  qed
qed simp

lemma filter_update_drop:
  assumes "i < length xs" "\<not> P y"
  shows "if P (xs ! i) then \<exists>us vs. filter P xs = us @ xs ! i # vs \<and> filter P (xs[i := y]) = us @ vs
    else filter P (xs[i := y]) = filter P xs"
proof -
  have "filter P xs = filter P (take i xs @ xs ! i # drop (Suc i) xs)"
    by (rule arg_cong [OF id_take_nth_drop [OF assms(1)]])
  then have "filter P xs = filter P (take i xs) @ (if P (xs ! i) then [xs ! i] else []) @ filter P (drop (Suc i) xs)"
    by (simp only: filter_append filter.simps append_Cons append_Nil split: if_split) blast
  moreover have "filter P (xs[i := y]) = filter P (take i xs) @ filter P (drop (Suc i) xs)"
    using assms by (simp add: upd_conv_take_nth_drop)
  ultimately show ?thesis by auto
qed

text \<open>
  What \<open>alloc_record_acquire\<close> gives: an entry that was unused or is new, for a job that holds
  nothing; any record may then be put there.
\<close>

definition placed :: "alloc_record list \<Rightarrow> nat \<Rightarrow> alloc_record list \<Rightarrow> bool" where
  "placed recs i recs' \<longleftrightarrow>
     (i < length recs \<and> \<not> ac_active (recs ! i) \<and> (\<forall>a. recs'[i := a] = recs[i := a])) \<or>
     (\<forall>a. recs'[i := a] = recs @ [a])"

lemma alloc_record_acquire_Some:
  assumes "alloc_record_acquire realloc_ok job_id recs cap = (Some i, recs', cap')"
  shows "i < length recs' \<and>
    recs' ! i = zero_record\<lparr>ac_job_id := buf JOB_ID_LEN job_id, ac_active := True\<rparr> \<and>
    (\<forall>a \<in> set recs. \<not> (ac_active a \<and> ac_job_id a = job_id)) \<and> placed recs i recs'"
proof -
  have none: "\<not> (\<exists>a \<in> set recs. ac_active a \<and> strcmp (ac_job_id a) job_id = 0)"
    using assms unfolding alloc_record_acquire_def Let_def by (simp split: if_splits)
  show ?thesis
  proof (cases "find_idx (\<lambda>a. \<not> ac_active a) recs")
    case None
    then have "i = length recs \<and>
        recs' = recs @ [zero_record\<lparr>ac_job_id := buf JOB_ID_LEN job_id, ac_active := True\<rparr>]"
      using assms none unfolding alloc_record_acquire_def Let_def by (simp split: if_split_asm)
    then show ?thesis using none by (simp add: placed_def)
  next
    case (Some k)
    then have "i = k \<and>
        recs' = recs[k := zero_record\<lparr>ac_job_id := buf JOB_ID_LEN job_id, ac_active := True\<rparr>]"
      using assms none unfolding alloc_record_acquire_def Let_def by (auto split: if_split_asm)
    then show ?thesis using none find_idx_SomeD [OF Some] by (simp add: placed_def)
  qed
qed

lemma alloc_record_acquire_None:
  "alloc_record_acquire realloc_ok job_id recs cap = (None, recs', cap') \<Longrightarrow> recs' = recs"
  by (auto simp: alloc_record_acquire_def Let_def split: if_splits option.splits)

lemma held_None_iff: "held recs j = None \<longleftrightarrow> (\<forall>a \<in> set recs. \<not> (ac_active a \<and> ac_job_id a = j))"
  by (auto simp: held_def find_None_iff)

lemma placed_set: "placed recs i recs' \<Longrightarrow> b \<in> set (recs'[i := a]) \<Longrightarrow> b = a \<or> b \<in> set recs"
  using set_update_subset_insert [of recs i a] by (auto simp: placed_def)

lemma placed_sum:
  assumes "placed recs i recs'" "records_ok recs"
  shows "alloc_sum (recs'[i := a]) mid = alloc_sum recs mid + slots_on mid (ac_slots a)"
proof -
  have "i < length recs \<Longrightarrow> \<not> ac_active (recs ! i) \<Longrightarrow> ac_slots (recs ! i) = []"
    using assms(2) by (simp add: records_ok_def record_ok_def)
  then show ?thesis using assms(1) by (auto simp: placed_def alloc_sum_update)
qed

lemma placed_held_zero:
  assumes "placed recs i recs'"
  shows "held (recs'[i := zero_record]) = held recs"
  using assms
  by (auto simp: placed_def held_def fun_eq_iff find_list_update_other zero_record_def find_append
      split: option.splits)

lemma placed_held:
  assumes "placed recs i recs'" "held recs j = None" "ac_active a" "ac_job_id a = j"
  shows "held (recs'[i := a]) = (held recs)(j \<mapsto> ac_slots a)"
proof
  fix k
  show "held (recs'[i := a]) k = ((held recs)(j \<mapsto> ac_slots a)) k"
  proof (cases "k = j")
    case True
    have "\<forall>b \<in> set recs. \<not> (ac_active b \<and> ac_job_id b = j)" using assms(2) by (simp add: held_None_iff)
    then show ?thesis using True assms
      by (auto simp: placed_def held_def find_list_update_only find_append split: option.splits)
  next
    case False
    then show ?thesis using assms
      by (auto simp: placed_def held_def find_list_update_other find_append split: option.splits)
  qed
qed

lemma placed_ok:
  assumes "placed recs i recs'" "records_ok recs" "record_ok a" "ac_active a \<Longrightarrow> held recs (ac_job_id a) = None"
  shows "records_ok (recs'[i := a])"
proof -
  have all: "\<forall>b \<in> set (recs'[i := a]). record_ok b"
    using placed_set [OF assms(1)] assms(2,3) by (auto simp: records_ok_def)
  have new: "ac_active a \<Longrightarrow> ac_job_id a \<notin> ac_job_id ` set (filter ac_active recs)"
    using assms(4) by (auto simp: held_None_iff)
  from assms(1) consider
    (slot) "i < length recs" "\<not> ac_active (recs ! i)" "recs'[i := a] = recs[i := a]"
    | (app) "recs'[i := a] = recs @ [a]" by (auto simp: placed_def)
  then have "distinct (map ac_job_id (filter ac_active (recs'[i := a])))"
  proof cases
    case slot
    then obtain us vs where uv: "filter ac_active recs = us @ vs"
      "\<forall>y. filter ac_active (recs[i := y]) = us @ (if ac_active y then [y] else []) @ vs"
      using filter_update_inactive [of i recs ac_active] by blast
    then show ?thesis using slot new assms(2) by (auto simp: records_ok_def)
  next
    case app
    then show ?thesis using new assms(2) by (auto simp: records_ok_def)
  qed
  then show ?thesis using all by (simp add: records_ok_def)
qed

subsection \<open>Persisting a record\<close>

definition alloc_row_of :: "int \<Rightarrow> string \<Rightarrow> slot \<Rightarrow> alloc_row" where
  "alloc_row_of now job_id s = \<lparr> al_job_id = job_id, al_machine_id = sl_machine_id s, al_cores = sl_cores s,
     al_gpu = sl_gpu s, al_ram_mb = sl_ram_mb s, al_disk_mb = sl_disk_mb s, al_allocated_at = now,
     al_released_at = None \<rparr>"

text \<open>The allocation table after the inserts, each replacing the row with its key.\<close>

fun insert_alloc_rows :: "int \<Rightarrow> string \<Rightarrow> slot list \<Rightarrow> alloc_row list \<Rightarrow> alloc_row list" where
  "insert_alloc_rows now job_id [] rows = rows"
| "insert_alloc_rows now job_id (s # ss) rows = insert_alloc_rows now job_id ss
     (filter (\<lambda>a. \<not> (al_job_id a = job_id \<and> al_machine_id a = sl_machine_id s)) rows @
      [alloc_row_of now job_id s])"

lemma db_insert_allocation_0:
  assumes "db_insert_allocation now j mid c g ram disk d = (0, d')"
  shows "db_tables d' = (db_tables d)\<lparr>t_allocations := insert_alloc_rows now j
    [\<lparr>sl_machine_id = mid, sl_cores = c, sl_gpu = g, sl_ram_mb = ram, sl_disk_mb = disk\<rparr>]
    (t_allocations (db_tables d))\<rparr>"
  using sql_run_0D [OF assms [unfolded db_insert_allocation_def]] by (auto simp: alloc_row_of_def)

lemma persist_slots_cases:
  assumes "in_txn t d" "persist_slots now j ss d = (r, d')"
  shows "db_idle d' \<and>
    (r = -1 \<and> db_tables d' = t \<or>
     r = 0 \<and> db_tables d' = (db_tables d)\<lparr>t_allocations := insert_alloc_rows now j ss (t_allocations (db_tables d))\<rparr>)"
  using assms
proof (induction ss arbitrary: d)
  case Nil
  then show ?case using db_commit_cases [of t d r d'] by auto
next
  case (Cons s ss)
  obtain q d1 where q: "db_insert_allocation now j (sl_machine_id s) (sl_cores s) (sl_gpu s)
      (sl_ram_mb s) (sl_disk_mb s) d = (q, d1)" by force
  then have txn: "in_txn t d1"
    using in_txn_run [OF Cons.prems(1)] by (simp add: db_insert_allocation_def)
  show ?case
  proof (cases "q = 0")
    case True
    then show ?thesis
      using Cons.IH [OF txn] Cons.prems(2) q db_insert_allocation_0 [OF q [unfolded True]]
      by (simp add: alloc_row_of_def)
  next
    case False
    obtain z d2 where z: "db_rollback d1 = (z, d2)" by force
    then show ?thesis using False q Cons.prems(2) db_rollback_restores [OF txn z] by simp
  qed
qed

lemma persist_record_cases:
  assumes "db_idle d" "persist_record now a d = (r, d')"
  shows "db_idle d' \<and>
    (r = -1 \<and> db_tables d' = db_tables d \<or>
     r = 0 \<and> db_tables d' = (db_tables d)\<lparr>t_allocations :=
        insert_alloc_rows now (ac_job_id a) (ac_slots a) (t_allocations (db_tables d))\<rparr>)"
proof -
  obtain b d1 where b: "db_begin d = (b, d1)" by force
  show ?thesis
    using db_begin_cases [OF assms(1) b] assms(2) b persist_slots_cases [of "db_tables d" d1 now]
    by (auto simp: persist_record_def split: if_splits)
qed

subsection \<open>Reserving on one machine\<close>

lemma record_ok_zero [simp]: "record_ok zero_record"
  by (simp add: record_ok_def zero_record_def)

lemma zero_record_sel [simp]: "ac_slots zero_record = []" "ac_active zero_record = False"
  by (simp_all add: zero_record_def)

text \<open>Nothing of what the operations are judged by has changed.\<close>

definition same_state :: "'a alloc_sys_scheme \<Rightarrow> 'a alloc_sys_scheme \<Rightarrow> bool" where
  "same_state sys sys' \<longleftrightarrow> sy_reg sys' = sy_reg sys \<and> held (sy_allocs sys') = held (sy_allocs sys) \<and>
     db_tables (sy_db sys') = db_tables (sy_db sys)"

definition single_slot :: "string \<Rightarrow> int \<Rightarrow> int \<Rightarrow> int \<Rightarrow> int \<Rightarrow> slot" where
  "single_slot mid c g ram disk =
     \<lparr> sl_machine_id = buf 64 mid, sl_cores = c, sl_gpu = g, sl_ram_mb = ram, sl_disk_mb = disk \<rparr>"

definition reserved_state :: "string \<Rightarrow> slot \<Rightarrow> 'a alloc_sys_scheme \<Rightarrow> 'a alloc_sys_scheme \<Rightarrow> bool" where
  "reserved_state job_id s sys sys' \<longleftrightarrow>
     held (sy_allocs sys) job_id = None \<and>
     held (sy_allocs sys') = (held (sy_allocs sys))(job_id \<mapsto> [s]) \<and>
     reserve_vec (sl_machine_id s) (slot_vec s) (sy_reg sys) = (0, sy_reg sys') \<and>
     db_tables (sy_db sys') = (db_tables (sy_db sys))\<lparr>t_allocations :=
       insert_alloc_rows (sy_now sys) job_id [s] (t_allocations (db_tables (sy_db sys)))\<rparr>"

lemma slot_vec_single: "slot_vec (single_slot mid c g ram disk) = Res c g ram disk"
  by (simp add: slot_vec_def single_slot_def)

lemma reserve_single_cases:
  assumes ok: "alloc_ok sys" and len: "length job_id < JOB_ID_LEN"
    and run: "reserve_single realloc_ok job_id m c g ram disk sys = (r, sys')"
  shows "alloc_ok sys' \<and>
    (r = -1 \<and> same_state sys sys' \<or>
     r = 0 \<and> reserved_state job_id (single_slot (m_id m) c g ram disk) sys sys')"
proof -
  let ?s = "single_slot (m_id m) c g ram disk"
  obtain io recs cap where acq: "alloc_record_acquire realloc_ok job_id (sy_allocs sys)
      (sy_alloc_capacity sys) = (io, recs, cap)" by (metis prod_cases3)
  have regs: "registry_ok (sy_reg sys)" "records_ok (sy_allocs sys)" "db_idle (sy_db sys)"
    and acc: "\<And>mid. rs.used (sy_reg sys) mid = alloc_sum (sy_allocs sys) mid"
    using ok by (auto simp: alloc_ok_def)
  show ?thesis
  proof (cases io)
    case None
    then show ?thesis using run acq ok alloc_record_acquire_None
      by (fastforce simp: reserve_single_def same_state_def alloc_ok_def)
  next
    case (Some i)
    note A = alloc_record_acquire_Some [OF acq [unfolded Some]]
    define rec where "rec = (recs ! i)\<lparr>ac_slots := [?s]\<rparr>"
    have rec: "ac_active rec" "ac_job_id rec = job_id" "ac_slots rec = [?s]"
      using A len by (auto simp: rec_def zero_record_def)
    have free: "held (sy_allocs sys) job_id = None" using A by (simp add: held_None_iff)
    have pl: "placed (sy_allocs sys) i recs" using A by simp
    have zok: "records_ok (recs[i := zero_record])" using placed_ok [OF pl regs(2), of zero_record] by simp
    obtain a reg where a: "apply_slot ?s 1 (sy_reg sys) = (a, reg)" by force
    obtain p d where p: "persist_record (sy_now sys) rec (sy_db sys) = (p, d)" by force
    have R: "reserve_single realloc_ok job_id m c g ram disk sys =
       (if a \<noteq> 0 then (-1, sys\<lparr>sy_alloc_capacity := cap, sy_allocs := recs[i := zero_record], sy_reg := reg\<rparr>)
        else if p \<noteq> 0 then (-1, discard_record i
            (sys\<lparr>sy_alloc_capacity := cap, sy_allocs := recs[i := rec], sy_reg := reg, sy_db := d\<rparr>))
        else (0, sys\<lparr>sy_alloc_capacity := cap, sy_allocs := recs[i := rec], sy_reg := reg, sy_db := d\<rparr>))"
      using a p acq Some by (simp add: reserve_single_def single_slot_def rec_def Let_def)
    have vec: "reserve_vec (sl_machine_id ?s) (slot_vec ?s) (sy_reg sys) = (a, reg)"
      using a by (simp add: apply_slot_vec)
    note P = persist_record_cases [OF regs(3) p]
    show ?thesis
    proof (cases "a = 0")
      case False
      then have "reg = sy_reg sys" using reserve_vec_fail [OF vec] by simp
      then show ?thesis using run R False regs acc zok placed_held_zero [OF pl] placed_sum [OF pl regs(2)]
        by (auto simp: alloc_ok_def same_state_def)
    next
      case True
      note vec0 = vec [unfolded True]
      have s0: "0 \<le> slot_vec ?s" using rs.reserve_granted [OF vec0] by blast
      show ?thesis
      proof (cases "p = 0")
        case False
        have "i < length recs" using A by simp
        moreover have "release_vec (sl_machine_id ?s) (slot_vec ?s) reg = (0, sy_reg sys)"
          by (rule reserve_release_vec [OF regs(1) vec0])
        ultimately show ?thesis
          using run R True False regs acc zok placed_held_zero [OF pl] placed_sum [OF pl regs(2)] P rec
          by (auto simp: alloc_ok_def same_state_def discard_record_def apply_slot_vec)
      next
        case p0: True
        have "records_ok (recs[i := rec])"
          using placed_ok [OF pl regs(2), of rec] rec free s0 by (simp add: record_ok_def)
        moreover have "rs.used reg mid = alloc_sum (recs[i := rec]) mid" for mid
          using rs.reserve_used [OF vec0] acc placed_sum [OF pl regs(2)] rec by auto
        moreover have "registry_ok reg" using rs.reserve_invar [OF regs(1) vec0] .
        ultimately show ?thesis
          using run R True p0 P rec placed_held [OF pl free rec(1,2)] free vec0
          by (auto simp: alloc_ok_def reserved_state_def)
      qed
    qed
  qed
qed

subsection \<open>The public operations\<close>

lemma machine_ok_free:
  assumes "machine_ok m"
  shows "free_cores m = m_cores_total m - m_cores_reserved m - m_cores_min m"
    "free_gpu m = m_gpu_count_total m - m_gpu_count_reserved m"
    "free_ram m = m_ram_mb_total m - m_ram_mb_reserved m - m_ram_mb_min m"
    "free_disk m = m_disk_mb_total m - m_disk_mb_reserved m - m_disk_mb_min m"
proof -
  have "reserved m + kept m \<le> total m" using assms by (simp add: machine_ok_def)
  then have "0 \<le> m_cores_total m - m_cores_reserved m - m_cores_min m"
    "0 \<le> m_gpu_count_total m - m_gpu_count_reserved m"
    "0 \<le> m_ram_mb_total m - m_ram_mb_reserved m - m_ram_mb_min m"
    "0 \<le> m_disk_mb_total m - m_disk_mb_reserved m - m_disk_mb_min m"
    by (simp_all add: res_le_iff total_def kept_def)
  then show "free_cores m = m_cores_total m - m_cores_reserved m - m_cores_min m"
    "free_gpu m = m_gpu_count_total m - m_gpu_count_reserved m"
    "free_ram m = m_ram_mb_total m - m_ram_mb_reserved m - m_ram_mb_min m"
    "free_disk m = m_disk_mb_total m - m_disk_mb_reserved m - m_disk_mb_min m"
    by (simp_all add: free_cores_def free_gpu_def free_ram_def free_disk_def non_negative_def)
qed

lemma machine_can_fit_fits:
  assumes "machine_ok m"
  shows "machine_can_fit m c g ram disk \<longleftrightarrow> fits (Res c g ram disk) m"
proof -
  have "reserved m + Res c g ram disk + kept m \<le> total m \<longleftrightarrow>
      free_cores m \<ge> c \<and> free_gpu m \<ge> g \<and> free_ram m \<ge> ram \<and> free_disk m \<ge> disk"
    unfolding machine_ok_free [OF assms] by (simp add: res_le_iff total_def kept_def algebra_simps)
  then show ?thesis unfolding machine_can_fit_def fits_def usable_def by (simp only: if_bool_eq_conj) blast
qed

lemma alloc_reserve_cases:
  assumes "alloc_reserve malloc_ok realloc_ok job_id c g ram disk sys = (out, sys')"
  shows "out = None \<and> sys' = sys \<or>
    (\<exists>m r. reserve_single realloc_ok job_id m c g ram disk sys = (r, sys') \<and> (out = None \<longleftrightarrow> r \<noteq> 0))"
proof (cases "c \<le> 0 \<or> registry_snapshot malloc_ok (sy_reg sys) = None")
  case True
  then show ?thesis using assms by (auto simp: alloc_reserve_def split: option.splits)
next
  case False
  then obtain ms where ms: "registry_snapshot malloc_ok (sy_reg sys) = Some ms" by auto
  show ?thesis
  proof (cases "find (\<lambda>m. machine_can_fit m c g ram disk) ms")
    case None
    then show ?thesis using assms False ms by (simp add: alloc_reserve_def)
  next
    case (Some m)
    obtain r s1 where r: "reserve_single realloc_ok job_id m c g ram disk sys = (r, s1)" by force
    then have "s1 = sys'" "out = None \<longleftrightarrow> r \<noteq> 0"
      using assms False ms Some by (auto simp: alloc_reserve_def split: if_splits)
    then show ?thesis using r by blast
  qed
qed

lemma alloc_reserve_on_cases:
  assumes "alloc_reserve_on realloc_ok job_id target c g ram disk sys = (r, sys')"
  shows "r = -1 \<and> sys' = sys \<or> (\<exists>m. registry_get_copy (sy_reg sys) target = Some m \<and>
    machine_can_fit m c g ram disk \<and> reserve_single realloc_ok job_id m c g ram disk sys = (r, sys'))"
  using assms by (auto simp: alloc_reserve_on_def split: option.splits if_splits)

lemma alloc_ok_ops:
  assumes "alloc_ok sys" "length job_id < JOB_ID_LEN"
  shows "alloc_reserve malloc_ok realloc_ok job_id c g ram disk sys = (o1, sys') \<Longrightarrow> alloc_ok sys'"
    "alloc_reserve_on realloc_ok job_id target c g ram disk sys = (o2, sys') \<Longrightarrow> alloc_ok sys'"
  using alloc_reserve_cases [of malloc_ok realloc_ok job_id c g ram disk sys o1 sys']
    alloc_reserve_on_cases [of realloc_ok job_id target c g ram disk sys o2 sys']
    reserve_single_cases [OF assms] assms(1) by blast+

lemma discard_record_ok:
  assumes "alloc_ok sys" "i < length (sy_allocs sys)"
  shows "alloc_ok (discard_record i sys) \<and>
    (\<forall>mid. rs.used (sy_reg (discard_record i sys)) mid =
       rs.used (sy_reg sys) mid - slots_on mid (ac_slots (sy_allocs sys ! i)))"
proof -
  let ?a = "sy_allocs sys ! i"
  have a: "?a \<in> set (sy_allocs sys)" using assms(2) by simp
  have inv: "registry_ok (sy_reg sys)" "records_ok (sy_allocs sys)"
    "\<And>mid. rs.used (sy_reg sys) mid = alloc_sum (sy_allocs sys) mid" "db_idle (sy_db sys)"
    using assms(1) by (auto simp: alloc_ok_def)
  then have "record_ok ?a" using a by (simp add: records_ok_def)
  then have R: "registry_ok (release_slots (ac_slots ?a) (sy_reg sys)) \<and>
      (\<forall>mid. rs.used (release_slots (ac_slots ?a) (sy_reg sys)) mid =
         rs.used (sy_reg sys) mid - slots_on mid (ac_slots ?a))"
    using inv(1) slots_le_alloc_sum [OF inv(2) a]
    by (intro release_slots_used) (auto simp: inv(3) record_ok_def)
  have "distinct (map ac_job_id (filter ac_active ((sy_allocs sys)[i := zero_record])))"
    using filter_update_drop [OF assms(2), of ac_active zero_record] inv(2)
    by (auto simp: records_ok_def split: if_splits)
  moreover have "\<forall>b \<in> set ((sy_allocs sys)[i := zero_record]). record_ok b"
    using inv(2) set_update_subset_insert [of "sy_allocs sys" i zero_record] by (auto simp: records_ok_def)
  ultimately show ?thesis using R inv assms(2)
    by (simp add: discard_record_def alloc_ok_def records_ok_def alloc_sum_update)
qed

lemma held_discard:
  assumes "records_ok recs" "find_idx (\<lambda>a. ac_active a \<and> strcmp (ac_job_id a) j = 0) recs = Some i"
  shows "held recs j = Some (ac_slots (recs ! i))" "held (recs[i := zero_record]) = (held recs)(j := None)"
proof -
  let ?P = "\<lambda>k a. ac_active a \<and> ac_job_id a = k"
  note f = find_idx_SomeD [OF assms(2)]
  have uniq: "b = recs ! i" if "b \<in> set recs" "?P j b" for b
  proof -
    have "inj_on ac_job_id (set (filter ac_active recs))"
      using assms(1) by (simp add: records_ok_def distinct_map)
    then show ?thesis using that f by (auto simp: inj_on_def)
  qed
  have "find (?P j) recs \<noteq> None" using f by (metis (mono_tags, lifting) find_None_iff nth_mem strcmp_eq_0)
  then obtain b where b: "find (?P j) recs = Some b" by auto
  then have "b \<in> set recs" "?P j b" by (auto simp: find_Some_iff)
  then show "held recs j = Some (ac_slots (recs ! i))" using b uniq by (simp add: held_def)
  obtain us vs where uv: "filter ac_active recs = us @ recs ! i # vs"
    "filter ac_active (recs[i := zero_record]) = us @ vs"
    using filter_update_drop [of i recs ac_active zero_record] f by auto
  then have "distinct (map ac_job_id (us @ recs ! i # vs))" using assms(1) by (simp add: records_ok_def)
  then have "j \<notin> ac_job_id ` set (filter ac_active (recs[i := zero_record]))" using f uv by auto
  then have gone: "\<forall>b \<in> set (recs[i := zero_record]). \<not> ?P j b" by auto
  show "held (recs[i := zero_record]) = (held recs)(j := None)"
  proof
    fix k
    show "held (recs[i := zero_record]) k = ((held recs)(j := None)) k"
    proof (cases "k = j")
      case True
      then show ?thesis using gone held_None_iff [of "recs[i := zero_record]" j] by simp
    next
      case False
      then show ?thesis using f by (simp add: held_def find_list_update_other)
    qed
  qed
qed

lemma alloc_release_cases:
  assumes ok: "alloc_ok sys" and run: "alloc_release job_id sys = (r, sys')"
  shows "alloc_ok sys' \<and> held (sy_allocs sys') = (held (sy_allocs sys))(job_id := None) \<and>
    (\<forall>mid. rs.used (sy_reg sys') mid = rs.used (sy_reg sys) mid -
       (case held (sy_allocs sys) job_id of None \<Rightarrow> 0 | Some ss \<Rightarrow> slots_on mid ss))"
proof (cases "find_idx (\<lambda>a. ac_active a \<and> strcmp (ac_job_id a) job_id = 0) (sy_allocs sys)")
  case None
  then have h: "held (sy_allocs sys) job_id = None" by (auto simp: held_None_iff find_idx_None)
  obtain q d where q: "db_release_allocation (sy_now sys) job_id (sy_db sys) = (q, d)" by force
  have "db_idle d" using db_idle_run [of "sy_db sys"] q ok
    by (auto simp: db_release_allocation_def alloc_ok_def)
  then show ?thesis using None h q run ok by (auto simp: alloc_release_def alloc_ok_def fun_eq_iff)
next
  case (Some i)
  have rok: "records_ok (sy_allocs sys)" using ok by (simp add: alloc_ok_def)
  note H = held_discard [OF rok Some]
  note D = discard_record_ok [OF ok, of i]
  have i: "i < length (sy_allocs sys)" using find_idx_SomeD [OF Some] by simp
  let ?s = "discard_record i sys"
  obtain q d where q: "db_release_allocation (sy_now ?s) job_id (sy_db ?s) = (q, d)" by force
  have "db_idle d" using db_idle_run [of "sy_db ?s"] q D i
    by (auto simp: db_release_allocation_def alloc_ok_def)
  moreover have "sys' = ?s\<lparr>sy_db := d\<rparr>" using run Some q by (auto simp: alloc_release_def)
  moreover have "held (sy_allocs ?s) = (held (sy_allocs sys))(job_id := None)"
    using H(2) by (simp add: discard_record_def)
  ultimately show ?thesis using D i H(1) by (auto simp: alloc_ok_def)
qed

subsection \<open>Reserving on several machines\<close>

lemma release_slots_append: "release_slots (ss @ ts) reg = release_slots ts (release_slots ss reg)"
  by (induction ss arbitrary: reg) auto

lemma slots_on_append [simp]: "slots_on mid (ss @ ts) = slots_on mid ss + slots_on mid ts"
  by (simp add: slots_on_def)

lemma apply_all_used:
  assumes "registry_ok reg" "\<forall>s \<in> set applied. 0 \<le> slot_vec s"
    "\<And>mid. slots_on mid applied \<le> rs.used reg mid" "apply_all applied ss reg = (ok, reg')"
  shows "registry_ok reg' \<and>
    (if ok then (\<forall>s \<in> set ss. 0 \<le> slot_vec s) \<and>
              (\<forall>mid. rs.used reg' mid = rs.used reg mid + slots_on mid ss)
     else \<forall>mid. rs.used reg' mid = rs.used reg mid - slots_on mid applied)"
  using assms
proof (induction ss arbitrary: applied reg)
  case Nil
  then show ?case by auto
next
  case (Cons s ss)
  obtain r reg1 where r: "reserve_vec (sl_machine_id s) (slot_vec s) reg = (r, reg1)" by force
  show ?case
  proof (cases "r = 0")
    case False
    then have "ok = False" "reg' = release_slots applied reg"
      using Cons.prems(4) r reserve_vec_fail [OF r] by (auto simp: apply_slot_vec)
    then show ?thesis using release_slots_used [OF Cons.prems(1,2)] Cons.prems(3) by simp
  next
    case True
    note r0 = r [unfolded True]
    have s0: "0 \<le> slot_vec s" using rs.reserve_granted [OF r0] by blast
    note u = rs.reserve_used [OF r0]
    have "apply_all (applied @ [s]) ss reg1 = (ok, reg')"
      using Cons.prems(4) r0 by (simp add: apply_slot_vec)
    moreover have "slots_on mid (applied @ [s]) \<le> rs.used reg1 mid" for mid
      using Cons.prems(3) [of mid] by (auto simp: u)
    ultimately have IH: "registry_ok reg' \<and>
      (if ok then (\<forall>s \<in> set ss. 0 \<le> slot_vec s) \<and>
              (\<forall>mid. rs.used reg' mid = rs.used reg1 mid + slots_on mid ss)
       else \<forall>mid. rs.used reg' mid = rs.used reg1 mid - slots_on mid (applied @ [s]))"
      using Cons.IH [of reg1 "applied @ [s]"] Cons.prems(2) s0 rs.reserve_invar [OF Cons.prems(1) r0]
      by auto
    then show ?thesis using s0 by (auto simp: u algebra_simps)
  qed
qed

lemma alloc_ok_forget:
  assumes "alloc_ok sys" "placed (sy_allocs sys) i recs" "registry_ok reg"
    "\<And>mid. rs.used reg mid = rs.used (sy_reg sys) mid" "sy_reg sys' = reg"
    "sy_allocs sys' = recs[i := zero_record]" "db_idle (sy_db sys')"
  shows "alloc_ok sys'"
  using assms placed_ok [OF assms(2), of zero_record] placed_sum [OF assms(2), of zero_record]
  by (auto simp: alloc_ok_def)

lemma alloc_reserve_multi_ok:
  assumes ok: "alloc_ok sys" and len: "length job_id < JOB_ID_LEN"
    and run: "alloc_reserve_multi malloc_ok realloc_ok job_id c g ram disk sys = (out, sys')"
  shows "alloc_ok sys'"
proof -
  obtain io recs cap where acq: "alloc_record_acquire realloc_ok job_id (sy_allocs sys)
      (sy_alloc_capacity sys) = (io, recs, cap)" by (metis prod_cases3)
  have inv: "registry_ok (sy_reg sys)" "records_ok (sy_allocs sys)" "db_idle (sy_db sys)"
    "\<And>mid. rs.used (sy_reg sys) mid = alloc_sum (sy_allocs sys) mid"
    using ok by (auto simp: alloc_ok_def)
  show ?thesis
  proof (cases "g > 0 \<or> c \<le> 0 \<or> io = None")
    case True
    have "io = None \<Longrightarrow> recs = sy_allocs sys" using acq alloc_record_acquire_None by blast
    then show ?thesis using True run acq ok
      by (auto simp: alloc_reserve_multi_def alloc_ok_def split: if_splits)
  next
    case False
    then obtain i where i: "io = Some i" by auto
    note A = alloc_record_acquire_Some [OF acq [unfolded i]]
    have pl: "placed (sy_allocs sys) i recs" and free: "held (sy_allocs sys) job_id = None"
      using A by (auto simp: held_None_iff)
    let ?forget = "sys\<lparr>sy_alloc_capacity := cap, sy_allocs := recs[i := zero_record]\<rparr>"
    have forget: "alloc_ok ?forget" by (rule alloc_ok_forget [OF ok pl inv(1)]) (simp_all add: inv(3))
    show ?thesis
    proof (cases "registry_snapshot malloc_ok (sy_reg sys)")
      case None
      then show ?thesis using run acq i False forget by (auto simp: alloc_reserve_multi_def)
    next
      case (Some machines)
      obtain slots remaining where ms: "multi_slots machines [] c = (slots, remaining)" by force
      let ?n = "int (length slots)"
      show ?thesis
      proof (cases "remaining > 0 \<or> slots = [] \<or> multi_fill machines (share ram ?n) (share disk ?n) slots = None")
        case True
        then show ?thesis using run acq i False forget Some ms
          by (auto simp: alloc_reserve_multi_def Let_def split: if_splits)
      next
        case fill: False
        then obtain ss where ss: "multi_fill machines (share ram ?n) (share disk ?n) slots = Some ss" by auto
        obtain aok reg where ap: "apply_all [] ss (sy_reg sys) = (aok, reg)" by force
        have U: "registry_ok reg \<and> (if aok then (\<forall>s \<in> set ss. 0 \<le> slot_vec s) \<and>
              (\<forall>mid. rs.used reg mid = rs.used (sy_reg sys) mid + slots_on mid ss)
            else \<forall>mid. rs.used reg mid = rs.used (sy_reg sys) mid - slots_on mid [])"
        proof (rule apply_all_used [OF inv(1) _ _ ap])
          fix mid
          show "slots_on mid [] \<le> rs.used (sy_reg sys) mid"
            using rs.get_bounds [OF inv(1), of mid] by (auto simp: rs.used_def split: option.splits)
        qed simp
        define rec where "rec = (recs ! i)\<lparr>ac_slots := ss\<rparr>"
        obtain p d where p: "persist_record (sy_now sys) rec (sy_db sys) = (p, d)" by force
        let ?sys2 = "sys\<lparr>sy_alloc_capacity := cap, sy_allocs := recs[i := rec], sy_reg := reg, sy_db := d\<rparr>"
        have two: "aok \<Longrightarrow> alloc_ok ?sys2 \<and> i < length (sy_allocs ?sys2)"
        proof
          assume aok
          have "ac_active rec" "ac_job_id rec = job_id" "ac_slots rec = ss"
            using A len by (auto simp: rec_def zero_record_def)
          then show "alloc_ok ?sys2"
            using \<open>aok\<close> U placed_ok [OF pl inv(2), of rec] placed_sum [OF pl inv(2), of rec] free inv
              persist_record_cases [OF inv(3) p] by (auto simp: alloc_ok_def record_ok_def)
          show "i < length (sy_allocs ?sys2)" using A by simp
        qed
        let ?sys3 = "discard_record i ?sys2"
        obtain q d' where q: "db_release_allocation (sy_now ?sys3) job_id (sy_db ?sys3) = (q, d')" by force
        have three: "aok \<Longrightarrow> alloc_ok ?sys3 \<and> alloc_ok (?sys3\<lparr>sy_db := d'\<rparr>)"
          using two discard_record_ok [of ?sys2 i] db_idle_run [of "sy_db ?sys3"] q
          by (auto simp: alloc_ok_def db_release_allocation_def)
        have nok: "\<not> aok \<Longrightarrow> alloc_ok (?forget\<lparr>sy_reg := reg\<rparr>)"
          by (rule alloc_ok_forget [OF ok pl, of reg]) (use U inv(3) in simp_all)
        have "sys' \<in> {?forget\<lparr>sy_reg := reg\<rparr>} \<and> \<not> aok \<or> aok \<and> sys' \<in> {?sys2, ?sys3, ?sys3\<lparr>sy_db := d'\<rparr>}"
          using run acq i False Some ms fill ss ap p q
          by (auto simp: alloc_reserve_multi_def rec_def [symmetric] Let_def split: if_splits option.splits)
        then show ?thesis using two three nok by auto
      qed
    qed
  qed
qed

section \<open>The allocator and the registry over time\<close>

text \<open>
  The steps: the allocator's operations for job identifiers that fit a \<open>Job\<close>, the administrative
  operations of the registry, and everything else the program does to the database or the clock.
\<close>

inductive alloc_step :: "alloc_sys \<Rightarrow> alloc_sys \<Rightarrow> bool" where
  st_reserve: "length j < JOB_ID_LEN \<Longrightarrow> alloc_reserve mo ro j c g ram disk s = (r, s') \<Longrightarrow> alloc_step s s'"
| st_reserve_on: "length j < JOB_ID_LEN \<Longrightarrow> alloc_reserve_on ro j target c g ram disk s = (r', s') \<Longrightarrow>
    alloc_step s s'"
| st_reserve_multi: "length j < JOB_ID_LEN \<Longrightarrow>
    alloc_reserve_multi mo ro j c g ram disk s = (out, s') \<Longrightarrow> alloc_step s s'"
| st_release: "alloc_release j s = (r', s') \<Longrightarrow> alloc_step s s'"
| st_upsert: "config_only m \<Longrightarrow> registry_upsert m (sy_reg s) = (r', reg) \<Longrightarrow> alloc_step s (s\<lparr>sy_reg := reg\<rparr>)"
| st_remove: "registry_remove mid (sy_reg s) = (r', reg) \<Longrightarrow> alloc_step s (s\<lparr>sy_reg := reg\<rparr>)"
| st_probe: "registry_update_probe mid st t rc (sy_reg s) = (r', reg) \<Longrightarrow> alloc_step s (s\<lparr>sy_reg := reg\<rparr>)"
| st_other: "db_idle d \<Longrightarrow> alloc_step s (s\<lparr>sy_db := d, sy_now := now\<rparr>)"

inductive_cases alloc_stepE: "alloc_step s s'"

lemma used_upsert:
  assumes "registry_ok reg" "config_only m" "registry_upsert m reg = (r, reg')"
  shows "rs.used reg' = rs.used reg"
proof (cases "r = 0")
  case False
  then show ?thesis using assms(3)
    by (auto simp: registry_upsert_def Let_def split: if_splits option.splits)
next
  case True
  note up = assms(3) [unfolded True]
  show ?thesis
  proof (cases "find_machine reg (m_id m)")
    case (Some i)
    have "m_id (reconfigured (reg ! i) m) = m_id m" "reserved (reconfigured (reg ! i) m) = reserved (reg ! i)"
      by (simp_all add: reconfigured_def set_reserved_def reserved_def)
    then have "registry_get_copy reg' = (registry_get_copy reg)(m_id m \<mapsto> reconfigured (reg ! i) m)"
      "reserved (reconfigured (reg ! i) m) = reserved (reg ! i)"
      using registry_upsert_existing(2) [OF Some up] registry_get_copy_update [OF Some] by auto
    moreover have "registry_get_copy reg (m_id m) = Some (reg ! i)" using Some by (simp add: registry_get_copy_def)
    ultimately show ?thesis by (auto simp: rs.used_def fun_eq_iff)
  next
    case None
    have app: "reg' = reg @ [m]" using registry_upsert_new(2) [OF None up] .
    have "rs.used (reg @ [m]) k = rs.used reg k" for k
    proof (cases "k = m_id m")
      case True
      have "find_idx (\<lambda>x. m_id x = m_id m) (reg @ [m]) = Some (length reg)"
        using None by (induction reg) (auto simp: find_machine_def split: if_splits)
      then show ?thesis using True None assms(2)
        by (simp add: rs.used_def registry_get_copy_def find_machine_def config_only_def)
    next
      case False
      have "registry_get_copy (reg @ [m]) k = registry_get_copy reg k"
        using None assms(1) False
        by (intro registry_get_copy_cong) (auto simp: find_machine_None registry_ok_def)
      then show ?thesis by (simp add: rs.used_def)
    qed
    then show ?thesis using app by (simp add: fun_eq_iff)
  qed
qed

lemma used_remove:
  assumes "registry_ok reg" "registry_remove mid reg = (r, reg')"
  shows "rs.used reg' = rs.used reg"
proof (cases "reg' = reg")
  case False
  then obtain m where m: "registry_get_copy reg mid = Some m" "mset reg' = mset reg - {#m#}"
    "\<not> (0 < m_cores_reserved m \<or> 0 < m_gpu_count_reserved m \<or> 0 < m_ram_mb_reserved m \<or> 0 < m_disk_mb_reserved m)"
    using registry_remove_cases [OF assms(2)] by (auto split: option.splits if_splits)
  have "0 \<le> reserved m" using registry_ok_get [OF assms(1) m(1)] by (simp add: machine_ok_def)
  then have r0: "reserved m = 0" using m(3) by (auto simp: res_le_iff reserved_def zero_res_def)
  have d: "distinct (map m_id reg)" "distinct (map m_id reg')"
    using assms(1) registry_remove_ok [OF assms] by (auto simp: registry_ok_def)
  have mm: "m \<in> set reg" "m_id m = mid" using registry_get_copyD [OF m(1)] by auto
  then have "mset reg = add_mset m (mset reg')" using m(2) by simp
  then have set: "set reg = insert m (set reg')" by (metis set_mset_add_mset_insert set_mset_mset)
  have dm: "m_id m \<notin> m_id ` set reg'"
  proof -
    have "mset (map m_id reg) = add_mset (m_id m) (mset (map m_id reg'))"
      using \<open>mset reg = add_mset m (mset reg')\<close> by simp
    then show ?thesis using d(1) by (metis distinct.simps(2) list.set_map mset.simps(2) mset_eq_imp_distinct_iff)
  qed
  have "rs.used reg' k = rs.used reg k" for k
  proof (cases "k = mid")
    case True
    then have "registry_get_copy reg' k = None" using dm mm by (simp add: registry_get_copy_None)
    then show ?thesis using True m(1) r0 by (simp add: rs.used_def)
  next
    case False
    have "registry_get_copy reg' k = registry_get_copy reg k"
      using d set False mm by (intro registry_get_copy_cong) auto
    then show ?thesis by (simp add: rs.used_def)
  qed
  then show ?thesis by auto
qed simp

lemma used_probe:
  assumes "registry_update_probe mid st t rc reg = (r, reg')"
  shows "rs.used reg' = rs.used reg"
proof (cases "find_machine reg mid")
  case None
  then show ?thesis using assms by (simp add: registry_update_probe_def)
next
  case (Some i)
  define m' where "m' = (reg ! i)\<lparr>m_probe_status := st, m_last_probe_time := t,
     m_probe_fail_count := (if rc > 0 then 0 else if rc = 0 then m_probe_fail_count (reg ! i) + 1
       else m_probe_fail_count (reg ! i))\<rparr>"
  have "reg' = reg[i := m']" using assms Some by (simp add: registry_update_probe_def m'_def Let_def)
  moreover have "m_id m' = mid" "reserved m' = reserved (reg ! i)"
    using find_machine_SomeD [OF Some] by (simp_all add: m'_def reserved_def)
  moreover have "registry_get_copy reg mid = Some (reg ! i)" using Some by (simp add: registry_get_copy_def)
  ultimately show ?thesis
    using registry_get_copy_update [OF Some] by (auto simp: rs.used_def fun_eq_iff)
qed

lemma alloc_step_ok: "alloc_step s s' \<Longrightarrow> alloc_ok s \<Longrightarrow> alloc_ok s'"
proof (induction rule: alloc_step.induct)
  case (st_reserve j mo ro c g ram disk s r s')
  then show ?case using alloc_ok_ops(1) by blast
next
  case (st_reserve_on j ro target c g ram disk s r' s')
  then show ?case using alloc_ok_ops(2) by blast
next
  case (st_reserve_multi j mo ro c g ram disk s out s')
  then show ?case using alloc_reserve_multi_ok by blast
next
  case (st_release j s r' s')
  then show ?case using alloc_release_cases by blast
next
  case (st_upsert m s r' reg)
  then show ?case using used_upsert [of "sy_reg s" m r' reg] registry_upsert_ok [of "sy_reg s" m r' reg]
    by (simp add: alloc_ok_def)
next
  case (st_remove mid s r' reg)
  then show ?case using used_remove [of "sy_reg s" mid r' reg] registry_remove_ok [of "sy_reg s" mid r' reg]
    by (simp add: alloc_ok_def)
next
  case (st_probe mid st t rc s r' reg)
  then show ?case using used_probe [of mid st t rc "sy_reg s" r' reg]
      registry_update_probe_ok [of "sy_reg s" mid st t rc r' reg]
    by (simp add: alloc_ok_def)
next
  case (st_other d s now)
  then show ?case by (simp add: alloc_ok_def)
qed

text \<open>What the invariant says machine by machine.\<close>

lemma alloc_ok_exact:
  assumes "alloc_ok s" "m \<in> set (sy_reg s)"
  shows "reserved m = alloc_sum (sy_allocs s) (m_id m) \<and> reserved m + kept m \<le> total m"
proof -
  have "registry_get_copy (sy_reg s) (m_id m) = Some m"
    using assms by (simp add: alloc_ok_def registry_ok_def registry_get_copy_iff)
  then show ?thesis using assms(1) rs.get_bounds
    by (fastforce simp: alloc_ok_def rs.used_def split: option.splits)
qed

section \<open>Claims\<close>

text \<open>A state with two machines and nothing allocated, for the concrete instances.\<close>

definition demo_sys :: alloc_sys where
  "demo_sys = \<lparr> sy_reg = demo_registry, sy_allocs = [], sy_alloc_capacity = 0,
     sy_db = opened_db empty_tables, sy_now = 5 \<rparr>"

text \<open>The state after start-up: machines loaded, no record, no transaction under way.\<close>

definition alloc_initial :: "'a alloc_sys_scheme \<Rightarrow> bool" where
  "alloc_initial s \<longleftrightarrow> registry_ok (sy_reg s) \<and> (\<forall>m \<in> set (sy_reg s). reserved m = 0) \<and>
     sy_allocs s = [] \<and> db_idle (sy_db s)"

lemma alloc_initial_ok: "alloc_initial s \<Longrightarrow> alloc_ok s"
  by (auto simp: alloc_initial_def alloc_ok_def records_ok_def alloc_sum_def rs.used_def
      split: option.splits dest: registry_get_copyD)

lemma demo_sys_initial: "alloc_initial demo_sys"
  using demo_registry_ok
  by (simp add: alloc_initial_def demo_sys_def demo_registry_def demo_machine_def machine_zero_def
      reserved_def zero_res_def)

lemma demo_reserve:
  "\<exists>s. alloc_reserve True True ''j'' 2 0 0 0 demo_sys = (Some ''n1'', s) \<and> held (sy_allocs s) ''j'' \<noteq> None"
  by (auto simp: alloc_reserve_def demo_sys_def registry_snapshot_def demo_registry_def demo_machine_def
        machine_zero_def machine_can_fit_def free_cores_def free_gpu_def free_ram_def free_disk_def
        non_negative_def reserve_single_def alloc_record_acquire_def JOB_ID_LEN_def buf_def apply_slot_def
        registry_reserve_def find_machine_def persist_record_def db_begin_def opened_db_def sql_begin_def
        db_insert_allocation_def db_commit_def sql_commit_def held_def zero_record_def Let_def)

text \<open>
  C4: in every state reached from start-up, by reservations on one, a given or several machines,
  releases, administrative changes to the registry and any other database activity, in any
  order and with any statement failing, the resources reserved on each machine are exactly the
  sum of the slots of the active allocation records, and never exceed the machine's total less
  what it keeps for itself. No job holds two records.
\<close>

theorem alloc_exact_accounting:
  assumes "alloc_initial s0" "alloc_step\<^sup>*\<^sup>* s0 s"
  shows "(\<forall>m \<in> set (sy_reg s). reserved m = alloc_sum (sy_allocs s) (m_id m) \<and>
            reserved m + kept m \<le> total m) \<and>
    distinct (map ac_job_id (filter ac_active (sy_allocs s)))"
proof -
  from assms(2) have "alloc_ok s"
    by (induction rule: rtranclp_induct) (auto intro: alloc_step_ok alloc_initial_ok assms(1))
  then show ?thesis using alloc_ok_exact unfolding alloc_ok_def records_ok_def by blast
qed

theorem alloc_exact_accounting_witness:
  "\<exists>s. alloc_initial demo_sys \<and> alloc_step\<^sup>*\<^sup>* demo_sys s \<and> fst (alloc_reserve True True ''j'' 2 0 0 0 demo_sys) = Some ''n1'' \<and>
     held (sy_allocs s) ''j'' \<noteq> None \<and>
     (\<forall>m \<in> set (sy_reg s). reserved m = alloc_sum (sy_allocs s) (m_id m) \<and> reserved m + kept m \<le> total m)"
proof -
  obtain r s where s: "alloc_reserve True True ''j'' 2 0 0 0 demo_sys = (r, s)" by force
  have "alloc_step demo_sys s" by (rule st_reserve [OF _ s]) (simp add: JOB_ID_LEN_def)
  then have st: "alloc_step\<^sup>*\<^sup>* demo_sys s" by blast
  have "r = Some ''n1'' \<and> held (sy_allocs s) ''j'' \<noteq> None" using s demo_reserve by auto
  then show ?thesis using alloc_exact_accounting [OF demo_sys_initial st] demo_sys_initial st s by auto
qed

text \<open>
  \<open>alloc_reserve\<close> on success returns a machine that was enabled, online and had the requested
  amounts free, the first such in registry order; exactly these amounts are added to it, the
  job is recorded as holding exactly this slot, and an open row for it is in the allocations
  table. On any failure, of the database too, registry, allocation map and tables are exactly
  as before. Either way the accounting invariant is kept.
\<close>

theorem alloc_reserve_correct:
  assumes "alloc_ok sys" "length job_id < JOB_ID_LEN"
    "alloc_reserve malloc_ok realloc_ok job_id c g ram disk sys = (out, sys')"
  shows "alloc_ok sys' \<and>
    (case out of
       None \<Rightarrow> sy_reg sys' = sy_reg sys \<and> held (sy_allocs sys') = held (sy_allocs sys) \<and>
               db_tables (sy_db sys') = db_tables (sy_db sys)
     | Some mid \<Rightarrow> \<exists>m. find (fits (Res c g ram disk)) (sy_reg sys) = Some m \<and> m_id m = mid \<and>
         registry_get_copy (sy_reg sys') = (registry_get_copy (sy_reg sys))(mid \<mapsto> add_reserved (Res c g ram disk) m) \<and>
         held (sy_allocs sys) job_id = None \<and>
         held (sy_allocs sys') = (held (sy_allocs sys))(job_id \<mapsto> [single_slot mid c g ram disk]) \<and>
         alloc_row_of (sy_now sys) job_id (single_slot mid c g ram disk) \<in> set (t_allocations (db_tables (sy_db sys'))))"
proof (cases "c \<le> 0 \<or> registry_snapshot malloc_ok (sy_reg sys) = None")
  case True
  then show ?thesis using assms(1,3) by (auto simp: alloc_reserve_def split: if_splits option.splits)
next
  case False
  have oks: "\<forall>m \<in> set (sy_reg sys). machine_ok m" using assms(1) by (simp add: alloc_ok_def registry_ok_def)
  have snap: "registry_snapshot malloc_ok (sy_reg sys) = Some (sy_reg sys)"
    using False by (auto simp: registry_snapshot_def split: if_splits)
  have eq: "find (\<lambda>m. machine_can_fit m c g ram disk) (sy_reg sys) = find (fits (Res c g ram disk)) (sy_reg sys)"
    using machine_can_fit_fits oks by (intro find_cong) auto
  show ?thesis
  proof (cases "find (fits (Res c g ram disk)) (sy_reg sys)")
    case None
    then show ?thesis using False snap eq assms(1,3) by (auto simp: alloc_reserve_def)
  next
    case (Some m)
    obtain r s1 where r: "reserve_single realloc_ok job_id m c g ram disk sys = (r, s1)" by force
    note R = reserve_single_cases [OF assms(1,2) r]
    have m: "m \<in> set (sy_reg sys)" using Some by (auto simp: find_Some_iff)
    then have b: "buf 64 (m_id m) = m_id m" using oks by (auto simp: machine_ok_def)
    have get: "registry_get_copy (sy_reg sys) (m_id m) = Some m"
      using m assms(1) by (simp add: alloc_ok_def registry_ok_def registry_get_copy_iff)
    have "(out, sys') = (if r \<noteq> 0 then (None, s1) else (Some (m_id m), s1))"
      using False snap eq assms(3) Some r b by (auto simp: alloc_reserve_def)
    then show ?thesis
      using R Some get rs.reserve_granted [of "m_id m" "Res c g ram disk" "sy_reg sys" "sy_reg s1"] b
      by (auto simp: same_state_def reserved_state_def slot_vec_single single_slot_def slot_vec_def split: if_splits)
  qed
qed

theorem alloc_reserve_correct_witness:
  "\<exists>sys'. alloc_reserve True True ''j'' 2 0 0 0 demo_sys = (Some ''n1'', sys') \<and> alloc_ok sys' \<and>
     held (sy_allocs sys') = [''j'' \<mapsto> [single_slot ''n1'' 2 0 0 0]]"
proof -
  obtain r s where s: "alloc_reserve True True ''j'' 2 0 0 0 demo_sys = (r, s)" by force
  have len: "length ''j'' < JOB_ID_LEN" by (simp add: JOB_ID_LEN_def)
  have "r = Some ''n1''" using s demo_reserve by auto
  moreover have "held (sy_allocs demo_sys) = Map.empty" by (simp add: demo_sys_def held_def fun_eq_iff)
  ultimately show ?thesis
    using alloc_reserve_correct [OF alloc_initial_ok [OF demo_sys_initial] len s] s by auto
qed

text \<open>
  \<open>alloc_release\<close> removes the job from the allocation map and gives back, on every machine,
  exactly what the job's slots had taken; other jobs keep their slots and the invariant is
  kept, even when the database update fails. A job that holds nothing changes nothing.
\<close>

theorem alloc_release_correct:
  assumes "alloc_ok sys" "alloc_release job_id sys = (r, sys')"
  shows "alloc_ok sys' \<and> held (sy_allocs sys') = (held (sy_allocs sys))(job_id := None) \<and>
    (\<forall>mid. rs.used (sy_reg sys') mid = rs.used (sy_reg sys) mid -
       (case held (sy_allocs sys) job_id of None \<Rightarrow> 0 | Some ss \<Rightarrow> slots_on mid ss))"
  by (rule alloc_release_cases [OF assms])

theorem alloc_release_correct_witness:
  "\<exists>r s. alloc_release ''j'' (snd (alloc_reserve True True ''j'' 2 0 0 0 demo_sys)) = (r, s) \<and>
     alloc_ok s \<and> held (sy_allocs s) ''j'' = None"
proof -
  obtain o1 s1 where s1: "alloc_reserve True True ''j'' 2 0 0 0 demo_sys = (o1, s1)" by force
  have ok: "alloc_ok s1"
    using alloc_ok_ops(1) [OF alloc_initial_ok [OF demo_sys_initial] _ s1] by (simp add: JOB_ID_LEN_def)
  obtain r s where "alloc_release ''j'' s1 = (r, s)" by force
  with alloc_release_correct [OF ok this] s1 show ?thesis by auto
qed

text \<open>
  Reserving for a job and releasing it again leaves the registry exactly as it was and the
  allocation map without the job.
\<close>

theorem alloc_reserve_release_roundtrip:
  assumes "alloc_ok sys" "length job_id < JOB_ID_LEN"
    "alloc_reserve malloc_ok realloc_ok job_id c g ram disk sys = (Some mid, sys1)"
    "alloc_release job_id sys1 = (r, sys2)"
  shows "r = 0 \<and> sy_reg sys2 = sy_reg sys \<and> held (sy_allocs sys2) = held (sy_allocs sys)"
proof -
  obtain m where m: "reserve_single realloc_ok job_id m c g ram disk sys = (0, sys1)"
    using assms(3) by (auto simp: alloc_reserve_def split: if_splits option.splits prod.splits)
  let ?s = "single_slot (m_id m) c g ram disk"
  have ok1: "alloc_ok sys1" and st: "reserved_state job_id ?s sys sys1"
    using reserve_single_cases [OF assms(1,2) m] by auto
  have "held (sy_allocs sys1) job_id = Some [?s]" using st by (simp add: reserved_state_def)
  then obtain i where i: "find_idx (\<lambda>a. ac_active a \<and> strcmp (ac_job_id a) job_id = 0) (sy_allocs sys1) = Some i"
    by (cases "find_idx (\<lambda>a. ac_active a \<and> strcmp (ac_job_id a) job_id = 0) (sy_allocs sys1)")
       (auto simp: find_idx_None held_def find_Some_iff)
  have "records_ok (sy_allocs sys1)" using ok1 by (simp add: alloc_ok_def)
  then have sl: "ac_slots (sy_allocs sys1 ! i) = [?s]"
    using held_discard(1) [OF _ i] \<open>held (sy_allocs sys1) job_id = Some [?s]\<close> by simp
  have "release_vec (sl_machine_id ?s) (slot_vec ?s) (sy_reg sys1) = (0, sy_reg sys)"
    using reserve_release_vec [of "sy_reg sys" _ _ "sy_reg sys1"] st assms(1)
    by (simp add: reserved_state_def alloc_ok_def)
  then have "r = 0 \<and> sy_reg sys2 = sy_reg sys"
    using assms(4) i sl by (auto simp: alloc_release_def discard_record_def apply_slot_vec split: prod.splits)
  moreover have "held (sy_allocs sys2) = (held (sy_allocs sys1))(job_id := None)"
    using alloc_release_cases [OF ok1 assms(4)] by simp
  ultimately show ?thesis using st by (auto simp: reserved_state_def fun_eq_iff)
qed

theorem alloc_reserve_release_roundtrip_witness:
  "\<exists>sys1 sys2. alloc_reserve True True ''j'' 2 0 0 0 demo_sys = (Some ''n1'', sys1) \<and>
     alloc_release ''j'' sys1 = (0, sys2) \<and> sy_reg sys2 = demo_registry"
proof -
  obtain r s where s: "alloc_reserve True True ''j'' 2 0 0 0 demo_sys = (r, s)" by force
  have r: "r = Some ''n1''" using s demo_reserve by auto
  obtain q s2 where q: "alloc_release ''j'' s = (q, s2)" by force
  from alloc_reserve_release_roundtrip [OF alloc_initial_ok [OF demo_sys_initial] _ s [unfolded r] q]
  have "q = 0 \<and> sy_reg s2 = demo_registry" by (simp add: JOB_ID_LEN_def demo_sys_def)
  then show ?thesis using s r q by auto
qed

end
