(* ===== verification/Events.thy ===== *)
theory Events
  imports DbMeta
begin

text \<open>
  The live event buffer of \<open>src/http/events.c\<close>: a ring of \<open>EVENTS_BUF_SIZE\<close> messages that the
  HTTP thread drains. \<open>rg_buf\<close> is \<open>s_buf\<close>, the three counters keep their names. Every
  operation runs under the buffer's lock. The printed form of a JSON object, made by the cJSON
  library, is an argument (\<open>None\<close> when it cannot be allocated).

  The theorems relate the ring to the sequence of messages it stands for.
\<close>

section \<open>Model\<close>

definition EVENTS_BUF_SIZE :: nat where "EVENTS_BUF_SIZE = 64"
definition EVENTS_JSON_MAX :: nat where "EVENTS_JSON_MAX = 512"

record event_message =
  em_json :: string
  em_user_id :: string

record ring =
  rg_buf :: "event_message list"
  rg_head :: nat
  rg_tail :: nat
  rg_count :: nat

definition ring_init :: ring where
  "ring_init = \<lparr> rg_buf = replicate EVENTS_BUF_SIZE \<lparr> em_json = [], em_user_id = [] \<rparr>,
     rg_head = 0, rg_tail = 0, rg_count = 0 \<rparr>"

definition event_of :: "string \<Rightarrow> string option \<Rightarrow> event_message" where
  "event_of json user_id =
     \<lparr> em_json = buf EVENTS_JSON_MAX json,
       em_user_id = buf 128 (case user_id of None \<Rightarrow> [] | Some u \<Rightarrow> u) \<rparr>"

definition events_push_user :: "string \<Rightarrow> string option \<Rightarrow> ring \<Rightarrow> ring" where
  "events_push_user json user_id r =
     (let r1 = r\<lparr>rg_buf := (rg_buf r)[rg_head r := event_of json user_id],
                 rg_head := (rg_head r + 1) mod EVENTS_BUF_SIZE\<rparr> in
      if rg_count r1 < EVENTS_BUF_SIZE then r1\<lparr>rg_count := rg_count r1 + 1\<rparr>
      else r1\<lparr>rg_tail := (rg_tail r1 + 1) mod EVENTS_BUF_SIZE\<rparr>)"

definition events_push :: "string \<Rightarrow> ring \<Rightarrow> ring" where
  "events_push json = events_push_user json (Some [])"

fun drain_loop :: "nat \<Rightarrow> ring \<Rightarrow> event_message list \<times> ring" where
  "drain_loop 0 r = ([], r)"
| "drain_loop (Suc n) r =
     (let (es, r') = drain_loop n (r\<lparr>rg_tail := (rg_tail r + 1) mod EVENTS_BUF_SIZE\<rparr>)
      in (rg_buf r ! rg_tail r # es, r'))"

definition events_drain :: "int \<Rightarrow> ring \<Rightarrow> event_message list \<times> ring" where
  "events_drain limit r =
     (let n = (if int (rg_count r) < limit then int (rg_count r) else limit);
          (out, r') = drain_loop (nat n) r
      in (out, r'\<lparr>rg_count := nat (int (rg_count r') - n)\<rparr>))"

text \<open>The database and the ring, with the cJSON printer applied to the members in order.\<close>

definition events_push_persistent ::
  "((string \<times> string) list \<Rightarrow> string option) \<Rightarrow> int \<Rightarrow> string option \<Rightarrow> string option \<Rightarrow> string option \<Rightarrow>
   string option \<Rightarrow> db \<times> ring \<Rightarrow> db \<times> ring" where
  "events_push_persistent print now category event_type detail user_id = (\<lambda>(d, r).
     (snd (db_insert_event now category event_type detail user_id (Some []) (Some []) d),
      (case print [(''category'', col_text category), (''type'', col_text event_type),
                   (''detail'', col_text detail), (''user'', col_text user_id)] of
         None \<Rightarrow> r
       | Some json \<Rightarrow> events_push_user json user_id r)))"

section \<open>The sequence a ring stands for\<close>

definition ring_ok :: "ring \<Rightarrow> bool" where
  "ring_ok r \<longleftrightarrow> length (rg_buf r) = EVENTS_BUF_SIZE \<and> rg_tail r < EVENTS_BUF_SIZE \<and>
     rg_count r \<le> EVENTS_BUF_SIZE \<and> rg_head r = (rg_tail r + rg_count r) mod EVENTS_BUF_SIZE"

definition messages :: "ring \<Rightarrow> event_message list" where
  "messages r = map (\<lambda>i. rg_buf r ! ((rg_tail r + i) mod EVENTS_BUF_SIZE)) [0..<rg_count r]"

definition last_n :: "nat \<Rightarrow> 'a list \<Rightarrow> 'a list" where
  "last_n n xs = drop (length xs - n) xs"

lemma size_pos [simp]: "0 < EVENTS_BUF_SIZE"
  by (simp add: EVENTS_BUF_SIZE_def)

lemma ring_init_ok [simp]: "ring_ok ring_init" "messages ring_init = []"
  by (simp_all add: ring_ok_def ring_init_def messages_def)

lemma length_messages [simp]: "length (messages r) = rg_count r"
  by (simp add: messages_def)

lemma mod_add_inj:
  assumes "i \<le> j" "j < n" "(t + i) mod n = (t + j) mod (n :: nat)"
  shows "i = j"
proof -
  have "n dvd (t + j) - (t + i)" using assms by (metis add_left_mono mod_eq_dvd_iff_nat)
  then have "n dvd j - i" by simp
  then show ?thesis using assms(1,2) by (metis diff_diff_cancel diff_is_0_eq dvd_imp_le le_neq_implies_less
      less_imp_diff_less not_less zero_less_diff)
qed

lemma nth_messages: "i < rg_count r \<Longrightarrow> messages r ! i = rg_buf r ! ((rg_tail r + i) mod EVENTS_BUF_SIZE)"
  by (simp add: messages_def)

lemma push_ok: "ring_ok r \<Longrightarrow> ring_ok (events_push_user json u r)"
  by (auto simp: ring_ok_def events_push_user_def Let_def mod_Suc_eq mod_add_left_eq)

lemma push_messages:
  assumes "ring_ok r"
  shows "messages (events_push_user json u r) = last_n EVENTS_BUF_SIZE (messages r @ [event_of json u])"
    (is "messages ?r' = ?rhs")
proof (cases "rg_count r < EVENTS_BUF_SIZE")
  case True
  have h: "rg_head r = (rg_tail r + rg_count r) mod EVENTS_BUF_SIZE" "rg_head r < length (rg_buf r)"
    using assms by (auto simp: ring_ok_def)
  have "messages ?r' = messages r @ [event_of json u]"
  proof (rule nth_equalityI)
    show "length (messages ?r') = length (messages r @ [event_of json u])"
      using True by (simp add: events_push_user_def Let_def)
  next
    fix i assume i: "i < length (messages ?r')"
    then have i': "i \<le> rg_count r" using True by (simp add: events_push_user_def Let_def)
    have ne: "(rg_tail r + i) mod EVENTS_BUF_SIZE \<noteq> rg_head r" if "i < rg_count r"
      using mod_add_inj [of i "rg_count r" EVENTS_BUF_SIZE "rg_tail r"] that True h(1) by auto
    show "messages ?r' ! i = (messages r @ [event_of json u]) ! i"
    proof (cases "i < rg_count r")
      case True
      then show ?thesis using ne i \<open>rg_count r < EVENTS_BUF_SIZE\<close>
        by (simp add: nth_messages nth_append events_push_user_def Let_def)
    next
      case False
      then have "i = rg_count r" using i' by simp
      then show ?thesis using i h True
        by (simp add: nth_messages nth_append events_push_user_def Let_def)
    qed
  qed
  then show ?thesis using True by (simp add: last_n_def)
next
  case False
  then have c: "rg_count r = EVENTS_BUF_SIZE" using assms by (simp add: ring_ok_def)
  then have h: "rg_head r = rg_tail r" "rg_tail r < length (rg_buf r)" using assms by (auto simp: ring_ok_def)
  have "messages ?r' = tl (messages r) @ [event_of json u]"
  proof (rule nth_equalityI)
    show "length (messages ?r') = length (tl (messages r) @ [event_of json u])"
      using c by (simp add: events_push_user_def Let_def)
  next
    fix i assume i: "i < length (messages ?r')"
    then have i': "i < EVENTS_BUF_SIZE" using c by (simp add: events_push_user_def Let_def)
    have idx: "((rg_tail r + 1) mod EVENTS_BUF_SIZE + i) mod EVENTS_BUF_SIZE = (rg_tail r + Suc i) mod EVENTS_BUF_SIZE"
      by (simp add: mod_add_left_eq)
    show "messages ?r' ! i = (tl (messages r) @ [event_of json u]) ! i"
    proof (cases "Suc i < EVENTS_BUF_SIZE")
      case True
      have "(rg_tail r + Suc i) mod EVENTS_BUF_SIZE \<noteq> rg_tail r"
        using mod_add_inj [of 0 "Suc i" EVENTS_BUF_SIZE "rg_tail r"] True assms by (auto simp: ring_ok_def)
      then show ?thesis using True i c h idx
        by (simp add: nth_messages nth_append nth_tl events_push_user_def Let_def)
    next
      case False
      then have e: "Suc i = EVENTS_BUF_SIZE" using i' by simp
      have "(rg_tail r + Suc i) mod EVENTS_BUF_SIZE = rg_tail r"
        using assms unfolding e by (simp add: ring_ok_def)
      then show ?thesis using e i c h idx
        by (simp add: nth_messages nth_append events_push_user_def Let_def)
    qed
  qed
  moreover have "Suc 0 - EVENTS_BUF_SIZE = 0" by (simp add: EVENTS_BUF_SIZE_def)
  ultimately show ?thesis using c by (simp add: last_n_def drop_Suc)
qed

lemma drain_loop_spec:
  assumes "rg_tail r < EVENTS_BUF_SIZE"
  shows "drain_loop n r =
    (map (\<lambda>i. rg_buf r ! ((rg_tail r + i) mod EVENTS_BUF_SIZE)) [0..<n],
     r\<lparr>rg_tail := (rg_tail r + n) mod EVENTS_BUF_SIZE\<rparr>)"
  using assms
proof (induction n arbitrary: r)
  case (Suc n)
  have "[0..<Suc n] = 0 # map Suc [0..<n]" by (simp add: map_Suc_upt upt_conv_Cons del: upt_Suc)
  then show ?case using Suc.IH [of "r\<lparr>rg_tail := (rg_tail r + 1) mod EVENTS_BUF_SIZE\<rparr>"] Suc.prems
    by (simp add: comp_def mod_add_left_eq mod_Suc_eq del: upt_Suc)
qed simp

lemma drain_messages:
  assumes "ring_ok r" "0 \<le> limit" "events_drain limit r = (out, r')"
  shows "ring_ok r' \<and> out = take (nat limit) (messages r) \<and> messages r' = drop (nat limit) (messages r)"
proof -
  define n where "n = min (rg_count r) (nat limit)"
  have n: "(if int (rg_count r) < limit then int (rg_count r) else limit) = int n"
    using assms(2) by (auto simp: n_def)
  have R: "out = map (\<lambda>i. rg_buf r ! ((rg_tail r + i) mod EVENTS_BUF_SIZE)) [0..<n]"
    "r' = r\<lparr>rg_tail := (rg_tail r + n) mod EVENTS_BUF_SIZE, rg_count := rg_count r - n\<rparr>"
    using assms(1,3) drain_loop_spec [of r n] n
    by (auto simp: events_drain_def Let_def ring_ok_def nat_diff_distrib)
  have le: "n \<le> rg_count r" by (simp add: n_def)
  have "((rg_tail r + n) mod EVENTS_BUF_SIZE + (rg_count r - n)) mod EVENTS_BUF_SIZE =
      (rg_tail r + rg_count r) mod EVENTS_BUF_SIZE"
    unfolding mod_add_left_eq using le by simp
  then have "ring_ok r'" using assms(1) le unfolding R(2) by (auto simp: ring_ok_def)
  moreover have "out = take n (messages r)" using le unfolding R(1) messages_def by (simp add: take_map)
  moreover have "messages r' = drop n (messages r)"
  proof (rule nth_equalityI)
    fix i assume "i < length (messages r')"
    then have "i < rg_count r - n" by (simp add: R(2))
    then show "messages r' ! i = drop n (messages r) ! i"
      by (simp add: R(2) nth_messages mod_add_left_eq add.assoc)
  qed (simp add: R(2))
  ultimately show ?thesis by (auto simp: n_def min_def)
qed

section \<open>Claims\<close>

text \<open>
  The ring keeps the newest 64 messages in the order they were pushed: after any sequence of
  pushes from the initial state its contents are the last 64 of that sequence, each message
  cut to the size of its slot.
\<close>

theorem events_ring_keeps_newest:
  "ring_ok (fold (\<lambda>(json, u). events_push_user json u) es ring_init) \<and>
   messages (fold (\<lambda>(json, u). events_push_user json u) es ring_init) =
     last_n EVENTS_BUF_SIZE (map (\<lambda>(json, u). event_of json u) es)"
proof (induction es rule: rev_induct)
  case Nil
  then show ?case by (simp add: last_n_def)
next
  case (snoc e es)
  obtain json u where e: "e = (json, u)" by force
  have "last_n n (last_n n xs @ [x]) = last_n n (xs @ [x])" if "0 < n" for n :: nat and x and xs :: "event_message list"
  proof (cases "length xs < n")
    case False
    then have "Suc (length xs) - n = Suc (length xs - n)" "length (drop (length xs - n) xs @ [x]) - n = 1"
      using that by auto
    then show ?thesis using that by (simp add: last_n_def)
  qed (auto simp: last_n_def)
  then show ?case using snoc e by (simp add: push_ok push_messages)
qed

text \<open>
  Draining takes the oldest messages first, at most as many as asked for, and leaves the
  rest in order: what is taken followed by what remains is what was there.
\<close>

theorem events_drain_fifo:
  assumes "ring_ok r" "0 \<le> limit" "events_drain limit r = (out, r')"
  shows "ring_ok r' \<and> out @ messages r' = messages r \<and> length out = min (nat limit) (length (messages r))"
  using drain_messages [OF assms] by auto

theorem events_drain_fifo_witness:
  "\<exists>out r'. events_drain 1 (events_push ''b'' (events_push ''a'' ring_init)) = (out, r') \<and>
     ring_ok r' \<and> out @ messages r' = [event_of ''a'' (Some []), event_of ''b'' (Some [])] \<and> length out = 1"
proof -
  let ?r = "events_push ''b'' (events_push ''a'' ring_init)"
  have ok: "ring_ok ?r" by (simp add: events_push_def push_ok)
  have m: "messages ?r = [event_of ''a'' (Some []), event_of ''b'' (Some [])]"
    by (simp add: events_push_def push_ok push_messages last_n_def EVENTS_BUF_SIZE_def)
  obtain out r' where d: "events_drain 1 ?r = (out, r')" by force
  from events_drain_fifo [OF ok _ d] show ?thesis using d by (auto simp: m)
qed

end
