(* ===== verification/Lifecycle.thy ===== *)
theory Lifecycle
  imports Allocator Events
begin

text \<open>
  The operations of \<open>src/core/job.c\<close> that create a job and move it between states, and the
  directory names of \<open>src/transfer/store.c\<close>. The state extends that of the allocator by the
  event ring. A \<open>Job\<close> in memory is a value passed in and out. The bytes of
  \<open>/dev/urandom\<close>, or the clock and \<open>rand()\<close> when it cannot be read, are an argument.
\<close>

section \<open>Model\<close>

record life_sys = alloc_sys +
  sy_ring :: ring

type_synonym printer = "(string \<times> string) list \<Rightarrow> string option"

subsection \<open>Directory names\<close>

definition store_input_dir :: "string \<Rightarrow> string \<Rightarrow> nat \<Rightarrow> string" where
  "store_input_dir work_dir job_id len = buf len (work_dir @ ''/'' @ job_id @ ''/input'')"

definition store_output_dir :: "string \<Rightarrow> string \<Rightarrow> nat \<Rightarrow> string" where
  "store_output_dir work_dir job_id len = buf len (work_dir @ ''/'' @ job_id @ ''/output'')"

definition store_stdout_path :: "string \<Rightarrow> string \<Rightarrow> nat \<Rightarrow> string" where
  "store_stdout_path work_dir job_id len = buf len (work_dir @ ''/'' @ job_id @ ''/stdout.log'')"

definition store_stderr_path :: "string \<Rightarrow> string \<Rightarrow> nat \<Rightarrow> string" where
  "store_stderr_path work_dir job_id len = buf len (work_dir @ ''/'' @ job_id @ ''/stderr.log'')"

subsection \<open>Identifiers\<close>

text \<open>\<open>%lx\<close>\<close>

fun hex_nat :: "nat \<Rightarrow> string" where
  "hex_nat n = (if n < 16 then [hex_digit (word_of_nat n)]
                else hex_nat (n div 16) @ [hex_digit (word_of_nat (n mod 16))])"

declare hex_nat.simps [simp del]

datatype entropy = Urandom "8 word list" | No_Urandom nat nat

definition job_new_id :: "entropy \<Rightarrow> string" where
  "job_new_id e =
     (case e of
        Urandom b \<Rightarrow> gen_uuid b
      | No_Urandom clock rnd \<Rightarrow> buf JOB_ID_LEN (hex_nat clock @ ''-'' @ hex_nat rnd))"

subsection \<open>Creation\<close>

definition positive_or :: "int \<Rightarrow> int \<Rightarrow> int" where
  "positive_or v d = (if v > 0 then v else d)"

definition new_job ::
  "string \<Rightarrow> string \<Rightarrow> string \<Rightarrow> int \<Rightarrow> int \<Rightarrow> int \<Rightarrow> int \<Rightarrow> int \<Rightarrow> string option \<Rightarrow> string option \<Rightarrow> int \<Rightarrow> job" where
  "new_job work_dir new_id command priority cores gpu ram_mb disk_mb user_id app_id now = job_zero\<lparr>
     j_id := new_id, j_command := buf JOB_CMD_LEN command,
     j_user_id := buf JOB_USER_LEN (col_text user_id), j_app_id := buf JOB_APP_LEN (col_text app_id),
     j_status := JOB_STATUS_QUEUED, j_priority := priority, j_req_cores := positive_or cores 1,
     j_req_gpu := positive_or gpu 0, j_req_ram_mb := positive_or ram_mb 0,
     j_req_disk_mb := positive_or disk_mb 0, j_submitted_at := now,
     j_input_dir := store_input_dir work_dir new_id 512,
     j_output_dir := store_output_dir work_dir new_id 512\<rparr>"

definition job_create_ex ::
  "bool \<Rightarrow> entropy \<Rightarrow> string \<Rightarrow> string \<Rightarrow> int \<Rightarrow> int \<Rightarrow> int \<Rightarrow> int \<Rightarrow> int \<Rightarrow> string option \<Rightarrow> string option \<Rightarrow>
   'a alloc_sys_scheme \<Rightarrow> job option \<times> 'a alloc_sys_scheme" where
  "job_create_ex calloc_ok e work_dir command priority cores gpu ram_mb disk_mb user_id app_id sys =
     (if \<not> calloc_ok then (None, sys)
      else let job = new_job work_dir (job_new_id e) command priority cores gpu ram_mb disk_mb user_id
                       app_id (sy_now sys);
               (r, d) = db_insert_job job (sy_db sys)
           in if r \<noteq> 0 then (None, sys\<lparr>sy_db := d\<rparr>) else (Some job, sys\<lparr>sy_db := d\<rparr>))"

definition job_create ::
  "bool \<Rightarrow> entropy \<Rightarrow> string \<Rightarrow> string \<Rightarrow> int \<Rightarrow> int \<Rightarrow> int \<Rightarrow> int \<Rightarrow> int \<Rightarrow>
   'a alloc_sys_scheme \<Rightarrow> job option \<times> 'a alloc_sys_scheme" where
  "job_create calloc_ok e work_dir command priority cores gpu ram_mb disk_mb =
     job_create_ex calloc_ok e work_dir command priority cores gpu ram_mb disk_mb (Some []) (Some [])"

subsection \<open>Transitions\<close>

definition status_members :: "job \<Rightarrow> job_status \<Rightarrow> string option \<Rightarrow> (string \<times> string) list" where
  "status_members job new_status reason =
     [(''event'', ''job_status''), (''id'', j_id job), (''status'', job_status_str new_status),
      (''machine_id'', j_machine_id job), (''reason'', col_text reason)]"

definition job_set_status_r ::
  "printer \<Rightarrow> job \<Rightarrow> job_status \<Rightarrow> string option \<Rightarrow> 'a life_sys_scheme \<Rightarrow> int \<times> job \<times> 'a life_sys_scheme" where
  "job_set_status_r print job new_status reason sys =
     (if \<not> transition_allowed (j_status job) new_status then (-1, job, sys)
      else
        let job1 = job\<lparr>j_status := new_status,
                        j_status_reason := (case reason of None \<Rightarrow> j_status_reason job
                                              | Some r \<Rightarrow> buf 256 r)\<rparr>;
            now = sy_now sys;
            job2 = (if terminal new_status then job1\<lparr>j_ended_at := now\<rparr> else job1);
            d1 = snd (if terminal new_status
                      then db_update_job_status (j_id job) new_status (j_exit_code job) now (sy_db sys)
                      else db_update_job_status (j_id job) new_status 0 0 (sy_db sys));
            d2 = (if col_text reason \<noteq> [] then snd (db_update_status_reason (j_id job) (col_text reason) d1)
                  else d1);
            ring = (case print (status_members job2 new_status reason) of
                      None \<Rightarrow> sy_ring sys
                    | Some serialized \<Rightarrow> events_push_user serialized (Some (j_user_id job)) (sy_ring sys))
        in (0, job2, sys\<lparr>sy_db := d2, sy_ring := ring\<rparr>))"

definition job_set_status ::
  "printer \<Rightarrow> job \<Rightarrow> job_status \<Rightarrow> 'a life_sys_scheme \<Rightarrow> int \<times> job \<times> 'a life_sys_scheme" where
  "job_set_status print job new_status = job_set_status_r print job new_status (Some [])"

section \<open>Laws\<close>

fun status_rank :: "job_status \<Rightarrow> nat" where
  "status_rank JOB_STATUS_CREATED = 0"
| "status_rank JOB_STATUS_QUEUED = 1"
| "status_rank JOB_STATUS_LEGACY_1 = 2"
| "status_rank JOB_STATUS_RUNNING = 2"
| "status_rank _ = 3"

lemma transition_rank: "transition_allowed s t \<Longrightarrow> status_rank s < status_rank t"
  by (cases s; cases t) auto

lemma transition_terminal: "terminal s \<Longrightarrow> \<not> transition_allowed s t"
  by (cases s) (auto simp: terminal_def)

lemma terminal_rank: "terminal s \<longleftrightarrow> status_rank s = 3"
  by (cases s) (auto simp: terminal_def)

lemma job_set_status_r_refused:
  "\<not> transition_allowed (j_status job) s \<Longrightarrow> job_set_status_r print job s reason sys = (-1, job, sys)"
  by (simp add: job_set_status_r_def)

text \<open>Whether the statement that stores the status succeeds.\<close>

definition store_ok :: "job \<Rightarrow> job_status \<Rightarrow> 'a life_sys_scheme \<Rightarrow> bool" where
  "store_ok job s sys \<longleftrightarrow>
     fst (if terminal s then db_update_job_status (j_id job) s (j_exit_code job) (sy_now sys) (sy_db sys)
          else db_update_job_status (j_id job) s 0 0 (sy_db sys)) = 0"

lemma job_set_status_r_allowed:
  assumes "transition_allowed (j_status job) s" "job_set_status_r print job s reason sys = (r, job', sys')"
  shows "r = 0 \<and> j_status job' = s \<and> j_id job' = j_id job \<and>
    sy_reg sys' = sy_reg sys \<and> sy_allocs sys' = sy_allocs sys \<and> sy_now sys' = sy_now sys \<and>
    (\<forall>k. db_status (sy_db sys') k =
       (if store_ok job s sys \<and> k = j_id job then map_option (\<lambda>_. s) (db_status (sy_db sys) k)
        else db_status (sy_db sys) k))"
proof -
  obtain e t where et: "(e, t) = (if terminal s then (j_exit_code job, sy_now sys) else (0, 0))"
    by (cases "terminal s") auto
  obtain q d1 where q: "db_update_job_status (j_id job) s e t (sy_db sys) = (q, d1)" by force
  have so: "store_ok job s sys \<longleftrightarrow> q = 0" using q et by (auto simp: store_ok_def split: if_splits)
  obtain p d2 where p: "db_update_status_reason (j_id job) (col_text reason) d1 = (p, d2)" by force
  have d: "sy_db sys' = (if col_text reason \<noteq> [] then d2 else d1)"
    using assms q p et by (auto simp: job_set_status_r_def Let_def split: if_splits)
  have "db_status d1 k = (if q = 0 \<and> k = j_id job then map_option (\<lambda>_. s) (db_status (sy_db sys) k)
      else db_status (sy_db sys) k)" for k
    using js.set_done [of "j_id job" s e t "sy_db sys" d1 k] js.set_failed [OF q] q by (cases "q = 0") auto
  moreover have "db_status d2 = db_status d1" using js.note_keeps [OF p] .
  ultimately show ?thesis using assms d so
    by (auto simp: job_set_status_r_def Let_def)
qed

lemma job_set_status_r_idle:
  assumes "db_idle (sy_db sys)" "job_set_status_r print job s reason sys = (r, job', sys')"
  shows "db_idle (sy_db sys')"
proof -
  have *: "db_idle (snd (update_job i f d))" if "db_idle d" for i f d
    using db_idle_update_job [OF that] by (metis prod.collapse)
  show ?thesis using assms * by (auto simp: job_set_status_r_def Let_def db_update_defs split: if_splits)
qed

lemma length_hex2 [simp]: "length (hex2 b) = 2"
  by (simp add: hex2_def)

lemma hex_digit_code: "hex_digit d = (if d < 10 then char_of (48 + unat d) else char_of (87 + unat d))"
  by (simp add: hex_digit_def)

lemma length_gen_uuid: "length (gen_uuid b) = 36"
  by (simp add: gen_uuid_def Let_def)

text \<open>The nibbles the two masks force.\<close>

lemma version_nibble: "drop_bit 4 (((b :: 8 word) AND 0x0f) OR 0x40) = 4"
  by (rule bit_word_eqI) (auto simp: bit_simps)

lemma variant_nibble: "drop_bit 4 (((b :: 8 word) AND 0x3f) OR 0x80) \<in> {8, 9, 10, 11}"
proof -
  let ?w = "drop_bit 4 ((b AND 0x3f) OR 0x80) :: 8 word"
  have "?w = (if bit b 5 then (if bit b 4 then 11 else 10) else if bit b 4 then 9 else 8)"
  proof (rule bit_word_eqI)
    fix n assume "n < LENGTH(8)"
    then have "n \<in> {0, 1, 2, 3, 4, 5, 6, 7}" by auto
    then show "bit ?w n = bit (if bit b 5 then (if bit b 4 then 11 else 10) else if bit b 4 then 9 else (8 :: 8 word)) n"
      by (elim insertE) (simp_all add: bit_simps)
  qed
  then show ?thesis by (simp split: if_splits)
qed

lemma hex_digit_values:
  "hex_digit 4 = CHR ''4''" "hex_digit 8 = CHR ''8''" "hex_digit 9 = CHR ''9''"
  "hex_digit 10 = CHR ''a''" "hex_digit 11 = CHR ''b''"
  by code_simp+

lemma hex_digit_variant:
  "d \<in> {8, 9, 10, 11} \<Longrightarrow> hex_digit d \<in> {CHR ''8'', CHR ''9'', CHR ''a'', CHR ''b''}"
  by (elim insertE emptyE) (simp_all only: hex_digit_values insert_iff simp_thms)

section \<open>Claims\<close>

definition demo_life :: life_sys where
  "demo_life = \<lparr> sy_reg = demo_registry, sy_allocs = [], sy_alloc_capacity = 0,
     sy_db = opened_db (empty_tables\<lparr>t_jobs := [insert_job_row (job_zero\<lparr>j_id := ''a''\<rparr>)]\<rparr>),
     sy_now = 5, sy_ring = ring_init \<rparr>"

text \<open>
  \<open>job_set_status_r\<close> refuses exactly the moves the transition table does not allow, with -1
  and without any effect. Otherwise the job in memory has the new status, the registry and the
  allocations are untouched, and in the database the status of this job, and of no other, is
  the new one provided the statement that stores it succeeded.
\<close>

theorem job_set_status_r_correct:
  assumes "job_set_status_r print job s reason sys = (r, job', sys')"
  shows "if transition_allowed (j_status job) s
    then r = 0 \<and> j_status job' = s \<and> j_id job' = j_id job \<and>
      sy_reg sys' = sy_reg sys \<and> sy_allocs sys' = sy_allocs sys \<and>
      (\<forall>k. db_status (sy_db sys') k =
         (if store_ok job s sys \<and> k = j_id job then map_option (\<lambda>_. s) (db_status (sy_db sys) k)
          else db_status (sy_db sys) k))
    else r = -1 \<and> job' = job \<and> sys' = sys"
  using job_set_status_r_allowed [OF _ assms] job_set_status_r_refused [of job s print reason sys] assms
  by auto

theorem job_set_status_r_correct_witness:
  "\<exists>job' sys'. job_set_status_r (\<lambda>_. None) (job_zero\<lparr>j_id := ''a''\<rparr>) JOB_STATUS_RUNNING (Some ''go'') demo_life =
      (0, job', sys') \<and> j_status job' = JOB_STATUS_RUNNING \<and>
      db_status (sy_db sys') ''a'' = Some JOB_STATUS_RUNNING"
proof -
  let ?j = "job_zero\<lparr>j_id := ''a''\<rparr>"
  obtain r job' sys' where run: "job_set_status_r (\<lambda>_. None) ?j JOB_STATUS_RUNNING (Some ''go'') demo_life = (r, job', sys')"
    by (metis prod_cases3)
  have "store_ok ?j JOB_STATUS_RUNNING demo_life"
    by (simp add: store_ok_def terminal_def db_update_defs update_job_def demo_life_def update_jobs_def
        update_rows_def sql_run_def sql_write_def)
  moreover have "db_status (sy_db demo_life) ''a'' = Some JOB_STATUS_QUEUED"
    by (simp add: demo_life_def db_status_def lookup_status_def insert_job_row_def job_zero_def)
  moreover have "j_status ?j = JOB_STATUS_QUEUED" "j_id ?j = ''a''" by (simp_all add: job_zero_def)
  ultimately show ?thesis using job_set_status_r_correct [OF run] run by simp
qed



text \<open>
  When the statement that stores the new status fails, \<open>job_set_status_r\<close> still answers 0 and
  the job in memory has moved on, while every status in the database is the old one.
\<close>

theorem job_set_status_r_ignores_store_failure:
  assumes "transition_allowed (j_status job) s" "\<not> store_ok job s sys"
    "job_set_status_r print job s reason sys = (r, job', sys')"
  shows "r = 0 \<and> j_status job' = s \<and> db_status (sy_db sys') = db_status (sy_db sys)"
  using job_set_status_r_allowed [OF assms(1,3)] assms(2) by (auto simp: fun_eq_iff)

theorem job_set_status_r_ignores_store_failure_witness:
  "let sys = demo_life\<lparr>sy_db := (sy_db demo_life)\<lparr>db_plan := [SQL_STEP_FAILS]\<rparr>\<rparr>; job = job_zero\<lparr>j_id := ''a''\<rparr> in
   \<not> store_ok job JOB_STATUS_CANCELLED sys \<and>
   (\<exists>job' sys'. job_set_status_r (\<lambda>_. None) job JOB_STATUS_CANCELLED None sys = (0, job', sys') \<and>
      j_status job' = JOB_STATUS_CANCELLED \<and> db_status (sy_db sys') ''a'' = Some JOB_STATUS_QUEUED)"
proof -
  let ?sys = "demo_life\<lparr>sy_db := (sy_db demo_life)\<lparr>db_plan := [SQL_STEP_FAILS]\<rparr>\<rparr>"
  let ?j = "job_zero\<lparr>j_id := ''a''\<rparr>"
  obtain r job' sys' where run: "job_set_status_r (\<lambda>_. None) ?j JOB_STATUS_CANCELLED None ?sys = (r, job', sys')"
    by (metis prod_cases3)
  have ns: "\<not> store_ok ?j JOB_STATUS_CANCELLED ?sys"
    by (simp add: store_ok_def terminal_def db_update_defs update_job_def sql_run_def sql_write_def sql_next_def)
  have "transition_allowed (j_status ?j) JOB_STATUS_CANCELLED" by (simp add: job_zero_def)
  from job_set_status_r_ignores_store_failure [OF this ns run]
  have "r = 0 \<and> j_status job' = JOB_STATUS_CANCELLED \<and> db_status (sy_db sys') = db_status (sy_db ?sys)" .
  moreover have "db_status (sy_db ?sys) ''a'' = Some JOB_STATUS_QUEUED"
    by (simp add: demo_life_def db_status_def lookup_status_def insert_job_row_def job_zero_def)
  ultimately show ?thesis using ns run unfolding Let_def by metis
qed

text \<open>
  An identifier made from random bytes is a version 4 UUID in its text form: 36 characters,
  hyphens after 8, 13, 18 and 23 of them, the digit 4 as the version and one of 8, 9, a, b as the
  variant. It fits the field of the structure without being cut.
\<close>

theorem gen_uuid_format:
  "length (gen_uuid b) = 36 \<and> length (gen_uuid b) < JOB_ID_LEN \<and>
   gen_uuid b ! 8 = CHR ''-'' \<and> gen_uuid b ! 13 = CHR ''-'' \<and> gen_uuid b ! 18 = CHR ''-'' \<and>
   gen_uuid b ! 23 = CHR ''-'' \<and>
   (length b = 16 \<longrightarrow> gen_uuid b ! 14 = CHR ''4'' \<and> gen_uuid b ! 19 \<in> {CHR ''8'', CHR ''9'', CHR ''a'', CHR ''b''})"
proof -
  define c where "c = uuid_bytes b"
  have g: "gen_uuid b ! 8 = CHR ''-''" "gen_uuid b ! 13 = CHR ''-''" "gen_uuid b ! 18 = CHR ''-''"
    "gen_uuid b ! 23 = CHR ''-''" "gen_uuid b ! 14 = hex2 (c ! 6) ! 0" "gen_uuid b ! 19 = hex2 (c ! 8) ! 0"
    by (simp_all add: gen_uuid_def Let_def nth_append c_def)
  have "hex_digit (drop_bit 4 (((b ! 8) AND 0x3f) OR 0x80)) \<in> {CHR ''8'', CHR ''9'', CHR ''a'', CHR ''b''}"
    by (rule hex_digit_variant [OF variant_nibble])
  moreover have "hex_digit (drop_bit 4 (((b ! 6) AND 0x0f) OR 0x40)) = CHR ''4''"
    unfolding version_nibble by (rule hex_digit_values)
  moreover have "length b = 16 \<Longrightarrow> c ! 6 = ((b ! 6) AND 0x0f) OR 0x40 \<and> c ! 8 = ((b ! 8) AND 0x3f) OR 0x80"
    by (simp add: c_def uuid_bytes_def)
  ultimately show ?thesis unfolding g by (simp add: length_gen_uuid JOB_ID_LEN_def hex2_def)
qed

theorem gen_uuid_format_witness:
  "length (replicate 16 (0 :: 8 word)) = 16 \<and> gen_uuid (replicate 16 0) ! 14 = CHR ''4''"
  using gen_uuid_format [of "replicate 16 0"] by simp

text \<open>
  \<open>job_create_ex\<close> on success returns a job that is QUEUED in memory and in the database, with
  an identifier no other row has, at least one core and no negative amount requested; no other
  row changes. If it fails, the tables are as before.
\<close>

theorem job_create_ex_correct:
  assumes "job_create_ex calloc_ok e work_dir command priority c g ram disk u a sys = (out, sys')"
  shows "case out of
      None \<Rightarrow> db_tables (sy_db sys') = db_tables (sy_db sys)
    | Some job \<Rightarrow> j_status job = JOB_STATUS_QUEUED \<and> job_row_of (db_tables (sy_db sys)) (j_id job) = None \<and>
        job_row_of (db_tables (sy_db sys')) = (job_row_of (db_tables (sy_db sys)))(j_id job \<mapsto> insert_job_row job) \<and>
        db_status (sy_db sys') (j_id job) = Some JOB_STATUS_QUEUED \<and>
        1 \<le> j_req_cores job \<and> 0 \<le> j_req_gpu job \<and> 0 \<le> j_req_ram_mb job \<and> 0 \<le> j_req_disk_mb job"
proof (cases calloc_ok)
  case False
  then show ?thesis using assms by (simp add: job_create_ex_def split: option.split)
next
  case True
  let ?job = "new_job work_dir (job_new_id e) command priority c g ram disk u a (sy_now sys)"
  obtain r d where r: "db_insert_job ?job (sy_db sys) = (r, d)" by force
  show ?thesis
  proof (cases "r = 0")
    case True
    note i = r [unfolded True]
    have "out = Some ?job" "sy_db sys' = d" using assms \<open>calloc_ok\<close> i by (auto simp: job_create_ex_def)
    then show ?thesis using db_insert_job_0(1) [OF i] job_row_of_insert [OF i]
      by (simp add: db_status_def lookup_status_row) (simp add: new_job_def positive_or_def insert_job_row_def)
  next
    case False
    then have "db_tables d = db_tables (sy_db sys)"
      using sql_run_fails r by (auto simp: db_insert_job_def)
    then show ?thesis using assms \<open>calloc_ok\<close> False r by (auto simp: job_create_ex_def)
  qed
qed

theorem job_create_ex_correct_witness:
  "\<exists>job sys'. job_create_ex True (No_Urandom 1 2) ''w'' ''run'' 50 0 0 (-5) 0 (Some ''u'') None demo_life = (Some job, sys') \<and>
     j_status job = JOB_STATUS_QUEUED \<and> 1 \<le> j_req_cores job \<and> 0 \<le> j_req_ram_mb job"
proof -
  obtain out sys' where run:
    "job_create_ex True (No_Urandom 1 2) ''w'' ''run'' 50 0 0 (-5) 0 (Some ''u'') None demo_life = (out, sys')" by force
  have "buf JOB_ID_LEN (hex_nat 1 @ ''-'' @ hex_nat 2) \<noteq> ''a''"
    by (simp add: hex_nat.simps buf_def JOB_ID_LEN_def)
  then have "out \<noteq> None" using run
    by (auto simp: job_create_ex_def demo_life_def db_insert_job_def sql_run_def sql_write_def new_job_def
        job_new_id_def insert_job_row_def Let_def split: if_splits)
  then obtain job where "out = Some job" by auto
  with job_create_ex_correct [OF run] run show ?thesis by auto
qed

end
