(* ===== verification/Cloud.thy ===== *)
theory Cloud
  imports Allocator Lifecycle
begin

text \<open>
  \<open>src/cloud/cloud.c\<close>: machines rented through the command line tools of three providers.
  \<open>popen\<close> is an argument: for a command, \<open>None\<close> when it cannot be started, else its exit code and
  its output. Every operation also returns the commands it ran, in order.
\<close>

section \<open>Model\<close>

record cloud_spec =
  cs_provider :: string
  cs_instance_type :: string
  cs_region :: string
  cs_image_id :: string
  cs_cores :: int
  cs_gpu_count :: int
  cs_ram_mb :: int
  cs_disk_mb :: int
  cs_tags :: string
  cs_cores_min :: int
  cs_ram_mb_min :: int
  cs_disk_mb_min :: int

type_synonym popen = "string \<Rightarrow> (int \<times> string) option"

definition dquote :: char where "dquote = CHR 0x22"

definition run_command :: "popen \<Rightarrow> string \<Rightarrow> nat \<Rightarrow> int \<times> string" where
  "run_command popen cmd buf_len =
     (case popen cmd of None \<Rightarrow> (-1, []) | Some (rc, out) \<Rightarrow> (rc, buf buf_len out))"

definition safe_arg_char :: "char \<Rightarrow> bool" where
  "safe_arg_char c \<longleftrightarrow> CHR ''a'' \<le> c \<and> c \<le> CHR ''z'' \<or> CHR ''A'' \<le> c \<and> c \<le> CHR ''Z'' \<or>
     CHR ''0'' \<le> c \<and> c \<le> CHR ''9'' \<or> c \<in> set ''-_./:,=''"

definition is_safe_arg :: "string \<Rightarrow> bool" where
  "is_safe_arg s \<longleftrightarrow> (s = [] \<or> hd s \<noteq> CHR ''-'') \<and> list_all safe_arg_char s"

definition nonempty_or :: "string \<Rightarrow> string \<Rightarrow> string" where
  "nonempty_or s d = (if s \<noteq> [] then s else d)"

text \<open>The text between the first two double quotes.\<close>

definition quoted :: "string \<Rightarrow> string" where
  "quoted result =
     (case dropWhile (\<lambda>c. c \<noteq> dquote) result of
        [] \<Rightarrow> []
      | _ # start \<Rightarrow> if dquote \<in> set start then takeWhile (\<lambda>c. c \<noteq> dquote) start else [])"

definition cloud_machine :: "string \<Rightarrow> string \<Rightarrow> cloud_spec \<Rightarrow> machine" where
  "cloud_machine provider name spec = machine_zero\<lparr>
     m_id := buf 64 (''cloud-'' @ name), m_cloud_instance_id := buf 128 name,
     m_cloud_provider := buf 32 provider, m_type := MACHINE_TYPE_CLOUD, m_enabled := True,
     m_cores_total := positive_or (cs_cores spec) 2, m_ram_mb_total := positive_or (cs_ram_mb spec) 4096,
     m_disk_mb_total := positive_or (cs_disk_mb spec) 50000, m_gpu_count_total := cs_gpu_count spec,
     m_cores_min := cs_cores_min spec, m_ram_mb_min := cs_ram_mb_min spec,
     m_disk_mb_min := cs_disk_mb_min spec, m_probe_status := MACHINE_PROBING\<rparr>"

definition safe_spec :: "cloud_spec \<Rightarrow> bool" where
  "safe_spec spec \<longleftrightarrow> is_safe_arg (cs_instance_type spec) \<and> is_safe_arg (cs_region spec) \<and>
     is_safe_arg (cs_image_id spec)"

text \<open>Registers what was rented; \<open>cleanup\<close> is run when the registry refuses it.\<close>

definition register_machine ::
  "machine \<Rightarrow> nat \<Rightarrow> string \<Rightarrow> string list \<Rightarrow> string \<Rightarrow> registry \<Rightarrow> int \<times> string \<times> registry \<times> string list" where
  "register_machine m id_len out cmds cleanup reg =
     (let (r, reg') = registry_upsert m reg in
      if r \<noteq> 0 then (-1, out, reg', cmds @ [cleanup]) else (0, buf id_len (m_id m), reg', cmds))"

subsection \<open>AWS\<close>

definition aws_terminate :: "string \<Rightarrow> string" where
  "aws_terminate instance_id =
     buf 512 (''aws ec2 terminate-instances --instance-ids '' @ instance_id @ '' --output json'')"

definition aws_provision ::
  "popen \<Rightarrow> cloud_spec \<Rightarrow> nat \<Rightarrow> registry \<Rightarrow> int \<times> string \<times> registry \<times> string list" where
  "aws_provision popen spec id_len reg =
     (if \<not> safe_spec spec then (-1, [], reg, [])
      else
        let cmd = buf 1024 (''aws ec2 run-instances --instance-type '' @
                    nonempty_or (cs_instance_type spec) ''t3.medium'' @ '' --region '' @
                    nonempty_or (cs_region spec) ''us-east-1'' @ '' --image-id '' @ cs_image_id spec @
                    '' --count 1 --output json --query '' @ [dquote] @ ''Instances[0].InstanceId'' @ [dquote]);
            (rc, result) = run_command popen cmd 2048;
            out_id = buf id_len (quoted result) in
        if rc \<noteq> 0 then (-1, [], reg, [cmd])
        else if out_id = [] then (-1, [], reg, [cmd])
        else register_machine (cloud_machine ''aws'' out_id spec) id_len out_id [cmd]
               (aws_terminate out_id) reg)"

definition aws_deprovision :: "popen \<Rightarrow> string \<Rightarrow> registry \<Rightarrow> int \<times> registry \<times> string list" where
  "aws_deprovision popen instance_id reg =
     (if \<not> is_safe_arg instance_id then (-1, reg, [])
      else
        let cmd = aws_terminate instance_id;
            (rc, result) = run_command popen cmd 2048 in
        if rc \<noteq> 0 then (-1, reg, [cmd])
        else (0, snd (registry_remove (buf 128 (''cloud-'' @ instance_id)) reg), [cmd]))"

definition trim_line_end :: "string \<Rightarrow> string" where
  "trim_line_end s = rev (dropWhile (\<lambda>c. c \<in> {CHR 0x0A, CHR 0x0D, CHR '' ''}) (rev s))"

definition aws_status :: "popen \<Rightarrow> string \<Rightarrow> nat \<Rightarrow> int \<times> string \<times> string list" where
  "aws_status popen instance_id status_len =
     (if \<not> is_safe_arg instance_id then (-1, [], [])
      else
        let cmd = buf 512 (''aws ec2 describe-instance-status --instance-ids '' @ instance_id @
                    '' --query '' @ [dquote] @ ''InstanceStatuses[0].InstanceState.Name'' @ [dquote] @
                    '' --output text'');
            (rc, result) = run_command popen cmd 256 in
        if rc \<noteq> 0 then (-1, buf status_len ''unknown'', [cmd])
        else (0, buf status_len (trim_line_end result), [cmd]))"

subsection \<open>GCP\<close>

definition gcp_delete :: "string \<Rightarrow> string" where
  "gcp_delete name = buf 512 (''gcloud compute instances delete '' @ name @ '' --quiet'')"

definition gcp_provision ::
  "popen \<Rightarrow> int \<Rightarrow> cloud_spec \<Rightarrow> nat \<Rightarrow> registry \<Rightarrow> int \<times> string \<times> registry \<times> string list" where
  "gcp_provision popen now spec id_len reg =
     (if \<not> safe_spec spec then (-1, [], reg, [])
      else
        let name = buf 64 (''orch-'' @ dec now);
            cmd = buf 1024 (''gcloud compute instances create '' @ name @ '' --machine-type='' @
                    nonempty_or (cs_instance_type spec) ''e2-medium'' @ '' --zone='' @
                    nonempty_or (cs_region spec) ''us-central1-a'' @ '' --image='' @
                    nonempty_or (cs_image_id spec) ''debian-11'' @ '' --format=json --quiet'');
            (rc, result) = run_command popen cmd 4096 in
        if rc \<noteq> 0 then (-1, [], reg, [cmd])
        else register_machine (cloud_machine ''gcp'' name spec) id_len [] [cmd] (gcp_delete name) reg)"

definition gcp_deprovision :: "popen \<Rightarrow> string \<Rightarrow> registry \<Rightarrow> int \<times> registry \<times> string list" where
  "gcp_deprovision popen instance_id reg =
     (if \<not> is_safe_arg instance_id then (-1, reg, [])
      else
        let cmd = gcp_delete instance_id;
            (rc, result) = run_command popen cmd 2048 in
        if rc = 0 then (0, snd (registry_remove (buf 128 (''cloud-'' @ instance_id)) reg), [cmd])
        else (-1, reg, [cmd]))"

subsection \<open>Azure\<close>

definition azure_delete :: "string \<Rightarrow> string" where
  "azure_delete name =
     buf 512 (''az vm delete --name '' @ name @ '' --resource-group orchestrator --yes --no-wait'')"

definition azure_provision ::
  "popen \<Rightarrow> int \<Rightarrow> cloud_spec \<Rightarrow> nat \<Rightarrow> registry \<Rightarrow> int \<times> string \<times> registry \<times> string list" where
  "azure_provision popen now spec id_len reg =
     (if \<not> safe_spec spec then (-1, [], reg, [])
      else
        let name = buf 64 (''orch-'' @ dec now);
            cmd = buf 1024 (''az vm create --name '' @ name @ '' --size '' @
                    nonempty_or (cs_instance_type spec) ''Standard_B2s'' @ '' --location '' @
                    nonempty_or (cs_region spec) ''eastus'' @ '' --image '' @
                    nonempty_or (cs_image_id spec) ''UbuntuLTS'' @
                    '' --resource-group orchestrator --output json --no-wait'');
            (rc, result) = run_command popen cmd 4096 in
        if rc \<noteq> 0 then (-1, [], reg, [cmd])
        else register_machine (cloud_machine ''azure'' name spec) id_len [] [cmd] (azure_delete name) reg)"

definition azure_deprovision :: "popen \<Rightarrow> string \<Rightarrow> registry \<Rightarrow> int \<times> registry \<times> string list" where
  "azure_deprovision popen instance_id reg =
     (if \<not> is_safe_arg instance_id then (-1, reg, [])
      else
        let cmd = azure_delete instance_id;
            (rc, result) = run_command popen cmd 2048 in
        if rc = 0 then (0, snd (registry_remove (buf 128 (''cloud-'' @ instance_id)) reg), [cmd])
        else (-1, reg, [cmd]))"

subsection \<open>The interface\<close>

definition cloud_provision ::
  "popen \<Rightarrow> int \<Rightarrow> cloud_spec \<Rightarrow> nat \<Rightarrow> registry \<Rightarrow> int \<times> string \<times> registry \<times> string list" where
  "cloud_provision popen now spec id_len reg =
     (if id_len = 0 then (-1, [], reg, [])
      else if cs_provider spec = ''aws'' then aws_provision popen spec id_len reg
      else if cs_provider spec = ''gcp'' then gcp_provision popen now spec id_len reg
      else if cs_provider spec = ''azure'' then azure_provision popen now spec id_len reg
      else (-1, [], reg, []))"

definition cloud_deprovision :: "popen \<Rightarrow> string \<Rightarrow> string \<Rightarrow> registry \<Rightarrow> int \<times> registry \<times> string list" where
  "cloud_deprovision popen provider instance_id reg =
     (if provider = ''aws'' then aws_deprovision popen instance_id reg
      else if provider = ''gcp'' then gcp_deprovision popen instance_id reg
      else if provider = ''azure'' then azure_deprovision popen instance_id reg
      else (-1, reg, []))"

definition cloud_status :: "popen \<Rightarrow> string \<Rightarrow> string \<Rightarrow> nat \<Rightarrow> int \<times> string \<times> string list" where
  "cloud_status popen provider instance_id status_len =
     (if status_len = 0 then (-1, [], [])
      else if provider = ''aws'' then aws_status popen instance_id status_len
      else (0, buf status_len ''unknown'', []))"

section \<open>What reaches the shell\<close>

text \<open>No character with which a shell would start, end or redirect a command, or substitute one.\<close>

definition shell_meta :: "char \<Rightarrow> bool" where
  "shell_meta c \<longleftrightarrow> c \<in> set ''$;&|<>()*?~#!'' \<or> c \<in> {CHR 0x60, CHR 0x27, CHR 0x5C, CHR 0x0A}"

definition plain :: "string \<Rightarrow> bool" where
  "plain s \<longleftrightarrow> (\<forall>c \<in> set s. \<not> shell_meta c)"

named_theorems plain_simps \<open>texts without shell metacharacters\<close>

lemma plain_append [plain_simps]: "plain (s @ t) \<longleftrightarrow> plain s \<and> plain t"
  by (auto simp: plain_def)

lemma plain_Cons [plain_simps]: "plain (c # s) \<longleftrightarrow> \<not> shell_meta c \<and> plain s" "plain []"
  by (auto simp: plain_def)

lemma plain_buf [plain_simps]: "plain s \<Longrightarrow> plain (buf n s)"
  by (auto simp: plain_def buf_def dest: in_set_takeD)

lemma plain_nonempty_or [plain_simps]: "plain s \<Longrightarrow> plain d \<Longrightarrow> plain (nonempty_or s d)"
  by (simp add: nonempty_or_def)

lemma safe_arg_char_plain: "safe_arg_char c \<Longrightarrow> \<not> shell_meta c"
  by (auto simp: safe_arg_char_def shell_meta_def less_eq_char_def)

lemma plain_safe_arg: "is_safe_arg s \<Longrightarrow> plain s"
  using safe_arg_char_plain by (auto simp: plain_def is_safe_arg_def list_all_iff)

lemma shell_meta_literals [plain_simps]:
  "shell_meta c \<longleftrightarrow> c \<in> set ''$;&|<>()*?~#!'' \<or> c \<in> {CHR 0x60, CHR 0x27, CHR 0x5C, CHR 0x0A}"
  by (rule shell_meta_def)

lemma plain_dec [plain_simps]: "plain (dec i)"
proof -
  have "plain (dec_nat n)" for n
  proof (induction n rule: dec_nat.induct)
    case (1 n)
    have "plain [digit d]" if "d < 10" for d
    proof -
      have "d \<in> {0, 1, 2, 3, 4, 5, 6, 7, 8, 9}" using that by auto
      then show ?thesis by (elim insertE emptyE) (simp_all add: plain_def shell_meta_def digit_def char_of_def)
    qed
    then show ?case using 1 by (subst dec_nat.simps) (auto simp: plain_append)
  qed
  then show ?thesis by (simp add: dec_def plain_Cons shell_meta_def)
qed

lemma plain_commands [plain_simps]:
  "plain i \<Longrightarrow> plain (aws_terminate i)" "plain i \<Longrightarrow> plain (gcp_delete i)" "plain i \<Longrightarrow> plain (azure_delete i)"
  by (simp_all add: aws_terminate_def gcp_delete_def azure_delete_def plain_simps)

lemma provision_commands:
  assumes "safe_spec spec"
  shows "aws_provision popen spec n reg = (r, out, reg', cmds) \<Longrightarrow> cmd \<in> set cmds \<Longrightarrow>
      plain cmd \<or> r = -1 \<and> cmd = aws_terminate out"
    "gcp_provision popen now spec n reg = (r, out, reg', cmds) \<Longrightarrow> cmd \<in> set cmds \<Longrightarrow> plain cmd"
    "azure_provision popen now spec n reg = (r, out, reg', cmds) \<Longrightarrow> cmd \<in> set cmds \<Longrightarrow> plain cmd"
proof -
  have s: "plain (cs_instance_type spec)" "plain (cs_region spec)" "plain (cs_image_id spec)"
    using assms by (simp_all add: safe_spec_def plain_safe_arg)
  show "aws_provision popen spec n reg = (r, out, reg', cmds) \<Longrightarrow> cmd \<in> set cmds \<Longrightarrow>
      plain cmd \<or> r = -1 \<and> cmd = aws_terminate out"
    using assms by (auto simp: aws_provision_def register_machine_def Let_def plain_simps dquote_def s
        split: if_splits prod.splits)
  show "gcp_provision popen now spec n reg = (r, out, reg', cmds) \<Longrightarrow> cmd \<in> set cmds \<Longrightarrow> plain cmd"
    using assms by (auto simp: gcp_provision_def register_machine_def Let_def plain_simps s
        split: if_splits prod.splits)
  show "azure_provision popen now spec n reg = (r, out, reg', cmds) \<Longrightarrow> cmd \<in> set cmds \<Longrightarrow> plain cmd"
    using assms by (auto simp: azure_provision_def register_machine_def Let_def plain_simps s
        split: if_splits prod.splits)
qed

section \<open>What happens to the registry\<close>

definition spec_fits :: "cloud_spec \<Rightarrow> bool" where
  "spec_fits spec \<longleftrightarrow> int32 (cs_cores spec) \<and> int32 (cs_gpu_count spec) \<and> int32 (cs_ram_mb spec) \<and>
     int32 (cs_disk_mb spec)"

lemma cloud_machine_config: "spec_fits spec \<Longrightarrow> config_only (cloud_machine p name spec)"
  by (auto simp: config_only_def cloud_machine_def machine_zero_def reserved_def total_def zero_res_def
      res_le_iff spec_fits_def int32_def positive_or_def buf_def)

lemma register_machine_cases:
  assumes "register_machine m n out cmds cleanup reg = (r, out', reg', cmds')"
  shows "(r = 0 \<and> registry_upsert m reg = (0, reg') \<and> out' = buf n (m_id m)) \<or> (r = -1 \<and> reg' = reg)"
proof -
  have fail: "reg1 = reg" if "registry_upsert m reg = (q, reg1)" "q \<noteq> 0" for q reg1
    using that by (auto simp: registry_upsert_def Let_def split: if_splits option.splits)
  then show ?thesis using assms by (auto simp: register_machine_def split: if_splits prod.splits)
qed

lemma cloud_provision_cases:
  assumes "cloud_provision popen now spec n reg = (r, out, reg', cmds)"
  shows "r = -1 \<and> reg' = reg \<or>
    (\<exists>name. r = 0 \<and> registry_upsert (cloud_machine (cs_provider spec) name spec) reg = (0, reg') \<and>
       out = buf n (buf 64 (''cloud-'' @ name)))"
proof -
  have id: "m_id (cloud_machine p name spec) = buf 64 (''cloud-'' @ name)" for p name
    by (simp add: cloud_machine_def)
  have "(r = -1 \<and> reg' = reg) \<or> (\<exists>name out1 cmds1 cleanup.
      register_machine (cloud_machine (cs_provider spec) name spec) n out1 cmds1 cleanup reg = (r, out, reg', cmds))"
    using assms
    by (auto simp: cloud_provision_def aws_provision_def gcp_provision_def azure_provision_def Let_def
        split: if_splits prod.splits)
  then show ?thesis using register_machine_cases id by metis
qed

lemma cloud_deprovision_cases:
  assumes "cloud_deprovision popen provider i reg = (r, reg', cmds)"
  shows "r = -1 \<and> reg' = reg \<or>
    (r = 0 \<and> reg' = snd (registry_remove (buf 128 (''cloud-'' @ i)) reg))"
  using assms
  by (auto simp: cloud_deprovision_def aws_deprovision_def gcp_deprovision_def azure_deprovision_def Let_def
      split: if_splits prod.splits)

section \<open>Claims\<close>

definition demo_spec :: cloud_spec where
  "demo_spec = \<lparr> cs_provider = ''gcp'', cs_instance_type = [], cs_region = ''eu-1'', cs_image_id = [],
     cs_cores = 8, cs_gpu_count = 0, cs_ram_mb = 0, cs_disk_mb = 0, cs_tags = [], cs_cores_min = 0,
     cs_ram_mb_min = 0, cs_disk_mb_min = 0 \<rparr>"

lemma dec_7: "dec 7 = ''7''"
  by code_simp

lemma demo_spec_provision:
  "\<exists>cmds. cloud_provision (\<lambda>cmd. Some (0, [])) 7 demo_spec 64 demo_registry =
     (0, ''cloud-orch-7'', demo_registry @ [cloud_machine ''gcp'' ''orch-7'' demo_spec], cmds)"
  by (simp add: cloud_provision_def demo_spec_def gcp_provision_def safe_spec_def is_safe_arg_def
      safe_arg_char_def less_eq_char_def run_command_def register_machine_def cloud_machine_def
      registry_upsert_def dec_7 buf_def Let_def positive_or_def
      machine_zero_def safe_machine_text_def safe_machine_char_def find_machine_def demo_registry_def
      demo_machine_def strcmp_def MAX_MACHINES_def)

text \<open>
  Renting a machine keeps the registry well formed and every reservation. When it fails the
  registry is as before; when it succeeds the machine is registered under the returned identifier,
  as a machine of that provider with the capacity asked for.
\<close>

theorem cloud_provision_registry:
  assumes "registry_ok reg" "spec_fits spec" "64 \<le> n"
    "cloud_provision popen now spec n reg = (r, out, reg', cmds)"
  shows "registry_ok reg' \<and> rs.used reg' = rs.used reg \<and>
    (r = -1 \<and> reg' = reg \<or>
     r = 0 \<and> (\<exists>m. registry_get_copy reg' out = Some m \<and> m_type m = MACHINE_TYPE_CLOUD \<and>
       m_cloud_provider m = buf 32 (cs_provider spec) \<and> m_enabled m \<and>
       total m = Res (positive_or (cs_cores spec) 2) (cs_gpu_count spec) (positive_or (cs_ram_mb spec) 4096)
                   (positive_or (cs_disk_mb spec) 50000)))"
proof (cases "r = -1 \<and> reg' = reg")
  case True
  then show ?thesis using assms(1) by simp
next
  case False
  then obtain name where "r = 0" and out: "out = buf n (buf 64 (''cloud-'' @ name))"
    and up: "registry_upsert (cloud_machine (cs_provider spec) name spec) reg = (0, reg')"
    using cloud_provision_cases [OF assms(4)] by blast
  define m where "m = cloud_machine (cs_provider spec) name spec"
  have id: "m_id m = out" using out assms(3) by (simp add: m_def cloud_machine_def buf_def del: take_Cons_numeral)
  have c: "config_only m" using cloud_machine_config [OF assms(2)] by (simp add: m_def)
  note up = up [folded m_def]
  have ok: "registry_ok reg'" using registry_upsert_ok [OF assms(1) c up] .
  have "(if find_machine reg out = None then m else reconfigured (reg ! the (find_machine reg out)) m) \<in> set reg'"
  proof (cases "find_machine reg out")
    case None
    then show ?thesis using registry_upsert_new(2) [of reg m reg'] up id by simp
  next
    case (Some i)
    then show ?thesis using registry_upsert_existing(2) [of reg m i reg'] up id find_machine_SomeD [OF Some]
      by (simp add: set_update_memI)
  qed
  then have stored: "registry_get_copy reg' out =
      Some (if find_machine reg out = None then m else reconfigured (reg ! the (find_machine reg out)) m)"
    using id ok by (simp add: registry_get_copy_iff registry_ok_def reconfigured_def set_reserved_def)
  have "m_type m = MACHINE_TYPE_CLOUD \<and> m_cloud_provider m = buf 32 (cs_provider spec) \<and> m_enabled m \<and>
      total m = Res (positive_or (cs_cores spec) 2) (cs_gpu_count spec) (positive_or (cs_ram_mb spec) 4096)
                   (positive_or (cs_disk_mb spec) 50000)"
    by (simp add: m_def cloud_machine_def total_def)
  then show ?thesis
    using ok used_upsert [OF assms(1) c up] stored \<open>r = 0\<close>
    by (auto simp: reconfigured_def set_reserved_def total_def)
qed

theorem cloud_provision_registry_witness:
  "registry_ok (demo_registry @ [cloud_machine ''gcp'' ''orch-7'' demo_spec]) \<and>
   (\<exists>m. registry_get_copy (demo_registry @ [cloud_machine ''gcp'' ''orch-7'' demo_spec]) ''cloud-orch-7'' = Some m \<and>
      total m = Res 8 0 4096 50000)"
proof -
  obtain cmds where run: "cloud_provision (\<lambda>cmd. Some (0, [])) 7 demo_spec 64 demo_registry =
     (0, ''cloud-orch-7'', demo_registry @ [cloud_machine ''gcp'' ''orch-7'' demo_spec], cmds)"
    using demo_spec_provision by blast
  have "spec_fits demo_spec" by (simp add: spec_fits_def demo_spec_def int32_def)
  from cloud_provision_registry [OF demo_registry_ok this _ run] show ?thesis
    by (auto simp: demo_spec_def positive_or_def)
qed

text \<open>
  Nothing a caller passes can smuggle a command into the shell: whatever the specification, the
  provider and the instance identifier are, every command run is free of shell metacharacters, except
  the one with which AWS is told to drop an instance the registry refused.
\<close>

theorem cloud_commands_plain:
  assumes "cloud_provision popen now spec n reg = (r, out, reg', cmds)"
    "cloud_deprovision popen provider i reg = (r2, reg2, cmds2)"
    "cloud_status popen provider i n = (r3, out3, cmds3)"
  shows "(\<forall>cmd \<in> set cmds. plain cmd \<or> cs_provider spec = ''aws'' \<and> r = -1 \<and> cmd = aws_terminate out) \<and>
    (\<forall>cmd \<in> set cmds2 \<union> set cmds3. plain cmd)"
proof
  show "\<forall>cmd \<in> set cmds. plain cmd \<or> cs_provider spec = ''aws'' \<and> r = -1 \<and> cmd = aws_terminate out"
  proof (cases "safe_spec spec")
    case True
    then show ?thesis using assms(1) provision_commands [OF True]
      by (auto simp: cloud_provision_def split: if_splits)
  next
    case False
    then show ?thesis using assms(1)
      by (auto simp: cloud_provision_def aws_provision_def gcp_provision_def azure_provision_def split: if_splits)
  qed
  show "\<forall>cmd \<in> set cmds2 \<union> set cmds3. plain cmd"
    using assms(2,3) plain_safe_arg [of i]
    by (auto simp: cloud_deprovision_def aws_deprovision_def gcp_deprovision_def azure_deprovision_def
        cloud_status_def aws_status_def Let_def plain_simps dquote_def split: if_splits prod.splits)
qed

theorem cloud_commands_plain_witness:
  "\<exists>cmds. snd (snd (snd (cloud_provision (\<lambda>cmd. Some (0, [])) 7 demo_spec 64 demo_registry))) = cmds \<and>
     (\<forall>cmd \<in> set cmds. plain cmd)"
proof -
  obtain cmds where run: "cloud_provision (\<lambda>cmd. Some (0, [])) 7 demo_spec 64 demo_registry =
     (0, ''cloud-orch-7'', demo_registry @ [cloud_machine ''gcp'' ''orch-7'' demo_spec], cmds)"
    using demo_spec_provision by blast
  from run cloud_commands_plain [OF run, of "''gcp''" "''x''"] show ?thesis
    by (cases "cloud_deprovision (\<lambda>cmd. Some (0, [])) ''gcp'' ''x'' demo_registry",
        cases "cloud_status (\<lambda>cmd. Some (0, [])) ''gcp'' ''x'' 64") auto
qed

text \<open>
  That exception is real: the text AWS prints is put into the command unchecked. A specification
  that passes every check and an output with a command substitution make the program run it.
\<close>

theorem aws_cleanup_runs_output:
  "\<exists>popen spec out reg' cmds. safe_spec spec \<and>
     cloud_provision popen 0 spec 64 demo_registry = (-1, out, reg', cmds) \<and>
     out = ''$(reboot)'' \<and> aws_terminate out \<in> set cmds \<and> \<not> plain (aws_terminate out)"
proof -
  let ?popen = "\<lambda>cmd. Some (0, [dquote] @ ''$(reboot)'' @ [dquote])"
  let ?spec = "demo_spec\<lparr>cs_provider := ''aws'', cs_region := []\<rparr>"
  let ?run = "cloud_provision ?popen 0 ?spec 64 demo_registry"
  have "safe_spec ?spec" by (simp add: safe_spec_def demo_spec_def is_safe_arg_def)
  moreover have "?run = (-1, ''$(reboot)'', fst (snd (snd ?run)), snd (snd (snd ?run)))"
    "aws_terminate ''$(reboot)'' \<in> set (snd (snd (snd ?run)))"
    using \<open>safe_spec ?spec\<close>
    by (simp_all add: cloud_provision_def aws_provision_def run_command_def quoted_def dquote_def buf_def
        register_machine_def registry_upsert_def cloud_machine_def machine_zero_def safe_machine_text_def
        safe_machine_char_def less_eq_char_def demo_spec_def Let_def)
  moreover have "\<not> plain (aws_terminate ''$(reboot)'')"
    by (simp add: aws_terminate_def plain_def shell_meta_def buf_def)
  ultimately show ?thesis by metis
qed

end
