(* ===== verification/Script.thy ===== *)
theory Script
  imports Registry Config Lifecycle
begin

text \<open>
  The texts \<open>src/core/executor.c\<close> hands to shells: the escaping of values, the run script sent
  to a remote machine, the address of a machine and the options of every remote call; and the check
  of file names of \<open>src/transfer/upload.c\<close>. The file operations are arguments: whether the script
  can be opened, and the parsed contents of \<open>.app_env.json\<close>, when it can be read.
\<close>

section \<open>Model\<close>

definition bslash :: char where "bslash = CHR 0x5C"
definition dquot :: char where "dquot = CHR 0x22"
definition btick :: char where "btick = CHR 0x60"
definition lf :: char where "lf = CHR 0x0A"

definition escaped_char :: "char \<Rightarrow> bool" where
  "escaped_char c \<longleftrightarrow> c \<in> {bslash, dquot, CHR ''$'', btick, CHR ''!''}"

text \<open>The loop: \<open>j\<close> characters are written. The text ends where the buffer or the source does.\<close>

fun shell_escape_loop :: "nat \<Rightarrow> nat \<Rightarrow> string \<Rightarrow> string" where
  "shell_escape_loop dst_len j [] = []"
| "shell_escape_loop dst_len j (c # cs) =
     (if \<not> int j < int dst_len - 2 then []
      else if escaped_char c then
        (if int (j + 1) < int dst_len - 1 then bslash # c # shell_escape_loop dst_len (j + 2) cs
         else bslash # shell_escape_loop dst_len (j + 1) cs)
      else if c = lf then shell_escape_loop dst_len j cs
      else c # shell_escape_loop dst_len (j + 1) cs)"

definition shell_escape :: "string \<Rightarrow> nat \<Rightarrow> string" where
  "shell_escape src dst_len = shell_escape_loop dst_len 0 src"

definition env_letter :: "char \<Rightarrow> bool" where
  "env_letter c \<longleftrightarrow> c = CHR ''_'' \<or> CHR ''A'' \<le> c \<and> c \<le> CHR ''Z'' \<or> CHR ''a'' \<le> c \<and> c \<le> CHR ''z''"

definition valid_env_key :: "string \<Rightarrow> bool" where
  "valid_env_key k =
     (case k of
        [] \<Rightarrow> False
      | c # cs \<Rightarrow> env_letter c \<and> list_all (\<lambda>c. env_letter c \<or> CHR ''0'' \<le> c \<and> c \<le> CHR ''9'') cs)"

text \<open>The address, and whether it is this host.\<close>

definition machine_host :: "registry \<Rightarrow> string \<Rightarrow> nat \<Rightarrow> string \<times> bool" where
  "machine_host reg machine_id out_len =
     (if machine_id = [] then (buf out_len ''localhost'', True)
      else let out = buf out_len (case registry_get_copy reg machine_id of
                 Some m \<Rightarrow> if m_ip m \<noteq> [] then m_ip m else if m_hostname m \<noteq> [] then m_hostname m else machine_id
               | None \<Rightarrow> machine_id)
           in (out, out \<in> {''localhost'', ''127.0.0.1'', ''::1''}))"

definition build_ssh_opts :: "config \<Rightarrow> nat \<Rightarrow> string \<Rightarrow> string" where
  "build_ssh_opts cfg out_len known_hosts_path =
     buf out_len ((if cf_ssh_key cfg \<noteq> [] then ''-i '' @ [dquot] @ cf_ssh_key cfg @ [dquot] @ '' '' else []) @
       ''-o BatchMode=yes -o PasswordAuthentication=no -o StrictHostKeyChecking=accept-new'' @
       '' -o UserKnownHostsFile='' @ known_hosts_path @ '' -o GlobalKnownHostsFile='' @ known_hosts_path @
       '' -o LogLevel=ERROR -o ConnectTimeout=10 -o ServerAliveInterval=15 -o ServerAliveCountMax=2'')"

definition export_line :: "string \<Rightarrow> string \<Rightarrow> string" where
  "export_line key quoted_value = ''export '' @ key @ ''='' @ [dquot] @ quoted_value @ [dquot, lf]"

text \<open>The members of the environment file that are exported, in its order.\<close>

fun env_exports :: "(string \<times> json) list \<Rightarrow> string" where
  "env_exports [] = []"
| "env_exports ((key, JString v) # kvs) =
     (if valid_env_key key then export_line key (shell_escape v 4096) @ env_exports kvs else env_exports kvs)"
| "env_exports (_ # kvs) = env_exports kvs"

text \<open>Array elements have no key, so that nothing of an array is exported.\<close>

definition env_members :: "json option \<Rightarrow> (string \<times> json) list" where
  "env_members env = (case env of Some (JObject kvs) \<Rightarrow> kvs | _ \<Rightarrow> [])"

definition script_path :: "job \<Rightarrow> nat \<Rightarrow> string" where
  "script_path job len = buf len (j_input_dir job @ ''/.run.sh'')"

text \<open>The contents written, \<open>None\<close> for the result -1.\<close>

definition write_run_script :: "bool \<Rightarrow> json option \<Rightarrow> job \<Rightarrow> string \<Rightarrow> string \<Rightarrow> string option" where
  "write_run_script fopen_ok env job remote_input remote_output =
     (if \<not> fopen_ok then None
      else let escaped_mid = shell_escape (j_machine_id job) 512 in
        Some (''#!/bin/sh'' @ [lf] @
          export_line ''ORCH_JOB_ID'' (j_id job) @
          export_line ''ORCH_INPUT_DIR'' remote_input @
          export_line ''ORCH_OUTPUT_DIR'' remote_output @
          export_line ''ORCH_WORKER_ID'' escaped_mid @
          export_line ''ORCH_MACHINE_IDS'' escaped_mid @
          export_line ''ORCH_MACHINE_COUNT'' ''1'' @
          env_exports (env_members env) @
          ''mkdir -p '' @ [dquot] @ ''$ORCH_OUTPUT_DIR'' @ [dquot, lf] @
          ''cd '' @ [dquot] @ ''$ORCH_OUTPUT_DIR'' @ [dquot, lf] @
          ''exec '' @ j_command job @ [lf]))"

text \<open>\<open>isalnum\<close> in the C locale.\<close>

definition is_alnum :: "char \<Rightarrow> bool" where
  "is_alnum c \<longleftrightarrow> CHR ''a'' \<le> c \<and> c \<le> CHR ''z'' \<or> CHR ''A'' \<le> c \<and> c \<le> CHR ''Z'' \<or>
     CHR ''0'' \<le> c \<and> c \<le> CHR ''9''"

definition transfer_valid_filename :: "string \<Rightarrow> bool" where
  "transfer_valid_filename filename =
     (if length filename = 0 \<or> length filename > 255 \<or> hd filename = CHR ''.'' then False
      else list_all (\<lambda>c. is_alnum c \<or> c \<in> set '' _-.()+@,='') filename)"

section \<open>How a shell reads a double-quoted text\<close>

text \<open>
  POSIX.1, 2.2.3: up to the closing quote every character stands for itself, except that a dollar
  sign or a backquote starts a substitution and that a backslash is dropped before one of the four
  characters dollar, backquote, double quote and backslash (and swallows a newline). \<open>None\<close>: the text
  is not closed or contains a substitution. Otherwise the value and what follows the closing quote.
\<close>

fun read_dquoted :: "string \<Rightarrow> (string \<times> string) option" where
  "read_dquoted [] = None"
| "read_dquoted [c] = (if c = dquot then Some ([], []) else None)"
| "read_dquoted (c # d # cs) =
     (if c = dquot then Some ([], d # cs)
      else if c = CHR ''$'' \<or> c = btick then None
      else if c = bslash then
        (if d \<in> {CHR ''$'', btick, dquot, bslash} then map_option (apfst ((#) d)) (read_dquoted cs)
         else if d = lf then read_dquoted cs
         else map_option (apfst ((#) c)) (read_dquoted (d # cs)))
      else map_option (apfst ((#) c)) (read_dquoted (d # cs)))"

text \<open>What an escaped value turns into.\<close>

definition shell_image :: "string \<Rightarrow> string" where
  "shell_image s = concat (map (\<lambda>c. if c = lf then [] else if c = CHR ''!'' then [bslash, c] else [c]) s)"

lemmas shell_chars = bslash_def dquot_def btick_def lf_def

lemma read_step:
  assumes "read_dquoted rest = Some (v, after)"
  shows "c \<in> {CHR ''$'', btick, dquot, bslash} \<Longrightarrow> read_dquoted (bslash # c # rest) = Some (c # v, after)"
    "c = CHR ''!'' \<Longrightarrow> read_dquoted (bslash # c # rest) = Some (bslash # c # v, after)"
    "\<not> escaped_char c \<Longrightarrow> read_dquoted (c # rest) = Some (c # v, after)"
proof -
  obtain d ds where r: "rest = d # ds" using assms by (cases rest) auto
  show "c \<in> {CHR ''$'', btick, dquot, bslash} \<Longrightarrow> read_dquoted (bslash # c # rest) = Some (c # v, after)"
    using assms by (auto simp: shell_chars)
  show "\<not> escaped_char c \<Longrightarrow> read_dquoted (c # rest) = Some (c # v, after)"
    using assms r by (auto simp: escaped_char_def)
  show "c = CHR ''!'' \<Longrightarrow> read_dquoted (bslash # c # rest) = Some (bslash # c # v, after)"
    using assms r by (auto simp: shell_chars)
qed

lemma read_escape_loop:
  "\<exists>k. read_dquoted (shell_escape_loop n j s @ dquot # rest) = Some (shell_image (take k s), rest) \<and>
     (j + 2 * length s + 1 < n \<longrightarrow> k = length s)"
proof (induction s arbitrary: j)
  case Nil
  have "read_dquoted (dquot # rest) = Some ([], rest)" by (cases rest) auto
  then show ?case by (simp add: shell_image_def)
next
  case (Cons c cs)
  have close: "read_dquoted (dquot # rest) = Some ([], rest)" by (cases rest) auto
  show ?case
  proof (cases "int j < int n - 2")
    case False
    then show ?thesis using close by (intro exI [of _ 0]) (auto simp: shell_image_def)
  next
    case fits: True
    consider (esc) "escaped_char c" | (lf) "c = lf" | (other) "\<not> escaped_char c" "c \<noteq> lf" by blast
    then show ?thesis
    proof cases
      case esc
      obtain k where k: "read_dquoted (shell_escape_loop n (j + 2) cs @ dquot # rest) = Some (shell_image (take k cs), rest)"
        "j + 2 + 2 * length cs + 1 < n \<longrightarrow> k = length cs" using Cons.IH by blast
      have "c = CHR ''!'' \<or> c \<in> {CHR ''$'', btick, dquot, bslash}" using esc by (auto simp: escaped_char_def)
      then have "read_dquoted (bslash # c # shell_escape_loop n (j + 2) cs @ dquot # rest) =
          Some (shell_image (c # take k cs), rest)"
        using read_step(1,2) [OF k(1), of c] by (auto simp: shell_image_def shell_chars)
      then show ?thesis using k(2) esc fits by (intro exI [of _ "Suc k"]) auto
    next
      case lf
      obtain k where "read_dquoted (shell_escape_loop n j cs @ dquot # rest) = Some (shell_image (take k cs), rest)"
        "j + 2 * length cs + 1 < n \<longrightarrow> k = length cs" using Cons.IH by blast
      then show ?thesis using lf fits
        by (intro exI [of _ "Suc k"]) (auto simp: shell_image_def escaped_char_def shell_chars)
    next
      case other
      obtain k where k: "read_dquoted (shell_escape_loop n (j + 1) cs @ dquot # rest) = Some (shell_image (take k cs), rest)"
        "j + 1 + 2 * length cs + 1 < n \<longrightarrow> k = length cs" using Cons.IH by blast
      have "read_dquoted (c # shell_escape_loop n (j + 1) cs @ dquot # rest) = Some (shell_image (c # take k cs), rest)"
        using read_step(3) [OF k(1), of c] other by (auto simp: shell_image_def escaped_char_def)
      then show ?thesis using k(2) other fits by (intro exI [of _ "Suc k"]) auto
    qed
  qed
qed

lemma shell_image_id: "lf \<notin> set s \<Longrightarrow> CHR ''!'' \<notin> set s \<Longrightarrow> shell_image s = s"
  by (induction s) (auto simp: shell_image_def)

section \<open>Claims\<close>

text \<open>
  A value between double quotes, escaped for a buffer of any size, is read by a shell up to its
  own closing quote and to nothing else: no substitution is started and the text cannot be left, even
  where it is cut off. A value that fits, with no newline and no exclamation mark, is read back as it
  was.
\<close>

theorem shell_escape_quotes:
  "(\<exists>k. read_dquoted (shell_escape s n @ [dquot] @ rest) = Some (shell_image (take k s), rest)) \<and>
   (2 * length s + 1 < n \<and> lf \<notin> set s \<and> CHR ''!'' \<notin> set s \<longrightarrow>
      read_dquoted (shell_escape s n @ [dquot] @ rest) = Some (s, rest))"
  using read_escape_loop [of n 0 s rest] shell_image_id [of s] by (auto simp: shell_escape_def)

theorem shell_escape_quotes_witness:
  "read_dquoted (shell_escape ''a$(b)'' 32 @ [dquot] @ ''x'') = Some (''a$(b)'', ''x'')"
  using shell_escape_quotes [of "''a$(b)''" 32 "''x''"] by (simp add: shell_chars)

text \<open>
  An exclamation mark does not survive: it is escaped, but a shell keeps the backslash in front
  of it, so that the program receives another value than the one configured.
\<close>

theorem shell_escape_alters_exclamation:
  "read_dquoted (shell_escape ''Hi!'' 4096 @ [dquot, lf]) = Some (''Hi'' @ [bslash] @ ''!'', [lf])"
  by (simp add: shell_escape_def escaped_char_def shell_chars)

text \<open>
  An accepted file name is one component of a path: it has between one and 255 characters, none
  of them a slash, a backslash or a control character, and it is not hidden, so that neither of the
  directory links is accepted.
\<close>

theorem transfer_valid_filename_component:
  assumes "transfer_valid_filename f"
  shows "f \<notin> {[], ''.'', ''..''} \<and> length f \<le> 255 \<and> hd f \<noteq> CHR ''.'' \<and>
    (\<forall>c \<in> set f. c \<noteq> CHR ''/'' \<and> c \<noteq> bslash \<and> 32 \<le> (of_char c :: nat) \<and> (of_char c :: nat) < 127)"
proof -
  have "c \<noteq> CHR ''/'' \<and> c \<noteq> bslash \<and> 32 \<le> (of_char c :: nat) \<and> (of_char c :: nat) < 127"
    if that: "is_alnum c \<or> c \<in> set '' _-.()+@,=''" for c
  proof (intro conjI)
    show "c \<noteq> CHR ''/''" "c \<noteq> bslash"
      using that by (auto simp: is_alnum_def less_eq_char_def bslash_def)
    have "32 \<le> (of_char c :: nat) \<and> (of_char c :: nat) < 127" if "is_alnum c"
      using that by (auto simp: is_alnum_def less_eq_char_def)
    moreover have "32 \<le> (of_char c :: nat) \<and> (of_char c :: nat) < 127" if "c \<in> set '' _-.()+@,=''"
      using that by (simp, elim disjE) simp_all
    ultimately show "32 \<le> (of_char c :: nat)" "(of_char c :: nat) < 127" using that by blast+
  qed
  moreover have "\<forall>c \<in> set f. is_alnum c \<or> c \<in> set '' _-.()+@,=''" "hd f \<noteq> CHR ''.''" "f \<noteq> []" "length f \<le> 255"
    using assms by (simp_all add: transfer_valid_filename_def list_all_iff split: if_splits)
  moreover from this have "f \<notin> {[], ''.'', ''..''}" by auto
  ultimately show ?thesis by blast
qed

theorem transfer_valid_filename_component_witness:
  "transfer_valid_filename ''data_1.csv'' \<and> CHR ''/'' \<notin> set ''data_1.csv''"
proof -
  have v: "transfer_valid_filename ''data_1.csv''"
    by (simp add: transfer_valid_filename_def is_alnum_def less_eq_char_def)
  then show ?thesis using transfer_valid_filename_component [OF v] by blast
qed

end
