(* ===== verification/Artifacts.thy ===== *)
theory Artifacts
  imports Lifecycle
begin

text \<open>
  \<open>src/transfer/artifacts.c\<close> (the POSIX branch): the files a job leaves are registered in the
  database. The file system is an argument: what \<open>stat\<close> says of a path and what \<open>readdir\<close> lists.
\<close>

section \<open>Model\<close>

datatype file_stat = Regular int | Directory | Special

record filesystem =
  fs_stat :: "string \<Rightarrow> file_stat option"
  fs_readdir :: "string \<Rightarrow> string list option"

definition artifact_of :: "int \<Rightarrow> string \<Rightarrow> string \<Rightarrow> string \<Rightarrow> int \<Rightarrow> artifact_row" where
  "artifact_of now job_id type path bytes =
     \<lparr> ar_id = 0, ar_job_id = buf 37 job_id, ar_type = buf 32 type, ar_uri = buf 1024 path,
       ar_size_bytes = bytes, ar_checksum = [], ar_created_at = now \<rparr>"

definition artifact_register_file ::
  "filesystem \<Rightarrow> int \<Rightarrow> string \<Rightarrow> string \<Rightarrow> string \<Rightarrow> db \<Rightarrow> int \<times> db" where
  "artifact_register_file fs now job_id type path d =
     (if job_id = [] \<or> type = [] \<or> path = [] then (-1, d)
      else case fs_stat fs path of
        Some (Regular bytes) \<Rightarrow>
          let (r, a, d') = db_upsert_artifact (artifact_of now job_id type path bytes) d in
          if r \<noteq> 0 then (-1, d') else (1, d')
      | _ \<Rightarrow> (0, d))"

text \<open>
  The loop over the entries of one directory; \<open>descend\<close> is the recursive call. A path that does
  not fit the buffer is skipped.
\<close>

fun collect_entries ::
  "filesystem \<Rightarrow> int \<Rightarrow> (string \<Rightarrow> db \<Rightarrow> int \<times> db) \<Rightarrow> string \<Rightarrow> string \<Rightarrow> string list \<Rightarrow> int \<Rightarrow> db \<Rightarrow> int \<times> db" where
  "collect_entries fs now descend job_id dir [] cnt d = (cnt, d)"
| "collect_entries fs now descend job_id dir (name # names) cnt d =
     (let path = dir @ ''/'' @ name in
      if name = ''.'' \<or> name = ''..'' \<or> length path \<ge> 1100
      then collect_entries fs now descend job_id dir names cnt d
      else case fs_stat fs path of
        Some Directory \<Rightarrow>
          let (nested, d') = descend path d in
          if nested < 0 then (-1, d')
          else collect_entries fs now descend job_id dir names (cnt + nested) d'
      | Some (Regular _) \<Rightarrow>
          let (rc, d') = artifact_register_file fs now job_id ''output'' path d in
          if rc < 0 then (-1, d')
          else collect_entries fs now descend job_id dir names (cnt + rc) d'
      | _ \<Rightarrow> collect_entries fs now descend job_id dir names cnt d)"

text \<open>The first argument counts the levels left: 33 at depth 0, none at depth 33.\<close>

primrec collect_output_tree :: "nat \<Rightarrow> filesystem \<Rightarrow> int \<Rightarrow> string \<Rightarrow> string \<Rightarrow> db \<Rightarrow> int \<times> db" where
  "collect_output_tree 0 fs now job_id dir d = (-1, d)"
| "collect_output_tree (Suc levels) fs now job_id dir d =
     (case fs_readdir fs dir of
        None \<Rightarrow> (0, d)
      | Some names \<Rightarrow>
          collect_entries fs now (\<lambda>path. collect_output_tree levels fs now job_id path) job_id dir names 0 d)"

definition artifact_collect_job :: "filesystem \<Rightarrow> int \<Rightarrow> string \<Rightarrow> string \<Rightarrow> db \<Rightarrow> int \<times> db" where
  "artifact_collect_job fs now work_dir job_id d =
     (let (r1, d1) = artifact_register_file fs now job_id ''stdout'' (store_stdout_path work_dir job_id 1024) d in
      if r1 < 0 then (-1, d1)
      else let (r2, d2) = artifact_register_file fs now job_id ''stderr'' (store_stderr_path work_dir job_id 1024) d1 in
        if r2 < 0 then (-1, d2)
        else let (r3, d3) = collect_output_tree 33 fs now job_id (store_output_dir work_dir job_id 1024) d2 in
          if r3 < 0 then (-1, d3) else (r1 + r2 + r3, d3))"

section \<open>What collecting leaves alone\<close>

text \<open>Only the artifacts table is written, outside any transaction.\<close>

definition artifacts_only :: "db \<Rightarrow> db \<Rightarrow> bool" where
  "artifacts_only d d' \<longleftrightarrow> (db_idle d \<longrightarrow> db_idle d') \<and>
     t_jobs (db_tables d') = t_jobs (db_tables d) \<and> t_allocations (db_tables d') = t_allocations (db_tables d)"

lemma artifacts_only_refl [simp]: "artifacts_only d d"
  by (simp add: artifacts_only_def)

lemma artifacts_only_trans: "artifacts_only d d' \<Longrightarrow> artifacts_only d' d'' \<Longrightarrow> artifacts_only d d''"
  by (simp add: artifacts_only_def)

lemma upsert_artifact_row_frame:
  "upsert_artifact_row a t = Some (t', n) \<Longrightarrow> t_jobs t' = t_jobs t \<and> t_allocations t' = t_allocations t"
  by (auto simp: upsert_artifact_row_def split: if_splits)

lemma db_upsert_artifact_only: "db_upsert_artifact a d = (r, b, d') \<Longrightarrow> artifacts_only d d'"
proof -
  assume run: "db_upsert_artifact a d = (r, b, d')"
  obtain n d1 where w: "sql_write (upsert_artifact_row a) d = (n, d1)" by force
  have one: "artifacts_only d d1"
    using sql_write_cases [OF w] db_idle_write [OF _ w] upsert_artifact_row_frame [of a "db_tables d"]
    by (auto simp: artifacts_only_def)
  obtain q d2 where rd: "sql_read (\<lambda>t. find (\<lambda>b. same_artifact b a) (t_artifacts t)) None None d1 = (q, d2)" by force
  have "artifacts_only d1 d2"
    using sql_read_cases [OF rd] db_idle_read [OF _ rd] by (auto simp: artifacts_only_def)
  then show ?thesis using run w rd one artifacts_only_trans
    by (auto simp: db_upsert_artifact_def split: if_splits option.splits)
qed

lemma artifact_register_file_only: "artifact_register_file fs now j ty p d = (r, d') \<Longrightarrow> artifacts_only d d'"
  by (auto simp: artifact_register_file_def dest: db_upsert_artifact_only
      split: if_splits option.splits file_stat.splits prod.splits)

lemma collect_entries_only:
  assumes "\<And>p d r d'. descend p d = (r, d') \<Longrightarrow> artifacts_only d d'"
  shows "collect_entries fs now descend j dir names n d = (r, d') \<Longrightarrow> artifacts_only d d'"
proof (induction names arbitrary: n d)
  case (Cons name names)
  then show ?case
    by (auto simp: Let_def split: if_splits option.splits file_stat.splits prod.splits
        dest: assms artifact_register_file_only intro: artifacts_only_trans)
qed simp

lemma collect_output_tree_only:
  "collect_output_tree levels fs now j dir d = (r, d') \<Longrightarrow> artifacts_only d d'"
proof (induction levels arbitrary: dir d r d')
  case (Suc levels)
  then show ?case
    using collect_entries_only [of "\<lambda>path. collect_output_tree levels fs now j path"]
    by (auto split: option.splits)
qed simp

lemma artifact_collect_job_only:
  assumes "artifact_collect_job fs now w j d = (r, d')"
  shows "artifacts_only d d'"
proof -
  obtain r1 d1 where 1: "artifact_register_file fs now j ''stdout'' (store_stdout_path w j 1024) d = (r1, d1)" by force
  obtain r2 d2 where 2: "artifact_register_file fs now j ''stderr'' (store_stderr_path w j 1024) d1 = (r2, d2)" by force
  obtain r3 d3 where 3: "collect_output_tree 33 fs now j (store_output_dir w j 1024) d2 = (r3, d3)" by force
  have "artifacts_only d d1" "artifacts_only d1 d2" "artifacts_only d2 d3"
    using 1 2 3 artifact_register_file_only collect_output_tree_only by blast+
  moreover from this have "artifacts_only d d2" "artifacts_only d d3" using artifacts_only_trans by blast+
  ultimately show ?thesis using assms 1 2 3 by (auto simp: artifact_collect_job_def split: if_splits)
qed

end
