(* ===== verification/Executor.thy ===== *)
theory Executor
  imports Cloud Script Artifacts
begin

text \<open>
  \<open>src/core/executor.c\<close> (the POSIX branch): the list of running executions and the three threads
  that move one of them: the caller of \<open>executor_spawn\<close>, the launcher and the watcher. An
  \<open>ActiveExecution\<close> and the \<open>Job\<close> it points to are one entry of the list, named by its address.
  What the operating system answers (memory, processes, threads, commands) is an argument. The three
  functions are cut where another thread can observe or change the execution; the pieces are composed
  as the code composes them, and interleaved by the step relation at the end.
\<close>

section \<open>Model\<close>

subsection \<open>State\<close>

record execution =
  ex_ptr :: nat
  ex_job :: job
  ex_termination_requested :: bool
  ex_terminal_status :: job_status
  ex_terminal_reason :: string
  ex_pid :: int

datatype posix_signal = SIGTERM | SIGKILL

record exec_sys = life_sys +
  sy_active :: "execution list"
  sy_shutting_down :: bool
  sy_kills :: "(int \<times> posix_signal) list"
  sy_commands :: "string list"

text \<open>What stays the same for the whole run.\<close>

record exec_env =
  xe_print :: printer
  xe_config :: config
  xe_popen :: popen
  xe_fs :: filesystem

datatype wait_status = Exited int | Signalled

text \<open>What the operating system answers to one thread.\<close>

record os_answers =
  os_malloc_ok :: bool
  os_launcher_ok :: bool
  os_wordexp_ok :: bool
  os_pid :: int
  os_calloc_ok :: bool
  os_watcher_ok :: bool
  os_fopen_ok :: bool
  os_env_file :: "json option"
  os_system :: "string \<Rightarrow> int"
  os_wait :: wait_status

record watch_arg =
  wa_ptr :: nat
  wa_pid :: int
  wa_is_remote :: bool
  wa_remote_host :: string
  wa_remote_output :: string
  wa_known_hosts_path :: string

subsection \<open>The list of executions\<close>

definition find_execution :: "nat \<Rightarrow> 'a exec_sys_scheme \<Rightarrow> execution option" where
  "find_execution p sys = find (\<lambda>e. ex_ptr e = p) (sy_active sys)"

definition put_execution :: "nat \<Rightarrow> (execution \<Rightarrow> execution) \<Rightarrow> 'a exec_sys_scheme \<Rightarrow> 'a exec_sys_scheme" where
  "put_execution p f sys =
     sys\<lparr>sy_active := map (\<lambda>e. if ex_ptr e = p then f e else e) (sy_active sys)\<rparr>"

text \<open>\<open>fresh\<close> is what \<open>calloc\<close> returns. \<open>JOB_STATUS_QUEUED\<close> is the zero of the enumeration.\<close>

definition active_register ::
  "nat option \<Rightarrow> job \<Rightarrow> 'a exec_sys_scheme \<Rightarrow> nat option \<times> 'a exec_sys_scheme" where
  "active_register fresh job sys =
     (case fresh of
        None \<Rightarrow> (None, sys)
      | Some p \<Rightarrow>
          if sy_shutting_down sys then (None, sys)
          else (Some p, sys\<lparr>sy_active :=
            \<lparr> ex_ptr = p, ex_job = job, ex_termination_requested = False,
              ex_terminal_status = JOB_STATUS_QUEUED, ex_terminal_reason = [], ex_pid = 0 \<rparr> # sy_active sys\<rparr>))"

fun remove_first :: "('a \<Rightarrow> bool) \<Rightarrow> 'a list \<Rightarrow> 'a list" where
  "remove_first P [] = []"
| "remove_first P (x # xs) = (if P x then xs else x # remove_first P xs)"

definition active_unregister :: "nat \<Rightarrow> 'a exec_sys_scheme \<Rightarrow> 'a exec_sys_scheme" where
  "active_unregister p sys = sys\<lparr>sy_active := remove_first (\<lambda>e. ex_ptr e = p) (sy_active sys)\<rparr>"

text \<open>\<open>Some\<close> the status and the reason when a termination was requested.\<close>

definition active_terminal_snapshot ::
  "nat \<Rightarrow> nat \<Rightarrow> 'a exec_sys_scheme \<Rightarrow> (job_status \<times> string) option" where
  "active_terminal_snapshot p reason_len sys =
     (case find_execution p sys of
        None \<Rightarrow> None
      | Some e \<Rightarrow> if ex_termination_requested e
                  then Some (ex_terminal_status e, buf reason_len (ex_terminal_reason e)) else None)"

definition kill_hard :: "int \<Rightarrow> (int \<times> posix_signal) list" where
  "kill_hard pid = [(- pid, SIGKILL), (pid, SIGKILL)]"

definition kill_group :: "int \<Rightarrow> (int \<times> posix_signal) list" where
  "kill_group pid = [(- pid, SIGTERM), (pid, SIGTERM)] @ kill_hard pid"

definition send_kills :: "(int \<times> posix_signal) list \<Rightarrow> 'a exec_sys_scheme \<Rightarrow> 'a exec_sys_scheme" where
  "send_kills ks sys = sys\<lparr>sy_kills := sy_kills sys @ ks\<rparr>"

definition active_set_process :: "nat \<Rightarrow> int \<Rightarrow> 'a exec_sys_scheme \<Rightarrow> 'a exec_sys_scheme" where
  "active_set_process p pid sys =
     (let sys1 = put_execution p (\<lambda>e. e\<lparr>ex_pid := pid\<rparr>) sys in
      case find_execution p sys of
        Some e \<Rightarrow> if ex_termination_requested e then send_kills (kill_group pid) sys1 else sys1
      | None \<Rightarrow> sys1)"

definition active_clear_process :: "nat \<Rightarrow> 'a exec_sys_scheme \<Rightarrow> 'a exec_sys_scheme" where
  "active_clear_process p = put_execution p (\<lambda>e. e\<lparr>ex_pid := 0\<rparr>)"

text \<open>The part common to a request for one job and the shutdown of all.\<close>

definition request_termination ::
  "exec_env \<Rightarrow> job_status \<Rightarrow> string \<Rightarrow> execution \<Rightarrow> 'a exec_sys_scheme \<Rightarrow> execution \<times> 'a exec_sys_scheme" where
  "request_termination env status reason e sys =
     (if ex_termination_requested e then (e, sys)
      else
        let job = (ex_job e)\<lparr>j_exit_code := -1\<rparr>;
            e1 = e\<lparr>ex_termination_requested := True, ex_terminal_status := status,
                   ex_terminal_reason := buf 256 reason, ex_job := job\<rparr> in
        if j_status job = JOB_STATUS_QUEUED \<or> j_status job = JOB_STATUS_RUNNING then
          let (r, job', sys') = job_set_status_r (xe_print env) job status (Some (ex_terminal_reason e1)) sys
          in (e1\<lparr>ex_job := job'\<rparr>, sys')
        else (e1, sys))"

definition active_request_termination ::
  "exec_env \<Rightarrow> string \<Rightarrow> job_status \<Rightarrow> string option \<Rightarrow> 'a exec_sys_scheme \<Rightarrow> int \<times> 'a exec_sys_scheme" where
  "active_request_termination env job_id status reason sys =
     (case find (\<lambda>e. strcmp (j_id (ex_job e)) job_id = 0) (sy_active sys) of
        None \<Rightarrow> (-1, sys)
      | Some e \<Rightarrow>
          let (e1, sys1) = request_termination env status
                 (case reason of None \<Rightarrow> ''Terminated'' | Some r \<Rightarrow> r) e sys;
              sys2 = put_execution (ex_ptr e) (\<lambda>_. e1) sys1
          in (0, if ex_pid e1 > 0 then send_kills (kill_group (ex_pid e1)) sys2 else sys2))"

subsection \<open>Ending an execution\<close>

definition deprovision_detail :: "machine \<Rightarrow> string" where
  "deprovision_detail m = buf 256 (''Auto-deprovisioned '' @ m_id m @ '' (provider='' @ m_cloud_provider m @
     '', instance='' @ m_cloud_instance_id m @ '')'')"

definition maybe_auto_deprovision :: "exec_env \<Rightarrow> string \<Rightarrow> 'a exec_sys_scheme \<Rightarrow> 'a exec_sys_scheme" where
  "maybe_auto_deprovision env machine_id sys =
     (if cf_experimental_features_enabled (xe_config env) = 0 \<or> cf_cloud_auto_deprovision (xe_config env) = 0 \<or>
         machine_id = [] then sys
      else case registry_get_copy (sy_reg sys) machine_id of
        None \<Rightarrow> sys
      | Some m \<Rightarrow>
          if m_type m \<noteq> MACHINE_TYPE_CLOUD \<or> m_cores_reserved m > 0 \<or> m_ram_mb_reserved m > 0 \<or>
             m_disk_mb_reserved m > 0 \<or> m_gpu_count_reserved m > 0 then sys
          else
            let detail = deprovision_detail m;
                (r, reg, cmds) = cloud_deprovision (xe_popen env) (m_cloud_provider m)
                                   (m_cloud_instance_id m) (sy_reg sys);
                sys1 = sys\<lparr>sy_reg := reg, sy_commands := sy_commands sys @ cmds\<rparr> in
            if r = 0 then
              let (d, ring) = events_push_persistent (xe_print env) (sy_now sys) (Some ''cloud'')
                    (Some ''auto_deprovision'') (Some detail) (Some []) (sy_db sys, sy_ring sys)
              in sys1\<lparr>sy_ring := ring,
                   sy_db := snd (db_insert_event (sy_now sys) (Some ''cloud'') (Some ''auto_deprovision'')
                     (Some detail) (Some []) (Some []) (Some (m_id m)) d)\<rparr>
            else sys1)"

text \<open>\<open>alloc_release\<close>, \<open>active_unregister\<close> and \<open>job_free\<close>, as three exits of \<open>executor_spawn\<close> call them.\<close>

definition drop_execution :: "nat \<Rightarrow> string \<Rightarrow> 'a exec_sys_scheme \<Rightarrow> 'a exec_sys_scheme" where
  "drop_execution p job_id sys = active_unregister p (snd (alloc_release job_id sys))"

text \<open>The common end of \<open>finish_without_process\<close> and of the watcher.\<close>

definition release_execution :: "exec_env \<Rightarrow> nat \<Rightarrow> 'a exec_sys_scheme \<Rightarrow> 'a exec_sys_scheme" where
  "release_execution env p sys =
     (case find_execution p sys of
        None \<Rightarrow> sys
      | Some e \<Rightarrow> active_unregister p (maybe_auto_deprovision env (j_machine_id (ex_job e))
                    (snd (alloc_release (j_id (ex_job e)) sys))))"

definition finish_without_process ::
  "exec_env \<Rightarrow> nat \<Rightarrow> job_status \<Rightarrow> string option \<Rightarrow> 'a exec_sys_scheme \<Rightarrow> 'a exec_sys_scheme" where
  "finish_without_process env p fallback_status fallback_reason sys =
     (case find_execution p sys of
        None \<Rightarrow> sys
      | Some e \<Rightarrow>
          let (status, reason) = (case active_terminal_snapshot p 256 sys of
                Some sr \<Rightarrow> sr
              | None \<Rightarrow> (fallback_status,
                          buf 256 (case fallback_reason of None \<Rightarrow> ''Execution failed'' | Some r \<Rightarrow> r)));
              sys1 = (if j_status (ex_job e) \<notin> {JOB_STATUS_SUCCEEDED, JOB_STATUS_FAILED, JOB_STATUS_CANCELLED} then
                        let (r, job, sys') = job_set_status_r (xe_print env) ((ex_job e)\<lparr>j_exit_code := -1\<rparr>)
                                               status (Some reason) sys
                        in put_execution p (\<lambda>e. e\<lparr>ex_job := job\<rparr>) sys'
                      else sys)
          in release_execution env p sys1)"

subsection \<open>Starting a job\<close>

text \<open>\<open>executor_spawn\<close> up to the registration; the job is freed when it fails.\<close>

definition spawn_register ::
  "exec_env \<Rightarrow> nat option \<Rightarrow> job \<Rightarrow> 'a exec_sys_scheme \<Rightarrow> nat option \<times> 'a exec_sys_scheme" where
  "spawn_register env fresh job sys =
     (case active_register fresh job sys of
        (Some p, sys1) \<Rightarrow> (Some p, sys1)
      | (None, sys1) \<Rightarrow>
          let (r, job', sys2) = job_set_status_r (xe_print env) job JOB_STATUS_FAILED
                                  (Some ''Executor unavailable'') sys1
          in (None, snd (alloc_release (j_id job') sys2)))"

text \<open>Each of the next pieces returns whether \<open>executor_spawn\<close> goes on.\<close>

definition spawn_check :: "nat \<Rightarrow> 'a exec_sys_scheme \<Rightarrow> bool \<times> 'a exec_sys_scheme" where
  "spawn_check p sys =
     (case find_execution p sys of
        None \<Rightarrow> (False, sys)
      | Some e \<Rightarrow>
          let (current, d) = db_get_job (j_id (ex_job e)) (sy_db sys); sys1 = sys\<lparr>sy_db := d\<rparr> in
          case current of
            Some c \<Rightarrow> if j_status c = JOB_STATUS_QUEUED then (True, sys1)
                      else (False, drop_execution p (j_id (ex_job e)) sys1)
          | None \<Rightarrow> (False, drop_execution p (j_id (ex_job e)) sys1))"

text \<open>\<open>store_init_job_dirs\<close> returns 0 in every case, so that its failure branch is not reached.\<close>

definition spawn_running :: "exec_env \<Rightarrow> nat \<Rightarrow> 'a exec_sys_scheme \<Rightarrow> bool \<times> 'a exec_sys_scheme" where
  "spawn_running env p sys =
     (case find_execution p sys of
        None \<Rightarrow> (False, sys)
      | Some e \<Rightarrow>
          let work_dir = cf_work_dir (xe_config env); job_id = j_id (ex_job e);
              job = (ex_job e)\<lparr>j_input_dir := store_input_dir work_dir job_id 512,
                               j_output_dir := store_output_dir work_dir job_id 512\<rparr>;
              (r, job', sys') = job_set_status (xe_print env) job JOB_STATUS_RUNNING sys;
              sys1 = put_execution p (\<lambda>e. e\<lparr>ex_job := job'\<rparr>) sys' in
          if r \<noteq> 0 then (False, drop_execution p job_id sys1) else (True, sys1))"

definition spawn_started :: "exec_env \<Rightarrow> os_answers \<Rightarrow> nat \<Rightarrow> 'a exec_sys_scheme \<Rightarrow> bool \<times> 'a exec_sys_scheme" where
  "spawn_started env os p sys =
     (case find_execution p sys of
        None \<Rightarrow> (False, sys)
      | Some e \<Rightarrow>
          let job = (ex_job e)\<lparr>j_started_at := sy_now sys\<rparr>;
              (r, d) = db_update_job_started (j_id job) (j_machine_id job) (j_started_at job) (sy_db sys);
              sys1 = (put_execution p (\<lambda>e. e\<lparr>ex_job := job\<rparr>) sys)\<lparr>sy_db := d\<rparr> in
          if r \<noteq> 0 then (False, finish_without_process env p JOB_STATUS_FAILED
                              (Some ''Failed to persist job start'') sys1)
          else if \<not> os_malloc_ok os then
            (False, finish_without_process env p JOB_STATUS_FAILED (Some ''Out of memory'') sys1)
          else if \<not> os_launcher_ok os then
            (False, finish_without_process env p JOB_STATUS_FAILED
               (Some ''Failed to create launcher thread'') sys1)
          else (True, sys1))"

text \<open>The result 0 comes with the execution that the launcher thread takes over.\<close>

definition executor_spawn ::
  "exec_env \<Rightarrow> os_answers \<Rightarrow> nat option \<Rightarrow> job \<Rightarrow> 'a exec_sys_scheme \<Rightarrow> (int \<times> nat option) \<times> 'a exec_sys_scheme" where
  "executor_spawn env os fresh job sys =
     (case spawn_register env fresh job sys of
        (None, sys1) \<Rightarrow> ((-1, None), sys1)
      | (Some p, sys1) \<Rightarrow>
          (case spawn_check p sys1 of
             (False, sys2) \<Rightarrow> ((-1, None), sys2)
           | (True, sys2) \<Rightarrow>
               (case spawn_running env p sys2 of
                  (False, sys3) \<Rightarrow> ((-1, None), sys3)
                | (True, sys3) \<Rightarrow>
                    (case spawn_started env os p sys3 of
                       (False, sys4) \<Rightarrow> ((-1, None), sys4)
                     | (True, sys4) \<Rightarrow> ((0, Some p), sys4)))))"

subsection \<open>The launcher\<close>

text \<open>\<open>RUN_SYNC_FAIL\<close> and \<open>RUN_SYNC_WARN\<close>: a command in a buffer of 1024 characters.\<close>

definition run_system :: "os_answers \<Rightarrow> string \<Rightarrow> 'a exec_sys_scheme \<Rightarrow> int \<times> 'a exec_sys_scheme" where
  "run_system os cmd sys =
     (let c = buf 1024 cmd in (os_system os c, sys\<lparr>sy_commands := sy_commands sys @ [c]\<rparr>))"

text \<open>From the fork on: the process is handed to a watcher, or killed and reaped.\<close>

definition start_watcher ::
  "os_answers \<Rightarrow> nat \<Rightarrow> watch_arg \<Rightarrow> 'a exec_sys_scheme \<Rightarrow> watch_arg option \<times> 'a exec_sys_scheme" where
  "start_watcher os p wa sys =
     (if os_pid os < 0 then (None, sys)
      else if \<not> os_calloc_ok os then (None, send_kills (kill_hard (os_pid os)) sys)
      else
        let sys1 = active_set_process p (os_pid os) sys in
        if \<not> os_watcher_ok os
        then (None, active_clear_process p (send_kills (kill_hard (os_pid os)) sys1))
        else (Some wa, sys1))"

definition spawn_local :: "os_answers \<Rightarrow> nat \<Rightarrow> 'a exec_sys_scheme \<Rightarrow> watch_arg option \<times> 'a exec_sys_scheme" where
  "spawn_local os p sys =
     (if \<not> os_wordexp_ok os then (None, sys)
      else start_watcher os p \<lparr> wa_ptr = p, wa_pid = os_pid os, wa_is_remote = False, wa_remote_host = [],
             wa_remote_output = [], wa_known_hosts_path = [] \<rparr> sys)"

definition known_hosts_file :: "config \<Rightarrow> job \<Rightarrow> string" where
  "known_hosts_file cfg job =
     buf 512 ((if cf_temp_dir cfg \<noteq> [] then cf_temp_dir cfg else ''/tmp'') @ ''/orch-'' @ j_id job @ ''.kh'')"

definition remote_dir :: "config \<Rightarrow> job \<Rightarrow> string \<Rightarrow> string" where
  "remote_dir cfg job sub = buf 512 (cf_ssh_remote_work_dir cfg @ ''/'' @ j_id job @ sub)"

definition ssh_target :: "config \<Rightarrow> string \<Rightarrow> string" where
  "ssh_target cfg host = cf_ssh_user cfg @ ''@'' @ host"

definition squoted :: "string \<Rightarrow> string" where
  "squoted s = [CHR 0x27] @ s @ [CHR 0x27]"

definition ssh_mkdir_cmd :: "config \<Rightarrow> job \<Rightarrow> string \<Rightarrow> string" where
  "ssh_mkdir_cmd cfg job host =
     ''ssh '' @ build_ssh_opts cfg 512 (known_hosts_file cfg job) @ '' '' @ ssh_target cfg host @ '' '' @
     [dquot] @ ''mkdir -p '' @ squoted (remote_dir cfg job [] @ ''/input'') @ '' '' @
     squoted (remote_dir cfg job [] @ ''/output'') @ [dquot]"

definition scp_input_cmd :: "config \<Rightarrow> job \<Rightarrow> string \<Rightarrow> string" where
  "scp_input_cmd cfg job host =
     ''scp '' @ build_ssh_opts cfg 512 (known_hosts_file cfg job) @ '' -r '' @ squoted (j_input_dir job @ ''/.'') @
     '' '' @ ssh_target cfg host @ '':'' @ remote_dir cfg job ''/input''"

definition scp_script_cmd :: "config \<Rightarrow> job \<Rightarrow> string \<Rightarrow> string" where
  "scp_script_cmd cfg job host =
     ''scp '' @ build_ssh_opts cfg 512 (known_hosts_file cfg job) @ '' '' @ squoted (script_path job 512) @
     '' '' @ ssh_target cfg host @ '':'' @ remote_dir cfg job [] @ ''/.run.sh''"

definition spawn_remote ::
  "exec_env \<Rightarrow> os_answers \<Rightarrow> job \<Rightarrow> string \<Rightarrow> nat \<Rightarrow> 'a exec_sys_scheme \<Rightarrow> watch_arg option \<times> 'a exec_sys_scheme" where
  "spawn_remote env os job host p sys =
     (let cfg = xe_config env;
          (rc1, sys1) = run_system os (ssh_mkdir_cmd cfg job host) sys in
      if rc1 \<noteq> 0 then (None, sys1)
      else
        let (rc2, sys2) = run_system os (scp_input_cmd cfg job host) sys1 in
        if write_run_script (os_fopen_ok os) (os_env_file os) job (remote_dir cfg job ''/input'')
             (remote_dir cfg job ''/output'') = None
        then (None, sys2)
        else
          let (rc3, sys3) = run_system os (scp_script_cmd cfg job host) sys2 in
          if rc3 \<noteq> 0 then (None, sys3)
          else if \<not> os_wordexp_ok os then (None, sys3)
          else start_watcher os p \<lparr> wa_ptr = p, wa_pid = os_pid os, wa_is_remote = True,
                 wa_remote_host = buf 256 host, wa_remote_output = buf 512 (remote_dir cfg job ''/output''),
                 wa_known_hosts_path = buf 512 (known_hosts_file cfg job) \<rparr> sys3)"

text \<open>\<open>Some\<close> the argument of the watcher for the result 0, \<open>None\<close> for -1.\<close>

definition spawn_process ::
  "exec_env \<Rightarrow> os_answers \<Rightarrow> job \<Rightarrow> nat \<Rightarrow> 'a exec_sys_scheme \<Rightarrow> watch_arg option \<times> 'a exec_sys_scheme" where
  "spawn_process env os job p sys =
     (let (host, here) = machine_host (sy_reg sys) (j_machine_id job) 256 in
      if here \<or> cf_ssh_user (xe_config env) = [] then spawn_local os p sys
      else spawn_remote env os job host p sys)"

definition launcher_check :: "exec_env \<Rightarrow> nat \<Rightarrow> 'a exec_sys_scheme \<Rightarrow> bool \<times> 'a exec_sys_scheme" where
  "launcher_check env p sys =
     (if active_terminal_snapshot p 0 sys \<noteq> None
      then (False, finish_without_process env p JOB_STATUS_CANCELLED (Some ''Cancelled before launch'') sys)
      else (True, sys))"

definition launcher_spawn ::
  "exec_env \<Rightarrow> os_answers \<Rightarrow> nat \<Rightarrow> 'a exec_sys_scheme \<Rightarrow> watch_arg option \<times> 'a exec_sys_scheme" where
  "launcher_spawn env os p sys =
     (case find_execution p sys of
        None \<Rightarrow> (None, sys)
      | Some e \<Rightarrow>
          (case spawn_process env os (ex_job e) p sys of
             (Some wa, sys1) \<Rightarrow> (Some wa, sys1)
           | (None, sys1) \<Rightarrow>
               (None, finish_without_process env p JOB_STATUS_FAILED
                  (Some (if j_status_reason (ex_job e) \<noteq> [] then j_status_reason (ex_job e)
                         else ''Failed to spawn process'')) sys1)))"

definition launcher_thread ::
  "exec_env \<Rightarrow> os_answers \<Rightarrow> nat \<Rightarrow> 'a exec_sys_scheme \<Rightarrow> watch_arg option \<times> 'a exec_sys_scheme" where
  "launcher_thread env os p sys =
     (case launcher_check env p sys of
        (False, sys1) \<Rightarrow> (None, sys1)
      | (True, sys1) \<Rightarrow> launcher_spawn env os p sys1)"

subsection \<open>The watcher\<close>

definition wait_exit_code :: "wait_status \<Rightarrow> int" where
  "wait_exit_code w = (case w of Exited c \<Rightarrow> c | Signalled \<Rightarrow> 1)"

text \<open>After \<open>waitpid\<close>: the process is forgotten and the output of a remote job fetched.\<close>

definition scp_output_cmd :: "config \<Rightarrow> watch_arg \<Rightarrow> job \<Rightarrow> string" where
  "scp_output_cmd cfg wa job =
     ''scp '' @ build_ssh_opts cfg 512 (wa_known_hosts_path wa) @ '' -r '' @ ssh_target cfg (wa_remote_host wa) @
     '':'' @ wa_remote_output wa @ ''/. '' @ squoted (j_output_dir job)"

definition watcher_reap :: "exec_env \<Rightarrow> os_answers \<Rightarrow> watch_arg \<Rightarrow> 'a exec_sys_scheme \<Rightarrow> 'a exec_sys_scheme" where
  "watcher_reap env os wa sys =
     (let cfg = xe_config env; sys1 = active_clear_process (wa_ptr wa) sys in
      case find_execution (wa_ptr wa) sys1 of
        None \<Rightarrow> sys1
      | Some e \<Rightarrow>
          if wa_is_remote wa \<and> cf_ssh_user cfg \<noteq> [] \<and> active_terminal_snapshot (wa_ptr wa) 0 sys1 = None then
            snd (run_system os (scp_output_cmd cfg wa (ex_job e)) sys1)
          else sys1)"

text \<open>The snapshot is passed in: it is taken under the lock, what follows is not.\<close>

definition exit_reason :: "watch_arg \<Rightarrow> int \<Rightarrow> string" where
  "exit_reason wa exit_code = buf 280 (''Process exited with code '' @ dec exit_code @
     (if wa_is_remote wa then '' on '' @ wa_remote_host wa else []))"

definition watcher_settle ::
  "exec_env \<Rightarrow> watch_arg \<Rightarrow> int \<Rightarrow> (job_status \<times> string) option \<Rightarrow> 'a exec_sys_scheme \<Rightarrow> 'a exec_sys_scheme" where
  "watcher_settle env wa exit_code terminated sys =
     (case find_execution (wa_ptr wa) sys of
        None \<Rightarrow> sys
      | Some e \<Rightarrow>
          let job = (ex_job e)\<lparr>j_exit_code := (if terminated \<noteq> None then -1 else exit_code)\<rparr>;
              (r, job', sys') =
                (case terminated of
                   Some (status, reason) \<Rightarrow>
                     if j_status job \<noteq> JOB_STATUS_CANCELLED \<and> j_status job \<noteq> JOB_STATUS_FAILED
                     then job_set_status_r (xe_print env) job status (Some reason) sys
                     else (0, job, sys)
                 | None \<Rightarrow>
                     if exit_code = 0
                     then job_set_status_r (xe_print env) job JOB_STATUS_SUCCEEDED (Some ''Completed successfully'') sys
                     else job_set_status_r (xe_print env) job JOB_STATUS_FAILED (Some (exit_reason wa exit_code)) sys)
          in put_execution (wa_ptr wa) (\<lambda>e. e\<lparr>ex_job := job'\<rparr>) sys')"

definition watcher_release :: "exec_env \<Rightarrow> watch_arg \<Rightarrow> 'a exec_sys_scheme \<Rightarrow> 'a exec_sys_scheme" where
  "watcher_release env wa sys =
     (case find_execution (wa_ptr wa) sys of
        None \<Rightarrow> sys
      | Some e \<Rightarrow>
          let (n, d) = artifact_collect_job (xe_fs env) (sy_now sys) (cf_work_dir (xe_config env))
                         (j_id (ex_job e)) (sy_db sys)
          in release_execution env (wa_ptr wa) (sys\<lparr>sy_db := d\<rparr>))"

definition watcher_thread :: "exec_env \<Rightarrow> os_answers \<Rightarrow> watch_arg \<Rightarrow> 'a exec_sys_scheme \<Rightarrow> 'a exec_sys_scheme" where
  "watcher_thread env os wa sys =
     (let sys1 = watcher_reap env os wa sys;
          terminated = active_terminal_snapshot (wa_ptr wa) 280 sys1;
          sys2 = watcher_settle env wa (wait_exit_code (os_wait os)) terminated sys1
      in watcher_release env wa sys2)"

subsection \<open>The interface\<close>

definition executor_cancel :: "exec_env \<Rightarrow> string \<Rightarrow> string option \<Rightarrow> 'a exec_sys_scheme \<Rightarrow> int \<times> 'a exec_sys_scheme" where
  "executor_cancel env job_id reason = active_request_termination env job_id JOB_STATUS_CANCELLED
     (Some (case reason of None \<Rightarrow> ''Cancelled'' | Some r \<Rightarrow> r))"

definition executor_timeout :: "exec_env \<Rightarrow> string \<Rightarrow> string option \<Rightarrow> 'a exec_sys_scheme \<Rightarrow> int \<times> 'a exec_sys_scheme" where
  "executor_timeout env job_id reason = active_request_termination env job_id JOB_STATUS_FAILED
     (Some (case reason of None \<Rightarrow> ''Timed out'' | Some r \<Rightarrow> r))"

definition executor_terminate :: "exec_env \<Rightarrow> string \<Rightarrow> 'a exec_sys_scheme \<Rightarrow> bool \<times> 'a exec_sys_scheme" where
  "executor_terminate env job_id sys =
     (let (r, sys') = active_request_termination env job_id JOB_STATUS_CANCELLED (Some ''Terminated'') sys
      in (r = 0, sys'))"

definition executor_is_active :: "string \<Rightarrow> 'a exec_sys_scheme \<Rightarrow> bool" where
  "executor_is_active job_id sys \<longleftrightarrow> (\<exists>e \<in> set (sy_active sys). strcmp (j_id (ex_job e)) job_id = 0)"

fun shutdown_all :: "exec_env \<Rightarrow> execution list \<Rightarrow> 'a exec_sys_scheme \<Rightarrow> execution list \<times> 'a exec_sys_scheme" where
  "shutdown_all env [] sys = ([], sys)"
| "shutdown_all env (e # es) sys =
     (let (e1, sys1) = request_termination env JOB_STATUS_CANCELLED ''Orchestrator shutting down'' e sys;
          sys2 = (if ex_pid e1 > 0 then send_kills (kill_hard (ex_pid e1)) sys1 else sys1);
          (es', sys3) = shutdown_all env es sys2
      in (e1 # es', sys3))"

text \<open>The part of \<open>executor_shutdown\<close> up to its wait for the list to become empty.\<close>

definition executor_shutdown :: "exec_env \<Rightarrow> 'a exec_sys_scheme \<Rightarrow> 'a exec_sys_scheme" where
  "executor_shutdown env sys =
     (let (es, sys') = shutdown_all env (sy_active sys) (sys\<lparr>sy_shutting_down := True\<rparr>)
      in sys'\<lparr>sy_active := es\<rparr>)"

end
