(* ===== verification/Execution.thy ===== *)
theory Execution
  imports Executor
begin

text \<open>
  The executor over time: what each piece of its threads does to the list of executions and to the
  allocations, the interleaving of the threads with requests from outside, and the invariant of every
  reachable state.
\<close>

section \<open>The list as a map from addresses\<close>

definition ptrs_ok :: "'a exec_sys_scheme \<Rightarrow> bool" where
  "ptrs_ok s \<longleftrightarrow> distinct (map ex_ptr (sy_active s))"

lemma find_execution_put:
  assumes "\<And>e. ex_ptr e = p \<Longrightarrow> ex_ptr (f e) = p"
  shows "find_execution q (put_execution p f s) =
    (if q = p then map_option f (find_execution p s) else find_execution q s)"
proof -
  have "find (\<lambda>e. ex_ptr e = q) (map (\<lambda>e. if ex_ptr e = p then f e else e) es) =
      (if q = p then map_option f (find (\<lambda>e. ex_ptr e = p) es) else find (\<lambda>e. ex_ptr e = q) es)" for es :: "execution list"
    using assms by (induction es) auto
  then show ?thesis by (simp add: find_execution_def put_execution_def)
qed

lemma ptrs_ok_put: "(\<And>e. ex_ptr e = p \<Longrightarrow> ex_ptr (f e) = p) \<Longrightarrow> ptrs_ok (put_execution p f s) = ptrs_ok s"
  by (auto simp: ptrs_ok_def put_execution_def comp_def intro!: arg_cong [where f = distinct])

lemma remove_first_set: "set (remove_first P xs) \<subseteq> set xs"
  by (induction xs) auto

lemma find_execution_unregister:
  assumes "ptrs_ok s"
  shows "find_execution q (active_unregister p s) = (if q = p then None else find_execution q s)"
    and "ptrs_ok (active_unregister p s)"
proof -
  have "find (\<lambda>e. ex_ptr e = q) (remove_first (\<lambda>e. ex_ptr e = p) es) =
      (if q = p then None else find (\<lambda>e. ex_ptr e = q) es) \<and> distinct (map ex_ptr (remove_first (\<lambda>e. ex_ptr e = p) es))"
    if "distinct (map ex_ptr es)" for es :: "execution list"
    using that
  proof (induction es)
    case (Cons e es)
    have "find (\<lambda>e. ex_ptr e = p) es = None" if "ex_ptr e = p"
      using that Cons.prems by (auto simp: find_None_iff image_iff)
    then show ?case using Cons remove_first_set [of "\<lambda>e. ex_ptr e = p" es] by auto
  qed simp
  then show "find_execution q (active_unregister p s) = (if q = p then None else find_execution q s)"
    "ptrs_ok (active_unregister p s)"
    using assms by (auto simp: ptrs_ok_def find_execution_def active_unregister_def)
qed

lemma find_execution_cong: "sy_active s' = sy_active s \<Longrightarrow> find_execution p s' = find_execution p s"
  by (simp add: find_execution_def)

lemma find_execution_Some: "find_execution p s = Some e \<Longrightarrow> ex_ptr e = p \<and> e \<in> set (sy_active s)"
  by (auto simp: find_execution_def find_Some_iff)

lemma find_execution_in: "ptrs_ok s \<Longrightarrow> e \<in> set (sy_active s) \<Longrightarrow> find_execution (ex_ptr e) s = Some e"
proof -
  have "distinct (map ex_ptr es) \<Longrightarrow> e \<in> set es \<Longrightarrow> find (\<lambda>x. ex_ptr x = ex_ptr e) es = Some e" for es :: "execution list"
    by (induction es) force+
  then show "ptrs_ok s \<Longrightarrow> e \<in> set (sy_active s) \<Longrightarrow> find_execution (ex_ptr e) s = Some e"
    by (simp add: ptrs_ok_def find_execution_def)
qed

section \<open>Frames\<close>

text \<open>Nothing the threads agree on has changed: the list and the allocations.\<close>

definition quiet :: "'a exec_sys_scheme \<Rightarrow> 'a exec_sys_scheme \<Rightarrow> bool" where
  "quiet s s' \<longleftrightarrow> sy_active s' = sy_active s \<and> sy_allocs s' = sy_allocs s \<and>
     sy_shutting_down s' = sy_shutting_down s \<and> (alloc_ok s \<longrightarrow> alloc_ok s')"

lemma quiet_refl [simp]: "quiet s s"
  by (simp add: quiet_def)

lemma quiet_trans: "quiet s t \<Longrightarrow> quiet t u \<Longrightarrow> quiet s u"
  by (simp add: quiet_def)

lemma quiet_db: "(db_idle (sy_db s) \<Longrightarrow> db_idle d) \<Longrightarrow> quiet s (s\<lparr>sy_db := d\<rparr>)"
  by (simp add: quiet_def alloc_ok_def)

lemma job_set_status_r_quiet:
  assumes "job_set_status_r pr job st reason s = (r, job', s')"
  shows "quiet s s' \<and> j_id job' = j_id job \<and> j_machine_id job' = j_machine_id job \<and>
    (if transition_allowed (j_status job) st then r = 0 \<and> j_status job' = st else r = -1 \<and> job' = job \<and> s' = s)"
proof (cases "transition_allowed (j_status job) st")
  case True
  have "sy_active s' = sy_active s \<and> sy_shutting_down s' = sy_shutting_down s \<and> j_machine_id job' = j_machine_id job"
    using assms True by (auto simp: job_set_status_r_def Let_def)
  moreover have "alloc_ok s \<longrightarrow> alloc_ok s'"
    using job_set_status_r_allowed [OF True assms] job_set_status_r_idle [OF _ assms] by (auto simp: alloc_ok_def)
  ultimately show ?thesis using job_set_status_r_allowed [OF True assms] True by (auto simp: quiet_def)
next
  case False
  then show ?thesis using assms by (simp add: job_set_status_r_refused)
qed

lemma alloc_release_frame:
  assumes "alloc_release j s = (r, s')"
  shows "sy_active s' = sy_active s" "sy_shutting_down s' = sy_shutting_down s"
    "alloc_ok s \<Longrightarrow> alloc_ok s' \<and> held (sy_allocs s') = (held (sy_allocs s))(j := None)"
proof -
  show "sy_active s' = sy_active s" "sy_shutting_down s' = sy_shutting_down s"
    using assms by (auto simp: alloc_release_def discard_record_def Let_def split: option.splits prod.splits)
  show "alloc_ok s \<Longrightarrow> alloc_ok s' \<and> held (sy_allocs s') = (held (sy_allocs s))(j := None)"
    using alloc_release_cases [OF _ assms] by blast
qed

lemma alloc_ok_deprovision:
  assumes "alloc_ok s" "cloud_deprovision pop prov i (sy_reg s) = (r, reg, cmds)" "sy_reg s' = reg"
    "sy_allocs s' = sy_allocs s" "db_idle (sy_db s')"
  shows "alloc_ok s'"
proof -
  obtain q reg1 where q: "registry_remove (buf 128 (''cloud-'' @ i)) (sy_reg s) = (q, reg1)" by force
  have "registry_ok (sy_reg s)" using assms(1) by (simp add: alloc_ok_def)
  then have "registry_ok reg \<and> rs.used reg = rs.used (sy_reg s)"
    using cloud_deprovision_cases [OF assms(2)] used_remove [OF _ q] registry_remove_ok [OF _ q] q by auto
  then show ?thesis using assms by (simp add: alloc_ok_def)
qed

lemma db_insert_event_idle: "db_idle d \<Longrightarrow> db_idle (snd (db_insert_event now c ty dt u j m d))"
  unfolding db_insert_event_def by (rule db_idle_run [OF _ surjective_pairing])

lemma maybe_auto_deprovision_cases:
  "maybe_auto_deprovision env mid s = s \<or>
   (\<exists>(m :: machine) r reg cmds ring d. cloud_deprovision (xe_popen env) (m_cloud_provider m) (m_cloud_instance_id m) (sy_reg s) =
      (r, reg, cmds) \<and> (db_idle (sy_db s) \<longrightarrow> db_idle d) \<and>
      maybe_auto_deprovision env mid s =
        s\<lparr>sy_reg := reg, sy_commands := sy_commands s @ cmds, sy_ring := ring, sy_db := d\<rparr>)"
proof (cases "registry_get_copy (sy_reg s) mid")
  case None
  then show ?thesis by (simp add: maybe_auto_deprovision_def)
next
  case (Some m)
  obtain r reg cmds where c: "cloud_deprovision (xe_popen env) (m_cloud_provider m) (m_cloud_instance_id m) (sy_reg s) =
      (r, reg, cmds)" by (metis prod_cases3)
  let ?detail = "deprovision_detail m"
  obtain d ring where e: "events_push_persistent (xe_print env) (sy_now s) (Some ''cloud'')
      (Some ''auto_deprovision'') (Some ?detail) (Some []) (sy_db s, sy_ring s) = (d, ring)" by force
  have d: "db_idle (sy_db s) \<Longrightarrow> db_idle d"
    using e by (auto simp add: events_push_persistent_def db_insert_event_idle)
  let ?d = "snd (db_insert_event (sy_now s) (Some ''cloud'') (Some ''auto_deprovision'')
                     (Some ?detail) (Some []) (Some []) (Some (m_id m)) d)"
  have "maybe_auto_deprovision env mid s = s \<or>
      maybe_auto_deprovision env mid s = s\<lparr>sy_reg := reg, sy_commands := sy_commands s @ cmds\<rparr> \<or>
      maybe_auto_deprovision env mid s =
        s\<lparr>sy_reg := reg, sy_commands := sy_commands s @ cmds, sy_ring := ring, sy_db := ?d\<rparr>"
    unfolding maybe_auto_deprovision_def Let_def Some option.case c e prod.case by argo
  then consider "maybe_auto_deprovision env mid s = s"
    | "maybe_auto_deprovision env mid s =
        s\<lparr>sy_reg := reg, sy_commands := sy_commands s @ cmds, sy_ring := sy_ring s, sy_db := sy_db s\<rparr>"
    | "maybe_auto_deprovision env mid s =
        s\<lparr>sy_reg := reg, sy_commands := sy_commands s @ cmds, sy_ring := ring, sy_db := ?d\<rparr>"
    by auto
  then show ?thesis
  proof cases
    case 1
    then show ?thesis by (rule disjI1)
  next
    case 2
    with c show ?thesis by blast
  next
    case 3
    moreover have "db_idle (sy_db s) \<longrightarrow> db_idle ?d" using d db_insert_event_idle by blast
    ultimately show ?thesis using c by blast
  qed
qed

lemma maybe_auto_deprovision_quiet: "quiet s (maybe_auto_deprovision env mid s)"
proof (cases "maybe_auto_deprovision env mid s = s")
  case False
  then obtain m :: machine and r reg cmds ring d where
    c: "cloud_deprovision (xe_popen env) (m_cloud_provider m) (m_cloud_instance_id m) (sy_reg s) = (r, reg, cmds)"
    and d: "db_idle (sy_db s) \<longrightarrow> db_idle d"
    and s': "maybe_auto_deprovision env mid s =
        s\<lparr>sy_reg := reg, sy_commands := sy_commands s @ cmds, sy_ring := ring, sy_db := d\<rparr>"
    using maybe_auto_deprovision_cases [of env mid s] by blast
  have "alloc_ok (maybe_auto_deprovision env mid s)" if "alloc_ok s"
    by (rule alloc_ok_deprovision [OF that c]) (use that d in \<open>simp_all add: s' alloc_ok_def\<close>)
  then show ?thesis by (simp add: quiet_def s')
qed simp

section \<open>What a piece does to one execution\<close>

text \<open>
  Entry \<open>p\<close> of the list becomes \<open>x\<close>, the others stay, and the books stay balanced. When the entry
  is removed, the job holds no allocation any more.
\<close>

definition turns :: "nat \<Rightarrow> execution option \<Rightarrow> 'a exec_sys_scheme \<Rightarrow> 'a exec_sys_scheme \<Rightarrow> bool" where
  "turns p x s s' \<longleftrightarrow> (ptrs_ok s \<and> alloc_ok s \<longrightarrow> ptrs_ok s' \<and> alloc_ok s' \<and>
     sy_shutting_down s' = sy_shutting_down s \<and>
     (\<forall>q. find_execution q s' = (if q = p then x else find_execution q s)) \<and>
     (x = None \<longrightarrow> (\<forall>e. find_execution p s = Some e \<longrightarrow> held (sy_allocs s') (j_id (ex_job e)) = None)))"

lemma turns_quiet: "quiet s s' \<Longrightarrow> find_execution p s = Some e \<Longrightarrow> turns p (Some e) s s'"
  by (auto simp: turns_def quiet_def ptrs_ok_def find_execution_def)

lemma turns_put:
  assumes "find_execution p s = Some e" "\<And>e. ex_ptr e = p \<Longrightarrow> ex_ptr (f e) = p"
  shows "turns p (Some (f e)) s (put_execution p f s)"
  using assms by (auto simp: turns_def ptrs_ok_put find_execution_put)
    (simp_all add: put_execution_def alloc_ok_def)

lemma turns_trans:
  assumes "turns p (Some e) s t" "turns p x t u" "find_execution p s = Some e0"
    "j_id (ex_job e) = j_id (ex_job e0)"
  shows "turns p x s u"
  using assms by (auto simp: turns_def)

lemma turns_release:
  assumes "find_execution p s = Some e"
  shows "turns p None s (drop_execution p (j_id (ex_job e)) s)" "turns p None s (release_execution env p s)"
proof -
  obtain r s1 where r: "alloc_release (j_id (ex_job e)) s = (r, s1)" by force
  note f = alloc_release_frame [OF r]
  have p1: "ptrs_ok s1 = ptrs_ok s" "\<And>q. find_execution q s1 = find_execution q s"
    using f by (simp_all add: ptrs_ok_def find_execution_def)
  define s2 where "s2 = maybe_auto_deprovision env (j_machine_id (ex_job e)) s1"
  have q: "quiet s1 s2" by (simp add: s2_def maybe_auto_deprovision_quiet)
  have p2: "ptrs_ok s2 = ptrs_ok s" "\<And>q. find_execution q s2 = find_execution q s"
    using q p1 by (simp_all add: quiet_def ptrs_ok_def find_execution_def)
  have un: "alloc_ok (active_unregister p t) = alloc_ok t" "sy_allocs (active_unregister p t) = sy_allocs t"
    "sy_shutting_down (active_unregister p t) = sy_shutting_down t" for t :: "'a exec_sys_scheme"
    by (simp_all add: active_unregister_def alloc_ok_def)
  show "turns p None s (drop_execution p (j_id (ex_job e)) s)"
    using assms f p1 find_execution_unregister [of s1] by (simp add: turns_def drop_execution_def r un)
  show "turns p None s (release_execution env p s)"
    using assms f p2 q find_execution_unregister [of s2]
    by (simp add: turns_def release_execution_def r un quiet_def s2_def [symmetric])
qed

lemma turns_keep_id:
  assumes "turns p (Some e') s t" "find_execution p s = Some e" "ex_ptr e' = p" "j_id (ex_job e') = j_id (ex_job e)"
    "\<And>e''. find_execution p t = Some e'' \<Longrightarrow> j_id (ex_job e'') = j_id (ex_job e) \<Longrightarrow> turns p x t u"
  shows "turns p x s u"
  using assms by (auto simp: turns_def)

text \<open>A change of state followed by storing the job, as four of the pieces do it.\<close>

lemma turns_status:
  assumes e: "find_execution p s = Some e" and id: "j_id job = j_id (ex_job e)"
    and run: "job_set_status_r pr job st reason s = (r, job', s')"
  shows "turns p (Some (e\<lparr>ex_job := job'\<rparr>)) s (put_execution p (\<lambda>e. e\<lparr>ex_job := job'\<rparr>) s')"
proof -
  have q: "quiet s s'" using job_set_status_r_quiet [OF run] by blast
  then have "find_execution p s' = Some e" using e by (simp add: quiet_def find_execution_def)
  then have "turns p (Some (e\<lparr>ex_job := job'\<rparr>)) s' (put_execution p (\<lambda>e. e\<lparr>ex_job := job'\<rparr>) s')"
    using turns_put [of p s' e "\<lambda>e. e\<lparr>ex_job := job'\<rparr>"] by simp
  from turns_trans [OF turns_quiet [OF q e] this e] show ?thesis by simp
qed

lemma finish_without_process_turns:
  assumes "find_execution p s = Some e"
  shows "turns p None s (finish_without_process env p st reason s)"
proof -
  obtain status reason' where sr: "(case active_terminal_snapshot p 256 s of Some sr \<Rightarrow> sr
      | None \<Rightarrow> (st, buf 256 (case reason of None \<Rightarrow> ''Execution failed'' | Some r \<Rightarrow> r))) = (status, reason')"
    by (rule prod.exhaust)
  obtain r job s1 where j: "job_set_status_r (xe_print env) ((ex_job e)\<lparr>j_exit_code := -1\<rparr>) status (Some reason') s =
      (r, job, s1)" by (metis prod_cases3)
  show ?thesis
  proof (cases "j_status (ex_job e) \<in> {JOB_STATUS_SUCCEEDED, JOB_STATUS_FAILED, JOB_STATUS_CANCELLED}")
    case True
    then have "finish_without_process env p st reason s = release_execution env p s"
      using assms sr by (simp add: finish_without_process_def)
    then show ?thesis using turns_release [OF assms] by simp
  next
    case False
    let ?t = "put_execution p (\<lambda>e. e\<lparr>ex_job := job\<rparr>) s1"
    have fin: "finish_without_process env p st reason s = release_execution env p ?t"
      using assms False sr j by (auto simp: finish_without_process_def)
    have id: "j_id job = j_id (ex_job e)" using job_set_status_r_quiet [OF j] by simp
    have t: "turns p (Some (e\<lparr>ex_job := job\<rparr>)) s ?t"
      by (rule turns_status [OF assms _ j]) simp
    show ?thesis unfolding fin
      by (rule turns_keep_id [OF t assms]) (use find_execution_Some [OF assms] id turns_release(2) in auto)
  qed
qed

section \<open>The pieces\<close>

lemma spawn_check_turns:
  assumes e: "find_execution p s = Some e" and run: "spawn_check p s = (go, s')"
  shows "turns p (if go then Some e else None) s s'"
proof -
  obtain c d where c: "db_get_job (j_id (ex_job e)) (sy_db s) = (c, d)" by force
  have q: "quiet s (s\<lparr>sy_db := d\<rparr>)"
    by (rule quiet_db) (use c db_idle_read in \<open>fastforce simp: db_get_job_def\<close>)
  have e': "find_execution p (s\<lparr>sy_db := d\<rparr>) = Some e" using e by (simp add: find_execution_def)
  note t = turns_quiet [OF q e]
  have "turns p None s (drop_execution p (j_id (ex_job e)) (s\<lparr>sy_db := d\<rparr>))"
    by (rule turns_keep_id [OF t e]) (use find_execution_Some [OF e] e' turns_release(1) in auto)
  then show ?thesis using run e c t by (auto simp: spawn_check_def Let_def split: option.splits if_splits)
qed

lemma spawn_running_turns:
  assumes e: "find_execution p s = Some e" and run: "spawn_running env p s = (go, s')"
  shows "if go then \<exists>job. turns p (Some (e\<lparr>ex_job := job\<rparr>)) s s' \<and> j_status job = JOB_STATUS_RUNNING \<and>
              j_id job = j_id (ex_job e) \<and> transition_allowed (j_status (ex_job e)) JOB_STATUS_RUNNING
         else turns p None s s'"
proof -
  let ?job = "(ex_job e)\<lparr>j_input_dir := store_input_dir (cf_work_dir (xe_config env)) (j_id (ex_job e)) 512,
                        j_output_dir := store_output_dir (cf_work_dir (xe_config env)) (j_id (ex_job e)) 512\<rparr>"
  obtain r job s1 where j: "job_set_status_r (xe_print env) ?job JOB_STATUS_RUNNING (Some []) s = (r, job, s1)"
    by (metis prod_cases3)
  note q = job_set_status_r_quiet [OF j]
  let ?t = "put_execution p (\<lambda>e. e\<lparr>ex_job := job\<rparr>) s1"
  have t: "turns p (Some (e\<lparr>ex_job := job\<rparr>)) s ?t" by (rule turns_status [OF e _ j]) simp
  have s': "(go, s') = (if r \<noteq> 0 then (False, drop_execution p (j_id (ex_job e)) ?t) else (True, ?t))"
    using run e j by (simp add: spawn_running_def job_set_status_def Let_def split: if_splits)
  have "turns p None s (drop_execution p (j_id (ex_job e)) ?t)"
  proof (rule turns_keep_id [OF t e])
    fix e'' assume "find_execution p ?t = Some e''" "j_id (ex_job e'') = j_id (ex_job e)"
    then show "turns p None ?t (drop_execution p (j_id (ex_job e)) ?t)" using turns_release(1) by metis
  qed (use find_execution_Some [OF e] q in auto)
  then show ?thesis using s' t q by (auto split: if_splits)
qed

lemma spawn_started_turns:
  assumes e: "find_execution p s = Some e" and run: "spawn_started env os p s = (go, s')"
  shows "turns p (if go then Some (e\<lparr>ex_job := (ex_job e)\<lparr>j_started_at := sy_now s\<rparr>\<rparr>) else None) s s'"
proof -
  let ?job = "(ex_job e)\<lparr>j_started_at := sy_now s\<rparr>"
  obtain r d where d: "db_update_job_started (j_id (ex_job e)) (j_machine_id (ex_job e)) (sy_now s) (sy_db s) = (r, d)"
    by force
  let ?s1 = "put_execution p (\<lambda>e. e\<lparr>ex_job := ?job\<rparr>) s"
  let ?t = "?s1\<lparr>sy_db := d\<rparr>"
  have put: "turns p (Some (e\<lparr>ex_job := ?job\<rparr>)) s ?s1"
    by (rule turns_put [OF e, of "\<lambda>e. e\<lparr>ex_job := ?job\<rparr>"]) simp
  have "quiet ?s1 ?t"
    by (rule quiet_db) (use d db_idle_update_job in \<open>auto simp: db_update_job_started_def put_execution_def\<close>)
  moreover have "find_execution p ?s1 = Some (e\<lparr>ex_job := ?job\<rparr>)"
    using find_execution_put [of p "\<lambda>e. e\<lparr>ex_job := ?job\<rparr>" p s] e by simp
  ultimately have t: "turns p (Some (e\<lparr>ex_job := ?job\<rparr>)) s ?t"
    using turns_trans [OF put _ e] turns_quiet by fastforce
  have fin: "turns p None s (finish_without_process env p st reason ?t)" for st reason
    by (rule turns_keep_id [OF t e])
      (use find_execution_Some [OF e] finish_without_process_turns in auto)
  show ?thesis using run e d t fin by (auto simp: spawn_started_def Let_def split: if_splits)
qed

lemma snapshot_iff:
  "find_execution p s = Some e \<Longrightarrow> active_terminal_snapshot p n s =
     (if ex_termination_requested e then Some (ex_terminal_status e, buf n (ex_terminal_reason e)) else None)"
  by (simp add: active_terminal_snapshot_def)

lemma launcher_check_turns:
  assumes e: "find_execution p s = Some e" and run: "launcher_check env p s = (go, s')"
  shows "if go then s' = s \<and> \<not> ex_termination_requested e else turns p None s s'"
  using assms finish_without_process_turns [OF e, of env]
  by (auto simp: launcher_check_def snapshot_iff split: if_splits)

lemma quiet_commands [simp]: "quiet s (s\<lparr>sy_commands := c\<rparr>)" "quiet s (send_kills ks s)"
  by (simp_all add: quiet_def send_kills_def alloc_ok_def)

lemma run_system_quiet: "run_system os cmd s = (rc, s') \<Longrightarrow> quiet s s'"
  by (auto simp: run_system_def Let_def)

lemma active_set_process_turns:
  assumes e: "find_execution p s = Some e"
  shows "turns p (Some (e\<lparr>ex_pid := pid\<rparr>)) s (active_set_process p pid s)"
proof -
  let ?t = "put_execution p (\<lambda>e. e\<lparr>ex_pid := pid\<rparr>) s"
  have t: "turns p (Some (e\<lparr>ex_pid := pid\<rparr>)) s ?t" by (rule turns_put [OF e, of "\<lambda>e. e\<lparr>ex_pid := pid\<rparr>"]) simp
  have "find_execution p ?t = Some (e\<lparr>ex_pid := pid\<rparr>)" using e by (simp add: find_execution_put)
  then have "turns p (Some (e\<lparr>ex_pid := pid\<rparr>)) ?t (send_kills ks ?t)" for ks by (simp add: turns_quiet)
  from turns_trans [OF t this e] show ?thesis using e t by (simp add: active_set_process_def Let_def)
qed

lemma active_clear_process_turns:
  "find_execution p s = Some e \<Longrightarrow> turns p (Some (e\<lparr>ex_pid := 0\<rparr>)) s (active_clear_process p s)"
  unfolding active_clear_process_def by (rule turns_put [of p s e "\<lambda>e. e\<lparr>ex_pid := 0\<rparr>"]) simp_all

text \<open>Whatever happens before the process is handed over, only its identifier is recorded.\<close>

lemma start_watcher_turns:
  assumes e: "find_execution p s = Some e" and run: "start_watcher os p wa s = (w, s')"
  shows "(w = None \<or> w = Some wa) \<and> (\<exists>pid. turns p (Some (e\<lparr>ex_pid := pid\<rparr>)) s s')"
proof -
  have id: "e = e\<lparr>ex_pid := ex_pid e\<rparr>" by simp
  have q: "\<exists>pid. turns p (Some (e\<lparr>ex_pid := pid\<rparr>)) s t" if "quiet s t" for t
    using turns_quiet [OF that e] id by metis
  note set = active_set_process_turns [OF e, of "os_pid os"]
  let ?t = "active_set_process p (os_pid os) s"
  let ?u = "send_kills (kill_hard (os_pid os)) ?t"
  have "turns p (Some (e\<lparr>ex_pid := 0\<rparr>)) s (active_clear_process p ?u)"
  proof (rule turns_keep_id [OF set e])
    fix e'' assume e'': "find_execution p ?t = Some e''" "j_id (ex_job e'') = j_id (ex_job e)"
    have "find_execution p ?t = Some (e\<lparr>ex_pid := os_pid os\<rparr>)"
      using e by (auto simp: active_set_process_def find_execution_put send_kills_def Let_def
          intro: trans [OF find_execution_cong])
    then have "turns p (Some (e\<lparr>ex_pid := 0\<rparr>)) ?u (active_clear_process p ?u)"
      using active_clear_process_turns [of p ?u "e\<lparr>ex_pid := os_pid os\<rparr>"]
      by (simp add: send_kills_def find_execution_def)
    from turns_trans [OF turns_quiet [OF _ \<open>find_execution p ?t = Some (e\<lparr>ex_pid := os_pid os\<rparr>)\<close>] this]
    show "turns p (Some (e\<lparr>ex_pid := 0\<rparr>)) ?t (active_clear_process p ?u)"
      using \<open>find_execution p ?t = Some (e\<lparr>ex_pid := os_pid os\<rparr>)\<close> by simp
  qed (use find_execution_Some [OF e] in auto)
  then show ?thesis using run set q by (auto simp: start_watcher_def Let_def split: if_splits)
qed

lemma spawn_process_turns:
  assumes e: "find_execution p s = Some e" and run: "spawn_process env os job p s = (w, s')"
  shows "(\<forall>wa. w = Some wa \<longrightarrow> wa_ptr wa = p) \<and> (\<exists>pid. turns p (Some (e\<lparr>ex_pid := pid\<rparr>)) s s')"
proof -
  have id: "e = e\<lparr>ex_pid := ex_pid e\<rparr>" by simp
  have quiet: "\<exists>pid. turns p (Some (e\<lparr>ex_pid := pid\<rparr>)) s t" if "quiet s t" for t
    using turns_quiet [OF that e] id by metis
  have start: "(w' = None \<or> w' = Some wa) \<and> (\<exists>pid. turns p (Some (e\<lparr>ex_pid := pid\<rparr>)) s u)"
    if "quiet s t" "start_watcher os p wa t = (w', u)" for t wa w' u
  proof -
    have "find_execution p t = Some e" using that(1) e by (simp add: quiet_def find_execution_def)
    from start_watcher_turns [OF this that(2)] show ?thesis
      using turns_trans [OF turns_quiet [OF that(1) e] _ e] by blast
  qed
  obtain host here where h: "machine_host (sy_reg s) (j_machine_id job) 256 = (host, here)" by force
  let ?cfg = "xe_config env"
  obtain rc1 s1 where 1: "run_system os (ssh_mkdir_cmd ?cfg job host) s = (rc1, s1)" by force
  obtain rc2 s2 where 2: "run_system os (scp_input_cmd ?cfg job host) s1 = (rc2, s2)" by force
  obtain rc3 s3 where 3: "run_system os (scp_script_cmd ?cfg job host) s2 = (rc3, s3)" by force
  have q: "quiet s s1" "quiet s s2" "quiet s s3"
    using 1 2 3 run_system_quiet quiet_trans by metis+
  have "(w = None \<and> (s' = s \<or> s' = s1 \<or> s' = s2 \<or> s' = s3)) \<or>
      (\<exists>wa t. wa_ptr wa = p \<and> quiet s t \<and> start_watcher os p wa t = (w, s'))"
    using run h 1 2 3 q(3)
    by (fastforce simp: spawn_process_def spawn_local_def spawn_remote_def Let_def split: if_splits)
  then show ?thesis using quiet q start by (metis option.distinct(1) option.inject quiet_refl)
qed

lemma launcher_spawn_turns:
  assumes e: "find_execution p s = Some e" and run: "launcher_spawn env os p s = (w, s')"
  shows "case w of None \<Rightarrow> turns p None s s'
    | Some wa \<Rightarrow> wa_ptr wa = p \<and> (\<exists>pid. turns p (Some (e\<lparr>ex_pid := pid\<rparr>)) s s')"
proof -
  obtain w1 s1 where sp: "spawn_process env os (ex_job e) p s = (w1, s1)" by force
  note t = spawn_process_turns [OF e sp]
  then obtain pid where pid: "turns p (Some (e\<lparr>ex_pid := pid\<rparr>)) s s1" by blast
  have fin: "turns p None s (finish_without_process env p st reason s1)" for st reason
    by (rule turns_keep_id [OF pid e])
      (use find_execution_Some [OF e] finish_without_process_turns in auto)
  show ?thesis
  proof (cases w1)
    case None
    then have "w = None" "\<exists>st reason. s' = finish_without_process env p st reason s1"
      using run e sp by (auto simp: launcher_spawn_def)
    then show ?thesis using fin by auto
  next
    case (Some wa)
    then show ?thesis using run e sp t by (auto simp: launcher_spawn_def)
  qed
qed

lemma watcher_reap_turns:
  assumes "find_execution (wa_ptr wa) s = Some e"
  shows "turns (wa_ptr wa) (Some (e\<lparr>ex_pid := 0\<rparr>)) s (watcher_reap env os wa s)"
proof -
  let ?t = "active_clear_process (wa_ptr wa) s"
  note t = active_clear_process_turns [OF assms]
  have e: "find_execution (wa_ptr wa) ?t = Some (e\<lparr>ex_pid := 0\<rparr>)"
    using assms by (simp add: active_clear_process_def find_execution_put)
  have "quiet ?t (snd (run_system os cmd ?t))" for cmd using run_system_quiet by (metis prod.collapse)
  then have "turns (wa_ptr wa) (Some (e\<lparr>ex_pid := 0\<rparr>)) ?t (snd (run_system os cmd ?t))" for cmd
    using turns_quiet e by blast
  from turns_trans [OF t this assms] show ?thesis using t e by (simp add: watcher_reap_def Let_def)
qed

lemma watcher_release_turns:
  assumes e: "find_execution (wa_ptr wa) s = Some e"
  shows "turns (wa_ptr wa) None s (watcher_release env wa s)"
proof -
  obtain n d where d: "artifact_collect_job (xe_fs env) (sy_now s) (cf_work_dir (xe_config env)) (j_id (ex_job e))
      (sy_db s) = (n, d)" by force
  have q: "quiet s (s\<lparr>sy_db := d\<rparr>)"
    by (rule quiet_db) (use artifact_collect_job_only [OF d] in \<open>simp add: artifacts_only_def\<close>)
  have "find_execution (wa_ptr wa) (s\<lparr>sy_db := d\<rparr>) = Some e" using e by (simp add: find_execution_def)
  from turns_trans [OF turns_quiet [OF q e] turns_release(2) [OF this] e] show ?thesis
    using e d by (simp add: watcher_release_def)
qed

definition ended_badly :: "job_status \<Rightarrow> bool" where
  "ended_badly st \<longleftrightarrow> st = JOB_STATUS_FAILED \<or> st = JOB_STATUS_CANCELLED"

lemma ended_badly_terminal: "ended_badly st \<Longrightarrow> terminal st"
  by (auto simp: ended_badly_def terminal_def)

text \<open>Settling a running job ends it; settling a job that has ended leaves its state.\<close>

lemma watcher_settle_turns:
  assumes e: "find_execution (wa_ptr wa) s = Some e"
    and st: "j_status (ex_job e) = JOB_STATUS_RUNNING \<or> terminal (j_status (ex_job e))"
    and t: "\<And>st r. t = Some (st, r) \<Longrightarrow> ended_badly st \<and> ended_badly (j_status (ex_job e))"
  shows "\<exists>job. turns (wa_ptr wa) (Some (e\<lparr>ex_job := job\<rparr>)) s (watcher_settle env wa c t s) \<and>
    j_id job = j_id (ex_job e) \<and> terminal (j_status job) \<and>
    (terminal (j_status (ex_job e)) \<longrightarrow> j_status job = j_status (ex_job e)) \<and>
    (j_status job = JOB_STATUS_SUCCEEDED \<and> j_status (ex_job e) = JOB_STATUS_RUNNING \<longrightarrow> c = 0)"
proof -
  let ?p = "wa_ptr wa"
  define job where "job = (ex_job e)\<lparr>j_exit_code := (if t \<noteq> None then -1 else c)\<rparr>"
  show ?thesis
  proof (cases t)
    case (Some sr)
    then obtain st' reason where sr: "t = Some (st', reason)" by (cases sr) auto
    have "watcher_settle env wa c t s = put_execution ?p (\<lambda>e. e\<lparr>ex_job := job\<rparr>) s"
      using e t [OF sr] by (auto simp: watcher_settle_def job_def sr ended_badly_def)
    then show ?thesis
      using turns_put [OF e, of "\<lambda>e. e\<lparr>ex_job := job\<rparr>"] t [OF sr] ended_badly_terminal
      by (intro exI [of _ job]) (auto simp: job_def ended_badly_def)
  next
    case None
    define st' where "st' = (if c = 0 then JOB_STATUS_SUCCEEDED else JOB_STATUS_FAILED)"
    define reason where "reason = (if c = 0 then ''Completed successfully'' else exit_reason wa c)"
    obtain r job' s' where j: "job_set_status_r (xe_print env) job st' (Some reason) s = (r, job', s')"
      by (metis prod_cases3)
    have run: "watcher_settle env wa c t s = put_execution ?p (\<lambda>e. e\<lparr>ex_job := job'\<rparr>) s'"
      using e j None by (auto simp: watcher_settle_def job_def st'_def reason_def Let_def)
    have "turns ?p (Some (e\<lparr>ex_job := job'\<rparr>)) s (watcher_settle env wa c t s)"
      unfolding run by (rule turns_status [OF e _ j]) (simp add: job_def)
    moreover have "j_status job = j_status (ex_job e)" "j_id job = j_id (ex_job e)" by (simp_all add: job_def)
    moreover note job_set_status_r_quiet [OF j]
    moreover have "terminal st'" by (simp add: st'_def terminal_def)
    moreover have "transition_allowed JOB_STATUS_RUNNING st'" by (simp add: st'_def)
    ultimately show ?thesis using st transition_terminal [of "j_status (ex_job e)" st']
      by (intro exI [of _ job']) (auto simp: st'_def split: if_splits)
  qed
qed

lemma request_termination_quiet:
  assumes "request_termination env st reason e s = (e', s')" "ended_badly st"
  shows "quiet s s'" "ex_ptr e' = ex_ptr e" "j_id (ex_job e') = j_id (ex_job e)"
    "ex_termination_requested e'"
    "if ex_termination_requested e then e' = e
     else ex_terminal_status e' = st \<and>
       j_status (ex_job e') = (if j_status (ex_job e) \<in> {JOB_STATUS_QUEUED, JOB_STATUS_RUNNING} then st
                               else j_status (ex_job e))"
proof -
  let ?job = "(ex_job e)\<lparr>j_exit_code := -1\<rparr>"
  obtain r job s1 where j: "job_set_status_r (xe_print env) ?job st (Some (buf 256 reason)) s = (r, job, s1)"
    by (metis prod_cases3)
  note q = job_set_status_r_quiet [OF j]
  have a: "transition_allowed JOB_STATUS_QUEUED st" "transition_allowed JOB_STATUS_RUNNING st"
    using assms(2) by (auto simp: ended_badly_def)
  show "quiet s s'" "ex_ptr e' = ex_ptr e" "j_id (ex_job e') = j_id (ex_job e)" "ex_termination_requested e'"
    "if ex_termination_requested e then e' = e
     else ex_terminal_status e' = st \<and>
       j_status (ex_job e') = (if j_status (ex_job e) \<in> {JOB_STATUS_QUEUED, JOB_STATUS_RUNNING} then st
                               else j_status (ex_job e))"
    using assms(1) j q a by (auto simp: request_termination_def Let_def split: if_splits)
qed

lemma active_request_termination_turns:
  assumes "active_request_termination env j st reason s = (r, s')" "ended_badly st" "ptrs_ok s"
  shows "r = -1 \<and> s' = s \<or> (\<exists>e e' s1. find_execution (ex_ptr e) s = Some e \<and> r = 0 \<and> j_id (ex_job e) = j \<and>
    request_termination env st (case reason of None \<Rightarrow> ''Terminated'' | Some r \<Rightarrow> r) e s = (e', s1) \<and>
    turns (ex_ptr e) (Some e') s s')"
proof (cases "find (\<lambda>e. strcmp (j_id (ex_job e)) j = 0) (sy_active s)")
  case None
  then show ?thesis using assms(1) by (simp add: active_request_termination_def)
next
  case (Some e)
  define reason' where "reason' = (case reason of None \<Rightarrow> ''Terminated'' | Some r \<Rightarrow> r)"
  obtain e' s1 where q: "request_termination env st reason' e s = (e', s1)" by force
  note Q = request_termination_quiet [OF q assms(2)]
  have e: "e \<in> set (sy_active s)" "j_id (ex_job e) = j" using Some by (auto simp: find_Some_iff)
  then have f: "find_execution (ex_ptr e) s = Some e" using find_execution_in [OF assms(3)] by simp
  let ?t = "put_execution (ex_ptr e) (\<lambda>_. e') s1"
  have f1: "find_execution (ex_ptr e) s1 = Some e" using f Q(1) by (simp add: quiet_def find_execution_def)
  have "turns (ex_ptr e) (Some e') s1 ?t" using turns_put [OF f1, of "\<lambda>_. e'"] Q(2) by simp
  from turns_trans [OF turns_quiet [OF Q(1) f] this f] have t: "turns (ex_ptr e) (Some e') s ?t" by simp
  have f2: "find_execution (ex_ptr e) ?t = Some e'" using f1 Q(2) by (simp add: find_execution_put)
  then have "turns (ex_ptr e) (Some e') ?t (send_kills ks ?t)" for ks by (simp add: turns_quiet)
  from turns_trans [OF t this f] Q(3) have "turns (ex_ptr e) (Some e') s (send_kills ks ?t)" for ks by simp
  moreover have "(r, s') = (0, if ex_pid e' > 0 then send_kills (kill_group (ex_pid e')) ?t else ?t)"
    using assms(1) Some q by (auto simp: active_request_termination_def reason'_def Let_def split: if_splits)
  ultimately show ?thesis using t f e q unfolding reason'_def [symmetric] by (auto split: if_splits)
qed

lemma shutdown_all_quiet:
  "shutdown_all env es s = (es', s') \<Longrightarrow> quiet s s' \<and>
   list_all2 (\<lambda>e e'. \<exists>t u :: 'a exec_sys_scheme.
     request_termination env JOB_STATUS_CANCELLED ''Orchestrator shutting down'' e t = (e', u)) es es'"
  for s :: "'a exec_sys_scheme"
proof (induction es arbitrary: s es' s')
  case (Cons e es)
  obtain e1 s1 where 1: "request_termination env JOB_STATUS_CANCELLED ''Orchestrator shutting down'' e s = (e1, s1)"
    by force
  define s2 where "s2 = (if ex_pid e1 > 0 then send_kills (kill_hard (ex_pid e1)) s1 else s1)"
  obtain es2 s3 where 3: "shutdown_all env es s2 = (es2, s3)" by force
  have "quiet s s1" using request_termination_quiet(1) [OF 1] by (simp add: ended_badly_def)
  moreover have "quiet s1 s2" by (simp add: s2_def)
  moreover have out: "es' = e1 # es2" "s' = s3" using Cons.prems 1 3 by (auto simp: s2_def Let_def split: if_splits)
  ultimately show ?case using Cons.IH [OF 3] 1 quiet_trans by blast
qed simp

section \<open>The threads interleaved\<close>

text \<open>Where the thread that owns an execution stands.\<close>

datatype phase =
  Registered | Checked | Started | Launching | Spawning |
  Watching watch_arg | Reaped watch_arg int | Snapped watch_arg int "(job_status \<times> string) option" |
  Settled watch_arg

type_synonym exec_state = "exec_sys \<times> (nat \<Rightarrow> phase option)"

definition goes_on :: "phase \<Rightarrow> bool \<times> exec_sys \<Rightarrow> exec_sys \<times> phase option" where
  "goes_on f = (\<lambda>(go, s). (s, if go then Some f else None))"

text \<open>The next piece of the thread that owns execution \<open>p\<close>, and where the thread stands after it.\<close>

fun piece :: "exec_env \<Rightarrow> os_answers \<Rightarrow> nat \<Rightarrow> phase \<Rightarrow> exec_sys \<Rightarrow> exec_sys \<times> phase option" where
  "piece env os p Registered s = goes_on Checked (spawn_check p s)"
| "piece env os p Checked s = goes_on Started (spawn_running env p s)"
| "piece env os p Started s = goes_on Launching (spawn_started env os p s)"
| "piece env os p Launching s = goes_on Spawning (launcher_check env p s)"
| "piece env os p Spawning s = (let (w, s') = launcher_spawn env os p s in (s', map_option Watching w))"
| "piece env os p (Watching wa) s = (watcher_reap env os wa s, Some (Reaped wa (wait_exit_code (os_wait os))))"
| "piece env os p (Reaped wa c) s = (s, Some (Snapped wa c (active_terminal_snapshot (wa_ptr wa) 280 s)))"
| "piece env os p (Snapped wa c t) s = (watcher_settle env wa c t s, Some (Settled wa))"
| "piece env os p (Settled wa) s = (watcher_release env wa s, None)"

definition advance :: "exec_env \<Rightarrow> os_answers \<Rightarrow> nat \<Rightarrow> exec_state \<Rightarrow> exec_state" where
  "advance env os p x =
     (case snd x p of
        None \<Rightarrow> x
      | Some f \<Rightarrow> let (s', f') = piece env os p f (fst x) in (s', (snd x)(p := f')))"

text \<open>
  The steps: a queued job is handed to \<open>executor_spawn\<close>, a thread runs its next piece, a job is
  cancelled or timed out, the executor is shut down, and everything the allocator, the registry and
  the rest of the program do meanwhile.
\<close>

inductive exec_step :: "exec_env \<Rightarrow> exec_state \<Rightarrow> exec_state \<Rightarrow> bool" for env where
  xs_register: "j_status job = JOB_STATUS_QUEUED \<Longrightarrow>
    (\<And>p. fresh = Some p \<Longrightarrow> find_execution p s = None) \<Longrightarrow> spawn_register env fresh job s = (r, s') \<Longrightarrow>
    exec_step env (s, ph) (s', case r of None \<Rightarrow> ph | Some p \<Rightarrow> ph(p \<mapsto> Registered))"
| xs_advance: "exec_step env x (advance env os p x)"
| xs_request: "ended_badly st \<Longrightarrow> active_request_termination env j st reason s = (r', s') \<Longrightarrow>
    exec_step env (s, ph) (s', ph)"
| xs_shutdown: "exec_step env (s, ph) (executor_shutdown env s, ph)"
| xs_other: "alloc_step (alloc_sys.truncate s) a \<Longrightarrow>
    exec_step env (s, ph) (s\<lparr>sy_reg := sy_reg a, sy_allocs := sy_allocs a,
      sy_alloc_capacity := sy_alloc_capacity a, sy_db := sy_db a, sy_now := sy_now a\<rparr>, ph)"

inductive_cases exec_stepE: "exec_step env x y"

definition settled :: "phase \<Rightarrow> bool" where
  "settled f \<longleftrightarrow> (\<exists>wa. f = Settled wa)"

fun phase_arg :: "phase \<Rightarrow> watch_arg option" where
  "phase_arg (Watching wa) = Some wa"
| "phase_arg (Reaped wa c) = Some wa"
| "phase_arg (Snapped wa c t) = Some wa"
| "phase_arg (Settled wa) = Some wa"
| "phase_arg _ = None"

fun phase_snap :: "phase \<Rightarrow> (job_status \<times> string) option" where
  "phase_snap (Snapped wa c t) = t"
| "phase_snap _ = None"

definition phase_status :: "phase \<Rightarrow> job_status \<Rightarrow> bool" where
  "phase_status f st = (case f of Registered \<Rightarrow> st = JOB_STATUS_QUEUED | Checked \<Rightarrow> st = JOB_STATUS_QUEUED
     | Settled wa \<Rightarrow> terminal st | _ \<Rightarrow> st = JOB_STATUS_RUNNING)"

definition phase_ok :: "phase \<Rightarrow> execution \<Rightarrow> bool" where
  "phase_ok f e \<longleftrightarrow>
     (if ex_termination_requested e
      then ended_badly (ex_terminal_status e) \<and> terminal (j_status (ex_job e)) \<and>
           (settled f \<or> ended_badly (j_status (ex_job e)))
      else phase_status f (j_status (ex_job e)) \<and> phase_snap f = None) \<and>
     (\<forall>st r. phase_snap f = Some (st, r) \<longrightarrow> ended_badly st) \<and>
     (\<forall>wa. phase_arg f = Some wa \<longrightarrow> wa_ptr wa = ex_ptr e)"

definition exec_ok :: "exec_state \<Rightarrow> bool" where
  "exec_ok x \<longleftrightarrow> alloc_ok (fst x) \<and> ptrs_ok (fst x) \<and>
     (\<forall>p. rel_option (\<lambda>e f. phase_ok f e) (find_execution p (fst x)) (snd x p))"

lemma exec_okD:
  assumes "exec_ok (s, ph)"
  shows "alloc_ok s" "ptrs_ok s" "find_execution p s = None \<longleftrightarrow> ph p = None"
    "find_execution p s = Some e \<Longrightarrow> \<exists>f. ph p = Some f \<and> phase_ok f e"
    "ph p = Some f \<Longrightarrow> \<exists>e. find_execution p s = Some e \<and> phase_ok f e"
proof -
  have r: "rel_option (\<lambda>e f. phase_ok f e) (find_execution p s) (ph p)" for p
    using assms by (simp add: exec_ok_def)
  show "alloc_ok s" "ptrs_ok s" using assms by (simp_all add: exec_ok_def)
  show "find_execution p s = None \<longleftrightarrow> ph p = None"
    using r [of p] by (cases "find_execution p s"; cases "ph p") auto
  show "find_execution p s = Some e \<Longrightarrow> \<exists>f. ph p = Some f \<and> phase_ok f e"
    using r [of p] by (cases "ph p") auto
  show "ph p = Some f \<Longrightarrow> \<exists>e. find_execution p s = Some e \<and> phase_ok f e"
    using r [of p] by (cases "find_execution p s") auto
qed

lemma exec_ok_turns:
  assumes "exec_ok (s, ph)" "turns p x s s'" "rel_option (\<lambda>e f. phase_ok f e) x f"
  shows "exec_ok (s', ph(p := f))"
  using assms by (auto simp: exec_ok_def turns_def)

lemma exec_ok_same:
  assumes "exec_ok (s, ph)" "sy_active s' = sy_active s" "alloc_ok s'"
  shows "exec_ok (s', ph)"
  using assms by (simp add: exec_ok_def ptrs_ok_def find_execution_def)

section \<open>The invariant\<close>

fun phase_rank :: "phase option \<Rightarrow> nat" where
  "phase_rank None = 0"
| "phase_rank (Some Registered) = 9"
| "phase_rank (Some Checked) = 8"
| "phase_rank (Some Started) = 7"
| "phase_rank (Some Launching) = 6"
| "phase_rank (Some Spawning) = 5"
| "phase_rank (Some (Watching wa)) = 4"
| "phase_rank (Some (Reaped wa c)) = 3"
| "phase_rank (Some (Snapped wa c t)) = 2"
| "phase_rank (Some (Settled wa)) = 1"

text \<open>What no step takes back: the job, a request for its termination, its end.\<close>

definition lasting :: "execution \<Rightarrow> execution \<Rightarrow> bool" where
  "lasting e e' \<longleftrightarrow> j_id (ex_job e') = j_id (ex_job e) \<and>
     (ex_termination_requested e \<longrightarrow> ex_termination_requested e') \<and>
     (terminal (j_status (ex_job e)) \<longrightarrow> j_status (ex_job e') = j_status (ex_job e))"

lemma lasting_refl [simp]: "lasting e e" "lasting e (e\<lparr>ex_pid := pid\<rparr>)"
  by (simp_all add: lasting_def)

text \<open>A piece that leaves a consistent execution, or none, nearer to its end.\<close>

definition good_piece :: "nat \<Rightarrow> execution \<Rightarrow> phase \<Rightarrow> exec_sys \<Rightarrow> exec_sys \<times> phase option \<Rightarrow> bool" where
  "good_piece p e f s r \<longleftrightarrow> phase_rank (snd r) < phase_rank (Some f) \<and>
     (\<exists>x. turns p x s (fst r) \<and> rel_option (\<lambda>e f. phase_ok f e) x (snd r) \<and> (\<forall>e'. x = Some e' \<longrightarrow> lasting e e'))"

lemma phase_rank_pos: "0 < phase_rank (Some f)"
  by (cases f) auto

lemma good_piece_None: "turns p None s s' \<Longrightarrow> good_piece p e f s (s', None)"
  by (simp add: good_piece_def phase_rank_pos)

lemma good_piece_Some:
  assumes "phase_rank (Some f') < phase_rank (Some f)" "turns p (Some e') s s'" "phase_ok f' e'" "lasting e e'"
  shows "good_piece p e f s (s', Some f')"
  unfolding good_piece_def using assms by (intro conjI exI [of _ "Some e'"]) auto

lemma good_piece_go:
  assumes "phase_rank (Some f') < phase_rank (Some f)"
    "go \<Longrightarrow> \<exists>e'. turns p (Some e') s s' \<and> phase_ok f' e' \<and> lasting e e'" "\<not> go \<Longrightarrow> turns p None s s'"
  shows "good_piece p e f s (goes_on f' (go, s'))"
proof (cases go)
  case True
  then show ?thesis using assms(1,2) good_piece_Some by (fastforce simp: goes_on_def)
next
  case False
  then show ?thesis using assms(3) good_piece_None by (simp add: goes_on_def)
qed

lemma spawner_good:
  assumes e: "find_execution p s = Some e" and f: "phase_ok f e" "f \<in> {Registered, Checked, Started}"
  shows "good_piece p e f s (piece env os p f s)"
  using f(2)
proof (elim insertE emptyE)
  assume f': "f = Registered"
  obtain go s' where r: "spawn_check p s = (go, s')" by force
  have "phase_ok Checked e" using f f' by (auto simp: phase_ok_def phase_status_def settled_def)
  then show ?thesis using f' r spawn_check_turns [OF e r] lasting_refl(1) by (auto intro!: good_piece_go)
next
  assume f': "f = Checked"
  obtain go s' where r: "spawn_running env p s = (go, s')" by force
  have "phase_ok Started (e\<lparr>ex_job := job\<rparr>) \<and> lasting e (e\<lparr>ex_job := job\<rparr>)"
    if "j_status job = JOB_STATUS_RUNNING" "transition_allowed (j_status (ex_job e)) JOB_STATUS_RUNNING"
      "j_id job = j_id (ex_job e)" for job
    using f f' that transition_terminal
    by (auto simp: phase_ok_def phase_status_def settled_def lasting_def terminal_def split: if_splits)
  then show ?thesis using f' r spawn_running_turns [OF e r]
    by (auto intro!: good_piece_go split: if_splits)
next
  assume f': "f = Started"
  obtain go s' where r: "spawn_started env os p s = (go, s')" by force
  have "phase_ok Launching (e\<lparr>ex_job := (ex_job e)\<lparr>j_started_at := sy_now s\<rparr>\<rparr>)"
    "lasting e (e\<lparr>ex_job := (ex_job e)\<lparr>j_started_at := sy_now s\<rparr>\<rparr>)"
    using f f' by (auto simp: phase_ok_def phase_status_def settled_def lasting_def)
  then show ?thesis using f' r spawn_started_turns [OF e r] by (auto intro!: good_piece_go)
qed

lemma launcher_good:
  assumes e: "find_execution p s = Some e" and f: "phase_ok f e" "f \<in> {Launching, Spawning}"
  shows "good_piece p e f s (piece env os p f s)"
  using f(2)
proof (elim insertE emptyE)
  assume f': "f = Launching"
  obtain go s' where r: "launcher_check env p s = (go, s')" by force
  have "phase_ok Spawning e" using f f' by (auto simp: phase_ok_def phase_status_def settled_def)
  then show ?thesis
    using f' r launcher_check_turns [OF e r] turns_quiet [OF quiet_refl e] lasting_refl(1)
    by (auto intro!: good_piece_go split: if_splits)
next
  assume f': "f = Spawning"
  obtain w s' where r: "launcher_spawn env os p s = (w, s')" by force
  have "phase_ok (Watching wa) (e\<lparr>ex_pid := pid\<rparr>)" if "wa_ptr wa = p" for wa pid
    using f f' that find_execution_Some [OF e] by (auto simp: phase_ok_def phase_status_def settled_def)
  then show ?thesis using f' r launcher_spawn_turns [OF e r] lasting_refl(2)
    by (cases w) (auto intro: good_piece_None good_piece_Some)
qed

lemma watcher_good:
  assumes e: "find_execution p s = Some e" and f: "phase_ok f e" "phase_arg f = Some wa"
  shows "good_piece p e f s (piece env os p f s)"
proof -
  have wa: "wa_ptr wa = p" using f find_execution_Some [OF e] by (simp add: phase_ok_def)
  note ew = e [folded wa]
  consider "f = Watching wa" | c where "f = Reaped wa c" | c t where "f = Snapped wa c t" | "f = Settled wa"
    using f(2) by (cases f) auto
  then show ?thesis
  proof cases
    case 1
    then have "phase_ok (Reaped wa c) (e\<lparr>ex_pid := 0\<rparr>)" for c
      using f by (auto simp: phase_ok_def phase_status_def settled_def)
    then show ?thesis using 1 watcher_reap_turns [OF ew] wa by (auto intro!: good_piece_Some)
  next
    case (2 c)
    then have "phase_ok (Snapped wa c (active_terminal_snapshot p 280 s)) e"
      using f by (auto simp: phase_ok_def phase_status_def settled_def snapshot_iff [OF e])
    then show ?thesis using 2 wa turns_quiet [OF quiet_refl e] by (auto intro!: good_piece_Some)
  next
    case (3 c t)
    have st: "j_status (ex_job e) = JOB_STATUS_RUNNING \<or> terminal (j_status (ex_job e))"
      using f 3 by (auto simp: phase_ok_def phase_status_def split: if_splits)
    have t: "t = Some (st, r) \<Longrightarrow> ended_badly st \<and> ended_badly (j_status (ex_job e))" for st r
      using f 3 by (auto simp: phase_ok_def settled_def split: if_splits)
    have "\<exists>job. turns (wa_ptr wa) (Some (e\<lparr>ex_job := job\<rparr>)) s (watcher_settle env wa c t s) \<and>
        j_id job = j_id (ex_job e) \<and> terminal (j_status job) \<and>
        (terminal (j_status (ex_job e)) \<longrightarrow> j_status job = j_status (ex_job e)) \<and>
        (j_status job = JOB_STATUS_SUCCEEDED \<and> j_status (ex_job e) = JOB_STATUS_RUNNING \<longrightarrow> c = 0)"
      by (rule watcher_settle_turns [OF ew st]) (rule t)
    then obtain job where j: "turns p (Some (e\<lparr>ex_job := job\<rparr>)) s (watcher_settle env wa c t s)"
      "j_id job = j_id (ex_job e)" "terminal (j_status job)"
      "terminal (j_status (ex_job e)) \<longrightarrow> j_status job = j_status (ex_job e)" unfolding wa by blast
    have "phase_ok (Settled wa) (e\<lparr>ex_job := job\<rparr>)" "lasting e (e\<lparr>ex_job := job\<rparr>)"
      using f j 3 by (auto simp: phase_ok_def phase_status_def settled_def lasting_def split: if_splits)
    then show ?thesis using 3 j(1) by (auto intro!: good_piece_Some)
  next
    case 4
    then show ?thesis using watcher_release_turns [OF ew, of env] wa by (simp add: good_piece_None)
  qed
qed

lemma piece_good:
  assumes "find_execution p s = Some e" "phase_ok f e"
  shows "good_piece p e f s (piece env os p f s)"
proof (cases "phase_arg f")
  case None
  then have "f \<in> {Registered, Checked, Started} \<or> f \<in> {Launching, Spawning}" by (cases f) auto
  then show ?thesis using spawner_good [OF assms] launcher_good [OF assms] by blast
next
  case (Some wa)
  then show ?thesis using watcher_good [OF assms] by blast
qed

lemma advance_cases:
  assumes ok: "exec_ok (s, ph)" "advance env os p (s, ph) = (s', ph')"
  shows "exec_ok (s', ph')" "ph' = ph(p := ph' p)" "ph p \<noteq> None \<Longrightarrow> phase_rank (ph' p) < phase_rank (ph p)"
    "find_execution q s = Some e \<Longrightarrow>
       (case find_execution q s' of None \<Rightarrow> held (sy_allocs s') (j_id (ex_job e)) = None | Some e' \<Rightarrow> lasting e e')"
proof -
  have *: "exec_ok (s', ph') \<and> ph' = ph(p := ph' p) \<and> (ph p \<noteq> None \<longrightarrow> phase_rank (ph' p) < phase_rank (ph p)) \<and>
    (find_execution q s = Some e \<longrightarrow>
       (case find_execution q s' of None \<Rightarrow> held (sy_allocs s') (j_id (ex_job e)) = None | Some e' \<Rightarrow> lasting e e'))"
  proof (cases "ph p")
    case None
    then show ?thesis using assms by (auto simp: advance_def)
  next
    case (Some f)
    obtain d where d: "find_execution p s = Some d" "phase_ok f d" using exec_okD(5) [OF ok(1) Some] by blast
    obtain s1 f1 where r: "piece env os p f s = (s1, f1)" by force
    have out: "s' = s1" "ph' = ph(p := f1)" using ok(2) Some r by (auto simp: advance_def)
    obtain x where x: "turns p x s s1" "rel_option (\<lambda>e f. phase_ok f e) x f1" "\<forall>e'. x = Some e' \<longrightarrow> lasting d e'"
      "phase_rank f1 < phase_rank (Some f)" using piece_good [OF d, of env os] r by (auto simp: good_piece_def)
    have "exec_ok (s', ph')" using exec_ok_turns [OF ok(1) x(1,2)] out by simp
    moreover have "case find_execution q s' of None \<Rightarrow> held (sy_allocs s') (j_id (ex_job e)) = None | Some e' \<Rightarrow> lasting e e'"
      if "find_execution q s = Some e"
      using that x(1,3) d(1) out exec_okD(1,2) [OF ok(1)] by (cases x) (auto simp: turns_def)
    ultimately show ?thesis using out x(4) Some by simp
  qed
  then show "exec_ok (s', ph')" "ph' = ph(p := ph' p)" "ph p \<noteq> None \<Longrightarrow> phase_rank (ph' p) < phase_rank (ph p)"
    "find_execution q s = Some e \<Longrightarrow>
       (case find_execution q s' of None \<Rightarrow> held (sy_allocs s') (j_id (ex_job e)) = None | Some e' \<Rightarrow> lasting e e')"
    by blast+
qed

text \<open>What every step keeps.\<close>

definition good_step :: "exec_state \<Rightarrow> exec_state \<Rightarrow> bool" where
  "good_step x y \<longleftrightarrow> exec_ok y \<and>
     (\<forall>q e. find_execution q (fst x) = Some e \<longrightarrow>
        (case find_execution q (fst y) of
           None \<Rightarrow> held (sy_allocs (fst y)) (j_id (ex_job e)) = None | Some e' \<Rightarrow> lasting e e')) \<and>
     (\<forall>q. snd x q \<noteq> None \<longrightarrow> phase_rank (snd y q) \<le> phase_rank (snd x q)) \<and>
     (sy_shutting_down (fst x) \<longrightarrow> sy_shutting_down (fst y) \<and> (\<forall>q. snd x q = None \<longrightarrow> snd y q = None))"

lemma good_step_same:
  assumes "exec_ok (s, ph)" "sy_active s' = sy_active s" "alloc_ok s'" "sy_shutting_down s' = sy_shutting_down s"
  shows "good_step (s, ph) (s', ph)"
  using assms exec_ok_same [OF assms(1-3)]
  by (auto simp: good_step_def find_execution_def split: option.split)

lemma good_step_advance:
  assumes "exec_ok x"
  shows "good_step x (advance env os p x)"
proof -
  obtain s ph where x: "x = (s, ph)" by force
  obtain s' ph' where y: "advance env os p (s, ph) = (s', ph')" by force
  note A = advance_cases [OF assms [unfolded x] y]
  have "sy_shutting_down s' = sy_shutting_down s"
  proof (cases "ph p")
    case None
    then show ?thesis using y by (simp add: advance_def)
  next
    case (Some f)
    then obtain e where e: "find_execution p s = Some e" "phase_ok f e"
      using exec_okD(5) assms unfolding x by blast
    then show ?thesis
      using piece_good [OF e, of env os] exec_okD(1,2) [OF assms [unfolded x]] y Some
      by (auto simp: advance_def good_piece_def turns_def split: prod.splits)
  qed
  moreover have "phase_rank (ph' q) \<le> phase_rank (ph q)" if "ph q \<noteq> None" for q
    using A(2,3) that by (cases "q = p") (simp_all add: fun_upd_idem_iff, metis fun_upd_other order_refl)
  moreover have "ph' q = None" if "ph q = None" for q
  proof (cases "q = p")
    case True
    then show ?thesis using that y by (simp add: advance_def)
  next
    case False
    then show ?thesis using that A(2) by (metis fun_upd_other)
  qed
  ultimately show ?thesis using A(1,4) unfolding good_step_def x y fst_conv snd_conv by blast
qed

lemma good_step_register:
  assumes ok: "exec_ok (s, ph)" and job: "j_status job = JOB_STATUS_QUEUED"
    and fresh: "\<And>p. fresh = Some p \<Longrightarrow> find_execution p s = None"
    and run: "spawn_register env fresh job s = (r, s')"
  shows "good_step (s, ph) (s', case r of None \<Rightarrow> ph | Some p \<Rightarrow> ph(p \<mapsto> Registered))"
proof (cases r)
  case None
  obtain r1 job1 s1 where j: "job_set_status_r (xe_print env) job JOB_STATUS_FAILED
      (Some ''Executor unavailable'') s = (r1, job1, s1)" by (metis prod_cases3)
  obtain r2 s2 where a: "alloc_release (j_id job1) s1 = (r2, s2)" by force
  have "s' = s2" using run None j a
    by (auto simp: spawn_register_def active_register_def split: option.splits if_splits prod.splits)
  moreover have "quiet s s1" using job_set_status_r_quiet [OF j] by blast
  ultimately show ?thesis using None alloc_release_frame [OF a] exec_okD(1) [OF ok]
    by (auto simp: quiet_def intro!: good_step_same [OF ok])
next
  case (Some p)
  define e where "e = \<lparr> ex_ptr = p, ex_job = job, ex_termination_requested = False,
     ex_terminal_status = JOB_STATUS_QUEUED, ex_terminal_reason = [], ex_pid = 0 \<rparr>"
  have r: "fresh = Some p" "s' = s\<lparr>sy_active := e # sy_active s\<rparr>" "\<not> sy_shutting_down s"
    using run Some by (auto simp: spawn_register_def active_register_def e_def split: option.splits if_splits prod.splits)
  have f: "find_execution q s' = (if q = p then Some e else find_execution q s)" for q
    by (simp add: r find_execution_def e_def)
  have np: "find_execution p s = None" "ph p = None" using fresh [OF r(1)] exec_okD(3) [OF ok] by auto
  then have "ptrs_ok s'" using exec_okD(2) [OF ok] by (auto simp: ptrs_ok_def r find_execution_def find_None_iff e_def)
  moreover have "alloc_ok s'" using exec_okD(1) [OF ok] by (simp add: r alloc_ok_def)
  moreover have "phase_ok Registered e" using job by (simp add: phase_ok_def phase_status_def e_def)
  ultimately show ?thesis using ok f r(3) np Some
    by (auto simp: good_step_def exec_ok_def split: option.splits)
qed

lemma request_phase_ok:
  assumes "request_termination env st reason e s = (e', s')" "ended_badly st" "phase_ok f e"
  shows "phase_ok f e' \<and> lasting e e'"
proof -
  note q = request_termination_quiet [OF assms(1,2)]
  have "j_status (ex_job e) \<in> {JOB_STATUS_QUEUED, JOB_STATUS_RUNNING} \<Longrightarrow> \<not> terminal (j_status (ex_job e))"
    by (auto simp: terminal_def)
  moreover have "\<not> ex_termination_requested e \<Longrightarrow>
      j_status (ex_job e) \<in> {JOB_STATUS_QUEUED, JOB_STATUS_RUNNING} \<or> settled f \<and> terminal (j_status (ex_job e))"
    using assms(3) by (cases f) (auto simp: phase_ok_def phase_status_def settled_def)
  ultimately show ?thesis using q assms(2,3) ended_badly_terminal [OF assms(2)]
    by (auto simp: phase_ok_def lasting_def split: if_splits)
qed

lemma good_step_request:
  assumes ok: "exec_ok (s, ph)" and st: "ended_badly st"
    and run: "active_request_termination env j st reason s = (r, s')"
  shows "good_step (s, ph) (s', ph)"
  using active_request_termination_turns [OF run st exec_okD(2) [OF ok]]
proof (elim disjE exE conjE)
  assume "s' = s"
  then show ?thesis using good_step_same [OF ok] exec_okD(1) [OF ok] by simp
next
  fix e e' s1
  assume e: "find_execution (ex_ptr e) s = Some e" "turns (ex_ptr e) (Some e') s s'"
    "request_termination env st (case reason of None \<Rightarrow> ''Terminated'' | Some r \<Rightarrow> r) e s = (e', s1)"
  obtain f where f: "ph (ex_ptr e) = Some f" "phase_ok f e" using exec_okD(4) [OF ok e(1)] by blast
  note R = request_phase_ok [OF e(3) st f(2)]
  have "exec_ok (s', ph(ex_ptr e := Some f))" using exec_ok_turns [OF ok e(2), of "Some f"] R by simp
  then have "exec_ok (s', ph)" using f(1) by (simp add: fun_upd_idem)
  then show ?thesis using e(1,2) R exec_okD(1,2) [OF ok] by (auto simp: good_step_def turns_def split: option.splits)
qed

lemma find_list_all2:
  assumes "list_all2 R xs ys" "\<And>x y. R x y \<Longrightarrow> P x = P y"
  shows "rel_option R (find P xs) (find P ys)"
  using assms by (induction rule: list_all2_induct) auto

lemma good_step_shutdown:
  assumes ok: "exec_ok (s, ph)"
  shows "good_step (s, ph) (executor_shutdown env s, ph)"
proof -
  let ?s = "s\<lparr>sy_shutting_down := True\<rparr>"
  let ?R = "\<lambda>e e'. \<exists>t u :: exec_sys. request_termination env JOB_STATUS_CANCELLED ''Orchestrator shutting down'' e t = (e', u)"
  have bad: "ended_badly JOB_STATUS_CANCELLED" by (simp add: ended_badly_def)
  obtain es s1 where sh: "shutdown_all env (sy_active s) ?s = (es, s1)" by force
  note Q = shutdown_all_quiet [OF sh]
  have s': "executor_shutdown env s = s1\<lparr>sy_active := es\<rparr>" by (simp add: executor_shutdown_def sh)
  have all: "list_all2 ?R (sy_active s) es" using Q by blast
  have R: "ex_ptr e' = ex_ptr e" if "?R e e'" for e e' using that request_termination_quiet(2) [OF _ bad] by blast
  have "map ex_ptr es = map ex_ptr (sy_active s)"
    using all R by (induction rule: list_all2_induct) auto
  then have p: "ptrs_ok (executor_shutdown env s)" using exec_okD(2) [OF ok] by (simp add: ptrs_ok_def s')
  have a: "alloc_ok (executor_shutdown env s)" using Q exec_okD(1) [OF ok] by (simp add: quiet_def s' alloc_ok_def)
  have rel: "rel_option ?R (find_execution q s) (find_execution q (executor_shutdown env s))" for q
    unfolding find_execution_def s' using find_list_all2 [OF all, of "\<lambda>e. ex_ptr e = q"] R by auto
  have x: "rel_option (\<lambda>e f. phase_ok f e) (find_execution q (executor_shutdown env s)) (ph q) \<and>
      (find_execution q s = Some e \<longrightarrow> (\<exists>e'. find_execution q (executor_shutdown env s) = Some e' \<and> lasting e e'))" for q e
    using rel [of q] exec_okD(3,4) [OF ok, of q] request_phase_ok [OF _ bad]
    by (cases "find_execution q s"; cases "find_execution q (executor_shutdown env s)") fastforce+
  have l: "case find_execution q (executor_shutdown env s) of
      None \<Rightarrow> held (sy_allocs (executor_shutdown env s)) (j_id (ex_job e)) = None | Some e' \<Rightarrow> lasting e e'"
    if "find_execution q s = Some e" for q e
    using x [of q e] that by auto
  have "sy_shutting_down (executor_shutdown env s)" using Q by (simp add: s' quiet_def)
  moreover have "exec_ok (executor_shutdown env s, ph)" using p a x by (simp add: exec_ok_def)
  ultimately show ?thesis using l unfolding good_step_def fst_conv snd_conv by blast
qed

lemma good_step_other:
  assumes ok: "exec_ok (s, ph)" and st: "alloc_step (alloc_sys.truncate s) a"
  shows "good_step (s, ph) (s\<lparr>sy_reg := sy_reg a, sy_allocs := sy_allocs a,
      sy_alloc_capacity := sy_alloc_capacity a, sy_db := sy_db a, sy_now := sy_now a\<rparr>, ph)"
proof -
  have "alloc_ok (alloc_sys.truncate s)" using exec_okD(1) [OF ok] by (simp add: alloc_ok_def alloc_sys.defs)
  then have "alloc_ok a" using alloc_step_ok [OF st] by blast
  then show ?thesis by (intro good_step_same [OF ok]) (simp_all add: alloc_ok_def)
qed

lemma exec_step_good: "exec_step env x y \<Longrightarrow> exec_ok x \<Longrightarrow> good_step x y"
proof (induction rule: exec_step.induct)
  case (xs_register job fresh s r s' ph)
  then show ?case by (intro good_step_register)
next
  case (xs_advance x os p)
  then show ?case by (rule good_step_advance)
next
  case (xs_request st j reason s r' s' ph)
  then show ?case by (intro good_step_request)
next
  case (xs_shutdown s ph)
  then show ?case by (rule good_step_shutdown)
next
  case (xs_other s a ph)
  then show ?case by (intro good_step_other)
qed

lemma exec_reach_ok: "(exec_step env)\<^sup>*\<^sup>* x y \<Longrightarrow> exec_ok x \<Longrightarrow> exec_ok y"
  by (induction rule: rtranclp_induct) (auto dest: exec_step_good simp: good_step_def)

end
