(* ===== verification/ExecSafety.thy ===== *)
theory ExecSafety
  imports Execution
begin

text \<open>
  What the executor guarantees under every interleaving of its threads with requests from outside:
  the invariant of the reachable states, no leaked reservation, no lost request for termination, the
  end of every execution after a shutdown, and the functions of the code as runs of the step relation.
\<close>

section \<open>Start-up\<close>

definition exec_initial :: "exec_state \<Rightarrow> bool" where
  "exec_initial x \<longleftrightarrow> alloc_initial (fst x) \<and> sy_active (fst x) = [] \<and> snd x = (\<lambda>_. None)"

lemma exec_initial_ok: "exec_initial x \<Longrightarrow> exec_ok x"
  by (simp add: exec_initial_def exec_ok_def alloc_initial_ok ptrs_ok_def find_execution_def)

definition exec_reachable :: "exec_env \<Rightarrow> exec_state \<Rightarrow> bool" where
  "exec_reachable env y \<longleftrightarrow> (\<exists>x. exec_initial x \<and> (exec_step env)\<^sup>*\<^sup>* x y)"

lemma exec_reachable_ok: "exec_reachable env x \<Longrightarrow> exec_ok x"
  unfolding exec_reachable_def using exec_initial_ok exec_reach_ok by blast

lemma exec_reachable_step: "exec_reachable env x \<Longrightarrow> exec_step env x y \<Longrightarrow> exec_reachable env y"
  by (meson exec_reachable_def rtranclp.rtrancl_into_rtrancl)

section \<open>Runs and their work\<close>

text \<open>A run in which threads of live executions take \<open>n\<close> pieces, among any other steps.\<close>

inductive exec_run :: "exec_env \<Rightarrow> nat \<Rightarrow> exec_state \<Rightarrow> exec_state \<Rightarrow> bool" for env where
  run_done: "exec_run env 0 x x"
| run_piece: "snd x p \<noteq> None \<Longrightarrow> exec_run env n (advance env os p x) y \<Longrightarrow> exec_run env (Suc n) x y"
| run_other: "exec_step env x z \<Longrightarrow> exec_run env n z y \<Longrightarrow> exec_run env n x y"

definition work :: "exec_state \<Rightarrow> nat" where
  "work x = (\<Sum>p | snd x p \<noteq> None. phase_rank (snd x p))"

lemma live_addresses:
  assumes "exec_ok x"
  shows "{p. snd x p \<noteq> None} = ex_ptr ` set (sy_active (fst x))"
proof -
  obtain s ph where x: "x = (s, ph)" by force
  note D = exec_okD [OF assms [unfolded x]]
  have "ph p \<noteq> None \<longleftrightarrow> find_execution p s \<noteq> None" for p using D(3) by simp
  moreover have "find_execution p s \<noteq> None \<longleftrightarrow> p \<in> ex_ptr ` set (sy_active s)" for p
    using find_execution_Some [of p s] find_execution_in [OF D(2)] by fastforce
  ultimately show ?thesis by (simp add: x set_eq_iff)
qed

lemma finite_live [simp]: "exec_ok x \<Longrightarrow> finite {p. \<exists>f. snd x p = Some f}"
  using live_addresses [of x] by simp

lemma phase_rank_le: "phase_rank f \<le> 9"
  by (cases f rule: phase_rank.cases) auto

lemma work_le: "exec_ok x \<Longrightarrow> work x \<le> 9 * length (sy_active (fst x))"
proof -
  assume ok: "exec_ok x"
  have "work x \<le> (\<Sum>p | snd x p \<noteq> None. 9)" unfolding work_def by (rule sum_mono) (rule phase_rank_le)
  also have "\<dots> = 9 * card (ex_ptr ` set (sy_active (fst x)))" by (simp only: live_addresses [OF ok]) simp
  also have "\<dots> \<le> 9 * length (sy_active (fst x))"
    using card_image_le [of "set (sy_active (fst x))" ex_ptr] card_length [of "sy_active (fst x)"] by fastforce
  finally show ?thesis .
qed

lemma work_step:
  assumes ok: "exec_ok x" and st: "good_step x y" and down: "sy_shutting_down (fst x)"
  shows "work y \<le> work x"
    and "snd x p \<noteq> None \<Longrightarrow> phase_rank (snd y p) < phase_rank (snd x p) \<Longrightarrow> work y < work x"
proof -
  have sub: "{p. snd y p \<noteq> None} \<subseteq> {p. snd x p \<noteq> None}" using st down by (auto simp: good_step_def)
  have le: "phase_rank (snd y q) \<le> phase_rank (snd x q)" if "snd x q \<noteq> None" for q
    using st that by (simp add: good_step_def)
  have "work y = (\<Sum>p | snd x p \<noteq> None. phase_rank (snd y p))" unfolding work_def
    by (rule sum.mono_neutral_left) (use ok sub in auto)
  moreover have "(\<Sum>p | snd x p \<noteq> None. phase_rank (snd y p)) \<le> work x" unfolding work_def
    by (rule sum_mono) (use le in auto)
  moreover have "(\<Sum>p | snd x p \<noteq> None. phase_rank (snd y p)) < work x"
    if "snd x p \<noteq> None" "phase_rank (snd y p) < phase_rank (snd x p)" unfolding work_def
    by (rule sum_strict_mono_ex1) (use ok le that in auto)
  ultimately show "work y \<le> work x"
    "snd x p \<noteq> None \<Longrightarrow> phase_rank (snd y p) < phase_rank (snd x p) \<Longrightarrow> work y < work x" by auto
qed

lemma exec_run_work:
  "exec_run env n x y \<Longrightarrow> exec_ok x \<Longrightarrow> sy_shutting_down (fst x) \<Longrightarrow>
   exec_ok y \<and> sy_shutting_down (fst y) \<and> n + work y \<le> work x"
proof (induction rule: exec_run.induct)
  case (run_piece x p n os y)
  have st: "good_step x (advance env os p x)" using run_piece.prems good_step_advance by blast
  obtain s ph s' ph' where x: "x = (s, ph)" "advance env os p (s, ph) = (s', ph')" by (metis surj_pair)
  have "phase_rank (ph' p) < phase_rank (ph p)"
    using advance_cases(3) [OF _ x(2)] run_piece.prems run_piece.hyps x by simp
  then have "work (advance env os p x) < work x"
    using work_step(2) [OF run_piece.prems(1) st run_piece.prems(2) run_piece.hyps(1)] x by simp
  then show ?case using run_piece.IH st run_piece.prems(2) by (fastforce simp: good_step_def)
next
  case (run_other x z n y)
  have st: "good_step x z" using run_other.prems run_other.hyps exec_step_good by blast
  then have "work z \<le> work x" using work_step(1) run_other.prems by blast
  then show ?case using run_other.IH st run_other.prems(2) by (fastforce simp: good_step_def)
qed simp

text \<open>Left alone, the threads bring every execution to its end.\<close>

lemma exec_run_drains:
  assumes "exec_ok x" "sy_shutting_down (fst x)"
  shows "\<exists>n y. exec_run env n x y \<and> sy_active (fst y) = []"
  using assms
proof (induction "work x" arbitrary: x rule: less_induct)
  case less
  show ?case
  proof (cases "sy_active (fst x) = []")
    case True
    then show ?thesis using run_done by blast
  next
    case False
    then obtain p where p: "snd x p \<noteq> None" using live_addresses [OF less.prems(1)]
      by (metis (mono_tags, lifting) empty_Collect_eq image_is_empty set_empty)
    let ?z = "advance env undefined p x"
    have run: "exec_run env 1 x ?z" using run_piece [OF p run_done] by simp
    have "exec_ok ?z \<and> sy_shutting_down (fst ?z) \<and> work ?z < work x"
      using exec_run_work [OF run less.prems] by simp
    then obtain n y where "exec_run env n ?z y" "sy_active (fst y) = []" using less.hyps by blast
    then show ?thesis using run_piece [OF p] by blast
  qed
qed

section \<open>The functions of the code as runs\<close>

lemma advance_at: "ph p = Some f \<Longrightarrow> piece env os p f s = (s', f') \<Longrightarrow> advance env os p (s, ph) = (s', ph(p := f'))"
  by (simp add: advance_def)

lemma exec_step_piece:
  "ph p = Some f \<Longrightarrow> piece env os p f s = (s', f') \<Longrightarrow> exec_step env (s, ph) (s', ph(p := f'))"
  using xs_advance [of env "(s, ph)" os p] by (simp add: advance_at)

lemma executor_spawn_run:
  assumes run: "executor_spawn env os fresh job s = ((r, w), s')" and q: "j_status job = JOB_STATUS_QUEUED"
    and fresh: "\<And>p. fresh = Some p \<Longrightarrow> find_execution p s = None \<and> ph p = None"
  shows "(exec_step env)\<^sup>*\<^sup>* (s, ph) (s', case w of None \<Rightarrow> ph | Some p \<Rightarrow> ph(p \<mapsto> Launching))"
proof -
  obtain o1 s1 where 1: "spawn_register env fresh job s = (o1, s1)" by force
  have st: "exec_step env (s, ph) (s1, case o1 of None \<Rightarrow> ph | Some p \<Rightarrow> ph(p \<mapsto> Registered))"
    by (rule xs_register [OF q _ 1]) (use fresh in blast)
  show ?thesis
  proof (cases o1)
    case None
    then show ?thesis using st run 1 by (auto simp: executor_spawn_def)
  next
    case (Some p)
    have "fresh = Some p" using 1 Some
      by (auto simp: spawn_register_def active_register_def split: option.splits if_splits prod.splits)
    then have ph: "ph(p := None) = ph" using fresh by (simp add: fun_upd_idem)
    obtain b2 s2 where 2: "spawn_check p s1 = (b2, s2)" by force
    obtain b3 s3 where 3: "spawn_running env p s2 = (b3, s3)" by force
    obtain b4 s4 where 4: "spawn_started env os p s3 = (b4, s4)" by force
    let ?f = "\<lambda>b f. if b then Some f else None"
    have a: "(exec_step env)\<^sup>*\<^sup>* (s, ph) (s1, ph(p \<mapsto> Registered))" using st Some by simp
    have b: "exec_step env (s1, ph(p \<mapsto> Registered)) (s2, ph(p := ?f b2 Checked))"
      using exec_step_piece [of "ph(p \<mapsto> Registered)" p Registered env os s1 s2] 2 by (simp add: goes_on_def)
    have c: "exec_step env (s2, ph(p \<mapsto> Checked)) (s3, ph(p := ?f b3 Started))"
      using exec_step_piece [of "ph(p \<mapsto> Checked)" p Checked env os s2 s3] 3 by (simp add: goes_on_def)
    have d: "exec_step env (s3, ph(p \<mapsto> Started)) (s4, ph(p := ?f b4 Launching))"
      using exec_step_piece [of "ph(p \<mapsto> Started)" p Started env os s3 s4] 4 by (simp add: goes_on_def)
    consider "\<not> b2" "s' = s2" "w = None" | b2 "\<not> b3" "s' = s3" "w = None"
      | b2 b3 "\<not> b4" "s' = s4" "w = None" | b2 b3 b4 "s' = s4" "w = Some p"
      using run 1 2 3 4 Some by (auto simp: executor_spawn_def split: bool.splits)
    then show ?thesis
      by cases (use a b c d ph in \<open>auto intro: rtranclp.rtrancl_into_rtrancl\<close>)
  qed
qed

lemma launcher_thread_run:
  assumes run: "launcher_thread env os p s = (w, s')" and ph: "ph p = Some Launching"
  shows "(exec_step env)\<^sup>*\<^sup>* (s, ph) (s', ph(p := map_option Watching w))"
proof -
  obtain b1 s1 where 1: "launcher_check env p s = (b1, s1)" by force
  have a: "exec_step env (s, ph) (s1, ph(p := if b1 then Some Spawning else None))"
    using exec_step_piece [of ph p Launching env os s s1] ph 1 by (simp add: goes_on_def)
  obtain w2 s2 where 2: "launcher_spawn env os p s1 = (w2, s2)" by force
  have b: "exec_step env (s1, ph(p \<mapsto> Spawning)) (s2, ph(p := map_option Watching w2))"
    using exec_step_piece [of "ph(p \<mapsto> Spawning)" p Spawning env os s1 s2] 2 by simp
  show ?thesis using run 1 2 a b
    by (cases b1) (auto simp: launcher_thread_def intro: rtranclp.rtrancl_into_rtrancl)
qed

lemma watcher_thread_run:
  assumes ph: "ph (wa_ptr wa) = Some (Watching wa)"
  shows "(exec_step env)\<^sup>*\<^sup>* (s, ph) (watcher_thread env os wa s, ph(wa_ptr wa := None))"
proof -
  let ?p = "wa_ptr wa"
  define c where "c = wait_exit_code (os_wait os)"
  define s1 where "s1 = watcher_reap env os wa s"
  define t where "t = active_terminal_snapshot ?p 280 s1"
  define s2 where "s2 = watcher_settle env wa c t s1"
  have w: "watcher_thread env os wa s = watcher_release env wa s2"
    by (simp add: watcher_thread_def s2_def s1_def t_def c_def Let_def)
  have a: "exec_step env (s, ph) (s1, ph(?p \<mapsto> Reaped wa c))"
    using exec_step_piece [of ph ?p "Watching wa" env os s s1] ph by (simp add: s1_def c_def)
  have b: "exec_step env (s1, ph(?p \<mapsto> Reaped wa c)) (s1, ph(?p \<mapsto> Snapped wa c t))"
    using exec_step_piece [of "ph(?p \<mapsto> Reaped wa c)" ?p "Reaped wa c" env os s1 s1] by (simp add: t_def)
  have d: "exec_step env (s1, ph(?p \<mapsto> Snapped wa c t)) (s2, ph(?p \<mapsto> Settled wa))"
    using exec_step_piece [of "ph(?p \<mapsto> Snapped wa c t)" ?p "Snapped wa c t" env os s1 s2] by (simp add: s2_def)
  have e: "exec_step env (s2, ph(?p \<mapsto> Settled wa)) (watcher_release env wa s2, ph(?p := None))"
    using exec_step_piece [of "ph(?p \<mapsto> Settled wa)" ?p "Settled wa" env os s2] by simp
  show ?thesis unfolding w using a b d e by (meson converse_rtranclp_into_rtranclp rtranclp.rtrancl_refl)
qed

section \<open>A small system\<close>

definition demo_env :: exec_env where
  "demo_env = \<lparr> xe_print = (\<lambda>_. None), xe_config = config_defaults, xe_popen = (\<lambda>_. None),
     xe_fs = \<lparr> fs_stat = (\<lambda>_. None), fs_readdir = (\<lambda>_. None) \<rparr> \<rparr>"

definition demo_os :: os_answers where
  "demo_os = \<lparr> os_malloc_ok = True, os_launcher_ok = True, os_wordexp_ok = True, os_pid = 77, os_calloc_ok = True,
     os_watcher_ok = True, os_fopen_ok = True, os_env_file = None, os_system = (\<lambda>_. 0), os_wait = Exited 0 \<rparr>"

definition demo_job :: job where
  "demo_job = job_zero\<lparr>j_id := ''a''\<rparr>"

definition demo_exec :: exec_sys where
  "demo_exec = life_sys.extend demo_life
     \<lparr> sy_active = [], sy_shutting_down = False, sy_kills = [], sy_commands = [] \<rparr>"

lemma demo_exec_initial: "exec_initial (demo_exec, \<lambda>_. None)"
  using demo_registry_ok
  by (simp add: exec_initial_def alloc_initial_def demo_exec_def demo_life_def life_sys.defs demo_registry_def
      demo_machine_def machine_zero_def reserved_def zero_res_def)

text \<open>The small system with the job \<open>a\<close> registered.\<close>

definition demo_registered :: exec_state where
  "demo_registered = (snd (spawn_register demo_env (Some 1) demo_job demo_exec), (\<lambda>_. None)(1 \<mapsto> Registered))"

lemma demo_registered_active:
  "sy_active (fst demo_registered) = [\<lparr> ex_ptr = 1, ex_job = demo_job, ex_termination_requested = False,
     ex_terminal_status = JOB_STATUS_QUEUED, ex_terminal_reason = [], ex_pid = 0 \<rparr>]"
  "snd demo_registered 1 = Some Registered"
  by (simp_all add: demo_registered_def spawn_register_def active_register_def demo_exec_def life_sys.defs)

lemma demo_registered_reachable: "exec_reachable demo_env demo_registered"
proof -
  have "spawn_register demo_env (Some 1) demo_job demo_exec = (Some 1, fst demo_registered)"
    by (simp add: demo_registered_def spawn_register_def active_register_def demo_exec_def life_sys.defs)
  then have "exec_step demo_env (demo_exec, \<lambda>_. None) (fst demo_registered, (\<lambda>_. None)(1 \<mapsto> Registered))"
    using xs_register [of demo_job "Some 1" demo_exec demo_env "Some 1" "fst demo_registered" "\<lambda>_. None"]
    by (simp add: demo_job_def job_zero_def find_execution_def demo_exec_def life_sys.defs)
  then show ?thesis using demo_exec_initial unfolding exec_reachable_def demo_registered_def by fastforce
qed

section \<open>What starting a job does to its row\<close>

lemma spawn_check_row:
  assumes "find_execution p s = Some e" "spawn_check p s = (True, s')"
  shows "db_status (sy_db s') (j_id (ex_job e)) = Some JOB_STATUS_QUEUED \<and> sy_now s' = sy_now s"
proof -
  obtain c d where c: "db_get_job (j_id (ex_job e)) (sy_db s) = (c, d)" by force
  then obtain job where job: "c = Some job" "j_status job = JOB_STATUS_QUEUED" "s' = s\<lparr>sy_db := d\<rparr>"
    using assms by (auto simp: spawn_check_def Let_def split: option.splits if_splits)
  have "Some job = map_option (row_to_job True) (job_row_of (db_tables d) (j_id (ex_job e)))"
    using sql_read_cases [OF c [unfolded db_get_job_def]] job(1) by (simp add: job_row_of_def)
  then obtain row where "job_row_of (db_tables d) (j_id (ex_job e)) = Some row" "job = row_to_job True row"
    by (cases "job_row_of (db_tables d) (j_id (ex_job e))") auto
  then show ?thesis using job by (simp add: db_status_def lookup_status_row row_to_job_def)
qed

lemma spawn_running_row:
  assumes "find_execution p s = Some e" "spawn_running env p s = (True, s')" "db_status (sy_db s) (j_id (ex_job e)) \<noteq> None"
  shows "db_status (sy_db s') (j_id (ex_job e)) \<noteq> None \<and> sy_now s' = sy_now s"
proof -
  let ?job = "(ex_job e)\<lparr>j_input_dir := store_input_dir (cf_work_dir (xe_config env)) (j_id (ex_job e)) 512,
                        j_output_dir := store_output_dir (cf_work_dir (xe_config env)) (j_id (ex_job e)) 512\<rparr>"
  obtain r job s1 where j: "job_set_status_r (xe_print env) ?job JOB_STATUS_RUNNING (Some []) s = (r, job, s1)"
    by (metis prod_cases3)
  have r: "r = 0" "s' = put_execution p (\<lambda>e. e\<lparr>ex_job := job\<rparr>) s1"
    using assms(1,2) j by (auto simp: spawn_running_def job_set_status_def Let_def split: if_splits)
  have "transition_allowed (j_status ?job) JOB_STATUS_RUNNING"
    using j r job_set_status_r_refused [of ?job JOB_STATUS_RUNNING "xe_print env" "Some []" s] by auto
  from job_set_status_r_allowed [OF this j] show ?thesis using assms(3) r by (auto simp: put_execution_def)
qed

lemma spawn_started_row:
  assumes "find_execution p s = Some e" "spawn_started env os p s = (True, s')" "db_status (sy_db s) (j_id (ex_job e)) \<noteq> None"
  shows "db_status (sy_db s') (j_id (ex_job e)) = Some JOB_STATUS_RUNNING"
proof -
  obtain r d where d: "db_update_job_started (j_id (ex_job e)) (j_machine_id (ex_job e)) (sy_now s) (sy_db s) = (r, d)"
    by force
  then have "r = 0" "sy_db s' = d" using assms(1,2) by (auto simp: spawn_started_def Let_def split: if_splits)
  then show ?thesis
    using d assms(3) update_job_status_of [OF d [unfolded db_update_job_started_def], of "\<lambda>_. JOB_STATUS_RUNNING"] by auto
qed

text \<open>The list is as before and the job holds nothing.\<close>

definition given_up :: "string \<Rightarrow> 'a exec_sys_scheme \<Rightarrow> 'a exec_sys_scheme \<Rightarrow> bool" where
  "given_up job_id s s' \<longleftrightarrow> alloc_ok s' \<and> ptrs_ok s' \<and> (\<forall>q. find_execution q s' = find_execution q s) \<and>
     held (sy_allocs s') job_id = None"

lemma turns_given_up:
  assumes "turns p None s1 s'" "find_execution p s1 = Some e" "alloc_ok s1" "ptrs_ok s1" "find_execution p s = None"
    "\<And>q. q \<noteq> p \<Longrightarrow> find_execution q s1 = find_execution q s"
  shows "given_up (j_id (ex_job e)) s s'"
  using assms by (auto simp: given_up_def turns_def)

lemma turnsD:
  assumes "turns p (Some e') s s'" "alloc_ok s" "ptrs_ok s"
  shows "alloc_ok s'" "ptrs_ok s'" "find_execution p s' = Some e'" "q \<noteq> p \<Longrightarrow> find_execution q s' = find_execution q s"
  using assms by (auto simp: turns_def)

text \<open>From the registered execution to the launcher.\<close>

lemma spawn_registered_outcome:
  assumes e: "find_execution p s1 = Some e" and s1: "alloc_ok s1" "ptrs_ok s1" "find_execution p s = None"
      "\<And>q. q \<noteq> p \<Longrightarrow> find_execution q s1 = find_execution q s"
    and 2: "spawn_check p s1 = (b2, s2)" and 3: "spawn_running env p s2 = (b3, s3)"
    and 4: "spawn_started env os p s3 = (b4, s4)"
  shows "\<not> b2 \<Longrightarrow> given_up (j_id (ex_job e)) s s2" "b2 \<Longrightarrow> \<not> b3 \<Longrightarrow> given_up (j_id (ex_job e)) s s3"
    "b2 \<Longrightarrow> b3 \<Longrightarrow> \<not> b4 \<Longrightarrow> given_up (j_id (ex_job e)) s s4"
    "b2 \<Longrightarrow> b3 \<Longrightarrow> b4 \<Longrightarrow> alloc_ok s4 \<and> ptrs_ok s4 \<and> (\<forall>q. q \<noteq> p \<longrightarrow> find_execution q s4 = find_execution q s) \<and>
       db_status (sy_db s4) (j_id (ex_job e)) = Some JOB_STATUS_RUNNING \<and>
       (\<exists>e'. find_execution p s4 = Some e' \<and> j_id (ex_job e') = j_id (ex_job e) \<and>
          j_status (ex_job e') = JOB_STATUS_RUNNING \<and> j_started_at (ex_job e') = sy_now s1)"
proof -
  note t2 = spawn_check_turns [OF e 2]
  show "\<not> b2 \<Longrightarrow> given_up (j_id (ex_job e)) s s2" using turns_given_up [OF _ e s1] t2 by simp
  assume b2
  then have e2: "find_execution p s2 = Some e" "alloc_ok s2" "ptrs_ok s2"
      "\<And>q. q \<noteq> p \<Longrightarrow> find_execution q s2 = find_execution q s"
    and row2: "db_status (sy_db s2) (j_id (ex_job e)) \<noteq> None" "sy_now s2 = sy_now s1"
    using t2 turnsD [OF _ s1(1,2), of p e s2] s1(4) spawn_check_row [OF e, of s2] 2 by auto
  note t3 = spawn_running_turns [OF e2(1) 3]
  show "\<not> b3 \<Longrightarrow> given_up (j_id (ex_job e)) s s3" using turns_given_up [OF _ e2(1-3) s1(3) e2(4)] t3 by simp
  assume b3
  then obtain job where job: "turns p (Some (e\<lparr>ex_job := job\<rparr>)) s2 s3" "j_status job = JOB_STATUS_RUNNING"
    "j_id job = j_id (ex_job e)" using t3 by auto
  have e3: "find_execution p s3 = Some (e\<lparr>ex_job := job\<rparr>)" "alloc_ok s3" "ptrs_ok s3"
      "\<And>q. q \<noteq> p \<Longrightarrow> find_execution q s3 = find_execution q s"
    using turnsD [OF job(1) e2(2,3)] e2(4) by auto
  have row3: "db_status (sy_db s3) (j_id job) \<noteq> None" "sy_now s3 = sy_now s1"
    using spawn_running_row [OF e2(1) 3 [unfolded eqTrueI [OF \<open>b3\<close>]] row2(1)] row2(2) job(3) by auto
  note t4 = spawn_started_turns [OF e3(1) 4]
  show "\<not> b4 \<Longrightarrow> given_up (j_id (ex_job e)) s s4"
    using turns_given_up [OF _ e3(1-3) s1(3) e3(4)] t4 job(3) by simp
  assume b4
  then have t: "turns p (Some (e\<lparr>ex_job := job\<lparr>j_started_at := sy_now s1\<rparr>\<rparr>)) s3 s4" using t4 row3(2) by simp
  have "db_status (sy_db s4) (j_id (ex_job e)) = Some JOB_STATUS_RUNNING"
    using spawn_started_row [OF e3(1) 4 [unfolded eqTrueI [OF \<open>b4\<close>]]] row3(1) job(3) by simp
  then show "alloc_ok s4 \<and> ptrs_ok s4 \<and> (\<forall>q. q \<noteq> p \<longrightarrow> find_execution q s4 = find_execution q s) \<and>
       db_status (sy_db s4) (j_id (ex_job e)) = Some JOB_STATUS_RUNNING \<and>
       (\<exists>e'. find_execution p s4 = Some e' \<and> j_id (ex_job e') = j_id (ex_job e) \<and>
          j_status (ex_job e') = JOB_STATUS_RUNNING \<and> j_started_at (ex_job e') = sy_now s1)"
    using turnsD [OF t e3(2,3)] e3(4) job(2,3) by simp
qed

lemma executor_spawn_outcome:
  assumes ok: "alloc_ok s" "ptrs_ok s" and fresh: "find_execution p s = None"
    and run: "executor_spawn env os (Some p) job s = ((r, w), s')"
  shows "alloc_ok s' \<and> ptrs_ok s' \<and> (r = 0 \<or> r = -1) \<and> (\<forall>q. q \<noteq> p \<longrightarrow> find_execution q s' = find_execution q s) \<and>
    (if r = 0 then w = Some p \<and> db_status (sy_db s') (j_id job) = Some JOB_STATUS_RUNNING \<and>
       (\<exists>e. find_execution p s' = Some e \<and> j_id (ex_job e) = j_id job \<and> j_status (ex_job e) = JOB_STATUS_RUNNING \<and>
          j_started_at (ex_job e) = sy_now s)
     else w = None \<and> find_execution p s' = None \<and> held (sy_allocs s') (j_id job) = None)"
proof (cases "sy_shutting_down s")
  case True
  obtain r1 job1 s1 where j: "job_set_status_r (xe_print env) job JOB_STATUS_FAILED
      (Some ''Executor unavailable'') s = (r1, job1, s1)" by (metis prod_cases3)
  obtain r2 s2 where a: "alloc_release (j_id job) s1 = (r2, s2)" by force
  note q = job_set_status_r_quiet [OF j]
  have "r = -1" "w = None" "s' = s2" using run True j a q
    by (auto simp: executor_spawn_def spawn_register_def active_register_def)
  moreover have "alloc_ok s2" "held (sy_allocs s2) (j_id job) = None"
    using alloc_release_frame(3) [OF a] q ok by (auto simp: quiet_def)
  moreover have "sy_active s2 = sy_active s" using alloc_release_frame [OF a] q by (simp add: quiet_def)
  ultimately show ?thesis using fresh ok(2) by (simp add: find_execution_def ptrs_ok_def)
next
  case False
  define e where "e = \<lparr> ex_ptr = p, ex_job = job, ex_termination_requested = False,
     ex_terminal_status = JOB_STATUS_QUEUED, ex_terminal_reason = [], ex_pid = 0 \<rparr>"
  define s1 where "s1 = s\<lparr>sy_active := e # sy_active s\<rparr>"
  obtain b2 s2 where 2: "spawn_check p s1 = (b2, s2)" by force
  obtain b3 s3 where 3: "spawn_running env p s2 = (b3, s3)" by force
  obtain b4 s4 where 4: "spawn_started env os p s3 = (b4, s4)" by force
  have f: "find_execution q s1 = (if q = p then Some e else find_execution q s)" for q
    by (simp add: s1_def find_execution_def e_def)
  have s1: "alloc_ok s1" "ptrs_ok s1"
    using ok fresh by (auto simp: s1_def alloc_ok_def ptrs_ok_def find_execution_def find_None_iff e_def)
  have out: "((r, w), s') = (if \<not> b2 then ((-1, None), s2) else if \<not> b3 then ((-1, None), s3)
      else if \<not> b4 then ((-1, None), s4) else ((0, Some p), s4))"
    using run False 2 3 4
    by (auto simp: executor_spawn_def spawn_register_def active_register_def s1_def e_def split: bool.splits)
  have "find_execution p s1 = Some e" "\<And>q. q \<noteq> p \<Longrightarrow> find_execution q s1 = find_execution q s" using f by auto
  from spawn_registered_outcome [OF this(1) s1 fresh this(2) 2 3 4] show ?thesis
    using out fresh by (auto simp: given_up_def e_def s1_def split: if_splits)
qed

text \<open>A successful start leaves the allocations alone.\<close>

lemma executor_spawn_allocs:
  assumes run: "executor_spawn env os fresh job s = ((0, w), s')"
  shows "sy_allocs s' = sy_allocs s"
proof -
  obtain p s1 where 1: "spawn_register env fresh job s = (Some p, s1)" "sy_allocs s1 = sy_allocs s"
    using run by (auto simp: executor_spawn_def spawn_register_def active_register_def Let_def
        split: option.splits prod.splits if_splits)
  obtain s2 where 2: "spawn_check p s1 = (True, s2)"
    using run 1 by (auto simp: executor_spawn_def split: prod.splits bool.splits)
  obtain s3 where 3: "spawn_running env p s2 = (True, s3)"
    using run 1 2 by (auto simp: executor_spawn_def split: prod.splits bool.splits)
  have 4: "spawn_started env os p s3 = (True, s')"
    using run 1 2 3 by (auto simp: executor_spawn_def split: prod.splits bool.splits)
  have "sy_allocs s2 = sy_allocs s1"
    using 2 by (auto simp: spawn_check_def Let_def split: option.splits prod.splits if_splits)
  moreover have "sy_allocs s3 = sy_allocs s2"
    using 3 job_set_status_r_quiet
    by (fastforce simp: spawn_running_def job_set_status_def put_execution_def quiet_def Let_def
        split: option.splits prod.splits if_splits)
  moreover have "sy_allocs s' = sy_allocs s3"
    using 4 by (auto simp: spawn_started_def put_execution_def Let_def split: option.splits prod.splits if_splits)
  ultimately show ?thesis using 1 by simp
qed

section \<open>What a request does\<close>

lemma request_termination_kills:
  assumes "request_termination env st reason e s = (e', s')"
  shows "sy_kills s' = sy_kills s" "ex_pid e' = ex_pid e"
  using assms by (auto simp: request_termination_def job_set_status_r_def Let_def split: if_splits prod.splits)

lemma kill_group_hard: "(- pid, SIGKILL) \<in> set (kill_group pid)"
  by (simp add: kill_group_def kill_hard_def)

lemma request_cancel_effect:
  assumes first: "find (\<lambda>e. strcmp (j_id (ex_job e)) job_id = 0) (sy_active s) = Some e"
    and f: "find_execution (ex_ptr e) s = Some e" and ok: "phase_ok ph e"
    and run: "active_request_termination env job_id JOB_STATUS_CANCELLED (Some reason) s = (r, s')"
  shows "r = 0 \<and> (\<exists>e'. find_execution (ex_ptr e) s' = Some e' \<and> ex_termination_requested e' \<and>
    terminal (j_status (ex_job e')) \<and>
    (\<not> terminal (j_status (ex_job e)) \<longrightarrow> j_status (ex_job e') = JOB_STATUS_CANCELLED) \<and>
    sy_kills s' = sy_kills s @ (if ex_pid e > 0 then kill_group (ex_pid e) else []) \<and>
    (\<forall>pid. (- pid, SIGKILL) \<in> set (sy_kills (active_set_process (ex_ptr e) pid s'))))"
proof -
  have bad: "ended_badly JOB_STATUS_CANCELLED" by (simp add: ended_badly_def)
  obtain e' s1 where q: "request_termination env JOB_STATUS_CANCELLED reason e s = (e', s1)" by force
  note Q = request_termination_quiet [OF q bad] and K = request_termination_kills [OF q]
  let ?t = "put_execution (ex_ptr e) (\<lambda>_. e') s1"
  have r: "r = 0" "s' = (if ex_pid e > 0 then send_kills (kill_group (ex_pid e)) ?t else ?t)"
    using run first q K(2) by (auto simp: active_request_termination_def Let_def split: if_splits)
  have "find_execution (ex_ptr e) s1 = Some e" using f Q(1) by (simp add: quiet_def find_execution_def)
  then have "find_execution (ex_ptr e) ?t = Some e'" using Q(2) by (simp add: find_execution_put)
  then have e': "find_execution (ex_ptr e) s' = Some e'" by (simp add: r send_kills_def find_execution_def)
  have ok': "phase_ok ph e'" using request_phase_ok [OF q bad ok] by blast
  have "sy_kills s' = sy_kills s @ (if ex_pid e > 0 then kill_group (ex_pid e) else [])"
    by (simp add: r send_kills_def put_execution_def K)
  moreover have "terminal (j_status (ex_job e'))" using ok' Q(4) by (simp add: phase_ok_def)
  moreover have "j_status (ex_job e') = JOB_STATUS_CANCELLED" if "\<not> terminal (j_status (ex_job e))"
  proof -
    have "\<not> ex_termination_requested e" "phase_status ph (j_status (ex_job e))"
      using ok that by (auto simp: phase_ok_def split: if_splits)
    then show ?thesis using Q(5) that by (cases ph) (auto simp: phase_status_def)
  qed
  moreover have "(- pid, SIGKILL) \<in> set (sy_kills (active_set_process (ex_ptr e) pid s'))" for pid
    using e' Q(4) kill_group_hard by (simp add: active_set_process_def send_kills_def Let_def)
  ultimately show ?thesis using r(1) e' Q(4) by auto
qed

section \<open>Claims\<close>



text \<open>
  No step loses anything. In one step from a reachable state, an execution either leaves the
  list, and then its job holds no reservation any more; or it stays with the same job, a request for
  its termination stays, and a job that has ended keeps the state it ended in.
\<close>

theorem executor_step_safe:
  assumes "exec_reachable env x" "exec_step env x y" "find_execution p (fst x) = Some e"
  shows "case find_execution p (fst y) of
      None \<Rightarrow> held (sy_allocs (fst y)) (j_id (ex_job e)) = None
    | Some e' \<Rightarrow> j_id (ex_job e') = j_id (ex_job e) \<and> (ex_termination_requested e \<longrightarrow> ex_termination_requested e') \<and>
        (terminal (j_status (ex_job e)) \<longrightarrow> j_status (ex_job e') = j_status (ex_job e))"
proof -
  have "case find_execution p (fst y) of None \<Rightarrow> held (sy_allocs (fst y)) (j_id (ex_job e)) = None
      | Some e' \<Rightarrow> lasting e e'"
    using exec_step_good [OF assms(2) exec_reachable_ok [OF assms(1)]] assms(3) unfolding good_step_def by blast
  then show ?thesis by (cases "find_execution p (fst y)") (simp_all add: lasting_def)
qed

theorem executor_step_safe_witness:
  "exec_step demo_env demo_registered (executor_shutdown demo_env (fst demo_registered), snd demo_registered) \<and>
   (\<exists>e e'. find_execution 1 (fst demo_registered) = Some e \<and>
      find_execution 1 (executor_shutdown demo_env (fst demo_registered)) = Some e' \<and>
      j_id (ex_job e') = j_id (ex_job e) \<and> ex_termination_requested e')"
proof -
  let ?y = "(executor_shutdown demo_env (fst demo_registered), snd demo_registered)"
  have st: "exec_step demo_env demo_registered ?y"
    using xs_shutdown [of demo_env "fst demo_registered" "snd demo_registered"] by simp
  obtain e where e: "find_execution 1 (fst demo_registered) = Some e"
    by (simp add: find_execution_def demo_registered_active)
  have "map_option ex_termination_requested (find_execution 1 (fst ?y)) = Some True" by code_simp
  then obtain e' where "find_execution 1 (fst ?y) = Some e'" "ex_termination_requested e'" by auto
  then show ?thesis using executor_step_safe [OF demo_registered_reachable st e] st e by auto
qed





text \<open>
  \<open>executor_spawn\<close> starts a job or gives it up, never half. On success the job is in the list
  under the new address, RUNNING in memory and in the database with the start time recorded, and no
  other execution is touched. On every failure (no memory, a shutdown, a cancellation in between, a
  statement or thread that fails) the list is as before and the job holds no reservation. The books
  balance either way.
\<close>

theorem executor_spawn_correct:
  fixes s :: exec_sys
  assumes "alloc_ok s" "ptrs_ok s" "find_execution p s = None"
    "executor_spawn env os (Some p) job s = ((r, w), s')"
  shows "alloc_ok s' \<and> ptrs_ok s' \<and> (r = 0 \<or> r = -1) \<and> (\<forall>q. q \<noteq> p \<longrightarrow> find_execution q s' = find_execution q s) \<and>
    (if r = 0 then w = Some p \<and> db_status (sy_db s') (j_id job) = Some JOB_STATUS_RUNNING \<and>
       (\<exists>e. find_execution p s' = Some e \<and> j_id (ex_job e) = j_id job \<and> j_status (ex_job e) = JOB_STATUS_RUNNING \<and>
          j_started_at (ex_job e) = sy_now s)
     else w = None \<and> find_execution p s' = None \<and> held (sy_allocs s') (j_id job) = None)"
  using assms by (rule executor_spawn_outcome)

theorem executor_spawn_correct_witness:
  "\<exists>s'. executor_spawn demo_env demo_os (Some 1) demo_job demo_exec = ((0, Some 1), s') \<and>
     db_status (sy_db s') ''a'' = Some JOB_STATUS_RUNNING \<and> find_execution 1 s' \<noteq> None"
proof -
  obtain rw s1 where s1: "executor_spawn demo_env demo_os (Some 1) demo_job demo_exec = (rw, s1)"
    by (metis surj_pair)
  have "fst (executor_spawn demo_env demo_os (Some 1) demo_job demo_exec) = (0, Some 1)" by code_simp
  then have rw: "rw = (0, Some 1)" using s1 by simp
  have "find_execution 1 demo_exec = None" "j_id demo_job = ''a''" by code_simp+
  then show ?thesis
    using executor_spawn_correct [OF _ _ _ s1 [unfolded rw]] exec_okD(1,2) [OF exec_initial_ok [OF demo_exec_initial]] s1 rw
    by auto
qed

text \<open>
  \<open>executor_cancel\<close> finds exactly the active jobs. For such a job the request is recorded, the job
  is CANCELLED if it was queued or running (unless a request came before), and the process group, if
  there is a process, is sent SIGTERM and SIGKILL. Otherwise the result is -1 and nothing changes.
  A process that is started only after the request is killed when it is recorded.
\<close>

theorem executor_cancel_correct:
  assumes "exec_reachable env (s, ph)" "executor_cancel env job_id reason s = (r, s')"
  shows "if executor_is_active job_id s
    then r = 0 \<and> (\<exists>p e e'. find_execution p s = Some e \<and> j_id (ex_job e) = job_id \<and> find_execution p s' = Some e' \<and>
        ex_termination_requested e' \<and> terminal (j_status (ex_job e')) \<and>
        (\<not> terminal (j_status (ex_job e)) \<longrightarrow> j_status (ex_job e') = JOB_STATUS_CANCELLED) \<and>
        sy_kills s' = sy_kills s @ (if ex_pid e > 0 then kill_group (ex_pid e) else []) \<and>
        (\<forall>pid. (- pid, SIGKILL) \<in> set (sy_kills (active_set_process p pid s'))))
    else r = -1 \<and> s' = s"
proof (cases "find (\<lambda>e. strcmp (j_id (ex_job e)) job_id = 0) (sy_active s)")
  case None
  then have "\<not> executor_is_active job_id s" by (auto simp: executor_is_active_def find_None_iff)
  then show ?thesis using assms(2) None by (simp add: executor_cancel_def active_request_termination_def)
next
  case (Some e)
  have e: "e \<in> set (sy_active s)" "j_id (ex_job e) = job_id" using Some by (auto simp: find_Some_iff)
  note ok = exec_reachable_ok [OF assms(1)]
  have f: "find_execution (ex_ptr e) s = Some e" using find_execution_in [OF exec_okD(2) [OF ok] e(1)] .
  obtain ph where "phase_ok ph e" using exec_okD(4) [OF ok f] by blast
  obtain r' s'' where t: "active_request_termination env job_id JOB_STATUS_CANCELLED
      (Some (case reason of None \<Rightarrow> ''Cancelled'' | Some r \<Rightarrow> r)) s = (r', s'')" by force
  have act: "executor_is_active job_id s" using e by (auto simp: executor_is_active_def)
  have "r = r'" "s' = s''" using assms(2) t by (simp_all add: executor_cancel_def)
  then show ?thesis unfolding if_P [OF act]
    using request_cancel_effect [OF Some f \<open>phase_ok ph e\<close> t] e(2) f by blast
qed

theorem executor_cancel_correct_witness:
  "\<exists>s'. executor_cancel demo_env ''a'' None (fst demo_registered) = (0, s') \<and>
     (\<exists>e'. find_execution 1 s' = Some e' \<and> j_status (ex_job e') = JOB_STATUS_CANCELLED)"
proof -
  obtain r s' where c: "executor_cancel demo_env ''a'' None (fst demo_registered) = (r, s')" by force
  have a: "executor_is_active ''a'' (fst demo_registered)"
    by (simp add: executor_is_active_def demo_registered_active demo_job_def job_zero_def)
  have q: "p = 1 \<and> \<not> terminal (j_status (ex_job e))" if "find_execution p (fst demo_registered) = Some e" for p e
    using that by (auto simp: find_execution_def demo_registered_active demo_job_def job_zero_def terminal_def split: if_splits)
  show ?thesis using executor_cancel_correct [OF _ c, of "snd demo_registered"] demo_registered_reachable a c q by auto
qed


end
