(* ===== verification/Decision.thy ===== *)
theory Decision
  imports Config Lifecycle Json
begin

text \<open>
  \<open>src/decision_core_default.c\<close>: the decision core. From an optional file \<open>presim.json\<close> it takes
  an error estimate per zone, chooses a fidelity for each zone, fits the cores they need into the
  cores available, and answers with a strategy and a plan in JSON. Doubles are real numbers here,
  without rounding; the text that \<open>%.6f\<close> prints for one and the parser of the file are arguments.
  \<open>qsort\<close> is taken to be stable (glibc sorts by merging).
\<close>

unbundle bit_operations_syntax

section \<open>Model\<close>

definition DC_MAX_ZONES :: int where "DC_MAX_ZONES = 64"

datatype dc_action =
  DC_ACTION_NONE | DC_ACTION_RUN_PRE_SIM | DC_ACTION_RUN_COARSE_SIM | DC_ACTION_RUN_FINE_SIM |
  DC_ACTION_REFINE | DC_ACTION_MIGRATE | DC_ACTION_DEFER

record dc_context =
  dc_job_id :: "string option"
  dc_local_error_estimate :: real
  dc_available_cpus :: "32 word"
  dc_available_mem_mb :: "32 word"

record dc_result =
  dr_action :: dc_action
  dr_target_cores :: "32 word"
  dr_notes :: "string option"
  dr_allocation_json :: string

definition dc_none :: dc_result where
  "dc_none = \<lparr> dr_action = DC_ACTION_NONE, dr_target_cores = 0, dr_notes = None, dr_allocation_json = [] \<rparr>"

text \<open>What a call finds outside: the files that can be opened, whether reading one succeeds, memory.\<close>

record dc_env =
  de_files :: "string \<Rightarrow> string option"
  de_io_ok :: bool
  de_parse :: "string \<Rightarrow> json option"
  de_malloc_ok :: bool
  de_malloc_picks_ok :: bool
  de_fmt :: "real \<Rightarrow> string"

subsection \<open>Helpers\<close>

text \<open>The hash is that of an \<open>unsigned int\<close>, with wrap-around.\<close>

definition deterministic_zone_error :: "string \<Rightarrow> nat \<Rightarrow> real \<Rightarrow> real" where
  "deterministic_zone_error job_id zone_idx base =
     (let h = foldl (\<lambda>h c. (h XOR of_nat (of_char c)) * 16777619) (2166136261 :: 32 word) job_id;
          h' = (h XOR of_nat zone_idx) * 16777619
      in base * (6 / 10 + real (unat h' mod 8000) / 10000))"

fun json_number :: "json \<Rightarrow> real \<Rightarrow> real \<Rightarrow> real option" where
  "json_number (JNumber (Finite v)) minimum maximum = (if v < minimum \<or> v > maximum then None else Some v)"
| "json_number _ minimum maximum = None"

text \<open>
  The loop of \<open>parse_fidelity_map\<close>, with the room left in the array. A value outside 0 to 10000 is
  refused, so that the range of \<open>long\<close> does not matter.
\<close>

fun fidelity_loop :: "nat \<Rightarrow> int list \<Rightarrow> string \<Rightarrow> (int list \<times> string) option" where
  "fidelity_loop 0 values cursor = Some (values, cursor)"
| "fidelity_loop (Suc room) values cursor =
     (if cursor = [] then Some (values, cursor)
      else case strtol cursor of
        None \<Rightarrow> None
      | Some (v, rest) \<Rightarrow>
          if v < 0 \<or> v > 10000 \<or> (values \<noteq> [] \<and> v = 0) then None
          else if rest = [] then Some (values @ [v], [])
          else if hd rest \<noteq> CHR '','' then None
          else fidelity_loop room (values @ [v]) (tl rest))"

text \<open>The values; the highest fidelity is the index of the last.\<close>

definition parse_fidelity_map :: "string \<Rightarrow> int list option" where
  "parse_fidelity_map cursor =
     (case fidelity_loop 8 [] cursor of
        None \<Rightarrow> None
      | Some (values, rest) \<Rightarrow> if length values < 2 \<or> rest \<noteq> [] then None else Some values)"

definition fidelity_map :: "config \<Rightarrow> int list" where
  "fidelity_map cfg = (case parse_fidelity_map (cf_presim_fidelity_map cfg) of None \<Rightarrow> [0, 1, 3, 6] | Some vs \<Rightarrow> vs)"

subsection \<open>The zones\<close>

record zones =
  zo_sizes :: "real list"
  zo_errors :: "real list"
  zo_uncertainty :: "real list"

text \<open>The number of zones the file gives; the cast of a number beyond \<open>int\<close> is not modelled.\<close>

definition zone_count :: "json \<Rightarrow> int" where
  "zone_count presim =
     (case get_item presim ''zones'' of
        Some (JArray xs) \<Rightarrow> int (length xs)
      | z \<Rightarrow>
          let other = (case array_items (get_item presim ''zone_errors'') of
                Some xs \<Rightarrow> int (length xs)
              | None \<Rightarrow> (case array_items (get_item presim ''zone_sizes'') of
                           Some xs \<Rightarrow> int (length xs) | None \<Rightarrow> 8)) in
          case z of
            Some (JNumber (Finite v)) \<Rightarrow> if of_int \<lfloor>v\<rfloor> = v then \<lfloor>v\<rfloor> else other
          | _ \<Rightarrow> other)"

definition number_or :: "json option \<Rightarrow> real \<Rightarrow> real \<Rightarrow> real \<Rightarrow> real option" where
  "number_or item minimum maximum dflt =
     (case item of None \<Rightarrow> Some dflt | Some j \<Rightarrow> json_number j minimum maximum)"

definition read_zone :: "zones \<Rightarrow> nat \<Rightarrow> json \<Rightarrow> zones option" where
  "read_zone zs i zone =
     (case zone of
        JObject _ \<Rightarrow>
          (case (number_or (get_item zone ''error'') 0 1000000 (zo_errors zs ! i),
                 number_or (get_item zone ''size'') (1 / 1000000) 1000000000 (zo_sizes zs ! i),
                 number_or (get_item zone ''uncertainty'') 0 1000000 (zo_uncertainty zs ! i)) of
             (Some e, Some s, Some u) \<Rightarrow>
               Some (zs\<lparr>zo_errors := (zo_errors zs)[i := e], zo_sizes := (zo_sizes zs)[i := s],
                        zo_uncertainty := (zo_uncertainty zs)[i := u]\<rparr>)
           | _ \<Rightarrow> None)
      | _ \<Rightarrow> None)"

fun read_zones :: "zones \<Rightarrow> nat \<Rightarrow> json list \<Rightarrow> zones option" where
  "read_zones zs i [] = Some zs"
| "read_zones zs i (z # rest) = (case read_zone zs i z of None \<Rightarrow> None | Some zs' \<Rightarrow> read_zones zs' (Suc i) rest)"

fun read_numbers :: "real \<Rightarrow> real \<Rightarrow> json list \<Rightarrow> real list option" where
  "read_numbers minimum maximum [] = Some []"
| "read_numbers minimum maximum (x # xs) =
     (case json_number x minimum maximum of
        None \<Rightarrow> None
      | Some v \<Rightarrow> map_option (Cons v) (read_numbers minimum maximum xs))"

text \<open>One of the three arrays, over the values so far.\<close>

definition read_array :: "json option \<Rightarrow> real \<Rightarrow> real \<Rightarrow> real list \<Rightarrow> real list option" where
  "read_array arr minimum maximum target =
     (case arr of
        None \<Rightarrow> Some target
      | Some (JArray xs) \<Rightarrow>
          if length xs > length target then None
          else map_option (\<lambda>vs. vs @ drop (length xs) target) (read_numbers minimum maximum xs)
      | Some _ \<Rightarrow> None)"

definition zones_zero :: "nat \<Rightarrow> zones" where
  "zones_zero n = \<lparr> zo_sizes = replicate n 1, zo_errors = replicate n (-1), zo_uncertainty = replicate n 0 \<rparr>"

definition read_presim :: "json \<Rightarrow> nat \<Rightarrow> zones option" where
  "read_presim presim n =
     (case (case get_item presim ''zones'' of
              Some (JArray zs) \<Rightarrow> read_zones (zones_zero n) 0 zs
            | _ \<Rightarrow> Some (zones_zero n)) of
        None \<Rightarrow> None
      | Some zs \<Rightarrow>
          (case (read_array (get_item presim ''zone_errors'') 0 1000000 (zo_errors zs),
                 read_array (get_item presim ''zone_sizes'') (1 / 1000000) 1000000000 (zo_sizes zs),
                 read_array (get_item presim ''zone_uncertainty'') 0 1000000 (zo_uncertainty zs)) of
             (Some e, Some s, Some u) \<Rightarrow> Some \<lparr> zo_sizes = s, zo_errors = e, zo_uncertainty = u \<rparr>
           | _ \<Rightarrow> None))"

subsection \<open>Choosing the fidelities\<close>

text \<open>What the choices depend on.\<close>

record dc_params =
  dp_job_id :: string
  dp_zones :: zones
  dp_base_err :: real
  dp_threshold :: real
  dp_refine :: real
  dp_high :: real
  dp_weight :: real
  dp_map :: "int list"

definition zone_number :: "dc_params \<Rightarrow> nat" where
  "zone_number P = length (zo_sizes (dp_zones P))"

definition max_fidelity :: "dc_params \<Rightarrow> nat" where
  "max_fidelity P = length (dp_map P) - 1"

definition zone_error :: "dc_params \<Rightarrow> nat \<Rightarrow> real" where
  "zone_error P i = (if zo_errors (dp_zones P) ! i \<ge> 0 then zo_errors (dp_zones P) ! i
     else deterministic_zone_error (dp_job_id P) i (dp_base_err P))"

definition zone_size :: "dc_params \<Rightarrow> nat \<Rightarrow> real" where
  "zone_size P i = (if zo_sizes (dp_zones P) ! i > 0 then zo_sizes (dp_zones P) ! i else 1)"

definition zone_priority :: "dc_params \<Rightarrow> nat \<Rightarrow> real" where
  "zone_priority P i =
     (let u = (if zo_uncertainty (dp_zones P) ! i \<ge> 0 then zo_uncertainty (dp_zones P) ! i else 0)
      in (zone_error P i / zone_size P i) * (1 + dp_weight P * u))"

definition raw_fidelity :: "dc_params \<Rightarrow> nat \<Rightarrow> nat" where
  "raw_fidelity P i =
     (if zone_priority P i > dp_threshold P * dp_high P then max_fidelity P
      else if zone_priority P i > dp_threshold P * dp_refine P then 2 else 1)"

text \<open>A plan gives each zone its fidelity and its cores; the first one ignores the budget.\<close>

type_synonym plan = "(nat \<times> int) list"

definition first_choice :: "dc_params \<Rightarrow> nat \<Rightarrow> nat \<times> int" where
  "first_choice P i =
     (let f = min (raw_fidelity P i) (max_fidelity P) in (f, if f \<ge> 1 then dp_map P ! f else 0))"

definition first_plan :: "dc_params \<Rightarrow> plan" where
  "first_plan P = map (first_choice P) [0..<zone_number P]"

definition refine_count :: "plan \<Rightarrow> nat" where
  "refine_count pl = length (filter (\<lambda>(f, r). f > 1) pl)"

definition plan_cores :: "plan \<Rightarrow> 32 word" where
  "plan_cores pl = foldl (\<lambda>t (f, r). t + of_int r) 0 pl"

subsection \<open>Fitting the plan into the budget\<close>

record dc_pick =
  dk_idx :: nat
  dk_ratio :: real
  dk_req :: int

definition pick_of :: "dc_params \<Rightarrow> nat \<Rightarrow> dc_pick" where
  "pick_of P i =
     (let f = raw_fidelity P i;
          req = (if f \<ge> 1 \<and> f \<le> max_fidelity P then dp_map P ! f else 1);
          req' = (if req \<le> 0 then 1 else req)
      in \<lparr> dk_idx = i, dk_ratio = zone_priority P i / real_of_int req', dk_req = req' \<rparr>)"

definition compare_picks_desc :: "dc_pick \<Rightarrow> dc_pick \<Rightarrow> int" where
  "compare_picks_desc a b = (if dk_ratio a < dk_ratio b then 1 else if dk_ratio a > dk_ratio b then -1 else 0)"

fun insert_pick :: "dc_pick \<Rightarrow> dc_pick list \<Rightarrow> dc_pick list" where
  "insert_pick p [] = [p]"
| "insert_pick p (q # qs) = (if compare_picks_desc p q \<le> 0 then p # q # qs else q # insert_pick p qs)"

definition sorted_picks :: "dc_params \<Rightarrow> dc_pick list" where
  "sorted_picks P = foldr insert_pick (map (pick_of P) [0..<zone_number P]) []"

text \<open>The loop from the desired fidelity down to 1.\<close>

fun affordable :: "int list \<Rightarrow> 32 word \<Rightarrow> 32 word \<Rightarrow> nat \<Rightarrow> (nat \<times> int) option" where
  "affordable vals used cap 0 = None"
| "affordable vals used cap (Suc f) =
     (let requirement = vals ! Suc f in
      if requirement > 0 \<and> used + of_int requirement \<le> cap then Some (Suc f, requirement)
      else affordable vals used cap f)"

definition desired_fidelity :: "dc_params \<Rightarrow> nat \<Rightarrow> nat" where
  "desired_fidelity P i =
     (if zone_priority P i > dp_threshold P * dp_high P then max_fidelity P
      else if zone_priority P i > dp_threshold P * dp_refine P then (if max_fidelity P \<ge> 2 then 2 else 1) else 1)"

text \<open>\<open>selected_fidelity\<close> and \<open>selected_req\<close>, both zero for a zone that got nothing.\<close>

fun select_zones :: "dc_params \<Rightarrow> 32 word \<Rightarrow> dc_pick list \<Rightarrow> 32 word \<Rightarrow> plan \<Rightarrow> 32 word \<times> plan" where
  "select_zones P cap [] used sel = (used, sel)"
| "select_zones P cap (p # ps) used sel =
     (case affordable (dp_map P) used cap (desired_fidelity P (dk_idx p)) of
        None \<Rightarrow> select_zones P cap ps used sel
      | Some (f, r) \<Rightarrow> select_zones P cap ps (used + of_int r) (sel[dk_idx p := (f, r)]))"

definition budget_plan :: "dc_params \<Rightarrow> 32 word \<Rightarrow> 32 word \<times> plan" where
  "budget_plan P cap =
     (let (used, sel) = select_zones P cap (sorted_picks P) 0 (replicate (zone_number P) (0, 0))
      in (used, map (\<lambda>(f, r). (if f > 0 then f else 1, r)) sel))"

subsection \<open>The plan in JSON\<close>

definition dq :: string where "dq = [CHR 0x22]"

definition quoted_key :: "string \<Rightarrow> string" where "quoted_key k = dq @ k @ dq @ '':''"

definition zone_text :: "(real \<Rightarrow> string) \<Rightarrow> dc_params \<Rightarrow> nat \<Rightarrow> nat \<times> int \<Rightarrow> string" where
  "zone_text fmt P i c = buf 512
     (''{'' @ quoted_key ''zone'' @ dec (int i) @ '','' @ quoted_key ''error'' @ fmt (zone_error P i) @ '','' @
      quoted_key ''size'' @ fmt (zone_size P i) @ '','' @ quoted_key ''priority'' @ fmt (zone_priority P i) @ '','' @
      quoted_key ''fidelity'' @ dec (int (fst c)) @ '','' @ quoted_key ''req_cores'' @ dec (snd c) @ ''}'')"

fun joined :: "string list \<Rightarrow> string" where
  "joined [] = []"
| "joined [x] = x"
| "joined (x # y # ys) = x @ '','' @ joined (y # ys)"

text \<open>\<open>None\<close> when the text does not fit the buffer of 16384 characters.\<close>

definition plan_json :: "(real \<Rightarrow> string) \<Rightarrow> dc_params \<Rightarrow> plan \<Rightarrow> string option" where
  "plan_json fmt P pl =
     (let t = ''{'' @ quoted_key ''job_id'' @ dq @ dp_job_id P @ dq @ '','' @ quoted_key ''zones'' @ ''['' @
              joined (map (\<lambda>i. zone_text fmt P i (pl ! i)) [0..<length pl]) @
              ''],'' @ quoted_key ''threshold'' @ fmt (dp_threshold P) @ '','' @
              quoted_key ''zones_count'' @ dec (int (zone_number P)) @ ''}''
      in if length t \<ge> 16384 then None else Some t)"

subsection \<open>The decision\<close>

definition presim_path :: "config \<Rightarrow> string \<Rightarrow> string" where
  "presim_path cfg job_id = buf 768 (store_input_dir (cf_work_dir cfg) job_id 512 @ ''/presim.json'')"

definition positive_real_or :: "real \<Rightarrow> real \<Rightarrow> real" where
  "positive_real_or v dflt = (if v > 0 then v else dflt)"

text \<open>The zones and the threshold before its upper bound; \<open>None\<close> for an unusable file.\<close>

definition load_presim :: "dc_env \<Rightarrow> string \<Rightarrow> real \<Rightarrow> (zones \<times> real) option" where
  "load_presim env path threshold =
     (case de_files env path of
        None \<Rightarrow> Some (zones_zero 8, threshold)
      | Some data \<Rightarrow>
          if \<not> de_io_ok env \<or> data = [] \<or> length data > 256 * 1024 then None
          else case de_parse env data of
            Some (JObject kvs) \<Rightarrow>
              let presim = JObject kvs; n = zone_count presim in
              (case number_or (get_item presim ''error_threshold'') (1 / 1000000) 1000000 threshold of
                 None \<Rightarrow> None
               | Some thr \<Rightarrow>
                   if n < 1 \<or> n > DC_MAX_ZONES then None
                   else map_option (\<lambda>zs. (zs, thr)) (read_presim presim (nat n)))
          | _ \<Rightarrow> None)"

definition dc_params_of :: "config \<Rightarrow> dc_context \<Rightarrow> string \<Rightarrow> zones \<Rightarrow> real \<Rightarrow> dc_params" where
  "dc_params_of cfg ctx job_id zs thr =
     \<lparr> dp_job_id = job_id, dp_zones = zs, dp_base_err = positive_real_or (dc_local_error_estimate ctx) (5 / 100),
       dp_threshold = (if cf_presim_threshold_max cfg > 0 \<and> thr > cf_presim_threshold_max cfg
                       then cf_presim_threshold_max cfg else thr),
       dp_refine = positive_real_or (cf_presim_refine_multiplier cfg) (8 / 10),
       dp_high = positive_real_or (cf_presim_high_multiplier cfg) 2,
       dp_weight = (if cf_presim_uncertainty_weight cfg \<ge> 0 then cf_presim_uncertainty_weight cfg else 1),
       dp_map = fidelity_map cfg \<rparr>"

definition dc_strategy :: "32 word \<Rightarrow> plan \<Rightarrow> dc_action" where
  "dc_strategy want pl =
     (if want = 0 then DC_ACTION_DEFER
      else if refine_count pl = 0 then DC_ACTION_RUN_COARSE_SIM
      else if refine_count pl \<ge> length pl then DC_ACTION_RUN_FINE_SIM
      else DC_ACTION_REFINE)"

definition dc_answer :: "32 word \<Rightarrow> plan \<Rightarrow> string \<Rightarrow> dc_result" where
  "dc_answer want pl json =
     \<lparr> dr_action = dc_strategy want pl, dr_target_cores = want, dr_notes = None, dr_allocation_json = json \<rparr>"

definition dc_plan :: "dc_env \<Rightarrow> dc_params \<Rightarrow> 32 word \<Rightarrow> dc_result option" where
  "dc_plan env P available =
     (let pl = first_plan P; want = plan_cores pl; cap = (if available > 0 then available else want) in
      case plan_json (de_fmt env) P pl of
        None \<Rightarrow> None
      | Some json \<Rightarrow>
          if want > cap \<and> cap > 0 then
            if \<not> de_malloc_picks_ok env then None
            else let (used, pl') = budget_plan P cap in
                 map_option (dc_answer used pl') (plan_json (de_fmt env) P pl')
          else Some (dc_answer want pl json))"

text \<open>\<open>None\<close> is the result -1.\<close>

definition decision_core_decide ::
  "config \<Rightarrow> dc_env \<Rightarrow> dc_context option \<Rightarrow> db \<Rightarrow> dc_result option \<times> db" where
  "decision_core_decide cfg env ctx d =
     (case ctx of
        None \<Rightarrow> (None, d)
      | Some c \<Rightarrow>
          (case dc_job_id c of
             None \<Rightarrow> (Some dc_none, d)
           | Some job_id \<Rightarrow>
               let (jo, d') = db_get_job job_id d in
               (case jo of
                  None \<Rightarrow> (Some dc_none, d')
                | Some job \<Rightarrow>
                    (case load_presim env (presim_path cfg (j_id job))
                            (positive_real_or (dc_local_error_estimate c) (3 / 100)) of
                       None \<Rightarrow> (None, d')
                     | Some (zs, thr) \<Rightarrow>
                         if \<not> de_malloc_ok env then (None, d')
                         else (dc_plan env (dc_params_of cfg c (j_id job) zs thr) (dc_available_cpus c), d')))))"

section \<open>The fidelity map and the zones\<close>

lemma fidelity_loop_range:
  "fidelity_loop n vs cur = Some (vs', rest) \<Longrightarrow> \<forall>v \<in> set vs. 0 \<le> v \<and> v \<le> 10000 \<Longrightarrow>
   (\<forall>v \<in> set vs'. 0 \<le> v \<and> v \<le> 10000) \<and> length vs' \<le> n + length vs"
proof (induction n vs cur rule: fidelity_loop.induct)
  case (2 room vs cur)
  then show ?case by (cases "cur = []") (auto split: option.splits if_splits)
qed simp

lemma fidelity_map_range:
  "2 \<le> length (fidelity_map cfg)" "v \<in> set (fidelity_map cfg) \<Longrightarrow> 0 \<le> v \<and> v \<le> 10000"
proof -
  have "2 \<le> length vs \<and> (\<forall>v \<in> set vs. 0 \<le> v \<and> v \<le> 10000)" if "parse_fidelity_map c = Some vs" for c vs
    using that fidelity_loop_range [of 8 "[]" c vs "[]"]
    by (auto simp: parse_fidelity_map_def split: option.splits if_splits)
  then show "2 \<le> length (fidelity_map cfg)" "v \<in> set (fidelity_map cfg) \<Longrightarrow> 0 \<le> v \<and> v \<le> 10000"
    by (auto simp: fidelity_map_def split: option.splits)
qed

lemma read_zones_length: "read_zones zs i js = Some zs' \<Longrightarrow> length (zo_sizes zs') = length (zo_sizes zs)"
proof (induction zs i js rule: read_zones.induct)
  case (2 zs i z rest)
  obtain zs1 where z: "read_zone zs i z = Some zs1" using 2 by (auto split: option.splits)
  then have "length (zo_sizes zs1) = length (zo_sizes zs)"
    by (auto simp: read_zone_def split: json.splits cnum.splits option.splits)
  then show ?case using 2 z by simp
qed simp

lemma read_numbers_length: "read_numbers a b xs = Some vs \<Longrightarrow> length vs = length xs"
  by (induction xs arbitrary: vs) (auto split: option.splits)

lemma read_array_length: "read_array arr a b t = Some t' \<Longrightarrow> length t' = length t"
  by (auto simp: read_array_def read_numbers_length split: option.splits json.splits cnum.splits if_splits)

lemma read_presim_length:
  assumes "read_presim presim n = Some zs"
  shows "length (zo_sizes zs) = n"
proof -
  obtain zs1 where zs1: "(case get_item presim ''zones'' of Some (JArray zs) \<Rightarrow> read_zones (zones_zero n) 0 zs
      | _ \<Rightarrow> Some (zones_zero n)) = Some zs1"
    using assms by (auto simp: read_presim_def split: option.splits)
  then have "length (zo_sizes zs1) = n"
    using read_zones_length [of "zones_zero n"] by (auto simp: zones_zero_def split: option.splits json.splits cnum.splits)
  moreover have "read_array (get_item presim ''zone_sizes'') (1 / 1000000) 1000000000 (zo_sizes zs1) = Some (zo_sizes zs)"
    using assms zs1 by (auto simp: read_presim_def split: option.splits)
  ultimately show ?thesis using read_array_length by simp
qed

lemma load_presim_zones:
  "load_presim env path thr = Some (zs, thr') \<Longrightarrow> 1 \<le> length (zo_sizes zs) \<and> length (zo_sizes zs) \<le> 64"
  by (auto simp: load_presim_def Let_def DC_MAX_ZONES_def zones_zero_def dest!: read_presim_length
      split: option.splits json.splits cnum.splits if_splits)

section \<open>Plans\<close>

definition plan_total :: "plan \<Rightarrow> int" where
  "plan_total pl = (\<Sum>(f, r) \<leftarrow> pl. r)"

text \<open>Every zone has a fidelity of the map and the cores the map gives for it, or none.\<close>

definition choice_ok :: "int list \<Rightarrow> nat \<times> int \<Rightarrow> bool" where
  "choice_ok vals = (\<lambda>(f, r). 1 \<le> f \<and> f < length vals \<and> (r = vals ! f \<or> r = 0))"

definition params_ok :: "dc_params \<Rightarrow> bool" where
  "params_ok P \<longleftrightarrow> 2 \<le> length (dp_map P) \<and> (\<forall>v \<in> set (dp_map P). 0 \<le> v \<and> v \<le> 10000) \<and>
     1 \<le> zone_number P \<and> zone_number P \<le> 64"

lemma uint_add_int:
  "0 \<le> r \<Longrightarrow> uint (t :: 32 word) + r < 2 ^ 32 \<Longrightarrow> uint (t + of_int r) = uint t + r"
  using uint_ge_0 [of t] by (simp add: uint_word_ariths uint_word_of_int_eq take_bit_eq_mod mod_add_right_eq)

lemma plan_cores_total:
  assumes "\<forall>(f, r) \<in> set pl. 0 \<le> r \<and> r \<le> 10000" "length pl \<le> 64"
  shows "uint (plan_cores pl) = plan_total pl"
proof -
  have "uint (foldl (\<lambda>t (f, r). t + of_int r) t pl) = uint t + plan_total pl"
    if "\<forall>(f, r) \<in> set pl. 0 \<le> r \<and> r \<le> 10000" "uint t + 10000 * int (length pl) < 2 ^ 32" for t :: "32 word" and pl
    using that
  proof (induction pl arbitrary: t)
    case (Cons c pl)
    obtain f r where c: "c = (f, r)" by force
    have u: "uint (t + of_int r) = uint t + r" using Cons.prems c by (intro uint_add_int) auto
    have "uint (foldl (\<lambda>t (f, r). t + of_int r) (t + of_int r) pl) = uint (t + of_int r) + plan_total pl"
      by (rule Cons.IH) (use Cons.prems c u in auto)
    then show ?case using u c by (simp add: plan_total_def)
  qed (simp add: plan_total_def)
  from this [of pl 0] show ?thesis using assms by (simp add: plan_cores_def)
qed

lemma first_plan_ok:
  assumes "params_ok P"
  shows "length (first_plan P) = zone_number P" "\<forall>c \<in> set (first_plan P). choice_ok (dp_map P) c"
  using assms by (auto simp: first_plan_def first_choice_def choice_ok_def params_ok_def max_fidelity_def
      raw_fidelity_def Let_def)

lemma choice_ok_range: "params_ok P \<Longrightarrow> choice_ok (dp_map P) (f, r) \<Longrightarrow> 0 \<le> r \<and> r \<le> 10000"
  by (auto simp: choice_ok_def params_ok_def)

section \<open>The greedy selection\<close>

lemma mset_insert_pick: "mset (insert_pick p qs) = add_mset p (mset qs)"
  by (induction qs) auto

lemma mset_sorted_picks: "mset (sorted_picks P) = mset (map (pick_of P) [0..<zone_number P])"
proof -
  have "mset (foldr insert_pick ps []) = mset ps" for ps by (induction ps) (simp_all add: mset_insert_pick)
  then show ?thesis by (simp add: sorted_picks_def)
qed

lemma sorted_picks_idx:
  "distinct (map dk_idx (sorted_picks P))" "length (sorted_picks P) = zone_number P"
  "p \<in> set (sorted_picks P) \<Longrightarrow> dk_idx p < zone_number P"
proof -
  have "mset (map dk_idx (sorted_picks P)) = mset (map (dk_idx \<circ> pick_of P) [0..<zone_number P])"
    using arg_cong [OF mset_sorted_picks [of P], of "image_mset dk_idx"] by (simp add: multiset.map_comp)
  also have "map (dk_idx \<circ> pick_of P) [0..<zone_number P] = [0..<zone_number P]"
    by (simp add: map_idI pick_of_def Let_def)
  finally have m: "mset (map dk_idx (sorted_picks P)) = mset [0..<zone_number P]" .
  then show "distinct (map dk_idx (sorted_picks P))" by (metis distinct_upt mset_eq_imp_distinct_iff)
  show "length (sorted_picks P) = zone_number P" using mset_eq_length [OF mset_sorted_picks [of P]] by simp
  show "p \<in> set (sorted_picks P) \<Longrightarrow> dk_idx p < zone_number P"
    using mset_eq_setD [OF m] by force
qed

lemma affordable_Some:
  "affordable vals used cap f = Some (g, r) \<Longrightarrow> 1 \<le> g \<and> g \<le> f \<and> r = vals ! g \<and> r > 0 \<and> used + of_int r \<le> cap"
  by (induction f) (auto simp: Let_def split: if_splits)

lemma desired_fidelity_le: "params_ok P \<Longrightarrow> desired_fidelity P i < length (dp_map P)"
  by (auto simp: desired_fidelity_def params_ok_def max_fidelity_def)

lemma plan_total_update:
  "i < length pl \<Longrightarrow> snd (pl ! i) = 0 \<Longrightarrow> plan_total (pl[i := (f, r)]) = plan_total pl + r"
proof (induction pl arbitrary: i)
  case (Cons c pl)
  then show ?case by (cases i) (auto simp: plan_total_def split: prod.splits)
qed simp

definition sel_ok :: "int list \<Rightarrow> plan \<Rightarrow> bool" where
  "sel_ok vals pl \<longleftrightarrow> (\<forall>c \<in> set pl. c = (0, 0) \<or> choice_ok vals c)"

lemma select_zones_ok:
  assumes P: "params_ok P"
  shows "select_zones P cap ps used sel = (used', sel') \<Longrightarrow> distinct (map dk_idx ps) \<Longrightarrow>
    \<forall>p \<in> set ps. dk_idx p < length sel \<and> sel ! dk_idx p = (0, 0) \<Longrightarrow> sel_ok (dp_map P) sel \<Longrightarrow>
    uint used = plan_total sel \<Longrightarrow> used \<le> cap \<Longrightarrow> uint used + 10000 * int (length ps) < 2 ^ 32 \<Longrightarrow>
    length sel' = length sel \<and> sel_ok (dp_map P) sel' \<and> uint used' = plan_total sel' \<and> used' \<le> cap"
proof (induction ps arbitrary: used sel)
  case (Cons p ps)
  let ?f = "desired_fidelity P (dk_idx p)"
  show ?case
  proof (cases "affordable (dp_map P) used cap ?f")
    case None
    then show ?thesis using Cons.prems by (intro Cons.IH) auto
  next
    case (Some c)
    obtain f r where c: "c = (f, r)" by force
    note a = affordable_Some [OF Some [unfolded c]]
    have f: "f < length (dp_map P)" using a desired_fidelity_le [OF P, of "dk_idx p"] by linarith
    then have r: "0 < r" "r \<le> 10000" using P a by (auto simp: params_ok_def)
    have u: "uint (used + of_int r) = uint used + r" by (rule uint_add_int) (use r Cons.prems in auto)
    have ok: "choice_ok (dp_map P) (f, r)" using a f by (simp add: choice_ok_def)
    have p: "dk_idx p < length sel" "sel ! dk_idx p = (0, 0)" using Cons.prems by auto
    have "length sel' = length (sel[dk_idx p := (f, r)]) \<and> sel_ok (dp_map P) sel' \<and>
        uint used' = plan_total sel' \<and> used' \<le> cap"
    proof (rule Cons.IH)
      show "select_zones P cap ps (used + of_int r) (sel[dk_idx p := (f, r)]) = (used', sel')"
        using Cons.prems Some c by simp
      show "\<forall>q \<in> set ps. dk_idx q < length (sel[dk_idx p := (f, r)]) \<and> sel[dk_idx p := (f, r)] ! dk_idx q = (0, 0)"
        using Cons.prems by (auto simp: nth_list_update image_iff)
      show "sel_ok (dp_map P) (sel[dk_idx p := (f, r)])"
        using Cons.prems ok by (auto simp: sel_ok_def dest!: set_update_subset_insert [THEN subsetD])
    qed (use Cons.prems a u r plan_total_update [OF p(1)] p in auto)
    then show ?thesis by simp
  qed
qed simp

lemma budget_plan_ok:
  assumes P: "params_ok P" and run: "budget_plan P cap = (used, pl)"
  shows "length pl = zone_number P" "\<forall>c \<in> set pl. choice_ok (dp_map P) c" "uint used = plan_total pl" "used \<le> cap"
proof -
  let ?z = "replicate (zone_number P) (0, 0) :: plan"
  obtain sel where sel: "select_zones P cap (sorted_picks P) 0 ?z = (used, sel)"
      "pl = map (\<lambda>(f, r). (if f > 0 then f else 1, r)) sel"
    using run by (auto simp: budget_plan_def split: prod.splits)
  have S: "length sel = length ?z \<and> sel_ok (dp_map P) sel \<and> uint used = plan_total sel \<and> used \<le> cap"
    by (rule select_zones_ok [OF P sel(1) sorted_picks_idx(1)])
      (use sorted_picks_idx P in \<open>auto simp: sel_ok_def plan_total_def params_ok_def sum_list_replicate\<close>)
  have "plan_total pl = plan_total sel" by (simp add: sel(2) plan_total_def comp_def split_def)
  then show "length pl = zone_number P" "uint used = plan_total pl" "used \<le> cap" using S sel(2) by auto
  show "\<forall>c \<in> set pl. choice_ok (dp_map P) c"
    using S P by (fastforce simp: sel(2) sel_ok_def choice_ok_def params_ok_def)
qed

section \<open>Claims\<close>

lemma dc_plan_ok:
  assumes P: "params_ok P" and run: "dc_plan env P available = Some res"
  shows "\<exists>pl. plan_json (de_fmt env) P pl = Some (dr_allocation_json res) \<and> length pl = zone_number P \<and>
    (\<forall>c \<in> set pl. choice_ok (dp_map P) c) \<and> uint (dr_target_cores res) = plan_total pl \<and>
    (available > 0 \<longrightarrow> dr_target_cores res \<le> available) \<and> dr_action res = dc_strategy (dr_target_cores res) pl"
proof -
  define want where "want = plan_cores (first_plan P)"
  define cap where "cap = (if available > 0 then available else want)"
  have first: "uint want = plan_total (first_plan P)" unfolding want_def
    by (rule plan_cores_total) (use first_plan_ok [OF P] choice_ok_range [OF P] P in \<open>auto simp: params_ok_def\<close>)
  obtain used pl where b: "budget_plan P cap = (used, pl)" by force
  obtain json where json: "plan_json (de_fmt env) P (first_plan P) = Some json"
    using run by (auto simp: dc_plan_def Let_def split: option.splits)
  have run': "(if want > cap \<and> cap > 0 then
        if \<not> de_malloc_picks_ok env then None else map_option (dc_answer used pl) (plan_json (de_fmt env) P pl)
      else Some (dc_answer want (first_plan P) json)) = Some res"
    using run unfolding dc_plan_def Let_def want_def [symmetric] cap_def [symmetric] json option.case b prod.case .
  show ?thesis
  proof (cases "want > cap \<and> cap > 0")
    case True
    then obtain json' where "plan_json (de_fmt env) P pl = Some json'" "res = dc_answer used pl json'"
      using run' by (auto split: if_splits)
    then show ?thesis using budget_plan_ok [OF P b] by (intro exI [of _ pl]) (auto simp: dc_answer_def cap_def)
  next
    case False
    then have "res = dc_answer want (first_plan P) json"
      using run' by auto
    moreover have "available > 0 \<Longrightarrow> want \<le> available" using False by (simp add: cap_def not_less)
    ultimately show ?thesis using json first first_plan_ok [OF P]
      by (intro exI [of _ "first_plan P"]) (auto simp: dc_answer_def)
  qed
qed

text \<open>
  C35: a decision with a plan keeps to the budget: the plan has between 1 and 64 zones, each with a
  fidelity of the configured map and the cores the map gives for it (or none); the cores the decision asks
  for are exactly the sum over the zones, without wrap-around, and never more than those available when
  any are; and the strategy is to defer exactly when nothing is asked for, and else coarse, fine or
  partial as none, all or some of the zones are refined. The plan is the text returned.
\<close>

theorem decision_core_budget:
  assumes "decision_core_decide cfg env (Some c) d = (Some res, d')" "dr_allocation_json res \<noteq> []"
  shows "\<exists>P pl. plan_json (de_fmt env) P pl = Some (dr_allocation_json res) \<and>
    1 \<le> length pl \<and> length pl \<le> 64 \<and> length pl = zone_number P \<and> dp_map P = fidelity_map cfg \<and>
    (\<forall>(f, r) \<in> set pl. 1 \<le> f \<and> f < length (fidelity_map cfg) \<and> (r = fidelity_map cfg ! f \<or> r = 0)) \<and>
    uint (dr_target_cores res) = plan_total pl \<and>
    (dc_available_cpus c > 0 \<longrightarrow> dr_target_cores res \<le> dc_available_cpus c) \<and>
    dr_action res = dc_strategy (dr_target_cores res) pl"
proof -
  obtain job :: job and zs thr where r: "load_presim env (presim_path cfg (j_id job))
        (positive_real_or (dc_local_error_estimate c) (3 / 100)) = Some (zs, thr)"
      "dc_plan env (dc_params_of cfg c (j_id job) zs thr) (dc_available_cpus c) = Some res"
    using assms by (auto simp: decision_core_decide_def dc_none_def Let_def split: option.splits prod.splits if_splits)
  let ?P = "dc_params_of cfg c (j_id job) zs thr"
  have m: "dp_map ?P = fidelity_map cfg" "zone_number ?P = length (zo_sizes zs)"
    by (simp_all add: dc_params_of_def zone_number_def)
  then have "params_ok ?P" using load_presim_zones [OF r(1)] fidelity_map_range by (auto simp: params_ok_def)
  from dc_plan_ok [OF this r(2)] this m show ?thesis
    by (intro exI [of _ ?P]) (auto simp: choice_ok_def params_ok_def)
qed

text \<open>A plan of few zones fits the buffer.\<close>

lemma length_joined: "(\<And>x. x \<in> set xs \<Longrightarrow> length x \<le> n) \<Longrightarrow> length (joined xs) \<le> length xs * Suc n"
proof (induction xs rule: joined.induct)
  case (3 x y ys)
  then have "length x \<le> n" "length (joined (y # ys)) \<le> length (y # ys) * Suc n" by auto
  then show ?case by simp
qed auto

lemma length_zone_text: "length (zone_text fmt P i c) \<le> 511"
  unfolding zone_text_def by (rule order_trans [OF length_buf]) simp

lemma plan_json_fits:
  assumes "length pl * 512 + length (dp_job_id P) + length (fmt (dp_threshold P)) + length (dec (int (zone_number P))) < 16300"
  shows "plan_json fmt P pl \<noteq> None"
proof -
  have "length (joined (map (\<lambda>i. zone_text fmt P i (pl ! i)) [0..<length pl])) \<le> length pl * Suc 511"
    by (rule order_trans [OF length_joined [of _ 511]]) (auto intro: length_zone_text)
  then show ?thesis using assms by (simp add: plan_json_def quoted_key_def dq_def Let_def)
qed

lemma dc_plan_answers:
  assumes P: "params_ok P" and "de_malloc_picks_ok env"
    and fits: "zone_number P * 512 + length (dp_job_id P) + length (de_fmt env (dp_threshold P)) +
       length (dec (int (zone_number P))) < 16300"
  shows "dc_plan env P available \<noteq> None"
proof -
  have "plan_json (de_fmt env) P pl \<noteq> None" if "length pl = zone_number P" for pl
    using plan_json_fits [of pl P "de_fmt env"] that fits by simp
  then show ?thesis using assms first_plan_ok(1) [OF P] budget_plan_ok(1) [OF P]
    by (auto simp: dc_plan_def Let_def split: option.splits prod.splits)
qed

text \<open>A job with the default eight zones and twelve cores to spend.\<close>

definition demo_dc_env :: dc_env where
  "demo_dc_env = \<lparr> de_files = (\<lambda>_. None), de_io_ok = True, de_parse = (\<lambda>_. None), de_malloc_ok = True,
     de_malloc_picks_ok = True, de_fmt = (\<lambda>_. ''0.050000'') \<rparr>"

definition demo_ctx :: dc_context where
  "demo_ctx = \<lparr> dc_job_id = Some ''a'', dc_local_error_estimate = 0, dc_available_cpus = 12, dc_available_mem_mb = 0 \<rparr>"

theorem decision_core_budget_witness:
  "\<exists>res. fst (decision_core_decide config_defaults demo_dc_env (Some demo_ctx) (sy_db demo_life)) = Some res \<and>
     dr_allocation_json res \<noteq> [] \<and> dr_target_cores res \<le> 12"
proof -
  obtain jo d' where jo: "db_get_job ''a'' (sy_db demo_life) = (jo, d')" by force
  have "map_option j_id (fst (db_get_job ''a'' (sy_db demo_life))) = Some ''a''" by code_simp
  then obtain job where job: "jo = Some job" "j_id job = ''a''" using jo by auto
  let ?P = "dc_params_of config_defaults demo_ctx ''a'' (zones_zero 8) (3 / 100)"
  have P: "params_ok ?P" "zone_number ?P = 8" "dp_job_id ?P = ''a''" using fidelity_map_range [where cfg = config_defaults]
    by (auto simp: params_ok_def dc_params_of_def zone_number_def zones_zero_def)
  have d8: "length (dec 8) = 1" by (simp add: dec_def dec_nat.simps)
  have "dc_plan demo_dc_env ?P 12 \<noteq> None"
    by (rule dc_plan_answers [OF P(1)]) (simp_all add: P(2,3) demo_dc_env_def d8)
  then obtain res where res: "dc_plan demo_dc_env ?P 12 = Some res" by blast
  have run: "decision_core_decide config_defaults demo_dc_env (Some demo_ctx) (sy_db demo_life) = (Some res, d')"
    using jo job res by (simp add: decision_core_decide_def demo_ctx_def load_presim_def demo_dc_env_def positive_real_or_def)
  have "dr_allocation_json res \<noteq> []" using dc_plan_ok [OF P(1) res] by (auto simp: plan_json_def Let_def split: if_splits)
  moreover from decision_core_budget [OF run this] have "dr_target_cores res \<le> 12" by (auto simp: demo_ctx_def)
  ultimately show ?thesis using run by simp
qed

end
