(* ===== verification/Scheduler.thy ===== *)
theory Scheduler
  imports ExecSafety Decision Queue DbMeta
begin

text \<open>
  \<open>src/core/scheduler.c\<close>: the thread that takes jobs from the queue, checks quotas, affinity and
  the decision core, reserves a machine and hands the job to the executor; that releases held jobs
  when their inputs are ready and ends those that run too long; start-up, shutdown and
  cancellation. The loop over the jobs of one tick is cut into one pass per job. Answers of the
  operating system during one pass are a record of arguments; requests to the disk (directories to
  create, outputs to copy) are recorded in the state in order, as commands and signals are.
\<close>

section \<open>Model\<close>

subsection \<open>State\<close>

datatype disk_op =
  Init_Dirs string | Forward_Outputs string string | Cleanup_Job string | Reset_Outputs string |
  Write_File string string | Remove_File string

record sched_sys = exec_sys +
  sy_queue :: "queue option"
  sy_running :: bool
  sy_thread_started :: bool
  sy_auto_prov_jobs :: "string list"
  sy_disk :: "disk_op list"
  sy_dc_initialized :: bool

text \<open>What the operating system answers during one pass: files, memory, random numbers, threads.\<close>

record pass =
  pa_dc :: dc_env
  pa_push_ok :: bool
  pa_snapshot_ok :: bool
  pa_realloc_ok :: bool
  pa_child :: "nat \<Rightarrow> bool \<times> entropy"
  pa_fresh :: "nat option"
  pa_os :: os_answers
  pa_solver_cmd :: "string option"

definition sched_log :: "disk_op \<Rightarrow> sched_sys \<Rightarrow> sched_sys" where
  "sched_log x sys = sys\<lparr>sy_disk := sy_disk sys @ [x]\<rparr>"

definition push_job :: "bool \<Rightarrow> job \<Rightarrow> sched_sys \<Rightarrow> sched_sys" where
  "push_job push_ok job sys = sys\<lparr>sy_queue := snd (queue_push push_ok (sy_queue sys) (Some job))\<rparr>"

definition set_reason :: "string \<Rightarrow> string \<Rightarrow> sched_sys \<Rightarrow> sched_sys" where
  "set_reason job_id reason sys = sys\<lparr>sy_db := snd (db_update_status_reason job_id reason (sy_db sys))\<rparr>"

text \<open>\<open>events_push_persistent\<close> followed by \<open>db_insert_event\<close>, as three places of the loop do it.\<close>

definition record_event ::
  "exec_env \<Rightarrow> string \<Rightarrow> string \<Rightarrow> string \<Rightarrow> string \<Rightarrow> string \<Rightarrow> string \<Rightarrow> sched_sys \<Rightarrow> sched_sys" where
  "record_event env category event_type detail user_id job_id machine_id sys =
     (let (d, ring) = events_push_persistent (xe_print env) (sy_now sys) (Some category) (Some event_type)
                        (Some detail) (Some user_id) (sy_db sys, sy_ring sys)
      in sys\<lparr>sy_ring := ring, sy_db := snd (db_insert_event (sy_now sys) (Some category) (Some event_type)
               (Some detail) (Some user_id) (Some job_id) (Some machine_id) d)\<rparr>)"

subsection \<open>Small helpers\<close>

definition trim_local :: "string \<Rightarrow> string" where
  "trim_local s = rev (dropWhile (\<lambda>c. c \<in> {CHR '' '', CHR 0x09, CHR 0x0D, CHR 0x0A})
     (rev (dropWhile (\<lambda>c. c \<in> {CHR '' '', CHR 0x09}) s)))"

definition AUTO_PROV_MAX :: nat where "AUTO_PROV_MAX = 256"

definition auto_prov_already_tried :: "string list \<Rightarrow> string \<Rightarrow> bool" where
  "auto_prov_already_tried jobs job_id \<longleftrightarrow> (\<exists>j \<in> set jobs. strcmp j job_id = 0)"

definition auto_prov_mark :: "string \<Rightarrow> string list \<Rightarrow> string list" where
  "auto_prov_mark job_id jobs = (if length jobs < AUTO_PROV_MAX then jobs @ [buf 37 job_id] else jobs)"

definition count_expected_files :: "string \<Rightarrow> int" where
  "count_expected_files input_files =
     (if input_files = [] then 0 else 1 + int (length (filter (\<lambda>c. c = CHR '','') input_files)))"

definition count_present_files :: "(string \<Rightarrow> string option) \<Rightarrow> string \<Rightarrow> string \<Rightarrow> int" where
  "count_present_files files input_dir input_files =
     int (length (filter (\<lambda>tok. files (buf 768 (input_dir @ ''/'' @ trim_spaces tok)) \<noteq> None)
                    (strtok CHR '','' (buf 2048 input_files))))"

subsection \<open>The decision core\<close>

text \<open>\<open>freecpus\<close> and \<open>freemem\<close> are sums of \<open>uint32_t\<close>; without a snapshot they are 0.\<close>

definition free_sum :: "(machine \<Rightarrow> int) \<Rightarrow> machine list \<Rightarrow> 32 word" where
  "free_sum f ms = foldl (\<lambda>a m. if m_enabled m \<and> m_probe_status m = MACHINE_ONLINE \<and> f m > 0
                                then a + of_int (f m) else a) 0 ms"

definition sched_context :: "pass \<Rightarrow> job \<Rightarrow> sched_sys \<Rightarrow> dc_context" where
  "sched_context pa job sys =
     (let ml = (case registry_snapshot (pa_snapshot_ok pa) (sy_reg sys) of None \<Rightarrow> [] | Some ms \<Rightarrow> ms)
      in \<lparr> dc_job_id = Some (j_id job), dc_local_error_estimate = 0,
           dc_available_cpus = free_sum (\<lambda>m. m_cores_total m - m_cores_reserved m - m_cores_min m) ml,
           dc_available_mem_mb = free_sum (\<lambda>m. m_ram_mb_total m - m_ram_mb_reserved m - m_ram_mb_min m) ml \<rparr>)"

definition sched_decide :: "config \<Rightarrow> pass \<Rightarrow> job \<Rightarrow> sched_sys \<Rightarrow> dc_result option \<times> sched_sys" where
  "sched_decide cfg pa job sys =
     (let (r, d) = decision_core_decide cfg (pa_dc pa) (Some (sched_context pa job sys)) (sy_db sys)
      in (r, sys\<lparr>sy_db := d, sy_dc_initialized := True\<rparr>))"

text \<open>At least the cores the decision asks for.\<close>

definition raise_cores :: "dc_result \<Rightarrow> job \<Rightarrow> job" where
  "raise_cores res job =
     (if dr_target_cores res > 0 \<and> dr_target_cores res > of_int (j_req_cores job)
      then job\<lparr>j_req_cores := sint (dr_target_cores res)\<rparr> else job)"

text \<open>\<open>(int)item->valuedouble\<close>; a value that is no \<open>int\<close> converts as on x86-64.\<close>

definition c_int_cast :: "cnum \<Rightarrow> int" where
  "c_int_cast v =
     (case v of
        Infinite _ \<Rightarrow> - (2 ^ 31)
      | Finite x \<Rightarrow> let t = (if x \<ge> 0 then \<lfloor>x\<rfloor> else \<lceil>x\<rceil>) in if int32 t then t else - (2 ^ 31))"

definition int_item :: "json \<Rightarrow> string \<Rightarrow> int \<Rightarrow> int" where
  "int_item zone key dflt = (case get_item zone key of Some (JNumber v) \<Rightarrow> c_int_cast v | _ \<Rightarrow> dflt)"

definition refine_cmd :: "job \<Rightarrow> int \<Rightarrow> int \<Rightarrow> string" where
  "refine_cmd job zoneid fidelity =
     buf 1024 (j_command job @ '' --refine-zone='' @ dec zoneid @ '' --fidelity='' @ dec fidelity)"

text \<open>The child for one zone: created, its directories made, queued, and added to \<open>depends_buf\<close>.\<close>

definition refine_zone :: "config \<Rightarrow> pass \<Rightarrow> job \<Rightarrow> nat \<Rightarrow> json \<Rightarrow> string \<times> sched_sys \<Rightarrow> string \<times> sched_sys" where
  "refine_zone cfg pa job zi zone = (\<lambda>(deps, sys).
     (case zone of
        JObject _ \<Rightarrow>
          let reqc = int_item zone ''req_cores'' 0; fidelity = int_item zone ''fidelity'' 1;
              zoneid = int_item zone ''zone'' (int zi) in
          if reqc \<le> 0 \<and> fidelity \<le> 1 then (deps, sys)
          else
            let (child, sys1) = job_create_ex (fst (pa_child pa zi)) (snd (pa_child pa zi)) (cf_work_dir cfg)
                  (refine_cmd job zoneid fidelity) (j_priority job + 5) (if reqc > 0 then reqc else 1)
                  (j_req_gpu job) (j_req_ram_mb job) (j_req_disk_mb job) (Some (j_user_id job))
                  (Some (j_app_id job)) sys in
            (case child of
               None \<Rightarrow> (deps, sys1)
             | Some c \<Rightarrow>
                 (buf 4096 (buf 4096 (deps @ (if deps \<noteq> [] then '','' else [])) @ j_id c),
                  push_job (pa_push_ok pa) c (sched_log (Init_Dirs (j_id c)) sys1)))
      | _ \<Rightarrow> (deps, sys)))"

fun refine_zones :: "config \<Rightarrow> pass \<Rightarrow> job \<Rightarrow> nat \<Rightarrow> json list \<Rightarrow> string \<times> sched_sys \<Rightarrow> string \<times> sched_sys" where
  "refine_zones cfg pa job zi [] acc = acc"
| "refine_zones cfg pa job zi (z # zs) acc = refine_zones cfg pa job (Suc zi) zs (refine_zone cfg pa job zi z acc)"

definition hold_job :: "string \<Rightarrow> string \<Rightarrow> string \<Rightarrow> sched_sys \<Rightarrow> sched_sys" where
  "hold_job job_id deps reason sys =
     (let d1 = snd (db_update_depends_on job_id deps (sy_db sys));
          d2 = snd (db_update_job_status job_id JOB_STATUS_CREATED 0 0 d1)
      in sys\<lparr>sy_db := snd (db_update_status_reason job_id reason d2)\<rparr>)"

text \<open>A plan to refine: whether the job now waits for children.\<close>

definition refine_job :: "config \<Rightarrow> pass \<Rightarrow> job \<Rightarrow> string \<Rightarrow> sched_sys \<Rightarrow> bool \<times> sched_sys" where
  "refine_job cfg pa job plan sys =
     (case de_parse (pa_dc pa) plan of
        None \<Rightarrow> (False, sys)
      | Some tree \<Rightarrow>
          (case get_item tree ''zones'' of
             Some (JArray zs) \<Rightarrow>
               let (deps, sys1) = refine_zones cfg pa job 0 zs ([], sys) in
               if deps \<noteq> [] then (True, hold_job (j_id job) deps ''Waiting for refinement subjobs'' sys1)
               else (False, sys1)
           | _ \<Rightarrow> (False, sys)))"

subsection \<open>Held jobs\<close>

definition forward_parents :: "job \<Rightarrow> sched_sys \<Rightarrow> sched_sys" where
  "forward_parents job sys =
     foldl (\<lambda>s tok. if trim_spaces tok \<noteq> [] then sched_log (Forward_Outputs (trim_spaces tok) (j_id job)) s else s)
       (sched_log (Init_Dirs (j_id job)) sys) (strtok CHR '','' (buf 2048 (j_depends_on job)))"

text \<open>The decision after the outputs were forwarded; whatever it is, the job goes on.\<close>

definition decide_held :: "config \<Rightarrow> pass \<Rightarrow> job \<Rightarrow> sched_sys \<Rightarrow> sched_sys" where
  "decide_held cfg pa job sys =
     (let (ro, sys1) = sched_decide cfg pa job sys in
      case ro of
        None \<Rightarrow> sys1
      | Some res \<Rightarrow>
          let sys2 = (if dr_allocation_json res \<noteq> [] then set_reason (j_id job) (dr_allocation_json res) sys1 else sys1);
              job1 = raise_cores res job in
          if dr_action res = DC_ACTION_REFINE \<and> dr_allocation_json res \<noteq> [] then
            snd (refine_job cfg pa job1 (dr_allocation_json res) sys2)
          else if dr_action res = DC_ACTION_DEFER then set_reason (j_id job) ''Deferred by decision core'' sys2
          else if dr_action res = DC_ACTION_MIGRATE then set_reason (j_id job) ''Migration requested by decision core'' sys2
          else if dr_action res = DC_ACTION_RUN_COARSE_SIM then set_reason (j_id job) ''Strategy: run coarse simulation'' sys2
          else if dr_action res = DC_ACTION_RUN_FINE_SIM then set_reason (j_id job) ''Strategy: run fine simulation'' sys2
          else sys2)"

definition release_held :: "exec_env \<Rightarrow> pass \<Rightarrow> job \<Rightarrow> sched_sys \<Rightarrow> sched_sys" where
  "release_held env pa job sys =
     (if j_input_files job \<noteq> [] \<and>
         count_present_files (de_files (pa_dc pa)) (store_input_dir (cf_work_dir (xe_config env)) (j_id job) 512)
           (j_input_files job) < count_expected_files (j_input_files job) then sys
      else
        let (full, d) = db_get_job (j_id job) (sy_db sys); sys1 = sys\<lparr>sy_db := d\<rparr> in
        case full of
          None \<Rightarrow> sys1
        | Some f \<Rightarrow>
            let reason = buf 128 (if j_input_files job \<noteq> [] then ''Dependencies satisfied, all input files received''
                                  else ''All dependencies satisfied'');
                (r, f', sys2) = job_set_status_r (xe_print env) f JOB_STATUS_QUEUED (Some reason) sys1
            in push_job (pa_push_ok pa) f' sys2)"

definition check_held_job :: "exec_env \<Rightarrow> pass \<Rightarrow> job \<Rightarrow> sched_sys \<Rightarrow> sched_sys" where
  "check_held_job env pa job sys =
     (if j_depends_on job = [] then release_held env pa job sys
      else
        let (dep_status, d) = db_check_deps_status (j_depends_on job) (sy_db sys); sys1 = sys\<lparr>sy_db := d\<rparr> in
        if dep_status = -1 then
          set_reason (j_id job) ''Dependency failed or was cancelled''
            (sys1\<lparr>sy_db := snd (db_update_job_status (j_id job) JOB_STATUS_FAILED (-1) (sy_now sys1) (sy_db sys1))\<rparr>)
        else if dep_status = 1 then sys1
        else
          let sys2 = forward_parents job sys1;
              job' = job\<lparr>j_depends_on := []\<rparr>;
              sys3 = sys2\<lparr>sy_db := snd (db_update_depends_on (j_id job) [] (sy_db sys2))\<rparr>
          in release_held env pa job' (decide_held (xe_config env) pa job' sys3))"

definition scheduler_check_held_jobs :: "exec_env \<Rightarrow> bool \<Rightarrow> (nat \<Rightarrow> pass) \<Rightarrow> sched_sys \<Rightarrow> sched_sys" where
  "scheduler_check_held_jobs env calloc_ok pas sys =
     (let (jobs, d) = db_load_jobs_by_status calloc_ok JOB_STATUS_CREATED (sy_db sys) in
      case jobs of
        None \<Rightarrow> sys\<lparr>sy_db := d\<rparr>
      | Some js \<Rightarrow> foldl (\<lambda>s (i, j). check_held_job env (pas i) j s) (sys\<lparr>sy_db := d\<rparr>) (enumerate 0 js))"

subsection \<open>Timeouts\<close>

text \<open>The machine of a job that timed out, when it is a cloud machine that has become idle.\<close>

definition deprovision_idle :: "exec_env \<Rightarrow> string \<Rightarrow> sched_sys \<Rightarrow> sched_sys" where
  "deprovision_idle env machine_id sys =
     (if cf_experimental_features_enabled (xe_config env) = 0 \<or> cf_cloud_auto_deprovision (xe_config env) = 0 \<or>
         machine_id = [] then sys
      else case registry_get_copy (sy_reg sys) machine_id of
        None \<Rightarrow> sys
      | Some m \<Rightarrow>
          if m_type m = MACHINE_TYPE_CLOUD \<and> m_cores_reserved m \<le> 0 \<and> m_ram_mb_reserved m \<le> 0 then
            let (r, reg, cmds) = cloud_deprovision (xe_popen env) (m_cloud_provider m) (m_cloud_instance_id m) (sy_reg sys)
            in sys\<lparr>sy_reg := reg, sy_commands := sy_commands sys @ cmds\<rparr>
          else sys)"

definition timeout_reason :: "int \<Rightarrow> int \<Rightarrow> string" where
  "timeout_reason elapsed limit =
     buf 128 (''Timed out after '' @ dec elapsed @ '' seconds (limit='' @ dec limit @ '' s)'')"

definition check_timeout_job :: "exec_env \<Rightarrow> int \<Rightarrow> job \<Rightarrow> sched_sys \<Rightarrow> sched_sys" where
  "check_timeout_job env now job sys =
     (let limit = (if j_timeout_seconds job > 0 then j_timeout_seconds job
                   else cf_job_timeout_seconds (xe_config env));
          elapsed = now - j_started_at job in
      if limit \<le> 0 \<or> j_started_at job \<le> 0 \<or> elapsed < limit then sys
      else
        let reason = timeout_reason elapsed limit;
            (r, sys1) = executor_timeout env (j_id job) (Some reason) sys;
            sys2 = (if r \<noteq> 0 then
                      let d1 = snd (db_update_job_status (j_id job) JOB_STATUS_FAILED (-1) now (sy_db sys1));
                          d2 = snd (db_update_status_reason (j_id job) reason d1)
                      in snd (alloc_release (j_id job) (sys1\<lparr>sy_db := d2\<rparr>))
                    else sys1)
        in deprovision_idle env (j_machine_id job) sys2)"

definition scheduler_check_timeouts :: "exec_env \<Rightarrow> bool \<Rightarrow> sched_sys \<Rightarrow> sched_sys" where
  "scheduler_check_timeouts env calloc_ok sys =
     (let (jobs, d) = db_load_jobs_by_status calloc_ok JOB_STATUS_RUNNING (sy_db sys) in
      case jobs of
        None \<Rightarrow> sys\<lparr>sy_db := d\<rparr>
      | Some js \<Rightarrow> foldl (\<lambda>s j. check_timeout_job env (sy_now sys) j s) (sys\<lparr>sy_db := d\<rparr>) js)"

subsection \<open>One job of the queue\<close>

definition scheduler_dispatch :: "exec_env \<Rightarrow> pass \<Rightarrow> job \<Rightarrow> sched_sys \<Rightarrow> sched_sys" where
  "scheduler_dispatch env pa job sys =
     (let (current, d) = db_get_job (j_id job) (sy_db sys); sys1 = sys\<lparr>sy_db := d\<rparr> in
      case current of
        Some c \<Rightarrow> if j_status c = JOB_STATUS_QUEUED then snd (executor_spawn env (pa_os pa) (pa_fresh pa) job sys1)
                  else snd (alloc_release (j_id job) sys1)
      | None \<Rightarrow> snd (alloc_release (j_id job) sys1))"

definition dispatch_on :: "exec_env \<Rightarrow> pass \<Rightarrow> job \<Rightarrow> string \<Rightarrow> sched_sys \<Rightarrow> sched_sys" where
  "dispatch_on env pa job detail sys =
     scheduler_dispatch env pa job
       (record_event env ''job'' ''dispatch'' (buf 256 detail) (j_user_id job) (j_id job) (j_machine_id job) sys)"

text \<open>\<open>True\<close> when the pass ends here.\<close>

definition affinity :: "exec_env \<Rightarrow> pass \<Rightarrow> job \<Rightarrow> sched_sys \<Rightarrow> bool \<times> sched_sys" where
  "affinity env pa job sys =
     (if j_same_machine_as job = [] then (False, sys)
      else
        let (ref, d) = db_get_job (j_same_machine_as job) (sy_db sys); sys1 = sys\<lparr>sy_db := d\<rparr> in
        case ref of
          None \<Rightarrow> (False, sys1)
        | Some ref \<Rightarrow>
            if j_machine_id ref = [] then
              (True, push_job (pa_push_ok pa) job
                 (set_reason (j_id job) ''Waiting for affinity target job to be assigned a machine'' sys1))
            else
              let (r, sys2) = alloc_reserve_on (pa_realloc_ok pa) (j_id job) (j_machine_id ref) (j_req_cores job)
                                (j_req_gpu job) (j_req_ram_mb job) (j_req_disk_mb job) sys1 in
              if r = 0 then
                let job' = job\<lparr>j_machine_id := buf 64 (j_machine_id ref)\<rparr>
                in (True, dispatch_on env pa job'
                      (''Dispatched to '' @ j_machine_id job' @ '' (same-machine as '' @ j_same_machine_as job @ '')'') sys2)
              else
                (True, push_job (pa_push_ok pa) job
                   (set_reason (j_id job) ''Waiting for resources on pinned machine (same-machine affinity)'' sys2)))"

text \<open>\<open>PRESIM_SOLVER_CMD\<close> with its placeholders replaced, in what is left of the buffer.\<close>

function expand_cmd :: "(string \<times> string) list \<Rightarrow> nat \<Rightarrow> string \<Rightarrow> string" where
  "expand_cmd keys left src =
     (if src = [] \<or> left = 0 then []
      else case find (\<lambda>(k, v). k \<noteq> [] \<and> take (length k) src = k) keys of
        Some (k, v) \<Rightarrow> if length v > left then take left v
                       else v @ expand_cmd keys (left - length v) (drop (length k) src)
      | None \<Rightarrow> hd src # expand_cmd keys (left - 1) (tl src))"
  by auto
termination
proof (relation "measure (\<lambda>(keys, left, src). length src)", goal_cases)
  case (3 keys left src kv k v)
  then have "k \<noteq> []" by (auto simp: find_Some_iff)
  then show ?case using 3 by (cases src; cases k) auto
qed auto

declare expand_cmd.simps [simp del]

definition presim_triggered :: "config \<Rightarrow> pass \<Rightarrow> job \<Rightarrow> bool" where
  "presim_triggered cfg pa job \<longleftrightarrow>
     cf_experimental_features_enabled cfg \<noteq> 0 \<and> de_files (pa_dc pa) (presim_path cfg (j_id job)) = None \<and>
     cf_presim_domains cfg \<noteq> [] \<and>
     (\<exists>tok \<in> set (strtok CHR '','' (buf 256 (cf_presim_domains cfg))). strcmp (trim_local tok) (j_app_id job) = 0)"

definition presim_cmd :: "config \<Rightarrow> pass \<Rightarrow> job \<Rightarrow> string" where
  "presim_cmd cfg pa job =
     (let path = presim_path cfg (j_id job);
          solver = buf 512 (''tools/python_solvers/'' @ j_app_id job @ ''_presim.py'') in
      case pa_solver_cmd pa of
        Some cmd \<Rightarrow>
          if cmd \<noteq> [] then expand_cmd [(''{parent}'', j_id job), (''{out}'', path), (''{domain}'', j_app_id job),
             (''{input_dir}'', store_input_dir (cf_work_dir cfg) (j_id job) 512)] 1023 cmd
          else buf 1024 (''python3 '' @ solver @ '' --parent '' @ j_id job @ '' --out '' @ path)
      | None \<Rightarrow> buf 1024 (''python3 '' @ solver @ '' --parent '' @ j_id job @ '' --out '' @ path))"

definition presim :: "config \<Rightarrow> pass \<Rightarrow> job \<Rightarrow> sched_sys \<Rightarrow> bool \<times> sched_sys" where
  "presim cfg pa job sys =
     (if \<not> presim_triggered cfg pa job then (False, sys)
      else
        let (child, sys1) = job_create_ex (fst (pa_child pa 0)) (snd (pa_child pa 0)) (cf_work_dir cfg)
              (presim_cmd cfg pa job) (j_priority job + 5) 1 0 0 0 (Some (j_user_id job)) (Some ''presim'') sys in
        case child of
          None \<Rightarrow> (False, sys1)
        | Some c \<Rightarrow>
            (True, hold_job (j_id job) (j_id c) ''Waiting for presim subjob''
                     (push_job (pa_push_ok pa) c (sched_log (Init_Dirs (j_id c)) sys1))))"

text \<open>The decision core on a job about to run: whether the pass ends, and the job with its cores raised.\<close>

definition decide_queued :: "config \<Rightarrow> pass \<Rightarrow> job \<Rightarrow> sched_sys \<Rightarrow> bool \<times> job \<times> sched_sys" where
  "decide_queued cfg pa job sys =
     (if cf_experimental_features_enabled cfg = 0 then (False, job, sys)
      else
        let (ro, sys1) = sched_decide cfg pa job sys in
        case ro of
          None \<Rightarrow> (False, job, sys1)
        | Some res \<Rightarrow>
            let sys2 = (if dr_allocation_json res \<noteq> [] then set_reason (j_id job) (dr_allocation_json res) sys1 else sys1);
                job1 = raise_cores res job;
                (held, sys3) = (if dr_action res = DC_ACTION_REFINE \<and> dr_allocation_json res \<noteq> []
                                then refine_job cfg pa job1 (dr_allocation_json res) sys2 else (False, sys2)) in
            if held then (True, job1, sys3)
            else if dr_action res = DC_ACTION_DEFER then
              (True, job1, push_job (pa_push_ok pa) job1 (set_reason (j_id job) ''Deferred by decision core'' sys3))
            else if dr_action res = DC_ACTION_MIGRATE then
              (True, job1, push_job (pa_push_ok pa) job1
                 (set_reason (j_id job) ''Migration requested by decision core'' sys3))
            else if dr_action res = DC_ACTION_RUN_COARSE_SIM then
              (False, job1, set_reason (j_id job) ''Strategy: run coarse simulation'' sys3)
            else if dr_action res = DC_ACTION_RUN_FINE_SIM then
              (False, job1, set_reason (j_id job) ''Strategy: run fine simulation'' sys3)
            else (False, job1, sys3))"

definition auto_spec :: "config \<Rightarrow> job \<Rightarrow> cloud_spec" where
  "auto_spec cfg job =
     \<lparr> cs_provider = buf 32 (cf_cloud_default_provider cfg),
       cs_instance_type = buf 64 (cf_cloud_default_instance_type cfg),
       cs_region = buf 64 (cf_cloud_default_region cfg), cs_image_id = buf 128 (cf_cloud_default_image_id cfg),
       cs_cores = j_req_cores job, cs_gpu_count = j_req_gpu job, cs_ram_mb = j_req_ram_mb job,
       cs_disk_mb = j_req_disk_mb job, cs_tags = [], cs_cores_min = 0, cs_ram_mb_min = 0, cs_disk_mb_min = 0 \<rparr>"

text \<open>No machine fits: provision one, once for each job, or say why the job waits.\<close>

definition wait_for_machine :: "exec_env \<Rightarrow> pass \<Rightarrow> job \<Rightarrow> sched_sys \<Rightarrow> sched_sys" where
  "wait_for_machine env pa job sys =
     (let cfg = xe_config env in
      if cf_experimental_features_enabled cfg \<noteq> 0 \<and> cf_cloud_auto_provision cfg \<noteq> 0 \<and>
         cf_cloud_default_provider cfg \<noteq> [] \<and> \<not> auto_prov_already_tried (sy_auto_prov_jobs sys) (j_id job) then
        let sys1 = sys\<lparr>sy_auto_prov_jobs := auto_prov_mark (j_id job) (sy_auto_prov_jobs sys)\<rparr>;
            (r, new_mid, reg, cmds) = cloud_provision (xe_popen env) (sy_now sys) (auto_spec cfg job) 128 (sy_reg sys1);
            sys2 = sys1\<lparr>sy_reg := reg, sy_commands := sy_commands sys1 @ cmds\<rparr>;
            sys3 = (if r = 0 then
                      record_event env ''cloud'' ''auto_provision''
                        (buf 256 (''Auto-provisioned '' @ new_mid @ '' for job '' @ j_id job))
                        (j_user_id job) (j_id job) new_mid sys2
                    else sys2)
        in push_job (pa_push_ok pa) job sys3
      else
        push_job (pa_push_ok pa) job
          (set_reason (j_id job) (alloc_diagnose (pa_snapshot_ok pa) (j_req_cores job) (j_req_gpu job)
             (j_req_ram_mb job) (j_req_disk_mb job) 256 sys) sys))"

definition place_job :: "exec_env \<Rightarrow> pass \<Rightarrow> job \<Rightarrow> sched_sys \<Rightarrow> sched_sys" where
  "place_job env pa job sys =
     (if \<not> alloc_can_fit (pa_snapshot_ok pa) (j_req_cores job) (j_req_gpu job) (j_req_ram_mb job) (j_req_disk_mb job) sys
      then wait_for_machine env pa job sys
      else
        let (mo, sys1) = alloc_reserve (pa_snapshot_ok pa) (pa_realloc_ok pa) (j_id job) (j_req_cores job)
                           (j_req_gpu job) (j_req_ram_mb job) (j_req_disk_mb job) sys in
        case mo of
          None \<Rightarrow> push_job (pa_push_ok pa) job sys1
        | Some machine_id \<Rightarrow>
            if (case registry_get_copy (sy_reg sys1) machine_id of
                  Some m \<Rightarrow> m_type m = MACHINE_TYPE_STATIC \<and> m_probe_status m = MACHINE_OFFLINE
                | None \<Rightarrow> False)
            then push_job (pa_push_ok pa) job (snd (alloc_release (j_id job) sys1))
            else
              let job' = job\<lparr>j_machine_id := buf 64 machine_id\<rparr>
              in dispatch_on env pa job' (''Dispatched to worker '' @ j_machine_id job') sys1)"

definition scan_job :: "exec_env \<Rightarrow> pass \<Rightarrow> job \<Rightarrow> sched_sys \<Rightarrow> sched_sys" where
  "scan_job env pa job sys =
     (let (persisted, d) = db_get_job (j_id job) (sy_db sys); sys1 = sys\<lparr>sy_db := d\<rparr> in
      case persisted of
        None \<Rightarrow> sys1
      | Some p \<Rightarrow>
          if j_status p \<noteq> JOB_STATUS_QUEUED then sys1
          else
            let (quota, d2) = db_quota_check (j_user_id job) (j_app_id job) (j_req_cores job) (j_req_ram_mb job) 256 d;
                sys2 = sys1\<lparr>sy_db := d2\<rparr> in
            case quota of
              Inl reason \<Rightarrow> push_job (pa_push_ok pa) job (set_reason (j_id job) reason sys2)
            | Inr _ \<Rightarrow>
                let (stop3, sys3) = affinity env pa job sys2 in
                if stop3 then sys3
                else
                  let (stop4, sys4) = presim (xe_config env) pa job sys3 in
                  if stop4 then sys4
                  else
                    let (stop5, job5, sys5) = decide_queued (xe_config env) pa job sys4 in
                    if stop5 then sys5 else place_job env pa job5 sys5)"

subsection \<open>The thread\<close>

text \<open>At most the jobs present at the beginning of the tick, while the scheduler runs.\<close>

fun scan_loop :: "exec_env \<Rightarrow> pass list \<Rightarrow> sched_sys \<Rightarrow> sched_sys" where
  "scan_loop env [] sys = sys"
| "scan_loop env (pa # pas) sys =
     (if \<not> sy_running sys then sys
      else case sy_queue sys of
        None \<Rightarrow> sys
      | Some q \<Rightarrow>
          (case queue_try_pop q of
             None \<Rightarrow> sys
           | Some (job, q') \<Rightarrow> scan_loop env pas (scan_job env pa job (sys\<lparr>sy_queue := Some q'\<rparr>))))"

text \<open>One iteration of \<open>while (s_running)\<close>; every tenth also checks held jobs and timeouts.\<close>

definition scheduler_tick ::
  "exec_env \<Rightarrow> nat \<Rightarrow> bool \<Rightarrow> (nat \<Rightarrow> pass) \<Rightarrow> (nat \<Rightarrow> pass) \<Rightarrow> sched_sys \<Rightarrow> sched_sys" where
  "scheduler_tick env tick calloc_ok held_pas pas sys =
     (let sys1 = (if tick mod 10 = 0
                  then scheduler_check_timeouts env calloc_ok (scheduler_check_held_jobs env calloc_ok held_pas sys)
                  else sys);
          jobs_to_scan = (case sy_queue sys1 of None \<Rightarrow> 0 | Some q \<Rightarrow> nat (queue_size q))
      in scan_loop env (map pas [0..<jobs_to_scan]) sys1)"

subsection \<open>Start-up, shutdown and cancellation\<close>

text \<open>\<open>decision_core_init\<close> and \<open>decision_core_shutdown\<close> set and reset a flag.\<close>

definition decision_core_init :: "sched_sys \<Rightarrow> int \<times> sched_sys" where
  "decision_core_init sys = (0, sys\<lparr>sy_dc_initialized := True\<rparr>)"

definition decision_core_shutdown :: "sched_sys \<Rightarrow> sched_sys" where
  "decision_core_shutdown sys = sys\<lparr>sy_dc_initialized := False\<rparr>"

definition fail_restore :: "int \<Rightarrow> string \<Rightarrow> string \<Rightarrow> db \<Rightarrow> db" where
  "fail_restore now job_id reason d =
     snd (db_update_status_reason job_id reason (snd (db_update_job_status job_id JOB_STATUS_FAILED (-1) now d)))"

fun restore_jobs :: "(nat \<Rightarrow> bool \<times> bool) \<Rightarrow> nat \<Rightarrow> job list \<Rightarrow> sched_sys \<Rightarrow> sched_sys" where
  "restore_jobs mem i [] sys = sys"
| "restore_jobs mem i (job # jobs) sys =
     restore_jobs mem (Suc i) jobs
       (if \<not> fst (mem i) then
          sys\<lparr>sy_db := fail_restore (sy_now sys) (j_id job) ''Out of memory during startup recovery'' (sy_db sys)\<rparr>
        else
          let (r, q) = queue_push (snd (mem i)) (sy_queue sys) (Some job); sys1 = sys\<lparr>sy_queue := q\<rparr> in
          if r \<noteq> 0 then
            sys1\<lparr>sy_db := fail_restore (sy_now sys) (j_id job) ''Failed to restore scheduler queue'' (sy_db sys1)\<rparr>
          else sys1)"

text \<open>\<open>mem i\<close>: whether memory for job \<open>i\<close> and for the growth of the queue is granted.\<close>

definition scheduler_init :: "bool \<Rightarrow> bool \<Rightarrow> (nat \<Rightarrow> bool \<times> bool) \<Rightarrow> sched_sys \<Rightarrow> sched_sys" where
  "scheduler_init create_ok calloc_ok mem sys =
     (case queue_create create_ok 64 of
        None \<Rightarrow> sys\<lparr>sy_queue := None\<rparr>
      | Some q \<Rightarrow>
          let (interrupted, d1) = db_recover_after_restart (sy_now sys) (sy_db sys);
              (jobs, d2) = db_load_jobs_by_status calloc_ok JOB_STATUS_QUEUED d1;
              sys1 = sys\<lparr>sy_queue := Some q, sy_db := d2\<rparr>;
              sys2 = (case jobs of None \<Rightarrow> sys1 | Some js \<Rightarrow> restore_jobs mem 0 js sys1)
          in snd (decision_core_init sys2))"

definition scheduler_start :: "bool \<Rightarrow> sched_sys \<Rightarrow> sched_sys" where
  "scheduler_start thread_ok sys =
     (if sy_queue sys = None \<or> sy_thread_started sys then sys
      else if \<not> thread_ok then sys\<lparr>sy_running := False\<rparr>
      else sys\<lparr>sy_running := True, sy_thread_started := True\<rparr>)"

text \<open>\<open>scheduler_stop\<close> up to the wait of \<open>executor_shutdown\<close> for the executions, and after it.\<close>

definition scheduler_stop_request :: "exec_env \<Rightarrow> sched_sys \<Rightarrow> sched_sys" where
  "scheduler_stop_request env sys =
     executor_shutdown env (sys\<lparr>sy_running := False, sy_thread_started := False,
       sy_queue := map_option queue_shutdown (sy_queue sys)\<rparr>)"

definition scheduler_stop_finish :: "sched_sys \<Rightarrow> job list \<times> sched_sys" where
  "scheduler_stop_finish sys =
     (let freed = (case sy_queue sys of None \<Rightarrow> [] | Some q \<Rightarrow> fst (queue_drain q))
      in (freed, decision_core_shutdown (alloc_shutdown (sys\<lparr>sy_queue := None\<rparr>))))"

definition scheduler_cancel_job ::
  "exec_env \<Rightarrow> string option \<Rightarrow> string option \<Rightarrow> sched_sys \<Rightarrow> int \<times> sched_sys" where
  "scheduler_cancel_job env job_id reason sys =
     (let why = Some (case reason of None \<Rightarrow> ''Cancelled'' | Some r \<Rightarrow> r) in
      case job_id of
        None \<Rightarrow> (-1, sys)
      | Some [] \<Rightarrow> (-1, sys)
      | Some jid \<Rightarrow>
          (case queue_remove_by_id (sy_queue sys) (Some jid) of
             (Some queued, q) \<Rightarrow>
               let (r, job', sys1) = job_set_status_r (xe_print env) queued JOB_STATUS_CANCELLED why
                                       (sys\<lparr>sy_queue := q\<rparr>)
               in (r, sys1)
           | (None, q) \<Rightarrow>
               let (r, sys1) = executor_cancel env jid why sys in
               if r = 0 then (0, sys1)
               else
                 let (jo, d) = db_get_job jid (sy_db sys1); sys2 = sys1\<lparr>sy_db := d\<rparr> in
                 case jo of
                   None \<Rightarrow> (-1, sys2)
                 | Some job \<Rightarrow>
                     if j_status job = JOB_STATUS_CREATED \<or> j_status job = JOB_STATUS_QUEUED then
                       let (r2, job', sys3) = job_set_status_r (xe_print env) job JOB_STATUS_CANCELLED why sys2
                       in (r2, sys3)
                     else (-1, sys2)))"

end
