(* ===== verification/Scheduling.thy ===== *)
theory Scheduling
  imports Scheduler
begin

text \<open>
  What the scheduler guarantees: a pass over one job keeps every invariant of the queue, the
  allocator and the executor and loses no other job; start-up restores exactly the queued jobs;
  cancellation and timeouts reach exactly the jobs they should.
\<close>

section \<open>Calm steps\<close>

definition sched_ok :: "sched_sys \<Rightarrow> bool" where
  "sched_ok s \<longleftrightarrow> alloc_ok s \<and> ptrs_ok s \<and> (\<forall>q. sy_queue s = Some q \<longrightarrow> queue_ok q)"

text \<open>The waiting jobs of one state are still waiting in the other.\<close>

definition jobs_kept :: "sched_sys \<Rightarrow> sched_sys \<Rightarrow> bool" where
  "jobs_kept s s' \<longleftrightarrow> (\<forall>q. sy_queue s = Some q \<and> queue_ok q \<longrightarrow>
     (\<exists>q'. sy_queue s' = Some q' \<and> mset (q_heap q) \<subseteq># mset (q_heap q') \<and> q_shutdown q' = q_shutdown q))"

text \<open>
  A step that starts and reserves nothing: executions and reservations stay, the invariants hold, no
  job is lost.
\<close>

definition calm :: "sched_sys \<Rightarrow> sched_sys \<Rightarrow> bool" where
  "calm s s' \<longleftrightarrow> sy_active s' = sy_active s \<and> sy_allocs s' = sy_allocs s \<and> (sched_ok s \<longrightarrow> sched_ok s') \<and>
     (sched_ok s \<longrightarrow> jobs_kept s s')"

lemma calm_refl [simp]: "calm s s"
  by (simp add: calm_def jobs_kept_def)

lemma calm_trans [trans]: "calm s t \<Longrightarrow> calm t u \<Longrightarrow> calm s u"
proof -
  assume a: "calm s t" "calm t u"
  have "jobs_kept s u" if "sched_ok s"
  proof -
    have "jobs_kept s t" "jobs_kept t u" "sched_ok t" using a that by (auto simp: calm_def)
    then show ?thesis unfolding jobs_kept_def sched_ok_def by (meson subset_mset.order_trans)
  qed
  then show ?thesis using a by (simp add: calm_def)
qed

lemma calm_find: "calm s t \<Longrightarrow> find_execution p t = find_execution p s"
  by (simp add: calm_def find_execution_def)

lemma calmI:
  assumes "sy_active s' = sy_active s" "sy_allocs s' = sy_allocs s" "sy_queue s' = sy_queue s" "alloc_ok s \<Longrightarrow> alloc_ok s'"
  shows "calm s s'"
  using assms by (auto simp: calm_def sched_ok_def jobs_kept_def ptrs_ok_def)

lemma calm_db: "(db_idle (sy_db s) \<Longrightarrow> db_idle d) \<Longrightarrow> calm s (s\<lparr>sy_db := d\<rparr>)"
  by (rule calmI) (auto simp: alloc_ok_def)

lemma calm_log: "calm s (sched_log x s)" "calm s (s\<lparr>sy_dc_initialized := b\<rparr>)" "calm s (s\<lparr>sy_auto_prov_jobs := js\<rparr>)"
  by (auto intro!: calmI simp: sched_log_def alloc_ok_def)

lemma idle_update_job: "db_idle d \<Longrightarrow> db_idle (snd (update_job j f d))"
  by (metis db_idle_update_job prod.collapse)

lemma idle_updates:
  assumes "db_idle d"
  shows "db_idle (snd (db_update_status_reason j r d))" "db_idle (snd (db_update_job_status j st e t d))"
    "db_idle (snd (db_update_depends_on j ds d))"
  using assms by (simp_all add: db_update_status_reason_def db_update_job_status_def db_update_depends_on_def idle_update_job)

lemma idle_get_job: "db_idle d \<Longrightarrow> db_get_job j d = (r, d') \<Longrightarrow> db_idle d'"
  unfolding db_get_job_def by (rule db_idle_read)

lemma calm_set_reason: "calm s (set_reason j r s)"
  unfolding set_reason_def by (rule calm_db) (rule idle_updates)

lemma calm_get_job: "db_get_job j (sy_db s) = (r, d) \<Longrightarrow> calm s (s\<lparr>sy_db := d\<rparr>)"
  by (rule calm_db) (rule idle_get_job)

lemma calm_push: "calm s (push_job ok job s)"
proof (cases "sy_queue s")
  case None
  then show ?thesis by (simp add: push_job_def calm_def jobs_kept_def sched_ok_def alloc_ok_def ptrs_ok_def)
next
  case (Some q)
  let ?q = "snd (push_locked ok q job)"
  have s': "push_job ok job s = s\<lparr>sy_queue := Some ?q\<rparr>" using Some by (simp add: push_job_def split: prod.splits)
  have "queue_ok ?q \<and> mset (q_heap q) \<subseteq># mset (q_heap ?q) \<and> q_shutdown ?q = q_shutdown q" if "queue_ok q"
    using push_locked_spec [OF that, of ok job] by (auto split: if_splits)
  then show ?thesis using Some unfolding s'
    by (auto simp: calm_def jobs_kept_def sched_ok_def alloc_ok_def ptrs_ok_def)
qed

lemma idle_event: "db_idle d \<Longrightarrow> events_push_persistent pr now c t dt u (d, r) = (d', r') \<Longrightarrow> db_idle d'"
  by (auto simp: events_push_persistent_def db_insert_event_idle)

lemma calm_record_event: "calm s (record_event env c t dt u j m s)"
proof -
  obtain d ring where e: "events_push_persistent (xe_print env) (sy_now s) (Some c) (Some t) (Some dt) (Some u)
      (sy_db s, sy_ring s) = (d, ring)" by force
  show ?thesis using idle_event [OF _ e] db_insert_event_idle
    by (auto intro!: calmI simp: record_event_def e alloc_ok_def)
qed

lemma calm_status:
  assumes "job_set_status_r pr job st reason s = (r, job', s')"
  shows "calm s s'"
proof (cases "transition_allowed (j_status job) st")
  case True
  have "sy_queue s' = sy_queue s" using assms True by (auto simp: job_set_status_r_def Let_def)
  then show ?thesis using job_set_status_r_quiet [OF assms] by (intro calmI) (auto simp: quiet_def)
next
  case False
  then show ?thesis using assms by (simp add: job_set_status_r_refused)
qed

lemma idle_insert_job: "db_idle d \<Longrightarrow> db_insert_job job d = (r, d') \<Longrightarrow> db_idle d'"
  unfolding db_insert_job_def by (rule db_idle_run)

lemma calm_create:
  assumes "job_create_ex ok e w cmd pr c g ram disk u a s = (out, s')"
  shows "calm s s'"
proof -
  let ?job = "new_job w (job_new_id e) cmd pr c g ram disk u a (sy_now s)"
  obtain r d where d: "db_insert_job ?job (sy_db s) = (r, d)" by force
  have "s' = (if ok then s\<lparr>sy_db := d\<rparr> else s)" using assms d by (auto simp: job_create_ex_def Let_def split: if_splits)
  moreover have "calm s (s\<lparr>sy_db := d\<rparr>)" by (rule calm_db) (rule idle_insert_job [OF _ d])
  ultimately show ?thesis by simp
qed

lemma calm_hold: "calm s (hold_job j ds r s)"
  unfolding hold_job_def Let_def by (rule calm_db) (intro idle_updates)

section \<open>The decision core and its children\<close>

lemma idle_decide: "db_idle d \<Longrightarrow> decision_core_decide cfg e c d = (r, d') \<Longrightarrow> db_idle d'"
  by (auto simp: decision_core_decide_def Let_def dest: idle_get_job split: option.splits prod.splits if_splits)

lemma calm_decide:
  assumes "sched_decide cfg pa job s = (r, s')"
  shows "calm s s'"
proof -
  obtain ro d where d: "decision_core_decide cfg (pa_dc pa) (Some (sched_context pa job s)) (sy_db s) = (ro, d)" by force
  have s': "s' = s\<lparr>sy_db := d, sy_dc_initialized := True\<rparr>" using assms d by (simp add: sched_decide_def)
  have "calm s (s\<lparr>sy_db := d\<rparr>)" by (rule calm_db) (rule idle_decide [OF _ d])
  also have "calm (s\<lparr>sy_db := d\<rparr>) s'" unfolding s' by (rule calm_log)
  finally show ?thesis .
qed

lemma calm_refine_zone: "refine_zone cfg pa job zi z (deps, s) = (deps', s') \<Longrightarrow> calm s s'"
proof -
  assume run: "refine_zone cfg pa job zi z (deps, s) = (deps', s')"
  define cmd where "cmd = refine_cmd job (int_item z ''zone'' (int zi)) (int_item z ''fidelity'' 1)"
  define reqc where "reqc = (if int_item z ''req_cores'' 0 > 0 then int_item z ''req_cores'' 0 else 1)"
  obtain child s1 where c: "job_create_ex (fst (pa_child pa zi)) (snd (pa_child pa zi)) (cf_work_dir cfg) cmd
      (j_priority job + 5) reqc (j_req_gpu job) (j_req_ram_mb job) (j_req_disk_mb job) (Some (j_user_id job))
      (Some (j_app_id job)) s = (child, s1)" by force
  have "s' = s \<or> s' = s1 \<or> (\<exists>c. s' = push_job (pa_push_ok pa) c (sched_log (Init_Dirs (j_id c)) s1))"
    using run c unfolding refine_zone_def cmd_def reqc_def Let_def
    by (auto split: json.splits if_splits option.splits)
  moreover have "calm s (push_job (pa_push_ok pa) c (sched_log x s1))" for c x
    by (rule calm_trans [OF calm_trans [OF calm_create [OF c] calm_log(1)] calm_push])
  ultimately show ?thesis using calm_create [OF c] by (elim disjE exE) simp_all
qed

lemma calm_refine_zones: "refine_zones cfg pa job zi zs (deps, s) = (deps', s') \<Longrightarrow> calm s s'"
proof (induction zs arbitrary: zi deps s)
  case (Cons z zs)
  obtain d1 s1 where 1: "refine_zone cfg pa job zi z (deps, s) = (d1, s1)" by force
  then show ?case using Cons.IH [of "Suc zi" d1 s1] Cons.prems calm_refine_zone [OF 1] calm_trans by simp
qed simp

lemma calm_refine_job:
  assumes "refine_job cfg pa job pl s = (waits, s')"
  shows "calm s s'"
proof -
  have z: "calm s s1" if "refine_zones cfg pa job 0 zs ([], s) = (deps, s1)" for zs deps s1
    using calm_refine_zones [OF that] .
  have "s' = s \<or> (\<exists>zs deps s1. refine_zones cfg pa job 0 zs ([], s) = (deps, s1) \<and>
      (s' = s1 \<or> s' = hold_job (j_id job) deps ''Waiting for refinement subjobs'' s1))"
    using assms unfolding refine_job_def Let_def
    by (auto split: option.splits json.splits prod.splits if_splits)
  then show ?thesis
  proof (elim disjE exE conjE)
    fix zs deps s1 assume r: "refine_zones cfg pa job 0 zs ([], s) = (deps, s1)"
      and s': "s' = hold_job (j_id job) deps ''Waiting for refinement subjobs'' s1"
    show "calm s s'" unfolding s' by (rule calm_trans [OF z [OF r] calm_hold])
  qed (simp_all add: z)
qed

section \<open>The stages of a pass\<close>

lemma calm_decide_queued:
  assumes "decide_queued cfg pa job s = (stop, job', s')"
  shows "calm s s' \<and> j_id job' = j_id job \<and> j_req_gpu job' = j_req_gpu job \<and> j_req_ram_mb job' = j_req_ram_mb job \<and>
    j_req_disk_mb job' = j_req_disk_mb job \<and> (int32 (j_req_cores job) \<longrightarrow> int32 (j_req_cores job'))"
proof -
  obtain ro s1 where 1: "sched_decide cfg pa job s = (ro, s1)" by force
  note c1 = calm_decide [OF 1]
  show ?thesis
  proof (cases "cf_experimental_features_enabled cfg = 0 \<or> ro = None")
    case True
    then show ?thesis using assms 1 c1 by (auto simp: decide_queued_def split: if_splits)
  next
    case False
    then obtain res where res: "ro = Some res" by blast
    define s2 where "s2 = (if dr_allocation_json res \<noteq> [] then set_reason (j_id job) (dr_allocation_json res) s1 else s1)"
    define job1 where "job1 = raise_cores res job"
    obtain waits s3 where 3: "(if dr_action res = DC_ACTION_REFINE \<and> dr_allocation_json res \<noteq> []
        then refine_job cfg pa job1 (dr_allocation_json res) s2 else (False, s2)) = (waits, s3)" by force
    have c3: "calm s s3"
    proof -
      have "calm s1 s2" by (simp add: s2_def calm_set_reason)
      moreover have "calm s2 s3" using 3 calm_refine_job by (auto split: if_splits)
      ultimately show ?thesis using c1 calm_trans by blast
    qed
    have "job' = job1 \<and> (s' = s3 \<or> (\<exists>r. s' = set_reason (j_id job) r s3) \<or>
        (\<exists>r. s' = push_job (pa_push_ok pa) job1 (set_reason (j_id job) r s3)))"
      using assms False unfolding decide_queued_def 1 prod.case Let_def res option.case
      unfolding s2_def [symmetric] job1_def [symmetric] unfolding 3 prod.case
      by (auto split: if_splits)
    moreover have "int32 (sint (dr_target_cores res))"
      using sint_range_size [of "dr_target_cores res"] by (simp add: int32_def word_size)
    ultimately show ?thesis
      using c3 calm_trans [OF c3 calm_set_reason] calm_trans [OF calm_trans [OF c3 calm_set_reason] calm_push]
      by (auto simp: job1_def raise_cores_def)
  qed
qed

lemma calm_presim: "presim cfg pa job s = (stop, s') \<Longrightarrow> calm s s'"
proof -
  assume run: "presim cfg pa job s = (stop, s')"
  obtain child s1 where c: "job_create_ex (fst (pa_child pa 0)) (snd (pa_child pa 0)) (cf_work_dir cfg)
      (presim_cmd cfg pa job) (j_priority job + 5) 1 0 0 0 (Some (j_user_id job)) (Some ''presim'') s = (child, s1)" by force
  have "s' = s \<or> s' = s1 \<or> (\<exists>c. s' = hold_job (j_id job) (j_id c) ''Waiting for presim subjob''
      (push_job (pa_push_ok pa) c (sched_log (Init_Dirs (j_id c)) s1)))"
    using run c by (auto simp: presim_def split: if_splits option.splits)
  moreover have "calm s (hold_job j ds r (push_job (pa_push_ok pa) c (sched_log x s1)))" for j ds r c x
    by (rule calm_trans [OF calm_trans [OF calm_trans [OF calm_create [OF c] calm_log(1)] calm_push] calm_hold])
  ultimately show ?thesis using calm_create [OF c] by (elim disjE exE) simp_all
qed

lemma calm_provision:
  assumes c: "cloud_provision pop now spec n (sy_reg s) = (r, out, reg, cmds)" and "spec_fits spec"
  shows "calm s (s\<lparr>sy_reg := reg, sy_commands := cs\<rparr>)"
proof (rule calmI)
  assume ok: "alloc_ok s"
  then have r: "registry_ok (sy_reg s)" by (simp add: alloc_ok_def)
  have "registry_ok reg \<and> rs.used reg = rs.used (sy_reg s)"
    using cloud_provision_cases [OF c] registry_upsert_ok [OF r cloud_machine_config [OF assms(2)]]
      used_upsert [OF r cloud_machine_config [OF assms(2)]] r by blast
  then show "alloc_ok (s\<lparr>sy_reg := reg, sy_commands := cs\<rparr>)" using ok by (simp add: alloc_ok_def)
qed simp_all

definition job_fits :: "job \<Rightarrow> bool" where
  "job_fits job \<longleftrightarrow> length (j_id job) < JOB_ID_LEN \<and> int32 (j_req_cores job) \<and> int32 (j_req_gpu job) \<and>
     int32 (j_req_ram_mb job) \<and> int32 (j_req_disk_mb job)"

lemma wait_cases:
  assumes fits: "job_fits job"
  obtains t where "calm s t" "wait_for_machine env pa job s = push_job (pa_push_ok pa) job t"
proof -
  let ?s1 = "s\<lparr>sy_auto_prov_jobs := auto_prov_mark (j_id job) (sy_auto_prov_jobs s)\<rparr>"
  obtain r mid reg cmds where c: "cloud_provision (xe_popen env) (sy_now s) (auto_spec (xe_config env) job) 128 (sy_reg ?s1) =
      (r, mid, reg, cmds)" by (metis prod_cases4)
  have "spec_fits (auto_spec (xe_config env) job)" using fits by (simp add: auto_spec_def spec_fits_def job_fits_def)
  from calm_provision [OF c this]
  have 2: "calm s (?s1\<lparr>sy_reg := reg, sy_commands := sy_commands ?s1 @ cmds\<rparr>)"
    by (rule calm_trans [OF calm_log(3)])
  have "(\<exists>t. calm s t \<and> wait_for_machine env pa job s = push_job (pa_push_ok pa) job t)"
  proof (cases "cf_experimental_features_enabled (xe_config env) \<noteq> 0 \<and> cf_cloud_auto_provision (xe_config env) \<noteq> 0 \<and>
      cf_cloud_default_provider (xe_config env) \<noteq> [] \<and> \<not> auto_prov_already_tried (sy_auto_prov_jobs s) (j_id job)")
    case True
    let ?s2 = "?s1\<lparr>sy_reg := reg, sy_commands := sy_commands ?s1 @ cmds\<rparr>"
    have "wait_for_machine env pa job s = push_job (pa_push_ok pa) job
        (if r = 0 then record_event env ''cloud'' ''auto_provision''
           (buf 256 (''Auto-provisioned '' @ mid @ '' for job '' @ j_id job)) (j_user_id job) (j_id job) mid ?s2 else ?s2)"
      using True c unfolding wait_for_machine_def Let_def by simp
    moreover have "calm s (if r = 0 then record_event env a b d e f g ?s2 else ?s2)" for a b d e f g
      using 2 calm_trans [OF 2 calm_record_event] by simp
    ultimately show ?thesis by blast
  next
    case False
    then show ?thesis using calm_set_reason unfolding wait_for_machine_def Let_def by auto
  qed
  then show ?thesis using that by blast
qed

lemma calm_wait: "job_fits job \<Longrightarrow> calm s (wait_for_machine env pa job s)"
  using wait_cases [of job s env pa] calm_push calm_trans by metis

section \<open>The queue during a start\<close>

text \<open>Nothing in the executor or the allocator touches the queue.\<close>

named_theorems queue_frame

lemma queue_status [queue_frame]: "job_set_status_r pr job st reason s = (r, job', s') \<Longrightarrow> sy_queue s' = sy_queue s"
  by (auto simp: job_set_status_r_def Let_def split: if_splits prod.splits)

lemma queue_release [queue_frame]: "sy_queue (snd (alloc_release j s)) = sy_queue s"
  by (auto simp: alloc_release_def discard_record_def Let_def split: option.splits prod.splits)

lemma queue_reserve:
  "alloc_reserve mo ro j c g ram disk s = (out, s') \<Longrightarrow> sy_queue s' = sy_queue s \<and> sy_active s' = sy_active s"
  "alloc_reserve_on ro j t c g ram disk s = (r, s') \<Longrightarrow> sy_queue s' = sy_queue s \<and> sy_active s' = sy_active s"
  by (auto simp: alloc_reserve_def alloc_reserve_on_def reserve_single_def discard_record_def Let_def
      split: option.splits prod.splits if_splits)

lemma queue_deprovision [queue_frame]: "sy_queue (maybe_auto_deprovision env mid s) = sy_queue s"
  using maybe_auto_deprovision_cases [of env mid s] by auto

lemma queue_put [queue_frame]: "sy_queue (put_execution p f s) = sy_queue s" "sy_queue (active_unregister p s) = sy_queue s"
  by (simp_all add: put_execution_def active_unregister_def)

lemma queue_end [queue_frame]:
  "sy_queue (drop_execution p j s) = sy_queue s" "sy_queue (release_execution env p s) = sy_queue s"
  by (simp_all add: drop_execution_def release_execution_def queue_frame split: option.split)

lemma queue_finish [queue_frame]: "sy_queue (finish_without_process env p st reason s) = sy_queue s"
  by (auto simp: finish_without_process_def queue_frame Let_def split: option.split prod.split)

lemma queue_spawn_pieces:
  "spawn_register env fresh job s = (ro, s') \<Longrightarrow> sy_queue s' = sy_queue s"
  "spawn_check p s = (b, s') \<Longrightarrow> sy_queue s' = sy_queue s"
  "spawn_running env p s = (b, s') \<Longrightarrow> sy_queue s' = sy_queue s"
  "spawn_started env os p s = (b, s') \<Longrightarrow> sy_queue s' = sy_queue s"
     apply (auto simp: spawn_register_def active_register_def queue_frame Let_def split: option.splits prod.splits if_splits)[1]
    apply (auto simp: spawn_check_def queue_frame Let_def split: option.splits prod.splits if_splits)[1]
   apply (auto simp: spawn_running_def job_set_status_def queue_frame Let_def split: option.splits prod.splits if_splits)[1]
  apply (auto simp: spawn_started_def queue_frame Let_def split: option.splits prod.splits if_splits)[1]
  done

lemma queue_spawn: "executor_spawn env os fresh job s = (rw, s') \<Longrightarrow> sy_queue s' = sy_queue s"
  by (auto simp: executor_spawn_def dest!: queue_spawn_pieces split: option.splits prod.splits bool.splits)

section \<open>Reservations\<close>

text \<open>Jobs other than one hold what they held.\<close>

definition others :: "string \<Rightarrow> sched_sys \<Rightarrow> sched_sys \<Rightarrow> bool" where
  "others j s s' \<longleftrightarrow> (\<forall>k. k \<noteq> j \<longrightarrow> held (sy_allocs s') k = held (sy_allocs s) k)"

lemma others_same [simp]: "sy_allocs s' = sy_allocs s \<Longrightarrow> others j s s'"
  by (simp add: others_def)

lemma others_trans: "others j s t \<Longrightarrow> others j t u \<Longrightarrow> others j s u"
  by (simp add: others_def)

lemma others_release: "others j s (snd (alloc_release j s))"
proof (cases "find_idx (\<lambda>a. ac_active a \<and> strcmp (ac_job_id a) j = 0) (sy_allocs s)")
  case None
  then show ?thesis by (simp add: alloc_release_def split: prod.split)
next
  case (Some i)
  have i: "ac_job_id (sy_allocs s ! i) = j" using find_idx_SomeD [OF Some] by simp
  have "sy_allocs (snd (alloc_release j s)) = (sy_allocs s)[i := zero_record]"
    using Some by (auto simp: alloc_release_def discard_record_def Let_def split: prod.splits)
  then show ?thesis using i by (auto simp: others_def held_def zero_record_def find_list_update_other)
qed

lemma others_status: "job_set_status_r pr job st reason s = (r, job', s') \<Longrightarrow> others j s s'"
  using job_set_status_r_quiet by (fastforce simp: quiet_def)

lemma others_put [simp]: "others j s (put_execution p f s)" "others j s (active_unregister p s)"
  by (simp_all add: put_execution_def active_unregister_def)

lemma others_deprovision: "others j s (maybe_auto_deprovision env mid s)"
  using maybe_auto_deprovision_cases [of env mid s] by auto

lemma others_drop: "others j s (drop_execution p j s)"
  unfolding drop_execution_def by (rule others_trans [OF others_release others_put(2)])

lemma others_finish:
  assumes e: "find_execution p s = Some e"
  shows "others (j_id (ex_job e)) s (finish_without_process env p st reason s)"
proof -
  have rel: "others (j_id (ex_job e')) t (release_execution env p t)" if "find_execution p t = Some e'" for e' t
    using that others_trans [OF others_release others_trans [OF others_deprovision others_put(2)]]
    by (simp add: release_execution_def)
  obtain status r where sr: "(case active_terminal_snapshot p 256 s of Some sr \<Rightarrow> sr
      | None \<Rightarrow> (st, buf 256 (case reason of None \<Rightarrow> ''Execution failed'' | Some r \<Rightarrow> r))) = (status, r)" by force
  obtain x job s1 where j: "job_set_status_r (xe_print env) ((ex_job e)\<lparr>j_exit_code := -1\<rparr>) status (Some r) s = (x, job, s1)"
    by (metis prod_cases3)
  let ?t = "put_execution p (\<lambda>e. e\<lparr>ex_job := job\<rparr>) s1"
  have "find_execution p s1 = Some e" "j_id job = j_id (ex_job e)"
    using e job_set_status_r_quiet [OF j] by (auto simp: quiet_def find_execution_def)
  then have "find_execution p ?t = Some (e\<lparr>ex_job := job\<rparr>)" "j_id job = j_id (ex_job e)"
    by (auto simp: find_execution_put)
  then have "others (j_id (ex_job e)) ?t (release_execution env p ?t)" using rel by fastforce
  then have "others (j_id (ex_job e)) s (release_execution env p ?t)"
    using others_trans [OF others_trans [OF others_status [OF j] others_put(1)]] by blast
  moreover have "finish_without_process env p st reason s = release_execution env p ?t \<or>
      finish_without_process env p st reason s = release_execution env p s"
    using e j unfolding finish_without_process_def Let_def sr by auto
  ultimately show ?thesis using rel [OF e] by auto
qed

lemma others_spawn:
  assumes s: "alloc_ok s" "ptrs_ok s" "find_execution p s = None"
    and run: "executor_spawn env os (Some p) job s = (rw, s')"
  shows "others (j_id job) s s'"
proof (cases "sy_shutting_down s")
  case True
  obtain r job1 s1 where j: "job_set_status_r (xe_print env) job JOB_STATUS_FAILED
      (Some ''Executor unavailable'') s = (r, job1, s1)" by (metis prod_cases3)
  have "j_id job1 = j_id job" using job_set_status_r_quiet [OF j] by simp
  then have "s' = snd (alloc_release (j_id job) s1)"
    using run True j by (auto simp: executor_spawn_def spawn_register_def active_register_def)
  then show ?thesis using others_trans [OF others_status [OF j] others_release] by simp
next
  case False
  define e where "e = \<lparr> ex_ptr = p, ex_job = job, ex_termination_requested = False,
    ex_terminal_status = JOB_STATUS_QUEUED, ex_terminal_reason = [], ex_pid = 0 \<rparr>"
  define s1 where "s1 = s\<lparr>sy_active := e # sy_active s\<rparr>"
  have 1: "spawn_register env (Some p) job s = (Some p, s1)" and e: "find_execution p s1 = Some e"
      and id: "j_id (ex_job e) = j_id job" and s1: "alloc_ok s1" "ptrs_ok s1" "sy_allocs s1 = sy_allocs s"
    using False s by (auto simp: spawn_register_def active_register_def find_execution_def ptrs_ok_def alloc_ok_def
        find_None_iff s1_def e_def)
  obtain b2 s2 where 2: "spawn_check p s1 = (b2, s2)" by force
  obtain b3 s3 where 3: "spawn_running env p s2 = (b3, s3)" by force
  obtain b4 s4 where 4: "spawn_started env os p s3 = (b4, s4)" by force
  have o2: "others (j_id job) s s2"
    using 2 e id s1(3) others_drop [of "j_id job" "s1\<lparr>sy_db := d\<rparr>" p for d]
    by (auto simp: spawn_check_def others_def Let_def split: option.splits prod.splits if_splits)
  have e2: "find_execution p s2 = Some e" "alloc_ok s2" "ptrs_ok s2" if b2
    using spawn_check_turns [OF e 2] turnsD [OF _ s1(1,2), of p e s2] that by auto
  have o3: "others (j_id job) s2 s3" if b2
  proof -
    let ?job = "(ex_job e)\<lparr>j_input_dir := store_input_dir (cf_work_dir (xe_config env)) (j_id (ex_job e)) 512,
                          j_output_dir := store_output_dir (cf_work_dir (xe_config env)) (j_id (ex_job e)) 512\<rparr>"
    obtain r job' t where j: "job_set_status_r (xe_print env) ?job JOB_STATUS_RUNNING (Some []) s2 = (r, job', t)"
      by (metis prod_cases3)
    note o = others_trans [OF others_status [OF j] others_put(1)]
    show ?thesis using 3 e2(1) [OF that] j id o others_trans [OF o others_drop]
      by (auto simp: spawn_running_def job_set_status_def Let_def split: if_splits)
  qed
  have o4: "others (j_id job) s3 s4" if b2 b3
  proof -
    have "if b3 then \<exists>j. turns p (Some (e\<lparr>ex_job := j\<rparr>)) s2 s3 \<and> j_status j = JOB_STATUS_RUNNING \<and>
        j_id j = j_id (ex_job e) \<and> transition_allowed (j_status (ex_job e)) JOB_STATUS_RUNNING else turns p None s2 s3"
      using spawn_running_turns [OF e2(1) 3] \<open>b2\<close> by simp
    then obtain job' where t: "turns p (Some (e\<lparr>ex_job := job'\<rparr>)) s2 s3" and id': "j_id job' = j_id job"
      using \<open>b3\<close> id by auto
    have e3: "find_execution p s3 = Some (e\<lparr>ex_job := job'\<rparr>)" using turnsD [OF t] e2 that by blast
    let ?j = "job'\<lparr>j_started_at := sy_now s3\<rparr>"
    obtain r d where d: "db_update_job_started (j_id job') (j_machine_id job') (sy_now s3) (sy_db s3) = (r, d)" by force
    let ?t = "(put_execution p (\<lambda>e. e\<lparr>ex_job := ?j\<rparr>) s3)\<lparr>sy_db := d\<rparr>"
    have "find_execution p ?t = Some (e\<lparr>ex_job := ?j\<rparr>)"
      using find_execution_put [of p "\<lambda>e. e\<lparr>ex_job := ?j\<rparr>" p s3] e3 by (simp add: find_execution_def)
    from others_finish [OF this] have "others (j_id job) ?t (finish_without_process env p st reason ?t)" for st reason
      using id' by simp
    moreover have "others (j_id job) s3 ?t" by (simp add: put_execution_def)
    ultimately have "others (j_id job) s3 (finish_without_process env p st reason ?t)" for st reason
      using others_trans by blast
    then show ?thesis using 4 e3 d \<open>others (j_id job) s3 ?t\<close>
      by (auto simp: spawn_started_def Let_def split: if_splits)
  qed
  have "s' = (if \<not> b2 then s2 else if \<not> b3 then s3 else s4)"
    using run 1 2 3 4 by (auto simp: executor_spawn_def split: bool.splits)
  then show ?thesis using o2 o3 o4 others_trans by (auto split: if_splits)
qed

section \<open>A pass over one job\<close>

text \<open>A step that starts nothing but may change what one job holds.\<close>

definition near :: "string \<Rightarrow> sched_sys \<Rightarrow> sched_sys \<Rightarrow> bool" where
  "near j s s' \<longleftrightarrow> sy_active s' = sy_active s \<and> (sched_ok s \<longrightarrow> sched_ok s' \<and> jobs_kept s s' \<and> others j s s')"

lemma calm_near: "calm s s' \<Longrightarrow> near j s s'"
  by (simp add: calm_def near_def)

lemma jobs_kept_trans: "jobs_kept s t \<Longrightarrow> jobs_kept t u \<Longrightarrow> sched_ok t \<Longrightarrow> jobs_kept s u"
  unfolding jobs_kept_def sched_ok_def by (meson subset_mset.order_trans)

lemma near_trans: "near j s t \<Longrightarrow> near j t u \<Longrightarrow> near j s u"
  unfolding near_def using jobs_kept_trans others_trans by metis

lemma near_find: "near j s t \<Longrightarrow> find_execution p t = find_execution p s"
  by (simp add: near_def find_execution_def)

lemma near_release: "near j s (snd (alloc_release j s))"
proof -
  obtain r s' where r: "alloc_release j s = (r, s')" by force
  show ?thesis using alloc_release_frame [OF r] queue_release [of j s] others_release [of j s] r
    by (auto simp: near_def sched_ok_def jobs_kept_def ptrs_ok_def)
qed

lemma held_release: "sched_ok s \<Longrightarrow> held (sy_allocs (snd (alloc_release j s))) j = None"
  using alloc_release_frame(3) [OF prod.collapse [symmetric], of s j] by (simp add: sched_ok_def)

text \<open>Nothing runs under the new address.\<close>

definition unused :: "nat option \<Rightarrow> sched_sys \<Rightarrow> bool" where
  "unused fresh s \<longleftrightarrow> (\<forall>p. fresh = Some p \<longrightarrow> find_execution p s = None)"

lemma unused_near: "near j s t \<Longrightarrow> unused fresh t = unused fresh s"
  by (simp add: unused_def near_find)

text \<open>
  The invariants hold, no other job is lost or loses its reservation, no other execution is touched;
  what was started under the new address is the job, RUNNING in memory and in the database, with a
  reservation; and if nothing was started, the job has not gained one.
\<close>

definition pass_ok :: "nat option \<Rightarrow> string \<Rightarrow> sched_sys \<Rightarrow> sched_sys \<Rightarrow> bool" where
  "pass_ok fresh j s s' \<longleftrightarrow> sched_ok s' \<and> jobs_kept s s' \<and> others j s s' \<and>
     (\<forall>q. fresh \<noteq> Some q \<longrightarrow> find_execution q s' = find_execution q s) \<and>
     (\<forall>p e. fresh = Some p \<and> find_execution p s' = Some e \<longrightarrow>
        j_id (ex_job e) = j \<and> j_status (ex_job e) = JOB_STATUS_RUNNING \<and>
        db_status (sy_db s') j = Some JOB_STATUS_RUNNING \<and> held (sy_allocs s') j \<noteq> None) \<and>
     (unused fresh s' \<longrightarrow> held (sy_allocs s') j = None \<or> held (sy_allocs s') j = held (sy_allocs s) j)"

lemma near_pass_ok:
  assumes "near j s s'" "sched_ok s" "unused fresh s"
    "held (sy_allocs s') j = None \<or> held (sy_allocs s') j = held (sy_allocs s) j"
  shows "pass_ok fresh j s s'"
proof -
  have "find_execution q s' = find_execution q s" for q using near_find [OF assms(1)] .
  then show ?thesis using assms by (auto simp: pass_ok_def near_def unused_def)
qed

lemma calm_pass_ok: "calm s s' \<Longrightarrow> sched_ok s \<Longrightarrow> unused fresh s \<Longrightarrow> pass_ok fresh j s s'"
  by (rule near_pass_ok [OF calm_near]) (auto simp: calm_def)

lemma pass_ok_near:
  assumes "near j s t" "sched_ok s" "pass_ok fresh j t u"
    "unused fresh u \<longrightarrow> held (sy_allocs u) j = None \<or> held (sy_allocs u) j = held (sy_allocs s) j"
  shows "pass_ok fresh j s u"
proof -
  have "sched_ok t" "jobs_kept s t" "others j s t" using assms(1,2) by (auto simp: near_def)
  then have "jobs_kept s u" "others j s u"
    using assms(3) jobs_kept_trans others_trans unfolding pass_ok_def by blast+
  then show ?thesis using assms(3,4) unfolding pass_ok_def near_find [OF assms(1)] by blast
qed

lemma pass_ok_calm: "calm s t \<Longrightarrow> sched_ok s \<Longrightarrow> pass_ok fresh j t u \<Longrightarrow> pass_ok fresh j s u"
  by (rule pass_ok_near [OF calm_near]) (auto simp: calm_def pass_ok_def)

text \<open>When no address can be had, the job fails and its reservation is given back.\<close>

lemma near_spawn_None: "near (j_id job) s (snd (executor_spawn env os None job s)) \<and>
   (sched_ok s \<longrightarrow> held (sy_allocs (snd (executor_spawn env os None job s))) (j_id job) = None)"
proof -
  obtain r1 job1 s1 where j: "job_set_status_r (xe_print env) job JOB_STATUS_FAILED
      (Some ''Executor unavailable'') s = (r1, job1, s1)" by (metis prod_cases3)
  have "j_id job1 = j_id job" using job_set_status_r_quiet [OF j] by simp
  then have "snd (executor_spawn env os None job s) = snd (alloc_release (j_id job) s1)"
    using j by (simp add: executor_spawn_def spawn_register_def active_register_def)
  moreover have c: "calm s s1" by (rule calm_status [OF j])
  ultimately show ?thesis using near_trans [OF calm_near [OF c] near_release] held_release [of s1 "j_id job"]
    by (simp add: calm_def)
qed

lemma spawn_pass_ok:
  assumes ok: "sched_ok s" and fresh: "unused fresh s" and h: "held (sy_allocs s) (j_id job) \<noteq> None"
    and run: "snd (executor_spawn env os fresh job s) = s'"
  shows "pass_ok fresh (j_id job) s s' \<and> (unused fresh s' \<longrightarrow> held (sy_allocs s') (j_id job) = None)"
proof (cases fresh)
  case None
  then show ?thesis using near_pass_ok [OF _ ok fresh] near_spawn_None [of job s env os] ok run by auto
next
  case (Some p)
  obtain r w where run: "executor_spawn env os (Some p) job s = ((r, w), s')" using run Some by (metis prod.exhaust_sel)
  have s: "alloc_ok s" "ptrs_ok s" "find_execution p s = None" using ok fresh Some by (auto simp: sched_ok_def unused_def)
  note O = executor_spawn_outcome [OF s run]
  have q: "sy_queue s' = sy_queue s" using queue_spawn [OF run] .
  have "sched_ok s'" using O ok q by (simp add: sched_ok_def)
  moreover have "jobs_kept s s'" using q by (simp add: jobs_kept_def)
  moreover have "held (sy_allocs s') (j_id job) \<noteq> None" if "r = 0"
    using executor_spawn_allocs [OF run [unfolded that]] h by simp
  ultimately show ?thesis using O Some others_spawn [OF s run] by (auto simp: pass_ok_def unused_def split: if_splits)
qed

lemma dispatch_pass_ok:
  assumes ok: "sched_ok s" and fresh: "unused (pa_fresh pa) s" and h: "held (sy_allocs s) (j_id job) \<noteq> None"
    and run: "dispatch_on env pa job detail s = s'"
  shows "pass_ok (pa_fresh pa) (j_id job) s s' \<and> (unused (pa_fresh pa) s' \<longrightarrow> held (sy_allocs s') (j_id job) = None)"
proof -
  let ?s1 = "record_event env ''job'' ''dispatch'' (buf 256 detail) (j_user_id job) (j_id job) (j_machine_id job) s"
  obtain c d where c: "db_get_job (j_id job) (sy_db ?s1) = (c, d)" by force
  let ?s2 = "?s1\<lparr>sy_db := d\<rparr>"
  have calm: "calm s ?s2" by (rule calm_trans [OF calm_record_event calm_get_job [OF c]])
  note near = calm_near [OF calm, of "j_id job"]
  have ok2: "sched_ok ?s2" "unused (pa_fresh pa) ?s2" "held (sy_allocs ?s2) (j_id job) \<noteq> None"
    using calm ok fresh h by (auto simp: calm_def unused_near [OF near])
  note S = spawn_pass_ok [OF ok2 refl, of env "pa_os pa"]
  have "pass_ok (pa_fresh pa) (j_id job) s (snd (alloc_release (j_id job) ?s2))"
    using near_pass_ok [OF near_trans [OF near near_release] ok fresh] held_release [OF ok2(1)] by simp
  moreover have "s' = snd (executor_spawn env (pa_os pa) (pa_fresh pa) job ?s2) \<or> s' = snd (alloc_release (j_id job) ?s2)"
    using c run by (auto simp: dispatch_on_def scheduler_dispatch_def Let_def split: option.splits if_splits)
  ultimately show ?thesis using pass_ok_calm [OF calm ok] S held_release [OF ok2(1)] by auto
qed

text \<open>A reservation keeps the books and is recorded for the job.\<close>

lemma near_reserve_single:
  assumes "reserve_single ro j m c g ram disk s = (r, s')" "length j < JOB_ID_LEN" "sched_ok s"
    "sy_queue s' = sy_queue s" "sy_active s' = sy_active s"
  shows "near j s s' \<and> (if r = 0 then held (sy_allocs s') j \<noteq> None else held (sy_allocs s') j = held (sy_allocs s) j)"
proof -
  have ok: "alloc_ok s" using assms(3) by (simp add: sched_ok_def)
  show ?thesis using reserve_single_cases [OF ok assms(2,1)] assms(3-5)
    by (auto simp: near_def sched_ok_def jobs_kept_def ptrs_ok_def others_def same_state_def reserved_state_def)
qed

lemma near_reserve:
  assumes "length j < JOB_ID_LEN" "sched_ok s"
  shows "alloc_reserve mo ro j c g ram disk s = (out, s') \<Longrightarrow> near j s s' \<and>
      (if out \<noteq> None then held (sy_allocs s') j \<noteq> None else held (sy_allocs s') j = held (sy_allocs s) j)"
    "alloc_reserve_on ro j t c g ram disk s = (r, s') \<Longrightarrow> near j s s' \<and>
      (if r = 0 then held (sy_allocs s') j \<noteq> None else held (sy_allocs s') j = held (sy_allocs s) j)"
proof -
  note S = near_reserve_single [OF _ assms]
  assume r: "alloc_reserve mo ro j c g ram disk s = (out, s')"
  show "near j s s' \<and> (if out \<noteq> None then held (sy_allocs s') j \<noteq> None else held (sy_allocs s') j = held (sy_allocs s) j)"
    using alloc_reserve_cases [OF r]
  proof (elim disjE exE conjE)
    fix m x assume "reserve_single ro j m c g ram disk s = (x, s')" and x: "(out = None) = (x \<noteq> 0)"
    from S [OF this(1)] show ?thesis using queue_reserve(1) [OF r] x by (simp split: if_splits)
  qed (simp add: calm_near)
next
  note S = near_reserve_single [OF _ assms]
  assume r: "alloc_reserve_on ro j t c g ram disk s = (r, s')"
  show "near j s s' \<and> (if r = 0 then held (sy_allocs s') j \<noteq> None else held (sy_allocs s') j = held (sy_allocs s) j)"
    using alloc_reserve_on_cases [OF r] queue_reserve(2) [OF r] S [of ro _ c g ram disk r s'] calm_near [OF calm_refl, of j s]
    by auto
qed

lemma affinity_pass_ok:
  assumes ok: "sched_ok s" and fresh: "unused (pa_fresh pa) s" and len: "length (j_id job) < JOB_ID_LEN"
    and run: "affinity env pa job s = (stop, s')"
  shows "if stop then pass_ok (pa_fresh pa) (j_id job) s s' else calm s s'"
proof (cases "j_same_machine_as job = []")
  case True
  then show ?thesis using run by (simp add: affinity_def)
next
  case False
  obtain ref d where d: "db_get_job (j_same_machine_as job) (sy_db s) = (ref, d)" by force
  let ?s1 = "s\<lparr>sy_db := d\<rparr>"
  note c1 = calm_get_job [OF d]
  have ok1: "sched_ok ?s1" using ok c1 by (simp add: calm_def)
  have requeue: "pass_ok (pa_fresh pa) (j_id job) s (push_job (pa_push_ok pa) job (set_reason (j_id job) r t))"
    if "near (j_id job) s t" "held (sy_allocs t) (j_id job) = held (sy_allocs s) (j_id job)" for r t
  proof (rule near_pass_ok [OF near_trans [OF that(1) calm_near] ok fresh])
    show "calm t (push_job (pa_push_ok pa) job (set_reason (j_id job) r t))"
      by (rule calm_trans [OF calm_set_reason calm_push])
    then show "held (sy_allocs (push_job (pa_push_ok pa) job (set_reason (j_id job) r t))) (j_id job) = None \<or>
        held (sy_allocs (push_job (pa_push_ok pa) job (set_reason (j_id job) r t))) (j_id job) = held (sy_allocs s) (j_id job)"
      using that(2) by (simp add: calm_def)
  qed
  show ?thesis
  proof (cases ref)
    case None
    then show ?thesis using run False d c1 by (simp add: affinity_def)
  next
    case (Some rj)
    obtain r s2 where r: "alloc_reserve_on (pa_realloc_ok pa) (j_id job) (j_machine_id rj) (j_req_cores job)
        (j_req_gpu job) (j_req_ram_mb job) (j_req_disk_mb job) ?s1 = (r, s2)" by force
    note R = near_reserve(2) [OF len ok1 r]
    have c2: "near (j_id job) s s2" by (rule near_trans [OF calm_near [OF c1]]) (use R in blast)
    then have ok2: "sched_ok s2" "unused (pa_fresh pa) s2" using ok fresh unused_near [OF c2] by (auto simp: near_def)
    let ?job = "job\<lparr>j_machine_id := buf 64 (j_machine_id rj)\<rparr>"
    have go: "pass_ok (pa_fresh pa) (j_id job) s (dispatch_on env pa ?job detail s2)" if "r = 0" for detail
      using pass_ok_near [OF c2 ok] dispatch_pass_ok [OF ok2, of ?job env detail] R that by simp
    have wait: "pass_ok (pa_fresh pa) (j_id job) s (push_job (pa_push_ok pa) job (set_reason (j_id job) x s2))"
      if "r \<noteq> 0" for x using requeue [OF c2] R that by simp
    have "pass_ok (pa_fresh pa) (j_id job) s (push_job (pa_push_ok pa) job (set_reason (j_id job) x ?s1))" for x
      using requeue [OF calm_near [OF c1]] by simp
    then show ?thesis using run False d Some r go wait
      unfolding affinity_def Let_def by (auto simp del: append.simps split: if_splits)
  qed
qed

lemma place_pass_ok:
  assumes ok: "sched_ok s" and fresh: "unused (pa_fresh pa) s" and fits: "job_fits job"
  shows "pass_ok (pa_fresh pa) (j_id job) s (place_job env pa job s)"
proof -
  have len: "length (j_id job) < JOB_ID_LEN" using fits by (simp add: job_fits_def)
  obtain mo s1 where r: "alloc_reserve (pa_snapshot_ok pa) (pa_realloc_ok pa) (j_id job) (j_req_cores job)
      (j_req_gpu job) (j_req_ram_mb job) (j_req_disk_mb job) s = (mo, s1)" by force
  note R = near_reserve(1) [OF len ok r]
  have ok1: "sched_ok s1" "unused (pa_fresh pa) s1" using R ok fresh unused_near by (auto simp: near_def)
  have push: "near (j_id job) t (push_job (pa_push_ok pa) job t) \<and>
      held (sy_allocs (push_job (pa_push_ok pa) job t)) = held (sy_allocs t)" for t
    using calm_near calm_push [of t "pa_push_ok pa" job] by (simp add: calm_def)
  have wait: "pass_ok (pa_fresh pa) (j_id job) s (wait_for_machine env pa job s)"
    by (rule calm_pass_ok [OF calm_wait [OF fits] ok fresh])
  have none: "pass_ok (pa_fresh pa) (j_id job) s (push_job (pa_push_ok pa) job s1)" if "mo = None"
    by (rule near_pass_ok [OF near_trans ok fresh]) (use R that push [of s1] in auto)
  have offline: "pass_ok (pa_fresh pa) (j_id job) s (push_job (pa_push_ok pa) job (snd (alloc_release (j_id job) s1)))"
    by (rule near_pass_ok [OF near_trans [OF near_trans [OF _ near_release]] ok fresh])
       (use R push held_release [OF ok1(1)] in auto)
  have go: "pass_ok (pa_fresh pa) (j_id job) s (dispatch_on env pa (job\<lparr>j_machine_id := m\<rparr>) detail s1)"
    if "mo = Some mid" for mid m detail
  proof -
    have "pass_ok (pa_fresh pa) (j_id job) s1 (dispatch_on env pa (job\<lparr>j_machine_id := m\<rparr>) detail s1) \<and>
        (unused (pa_fresh pa) (dispatch_on env pa (job\<lparr>j_machine_id := m\<rparr>) detail s1) \<longrightarrow>
         held (sy_allocs (dispatch_on env pa (job\<lparr>j_machine_id := m\<rparr>) detail s1)) (j_id job) = None)"
      using dispatch_pass_ok [OF ok1, of "job\<lparr>j_machine_id := m\<rparr>" env detail] R that by simp
    then show ?thesis using pass_ok_near [of "j_id job" s s1] ok R by blast
  qed
  show ?thesis using r wait none offline go unfolding place_job_def Let_def
    by (auto simp del: append.simps split: option.splits)
qed

lemma idle_first_quota: "db_idle d \<Longrightarrow> first_quota ks d = (x, d') \<Longrightarrow> db_idle d'"
proof (induction ks arbitrary: d)
  case (Cons k ks)
  obtain u a where k: "k = (u, a)" by force
  obtain q d1 where q: "db_get_quota u a d = (q, d1)" by force
  have "db_idle d1" using q Cons.prems(1) unfolding db_get_quota_def by (blast intro: db_idle_read)
  then show ?case using Cons q k by (auto split: if_splits)
qed simp

lemma idle_quota:
  assumes "db_idle d" "db_quota_check u a c r n d = (q, d')"
  shows "db_idle d'"
proof -
  obtain qo d1 where 1: "resolve_quota u a d = (qo, d1)" by force
  have i1: "db_idle d1" using 1 assms(1) unfolding resolve_quota_def by (blast intro: idle_first_quota)
  obtain us d2 where 2: "sql_read (\<lambda>t. Some (quota_usage u a t)) None (Some (0, 0, 0)) d1 = (us, d2)" by force
  have "db_idle d2" by (rule db_idle_read [OF i1 2])
  moreover have "d' = d1 \<or> d' = d2" using assms(2) 1 2
    by (auto simp: db_quota_check_def Let_def split: option.splits if_splits)
  ultimately show ?thesis using i1 by blast
qed

lemma scan_pass_ok:
  assumes ok: "sched_ok s" and fresh: "unused (pa_fresh pa) s" and fits: "job_fits job"
  shows "pass_ok (pa_fresh pa) (j_id job) s (scan_job env pa job s)"
proof -
  obtain persisted d where d: "db_get_job (j_id job) (sy_db s) = (persisted, d)" by force
  obtain quota d2 where q: "db_quota_check (j_user_id job) (j_app_id job) (j_req_cores job) (j_req_ram_mb job) 256 d =
      (quota, d2)" by force
  define s2 where "s2 = s\<lparr>sy_db := d2\<rparr>"
  have c1: "calm s (s\<lparr>sy_db := d\<rparr>)" by (rule calm_get_job [OF d])
  have c2: "calm s s2" unfolding s2_def by (rule calm_db) (use idle_get_job [OF _ d] idle_quota [OF _ q] in blast)
  obtain stop3 s3 where 3: "affinity env pa job s2 = (stop3, s3)" by force
  obtain stop4 s4 where 4: "presim (xe_config env) pa job s3 = (stop4, s4)" by force
  obtain stop5 job5 s5 where 5: "decide_queued (xe_config env) pa job s4 = (stop5, job5, s5)" by (metis prod_cases3)
  have ok2: "sched_ok s2" "unused (pa_fresh pa) s2" using c2 ok fresh by (auto simp: calm_def unused_near [OF calm_near [OF c2]])
  have A: "if stop3 then pass_ok (pa_fresh pa) (j_id job) s2 s3 else calm s2 s3"
    by (rule affinity_pass_ok [OF ok2 _ 3]) (use fits in \<open>simp add: job_fits_def\<close>)
  have late: "pass_ok (pa_fresh pa) (j_id job) s (if stop4 then s4 else if stop5 then s5 else place_job env pa job5 s5)"
    if "\<not> stop3"
  proof -
    have c3: "calm s s3" using A that calm_trans [OF c2] by simp
    note c4 = calm_trans [OF c3 calm_presim [OF 4]]
    have D: "calm s s5" "j_id job5 = j_id job" "job_fits job5"
      using calm_decide_queued [OF 5] calm_trans [OF c4] fits by (auto simp: job_fits_def)
    then have "sched_ok s5" "unused (pa_fresh pa) s5" using ok fresh by (auto simp: calm_def unused_near [OF calm_near [OF D(1)]])
    from pass_ok_calm [OF D(1) ok place_pass_ok [OF this D(3), of env]] show ?thesis
      using calm_pass_ok [OF c4 ok fresh] calm_pass_ok [OF D(1) ok fresh] D(2) by simp
  qed
  have requeue: "pass_ok (pa_fresh pa) (j_id job) s (push_job (pa_push_ok pa) job (set_reason (j_id job) r s2))" for r
    by (rule calm_pass_ok [OF calm_trans [OF calm_trans [OF c2 calm_set_reason] calm_push] ok fresh])
  have "scan_job env pa job s = s\<lparr>sy_db := d\<rparr> \<or>
      (\<exists>r. scan_job env pa job s = push_job (pa_push_ok pa) job (set_reason (j_id job) r s2)) \<or>
      scan_job env pa job s = (if stop3 then s3 else if stop4 then s4 else if stop5 then s5 else place_job env pa job5 s5)"
    using d q 3 4 5 unfolding scan_job_def Let_def s2_def
    by (auto split: option.split sum.split)
  then show ?thesis
    using calm_pass_ok [OF c1 ok fresh] requeue late pass_ok_calm [OF c2 ok] A by (cases stop3) auto
qed

section \<open>Start-up\<close>

definition queued_rows :: "tables \<Rightarrow> job_row list" where
  "queued_rows t = filter (\<lambda>r. r_status r = JOB_STATUS_QUEUED) (t_jobs t)"

lemma recovered_queued: "queued_rows (recovered now reason t) = queued_rows t"
proof -
  have "filter (\<lambda>r. r_status r = JOB_STATUS_QUEUED) (map (\<lambda>r. if r_status r \<in> {JOB_STATUS_LEGACY_1, JOB_STATUS_RUNNING}
      then r\<lparr>r_status := JOB_STATUS_FAILED, r_exit_code := Some (-1), r_ended_at := Some now, r_status_reason := reason\<rparr>
      else r) rows) = filter (\<lambda>r. r_status r = JOB_STATUS_QUEUED) rows" for rows :: "job_row list"
    by (induction rows) auto
  then show ?thesis by (simp add: queued_rows_def recovered_def)
qed

lemma recovery_keeps_queued:
  assumes "db_idle d" "db_recover_after_restart now d = (r, d')"
  shows "db_idle d' \<and> queued_rows (db_tables d') = queued_rows (db_tables d)"
  using db_recover_after_restart_cases [OF assms] recovered_queued by auto

lemma recover_no_failure:
  assumes "db_idle d" "db_plan d = []" "db_recover_after_restart now d = (n, d')"
  shows "db_plan d' = []" "db_tables d' = recovered now ''Interrupted by orchestrator restart'' (db_tables d)"
proof -
  have "db_plan d' = [] \<and> n \<noteq> -1" using assms
    by (auto simp: db_recover_after_restart_def db_begin_def sql_begin_def sql_write_def interrupt_jobs_def
        update_jobs_def update_rows_def release_all_allocations_def db_commit_def sql_commit_def db_idle_def)
  then show "db_plan d' = []" "db_tables d' = recovered now ''Interrupted by orchestrator restart'' (db_tables d)"
    using db_recover_after_restart_cases [OF assms(1,3)] by auto
qed

lemma load_jobs_subset:
  assumes "db_load_jobs_by_status ok JOB_STATUS_QUEUED d = (Some js, d')"
  shows "mset js \<subseteq># mset (map (row_to_job False) (queued_rows (db_tables d)))"
proof -
  let ?Q = "filter (\<lambda>r. r_status r = JOB_STATUS_QUEUED)"
  let ?S = "\<lambda>t. sort_key r_priority (sort_key r_submitted_at (?Q (t_jobs t)))"
  obtain n d1 where 1: "sql_read (\<lambda>t. Some (length (?Q (t_jobs t)))) None (Some 0) d = (n, d1)" by force
  have t: "db_tables d1 = db_tables d" using sql_read_cases [OF 1] by simp
  show ?thesis
  proof (cases "js = []")
    case False
    then obtain e where e: "n = Some e"
      "sql_read (\<lambda>t. Some (map (row_to_job False) (take e (?S t)))) None (Some []) d1 = (Some js, d')"
      using assms 1 unfolding db_load_jobs_by_status_def by (auto simp: Let_def split: option.splits if_splits)
    have "js = map (row_to_job False) (take e (?S (db_tables d)))" using sql_read_cases [OF e(2)] False t by auto
    moreover have "mset (take e (?S (db_tables d))) \<subseteq># mset (?S (db_tables d))"
      by (metis append_take_drop_id mset_append mset_subset_eq_add_left)
    then have "image_mset (row_to_job False) (mset (take e (?S (db_tables d)))) \<subseteq>#
        image_mset (row_to_job False) (mset (?S (db_tables d)))" by (rule image_mset_subseteq_mono)
    ultimately show ?thesis by (simp add: queued_rows_def)
  qed simp
qed

lemma load_jobs_all:
  assumes "db_plan d = []"
  shows "\<exists>js. db_load_jobs_by_status True JOB_STATUS_QUEUED d = (Some js, d) \<and>
    mset js = mset (map (row_to_job False) (queued_rows (db_tables d)))"
  using assms by (auto simp: db_load_jobs_by_status_def queued_rows_def Let_def filter_empty_conv)

lemma restore_jobs_queue:
  "sy_queue s = Some q \<Longrightarrow> queue_ok q \<Longrightarrow> \<exists>q'. sy_queue (restore_jobs mem i js s) = Some q' \<and> queue_ok q' \<and>
     mset (q_heap q') \<subseteq># mset (q_heap q) + mset js \<and>
     (\<not> q_shutdown q \<and> (\<forall>i. mem i = (True, True)) \<longrightarrow>
        mset (q_heap q') = mset (q_heap q) + mset js \<and> sy_db (restore_jobs mem i js s) = sy_db s)"
proof (induction js arbitrary: i s q)
  case (Cons j js)
  let ?p = "push_locked (snd (mem i)) q j"
  have push: "queue_push (snd (mem i)) (Some q) (Some j) = (fst ?p, Some (snd ?p))" by (simp split: prod.split)
  note P = push_locked_spec [OF Cons.prems(2), of "snd (mem i)" j]
  define s1 where "s1 = (if \<not> fst (mem i) then
          s\<lparr>sy_db := fail_restore (sy_now s) (j_id j) ''Out of memory during startup recovery'' (sy_db s)\<rparr>
        else if fst ?p \<noteq> 0 then
          s\<lparr>sy_queue := Some (snd ?p),
            sy_db := fail_restore (sy_now s) (j_id j) ''Failed to restore scheduler queue'' (sy_db s)\<rparr>
        else s\<lparr>sy_queue := Some (snd ?p)\<rparr>)"
  have run: "restore_jobs mem i (j # js) s = restore_jobs mem (Suc i) js s1"
    unfolding restore_jobs.simps Cons.prems(1) push Let_def prod.case s1_def by simp
  define q1 where "q1 = (if fst (mem i) then snd ?p else q)"
  have q1: "sy_queue s1 = Some q1" "queue_ok q1" "mset (q_heap q1) \<subseteq># add_mset j (mset (q_heap q))"
      "\<not> q_shutdown q \<and> (\<forall>i. mem i = (True, True)) \<longrightarrow>
         mset (q_heap q1) = add_mset j (mset (q_heap q)) \<and> \<not> q_shutdown q1 \<and> sy_db s1 = sy_db s"
    using P Cons.prems by (auto simp: s1_def q1_def)
  obtain q' where q': "sy_queue (restore_jobs mem (Suc i) js s1) = Some q'" "queue_ok q'"
      "mset (q_heap q') \<subseteq># mset (q_heap q1) + mset js"
      "\<not> q_shutdown q1 \<and> (\<forall>i. mem i = (True, True)) \<longrightarrow>
         mset (q_heap q') = mset (q_heap q1) + mset js \<and> sy_db (restore_jobs mem (Suc i) js s1) = sy_db s1"
    using Cons.IH [OF q1(1,2), of "Suc i"] by blast
  have "mset (q_heap q1) + mset js \<subseteq># mset (q_heap q) + mset (j # js)"
    using subset_mset.add_right_mono [OF q1(3), of "mset js"] by simp
  then have "mset (q_heap q') \<subseteq># mset (q_heap q) + mset (j # js)" by (rule subset_mset.order_trans [OF q'(3)])
  moreover have "mset (q_heap q') = mset (q_heap q) + mset (j # js) \<and> sy_db (restore_jobs mem (Suc i) js s1) = sy_db s"
    if "\<not> q_shutdown q \<and> (\<forall>i. mem i = (True, True))"
    using q1(4) [rule_format, OF that] q'(4) that by simp
  ultimately show ?case unfolding run using q'(1,2) by blast
qed simp

section \<open>Cancellation and timeouts\<close>

lemma store_ok_no_failure: "db_plan (sy_db s) = [] \<Longrightarrow> store_ok job st s"
  by (simp add: store_ok_def db_update_defs update_job_def update_jobs_def update_rows_def sql_run_def sql_write_def)

text \<open>Cancelling a job that may still be cancelled.\<close>

lemma cancel_status:
  assumes "job_set_status_r pr job JOB_STATUS_CANCELLED reason s = (r, job', s')" "db_plan (sy_db s) = []"
    "j_status job \<in> {JOB_STATUS_CREATED, JOB_STATUS_QUEUED}"
  shows "r = 0 \<and> db_status (sy_db s') = (db_status (sy_db s))(j_id job :=
    map_option (\<lambda>_. JOB_STATUS_CANCELLED) (db_status (sy_db s) (j_id job)))"
proof -
  have "transition_allowed (j_status job) JOB_STATUS_CANCELLED" using assms(3) by auto
  from job_set_status_r_allowed [OF this assms(1)] show ?thesis
    using store_ok_no_failure [OF assms(2)] by (auto simp: fun_eq_iff)
qed

lemma db_get_job_status:
  assumes "db_plan d = []"
  shows "db_get_job j d = (map_option (row_to_job True) (job_row_of (db_tables d) j), d)"
    "db_status d j = map_option r_status (job_row_of (db_tables d) j)"
  using assms by (simp_all add: db_get_job_def job_row_of_def db_status_def lookup_status_def)

lemma queue_request:
  assumes "active_request_termination env j st reason s = (r, s')"
  shows "sy_queue s' = sy_queue s"
proof (cases "find (\<lambda>e. strcmp (j_id (ex_job e)) j = 0) (sy_active s)")
  case (Some e)
  obtain e1 s1 where q: "request_termination env st (case reason of None \<Rightarrow> ''Terminated'' | Some r \<Rightarrow> r) e s = (e1, s1)"
    by force
  have "sy_queue s1 = sy_queue s"
    using q by (auto simp: request_termination_def queue_frame Let_def split: if_splits prod.splits)
  then show ?thesis using assms Some q
    by (auto simp: active_request_termination_def send_kills_def queue_frame Let_def split: if_splits)
qed (use assms in \<open>simp add: active_request_termination_def\<close>)

lemma request_sched_ok:
  assumes "active_request_termination env j st reason s = (r, s')" "ended_badly st" "sched_ok s"
  shows "sched_ok s'"
  using active_request_termination_turns [OF assms(1,2)] queue_request [OF assms(1)] assms(3)
  by (auto simp: sched_ok_def turns_def)

lemma request_result:
  assumes "active_request_termination env j st reason s = (r, s')"
  shows "if executor_is_active j s then r = 0 else r = -1 \<and> s' = s"
proof -
  have "executor_is_active j s \<longleftrightarrow> find (\<lambda>e. strcmp (j_id (ex_job e)) j = 0) (sy_active s) \<noteq> None"
    by (auto simp: executor_is_active_def find_None_iff)
  then show ?thesis using assms
    by (auto simp: active_request_termination_def Let_def split: option.splits prod.splits)
qed

definition cancelled_status :: "string \<Rightarrow> (string \<Rightarrow> job_status option) \<Rightarrow> string \<Rightarrow> job_status option" where
  "cancelled_status job_id st = st(job_id := map_option (\<lambda>_. JOB_STATUS_CANCELLED) (st job_id))"

lemma cancel_waiting:
  assumes ok: "queue_ok q" and s: "sy_queue s = Some q" "db_plan (sy_db s) = []" and "job_id \<noteq> []"
    and queued: "\<forall>j \<in> set (q_heap q). j_status j = JOB_STATUS_QUEUED" and ex: "\<exists>j \<in> set (q_heap q). j_id j = job_id"
    and run: "scheduler_cancel_job env (Some job_id) reason s = (r, s')"
  shows "r = 0 \<and> db_status (sy_db s') = cancelled_status job_id (db_status (sy_db s)) \<and>
    (\<exists>j q'. sy_queue s' = Some q' \<and> j_id j = job_id \<and> mset (q_heap q) = add_mset j (mset (q_heap q')))"
proof -
  obtain c cs where jid: "job_id = c # cs" using assms(4) by (cases job_id) auto
  obtain j q' where rm: "queue_remove (Some q) (Some job_id) = (Some j, Some q')"
    using ex by (cases "find_idx (\<lambda>j. strcmp (j_id j) job_id = 0) (q_heap q)") (auto simp: find_idx_None)
  note R = queue_remove_spec [OF ok rm]
  have jq: "j \<in> set (q_heap q)" using R by (metis set_mset_mset union_single_eq_member)
  obtain r1 job' s1 where js: "job_set_status_r (xe_print env) j JOB_STATUS_CANCELLED
      (Some (case reason of None \<Rightarrow> ''Cancelled'' | Some r \<Rightarrow> r)) (s\<lparr>sy_queue := Some q'\<rparr>) = (r1, job', s1)"
    by (metis prod_cases3)
  have "r = r1" "s' = s1" using s(1) run rm js
    by (auto simp: scheduler_cancel_job_def jid queue_remove_by_id_def Let_def)
  moreover have "r1 = 0 \<and> db_status (sy_db s1) = cancelled_status job_id (db_status (sy_db s))"
    using cancel_status [OF js] s(2) queued jq R by (simp add: cancelled_status_def)
  moreover have "sy_queue s1 = Some q'" using queue_status [OF js] by simp
  ultimately show ?thesis using R by auto
qed

text \<open>What is left when the job neither waits nor executes: the row decides.\<close>

lemma cancel_row:
  assumes s: "db_plan (sy_db s) = []" and len: "length job_id < JOB_ID_LEN"
    and run: "(r, s') = (case map_option (row_to_job True) (job_row_of (db_tables (sy_db s)) job_id) of
          None \<Rightarrow> (-1, s)
        | Some job \<Rightarrow> if j_status job = JOB_STATUS_CREATED \<or> j_status job = JOB_STATUS_QUEUED then
              let (r2, job', s3) = job_set_status_r (xe_print env) job JOB_STATUS_CANCELLED (Some why) s in (r2, s3)
            else (-1, s))"
  shows "sy_queue s' = sy_queue s \<and>
    (if db_status (sy_db s) job_id \<in> {Some JOB_STATUS_CREATED, Some JOB_STATUS_QUEUED} then
       r = 0 \<and> db_status (sy_db s') = cancelled_status job_id (db_status (sy_db s))
     else r = -1 \<and> db_status (sy_db s') = db_status (sy_db s))"
proof (cases "job_row_of (db_tables (sy_db s)) job_id")
  case None
  then show ?thesis using run db_get_job_status(2) [OF s, of job_id] by auto
next
  case (Some row)
  then have row: "r_id row = job_id" by (auto simp: job_row_of_def find_Some_iff)
  obtain r2 job' s3 where js: "job_set_status_r (xe_print env) (row_to_job True row) JOB_STATUS_CANCELLED (Some why) s =
      (r2, job', s3)" by (metis prod_cases3)
  have id: "j_id (row_to_job True row) = job_id" "j_status (row_to_job True row) = r_status row"
    using row len by (simp_all add: row_to_job_def)
  have "r2 = 0 \<and> db_status (sy_db s3) = cancelled_status job_id (db_status (sy_db s))"
    if "r_status row \<in> {JOB_STATUS_CREATED, JOB_STATUS_QUEUED}"
    using cancel_status [OF js s] that id by (simp add: cancelled_status_def)
  then show ?thesis using run db_get_job_status(2) [OF s, of job_id] Some js id queue_status [OF js]
    by (auto split: if_splits)
qed

lemma cancel_elsewhere:
  assumes s: "sy_queue s = Some q" "db_plan (sy_db s) = []" and "job_id \<noteq> []" and len: "length job_id < JOB_ID_LEN"
    and run: "scheduler_cancel_job env (Some job_id) reason s = (r, s')"
    and no: "\<not> (\<exists>j \<in> set (q_heap q). j_id j = job_id)"
  shows "sy_queue s' = Some q \<and>
    (if executor_is_active job_id s then r = 0
     else if db_status (sy_db s) job_id \<in> {Some JOB_STATUS_CREATED, Some JOB_STATUS_QUEUED} then
       r = 0 \<and> db_status (sy_db s') = cancelled_status job_id (db_status (sy_db s))
     else r = -1 \<and> db_status (sy_db s') = db_status (sy_db s))"
proof -
  define why where "why = (case reason of None \<Rightarrow> ''Cancelled'' | Some r \<Rightarrow> r)"
  obtain c cs where jid: "job_id = c # cs" using assms(3) by (cases job_id) auto
  have rm: "queue_remove_by_id (Some q) (Some job_id) = (None, Some q)"
    using no by (auto simp: queue_remove_by_id_def find_idx_None split: option.splits)
  obtain r1 s1 where x: "active_request_termination env job_id JOB_STATUS_CANCELLED (Some why) s = (r1, s1)" by force
  then have x': "executor_cancel env job_id (Some why) s = (r1, s1)" by (simp add: executor_cancel_def)
  note X = request_result [OF x] queue_request [OF x]
  show ?thesis
  proof (cases "executor_is_active job_id s")
    case True
    then show ?thesis using s(1) run rm x' X by (simp add: scheduler_cancel_job_def jid why_def)
  next
    case False
    then have s1: "r1 = -1" "s1 = s" "s\<lparr>sy_db := sy_db s\<rparr> = s" using X by auto
    note G = db_get_job_status [OF s(2), of job_id]
    let ?s = "s\<lparr>sy_db := sy_db s\<rparr>"
    have "(r, s') = (case map_option (row_to_job True) (job_row_of (db_tables (sy_db s)) job_id) of
          None \<Rightarrow> (-1, ?s)
        | Some job \<Rightarrow> if j_status job = JOB_STATUS_CREATED \<or> j_status job = JOB_STATUS_QUEUED then
              let (r2, job', s3) = job_set_status_r (xe_print env) job JOB_STATUS_CANCELLED (Some why) ?s in (r2, s3)
            else (-1, ?s))"
      using run unfolding scheduler_cancel_job_def jid option.case list.case Let_def
      unfolding jid [symmetric] s(1) rm prod.case option.case why_def [symmetric] x' s1(1,2) G(1) by simp
    then have "(r, s') = (case map_option (row_to_job True) (job_row_of (db_tables (sy_db s)) job_id) of
          None \<Rightarrow> (-1, s)
        | Some job \<Rightarrow> if j_status job = JOB_STATUS_CREATED \<or> j_status job = JOB_STATUS_QUEUED then
              let (r2, job', s3) = job_set_status_r (xe_print env) job JOB_STATUS_CANCELLED (Some why) s in (r2, s3)
            else (-1, s))"
      unfolding s1(3) .
    from cancel_row [OF s(2) len this] show ?thesis using False s(1) by simp
  qed
qed

lemma deprovision_idle_ok:
  "sched_ok s \<Longrightarrow> sched_ok (deprovision_idle env mid s) \<and> sy_allocs (deprovision_idle env mid s) = sy_allocs s \<and>
     sy_queue (deprovision_idle env mid s) = sy_queue s"
proof (cases "registry_get_copy (sy_reg s) mid")
  case (Some m)
  assume ok: "sched_ok s"
  obtain r reg cmds where c: "cloud_deprovision (xe_popen env) (m_cloud_provider m) (m_cloud_instance_id m) (sy_reg s) =
      (r, reg, cmds)" by (metis prod_cases3)
  let ?s' = "s\<lparr>sy_reg := reg, sy_commands := sy_commands s @ cmds\<rparr>"
  have a: "alloc_ok s" using ok by (simp add: sched_ok_def)
  then have "alloc_ok ?s'" by (rule alloc_ok_deprovision [OF _ c]) (use a in \<open>auto simp: alloc_ok_def\<close>)
  then have "sched_ok ?s'" using ok by (simp add: sched_ok_def ptrs_ok_def)
  moreover have "deprovision_idle env mid s = s \<or> deprovision_idle env mid s = ?s'"
    using Some c by (simp add: deprovision_idle_def)
  ultimately show ?thesis using ok by auto
qed (simp add: deprovision_idle_def)

section \<open>Claims\<close>

text \<open>
  C1: a pass of the scheduler over one job of the queue, whatever the database, the operating system,
  the decision core and the cloud answer: the books of the allocator balance, the queue stays a heap, no two
  executions share an address; every other waiting job is still waiting, every other execution and every
  other job's reservation is untouched; if an execution was started it is that of this job, RUNNING in memory
  and in the database, and the job holds a reservation; and if none was started, the job has gained no reservation.
\<close>

theorem scheduler_scan_correct:
  assumes "sched_ok s" "pa_fresh pa = Some p" "find_execution p s = None" "job_fits job" "sy_queue s = Some q"
    "scan_job env pa job s = s'"
  shows "sched_ok s' \<and> (\<exists>q'. sy_queue s' = Some q' \<and> mset (q_heap q) \<subseteq># mset (q_heap q')) \<and>
    (\<forall>x. x \<noteq> p \<longrightarrow> find_execution x s' = find_execution x s) \<and>
    (\<forall>e. find_execution p s' = Some e \<longrightarrow>
       j_id (ex_job e) = j_id job \<and> j_status (ex_job e) = JOB_STATUS_RUNNING \<and>
       db_status (sy_db s') (j_id job) = Some JOB_STATUS_RUNNING \<and> held (sy_allocs s') (j_id job) \<noteq> None) \<and>
    (\<forall>k. k \<noteq> j_id job \<longrightarrow> held (sy_allocs s') k = held (sy_allocs s) k) \<and>
    (find_execution p s' = None \<longrightarrow>
       held (sy_allocs s') (j_id job) = None \<or> held (sy_allocs s') (j_id job) = held (sy_allocs s) (j_id job))"
proof -
  have "unused (pa_fresh pa) s" using assms by (simp add: unused_def)
  from scan_pass_ok [OF assms(1) this assms(4), of env] show ?thesis
    using assms by (auto simp: pass_ok_def jobs_kept_def sched_ok_def others_def unused_def)
qed

definition demo_pass :: pass where
  "demo_pass = \<lparr> pa_dc = demo_dc_env, pa_push_ok = True, pa_snapshot_ok = True, pa_realloc_ok = True,
     pa_child = (\<lambda>_. (True, No_Urandom 1 2)), pa_fresh = Some 1, pa_os = demo_os, pa_solver_cmd = None \<rparr>"

definition demo_ready :: job where
  "demo_ready = job_zero\<lparr>j_id := ''a'', j_req_cores := 1\<rparr>"

definition demo_sched :: sched_sys where
  "demo_sched = exec_sys.extend demo_exec
     \<lparr> sy_queue = Some \<lparr> q_heap = [], q_capacity = 64, q_shutdown = False \<rparr>, sy_running = True,
       sy_thread_started = True, sy_auto_prov_jobs = [], sy_disk = [], sy_dc_initialized = True \<rparr>"

lemma demo_sched_ok: "sched_ok demo_sched"
proof -
  have "alloc_ok demo_exec" using exec_okD(1) [OF exec_initial_ok [OF demo_exec_initial]] .
  then show ?thesis
    by (simp add: sched_ok_def demo_sched_def exec_sys.defs alloc_ok_def ptrs_ok_def demo_exec_def life_sys.defs
        queue_ok_def heap_ok_def queue_size_def)
qed

theorem scheduler_scan_correct_witness:
  "\<exists>e. find_execution 1 (scan_job demo_env demo_pass demo_ready demo_sched) = Some e \<and>
     j_id (ex_job e) = ''a'' \<and> j_status (ex_job e) = JOB_STATUS_RUNNING \<and>
     held (sy_allocs (scan_job demo_env demo_pass demo_ready demo_sched)) ''a'' \<noteq> None"
proof -
  let ?j = "demo_ready"
  have "map_option ex_ptr (find_execution 1 (scan_job demo_env demo_pass ?j demo_sched)) = Some 1" by code_simp
  then obtain e where e: "find_execution 1 (scan_job demo_env demo_pass ?j demo_sched) = Some e" by auto
  have j: "job_fits ?j" "j_id ?j = ''a''"
    by (simp_all add: job_fits_def demo_ready_def job_zero_def JOB_ID_LEN_def int32_def)
  have p: "pa_fresh demo_pass = Some 1" "find_execution 1 demo_sched = None"
    by (simp_all add: demo_pass_def find_execution_def demo_sched_def exec_sys.defs demo_exec_def life_sys.defs)
  obtain q where q: "sy_queue demo_sched = Some q" by (simp add: demo_sched_def exec_sys.defs)
  show ?thesis using scheduler_scan_correct [OF demo_sched_ok p j(1) q refl] e j(2) by auto
qed

text \<open>
  C28: start-up. Whatever fails, the queue restored is a well-formed heap that holds nothing but jobs
  whose rows are QUEUED, each at most once. When no statement and no allocation fails it holds every one of
  them, and no job is left marked as running.
\<close>

theorem scheduler_init_correct:
  assumes "db_idle (sy_db s)" "scheduler_init True calloc_ok mem s = s'"
  shows "\<exists>q. sy_queue s' = Some q \<and> queue_ok q \<and>
    mset (q_heap q) \<subseteq># mset (map (row_to_job False) (queued_rows (db_tables (sy_db s)))) \<and>
    (db_plan (sy_db s) = [] \<and> calloc_ok \<and> (\<forall>i. mem i = (True, True)) \<longrightarrow>
       mset (q_heap q) = mset (map (row_to_job False) (queued_rows (db_tables (sy_db s)))) \<and>
       active_count (db_tables (sy_db s')) = 0)"
proof -
  let ?q0 = "\<lparr> q_heap = [], q_capacity = 64, q_shutdown = False \<rparr>"
  obtain n d1 where r: "db_recover_after_restart (sy_now s) (sy_db s) = (n, d1)" by force
  obtain jo d2 where l: "db_load_jobs_by_status calloc_ok JOB_STATUS_QUEUED d1 = (jo, d2)" by force
  have rows: "queued_rows (db_tables d1) = queued_rows (db_tables (sy_db s))"
    using recovery_keeps_queued [OF assms(1) r] by simp
  define s1 where "s1 = s\<lparr>sy_queue := Some ?q0, sy_db := d2\<rparr>"
  define js where "js = (case jo of None \<Rightarrow> [] | Some js \<Rightarrow> js)"
  have s': "s' = snd (decision_core_init (restore_jobs mem 0 js s1))"
    using assms(2) r l by (auto simp: scheduler_init_def queue_create_def s1_def js_def Let_def split: option.splits)
  have q0: "sy_queue s1 = Some ?q0" "queue_ok ?q0" by (simp_all add: s1_def queue_ok_def heap_ok_def queue_size_def)
  obtain q where q: "sy_queue s' = Some q" "queue_ok q" "mset (q_heap q) \<subseteq># mset js"
      "(\<forall>i. mem i = (True, True)) \<longrightarrow> mset (q_heap q) = mset js \<and> sy_db s' = d2"
    using restore_jobs_queue [OF q0, of mem 0 js] by (auto simp: s' decision_core_init_def s1_def)
  have sub: "mset js \<subseteq># mset (map (row_to_job False) (queued_rows (db_tables (sy_db s))))"
    using load_jobs_subset [of calloc_ok d1 js d2] l rows by (cases jo) (auto simp: js_def)
  have "mset (q_heap q) = mset (map (row_to_job False) (queued_rows (db_tables (sy_db s)))) \<and>
      active_count (db_tables (sy_db s')) = 0"
    if ok: "db_plan (sy_db s) = []" "calloc_ok" "\<forall>i. mem i = (True, True)"
  proof -
    have d1: "db_plan d1 = []" "db_tables d1 = recovered (sy_now s) ''Interrupted by orchestrator restart'' (db_tables (sy_db s))"
      using recover_no_failure [OF assms(1) ok(1) r] by auto
    obtain js' where "jo = Some js'" "d2 = d1" "mset js' = mset (map (row_to_job False) (queued_rows (db_tables d1)))"
      using load_jobs_all [OF d1(1)] l ok(2) by auto
    moreover have "active_count (db_tables d1) = 0" unfolding d1(2) active_count_def length_0_conv filter_empty_conv
      by (blast dest: recovered_none_active)
    ultimately show ?thesis using q(4) ok(3) rows by (simp add: js_def)
  qed
  then show ?thesis using q(1,2) subset_mset.order_trans [OF q(3) sub] by blast
qed

theorem scheduler_init_correct_witness:
  "\<exists>q. sy_queue (scheduler_init True True (\<lambda>_. (True, True)) demo_sched) = Some q \<and> map j_id (q_heap q) = [''a'']"
proof -
  have idle: "db_idle (sy_db demo_sched)" "db_plan (sy_db demo_sched) = []"
    using demo_sched_ok by (simp_all add: sched_ok_def alloc_ok_def demo_sched_def exec_sys.defs demo_exec_def
        life_sys.defs demo_life_def opened_db_def)
  have "map (row_to_job False) (queued_rows (db_tables (sy_db demo_sched))) =
      [row_to_job False (insert_job_row (job_zero\<lparr>j_id := ''a''\<rparr>))]"
    by (simp add: queued_rows_def demo_sched_def exec_sys.defs demo_exec_def life_sys.defs demo_life_def insert_job_row_def job_zero_def)
  moreover obtain q where "sy_queue (scheduler_init True True (\<lambda>_. (True, True)) demo_sched) = Some q"
    "mset (q_heap q) = mset (map (row_to_job False) (queued_rows (db_tables (sy_db demo_sched))))"
    using scheduler_init_correct [OF idle(1) refl, of True "\<lambda>_. (True, True)"] idle(2) by auto
  moreover have "j_id (row_to_job False (insert_job_row (job_zero\<lparr>j_id := ''a''\<rparr>))) = ''a''"
    by (simp add: row_to_job_def insert_job_row_def job_zero_def JOB_ID_LEN_def buf_def)
  ultimately show ?thesis by (auto simp: mset_single_iff)
qed



text \<open>
  A running job is ended for its duration only when it has a limit (its own or the configured one),
  has started, and has run at least that long; otherwise nothing happens. If it is ended, either the executor
  knows it and a termination is requested there, or its row becomes FAILED and its reservation is
  released. The invariants hold after it, and the queue is untouched.
\<close>

theorem scheduler_timeout_correct:
  assumes "sched_ok s" "db_plan (sy_db s) = []" "check_timeout_job env now job s = s'"
    "limit = (if j_timeout_seconds job > 0 then j_timeout_seconds job else cf_job_timeout_seconds (xe_config env))"
  shows "if limit > 0 \<and> j_started_at job > 0 \<and> now - j_started_at job \<ge> limit then
      sched_ok s' \<and> sy_queue s' = sy_queue s \<and>
      (\<not> executor_is_active (j_id job) s \<longrightarrow>
         held (sy_allocs s') (j_id job) = None \<and> sy_active s' = sy_active s)
    else s' = s"
proof (cases "limit > 0 \<and> j_started_at job > 0 \<and> now - j_started_at job \<ge> limit")
  case True
  define reason where "reason = timeout_reason (now - j_started_at job) limit"
  obtain r s1 where x: "active_request_termination env (j_id job) JOB_STATUS_FAILED (Some reason) s = (r, s1)" by force
  have ok1: "sched_ok s1" "sy_queue s1 = sy_queue s"
    using request_sched_ok [OF x _ assms(1)] queue_request [OF x] by (auto simp: ended_badly_def)
  define d2 where "d2 = snd (db_update_status_reason (j_id job) reason
      (snd (db_update_job_status (j_id job) JOB_STATUS_FAILED (-1) now (sy_db s1))))"
  obtain q t where a: "alloc_release (j_id job) (s1\<lparr>sy_db := d2\<rparr>) = (q, t)" by force
  have c: "calm s1 (s1\<lparr>sy_db := d2\<rparr>)" unfolding d2_def by (rule calm_db) (intro idle_updates)
  define s2 where "s2 = (if r \<noteq> 0 then t else s1)"
  have s': "s' = deprovision_idle env (j_machine_id job) s2"
    using assms(3,4) True x a
    by (auto simp: check_timeout_job_def executor_timeout_def reason_def s2_def d2_def Let_def split: if_splits)
  have t: "sched_ok t" "sy_queue t = sy_queue s1" "held (sy_allocs t) (j_id job) = None" "sy_active t = sy_active s1"
  proof -
    have "alloc_ok (s1\<lparr>sy_db := d2\<rparr>)" using c ok1 by (simp add: calm_def sched_ok_def)
    then show "held (sy_allocs t) (j_id job) = None" using alloc_release_frame(3) [OF a] by simp
    show "sched_ok t" using near_release [of "j_id job" "s1\<lparr>sy_db := d2\<rparr>"] c ok1 a by (simp add: calm_def near_def)
    show "sy_queue t = sy_queue s1" using queue_release [of "j_id job" "s1\<lparr>sy_db := d2\<rparr>"] a by simp
    show "sy_active t = sy_active s1" using alloc_release_frame(1) [OF a] by simp
  qed
  have ok2: "sched_ok s2" using t ok1 by (simp add: s2_def)
  have act: "sy_active s' = sy_active s2" unfolding s'
    by (auto simp: deprovision_idle_def split: option.splits prod.splits if_splits)
  show ?thesis using True request_result [OF x] t ok1 deprovision_idle_ok [OF ok2, of env "j_machine_id job"] act
    by (auto simp: s' s2_def split: if_splits)
next
  case False
  then show ?thesis using assms(3,4) by (auto simp: check_timeout_job_def Let_def)
qed

theorem scheduler_timeout_correct_witness:
  "let job = demo_ready\<lparr>j_timeout_seconds := 10, j_started_at := 100\<rparr> in
   sched_ok (check_timeout_job demo_env 110 job demo_sched) \<and>
   held (sy_allocs (check_timeout_job demo_env 110 job demo_sched)) ''a'' = None"
proof -
  let ?job = "demo_ready\<lparr>j_timeout_seconds := 10, j_started_at := 100\<rparr>"
  have "db_plan (sy_db demo_sched) = []" "\<not> executor_is_active ''a'' demo_sched"
    by (simp_all add: demo_sched_def exec_sys.defs demo_exec_def life_sys.defs demo_life_def opened_db_def
        executor_is_active_def)
  then show ?thesis using scheduler_timeout_correct [OF demo_sched_ok _ refl refl, where env = demo_env and now = 110 and job = ?job]
    by (simp add: demo_ready_def Let_def)
qed

text \<open>A job that no machine fits, with nothing else for the scheduler to decide.\<close>

definition blocked :: "exec_env \<Rightarrow> job \<Rightarrow> sched_sys \<Rightarrow> bool" where
  "blocked env job s \<longleftrightarrow> cf_experimental_features_enabled (xe_config env) = 0 \<and> j_same_machine_as job = [] \<and>
     db_plan (sy_db s) = [] \<and> t_quotas (db_tables (sy_db s)) = [] \<and>
     db_status (sy_db s) (j_id job) = Some JOB_STATUS_QUEUED \<and>
     \<not> alloc_can_fit True (j_req_cores job) (j_req_gpu job) (j_req_ram_mb job) (j_req_disk_mb job) s"

lemma no_quota: "db_plan d = [] \<Longrightarrow> t_quotas (db_tables d) = [] \<Longrightarrow> db_quota_check u a c r n d = (Inr (), d)"
proof -
  assume "db_plan d = []" "t_quotas (db_tables d) = []"
  then have "first_quota ks d = (None, d)" for ks by (induction ks) (auto simp: db_get_quota_def)
  then show ?thesis by (simp add: db_quota_check_def resolve_quota_def)
qed

lemma blocked_scan:
  assumes "blocked env job s" "pa_push_ok pa"
  shows "\<exists>r. scan_job env pa job s = push_job True job (set_reason (j_id job) r s)"
proof -
  have B: "cf_experimental_features_enabled (xe_config env) = 0" "j_same_machine_as job = []" "db_plan (sy_db s) = []"
    "t_quotas (db_tables (sy_db s)) = []" "db_status (sy_db s) (j_id job) = Some JOB_STATUS_QUEUED"
    "\<not> alloc_can_fit b (j_req_cores job) (j_req_gpu job) (j_req_ram_mb job) (j_req_disk_mb job) s" for b
    using assms(1) by (auto simp: blocked_def alloc_can_fit_def registry_snapshot_def split: option.splits if_splits)
  obtain row where row: "job_row_of (db_tables (sy_db s)) (j_id job) = Some row" "r_status row = JOB_STATUS_QUEUED"
    using B(5) db_get_job_status(2) [OF B(3)] by auto
  have get: "db_get_job (j_id job) (sy_db s) = (Some (row_to_job True row), sy_db s)"
    "j_status (row_to_job True row) = JOB_STATUS_QUEUED"
    using db_get_job_status(1) [OF B(3), of "j_id job"] row by (simp_all add: row_to_job_def)
  have same: "s\<lparr>sy_db := sy_db s\<rparr> = s" by simp
  have "scan_job env pa job s = place_job env pa job s"
    unfolding scan_job_def get(1) Let_def prod.case option.case same no_quota [OF B(3,4)] sum.case
    using B(1,2) get(2) by (simp add: affinity_def presim_def presim_triggered_def decide_queued_def)
  also have "\<dots> = wait_for_machine env pa job s" using B(6) by (simp add: place_job_def)
  finally show ?thesis using B(1) assms(2) by (auto simp: wait_for_machine_def Let_def)
qed

lemma set_reason_frame:
  assumes "db_plan (sy_db s) = []"
  shows "db_plan (sy_db (set_reason j r s)) = []" "t_quotas (db_tables (sy_db (set_reason j r s))) = t_quotas (db_tables (sy_db s))"
    "db_status (sy_db (set_reason j r s)) = db_status (sy_db s)"
    "k \<noteq> j \<Longrightarrow> job_row_of (db_tables (sy_db (set_reason j r s))) k = job_row_of (db_tables (sy_db s)) k"
proof -
  obtain t n where t: "update_jobs (\<lambda>x. r_id x = j) (\<lambda>x. x\<lparr>r_status_reason := r\<rparr>) (db_tables (sy_db s)) = Some (t, n)"
    "t_quotas t = t_quotas (db_tables (sy_db s))" by (auto simp: update_jobs_def update_rows_def)
  have u: "update_job j (\<lambda>x. x\<lparr>r_status_reason := r\<rparr>) (sy_db s) = (0, (sy_db s)\<lparr>db_tables := t\<rparr>)"
    using assms t(1) by (simp add: update_job_def)
  then have d: "sy_db (set_reason j r s) = (sy_db s)\<lparr>db_tables := t\<rparr>"
    by (simp add: set_reason_def db_update_status_reason_def)
  show "db_plan (sy_db (set_reason j r s)) = []"
    "t_quotas (db_tables (sy_db (set_reason j r s))) = t_quotas (db_tables (sy_db s))" using assms t(2) by (simp_all add: d)
  show "db_status (sy_db (set_reason j r s)) = db_status (sy_db s)"
    using update_job_status_of [OF u, of "\<lambda>x. x"] by (auto simp: d fun_eq_iff option.map_ident)
  show "k \<noteq> j \<Longrightarrow> job_row_of (db_tables (sy_db (set_reason j r s))) k = job_row_of (db_tables (sy_db s)) k"
    using update_job_0 [OF u] by (simp add: d)
qed

text \<open>However many passes there are, each takes the same job and puts it back.\<close>

lemma blocked_scan_loop:
  assumes "sy_queue s = Some q" "queue_open q" "queue_try_pop q = Some (job, q')" "inj_on job_key (set (q_heap q))"
    "blocked env job s" "\<forall>pa \<in> set pas. pa_push_ok pa"
  shows "sy_active (scan_loop env pas s) = sy_active s \<and> sy_allocs (scan_loop env pas s) = sy_allocs s \<and>
    sy_reg (scan_loop env pas s) = sy_reg s \<and>
    (\<exists>q1. sy_queue (scan_loop env pas s) = Some q1 \<and> mset (q_heap q1) = mset (q_heap q)) \<and>
    (\<forall>k. k \<noteq> j_id job \<longrightarrow> job_row_of (db_tables (sy_db (scan_loop env pas s))) k = job_row_of (db_tables (sy_db s)) k)"
  using assms
proof (induction pas arbitrary: s q q')
  case (Cons pa pas)
  let ?s = "s\<lparr>sy_queue := Some q'\<rparr>"
  have "blocked env job ?s" using Cons.prems(5) by (simp add: blocked_def alloc_can_fit_def)
  then obtain r where r: "scan_job env pa job ?s = push_job True job (set_reason (j_id job) r ?s)"
    using blocked_scan Cons.prems(6) by force
  define q1 where "q1 = snd (push_locked True q' job)"
  define s1 where "s1 = scan_job env pa job ?s"
  have plan: "db_plan (sy_db ?s) = []" using Cons.prems(5) by (simp add: blocked_def)
  note F = set_reason_frame [OF plan, where j = "j_id job" and r = r]
  have s1: "sy_queue s1 = Some q1" "sy_active s1 = sy_active s" "sy_allocs s1 = sy_allocs s" "sy_reg s1 = sy_reg s"
    "sy_db s1 = sy_db (set_reason (j_id job) r ?s)"
    unfolding s1_def r by (simp_all add: push_job_def set_reason_def q1_def split: prod.split)
  obtain q'' where q'': "queue_try_pop q1 = Some (job, q'')"
    using jq.requeue_head [OF Cons.prems(2,3)] Cons.prems(4) by (auto simp: q1_def)
  have m: "queue_open q1" "mset (q_heap q1) = mset (q_heap q)"
    using jq.invar_push jq.content_push jq.invar_pop [OF Cons.prems(2,3)] jq.content_pop [OF Cons.prems(2,3)]
    by (auto simp: q1_def)
  have b: "blocked env job s1" using Cons.prems(5) F(1-3) s1 by (simp add: blocked_def alloc_can_fit_def)
  have i: "inj_on job_key (set (q_heap q1))" using Cons.prems(4) m(2) by (metis set_mset_mset)
  have IH: "sy_active (scan_loop env pas s1) = sy_active s1 \<and> sy_allocs (scan_loop env pas s1) = sy_allocs s1 \<and>
    sy_reg (scan_loop env pas s1) = sy_reg s1 \<and>
    (\<exists>q2. sy_queue (scan_loop env pas s1) = Some q2 \<and> mset (q_heap q2) = mset (q_heap q1)) \<and>
    (\<forall>k. k \<noteq> j_id job \<longrightarrow> job_row_of (db_tables (sy_db (scan_loop env pas s1))) k = job_row_of (db_tables (sy_db s1)) k)"
    by (rule Cons.IH [OF s1(1) m(1) q'' i b]) (use Cons.prems(6) in auto)
  show ?case
  proof (cases "sy_running s")
    case True
    then have "scan_loop env (pa # pas) s = scan_loop env pas s1" using Cons.prems(1,3) by (simp add: s1_def)
    then show ?thesis using IH s1 m(2) F(4) by auto
  qed (use Cons.prems(1) in simp)
qed simp

definition demo_blocked :: job where
  "demo_blocked = job_zero\<lparr>j_id := ''a'', j_priority := 1, j_req_cores := 100\<rparr>"

definition demo_behind :: job where
  "demo_behind = job_zero\<lparr>j_id := ''b'', j_priority := 2, j_req_cores := 1\<rparr>"

definition demo_starving :: sched_sys where
  "demo_starving = demo_sched\<lparr>
     sy_db := opened_db (empty_tables\<lparr>t_jobs := [insert_job_row demo_blocked, insert_job_row demo_behind]\<rparr>),
     sy_queue := Some \<lparr> q_heap = [demo_blocked, demo_behind], q_capacity = 64, q_shutdown = False \<rparr>\<rparr>"

text \<open>
  C36: one blocked job at the head of the queue starves the others. The comment above the scan promises
  the contrary; but a job that is put back is again the first, so that every pass of a tick takes the same
  job. As long as nothing fits the first job, any number of passes starts nothing, reserves nothing, and does
  not even look at another job: all other rows are as before, whatever those jobs need.
\<close>

theorem scheduler_head_starves:
  assumes "sy_queue s = Some q" "queue_open q" "queue_try_pop q = Some (job, q')" "inj_on job_key (set (q_heap q))"
    "blocked env job s" "\<forall>pa \<in> set pas. pa_push_ok pa"
  shows "let s' = scan_loop env pas s in
    sy_active s' = sy_active s \<and> sy_allocs s' = sy_allocs s \<and> sy_reg s' = sy_reg s \<and>
    (\<exists>q1. sy_queue s' = Some q1 \<and> mset (q_heap q1) = mset (q_heap q)) \<and>
    (\<forall>k. k \<noteq> j_id job \<longrightarrow> job_row_of (db_tables (sy_db s')) k = job_row_of (db_tables (sy_db s)) k)"
  using blocked_scan_loop [OF assms] by (simp add: Let_def)

theorem scheduler_head_starves_witness:
  "alloc_can_fit True (j_req_cores demo_behind) 0 0 0 demo_starving \<and>
   sy_active (scan_loop demo_env (replicate 9 demo_pass) demo_starving) = [] \<and>
   job_row_of (db_tables (sy_db (scan_loop demo_env (replicate 9 demo_pass) demo_starving))) ''b'' =
     Some (insert_job_row demo_behind)"
proof -
  let ?q = "\<lparr> q_heap = [demo_blocked, demo_behind], q_capacity = 64, q_shutdown = False \<rparr>"
  have j: "j_id demo_blocked = ''a''" by (simp add: demo_blocked_def)
  have q: "sy_queue demo_starving = Some ?q" "sy_active demo_starving = []"
    "job_row_of (db_tables (sy_db demo_starving)) ''b'' = Some (insert_job_row demo_behind)"
    by (simp_all add: demo_starving_def demo_sched_def exec_sys.defs demo_exec_def life_sys.defs job_row_of_def
        insert_job_row_def demo_blocked_def demo_behind_def job_zero_def)
  have "queue_open ?q" by (auto simp: queue_open_def queue_ok_def heap_ok_def par_def queue_size_def job_key_def
        demo_blocked_def demo_behind_def job_zero_def less_Suc_eq numeral_2_eq_2 less_eq_job_key_def)
  moreover obtain q' where "queue_try_pop ?q = Some (demo_blocked, q')" by (simp add: queue_try_pop_def Let_def)
  moreover have "inj_on job_key (set (q_heap ?q))" by (auto simp: demo_blocked_def demo_behind_def job_key_def)
  moreover have "blocked demo_env demo_blocked demo_starving" "alloc_can_fit True (j_req_cores demo_behind) 0 0 0 demo_starving"
    unfolding blocked_def by code_simp+
  ultimately show ?thesis
    using scheduler_head_starves [OF q(1), where job = demo_blocked and env = demo_env and pas = "replicate 9 demo_pass"] q(2,3) j
    by (auto simp: Let_def demo_pass_def)
qed

text \<open>
  The table that keeps a job from provisioning more than one cloud machine has 256 entries and
  is never emptied. Once it is full, a job that waits is not entered, so it counts as not tried on
  every later pass and each pass provisions another machine.
\<close>

theorem scheduler_auto_prov_forgets:
  assumes "length jobs = AUTO_PROV_MAX" "job_id \<notin> set jobs"
  shows "\<not> auto_prov_already_tried (auto_prov_mark job_id jobs) job_id"
  using assms by (simp add: auto_prov_mark_def auto_prov_already_tried_def)

theorem scheduler_auto_prov_forgets_witness:
  "\<not> auto_prov_already_tried (auto_prov_mark ''x'' (replicate AUTO_PROV_MAX ''y'')) ''x''"
  using scheduler_auto_prov_forgets [of "replicate AUTO_PROV_MAX ''y''" "''x''"] by simp

text \<open>
  A list of input files with an empty entry, such as one that ends in a comma, is never complete: the files
  expected are counted by commas, the files present by the names between them, and an empty entry is no
  name. Whatever is on the disk, such a job is not released.
\<close>

theorem scheduler_empty_file_entry:
  assumes "[] \<in> set (split_on CHR '','' fs)" "length fs < 2048" "fs \<noteq> []"
  shows "count_present_files files dir fs < count_expected_files fs"
proof -
  have "length (split_on d s) = Suc (length (filter (\<lambda>c. c = d) s))" for d :: char and s
    by (induction s) (auto split: list.splits)
  then have e: "count_expected_files fs = int (length (split_on CHR '','' fs))"
    using assms(3) by (simp add: count_expected_files_def)
  have "length (strtok CHR '','' fs) < length (split_on CHR '','' fs)"
    unfolding strtok_def by (rule length_filter_less [of "[]"]) (use assms(1) in auto)
  moreover have "length (filter P (strtok CHR '','' fs)) \<le> length (strtok CHR '','' fs)" for P by (rule length_filter_le)
  ultimately have "length (filter P (strtok CHR '','' fs)) < length (split_on CHR '','' fs)" for P by (meson le_less_trans)
  then show ?thesis using assms(2) by (simp add: e count_present_files_def)
qed

theorem scheduler_empty_file_entry_witness:
  "count_present_files (\<lambda>_. Some []) ''/w/in'' ''a,'' < count_expected_files ''a,''"
  using scheduler_empty_file_entry [of "''a,''"] by simp

end
