(* ===== verification/Progress.thy ===== *)
theory Progress
  imports Scheduling
begin

text \<open>
  No job is lost by the scheduler: with a database that works, a job taken from the queue is in it
  again after the pass, or is executing, or its row says that it is no longer queued.
\<close>

section \<open>A database that works\<close>

text \<open>No statement fails, now and after each operation.\<close>

definition smooth :: "db \<Rightarrow> bool" where
  "smooth d \<longleftrightarrow> db_plan d = []"

named_theorems smooth_simps

lemma smooth_write [smooth_simps]: "smooth d \<Longrightarrow> smooth (snd (sql_write f d))"
  by (simp add: smooth_def sql_write_def split: option.split)

lemma smooth_run [smooth_simps]: "smooth d \<Longrightarrow> smooth (snd (sql_run f d))"
  using smooth_write [of d f] by (simp add: sql_run_def case_prod_beta Let_def)

lemma smooth_update [smooth_simps]: "smooth d \<Longrightarrow> smooth (snd (update_job j f d))"
  by (simp add: update_job_def smooth_run)

lemma smooth_updates [smooth_simps]:
  assumes "smooth d"
  shows "smooth (snd (db_update_status_reason j r d))" "smooth (snd (db_update_job_status j st e t d))"
    "smooth (snd (db_update_depends_on j ds d))" "smooth (snd (db_insert_event n c k dt u jj m d))"
    "smooth (snd (db_insert_job job d))"
  using assms by (simp_all add: db_update_status_reason_def db_update_job_status_def db_update_depends_on_def
      db_insert_event_def db_insert_job_def smooth_simps)

lemma smooth_get_job: "smooth d \<Longrightarrow> db_get_job j d = (r, d') \<Longrightarrow> d' = d"
  by (simp add: smooth_def db_get_job_def)

lemma smooth_transaction [smooth_simps]:
  assumes "smooth d"
  shows "smooth (snd (db_begin d))" "smooth (snd (db_commit d))" "smooth (snd (db_rollback d))"
  using assms by (auto simp: smooth_def db_begin_def db_commit_def db_rollback_def sql_begin_def sql_commit_def
      sql_rollback_def Let_def split: option.splits)

lemma smooth_persist: "smooth d \<Longrightarrow> smooth (snd (persist_slots now j ss d))"
proof (induction ss arbitrary: d)
  case (Cons x ss)
  obtain r d' where d: "db_insert_allocation now j (sl_machine_id x) (sl_cores x) (sl_gpu x)
      (sl_ram_mb x) (sl_disk_mb x) d = (r, d')" by force
  have "smooth (snd (db_insert_allocation now j a b c e f d))" for a b c e f
    using smooth_run [OF Cons.prems] by (simp add: db_insert_allocation_def)
  then have "smooth d'" using d by (metis snd_conv)
  then show ?case using Cons.IH d by (simp add: smooth_simps)
qed (simp add: smooth_simps)

lemma smooth_persist_record: "smooth d \<Longrightarrow> smooth (snd (persist_record now rec d))"
  using smooth_persist smooth_transaction(1) [of d] by (simp add: persist_record_def case_prod_beta Let_def)

lemma smooth_reserve:
  assumes "smooth (sy_db s)"
  shows "alloc_reserve mo ro j c g ram disk s = (out, s') \<Longrightarrow> smooth (sy_db s')"
    "alloc_reserve_on ro j t c g ram disk s = (r, s') \<Longrightarrow> smooth (sy_db s')"
proof -
  have 1: "smooth (sy_db t)" if "reserve_single ro j m c g ram disk s = (x, t)" for m x t
    using that assms smooth_persist_record [OF assms]
    by (auto simp: reserve_single_def discard_record_def Let_def split: option.splits prod.splits if_splits)
       (metis snd_conv)+
  show "alloc_reserve mo ro j c g ram disk s = (out, s') \<Longrightarrow> smooth (sy_db s')"
    using alloc_reserve_cases [of mo ro j c g ram disk s out s'] 1 assms by auto
  show "alloc_reserve_on ro j t c g ram disk s = (r, s') \<Longrightarrow> smooth (sy_db s')"
    using alloc_reserve_on_cases [of ro j t c g ram disk s r s'] 1 assms by auto
qed

lemma smooth_quota: "smooth d \<Longrightarrow> db_quota_check u a c r n d = (q, d') \<Longrightarrow> d' = d"
proof -
  assume d: "smooth d" "db_quota_check u a c r n d = (q, d')"
  have "snd (first_quota ks d) = d" for ks
    using d(1) by (induction ks) (auto simp: smooth_def db_get_quota_def split: prod.splits option.splits)
  then have "snd (resolve_quota u a d) = d" by (simp add: resolve_quota_def)
  then show ?thesis using d by (auto simp: db_quota_check_def smooth_def Let_def split: prod.splits option.splits if_splits)
qed

section \<open>Steps that start nothing\<close>

definition eased :: "sched_sys \<Rightarrow> sched_sys \<Rightarrow> bool" where
  "eased s s' \<longleftrightarrow> calm s s' \<and> (smooth (sy_db s) \<longrightarrow> smooth (sy_db s'))"

lemma eased_refl [simp]: "eased s s"
  by (simp add: eased_def)

lemma eased_trans: "eased s t \<Longrightarrow> eased t u \<Longrightarrow> eased s u"
  using calm_trans by (auto simp: eased_def)

lemma eased_set_reason: "eased s (set_reason j r s)"
  using calm_set_reason by (simp add: eased_def set_reason_def smooth_simps)

lemma eased_push: "eased s (push_job ok job s)"
  using calm_push by (simp add: eased_def push_job_def)

lemma eased_log: "eased s (sched_log x s)"
  using calm_log by (simp add: eased_def sched_log_def)

lemma eased_get_job: "db_get_job j (sy_db s) = (r, d) \<Longrightarrow> eased s (s\<lparr>sy_db := d\<rparr>)"
  using calm_get_job smooth_get_job by (fastforce simp: eased_def)

lemma eased_record_event: "eased s (record_event env c t dt u j m s)"
  using calm_record_event by (auto simp: eased_def record_event_def events_push_persistent_def smooth_simps)

lemma eased_create: "job_create_ex ok e w cmd pr c g ram disk u a s = (out, s') \<Longrightarrow> eased s s'"
proof -
  assume run: "job_create_ex ok e w cmd pr c g ram disk u a s = (out, s')"
  let ?job = "new_job w (job_new_id e) cmd pr c g ram disk u a (sy_now s)"
  obtain r d where d: "db_insert_job ?job (sy_db s) = (r, d)" by force
  then have "s' = (if ok then s\<lparr>sy_db := d\<rparr> else s)" using run by (auto simp: job_create_ex_def Let_def split: if_splits)
  moreover have "smooth (sy_db s) \<Longrightarrow> smooth d" using d smooth_updates(5) [of "sy_db s" ?job] by simp
  ultimately show ?thesis using calm_create [OF run] by (simp add: eased_def)
qed

lemma eased_hold: "eased s (hold_job j ds r s)"
  using calm_hold by (simp add: eased_def hold_job_def Let_def smooth_simps)

lemma eased_decide: "sched_decide cfg pa job s = (r, s') \<Longrightarrow> eased s s'"
proof -
  assume run: "sched_decide cfg pa job s = (r, s')"
  obtain ro d where d: "decision_core_decide cfg (pa_dc pa) (Some (sched_context pa job s)) (sy_db s) = (ro, d)" by force
  have "d = sy_db s" if "smooth (sy_db s)"
    using d smooth_get_job [OF that] by (auto simp: decision_core_decide_def Let_def split: option.splits prod.splits if_splits)
  then show ?thesis using run d calm_decide [OF run] by (auto simp: eased_def sched_decide_def)
qed

lemma eased_refine_zone: "refine_zone cfg pa job zi z (deps, s) = (deps', s') \<Longrightarrow> eased s s'"
proof -
  assume run: "refine_zone cfg pa job zi z (deps, s) = (deps', s')"
  define cmd where "cmd = refine_cmd job (int_item z ''zone'' (int zi)) (int_item z ''fidelity'' 1)"
  define reqc where "reqc = (if int_item z ''req_cores'' 0 > 0 then int_item z ''req_cores'' 0 else 1)"
  obtain child s1 where c: "job_create_ex (fst (pa_child pa zi)) (snd (pa_child pa zi)) (cf_work_dir cfg) cmd
      (j_priority job + 5) reqc (j_req_gpu job) (j_req_ram_mb job) (j_req_disk_mb job) (Some (j_user_id job))
      (Some (j_app_id job)) s = (child, s1)" by force
  have "s' = s \<or> s' = s1 \<or> (\<exists>c. s' = push_job (pa_push_ok pa) c (sched_log (Init_Dirs (j_id c)) s1))"
    using run c unfolding refine_zone_def cmd_def reqc_def Let_def
    by (auto split: json.splits if_splits option.splits)
  moreover have "eased s (push_job (pa_push_ok pa) c (sched_log x s1))" for c x
    by (rule eased_trans [OF eased_trans [OF eased_create [OF c] eased_log] eased_push])
  ultimately show ?thesis using eased_create [OF c] by (elim disjE exE) simp_all
qed

lemma eased_refine_zones: "refine_zones cfg pa job zi zs (deps, s) = (deps', s') \<Longrightarrow> eased s s'"
proof (induction zs arbitrary: zi deps s)
  case (Cons z zs)
  obtain d1 s1 where 1: "refine_zone cfg pa job zi z (deps, s) = (d1, s1)" by force
  then show ?case using Cons.IH [of "Suc zi" d1 s1] Cons.prems eased_refine_zone [OF 1] eased_trans by simp
qed simp

section \<open>Where the job is after the pass\<close>

definition moved :: "string \<Rightarrow> sched_sys \<Rightarrow> bool" where
  "moved j s \<longleftrightarrow> db_status (sy_db s) j \<noteq> Some JOB_STATUS_QUEUED"

text \<open>In the queue again, executing, or in another state.\<close>

definition accounted :: "nat option \<Rightarrow> string \<Rightarrow> sched_sys \<Rightarrow> sched_sys \<Rightarrow> bool" where
  "accounted fresh j s s' \<longleftrightarrow>
     (\<exists>q q' job. sy_queue s = Some q \<and> sy_queue s' = Some q' \<and> j_id job = j \<and>
        add_mset job (mset (q_heap q)) \<subseteq># mset (q_heap q')) \<or>
     \<not> unused fresh s' \<or> moved j s'"

definition serving :: "sched_sys \<Rightarrow> bool" where
  "serving s \<longleftrightarrow> sched_ok s \<and> smooth (sy_db s) \<and> (\<exists>q. sy_queue s = Some q \<and> \<not> q_shutdown q)"

lemma serving_eased: "serving s \<Longrightarrow> eased s t \<Longrightarrow> serving t"
  by (fastforce simp: serving_def eased_def calm_def jobs_kept_def sched_ok_def)

lemma accounted_push:
  assumes s: "serving s" and n: "near j s t" and "j_id job = j"
  shows "accounted fresh j s (push_job True job t)"
proof -
  obtain q where q: "sy_queue s = Some q" "\<not> q_shutdown q" "queue_ok q"
    using s by (auto simp: serving_def sched_ok_def)
  have "jobs_kept s t" "sched_ok t" using n s by (auto simp: near_def serving_def)
  then obtain q' where q': "sy_queue t = Some q'" "mset (q_heap q) \<subseteq># mset (q_heap q')" "\<not> q_shutdown q'" "queue_ok q'"
    using q by (auto simp: jobs_kept_def sched_ok_def)
  have "mset (q_heap (snd (push_locked True q' job))) = add_mset job (mset (q_heap q'))"
    using push_locked_spec [OF q'(4), of True job] q'(3) by simp
  moreover have "sy_queue (push_job True job t) = Some (snd (push_locked True q' job))"
    using q'(1) by (simp add: push_job_def split: prod.splits)
  ultimately show ?thesis using q(1) q'(2) assms(3) unfolding accounted_def by (metis mset_subset_eq_add_mset_cancel)
qed

lemma accounted_from:
  assumes "serving s" "near j s t" "accounted fresh j t u"
  shows "accounted fresh j s u"
proof -
  obtain q where q: "sy_queue s = Some q" "queue_ok q" using assms(1) by (auto simp: serving_def sched_ok_def)
  have "jobs_kept s t" using assms(1,2) by (auto simp: near_def serving_def)
  then obtain q' where q': "sy_queue t = Some q'" "mset (q_heap q) \<subseteq># mset (q_heap q')"
    using q by (auto simp: jobs_kept_def)
  have "add_mset job (mset (q_heap q)) \<subseteq># x" if "add_mset job (mset (q_heap q')) \<subseteq># x" for job x
    using that q'(2) by (meson mset_subset_eq_add_mset_cancel subset_mset.order_trans)
  then show ?thesis using assms(3) q(1) q'(1) unfolding accounted_def by fastforce
qed

lemma status_updates:
  assumes "smooth d"
  shows "db_status (snd (db_update_job_status j st e t d)) k = (if k = j then map_option (\<lambda>_. st) (db_status d k) else db_status d k)"
    "db_status (snd (db_update_status_reason j r d)) = db_status d"
    "db_status (snd (db_update_depends_on j ds d)) = db_status d"
proof -
  have ok: "fst (update_job j f d) = 0" for f
    using assms by (simp add: smooth_def update_job_def update_jobs_def update_rows_def sql_run_def sql_write_def)
  have 0: "db_update_job_status j st e t d = (0, snd (db_update_job_status j st e t d))"
    using ok by (metis db_update_job_status_def prod.collapse)
  show "db_status (snd (db_update_job_status j st e t d)) k = (if k = j then map_option (\<lambda>_. st) (db_status d k) else db_status d k)"
    using js.set_done [OF 0] by simp
  show "db_status (snd (db_update_status_reason j r d)) = db_status d"
    using js.note_keeps [of j r d] by (metis prod.collapse)
  show "db_status (snd (db_update_depends_on j ds d)) = db_status d"
    using update_job_status_of [OF prod.collapse [symmetric], where job_id = j and d = d and g = "\<lambda>s. s"
        and f = "\<lambda>r. r\<lparr>r_depends_on := ds\<rparr>"]
    by (auto simp: db_update_depends_on_def option.map_ident fun_eq_iff)
qed

lemma moved_hold: "smooth (sy_db s) \<Longrightarrow> moved j (hold_job j ds r s)"
  by (simp add: moved_def hold_job_def Let_def status_updates smooth_simps)

section \<open>Handing the job to the executor\<close>

text \<open>What the executor does besides never makes a row QUEUED again.\<close>

lemma status_run:
  assumes "\<And>t t' n. f t = Some (t', n) \<Longrightarrow> t_jobs t' = t_jobs t"
  shows "db_status (snd (sql_run f d)) = db_status d"
proof -
  have "t_jobs (db_tables (snd (sql_run f d))) = t_jobs (db_tables d)"
    using assms by (auto simp: sql_run_def sql_write_def sql_next_def Let_def split: list.splits sql_outcome.splits option.splits)
  then show ?thesis by (simp add: db_status_def lookup_status_def fun_eq_iff)
qed

lemma status_event: "db_status (snd (db_insert_event n c k dt u j m d)) = db_status d"
  unfolding db_insert_event_def by (rule status_run) auto

lemma moved_put [simp]: "moved j (put_execution p f s) = moved j s" "moved j (active_unregister p s) = moved j s"
  by (simp_all add: moved_def put_execution_def active_unregister_def)

lemma moved_release: "moved j (snd (alloc_release k s)) = moved j s"
proof -
  have "db_status (snd (db_release_allocation n k d)) = db_status d" for n d
    unfolding db_release_allocation_def by (rule status_run) (auto simp: Let_def split: prod.splits)
  then show ?thesis by (auto simp: moved_def alloc_release_def discard_record_def Let_def case_prod_beta split: option.split)
qed

lemma moved_record_event: "moved j (record_event env c t dt u k m s) = moved j s"
  by (simp add: moved_def record_event_def events_push_persistent_def status_event)

lemma moved_deprovision: "moved j (maybe_auto_deprovision env mid s) = moved j s"
  by (auto simp: moved_def maybe_auto_deprovision_def events_push_persistent_def status_event Let_def case_prod_beta
      split: option.split)

lemma moved_status:
  assumes "job_set_status_r pr job st reason s = (r, job', s')" "st \<noteq> JOB_STATUS_QUEUED" "moved j s"
  shows "moved j s'"
proof (cases "transition_allowed (j_status job) st")
  case True
  then show ?thesis using job_set_status_r_allowed [OF True assms(1)] assms(2,3) by (auto simp: moved_def split: if_splits)
next
  case False
  then show ?thesis using assms job_set_status_r_refused [OF False, of pr reason s] by simp
qed

lemma moved_to:
  assumes "job_set_status_r pr job st reason s = (r, job', s')" "st \<noteq> JOB_STATUS_QUEUED" "smooth (sy_db s)"
    "transition_allowed (j_status job) st"
  shows "moved (j_id job) s'"
  using job_set_status_r_allowed [OF assms(4,1)] assms(2) store_ok_no_failure [OF assms(3) [unfolded smooth_def]]
  by (auto simp: moved_def)

lemma moved_finish:
  assumes e: "find_execution p s = Some e" "\<not> ex_termination_requested e" and "st \<noteq> JOB_STATUS_QUEUED" "moved j s"
  shows "moved j (finish_without_process env p st reason s)"
proof -
  have rel: "moved j (release_execution env p t)" if "moved j t" for t
    using that by (auto simp: release_execution_def moved_deprovision moved_release split: option.split)
  have snap: "active_terminal_snapshot p 256 s = None" using e by (simp add: active_terminal_snapshot_def)
  let ?r = "buf 256 (case reason of None \<Rightarrow> ''Execution failed'' | Some r \<Rightarrow> r)"
  obtain x job s1 where j: "job_set_status_r (xe_print env) ((ex_job e)\<lparr>j_exit_code := -1\<rparr>) st (Some ?r) s = (x, job, s1)"
    by (metis prod_cases3)
  have "finish_without_process env p st reason s = release_execution env p (put_execution p (\<lambda>e. e\<lparr>ex_job := job\<rparr>) s1) \<or>
      finish_without_process env p st reason s = release_execution env p s"
    using e(1) j unfolding finish_without_process_def Let_def snap by auto
  then show ?thesis using rel assms(4) moved_status [OF j assms(3,4)] by auto
qed

lemma moved_started:
  assumes e: "find_execution p s = Some e" "\<not> ex_termination_requested e" "moved (j_id (ex_job e)) s"
    and run: "spawn_started env os p s = (b, s')"
  shows "moved (j_id (ex_job e)) s'"
proof -
  let ?j = "(ex_job e)\<lparr>j_started_at := sy_now s\<rparr>"
  obtain r d where d: "db_update_job_started (j_id (ex_job e)) (j_machine_id (ex_job e)) (sy_now s) (sy_db s) = (r, d)" by force
  let ?t = "(put_execution p (\<lambda>e. e\<lparr>ex_job := ?j\<rparr>) s)\<lparr>sy_db := d\<rparr>"
  have "find_execution p ?t = Some (e\<lparr>ex_job := ?j\<rparr>)"
    using find_execution_put [of p "\<lambda>e. e\<lparr>ex_job := ?j\<rparr>" p s] e(1) by (simp add: find_execution_def)
  moreover have "moved (j_id (ex_job e)) ?t"
    using e(3) update_job_status_of [OF d [unfolded db_update_job_started_def], of "\<lambda>_. JOB_STATUS_RUNNING"]
    by (auto simp: moved_def)
  ultimately show ?thesis using run e d moved_finish [of p ?t "e\<lparr>ex_job := ?j\<rparr>" JOB_STATUS_FAILED]
    by (auto simp: spawn_started_def Let_def split: if_splits)
qed

lemma moved_running:
  assumes e: "find_execution p s = Some e" "j_status (ex_job e) = JOB_STATUS_QUEUED" "smooth (sy_db s)"
    and run: "spawn_running env p s = (b, s')"
  shows "moved (j_id (ex_job e)) s' \<and> b"
proof -
  let ?job = "(ex_job e)\<lparr>j_input_dir := store_input_dir (cf_work_dir (xe_config env)) (j_id (ex_job e)) 512,
                        j_output_dir := store_output_dir (cf_work_dir (xe_config env)) (j_id (ex_job e)) 512\<rparr>"
  obtain r job s1 where j: "job_set_status_r (xe_print env) ?job JOB_STATUS_RUNNING (Some []) s = (r, job, s1)"
    by (metis prod_cases3)
  have t: "transition_allowed (j_status ?job) JOB_STATUS_RUNNING" using e(2) by simp
  have "r = 0" using job_set_status_r_allowed [OF t j] by simp
  then show ?thesis using run e(1) j moved_to [OF j _ e(3) t]
    by (auto simp: spawn_running_def job_set_status_def Let_def split: if_splits)
qed

lemma spawn_accounted:
  assumes s: "smooth (sy_db s)" "sched_ok s" "unused fresh s" and q: "j_status job = JOB_STATUS_QUEUED"
    and run: "snd (executor_spawn env os fresh job s) = s'"
  shows "\<not> unused fresh s' \<or> moved (j_id job) s'"
proof (cases "fresh = None \<or> sy_shutting_down s")
  case True
  obtain r job1 s1 where j: "job_set_status_r (xe_print env) job JOB_STATUS_FAILED
      (Some ''Executor unavailable'') s = (r, job1, s1)" by (metis prod_cases3)
  have "s' = snd (alloc_release (j_id job1) s1)"
    using run True j by (auto simp: executor_spawn_def spawn_register_def active_register_def split: option.splits)
  then show ?thesis using moved_to [OF j _ s(1)] q by (simp add: moved_release)
next
  case False
  then obtain p where p: "fresh = Some p" by auto
  define e where "e = \<lparr> ex_ptr = p, ex_job = job, ex_termination_requested = False,
    ex_terminal_status = JOB_STATUS_QUEUED, ex_terminal_reason = [], ex_pid = 0 \<rparr>"
  define s1 where "s1 = s\<lparr>sy_active := e # sy_active s\<rparr>"
  have 1: "spawn_register env (Some p) job s = (Some p, s1)" and e: "find_execution p s1 = Some e" "ex_job e = job"
      "\<not> ex_termination_requested e" and s1: "smooth (sy_db s1)" "sy_db s1 = sy_db s" "alloc_ok s1" "ptrs_ok s1"
    using False s p by (auto simp: spawn_register_def active_register_def find_execution_def ptrs_ok_def alloc_ok_def
        find_None_iff s1_def e_def sched_ok_def unused_def)
  obtain b2 s2 where 2: "spawn_check p s1 = (b2, s2)" by force
  obtain b3 s3 where 3: "spawn_running env p s2 = (b3, s3)" by force
  obtain b4 s4 where 4: "spawn_started env os p s3 = (b4, s4)" by force
  have s': "s' = (if \<not> b2 then s2 else if \<not> b3 then s3 else s4)"
    using run p 1 2 3 4 by (auto simp: executor_spawn_def split: bool.splits)
  show ?thesis
  proof (cases b2)
    case False
    have "db_status (sy_db s1) (j_id job) \<noteq> Some JOB_STATUS_QUEUED"
      using False 2 e db_get_job_status [of "sy_db s1" "j_id job"] s1(1)
      by (auto simp: spawn_check_def smooth_def row_to_job_def Let_def split: option.splits if_splits)
    moreover have "s2 = drop_execution p (j_id job) s1"
      using False 2 e db_get_job_status [of "sy_db s1" "j_id job"] s1(1)
      by (auto simp: spawn_check_def smooth_def Let_def split: option.splits if_splits)
    ultimately show ?thesis using False s' by (simp add: moved_def [of _ s1, symmetric] drop_execution_def moved_release)
  next
    case True
    have s2: "s2 = s1" using True 2 e smooth_get_job [OF s1(1)]
      by (auto simp: spawn_check_def Let_def split: option.splits if_splits prod.splits)
    have m3: "moved (j_id job) s3" "b3" using moved_running [OF e(1) _ s1(1) 3 [unfolded s2]] q e(2) by auto
    then obtain j where t: "turns p (Some (e\<lparr>ex_job := j\<rparr>)) s2 s3" "j_id j = j_id job"
      using spawn_running_turns [OF e(1) 3 [unfolded s2]] e(2) s2 by auto
    have "find_execution p s3 = Some (e\<lparr>ex_job := j\<rparr>)" using turnsD [OF t(1)] s1(3,4) s2 by simp
    from moved_started [OF this _ _ 4] show ?thesis using m3 t(2) e(3) s' True by simp
  qed
qed

lemma dispatch_accounted:
  assumes s: "serving s" "unused (pa_fresh pa) s" and q: "j_status job = JOB_STATUS_QUEUED"
  shows "accounted (pa_fresh pa) (j_id job) t (dispatch_on env pa job detail s)"
proof -
  let ?s1 = "record_event env ''job'' ''dispatch'' (buf 256 detail) (j_user_id job) (j_id job) (j_machine_id job) s"
  obtain c d where c: "db_get_job (j_id job) (sy_db ?s1) = (c, d)" by force
  have ea: "eased s ?s1" by (rule eased_record_event)
  then have s1: "serving ?s1" "unused (pa_fresh pa) ?s1"
    using serving_eased [OF s(1)] unused_near [OF calm_near] s(2) by (auto simp: eased_def)
  have d: "d = sy_db ?s1" using smooth_get_job [OF _ c] s1(1) by (simp add: serving_def)
  have "?s1\<lparr>sy_db := sy_db ?s1\<rparr> = ?s1" by simp
  then have run: "dispatch_on env pa job detail s =
      (case c of Some x \<Rightarrow> if j_status x = JOB_STATUS_QUEUED then snd (executor_spawn env (pa_os pa) (pa_fresh pa) job ?s1)
         else snd (alloc_release (j_id job) ?s1) | None \<Rightarrow> snd (alloc_release (j_id job) ?s1))"
    using c d unfolding dispatch_on_def scheduler_dispatch_def Let_def by (simp only: prod.case)
  have "moved (j_id job) ?s1" if "\<not> (\<exists>x. c = Some x \<and> j_status x = JOB_STATUS_QUEUED)"
    using that c db_get_job_status [of "sy_db ?s1" "j_id job"] s1(1)
    by (auto simp: moved_def serving_def smooth_def row_to_job_def)
  then show ?thesis using run spawn_accounted [OF _ _ s1(2) q refl, of env "pa_os pa"] s1(1)
    by (auto simp: accounted_def serving_def moved_release split: option.split)
qed

section \<open>The stages\<close>

lemma affinity_accounted:
  assumes s: "serving s" "unused (pa_fresh pa) s" and q: "j_status job = JOB_STATUS_QUEUED" "pa_push_ok pa"
      and len: "length (j_id job) < JOB_ID_LEN" and run: "affinity env pa job s = (stop, s')"
  shows "if stop then accounted (pa_fresh pa) (j_id job) s s' else s' = s"
proof (cases "j_same_machine_as job = []")
  case True
  then show ?thesis using run by (simp add: affinity_def)
next
  case False
  obtain ref d where d: "db_get_job (j_same_machine_as job) (sy_db s) = (ref, d)" by force
  have d': "d = sy_db s" using smooth_get_job [OF _ d] s(1) by (simp add: serving_def)
  have same: "s\<lparr>sy_db := d\<rparr> = s" using d' by simp
  have push: "accounted (pa_fresh pa) (j_id job) s (push_job (pa_push_ok pa) job (set_reason (j_id job) r t))"
    if "near (j_id job) s t" for r t
    using accounted_push [OF s(1) near_trans [OF that calm_near [OF calm_set_reason]]] q(2) by simp
  show ?thesis
  proof (cases ref)
    case None
    then show ?thesis using run False d same by (simp add: affinity_def)
  next
    case (Some rj)
    obtain r s2 where r: "alloc_reserve_on (pa_realloc_ok pa) (j_id job) (j_machine_id rj) (j_req_cores job)
        (j_req_gpu job) (j_req_ram_mb job) (j_req_disk_mb job) s = (r, s2)" by force
    have n: "near (j_id job) s s2" using near_reserve(2) [OF len _ r] s(1) by (auto simp: serving_def)
    have ok2: "sched_ok s2" "jobs_kept s s2" using n s(1) by (auto simp: near_def serving_def)
    moreover have "smooth (sy_db s2)" using smooth_reserve(2) [OF _ r] s(1) by (simp add: serving_def)
    ultimately have "serving s2" using s(1) by (fastforce simp: serving_def jobs_kept_def sched_ok_def)
    then have go: "accounted (pa_fresh pa) (j_id job) s (dispatch_on env pa (job\<lparr>j_machine_id := m\<rparr>) detail s2)" for m detail
      using dispatch_accounted [of s2 pa "job\<lparr>j_machine_id := m\<rparr>" s env detail] unused_near [OF n] s(2) q(1) by simp
    show ?thesis using run False d Some r go push [OF n] push [OF calm_near [OF calm_refl]] unfolding affinity_def Let_def
      by (auto simp del: append.simps simp: same split: if_splits)
  qed
qed

lemma presim_accounted:
  assumes s: "serving s" and run: "presim cfg pa job s = (stop, s')"
  shows "eased s s' \<and> (stop \<longrightarrow> moved (j_id job) s')"
proof -
  obtain child s1 where c: "job_create_ex (fst (pa_child pa 0)) (snd (pa_child pa 0)) (cf_work_dir cfg)
      (presim_cmd cfg pa job) (j_priority job + 5) 1 0 0 0 (Some (j_user_id job)) (Some ''presim'') s = (child, s1)" by force
  note e1 = eased_create [OF c]
  have e2: "eased s (push_job (pa_push_ok pa) k (sched_log x s1))" for k x
    by (rule eased_trans [OF eased_trans [OF e1 eased_log] eased_push])
  have "smooth (sy_db (push_job (pa_push_ok pa) k (sched_log x s1)))" for k x
    using e2 s by (simp add: eased_def serving_def)
  then show ?thesis using run c e1 eased_trans [OF e2 eased_hold] moved_hold
    by (auto simp: presim_def split: if_splits option.splits)
qed

lemma refine_accounted:
  assumes s: "serving s" and run: "refine_job cfg pa job pl s = (waits, s')"
  shows "eased s s' \<and> (waits \<longrightarrow> moved (j_id job) s')"
proof -
  have z: "eased s s1 \<and> smooth (sy_db s1)" if "refine_zones cfg pa job 0 zs ([], s) = (deps, s1)" for zs deps s1
    using eased_refine_zones [OF that] s by (simp add: eased_def serving_def)
  have "s' = s \<and> \<not> waits \<or> (\<exists>zs deps s1. refine_zones cfg pa job 0 zs ([], s) = (deps, s1) \<and>
      (s' = s1 \<and> \<not> waits \<or> s' = hold_job (j_id job) deps ''Waiting for refinement subjobs'' s1))"
    using run unfolding refine_job_def Let_def by (auto split: option.splits json.splits prod.splits if_splits)
  then show ?thesis
  proof (elim disjE exE conjE)
    fix zs deps s1 assume r: "refine_zones cfg pa job 0 zs ([], s) = (deps, s1)"
      and s': "s' = hold_job (j_id job) deps ''Waiting for refinement subjobs'' s1"
    show ?thesis unfolding s' using z [OF r] eased_trans eased_hold moved_hold by blast
  qed (simp_all add: z)
qed

lemma decide_accounted:
  assumes s: "serving s" and ok: "pa_push_ok pa" and run: "decide_queued cfg pa job s = (stop, job', s')"
  shows "eased s s' \<and> j_id job' = j_id job \<and> j_status job' = j_status job \<and>
    (stop \<longrightarrow> accounted fresh (j_id job) s s')"
proof -
  obtain ro s1 where 1: "sched_decide cfg pa job s = (ro, s1)" by force
  note e1 = eased_decide [OF 1]
  show ?thesis
  proof (cases "cf_experimental_features_enabled cfg = 0 \<or> ro = None")
    case True
    then show ?thesis using run 1 e1 by (auto simp: decide_queued_def split: if_splits)
  next
    case False
    then obtain res where res: "ro = Some res" by blast
    define s2 where "s2 = (if dr_allocation_json res \<noteq> [] then set_reason (j_id job) (dr_allocation_json res) s1 else s1)"
    define job1 where "job1 = raise_cores res job"
    obtain waits s3 where 3: "(if dr_action res = DC_ACTION_REFINE \<and> dr_allocation_json res \<noteq> []
        then refine_job cfg pa job1 (dr_allocation_json res) s2 else (False, s2)) = (waits, s3)" by force
    have j: "j_id job1 = j_id job" "j_status job1 = j_status job" by (simp_all add: job1_def raise_cores_def)
    have e2: "eased s s2" using e1 eased_trans [OF e1 eased_set_reason] by (simp add: s2_def)
    have e3: "eased s2 s3 \<and> (waits \<longrightarrow> moved (j_id job) s3)"
      using 3 refine_accounted [OF serving_eased [OF s e2], of cfg pa job1 "dr_allocation_json res" waits s3] j by (auto split: if_splits)
    then have E: "eased s s3" using e2 eased_trans by blast
    have "job' = job1 \<and> (s' = s3 \<and> stop = waits \<or> (\<exists>r. s' = set_reason (j_id job) r s3 \<and> \<not> stop) \<or>
        (\<exists>r. s' = push_job (pa_push_ok pa) job1 (set_reason (j_id job) r s3)))"
      using run False unfolding decide_queued_def 1 prod.case Let_def res option.case
      unfolding s2_def [symmetric] job1_def [symmetric] unfolding 3 prod.case
      by (auto split: if_splits)
    moreover have "accounted fresh (j_id job) s (push_job (pa_push_ok pa) job1 (set_reason (j_id job) r s3))" for r
      using accounted_push [OF s near_trans [OF calm_near calm_near [OF calm_set_reason]], of s3 job1] E j ok
      by (simp add: eased_def)
    moreover have "accounted fresh (j_id job) s s3" if waits using e3 that by (simp add: accounted_def)
    ultimately show ?thesis
      using E j eased_trans [OF E eased_set_reason] eased_trans [OF eased_trans [OF E eased_set_reason] eased_push] by blast
  qed
qed

lemma place_accounted:
  assumes s: "serving s" "unused (pa_fresh pa) s" and q: "j_status job = JOB_STATUS_QUEUED" "pa_push_ok pa"
    and fits: "job_fits job"
  shows "accounted (pa_fresh pa) (j_id job) s (place_job env pa job s)"
proof -
  have len: "length (j_id job) < JOB_ID_LEN" using fits by (simp add: job_fits_def)
  obtain mo s1 where r: "alloc_reserve (pa_snapshot_ok pa) (pa_realloc_ok pa) (j_id job) (j_req_cores job)
      (j_req_gpu job) (j_req_ram_mb job) (j_req_disk_mb job) s = (mo, s1)" by force
  have n: "near (j_id job) s s1" using near_reserve(1) [OF len _ r] s(1) by (auto simp: serving_def)
  have "sched_ok s1" "jobs_kept s s1" using n s(1) by (auto simp: near_def serving_def)
  moreover have "smooth (sy_db s1)" using smooth_reserve(1) [OF _ r] s(1) by (simp add: serving_def)
  ultimately have s1: "serving s1" using s(1) by (fastforce simp: serving_def jobs_kept_def sched_ok_def)
  have go: "accounted (pa_fresh pa) (j_id job) s (dispatch_on env pa (job\<lparr>j_machine_id := m\<rparr>) detail s1)" for m detail
    using dispatch_accounted [of s1 pa "job\<lparr>j_machine_id := m\<rparr>" s env detail] s1 unused_near [OF n] s(2) q(1) by simp
  have push: "accounted (pa_fresh pa) (j_id job) s (push_job (pa_push_ok pa) job t)" if "near (j_id job) s t" for t
    using accounted_push [OF s(1) that] q(2) by simp
  have "accounted (pa_fresh pa) (j_id job) s (wait_for_machine env pa job s)"
    using wait_cases [OF fits, of s env pa] push calm_near by metis
  then show ?thesis using r go push [OF n] push [OF near_trans [OF n near_release]] unfolding place_job_def Let_def
    by (auto simp del: append.simps split: option.splits)
qed

lemma scan_accounted:
  assumes s: "serving s" "unused (pa_fresh pa) s" and q: "j_status job = JOB_STATUS_QUEUED" "pa_push_ok pa"
    and fits: "job_fits job"
  shows "accounted (pa_fresh pa) (j_id job) s (scan_job env pa job s)"
proof -
  have len: "length (j_id job) < JOB_ID_LEN" using fits by (simp add: job_fits_def)
  have ok: "smooth (sy_db s)" "sched_ok s" using s(1) by (auto simp: serving_def)
  obtain persisted d where d: "db_get_job (j_id job) (sy_db s) = (persisted, d)" by force
  have d': "d = sy_db s" using smooth_get_job [OF ok(1) d] .
  obtain quota d2 where q2: "db_quota_check (j_user_id job) (j_app_id job) (j_req_cores job) (j_req_ram_mb job) 256 d =
      (quota, d2)" by force
  have d2: "d2 = sy_db s" using smooth_quota [OF _ q2] ok(1) d' by simp
  obtain stop3 s3 where 3: "affinity env pa job s = (stop3, s3)" by force
  obtain stop4 s4 where 4: "presim (xe_config env) pa job s3 = (stop4, s4)" by force
  obtain stop5 job5 s5 where 5: "decide_queued (xe_config env) pa job s4 = (stop5, job5, s5)" by (metis prod_cases3)
  note A = affinity_accounted [OF s q len 3]
  have late: "accounted (pa_fresh pa) (j_id job) s (if stop4 then s4 else if stop5 then s5 else place_job env pa job5 s5)"
    if "\<not> stop3"
  proof -
    have "s3 = s" using A that by simp
    then have P: "eased s s4" "stop4 \<longrightarrow> moved (j_id job) s4" using presim_accounted [OF _ 4] s(1) by auto
    note D = decide_accounted [OF serving_eased [OF s(1) P(1)] q(2) 5, of "pa_fresh pa"]
    have e5: "eased s s5" using P(1) D eased_trans by blast
    then have n5: "near (j_id job) s s5" "near (j_id job) s s4" using P(1) calm_near by (auto simp: eased_def)
    have s5: "serving s5" "unused (pa_fresh pa) s5" using serving_eased [OF s(1) e5] unused_near [OF n5(1)] s(2) by auto
    have "job_fits job5" using calm_decide_queued [OF 5] fits by (auto simp: job_fits_def)
    from place_accounted [OF s5 _ q(2) this, of env] have "accounted (pa_fresh pa) (j_id job) s (place_job env pa job5 s5)"
      using accounted_from [OF s(1) n5(1)] D q(1) by simp
    then show ?thesis using P(2) D accounted_from [OF s(1) n5(2)] by (auto simp: accounted_def)
  qed
  have requeue: "accounted (pa_fresh pa) (j_id job) s (push_job (pa_push_ok pa) job (set_reason (j_id job) r s))" for r
    using accounted_push [OF s(1) calm_near [OF calm_set_reason]] q(2) by simp
  have gone: "accounted (pa_fresh pa) (j_id job) s s" if "\<not> (\<exists>x. persisted = Some x \<and> j_status x = JOB_STATUS_QUEUED)"
    using that d db_get_job_status [of "sy_db s" "j_id job"] ok(1)
    by (auto simp: accounted_def moved_def smooth_def row_to_job_def)
  have same: "s\<lparr>sy_db := d\<rparr> = s" "s\<lparr>sy_db := d2\<rparr> = s" using d' d2 by simp_all
  show ?thesis
  proof (cases "\<exists>x. persisted = Some x \<and> j_status x = JOB_STATUS_QUEUED")
    case False
    then show ?thesis using gone d same(1) by (auto simp: scan_job_def Let_def split: option.split)
  next
    case True
    then have "scan_job env pa job s = (case quota of
        Inl reason \<Rightarrow> push_job (pa_push_ok pa) job (set_reason (j_id job) reason s)
      | Inr _ \<Rightarrow> if stop3 then s3 else if stop4 then s4 else if stop5 then s5 else place_job env pa job5 s5)"
      using d q2 3 4 5 unfolding scan_job_def Let_def by (auto simp: same(2) split: sum.split)
    then show ?thesis using requeue late A by (cases stop3) (auto split: sum.split)
  qed
qed

section \<open>Claims\<close>

text \<open>
  C2: no job is lost. With a database that works and memory for the queue, whatever the operating system,
  the decision core and the cloud answer, a job taken from an open queue is, after its pass, in the queue
  again (with every other one), or executing, or its row says that it is no longer QUEUED.
\<close>

theorem scheduler_loses_no_job:
  assumes "sched_ok s" "db_plan (sy_db s) = []" "sy_queue s = Some q" "\<not> q_shutdown q" "pa_push_ok pa"
    "pa_fresh pa = Some p" "find_execution p s = None" "job_fits job" "j_status job = JOB_STATUS_QUEUED"
    "scan_job env pa job s = s'"
  shows "(\<exists>q' job'. sy_queue s' = Some q' \<and> j_id job' = j_id job \<and>
      add_mset job' (mset (q_heap q)) \<subseteq># mset (q_heap q')) \<or>
    (\<exists>e. find_execution p s' = Some e \<and> j_id (ex_job e) = j_id job) \<or>
    db_status (sy_db s') (j_id job) \<noteq> Some JOB_STATUS_QUEUED"
proof -
  have s: "serving s" "unused (pa_fresh pa) s" using assms by (auto simp: serving_def smooth_def unused_def)
  have "pass_ok (pa_fresh pa) (j_id job) s s'" using scan_pass_ok [OF assms(1) s(2) assms(8), of env] assms(10) by simp
  then show ?thesis using scan_accounted [OF s assms(9,5,8), of env] assms(3,6,10)
    by (auto simp: accounted_def moved_def unused_def pass_ok_def)
qed

text \<open>A job that no machine can take is in the queue again.\<close>

theorem scheduler_loses_no_job_witness:
  "\<exists>q' job'. sy_queue (scan_job demo_env demo_pass demo_blocked demo_sched) = Some q' \<and> j_id job' = ''a'' \<and>
     job' \<in> set (q_heap q')"
proof -
  let ?s = "scan_job demo_env demo_pass demo_blocked demo_sched"
  have j: "job_fits demo_blocked" "j_id demo_blocked = ''a''" "j_status demo_blocked = JOB_STATUS_QUEUED"
    by (simp_all add: job_fits_def demo_blocked_def job_zero_def JOB_ID_LEN_def int32_def)
  have p: "pa_push_ok demo_pass" "pa_fresh demo_pass = Some 1" "find_execution 1 demo_sched = None"
    by (simp_all add: demo_pass_def find_execution_def demo_sched_def exec_sys.defs demo_exec_def life_sys.defs)
  have q: "db_plan (sy_db demo_sched) = []"
    "sy_queue demo_sched = Some \<lparr> q_heap = [], q_capacity = 64, q_shutdown = False \<rparr>" by code_simp+
  have b: "blocked demo_env demo_blocked demo_sched" unfolding blocked_def by code_simp+
  then obtain r where s: "?s = push_job True demo_blocked (set_reason ''a'' r demo_sched)" using blocked_scan p(1) j(2) by metis
  have "find_execution 1 ?s = None" using calm_find [OF calm_trans [OF calm_set_reason calm_push]] p(3) by (simp add: s)
  moreover have "db_status (sy_db ?s) ''a'' = Some JOB_STATUS_QUEUED"
    using set_reason_frame(3) [OF q(1), of "''a''" r] b j(2) by (simp add: s push_job_def blocked_def)
  ultimately
  show ?thesis using scheduler_loses_no_job [OF demo_sched_ok q _ p j(1,3) refl, of demo_env] j(2) by auto
qed

end
