(* ===== verification/AppCommand.thy ===== *)
theory AppCommand
  imports Script
begin

text \<open>
  Application definitions of \<open>src/http/routes.c\<close>: their validation, the conversion of parameters to
  text, and the resolution of a command template with the parameters of a request.

  An error is the text left in \<open>err_buf\<close>, which every caller declares with 256 bytes. The file of a
  definition, whether it can be read, the parser, the printer and the memory for JSON objects are
  fields of \<open>app_files\<close>. The replacement of a placeholder is a loop that need not end for every
  value, hence a \<open>partial_function\<close>; \<open>None\<close> means that it runs for ever.
\<close>

section \<open>Model\<close>

record app_resources =
  ap_req_cores :: int
  ap_req_gpu :: int
  ap_req_ram_mb :: int
  ap_req_disk_mb :: int

definition app_resources_defaults :: app_resources where
  "app_resources_defaults = \<lparr> ap_req_cores = 1, ap_req_gpu = 0, ap_req_ram_mb = 0, ap_req_disk_mb = 0 \<rparr>"

record app_files =
  af_dir :: string
  af_file :: "string \<Rightarrow> string option"
  af_read_ok :: bool
  af_reread_ok :: bool
  af_parse :: "string \<Rightarrow> json option"
  af_print :: "json \<Rightarrow> string option"
  af_create_ok :: bool
  af_add_ok :: "string \<Rightarrow> bool"

definition refuse :: "string \<Rightarrow> string + 'a" where
  "refuse msg = Inl (buf 256 msg)"

definition sq :: "string \<Rightarrow> string" where
  "sq s = CHR 0x27 # s @ [CHR 0x27]"

subsection \<open>Characters\<close>

definition safe_cli_name :: "string \<Rightarrow> bool" where
  "safe_cli_name name \<longleftrightarrow> name \<noteq> [] \<and> length name \<le> 64 \<and>
     list_all (\<lambda>c. is_alnum c \<or> c = CHR ''_'' \<or> c = CHR ''-'') name"

definition safe_cli_char :: "char \<Rightarrow> bool" where
  "safe_cli_char c \<longleftrightarrow> is_alnum c \<or> c \<in> set '' _-./:@+,=''"

definition safe_cli_value :: "string \<Rightarrow> bool" where
  "safe_cli_value v \<longleftrightarrow> length v \<le> 256 \<and> list_all safe_cli_char v"

definition safe_display_text :: "string \<Rightarrow> nat \<Rightarrow> bool" where
  "safe_display_text v maximum_length \<longleftrightarrow> length v \<le> maximum_length \<and>
     list_all (\<lambda>c. \<not> (of_char c :: nat) < 0x20 \<and> (of_char c :: nat) \<noteq> 0x7f) v"

subsection \<open>Numbers\<close>

text \<open>
  \<open>printf("%.15g")\<close>: 15 significant digits, a tie to the even digit, trailing zeros dropped. A double
  other than zero lies between 1e-324 and 1e309, so that 400 steps find its decimal exponent. The sign
  of a zero is not kept.
\<close>

fun decimal_exponent :: "nat \<Rightarrow> real \<Rightarrow> int" where
  "decimal_exponent 0 x = 0"
| "decimal_exponent (Suc n) x =
     (if x \<ge> 10 then decimal_exponent n (x / 10) + 1
      else if x < 1 then decimal_exponent n (x * 10) - 1 else 0)"

definition half_even :: "real \<Rightarrow> int" where
  "half_even x = (let f = \<lfloor>x\<rfloor>; r = x - of_int f in
     if r < 1 / 2 then f else if r > 1 / 2 then f + 1 else if even f then f else f + 1)"

definition with_fraction :: "string \<Rightarrow> string \<Rightarrow> string" where
  "with_fraction whole fraction =
     (let f = rev (dropWhile (\<lambda>c. c = CHR ''0'') (rev fraction)) in if f = [] then whole else whole @ ''.'' @ f)"

definition printf_g15 :: "real \<Rightarrow> string" where
  "printf_g15 x =
     (if x = 0 then ''0''
      else let a = \<bar>x\<bar>; e0 = decimal_exponent 400 a;
               d0 = half_even (if e0 \<le> 14 then a * 10 ^ nat (14 - e0) else a / 10 ^ nat (e0 - 14));
               (d, e) = (if d0 = 10 ^ 15 then (10 ^ 14, e0 + 1) else (d0, e0));
               ds = dec_nat (nat d)
           in (if x < 0 then ''-'' else []) @
              (if 0 \<le> e \<and> e < 15 then with_fraction (take (nat e + 1) ds) (drop (nat e + 1) ds)
               else if -4 \<le> e \<and> e < 0 then with_fraction ''0'' (replicate (nat (- e - 1)) CHR ''0'' @ ds)
               else with_fraction (take 1 ds) (drop 1 ds) @ ''e'' @ (if e < 0 then ''-'' else ''+'') @
                    (if \<bar>e\<bar> < 10 then ''0'' else []) @ dec_nat (nat \<bar>e\<bar>)))"

fun num_less :: "cnum \<Rightarrow> cnum \<Rightarrow> bool" where
  "num_less (Finite a) (Finite b) = (a < b)"
| "num_less (Finite a) (Infinite p) = p"
| "num_less (Infinite p) (Finite b) = (\<not> p)"
| "num_less (Infinite p) (Infinite q) = (\<not> p \<and> q)"

subsection \<open>Parameters\<close>

definition find_app_field :: "json option \<Rightarrow> string \<Rightarrow> json option" where
  "find_app_field flds name =
     (case array_items flds of
        None \<Rightarrow> None
      | Some xs \<Rightarrow> find (\<lambda>field. string_value (get_item field ''name'') = Some name) xs)"

definition param_type :: "json \<Rightarrow> string" where
  "param_type def = (case string_value (get_item def ''type'') of Some t \<Rightarrow> t | None \<Rightarrow> ''text'')"

definition number_to_text :: "string \<Rightarrow> json \<Rightarrow> json \<Rightarrow> string + string" where
  "number_to_text name def v =
     (case v of
        JNumber (Finite x) \<Rightarrow>
          if (case get_item def ''min'' of Some (JNumber m) \<Rightarrow> num_less (Finite x) m | _ \<Rightarrow> False) \<or>
             (case get_item def ''max'' of Some (JNumber m) \<Rightarrow> num_less m (Finite x) | _ \<Rightarrow> False)
          then refuse (''Parameter '' @ sq name @ '' is outside its allowed range'')
          else Inr (buf 257 (printf_g15 x))
      | _ \<Rightarrow> refuse (''Parameter '' @ sq name @ '' must be a finite number''))"

text \<open>An infinite \<open>max_length\<close> does not get here: \<open>validate_app_parameter\<close> has refused it.\<close>

definition too_long :: "json \<Rightarrow> string \<Rightarrow> bool" where
  "too_long def s =
     (case get_item def ''max_length'' of
        Some (JNumber (Finite m)) \<Rightarrow> m \<ge> 0 \<and> int (length s) > \<lfloor>m\<rfloor>
      | _ \<Rightarrow> False)"

definition text_to_text :: "string \<Rightarrow> json \<Rightarrow> string \<Rightarrow> string + string" where
  "text_to_text name def s =
     (if too_long def s then refuse (''Parameter '' @ sq name @ '' is too long'') else Inr (buf 257 s))"

definition parameter_to_text :: "string \<Rightarrow> json \<Rightarrow> json \<Rightarrow> string + string" where
  "parameter_to_text name def v =
     (let ty = param_type def in
      if ty = ''checkbox'' then
        (case v of
           JBool b \<Rightarrow> Inr (if b then ''true'' else ''false'')
         | _ \<Rightarrow> refuse (''Parameter '' @ sq name @ '' must be a boolean''))
      else if ty = ''number'' then number_to_text name def v
      else case v of
        JString s \<Rightarrow>
          if \<not> safe_cli_value s then refuse (''Parameter '' @ sq name @ '' contains unsupported characters'')
          else if ty = ''select'' then
            (case array_items (get_item def ''options'') of
               None \<Rightarrow> refuse (''Parameter '' @ sq name @ '' has no valid option list'')
             | Some opts \<Rightarrow>
                 if JString s \<notin> set opts then refuse (''Parameter '' @ sq name @ '' is not an allowed option'')
                 else text_to_text name def s)
          else if ty \<noteq> ''text'' then
            refuse (''Parameter '' @ sq name @ '' has unsupported type '' @ sq ty)
          else text_to_text name def s
      | _ \<Rightarrow> refuse (''Parameter '' @ sq name @ '' must be a string''))"

definition read_app_resource :: "json \<Rightarrow> string \<Rightarrow> int \<Rightarrow> int \<Rightarrow> int \<Rightarrow> string + int" where
  "read_app_resource app key fallback minimum maximum =
     (case get_item app key of
        None \<Rightarrow> Inr fallback
      | Some item \<Rightarrow>
          (case whole_number item minimum maximum of
             None \<Rightarrow> refuse (''App resource '' @ sq key @ '' is invalid'')
           | Some v \<Rightarrow> Inr v))"

definition read_resources :: "json \<Rightarrow> string + app_resources" where
  "read_resources app =
     (case read_app_resource app ''req_cores'' 1 1 10000 of Inl e \<Rightarrow> Inl e | Inr cores \<Rightarrow>
      case read_app_resource app ''req_gpu'' 0 0 1000 of Inl e \<Rightarrow> Inl e | Inr gpu \<Rightarrow>
      case read_app_resource app ''req_ram_mb'' 0 0 10000000 of Inl e \<Rightarrow> Inl e | Inr ram \<Rightarrow>
      case read_app_resource app ''req_disk_mb'' 0 0 10000000 of Inl e \<Rightarrow> Inl e | Inr disk \<Rightarrow>
        Inr \<lparr> ap_req_cores = cores, ap_req_gpu = gpu, ap_req_ram_mb = ram, ap_req_disk_mb = disk \<rparr>)"

subsection \<open>Validation of a definition\<close>

definition bad_display :: "json \<Rightarrow> string \<Rightarrow> nat \<Rightarrow> bool" where
  "bad_display def key n =
     (case get_item def key of
        None \<Rightarrow> False
      | Some (JString s) \<Rightarrow> \<not> safe_display_text s n
      | Some _ \<Rightarrow> True)"

definition bad_range :: "json \<Rightarrow> bool" where
  "bad_range def \<longleftrightarrow>
     (case get_item def ''min'' of None \<Rightarrow> False | Some (JNumber (Finite _)) \<Rightarrow> False | _ \<Rightarrow> True) \<or>
     (case get_item def ''max'' of None \<Rightarrow> False | Some (JNumber (Finite _)) \<Rightarrow> False | _ \<Rightarrow> True) \<or>
     (case (get_item def ''min'', get_item def ''max'') of
        (Some (JNumber lo), Some (JNumber hi)) \<Rightarrow> num_less hi lo
      | _ \<Rightarrow> False)"

text \<open>The loop over the options; \<open>prior\<close> are those before.\<close>

fun check_options :: "string \<Rightarrow> json list \<Rightarrow> json list \<Rightarrow> string + unit" where
  "check_options name prior [] = Inr ()"
| "check_options name prior (opt # opts) =
     (case opt of
        JString s \<Rightarrow>
          if \<not> safe_cli_value s then refuse (''Parameter '' @ sq name @ '' contains an invalid option'')
          else if opt \<in> set prior then refuse (''Parameter '' @ sq name @ '' contains duplicate options'')
          else check_options name (prior @ [opt]) opts
      | _ \<Rightarrow> refuse (''Parameter '' @ sq name @ '' contains an invalid option''))"

definition validate_options :: "string \<Rightarrow> json \<Rightarrow> string + unit" where
  "validate_options name def =
     (if param_type def \<noteq> ''select'' then Inr ()
      else let opts = (case array_items (get_item def ''options'') of Some xs \<Rightarrow> xs | None \<Rightarrow> []) in
           if length opts < 1 \<or> length opts > 100
           then refuse (''Parameter '' @ sq name @ '' must define 1-100 options'')
           else check_options name [] opts)"

definition validate_default :: "string \<Rightarrow> json \<Rightarrow> string + unit" where
  "validate_default name def =
     (case get_item def ''default'' of
        None \<Rightarrow> Inr ()
      | Some v \<Rightarrow> (case parameter_to_text name def v of Inl e \<Rightarrow> Inl e | Inr _ \<Rightarrow> Inr ()))"

definition validate_app_parameter :: "string \<Rightarrow> json \<Rightarrow> bool \<Rightarrow> string + unit" where
  "validate_app_parameter name def require_type =
     (if \<not> safe_cli_name name \<or> \<not> (case def of JObject _ \<Rightarrow> True | _ \<Rightarrow> False)
      then refuse ''Invalid app parameter definition''
      else if (case get_item def ''type'' of None \<Rightarrow> require_type | Some (JString _) \<Rightarrow> False | Some _ \<Rightarrow> True)
      then refuse (''Parameter '' @ sq name @ '' must declare a valid type'')
      else if param_type def \<notin> {''checkbox'', ''select'', ''text'', ''number''}
      then refuse (''Parameter '' @ sq name @ '' has unsupported type '' @ sq (param_type def))
      else if bad_display def ''label'' 128 \<or> bad_display def ''placeholder'' 256
      then refuse (''Parameter '' @ sq name @ '' has invalid display text'')
      else if bad_range def then refuse (''Parameter '' @ sq name @ '' has an invalid numeric range'')
      else if (case get_item def ''max_length'' of None \<Rightarrow> False | Some m \<Rightarrow> whole_number m 0 256 = None)
      then refuse (''Parameter '' @ sq name @ '' has an invalid max_length'')
      else case validate_options name def of
        Inl e \<Rightarrow> Inl e
      | Inr _ \<Rightarrow> validate_default name def)"

fun check_parameters :: "string list \<Rightarrow> (string \<times> json) list \<Rightarrow> string + unit" where
  "check_parameters prior [] = Inr ()"
| "check_parameters prior ((name, def) # kvs) =
     (case validate_app_parameter name def False of
        Inl e \<Rightarrow> Inl e
      | Inr _ \<Rightarrow> if name \<in> set prior then refuse (''Duplicate parameter '' @ sq name)
                 else check_parameters (prior @ [name]) kvs)"

text \<open>A field whose name is no string leaves \<open>err_buf\<close> as the caller cleared it.\<close>

fun check_fields :: "json option \<Rightarrow> string list \<Rightarrow> json list \<Rightarrow> string + unit" where
  "check_fields params prior [] = Inr ()"
| "check_fields params prior (field # rest) =
     (case string_value (get_item field ''name'') of
        None \<Rightarrow> Inl []
      | Some name \<Rightarrow>
          (case validate_app_parameter name field True of
             Inl e \<Rightarrow> Inl e
           | Inr _ \<Rightarrow>
               if (case params of Some p \<Rightarrow> get_item p name \<noteq> None | None \<Rightarrow> False)
               then refuse (''Duplicate parameter '' @ sq name)
               else if name \<in> set prior then refuse (''Duplicate field '' @ sq name)
               else check_fields params (prior @ [name]) rest))"

definition one_line :: "string \<Rightarrow> bool" where
  "one_line s \<longleftrightarrow> carriage_return \<notin> set s \<and> newline \<notin> set s"

definition valid_env :: "json option \<Rightarrow> string + unit" where
  "valid_env env =
     (case env of
        None \<Rightarrow> Inr ()
      | Some (JObject kvs) \<Rightarrow>
          if length kvs > 64 then refuse ''App environment is invalid''
          else if list_all (\<lambda>(k, v). safe_cli_name k \<and>
                 (case v of JString s \<Rightarrow> length s \<le> 1024 \<and> one_line s | _ \<Rightarrow> False)) kvs
          then Inr () else refuse ''App environment contains an invalid entry''
      | Some _ \<Rightarrow> refuse ''App environment is invalid'')"

definition valid_head :: "json \<Rightarrow> bool" where
  "valid_head app =
     (case (string_value (get_item app ''app_id''), string_value (get_item app ''name''),
            string_value (get_item app ''command_template'')) of
        (Some app_id, Some name, Some command) \<Rightarrow>
          safe_cli_name app_id \<and> name \<noteq> [] \<and> safe_display_text name 128 \<and>
          command \<noteq> [] \<and> length command < JOB_CMD_LEN \<and> one_line command
      | _ \<Rightarrow> False)"

definition bad_members :: "json option \<Rightarrow> json option \<Rightarrow> bool" where
  "bad_members params flds \<longleftrightarrow>
     (case params of None \<Rightarrow> False | Some (JObject kvs) \<Rightarrow> length kvs > 64 | Some _ \<Rightarrow> True) \<or>
     (case flds of None \<Rightarrow> False | Some (JArray xs) \<Rightarrow> length xs > 64 | Some _ \<Rightarrow> True)"

definition object_members :: "json option \<Rightarrow> (string \<times> json) list" where
  "object_members x = (case x of Some (JObject kvs) \<Rightarrow> kvs | _ \<Rightarrow> [])"

definition array_members :: "json option \<Rightarrow> json list" where
  "array_members x = (case x of Some (JArray xs) \<Rightarrow> xs | _ \<Rightarrow> [])"

definition validate_app_definition :: "json \<Rightarrow> string + unit" where
  "validate_app_definition app =
     (case app of
        JObject _ \<Rightarrow>
          if \<not> valid_head app then refuse ''App id, name or command template is invalid''
          else (case read_resources app of
             Inl e \<Rightarrow> Inl e
           | Inr _ \<Rightarrow>
               let params = get_item app ''parameters''; flds = get_item app ''fields'' in
               if bad_members params flds then refuse ''App fields or parameters are invalid''
               else case check_parameters [] (object_members params) of
                 Inl e \<Rightarrow> Inl e
               | Inr _ \<Rightarrow>
                   (case check_fields params [] (array_members flds) of
                      Inl e \<Rightarrow> Inl e
                    | Inr _ \<Rightarrow> valid_env (get_item app ''env'')))
      | _ \<Rightarrow> refuse ''App definition must be an object'')"

subsection \<open>Loading a definition\<close>

definition app_path :: "app_files \<Rightarrow> string \<Rightarrow> string" where
  "app_path af app_id = buf 768 (af_dir af @ ''/'' @ app_id @ ''.json'')"

text \<open>Opening, measuring, reading and parsing the file; \<open>ok\<close>: memory and the read succeed.\<close>

definition read_app :: "app_files \<Rightarrow> bool \<Rightarrow> string \<Rightarrow> string + json" where
  "read_app af ok app_id =
     (case af_file af (app_path af app_id) of
        None \<Rightarrow> refuse (''App not found: '' @ app_id)
      | Some content \<Rightarrow>
          if content = [] \<or> length content > 65536 then refuse ''App file invalid or too large''
          else if \<not> ok then refuse ''Failed to read app definition''
          else case af_parse af content of
            None \<Rightarrow> refuse ''App JSON parse error''
          | Some app \<Rightarrow> Inr app)"

definition load_app_definition :: "app_files \<Rightarrow> string \<Rightarrow> string + json" where
  "load_app_definition af app_id =
     (if \<not> safe_cli_name app_id then refuse ''Invalid app_id characters''
      else case read_app af (af_read_ok af) app_id of
        Inl e \<Rightarrow> Inl e
      | Inr app \<Rightarrow>
          (case validate_app_definition app of
             Inl e \<Rightarrow> Inl e
           | Inr _ \<Rightarrow>
               if string_value (get_item app ''app_id'') \<noteq> Some app_id
               then refuse ''App id does not match its filename'' else Inr app))"

subsection \<open>Replacing placeholders\<close>

text \<open>\<open>strstr\<close>: what precedes the first occurrence and what follows it.\<close>

fun strstr :: "string \<Rightarrow> string \<Rightarrow> (string \<times> string) option" where
  "strstr pat s =
     (if take (length pat) s = pat then Some ([], drop (length pat) s)
      else case s of [] \<Rightarrow> None | c # cs \<Rightarrow> map_option (\<lambda>(b, a). (c # b, a)) (strstr pat cs))"

declare strstr.simps [simp del]

definition placeholder :: "string \<Rightarrow> string" where
  "placeholder name = buf 140 (''{{'' @ name @ ''}}'')"

partial_function (option) replace_all :: "string \<Rightarrow> string \<Rightarrow> string \<Rightarrow> string option" where
  "replace_all pat v resolved =
     (case strstr pat resolved of
        None \<Rightarrow> Some resolved
      | Some (before, after) \<Rightarrow> replace_all pat v (buf JOB_CMD_LEN (before @ v @ after)))"

declare replace_all.simps [code]

definition forbidden :: "char set" where
  "forbidden = set '';|&$(){}<>!'' \<union> {btick, bslash, newline, carriage_return}"

text \<open>The loop over the user's parameters; those that are no string are passed over.\<close>

fun subst_params :: "string \<Rightarrow> json option \<Rightarrow> json option \<Rightarrow> (string \<times> json) list \<Rightarrow> string \<Rightarrow> (string + string) option" where
  "subst_params app_id params flds [] resolved = Some (Inr resolved)"
| "subst_params app_id params flds ((key, JString v) # kvs) resolved =
     (if list_ex (\<lambda>c. c \<in> forbidden) v then Some (refuse (''Forbidden character in parameter '' @ sq key))
      else if (case params of None \<Rightarrow> False | Some p \<Rightarrow> get_item p key = None \<and> find_app_field flds key = None)
      then Some (refuse (''Unknown parameter '' @ sq key @ '' for app '' @ sq app_id))
      else case replace_all (placeholder key) v resolved of
        None \<Rightarrow> None
      | Some resolved' \<Rightarrow> subst_params app_id params flds kvs resolved')"
| "subst_params app_id params flds (_ # kvs) resolved = subst_params app_id params flds kvs resolved"

fun fill_defaults :: "(string \<times> json) list \<Rightarrow> string \<Rightarrow> (string + string) option" where
  "fill_defaults [] resolved = Some (Inr resolved)"
| "fill_defaults ((key, decl) # kvs) resolved =
     (if strstr (placeholder key) resolved = None then fill_defaults kvs resolved
      else case string_value (get_item decl ''default'') of
        None \<Rightarrow> Some (refuse (''Required parameter '' @ sq key @ '' not provided''))
      | Some v \<Rightarrow>
          (case replace_all (placeholder key) v resolved of
             None \<Rightarrow> None
           | Some resolved' \<Rightarrow> fill_defaults kvs resolved'))"

definition flag_of :: "json \<Rightarrow> json option \<Rightarrow> string \<Rightarrow> string \<Rightarrow> string" where
  "flag_of field pval fname ftype =
     (if ftype = ''checkbox'' then
        (if (case pval of
               Some (JBool b) \<Rightarrow> b
             | Some (JString s) \<Rightarrow> s = ''true''
             | Some _ \<Rightarrow> False
             | None \<Rightarrow> get_item field ''default'' = Some (JBool True))
         then '' --'' @ fname else [])
      else case (case pval of Some p \<Rightarrow> string_value (Some p) | None \<Rightarrow> string_value (get_item field ''default'')) of
        None \<Rightarrow> []
      | Some v \<Rightarrow> if v = [] then [] else '' --'' @ fname @ '' '' @ v)"

text \<open>The flags of the fields the template has no placeholder for.\<close>

fun append_flags :: "string \<Rightarrow> json option \<Rightarrow> json list \<Rightarrow> string \<Rightarrow> string" where
  "append_flags template user_params [] resolved = resolved"
| "append_flags template user_params (field # rest) resolved =
     (case (string_value (get_item field ''name''), string_value (get_item field ''type'')) of
        (Some fname, Some ftype) \<Rightarrow>
          if strstr (placeholder fname) template \<noteq> None then append_flags template user_params rest resolved
          else let pval = (case user_params of None \<Rightarrow> None | Some p \<Rightarrow> get_item p fname)
               in append_flags template user_params rest
                    (buf JOB_CMD_LEN (resolved @ flag_of field pval fname ftype))
      | _ \<Rightarrow> append_flags template user_params rest resolved)"

definition app_id_chars :: "string \<Rightarrow> bool" where
  "app_id_chars app_id = list_all (\<lambda>c. is_alnum c \<or> c = CHR ''_'' \<or> c = CHR ''-'') app_id"

definition app_env_json :: "app_files \<Rightarrow> json \<Rightarrow> string option" where
  "app_env_json af app =
     (case get_item app ''env'' of Some (JObject kvs) \<Rightarrow> af_print af (JObject kvs) | _ \<Rightarrow> None)"

definition resolve_app_command_legacy ::
  "app_files \<Rightarrow> string \<Rightarrow> json option \<Rightarrow> nat \<Rightarrow> (string + string \<times> string option) option" where
  "resolve_app_command_legacy af app_id user_params out_cmd_len =
     (if \<not> app_id_chars app_id then Some (refuse ''Invalid app_id characters'')
      else case read_app af (af_reread_ok af) app_id of
        Inl e \<Rightarrow> Some (Inl e)
      | Inr app \<Rightarrow>
          (case string_value (get_item app ''command_template'') of
             None \<Rightarrow> Some (refuse (''App missing '' @ sq ''command_template''))
           | Some template \<Rightarrow>
               if template = [] then Some (refuse (''App missing '' @ sq ''command_template''))
               else let params = get_item app ''parameters''; flds = get_item app ''fields'' in
               case subst_params app_id params flds (object_members user_params) (buf JOB_CMD_LEN template) of
                 None \<Rightarrow> None
               | Some (Inl e) \<Rightarrow> Some (Inl e)
               | Some (Inr resolved) \<Rightarrow>
                   (case fill_defaults (object_members params) resolved of
                      None \<Rightarrow> None
                    | Some (Inl e) \<Rightarrow> Some (Inl e)
                    | Some (Inr resolved') \<Rightarrow>
                        Some (Inr (buf out_cmd_len (append_flags template user_params (array_members flds) resolved'),
                                   app_env_json af app)))))"

subsection \<open>Normalising the parameters\<close>

definition is_object :: "json option \<Rightarrow> bool" where
  "is_object x = (case x of Some (JObject _) \<Rightarrow> True | _ \<Rightarrow> False)"

text \<open>The loop that refuses unknown and ill-typed parameters.\<close>

fun check_supplied :: "string \<Rightarrow> json option \<Rightarrow> json option \<Rightarrow> (string \<times> json) list \<Rightarrow> string + unit" where
  "check_supplied app_id params flds [] = Inr ()"
| "check_supplied app_id params flds ((key, v) # kvs) =
     (let def = (case find_app_field flds key of
                   Some f \<Rightarrow> Some f
                 | None \<Rightarrow> (case params of None \<Rightarrow> None | Some p \<Rightarrow> get_item p key))
      in case def of
           Some (JObject ms) \<Rightarrow>
             if \<not> safe_cli_name key then refuse (''Unknown parameter '' @ sq key @ '' for app '' @ sq app_id)
             else (case parameter_to_text key (JObject ms) v of
                     Inl e \<Rightarrow> Inl e
                   | Inr _ \<Rightarrow> check_supplied app_id params flds kvs)
         | _ \<Rightarrow> refuse (''Unknown parameter '' @ sq key @ '' for app '' @ sq app_id))"

definition supplied_value :: "json option \<Rightarrow> string \<Rightarrow> json \<Rightarrow> json option" where
  "supplied_value user_params key def =
     (case (case user_params of None \<Rightarrow> None | Some p \<Rightarrow> get_item p key) of
        Some v \<Rightarrow> Some v
      | None \<Rightarrow> get_item def ''default'')"

definition add_text :: "app_files \<Rightarrow> string \<Rightarrow> string \<Rightarrow> (string \<times> json) list \<Rightarrow> string + (string \<times> json) list" where
  "add_text af key v kvs = (if af_add_ok af key then Inr (kvs @ [(key, JString v)]) else refuse ''Out of memory'')"

fun normalize_params ::
  "app_files \<Rightarrow> string \<Rightarrow> json option \<Rightarrow> (string \<times> json) list \<Rightarrow> (string \<times> json) list \<Rightarrow> string + (string \<times> json) list" where
  "normalize_params af template user_params [] acc = Inr acc"
| "normalize_params af template user_params ((key, def) # defs) acc =
     (if \<not> safe_cli_name key \<or> \<not> is_object (Some def) then refuse ''Invalid app parameter definition''
      else case supplied_value user_params key def of
        None \<Rightarrow>
          if strstr (placeholder key) template \<noteq> None
          then refuse (''Required parameter '' @ sq key @ '' not provided'')
          else normalize_params af template user_params defs acc
      | Some v \<Rightarrow>
          (case parameter_to_text key def v of
             Inl e \<Rightarrow> Inl e
           | Inr t \<Rightarrow>
               (case add_text af key t acc of
                  Inl e \<Rightarrow> Inl e
                | Inr acc' \<Rightarrow> normalize_params af template user_params defs acc')))"

definition field_text :: "string \<Rightarrow> json option \<Rightarrow> string \<Rightarrow> string \<Rightarrow> json \<Rightarrow> string + string option" where
  "field_text template user_params name ty field =
     (case supplied_value user_params name field of
        Some v \<Rightarrow> (case parameter_to_text name field v of Inl e \<Rightarrow> Inl e | Inr t \<Rightarrow> Inr (Some t))
      | None \<Rightarrow>
          if ty = ''checkbox'' then Inr (Some ''false'')
          else if strstr (placeholder name) template \<noteq> None
          then refuse (''Required parameter '' @ sq name @ '' not provided'') else Inr None)"

fun normalize_fields ::
  "app_files \<Rightarrow> string \<Rightarrow> json option \<Rightarrow> json list \<Rightarrow> (string \<times> json) list \<Rightarrow> string + (string \<times> json) list" where
  "normalize_fields af template user_params [] acc = Inr acc"
| "normalize_fields af template user_params (field # rest) acc =
     (case (string_value (get_item field ''name''), string_value (get_item field ''type'')) of
        (Some name, Some ty) \<Rightarrow>
          if \<not> safe_cli_name name then refuse ''Invalid app field definition''
          else if map_of acc name \<noteq> None then normalize_fields af template user_params rest acc
          else (case field_text template user_params name ty field of
             Inl e \<Rightarrow> Inl e
           | Inr None \<Rightarrow> normalize_fields af template user_params rest acc
           | Inr (Some t) \<Rightarrow>
               (case add_text af name t acc of
                  Inl e \<Rightarrow> Inl e
                | Inr acc' \<Rightarrow> normalize_fields af template user_params rest acc'))
      | _ \<Rightarrow> refuse ''Invalid app field definition'')"

definition normalized_params :: "app_files \<Rightarrow> string \<Rightarrow> json option \<Rightarrow> json \<Rightarrow> string \<Rightarrow> string + (string \<times> json) list" where
  "normalized_params af app_id user_params app template =
     (let params = get_item app ''parameters''; flds = get_item app ''fields'' in
      case check_supplied app_id params flds (object_members user_params) of
        Inl e \<Rightarrow> Inl e
      | Inr _ \<Rightarrow>
          if \<not> af_create_ok af then refuse ''Out of memory''
          else case normalize_params af template user_params (object_members params) [] of
            Inl e \<Rightarrow> Inl e
          | Inr acc \<Rightarrow> normalize_fields af template user_params (array_members flds) acc)"

definition bad_definition :: "json \<Rightarrow> bool" where
  "bad_definition app \<longleftrightarrow>
     (case string_value (get_item app ''command_template'') of None \<Rightarrow> True | Some t \<Rightarrow> t = []) \<or>
     (case get_item app ''parameters'' of None \<Rightarrow> False | Some (JObject _) \<Rightarrow> False | Some _ \<Rightarrow> True) \<or>
     (case get_item app ''fields'' of None \<Rightarrow> False | Some (JArray _) \<Rightarrow> False | Some _ \<Rightarrow> True)"

definition resolve_app_command ::
  "app_files \<Rightarrow> string \<Rightarrow> json option \<Rightarrow> nat \<Rightarrow> (string + string \<times> string option \<times> app_resources) option" where
  "resolve_app_command af app_id user_params out_cmd_len =
     (if user_params \<noteq> None \<and> \<not> is_object user_params
      then Some (refuse (sq ''parameters'' @ '' must be an object''))
      else case load_app_definition af app_id of
        Inl e \<Rightarrow> Some (Inl e)
      | Inr app \<Rightarrow>
          if bad_definition app then Some (refuse ''Invalid app definition'')
          else (case read_resources app of
             Inl e \<Rightarrow> Some (Inl e)
           | Inr resources \<Rightarrow>
               (case normalized_params af app_id user_params app
                       (col_text (string_value (get_item app ''command_template''))) of
                  Inl e \<Rightarrow> Some (Inl e)
                | Inr normalized \<Rightarrow>
                    (case resolve_app_command_legacy af app_id (Some (JObject normalized)) out_cmd_len of
                       None \<Rightarrow> None
                     | Some (Inl e) \<Rightarrow> Some (Inl e)
                     | Some (Inr (cmd, env_json)) \<Rightarrow>
                         if strstr ''{{'' cmd \<noteq> None \<or> strstr ''}}'' cmd \<noteq> None
                         then Some (refuse ''Command template contains an undeclared placeholder'')
                         else Some (Inr (cmd, env_json, resources))))))"

section \<open>Laws\<close>

lemma strstr_SomeD: "strstr pat s = Some (b, a) \<Longrightarrow> s = b @ pat @ a"
proof (induction pat s arbitrary: b rule: strstr.induct)
  case (1 pat s)
  show ?case
  proof (cases "take (length pat) s = pat")
    case True
    then have "b = []" "a = drop (length pat) s" using "1.prems" by (simp_all add: strstr.simps [of pat s])
    then show ?thesis using append_take_drop_id [of "length pat" s] unfolding True by simp
  next
    case False
    then obtain c cs b' where s: "s = c # cs" "strstr pat cs = Some (b', a)" "b = c # b'"
      using "1.prems" unfolding strstr.simps [of pat s] by (auto split: list.splits)
    then show ?thesis using "1.IH" [OF False s(1) s(2)] by simp
  qed
qed

lemma set_buf: "set (buf n s) \<subseteq> set s"
  by (simp add: buf_def set_take_subset)

lemma length_buf_less: "0 < n \<Longrightarrow> length (buf n s) < n"
  using length_buf [of n s] by linarith

lemma count_list_take: "count_list (take n xs) c \<le> count_list xs c"
  by (metis append_take_drop_id count_list_append le_add1)

lemma replace_all_set:
  assumes "replace_all pat v s = Some r"
  shows "set r \<subseteq> set s \<union> set v"
proof (rule replace_all.raw_induct [OF _ assms, where P = "\<lambda>pat v s r. set r \<subseteq> set s \<union> set v"])
  fix rep pat v s r
  assume IH: "\<And>pat v s r. rep pat v s = Some r \<Longrightarrow> set r \<subseteq> set s \<union> set v"
    and run: "(case strstr pat s of None \<Rightarrow> Some s
      | Some (before, after) \<Rightarrow> rep pat v (buf JOB_CMD_LEN (before @ v @ after))) = Some r"
  show "set r \<subseteq> set s \<union> set v"
  proof (cases "strstr pat s")
    case None
    then show ?thesis using run by simp
  next
    case (Some ba)
    obtain b a where ba: "ba = (b, a)" by force
    with Some run have "rep pat v (buf JOB_CMD_LEN (b @ v @ a)) = Some r" by simp
    from IH [OF this] have "set r \<subseteq> set (b @ v @ a) \<union> set v" using set_buf by fastforce
    then show ?thesis using strstr_SomeD [OF Some [unfolded ba]] by auto
  qed
qed

lemma replace_all_length:
  assumes "replace_all pat v s = Some r" "length s < JOB_CMD_LEN"
  shows "length r < JOB_CMD_LEN"
proof -
  have b: "length (buf JOB_CMD_LEN x) < JOB_CMD_LEN" for x by (rule length_buf_less) (simp add: JOB_CMD_LEN_def)
  have "length s < JOB_CMD_LEN \<longrightarrow> length r < JOB_CMD_LEN"
  proof (rule replace_all.raw_induct [OF _ assms(1), where P = "\<lambda>pat v s r. length s < JOB_CMD_LEN \<longrightarrow> length r < JOB_CMD_LEN"])
    fix rep pat v s r
    assume IH: "\<And>pat v s r. rep pat v s = Some r \<Longrightarrow> length s < JOB_CMD_LEN \<longrightarrow> length r < JOB_CMD_LEN"
      and run: "(case strstr pat s of None \<Rightarrow> Some s
        | Some (before, after) \<Rightarrow> rep pat v (buf JOB_CMD_LEN (before @ v @ after))) = Some r"
    show "length s < JOB_CMD_LEN \<longrightarrow> length r < JOB_CMD_LEN"
      using run IH b by (auto split: option.splits)
  qed
  then show ?thesis using assms(2) by blast
qed

text \<open>The replacement ends: every round takes two opening braces away.\<close>

lemma replace_all_ends:
  assumes "CHR ''{'' \<notin> set v" "hd pat = CHR ''{''" "pat \<noteq> []"
  shows "replace_all pat v s \<noteq> None"
proof (induction "count_list s (CHR ''{'')" arbitrary: s rule: less_induct)
  case less
  show ?case
  proof (cases "strstr pat s")
    case None
    then show ?thesis by (simp add: replace_all.simps)
  next
    case (Some ba)
    obtain b a where ba: "ba = (b, a)" by force
    have "0 < count_list pat (CHR ''{'')" using assms by (cases pat) auto
    moreover have "count_list (buf JOB_CMD_LEN (b @ v @ a)) (CHR ''{'') \<le> count_list (b @ v @ a) (CHR ''{'')"
      unfolding buf_def by (rule count_list_take)
    moreover have "count_list v (CHR ''{'') = 0" using assms(1) by (simp add: count_list_0_iff)
    ultimately have "count_list (buf JOB_CMD_LEN (b @ v @ a)) (CHR ''{'') < count_list s (CHR ''{'')"
      using strstr_SomeD [OF Some [unfolded ba]] by simp
    from less [OF this] show ?thesis using Some ba by (simp add: replace_all.simps [of pat v s])
  qed
qed

lemma placeholder_brace [simp]: "hd (placeholder k) = CHR ''{''" "placeholder k \<noteq> []"
  by (simp_all add: placeholder_def buf_def)

definition safe_text :: "string \<Rightarrow> bool" where
  "safe_text s = list_all safe_cli_char s"

lemma safe_text_brace: "safe_text s \<Longrightarrow> CHR ''{'' \<notin> set s"
  by (auto simp: safe_text_def list_all_iff safe_cli_char_def is_alnum_def less_eq_char_def)

lemma forbidden_unsafe: "c \<in> forbidden \<Longrightarrow> \<not> safe_cli_char c"
proof -
  have "\<forall>c \<in> forbidden. \<not> safe_cli_char c"
    by (simp add: forbidden_def safe_cli_char_def is_alnum_def less_eq_char_def bslash_def btick_def newline_def
        carriage_return_def char_of_def)
  then show "c \<in> forbidden \<Longrightarrow> \<not> safe_cli_char c" by blast
qed

lemma safe_text_forbidden: "safe_text s \<Longrightarrow> \<not> list_ex (\<lambda>c. c \<in> forbidden) s"
  using forbidden_unsafe by (auto simp: safe_text_def list_all_iff list_ex_iff)

lemma safe_text_Nil [simp]: "safe_text []"
  by (simp add: safe_text_def)

lemma safe_text_Cons [simp]: "safe_text (c # s) \<longleftrightarrow> safe_cli_char c \<and> safe_text s"
  by (simp add: safe_text_def)

lemma safe_text_append [simp]: "safe_text (a @ b) \<longleftrightarrow> safe_text a \<and> safe_text b"
  by (simp add: safe_text_def)

lemma safe_text_buf: "safe_text s \<Longrightarrow> safe_text (buf n s)"
  using set_buf [of n s] by (auto simp: safe_text_def list_all_iff)

lemma safe_text_name: "safe_cli_name s \<Longrightarrow> safe_text s"
  by (auto simp: safe_cli_name_def safe_text_def safe_cli_char_def list_all_iff)

lemma digit_safe: "d < 10 \<Longrightarrow> safe_cli_char (digit d)"
  by (auto simp: digit_def safe_cli_char_def is_alnum_def less_eq_char_def of_char_of take_bit_nat_def)

lemma safe_text_dec_nat: "safe_text (dec_nat n)"
  by (induction n rule: dec_nat.induct) (subst dec_nat.simps, auto simp: safe_text_def digit_safe)

lemma safe_text_sub: "set s \<subseteq> set t \<Longrightarrow> safe_text t \<Longrightarrow> safe_text s"
  by (auto simp: safe_text_def list_all_iff)

lemma safe_text_with_fraction: "safe_text a \<Longrightarrow> safe_text b \<Longrightarrow> safe_text (with_fraction a b)"
proof -
  assume a: "safe_text a" and b: "safe_text b"
  have "safe_text (rev (dropWhile (\<lambda>c. c = CHR ''0'') (rev b)))"
    using b by (rule safe_text_sub [rotated]) (metis set_dropWhileD set_rev subsetI)
  moreover have "safe_cli_char (CHR ''.'')" by (simp add: safe_cli_char_def)
  ultimately show ?thesis using a unfolding with_fraction_def Let_def by (simp add: safe_text_def)
qed

lemma safe_text_g15: "safe_text (printf_g15 x)"
proof -
  have c: "safe_cli_char (CHR ''-'')" "safe_cli_char (CHR ''+'')" "safe_cli_char (CHR ''e'')" "safe_cli_char (CHR ''0'')"
    by (simp_all add: safe_cli_char_def is_alnum_def less_eq_char_def)
  have z: "safe_text (replicate n CHR ''0'')" for n using c(4) by (auto simp: safe_text_def list_all_iff)
  have t: "safe_text (take n (dec_nat m))" "safe_text (drop n (dec_nat m))" for n m
    using safe_text_sub [OF set_take_subset safe_text_dec_nat] safe_text_sub [OF set_drop_subset safe_text_dec_nat]
    by blast+
  show ?thesis unfolding printf_g15_def Let_def
    by (simp add: c t z safe_text_dec_nat safe_text_with_fraction split: prod.splits)
qed

lemma safe_text_parameter: "parameter_to_text name def v = Inr t \<Longrightarrow> safe_text t"
proof -
  assume p: "parameter_to_text name def v = Inr t"
  have b: "safe_text ''true''" "safe_text ''false''"
    by (simp_all add: safe_text_def safe_cli_char_def is_alnum_def less_eq_char_def)
  have n: "number_to_text name def v = Inr t \<Longrightarrow> safe_text t" for v t
    by (auto simp: number_to_text_def refuse_def safe_text_g15 safe_text_buf split: json.splits cnum.splits if_splits)
  have s: "text_to_text name def s = Inr t \<Longrightarrow> safe_cli_value s \<Longrightarrow> safe_text t" for s t
    by (auto simp: text_to_text_def refuse_def safe_cli_value_def safe_text_def [symmetric] safe_text_buf split: if_splits)
  show ?thesis using p b
    by (auto simp: parameter_to_text_def Let_def refuse_def dest: n s split: if_splits json.splits option.splits)
qed

text \<open>A string that is accepted as a default is safe itself.\<close>

lemma validate_app_parameter_safe:
  assumes "validate_app_parameter name def b = Inr ()"
  shows "safe_cli_name name" "string_value (get_item def ''default'') = Some v \<Longrightarrow> safe_text v"
proof -
  show "safe_cli_name name" using assms by (auto simp: validate_app_parameter_def refuse_def split: if_splits)
  assume v: "string_value (get_item def ''default'') = Some v"
  then have d: "get_item def ''default'' = Some (JString v)"
    by (cases "get_item def ''default''" rule: string_value.cases) auto
  have "validate_default name def = Inr ()"
    using assms by (auto simp: validate_app_parameter_def refuse_def split: if_splits sum.splits)
  then obtain t where "parameter_to_text name def (JString v) = Inr t"
    using d by (auto simp: validate_default_def split: sum.splits)
  then have "safe_cli_value v"
    by (auto simp: parameter_to_text_def number_to_text_def Let_def refuse_def split: if_splits)
  then show "safe_text v" by (simp add: safe_cli_value_def safe_text_def)
qed

text \<open>Every text the normalised parameters hold is safe.\<close>

definition safe_texts :: "(string \<times> json) list \<Rightarrow> bool" where
  "safe_texts kvs \<longleftrightarrow> (\<forall>(k, v) \<in> set kvs. \<exists>t. v = JString t \<and> safe_text t)"

lemma add_text_safe: "add_text af k t acc = Inr acc' \<Longrightarrow> safe_text t \<Longrightarrow> safe_texts acc \<Longrightarrow> safe_texts acc'"
  by (auto simp: add_text_def refuse_def safe_texts_def split: if_splits)

lemma normalize_params_safe:
  "normalize_params af tpl up defs acc = Inr acc' \<Longrightarrow> safe_texts acc \<Longrightarrow> safe_texts acc'"
proof (induction defs arbitrary: acc)
  case Nil
  then show ?case by simp
next
  case (Cons kd defs)
  obtain k d where kd: "kd = (k, d)" by force
  show ?case
  proof (cases "supplied_value up k d")
    case None
    then show ?thesis using Cons kd by (auto simp: refuse_def split: if_splits)
  next
    case (Some v)
    then obtain t acc1 where t: "parameter_to_text k d v = Inr t" "add_text af k t acc = Inr acc1"
      "normalize_params af tpl up defs acc1 = Inr acc'"
      using Cons.prems(1) kd by (auto simp: refuse_def split: if_splits sum.splits)
    then show ?thesis using Cons.IH [OF t(3)] add_text_safe [OF t(2)] safe_text_parameter [OF t(1)] Cons.prems(2) by blast
  qed
qed

lemma field_text_safe: "field_text tpl up name ty field = Inr (Some t) \<Longrightarrow> safe_text t"
  by (auto simp: field_text_def refuse_def safe_text_def safe_cli_char_def is_alnum_def less_eq_char_def
      dest!: safe_text_parameter [unfolded safe_text_def] split: option.splits sum.splits if_splits)

lemma normalize_fields_safe:
  "normalize_fields af tpl up fs acc = Inr acc' \<Longrightarrow> safe_texts acc \<Longrightarrow> safe_texts acc'"
proof (induction fs arbitrary: acc)
  case Nil
  then show ?case by simp
next
  case (Cons f fs)
  then obtain name ty where n: "string_value (get_item f ''name'') = Some name" "string_value (get_item f ''type'') = Some ty"
    by (auto simp: refuse_def split: option.splits)
  show ?case
  proof (cases "map_of acc name")
    case (Some x)
    then show ?thesis using Cons n by (auto simp: refuse_def split: if_splits)
  next
    case None
    show ?thesis
    proof (cases "field_text tpl up name ty f")
      case (Inl e)
      then show ?thesis using Cons.prems(1) n None by (auto simp: refuse_def split: if_splits)
    next
      case (Inr r)
      show ?thesis
      proof (cases r)
        case None
        then show ?thesis using Inr Cons n \<open>map_of acc name = None\<close> by (auto simp: refuse_def split: if_splits)
      next
        case (Some t)
        then obtain acc1 where a: "add_text af name t acc = Inr acc1" "normalize_fields af tpl up fs acc1 = Inr acc'"
          using Cons.prems(1) n None Inr by (auto simp: refuse_def split: if_splits sum.splits)
        then show ?thesis using Cons.IH [OF a(2)] add_text_safe [OF a(1)] field_text_safe Inr Some Cons.prems(2) by blast
      qed
    qed
  qed
qed

lemma normalized_params_safe: "normalized_params af app_id up app tpl = Inr kvs \<Longrightarrow> safe_texts kvs"
proof -
  assume "normalized_params af app_id up app tpl = Inr kvs"
  then obtain acc where "normalize_params af tpl up (object_members (get_item app ''parameters'')) [] = Inr acc"
    "normalize_fields af tpl up (array_members (get_item app ''fields'')) acc = Inr kvs"
    by (auto simp: normalized_params_def Let_def refuse_def split: sum.splits if_splits)
  moreover have "safe_texts []" by (simp add: safe_texts_def)
  ultimately show ?thesis using normalize_params_safe normalize_fields_safe by blast
qed

text \<open>What a loop that resolves a command may do: it ends, and adds safe characters only.\<close>

definition safe_step :: "string \<Rightarrow> (string + string) option \<Rightarrow> bool" where
  "safe_step s out \<longleftrightarrow> out \<noteq> None \<and>
     (\<forall>r. out = Some (Inr r) \<longrightarrow> (\<forall>c \<in> set r. c \<in> set s \<or> safe_cli_char c) \<and>
        (length s < JOB_CMD_LEN \<longrightarrow> length r < JOB_CMD_LEN))"

lemma safe_step_refuse: "safe_step s (Some (refuse m))"
  by (simp add: safe_step_def refuse_def)

lemma safe_step_replace:
  assumes "safe_text v" "\<And>r. replace_all (placeholder k) v s = Some r \<Longrightarrow> safe_step r (f r)"
  shows "safe_step s (case replace_all (placeholder k) v s of None \<Rightarrow> None | Some r \<Rightarrow> f r)"
proof -
  obtain r where r: "replace_all (placeholder k) v s = Some r"
    using replace_all_ends [OF safe_text_brace [OF assms(1)], of "placeholder k" s] by auto
  have "\<forall>c \<in> set r. c \<in> set s \<or> safe_cli_char c"
    using replace_all_set [OF r] assms(1) by (auto simp: safe_text_def list_all_iff)
  then show ?thesis using r assms(2) [OF r] replace_all_length [OF r] by (auto simp: safe_step_def)
qed

lemma subst_params_safe: "safe_texts kvs \<Longrightarrow> safe_step s (subst_params app_id params flds kvs s)"
proof (induction kvs arbitrary: s)
  case Nil
  then show ?case by (simp add: safe_step_def)
next
  case (Cons kv kvs)
  then obtain k t where kv: "kv = (k, JString t)" "safe_text t" "safe_texts kvs"
    by (cases kv) (auto simp: safe_texts_def)
  show ?case using safe_text_forbidden [OF kv(2)] Cons.IH [OF kv(3)]
    by (simp add: kv(1) safe_step_refuse safe_step_replace [OF kv(2)])
qed

definition safe_defaults :: "json list \<Rightarrow> bool" where
  "safe_defaults ds \<longleftrightarrow> (\<forall>d \<in> set ds. \<forall>v. string_value (get_item d ''default'') = Some v \<longrightarrow> safe_text v)"

lemma fill_defaults_safe: "safe_defaults (map snd kvs) \<Longrightarrow> safe_step s (fill_defaults kvs s)"
proof (induction kvs arbitrary: s)
  case Nil
  then show ?case by (simp add: safe_step_def)
next
  case (Cons kv kvs)
  obtain k d where kv: "kv = (k, d)" by force
  have IH: "safe_step r (fill_defaults kvs r)" for r using Cons by (simp add: safe_defaults_def)
  show ?case
  proof (cases "string_value (get_item d ''default'')")
    case None
    then show ?thesis using IH by (simp add: kv safe_step_refuse)
  next
    case (Some v)
    then have "safe_text v" using Cons.prems kv by (auto simp: safe_defaults_def)
    from safe_step_replace [OF this IH] show ?thesis using Some IH by (simp add: kv)
  qed
qed

lemma check_parameters_valid:
  "check_parameters prior kvs = Inr () \<Longrightarrow> (k, d) \<in> set kvs \<Longrightarrow> validate_app_parameter k d False = Inr ()"
  by (induction prior kvs rule: check_parameters.induct) (auto simp: refuse_def split: sum.splits if_splits)

lemma check_fields_valid:
  "check_fields params prior fs = Inr () \<Longrightarrow> f \<in> set fs \<Longrightarrow>
   \<exists>name. string_value (get_item f ''name'') = Some name \<and> validate_app_parameter name f True = Inr ()"
  by (induction params prior fs rule: check_fields.induct) (auto simp: refuse_def split: sum.splits if_splits option.splits)

lemma flag_of_safe:
  assumes "validate_app_parameter fname field True = Inr ()" "safe_texts kvs"
  shows "safe_text (flag_of field (get_item (JObject kvs) fname) fname ftype)"
proof -
  have n: "safe_text fname" "safe_text '' --''" "safe_text '' ''"
    using validate_app_parameter_safe(1) [OF assms(1)]
    by (simp_all add: safe_text_name, simp_all add: safe_text_def safe_cli_char_def)
  note d = validate_app_parameter_safe(2) [OF assms(1)]
  show ?thesis
  proof (cases "map_of kvs fname")
    case None
    show ?thesis unfolding flag_of_def get_item.simps None option.case using n d
      by (auto split: option.splits)
  next
    case (Some v)
    then have "(fname, v) \<in> set kvs" by (rule map_of_SomeD)
    then obtain t where t: "v = JString t" "safe_text t" using assms(2) by (auto simp: safe_texts_def)
    show ?thesis unfolding flag_of_def get_item.simps Some t(1) option.case json.case string_value.simps using n t(2)
      by auto
  qed
qed

lemma append_flags_safe:
  assumes "safe_texts kvs" "\<And>f. f \<in> set fs \<Longrightarrow>
    \<exists>name. string_value (get_item f ''name'') = Some name \<and> validate_app_parameter name f True = Inr ()"
  shows "safe_step s (Some (Inr (append_flags tpl (Some (JObject kvs)) fs s)))"
  using assms(2)
proof (induction fs arbitrary: s)
  case Nil
  then show ?case by (simp add: safe_step_def)
next
  case (Cons f fs)
  obtain name where n: "string_value (get_item f ''name'') = Some name" "validate_app_parameter name f True = Inr ()"
    using Cons.prems by auto
  have IH: "safe_step r (Some (Inr (append_flags tpl (Some (JObject kvs)) fs r)))" for r using Cons by simp
  have L: "length (buf JOB_CMD_LEN x) < JOB_CMD_LEN" for x by (rule length_buf_less) (simp add: JOB_CMD_LEN_def)
  have "safe_step s (Some (Inr (append_flags tpl (Some (JObject kvs)) fs
      (buf JOB_CMD_LEN (s @ flag_of f (get_item (JObject kvs) name) name ty)))))" for ty
    using IH [of "buf JOB_CMD_LEN (s @ flag_of f (get_item (JObject kvs) name) name ty)"]
      flag_of_safe [OF n(2) assms(1), of ty] set_buf [of JOB_CMD_LEN "s @ flag_of f (get_item (JObject kvs) name) name ty"] L
    by (fastforce simp: safe_step_def safe_text_def list_all_iff)
  then show ?case using IH n(1) by (auto simp del: get_item.simps split: option.splits)
qed

text \<open>The two readings of the file see the same definition.\<close>

lemma read_app_same: "read_app af a app_id = Inr x \<Longrightarrow> read_app af b app_id = Inr y \<Longrightarrow> x = y"
  by (auto simp: read_app_def refuse_def split: option.splits if_splits)

lemma load_app_definition_valid:
  assumes "load_app_definition af app_id = Inr app"
  shows "read_app af (af_read_ok af) app_id = Inr app" "validate_app_definition app = Inr ()"
  using assms by (auto simp: load_app_definition_def refuse_def split: if_splits sum.splits)

lemma validated_definition:
  assumes "validate_app_definition app = Inr ()"
  shows "check_parameters [] (object_members (get_item app ''parameters'')) = Inr ()"
    "check_fields (get_item app ''parameters'') [] (array_members (get_item app ''fields'')) = Inr ()"
    "\<exists>t. get_item app ''command_template'' = Some (JString t) \<and> t \<noteq> [] \<and> length t < JOB_CMD_LEN \<and> one_line t"
proof -
  show "check_parameters [] (object_members (get_item app ''parameters'')) = Inr ()"
    "check_fields (get_item app ''parameters'') [] (array_members (get_item app ''fields'')) = Inr ()"
    using assms by (auto simp: validate_app_definition_def refuse_def Let_def split: json.splits if_splits sum.splits)
  have h: "valid_head app" using assms by (auto simp: validate_app_definition_def refuse_def split: json.splits if_splits)
  have "string_value x = Some t \<Longrightarrow> x = Some (JString t)" for x t by (cases x rule: string_value.cases) auto
  then show "\<exists>t. get_item app ''command_template'' = Some (JString t) \<and> t \<noteq> [] \<and> length t < JOB_CMD_LEN \<and> one_line t"
    using h by (auto simp: valid_head_def split: option.splits)
qed

lemma legacy_safe:
  assumes app: "load_app_definition af app_id = Inr app" and kvs: "safe_texts kvs"
    and tpl: "get_item app ''command_template'' = Some (JString tpl)"
  shows "\<exists>out. resolve_app_command_legacy af app_id (Some (JObject kvs)) len = Some out \<and>
    (\<forall>cmd env_json. out = Inr (cmd, env_json) \<longrightarrow>
       (\<forall>c \<in> set cmd. c \<in> set tpl \<or> safe_cli_char c) \<and> length cmd < JOB_CMD_LEN)"
proof (cases "read_app af (af_reread_ok af) app_id")
  case (Inl e)
  then show ?thesis by (simp add: resolve_app_command_legacy_def refuse_def)
next
  case (Inr app')
  then have [simp]: "app' = app" using load_app_definition_valid(1) [OF app] read_app_same by blast
  note v = validated_definition [OF load_app_definition_valid(2) [OF app]]
  let ?p = "get_item app ''parameters''" and ?f = "get_item app ''fields''" and ?s = "buf JOB_CMD_LEN tpl"
  let ?r1 = "subst_params app_id ?p ?f kvs ?s"
  have 1: "safe_step ?s ?r1" by (rule subst_params_safe [OF kvs])
  have d: "safe_defaults (map snd (object_members ?p))"
    using check_parameters_valid [OF v(1)] validate_app_parameter_safe(2) by (fastforce simp: safe_defaults_def)
  have 2: "safe_step s (fill_defaults (object_members ?p) s)" for s by (rule fill_defaults_safe [OF d])
  have 3: "safe_step s (Some (Inr (append_flags tpl (Some (JObject kvs)) (array_members ?f) s)))" for s
    using check_fields_valid [OF v(2)] by (rule append_flags_safe [OF kvs])
  have L: "length ?s < JOB_CMD_LEN" by (rule length_buf_less) (simp add: JOB_CMD_LEN_def)
  have B: "length (buf len x) \<le> length x" for x by (simp add: buf_def)
  obtain o1 where o1: "?r1 = Some o1" using 1 by (auto simp: safe_step_def)
  have m: "object_members (Some (JObject kvs)) = kvs" by (simp add: object_members_def)
  show ?thesis
  proof (cases o1)
    case (Inl e)
    then show ?thesis using o1 Inr tpl by (auto simp: resolve_app_command_legacy_def refuse_def m)
  next
    case r: (Inr r)
    obtain o2 where o2: "fill_defaults (object_members ?p) r = Some o2" using 2 [of r] by (auto simp: safe_step_def)
    show ?thesis
    proof (cases o2)
      case (Inl e)
      then show ?thesis using o1 o2 r Inr tpl by (auto simp: resolve_app_command_legacy_def refuse_def m)
    next
      case r2: (Inr r2)
      let ?c = "append_flags tpl (Some (JObject kvs)) (array_members ?f) r2"
      have "(\<forall>c \<in> set ?c. c \<in> set tpl \<or> safe_cli_char c) \<and> length ?c < JOB_CMD_LEN"
        using 1 2 [of r] 3 [of r2] o1 o2 r r2 L set_buf [of JOB_CMD_LEN tpl] unfolding safe_step_def by blast
      then show ?thesis using o1 o2 r r2 Inr tpl set_buf [of len ?c] B [of ?c]
        by (fastforce simp: resolve_app_command_legacy_def refuse_def m)
    qed
  qed
qed

lemma resolve_app_command_returns: "resolve_app_command af app_id params len \<noteq> None"
proof (cases "load_app_definition af app_id")
  case (Inl e)
  then show ?thesis by (simp add: resolve_app_command_def)
next
  case (Inr app)
  obtain tpl where tpl: "get_item app ''command_template'' = Some (JString tpl)"
    using validated_definition(3) [OF load_app_definition_valid(2) [OF Inr]] by auto
  have "resolve_app_command_legacy af app_id (Some (JObject kvs)) len \<noteq> None"
    if "normalized_params af app_id params app tpl = Inr kvs" for kvs
    using legacy_safe [OF Inr normalized_params_safe [OF that] tpl, of len] by auto
  then show ?thesis using Inr tpl
    by (cases "params \<noteq> None \<and> \<not> is_object params")
      (simp_all add: resolve_app_command_def col_text_def del: not_None_eq split: sum.split option.split, blast?)
qed

section \<open>Claims\<close>

text \<open>
  C9: a command resolved from a template stays within it. Whatever the definition file holds and
  whatever parameters a request carries, resolution ends; and when it succeeds, the definition was
  accepted, every character of the command is one of the template or harmless to a shell (a letter, a
  digit, a blank or one of \<open>_-./:@+,=\<close>), no placeholder is left, the command fits its buffer and the
  resources are within their limits.
\<close>

theorem resolve_app_command_safe:
  "\<exists>out. resolve_app_command af app_id params len = Some out \<and>
    (\<forall>cmd env_json res. out = Inr (cmd, env_json, res) \<longrightarrow>
      (\<exists>app tpl. load_app_definition af app_id = Inr app \<and> get_item app ''command_template'' = Some (JString tpl) \<and>
        (\<forall>c \<in> set cmd. c \<in> set tpl \<or> safe_cli_char c)) \<and>
      strstr ''{{'' cmd = None \<and> strstr ''}}'' cmd = None \<and> length cmd < JOB_CMD_LEN \<and>
      1 \<le> ap_req_cores res \<and> ap_req_cores res \<le> 10000 \<and> 0 \<le> ap_req_gpu res \<and> ap_req_gpu res \<le> 1000 \<and>
      0 \<le> ap_req_ram_mb res \<and> ap_req_ram_mb res \<le> 10000000 \<and>
      0 \<le> ap_req_disk_mb res \<and> ap_req_disk_mb res \<le> 10000000)"
proof (cases "load_app_definition af app_id")
  case (Inl e)
  then show ?thesis by (simp add: resolve_app_command_def refuse_def)
next
  case app: (Inr app)
  obtain tpl where tpl: "get_item app ''command_template'' = Some (JString tpl)"
    using validated_definition(3) [OF load_app_definition_valid(2) [OF app]] by auto
  show ?thesis
  proof (cases "normalized_params af app_id params app tpl")
    case (Inl e)
    then show ?thesis using app tpl
      by (auto simp: resolve_app_command_def refuse_def col_text_def split: sum.splits if_splits)
  next
    case kvs: (Inr kvs)
    obtain out where out: "resolve_app_command_legacy af app_id (Some (JObject kvs)) len = Some out"
      "\<And>cmd env_json. out = Inr (cmd, env_json) \<Longrightarrow>
         (\<forall>c \<in> set cmd. c \<in> set tpl \<or> safe_cli_char c) \<and> length cmd < JOB_CMD_LEN"
      using legacy_safe [OF app normalized_params_safe [OF kvs] tpl, of len] by auto
    have r: "read_resources app = Inr res \<Longrightarrow> 1 \<le> ap_req_cores res \<and> ap_req_cores res \<le> 10000 \<and>
        0 \<le> ap_req_gpu res \<and> ap_req_gpu res \<le> 1000 \<and> 0 \<le> ap_req_ram_mb res \<and> ap_req_ram_mb res \<le> 10000000 \<and>
        0 \<le> ap_req_disk_mb res \<and> ap_req_disk_mb res \<le> 10000000" for res
      by (auto simp: read_resources_def read_app_resource_def refuse_def dest: whole_number_range
          split: sum.splits option.splits)
    show ?thesis
    proof (cases "params \<noteq> None \<and> \<not> is_object params \<or> bad_definition app")
      case True
      then show ?thesis using app by (auto simp: resolve_app_command_def refuse_def)
    next
      case False
      show ?thesis
      proof (cases "read_resources app")
        case (Inl e)
        then show ?thesis using False app by (auto simp: resolve_app_command_def refuse_def)
      next
        case (Inr res)
        have "resolve_app_command af app_id params len = Some (case out of Inl e \<Rightarrow> Inl e
            | Inr (cmd, env_json) \<Rightarrow> if strstr ''{{'' cmd \<noteq> None \<or> strstr ''}}'' cmd \<noteq> None
                then refuse ''Command template contains an undeclared placeholder'' else Inr (cmd, env_json, res))"
          using False app kvs out(1) Inr tpl
          by (auto simp: resolve_app_command_def col_text_def split: sum.splits prod.splits)
        then show ?thesis using out(2) r [OF Inr] tpl app
          by (auto simp: refuse_def simp del: not_None_eq split: sum.splits prod.splits if_splits)
      qed
    qed
  qed
qed

definition demo_app :: json where
  "demo_app = JObject [(''app_id'', JString ''solver''), (''name'', JString ''Solver''),
     (''command_template'', JString ''solve --in {{f}}''),
     (''parameters'', JObject [(''f'', JObject [])]),
     (''fields'', JArray [JObject [(''name'', JString ''fast''), (''type'', JString ''checkbox'')]])]"

definition demo_files :: app_files where
  "demo_files = \<lparr> af_dir = ''/apps'', af_file = (\<lambda>_. Some ''x''), af_read_ok = True, af_reread_ok = True,
     af_parse = (\<lambda>_. Some demo_app), af_print = (\<lambda>_. None), af_create_ok = True, af_add_ok = (\<lambda>_. True) \<rparr>"

definition demo_params :: "json option" where
  "demo_params = Some (JObject [(''f'', JString ''mesh.in''), (''fast'', JBool True)])"

lemma demo_resolve:
  "resolve_app_command demo_files ''solver'' demo_params JOB_CMD_LEN =
     Some (Inr (''solve --in mesh.in --fast'', None, app_resources_defaults))"
proof -
  let ?n = "[(''f'', JString ''mesh.in''), (''fast'', JString ''true'')]"
  let ?p = "get_item demo_app ''parameters''" and ?f = "get_item demo_app ''fields''"
  have r: "read_app demo_files b ''solver'' = (if b then Inr demo_app else refuse ''Failed to read app definition'')" for b
    by (simp add: read_app_def demo_files_def)
  have v: "validate_app_definition demo_app = Inr ()" by code_simp
  have h: "safe_cli_name ''solver''" "app_id_chars ''solver''" by code_simp+
  have l: "load_app_definition demo_files ''solver'' = Inr demo_app"
    using h v r by (simp add: load_app_definition_def demo_files_def demo_app_def)
  have n: "normalized_params demo_files ''solver'' demo_params demo_app ''solve --in {{f}}'' = Inr ?n" by code_simp
  have s: "subst_params ''solver'' ?p ?f ?n ''solve --in {{f}}'' = Some (Inr ''solve --in mesh.in'')" by code_simp
  have d: "fill_defaults (object_members ?p) ''solve --in mesh.in'' = Some (Inr ''solve --in mesh.in'')" by code_simp
  have a: "append_flags ''solve --in {{f}}'' (Some (JObject ?n)) (array_members ?f) ''solve --in mesh.in'' =
      ''solve --in mesh.in --fast''" by code_simp
  have t: "string_value (get_item demo_app ''command_template'') = Some ''solve --in {{f}}''"
    "app_env_json demo_files demo_app = None" "af_reread_ok demo_files" by (simp_all add: demo_app_def demo_files_def app_env_json_def)
  have m: "object_members (Some (JObject ?n)) = ?n" by (simp add: object_members_def)
  have "resolve_app_command_legacy demo_files ''solver'' (Some (JObject ?n)) JOB_CMD_LEN =
      Some (Inr (''solve --in mesh.in --fast'', None))"
    unfolding resolve_app_command_legacy_def Let_def t r m
    using h(2) s d a t by (simp add: JOB_CMD_LEN_def)
  moreover have "strstr ''{{'' ''solve --in mesh.in --fast'' = None" "strstr ''}}'' ''solve --in mesh.in --fast'' = None"
    by code_simp+
  moreover have "\<not> bad_definition demo_app" "read_resources demo_app = Inr app_resources_defaults" "is_object demo_params"
    by code_simp+
  ultimately show ?thesis unfolding resolve_app_command_def using l n t(1) by (simp add: col_text_def)
qed

theorem resolve_app_command_safe_witness:
  "resolve_app_command demo_files ''solver'' demo_params JOB_CMD_LEN =
     Some (Inr (''solve --in mesh.in --fast'', None, app_resources_defaults)) \<and>
   strstr ''{{'' ''solve --in mesh.in --fast'' = None \<and> 1 \<le> ap_req_cores app_resources_defaults"
proof -
  show ?thesis using resolve_app_command_safe [of demo_files "''solver''" demo_params JOB_CMD_LEN] unfolding demo_resolve by auto
qed

end
