(* ===== verification/Sha256.thy ===== *)
theory Sha256
  imports Job
begin

text \<open>
  The SHA-256 of \<open>src/http/auth.c\<close>: an incremental implementation over a context with a buffer of
  one block. It is shown to compute the hash of the standard, stated here as a reference: pad the
  message, cut it into blocks, compress them one after the other.
\<close>

unbundle bit_operations_syntax

section \<open>Model\<close>

type_synonym bytes = "8 word list"

record sha256_ctx =
  sha_data :: bytes
  sha_datalen :: nat
  sha_bitlen :: "64 word"
  sha_state :: "32 word list"

definition sha_k :: "32 word list" where
  "sha_k = [
    0x428a2f98,0x71374491,0xb5c0fbcf,0xe9b5dba5,0x3956c25b,0x59f111f1,0x923f82a4,0xab1c5ed5,
    0xd807aa98,0x12835b01,0x243185be,0x550c7dc3,0x72be5d74,0x80deb1fe,0x9bdc06a7,0xc19bf174,
    0xe49b69c1,0xefbe4786,0x0fc19dc6,0x240ca1cc,0x2de92c6f,0x4a7484aa,0x5cb0a9dc,0x76f988da,
    0x983e5152,0xa831c66d,0xb00327c8,0xbf597fc7,0xc6e00bf3,0xd5a79147,0x06ca6351,0x14292967,
    0x27b70a85,0x2e1b2138,0x4d2c6dfc,0x53380d13,0x650a7354,0x766a0abb,0x81c2c92e,0x92722c85,
    0xa2bfe8a1,0xa81a664b,0xc24b8b70,0xc76c51a3,0xd192e819,0xd6990624,0xf40e3585,0x106aa070,
    0x19a4c116,0x1e376c08,0x2748774c,0x34b0bcb5,0x391c0cb3,0x4ed8aa4a,0x5b9cca4f,0x682e6ff3,
    0x748f82ee,0x78a5636f,0x84c87814,0x8cc70208,0x90befffa,0xa4506ceb,0xbef9a3f7,0xc67178f2]"

definition ROTR32 :: "32 word \<Rightarrow> nat \<Rightarrow> 32 word" where
  "ROTR32 x n = drop_bit n x OR push_bit (32 - n) x"

definition CH :: "32 word \<Rightarrow> 32 word \<Rightarrow> 32 word \<Rightarrow> 32 word" where
  "CH x y z = (x AND y) XOR (NOT x AND z)"

definition MAJ :: "32 word \<Rightarrow> 32 word \<Rightarrow> 32 word \<Rightarrow> 32 word" where
  "MAJ x y z = (x AND y) XOR (x AND z) XOR (y AND z)"

definition EP0 :: "32 word \<Rightarrow> 32 word" where "EP0 x = ROTR32 x 2 XOR ROTR32 x 13 XOR ROTR32 x 22"
definition EP1 :: "32 word \<Rightarrow> 32 word" where "EP1 x = ROTR32 x 6 XOR ROTR32 x 11 XOR ROTR32 x 25"
definition SIG0 :: "32 word \<Rightarrow> 32 word" where "SIG0 x = ROTR32 x 7 XOR ROTR32 x 18 XOR drop_bit 3 x"
definition SIG1 :: "32 word \<Rightarrow> 32 word" where "SIG1 x = ROTR32 x 17 XOR ROTR32 x 19 XOR drop_bit 10 x"

text \<open>Four bytes of the block, most significant first.\<close>

definition word_at :: "bytes \<Rightarrow> nat \<Rightarrow> 32 word" where
  "word_at data j = push_bit 24 (ucast (data ! j)) OR push_bit 16 (ucast (data ! (j + 1))) OR
     push_bit 8 (ucast (data ! (j + 2))) OR ucast (data ! (j + 3))"

text \<open>The second loop over \<open>m\<close>; the argument counts the entries still to be filled.\<close>

fun extend_schedule :: "nat \<Rightarrow> 32 word list \<Rightarrow> 32 word list" where
  "extend_schedule 0 m = m"
| "extend_schedule (Suc n) m =
     (let i = length m in
      extend_schedule n (m @ [SIG1 (m ! (i - 2)) + m ! (i - 7) + SIG0 (m ! (i - 15)) + m ! (i - 16)]))"

type_synonym registers =
  "32 word \<times> 32 word \<times> 32 word \<times> 32 word \<times> 32 word \<times> 32 word \<times> 32 word \<times> 32 word"

fun sha_round :: "32 word list \<Rightarrow> registers \<Rightarrow> nat \<Rightarrow> registers" where
  "sha_round m (a, b, c, d, e, f, g, h) i =
     (let t1 = h + EP1 e + CH e f g + sha_k ! i + m ! i;
          t2 = EP0 a + MAJ a b c
      in (t1 + t2, a, b, c, d + t1, e, f, g))"

fun add_registers :: "32 word list \<Rightarrow> registers \<Rightarrow> 32 word list" where
  "add_registers st (a, b, c, d, e, f, g, h) = [st ! 0 + a, st ! 1 + b, st ! 2 + c, st ! 3 + d,
     st ! 4 + e, st ! 5 + f, st ! 6 + g, st ! 7 + h]"

definition sha256_transform :: "sha256_ctx \<Rightarrow> bytes \<Rightarrow> sha256_ctx" where
  "sha256_transform ctx data =
     (let m = extend_schedule 48 (map (\<lambda>i. word_at data (4 * i)) [0..<16]);
          st = sha_state ctx;
          regs = foldl (sha_round m) (st ! 0, st ! 1, st ! 2, st ! 3, st ! 4, st ! 5, st ! 6, st ! 7) [0..<64]
      in ctx\<lparr>sha_state := add_registers st regs\<rparr>)"

definition sha_initial :: "32 word list" where
  "sha_initial = [0x6a09e667, 0xbb67ae85, 0x3c6ef372, 0xa54ff53a, 0x510e527f, 0x9b05688c, 0x1f83d9ab, 0x5be0cd19]"

text \<open>The buffer of the context is not initialised; \<open>junk\<close> is what it holds.\<close>

definition sha256_init :: "bytes \<Rightarrow> sha256_ctx" where
  "sha256_init junk = \<lparr> sha_data = junk, sha_datalen = 0, sha_bitlen = 0, sha_state = sha_initial \<rparr>"

definition update_byte :: "sha256_ctx \<Rightarrow> 8 word \<Rightarrow> sha256_ctx" where
  "update_byte ctx b =
     (let c1 = ctx\<lparr>sha_data := (sha_data ctx)[sha_datalen ctx := b], sha_datalen := sha_datalen ctx + 1\<rparr> in
      if sha_datalen c1 = 64 then
        let c2 = sha256_transform c1 (sha_data c1)
        in c2\<lparr>sha_bitlen := sha_bitlen c2 + 512, sha_datalen := 0\<rparr>
      else c1)"

definition sha256_update :: "sha256_ctx \<Rightarrow> bytes \<Rightarrow> sha256_ctx" where
  "sha256_update ctx data = foldl update_byte ctx data"

text \<open>\<open>while (i < n) data[i++] = 0;\<close>\<close>

definition fill_zero :: "nat \<Rightarrow> nat \<Rightarrow> bytes \<Rightarrow> bytes" where
  "fill_zero i n data = foldl (\<lambda>d j. d[j := 0]) data [i..<n]"

definition store_bitlen :: "64 word \<Rightarrow> bytes \<Rightarrow> bytes" where
  "store_bitlen bitlen data = foldl (\<lambda>d j. d[63 - j := ucast (drop_bit (8 * j) bitlen)]) data [0..<8]"

definition state_bytes :: "32 word list \<Rightarrow> bytes" where
  "state_bytes st = concat (map (\<lambda>w. map (\<lambda>i. ucast (drop_bit (24 - i * 8) w)) [0..<4]) st)"

definition sha256_final :: "sha256_ctx \<Rightarrow> bytes" where
  "sha256_final ctx =
     (let i = sha_datalen ctx; marked = (sha_data ctx)[i := 0x80];
          c1 = (if i < 56 then ctx\<lparr>sha_data := fill_zero (i + 1) 56 marked\<rparr>
                else let c = sha256_transform ctx (fill_zero (i + 1) 64 marked)
                     in c\<lparr>sha_data := fill_zero 0 56 (fill_zero (i + 1) 64 marked)\<rparr>);
          bitlen = sha_bitlen c1 + of_nat (sha_datalen ctx * 8);
          c2 = c1\<lparr>sha_bitlen := bitlen, sha_data := store_bitlen bitlen (sha_data c1)\<rparr>
      in state_bytes (sha_state (sha256_transform c2 (sha_data c2))))"

definition sha256_bytes :: "bytes \<Rightarrow> bytes \<Rightarrow> bytes" where
  "sha256_bytes junk msg = sha256_final (sha256_update (sha256_init junk) msg)"

section \<open>The standard\<close>

definition ref_pad :: "bytes \<Rightarrow> bytes" where
  "ref_pad msg = msg @ [0x80] @ replicate ((119 - length msg mod 64) mod 64) 0 @
     map (\<lambda>i. ucast (drop_bit (56 - 8 * i) (of_nat (8 * length msg) :: 64 word))) [0..<8]"

definition blocks :: "bytes \<Rightarrow> bytes list" where
  "blocks msg = map (\<lambda>i. take 64 (drop (64 * i) msg)) [0..<length msg div 64]"

definition sigma :: "nat \<Rightarrow> nat \<Rightarrow> 32 word \<Rightarrow> 32 word \<Rightarrow> 32 word" where
  "sigma i j s x = word_rotr i x XOR word_rotr j x XOR s"

fun ref_w :: "bytes \<Rightarrow> nat \<Rightarrow> 32 word" where
  "ref_w blk t =
     (if t < 16 then word_at blk (4 * t)
      else sigma 17 19 (drop_bit 10 (ref_w blk (t - 2))) (ref_w blk (t - 2)) + ref_w blk (t - 7) +
           sigma 7 18 (drop_bit 3 (ref_w blk (t - 15))) (ref_w blk (t - 15)) + ref_w blk (t - 16))"

declare ref_w.simps [simp del]

fun ref_step :: "bytes \<Rightarrow> registers \<Rightarrow> nat \<Rightarrow> registers" where
  "ref_step blk (a, b, c, d, e, f, g, h) t =
     (let t1 = h + sigma 6 11 (word_rotr 25 e) e + ((e AND f) XOR (NOT e AND g)) + sha_k ! t + ref_w blk t;
          t2 = sigma 2 13 (word_rotr 22 a) a + ((a AND b) XOR (a AND c) XOR (b AND c))
      in (t1 + t2, a, b, c, d + t1, e, f, g))"

definition ref_compress :: "32 word list \<Rightarrow> bytes \<Rightarrow> 32 word list" where
  "ref_compress st blk = add_registers st
     (foldl (ref_step blk) (st ! 0, st ! 1, st ! 2, st ! 3, st ! 4, st ! 5, st ! 6, st ! 7) [0..<64])"

definition ref_sha256 :: "bytes \<Rightarrow> bytes" where
  "ref_sha256 msg = state_bytes (foldl ref_compress sha_initial (blocks (ref_pad msg)))"

section \<open>The compression function\<close>

lemma ROTR32_rotr: "0 < n \<Longrightarrow> n < 32 \<Longrightarrow> ROTR32 x n = word_rotr n x"
proof (rule bit_word_eqI)
  fix i assume n: "0 < n" "n < 32" and "i < LENGTH(32)"
  then have i: "i < 32" by simp
  show "bit (ROTR32 x n) i = bit (word_rotr n x) i"
  proof (cases "i + n < 32")
    case True
    then show ?thesis using i n
      by (auto simp: ROTR32_def bit_or_iff bit_drop_bit_eq bit_push_bit_iff bit_word_rotr_iff ac_simps)
  next
    case False
    then have "(n + i) mod 32 = i + n - 32" using False i n by (simp add: mod_if add.commute)
    moreover have "\<not> bit x (n + i)" using False bit_imp_le_length [of x "n + i"] by auto
    ultimately show ?thesis using False i n
      by (auto simp: ROTR32_def bit_or_iff bit_drop_bit_eq bit_push_bit_iff bit_word_rotr_iff ac_simps)
  qed
qed

lemma sigma_functions:
  "SIG0 x = sigma 7 18 (drop_bit 3 x) x" "SIG1 x = sigma 17 19 (drop_bit 10 x) x"
  "EP0 x = sigma 2 13 (word_rotr 22 x) x" "EP1 x = sigma 6 11 (word_rotr 25 x) x"
  by (simp_all add: SIG0_def SIG1_def EP0_def EP1_def sigma_def ROTR32_rotr)

lemma length_extend_schedule [simp]: "length (extend_schedule n m) = length m + n"
  by (induction n arbitrary: m) (simp_all add: Let_def)

text \<open>The array the second loop fills holds the schedule of the standard.\<close>

lemma extend_schedule_w:
  assumes "\<forall>t < length m. m ! t = ref_w blk t" "16 \<le> length m"
  shows "t < length m + n \<Longrightarrow> extend_schedule n m ! t = ref_w blk t"
  using assms
proof (induction n arbitrary: m)
  case (Suc n)
  let ?i = "length m"
  let ?m = "m @ [SIG1 (m ! (?i - 2)) + m ! (?i - 7) + SIG0 (m ! (?i - 15)) + m ! (?i - 16)]"
  have w: "ref_w blk ?i = SIG1 (m ! (?i - 2)) + m ! (?i - 7) + SIG0 (m ! (?i - 15)) + m ! (?i - 16)"
    using Suc.prems(2,3) by (subst ref_w.simps) (simp add: sigma_functions)
  have "\<forall>t < length ?m. ?m ! t = ref_w blk t" using Suc.prems(2) w by (auto simp: nth_append less_Suc_eq)
  then show ?case using Suc.IH [of ?m] Suc.prems by (simp add: Let_def)
qed simp

lemma sha_round_ref: "m ! t = ref_w blk t \<Longrightarrow> sha_round m r t = ref_step blk r t"
  by (cases "(m, r, t)" rule: sha_round.cases) (simp add: sigma_functions CH_def MAJ_def Let_def)

lemma foldl_cong_set: "(\<And>a x. x \<in> set xs \<Longrightarrow> f a x = g a x) \<Longrightarrow> foldl f a xs = foldl g a xs"
  by (induction xs arbitrary: a) auto

lemma sha256_transform_ref: "sha256_transform ctx blk = ctx\<lparr>sha_state := ref_compress (sha_state ctx) blk\<rparr>"
proof -
  let ?m0 = "map (\<lambda>i. word_at blk (4 * i)) [0..<16]"
  have "\<forall>t < length ?m0. ?m0 ! t = ref_w blk t" by (simp add: ref_w.simps)
  then have "extend_schedule 48 ?m0 ! t = ref_w blk t" if "t < 64" for t
    using extend_schedule_w [of ?m0 blk t 48] that by simp
  then have "foldl (sha_round (extend_schedule 48 ?m0)) r [0..<64] = foldl (ref_step blk) r [0..<64]" for r
    by (intro foldl_cong_set sha_round_ref) simp
  then show ?thesis by (simp only: sha256_transform_def ref_compress_def Let_def)
qed

section \<open>Blocks\<close>

definition rest :: "bytes \<Rightarrow> bytes" where
  "rest msg = drop (64 * (length msg div 64)) msg"

lemma length_rest [simp]: "length (rest msg) = length msg mod 64"
  by (simp add: rest_def minus_mult_div_eq_mod)

lemma blocks_append: "blocks (xs @ ys) = blocks xs @ blocks (rest xs @ ys)"
proof -
  let ?k = "length xs div 64"
  have len: "length (xs @ ys) div 64 = ?k + length (rest xs @ ys) div 64"
  proof -
    have "length (xs @ ys) = length (rest xs @ ys) + ?k * 64" using div_mult_mod_eq [of "length xs" 64] by simp
    then show ?thesis by (simp only: div_mult_self1 zero_neq_numeral not_False_eq_True)
  qed
  have 1: "take 64 (drop (64 * i) (xs @ ys)) = take 64 (drop (64 * i) xs)" if "i < ?k" for i
  proof -
    have "64 * i + 64 \<le> length xs" using that by linarith
    then show ?thesis by simp
  qed
  have 2: "drop (64 * (?k + i)) (xs @ ys) = drop (64 * i) (rest xs @ ys)" for i
  proof -
    have "drop (64 * ?k) (xs @ ys) = rest xs @ ys" by (simp add: rest_def)
    then have "drop (64 * i) (drop (64 * ?k) (xs @ ys)) = drop (64 * i) (rest xs @ ys)" by simp
    then show ?thesis by (simp add: algebra_simps)
  qed
  have u: "[0..<k + n] = [0..<k] @ map (\<lambda>i. k + i) [0..<n]" for k n :: nat by (induction n) simp_all
  show ?thesis unfolding blocks_def len u map_append map_map comp_def 2
    by (simp add: 1 del: drop_append take_append cong: map_cong)
qed

lemma blocks_short [simp]: "length xs < 64 \<Longrightarrow> blocks xs = []"
  by (simp add: blocks_def)

lemma blocks_one: "length xs = 64 \<Longrightarrow> blocks xs = [xs]"
  by (simp add: blocks_def)

lemma blocks_two: "length xs = 64 \<Longrightarrow> length ys = 64 \<Longrightarrow> blocks (xs @ ys) = [xs, ys]"
  by (simp add: blocks_def upt_rec)

section \<open>The buffer\<close>

text \<open>After any number of bytes: the full blocks are in the state, the rest is in the buffer.\<close>

definition absorbed :: "bytes \<Rightarrow> sha256_ctx \<Rightarrow> bool" where
  "absorbed msg ctx \<longleftrightarrow> length (sha_data ctx) = 64 \<and> sha_datalen ctx = length msg mod 64 \<and>
     take (sha_datalen ctx) (sha_data ctx) = rest msg \<and> sha_bitlen ctx = of_nat (512 * (length msg div 64)) \<and>
     sha_state ctx = foldl ref_compress sha_initial (blocks msg)"

lemma take_update_last: "i < length xs \<Longrightarrow> take (Suc i) (xs[i := y]) = take i xs @ [y]"
  by (simp add: take_Suc_conv_app_nth)

lemma update_byte_absorbed: "absorbed msg ctx \<Longrightarrow> absorbed (msg @ [b]) (update_byte ctx b)"
proof -
  assume A: "absorbed msg ctx"
  let ?r = "length msg mod 64" and ?k = "length msg div 64"
  let ?d = "(sha_data ctx)[?r := b]"
  have d: "length ?d = 64" "take (Suc ?r) ?d = rest msg @ [b]"
    using A take_update_last [of ?r "sha_data ctx" b] by (auto simp: absorbed_def)
  have bl: "blocks (msg @ [b]) = blocks msg @ blocks (rest msg @ [b])" by (rule blocks_append)
  show ?thesis
  proof (cases "?r = 63")
    case True
    then have len: "length (msg @ [b]) = 64 * (?k + 1)" using div_mult_mod_eq [of "length msg" 64] by simp
    then have k: "length (msg @ [b]) div 64 = ?k + 1" "length (msg @ [b]) mod 64 = 0"
      by (simp_all only: nonzero_mult_div_cancel_left mod_mult_self1_is_0 zero_neq_numeral not_False_eq_True)
    have "?d = rest msg @ [b]" using d True by simp
    moreover have "blocks (rest msg @ [b]) = [rest msg @ [b]]" by (rule blocks_one) (simp add: True)
    ultimately show ?thesis using A True k d(1) bl
      by (simp add: absorbed_def update_byte_def Let_def sha256_transform_ref rest_def algebra_simps)
  next
    case False
    then have "?r < 63" using mod_less_divisor [of 64 "length msg"] by linarith
    then have k: "length (msg @ [b]) div 64 = ?k" "length (msg @ [b]) mod 64 = Suc ?r" using False by (simp_all add: div_Suc mod_Suc)
    have "rest (msg @ [b]) = rest msg @ [b]" unfolding rest_def k(1) by simp
    moreover have "blocks (rest msg @ [b]) = []" using \<open>?r < 63\<close> by simp
    ultimately show ?thesis using A False k d bl by (simp add: absorbed_def update_byte_def Let_def)
  qed
qed

lemma sha256_update_absorbed:
  assumes "length junk = 64"
  shows "absorbed msg (sha256_update (sha256_init junk) msg)"
proof (induction msg rule: rev_induct)
  case Nil
  then show ?case using assms by (simp add: absorbed_def sha256_update_def sha256_init_def rest_def)
next
  case (snoc b msg)
  then show ?case using update_byte_absorbed by (simp add: sha256_update_def)
qed

lemma fill_zero_eq: "i \<le> n \<Longrightarrow> n \<le> length d \<Longrightarrow> fill_zero i n d = take i d @ replicate (n - i) 0 @ drop n d"
proof (induction n)
  case (Suc n)
  show ?case
  proof (cases "i = Suc n")
    case True
    then show ?thesis by (simp add: fill_zero_def)
  next
    case False
    then have "fill_zero i n d = take i d @ replicate (n - i) 0 @ drop n d" using Suc by simp
    moreover have "fill_zero i (Suc n) d = (fill_zero i n d)[n := 0]" using False Suc.prems by (simp add: fill_zero_def)
    moreover have "drop n d = d ! n # drop (Suc n) d" using Suc.prems by (simp add: Cons_nth_drop_Suc)
    ultimately show ?thesis using False Suc.prems
      by (simp add: list_update_append Suc_diff_le replicate_append_same flip: replicate_Suc)
  qed
qed (simp add: fill_zero_def)

definition bitlen_bytes :: "64 word \<Rightarrow> bytes" where
  "bitlen_bytes n = map (\<lambda>i. ucast (drop_bit (56 - 8 * i) n)) [0..<8]"

lemma store_bitlen_eq:
  assumes "length d = 64"
  shows "store_bitlen n d = take 56 d @ bitlen_bytes n"
proof (rule nth_equalityI)
  show "length (store_bitlen n d) = length (take 56 d @ bitlen_bytes n)"
    using assms by (simp add: store_bitlen_def bitlen_bytes_def upt_rec)
  fix i assume "i < length (store_bitlen n d)"
  then have i: "i < 64" using assms by (simp add: store_bitlen_def upt_rec)
  show "store_bitlen n d ! i = (take 56 d @ bitlen_bytes n) ! i"
  proof (cases "i < 56")
    case True
    then show ?thesis using assms by (simp add: store_bitlen_def upt_rec nth_append)
  next
    case False
    then have "i \<in> {56, 57, 58, 59, 60, 61, 62, 63}" using i by auto
    then show ?thesis using assms by (auto simp: store_bitlen_def bitlen_bytes_def upt_rec nth_append)
  qed
qed

section \<open>The hash\<close>

lemma pad_blocks:
  fixes msg :: bytes
  defines "n \<equiv> bitlen_bytes (of_nat (8 * length msg))" and "r \<equiv> length msg mod 64"
  shows "blocks (ref_pad msg) = blocks msg @
    (if r < 56 then [rest msg @ [0x80] @ replicate (55 - r) 0 @ n]
     else [rest msg @ [0x80] @ replicate (63 - r) 0, replicate 56 0 @ n])"
proof -
  have r: "r < 64" "length (rest msg) = r" "length n = 8" by (simp_all add: r_def n_def bitlen_bytes_def)
  have pad: "ref_pad msg = msg @ ([0x80] @ replicate ((119 - r) mod 64) 0 @ n)"
    by (simp add: ref_pad_def n_def bitlen_bytes_def r_def)
  show ?thesis
  proof (cases "r < 56")
    case True
    then have z: "(119 - r) mod 64 = 55 - r" by (simp add: mod_if)
    have "blocks (rest msg @ [0x80] @ replicate (55 - r) 0 @ n) = [rest msg @ [0x80] @ replicate (55 - r) 0 @ n]"
      by (rule blocks_one) (use True r in simp)
    then show ?thesis using True unfolding pad z blocks_append [of msg] by simp
  next
    case False
    then have z: "(119 - r) mod 64 = (63 - r) + 56" using r(1) by (simp add: mod_if)
    have e: "rest msg @ [0x80] @ replicate ((63 - r) + 56) 0 @ n =
        (rest msg @ [0x80] @ replicate (63 - r) 0) @ (replicate 56 0 @ n)" by (simp only: replicate_add append_assoc)
    have "blocks ((rest msg @ [0x80] @ replicate (63 - r) 0) @ (replicate 56 0 @ n)) =
        [rest msg @ [0x80] @ replicate (63 - r) 0, replicate 56 0 @ n]"
      by (rule blocks_two) (use False r in simp_all)
    then show ?thesis using False unfolding pad z blocks_append [of msg] e by simp
  qed
qed

lemma sha256_final_ref:
  assumes A: "absorbed msg ctx"
  shows "sha256_final ctx = ref_sha256 msg"
proof -
  let ?r = "length msg mod 64" and ?d = "sha_data ctx"
  let ?n = "bitlen_bytes (of_nat (8 * length msg))"
  have d: "length ?d = 64" "sha_datalen ctx = ?r" "take ?r ?d = rest msg" "sha_state ctx = foldl ref_compress sha_initial (blocks msg)"
    using A by (auto simp: absorbed_def)
  have "of_nat (512 * (length msg div 64)) + of_nat (?r * 8) = (of_nat (512 * (length msg div 64) + ?r * 8) :: 64 word)"
    by (simp only: of_nat_add)
  also have "512 * (length msg div 64) + ?r * 8 = 8 * length msg" using div_mult_mod_eq [of "length msg" 64] by linarith
  finally have len: "sha_bitlen ctx + of_nat (?r * 8) = of_nat (8 * length msg)" using A by (simp add: absorbed_def)
  let ?m = "?d[?r := 0x80]"
  have m: "length ?m = 64" "take (Suc ?r) ?m = rest msg @ [0x80]" using d take_update_last [of ?r ?d "0x80"] by auto
  show ?thesis
  proof (cases "?r < 56")
    case True
    define p where "p = rest msg @ [0x80] @ replicate (55 - ?r) 0"
    have p: "length p = 56" using True by (simp add: p_def)
    have f: "fill_zero (Suc ?r) 56 ?m = p @ drop 56 ?m"
      using fill_zero_eq [of "Suc ?r" 56 ?m] m True by (simp add: p_def)
    have "store_bitlen n (fill_zero (Suc ?r) 56 ?m) = p @ bitlen_bytes n" for n
      using store_bitlen_eq [of "fill_zero (Suc ?r) 56 ?m" n] p m(1) unfolding f by simp
    then have "store_bitlen n (fill_zero (Suc ?r) 56 ?m) = rest msg @ [0x80] @ replicate (55 - ?r) 0 @ bitlen_bytes n" for n
      by (simp add: p_def)
    then show ?thesis using d len True unfolding sha256_final_def ref_sha256_def pad_blocks
      by (simp add: Let_def sha256_transform_ref)
  next
    case False
    have f: "fill_zero (Suc ?r) 64 ?m = rest msg @ [0x80] @ replicate (63 - ?r) 0"
      using fill_zero_eq [of "Suc ?r" 64 ?m] m by simp
    have z: "fill_zero 0 56 (fill_zero (Suc ?r) 64 ?m) = replicate 56 0 @ drop 56 (fill_zero (Suc ?r) 64 ?m)"
      using fill_zero_eq [of 0 56 "fill_zero (Suc ?r) 64 ?m"] by (simp add: f)
    have "store_bitlen n (fill_zero 0 56 (fill_zero (Suc ?r) 64 ?m)) = replicate 56 0 @ bitlen_bytes n" for n
      using store_bitlen_eq [of "fill_zero 0 56 (fill_zero (Suc ?r) 64 ?m)" n] False unfolding z by (simp add: f)
    then show ?thesis using d len False unfolding sha256_final_def ref_sha256_def pad_blocks
      by (simp add: Let_def sha256_transform_ref f)
  qed
qed

section \<open>Claims\<close>

text \<open>
  C38: the incremental implementation computes SHA-256. Whatever the uninitialised buffer holds and in
  whatever pieces the message is fed in, the result is the hash of the standard: the message padded
  with a one bit, zeros and its length, cut into blocks of 64 bytes and compressed block by block, with
  rotations and the recursive message schedule.
\<close>

theorem sha256_correct:
  assumes "length junk = 64"
  shows "sha256_final (foldl sha256_update (sha256_init junk) pieces) = ref_sha256 (concat pieces)"
proof -
  have "foldl sha256_update ctx pieces = sha256_update ctx (concat pieces)" for ctx
    by (induction pieces arbitrary: ctx) (simp_all add: sha256_update_def)
  then show ?thesis using sha256_final_ref [OF sha256_update_absorbed [OF assms]] by simp
qed

text \<open>The hash of "abc" printed in the standard, computed by the implementation; it checks the constants.\<close>

lemma sha256_final_abc:
  "sha256_final (foldl sha256_update (sha256_init (replicate 64 0)) [[0x61], [0x62, 0x63]]) =
     [0xba, 0x78, 0x16, 0xbf, 0x8f, 0x01, 0xcf, 0xea, 0x41, 0x41, 0x40, 0xde, 0x5d, 0xae, 0x22, 0x23,
      0xb0, 0x03, 0x61, 0xa3, 0x96, 0x17, 0x7a, 0x9c, 0xb4, 0x10, 0xff, 0x61, 0xf2, 0x00, 0x15, 0xad]"
  by code_simp

theorem sha256_correct_witness:
  "ref_sha256 [0x61, 0x62, 0x63] =
     [0xba, 0x78, 0x16, 0xbf, 0x8f, 0x01, 0xcf, 0xea, 0x41, 0x41, 0x40, 0xde, 0x5d, 0xae, 0x22, 0x23,
      0xb0, 0x03, 0x61, 0xa3, 0x96, 0x17, 0x7a, 0x9c, 0xb4, 0x10, 0xff, 0x61, 0xf2, 0x00, 0x15, 0xad]"
proof -
  have "sha256_final (foldl sha256_update (sha256_init (replicate 64 0)) [[0x61], [0x62, 0x63]]) =
      ref_sha256 (concat [[0x61], [0x62, 0x63]])"
    by (rule sha256_correct) (rule length_replicate)
  moreover have "concat [[0x61], [0x62, 0x63]] = [0x61, 0x62, 0x63 :: 8 word]" unfolding concat.simps append.simps ..
  ultimately show ?thesis unfolding sha256_final_abc by metis
qed

end
