(* ===== verification/Auth.thy ===== *)
theory Auth
  imports Sha256 DbMeta Config
begin

text \<open>
  \<open>src/http/auth.c\<close>: the check of API keys and the hashing of passwords. A password is stored as
  \<open>pbkdf2-sha256$<iterations>$<salt>$<key>\<close>; two older formats are still verified. The
  randomness read from the system is an argument.
\<close>

unbundle bit_operations_syntax

section \<open>Model\<close>

subsection \<open>Hexadecimal text\<close>

definition byte_of :: "char \<Rightarrow> 8 word" where
  "byte_of c = of_nat (of_char c)"

definition text_bytes :: "string \<Rightarrow> bytes" where
  "text_bytes s = map byte_of s"

definition bytes_to_hex :: "bytes \<Rightarrow> string" where
  "bytes_to_hex bs = concat (map hex2 bs)"

definition hex_value :: "char \<Rightarrow> int" where
  "hex_value c =
     (if CHR ''0'' \<le> c \<and> c \<le> CHR ''9'' then int (of_char c) - 48
      else if CHR ''a'' \<le> c \<and> c \<le> CHR ''f'' then int (of_char c) - 97 + 10
      else if CHR ''A'' \<le> c \<and> c \<le> CHR ''F'' then int (of_char c) - 65 + 10
      else -1)"

text \<open>\<open>None\<close> is -1.\<close>

fun hex_to_bytes :: "string \<Rightarrow> bytes option" where
  "hex_to_bytes [] = Some []"
| "hex_to_bytes [c] = None"
| "hex_to_bytes (c # d # cs) =
     (if hex_value c < 0 \<or> hex_value d < 0 then None
      else map_option (Cons (push_bit 4 (of_int (hex_value c)) OR of_int (hex_value d))) (hex_to_bytes cs))"

text \<open>
  The buffer of the context is not initialised; as its contents do not matter to the hash
  (theory Sha256), it is taken to be zero here.
\<close>

definition sha256 :: "bytes \<Rightarrow> bytes" where
  "sha256 = sha256_bytes (replicate 64 0)"

definition sha256_hex :: "string \<Rightarrow> string" where
  "sha256_hex input = bytes_to_hex (sha256 (text_bytes input))"

subsection \<open>API keys\<close>

definition isxdigit :: "char \<Rightarrow> bool" where
  "isxdigit c \<longleftrightarrow> CHR ''0'' \<le> c \<and> c \<le> CHR ''9'' \<or> CHR ''a'' \<le> c \<and> c \<le> CHR ''f'' \<or>
     CHR ''A'' \<le> c \<and> c \<le> CHR ''F''"

text \<open>The argument is the value of the header \<open>X-API-Key\<close>, if there is one.\<close>

definition extract_key_hash :: "string option \<Rightarrow> string option" where
  "extract_key_hash hdr =
     (case hdr of
        None \<Rightarrow> None
      | Some key \<Rightarrow> if length key \<noteq> 64 \<or> \<not> list_all isxdigit key then None else Some (sha256_hex key))"

definition auth_check :: "int \<Rightarrow> string option \<Rightarrow> db \<Rightarrow> bool \<times> db" where
  "auth_check now hdr d =
     (case extract_key_hash hdr of None \<Rightarrow> (False, d) | Some h \<Rightarrow> db_validate_api_key now h d)"

definition auth_check_role_user :: "int \<Rightarrow> string option \<Rightarrow> db \<Rightarrow> (string \<times> string) option \<times> db" where
  "auth_check_role_user now hdr d =
     (case extract_key_hash hdr of None \<Rightarrow> (None, d) | Some h \<Rightarrow> db_resolve_api_key_full now h 128 d)"

definition auth_check_role :: "int \<Rightarrow> string option \<Rightarrow> db \<Rightarrow> string option \<times> db" where
  "auth_check_role now hdr d = (let (r, d') = auth_check_role_user now hdr d in (map_option fst r, d'))"

definition auth_hash_key :: "string \<Rightarrow> string" where
  "auth_hash_key raw_key = sha256_hex raw_key"

subsection \<open>Passwords\<close>

definition PBKDF2_ITERATIONS :: int where "PBKDF2_ITERATIONS = 120000"
definition PBKDF2_PREFIX :: string where "PBKDF2_PREFIX = ''pbkdf2-sha256$''"
definition AUTH_PASSWORD_HASH_LEN :: nat where "AUTH_PASSWORD_HASH_LEN = 160"

definition normalized_key :: "bytes \<Rightarrow> bytes" where
  "normalized_key key =
     (let k = (if length key > 64 then sha256 key else key) in k @ replicate (64 - length k) 0)"

definition hmac_sha256 :: "bytes \<Rightarrow> bytes \<Rightarrow> bytes" where
  "hmac_sha256 key data =
     (let k = normalized_key key;
          inner_pad = map (\<lambda>b. b XOR 0x36) k; outer_pad = map (\<lambda>b. b XOR 0x5c) k;
          inner_hash = sha256_final (sha256_update (sha256_update (sha256_init (replicate 64 0)) inner_pad) data)
      in sha256_final (sha256_update (sha256_update (sha256_init (replicate 64 0)) outer_pad) inner_hash))"

fun pbkdf2_loop :: "nat \<Rightarrow> bytes \<Rightarrow> bytes \<Rightarrow> bytes \<Rightarrow> bytes" where
  "pbkdf2_loop 0 password block out = out"
| "pbkdf2_loop (Suc n) password block out =
     (let block' = hmac_sha256 password block in pbkdf2_loop n password block' (map2 (XOR) out block'))"

definition pbkdf2_sha256 :: "string \<Rightarrow> bytes \<Rightarrow> int \<Rightarrow> bytes" where
  "pbkdf2_sha256 password salt iterations =
     (let block = hmac_sha256 (text_bytes password) (salt @ [0, 0, 0, 1])
      in pbkdf2_loop (nat (iterations - 1)) (text_bytes password) block block)"

text \<open>\<open>None\<close> is -1; the salt is what \<open>secure_random\<close> delivers, if it does.\<close>

definition auth_hash_password :: "bytes option \<Rightarrow> string \<Rightarrow> string option" where
  "auth_hash_password random password =
     (case random of
        None \<Rightarrow> None
      | Some salt \<Rightarrow>
          let derived = pbkdf2_sha256 password salt PBKDF2_ITERATIONS;
              t = PBKDF2_PREFIX @ dec PBKDF2_ITERATIONS @ ''$'' @ bytes_to_hex salt @ ''$'' @ bytes_to_hex derived
          in if length t < AUTH_PASSWORD_HASH_LEN then Some t else None)"

text \<open>All bytes are looked at, whatever they are.\<close>

definition ct_compare :: "bytes \<Rightarrow> bytes \<Rightarrow> bool" where
  "ct_compare a b \<longleftrightarrow> foldl (\<lambda>result (x, y). result OR (x XOR y)) 0 (zip a b) = 0"

definition verify_pbkdf2 :: "string \<Rightarrow> string \<Rightarrow> bool" where
  "verify_pbkdf2 password iteration_text =
     (case strtol iteration_text of
        None \<Rightarrow> False
      | Some (iterations, tail) \<Rightarrow>
          if tail = [] \<or> hd tail \<noteq> CHR ''$'' \<or> iterations < 10000 \<or> iterations > 10000000 then False
          else
            let salt_hex = takeWhile (\<lambda>c. c \<noteq> CHR ''$'') (tl tail);
                key_part = dropWhile (\<lambda>c. c \<noteq> CHR ''$'') (tl tail) in
            if key_part = [] \<or> length salt_hex \<noteq> 32 \<or> length (tl key_part) \<noteq> 64 then False
            else case (hex_to_bytes salt_hex, hex_to_bytes (tl key_part)) of
              (Some salt, Some expected) \<Rightarrow> ct_compare (pbkdf2_sha256 password salt iterations) expected
            | _ \<Rightarrow> False)"

definition verify_salted :: "string \<Rightarrow> string \<Rightarrow> bool" where
  "verify_salted password stored =
     (let salt = takeWhile (\<lambda>c. c \<noteq> CHR ''$'') stored;
          expected = tl (dropWhile (\<lambda>c. c \<noteq> CHR ''$'') stored);
          hash = sha256_hex (buf 580 (salt @ password)) in
      if salt = [] \<or> length salt > 32 then False
      else if length hash \<noteq> length expected then False
      else ct_compare (text_bytes hash) (text_bytes expected))"

definition auth_verify_password :: "string option \<Rightarrow> string option \<Rightarrow> bool" where
  "auth_verify_password password stored =
     (case (password, stored) of
        (Some pw, Some st) \<Rightarrow>
          if take (length PBKDF2_PREFIX) st = PBKDF2_PREFIX then verify_pbkdf2 pw (drop (length PBKDF2_PREFIX) st)
          else if CHR ''$'' \<notin> set st then
            length (sha256_hex pw) = length st \<and> ct_compare (text_bytes (sha256_hex pw)) (text_bytes st)
          else verify_salted pw st
      | _ \<Rightarrow> False)"

definition auth_password_needs_rehash :: "string option \<Rightarrow> bool" where
  "auth_password_needs_rehash stored =
     (case stored of
        None \<Rightarrow> True
      | Some st \<Rightarrow>
          if take (length PBKDF2_PREFIX) st \<noteq> PBKDF2_PREFIX then True
          else (case strtol (drop (length PBKDF2_PREFIX) st) of None \<Rightarrow> 0 | Some (v, _) \<Rightarrow> v) \<noteq> PBKDF2_ITERATIONS)"

section \<open>Hexadecimal text\<close>

lemma hex_value_digit:
  assumes "d < 16"
  shows "hex_value (hex_digit d) = uint d"
proof -
  define m where "m = unat d"
  have n: "d = of_nat m" "m < 16" using assms by (simp_all add: m_def word_less_nat_alt)
  then have "m \<in> {0, 1, 2, 3, 4, 5, 6, 7, 8, 9, 10, 11, 12, 13, 14, 15}"
    unfolding insert_iff empty_iff by presburger
  then show ?thesis unfolding n by (elim insertE emptyE) (simp_all add: hex_value_def hex_digit_def less_eq_char_def)
qed

lemma nibbles: "push_bit 4 (drop_bit 4 b) OR (b AND 15) = (b :: 8 word)" "drop_bit 4 b < (16 :: 8 word)" "b AND 15 < (16 :: 8 word)"
proof -
  have "b AND 15 = take_bit 4 b" by (simp add: take_bit_eq_mask mask_numeral)
  moreover have "push_bit 4 (drop_bit 4 b) OR take_bit 4 b = b"
    by (rule bit_word_eqI) (auto simp: bit_simps)
  ultimately show "push_bit 4 (drop_bit 4 b) OR (b AND 15) = b" by simp
  show "b AND 15 < (16 :: 8 word)" by (rule le_less_trans [OF word_and_le1]) simp
  have "unat b < 2 ^ LENGTH(8)" by (rule unsigned_less)
  then have "unat (drop_bit 4 b) < 16" unfolding unat_drop_bit_eq by (simp add: drop_bit_eq_div)
  then show "drop_bit 4 b < (16 :: 8 word)" by (simp add: word_less_nat_alt)
qed

lemma hex_to_bytes_hex: "hex_to_bytes (bytes_to_hex bs) = Some bs"
proof (induction bs)
  case (Cons b bs)
  then show ?case using nibbles [of b]
    by (simp add: bytes_to_hex_def hex2_def hex_value_digit)
qed (simp add: bytes_to_hex_def)

lemma length_bytes_to_hex [simp]: "length (bytes_to_hex bs) = 2 * length bs"
  by (induction bs) (simp_all add: bytes_to_hex_def hex2_def)

lemma hex_digit_not_dollar: "d < 16 \<Longrightarrow> hex_digit d \<noteq> CHR ''$''"
proof
  assume "d < 16" "hex_digit d = CHR ''$''"
  then have "hex_value CHR ''$'' = uint d" using hex_value_digit by metis
  moreover have "hex_value CHR ''$'' = -1" by (simp add: hex_value_def less_eq_char_def)
  ultimately show False using uint_ge_0 [of d] by simp
qed

lemma bytes_to_hex_no_dollar: "CHR ''$'' \<notin> set (bytes_to_hex bs)"
proof
  assume "CHR ''$'' \<in> set (bytes_to_hex bs)"
  then obtain b where "hex_digit (drop_bit 4 b) = CHR ''$'' \<or> hex_digit (b AND 15) = CHR ''$''"
    by (auto simp: bytes_to_hex_def hex2_def, metis+)
  then show False using hex_digit_not_dollar [OF nibbles(2)] hex_digit_not_dollar [OF nibbles(3)] by metis
qed

lemma ct_compare_eq: "length a = length b \<Longrightarrow> ct_compare a b \<longleftrightarrow> a = b"
proof -
  assume len: "length a = length b"
  have "foldl (\<lambda>result (x, y). result OR (x XOR y)) r xs = 0 \<longleftrightarrow> r = 0 \<and> (\<forall>(x, y) \<in> set xs. x = y)"
    for r :: "8 word" and xs
  proof (induction xs arbitrary: r)
    case (Cons p xs)
    have "x = y" if "x XOR y = 0" for x y :: "8 word"
    proof -
      have "x = (x XOR y) XOR y" by (simp add: xor.assoc)
      then show ?thesis using that by simp
    qed
    then have "r OR (x XOR y) = 0 \<longleftrightarrow> r = 0 \<and> x = y" for x y :: "8 word" by (auto simp: or_eq_0_iff)
    then show ?case using Cons by (cases p) auto
  qed simp
  then show ?thesis using len by (auto simp: ct_compare_def list_eq_iff_zip_eq)
qed

section \<open>Derivation of keys\<close>

lemma sha256_ref: "sha256 msg = ref_sha256 msg"
  using sha256_final_ref [OF sha256_update_absorbed, of "replicate 64 0" msg]
  by (simp add: sha256_def sha256_bytes_def)

lemma length_ref_sha256 [simp]: "length (ref_sha256 msg) = 32"
proof -
  have len: "length (add_registers st r) = 8" for st r by (cases "(st, r)" rule: add_registers.cases) simp
  have "length (foldl ref_compress st bs) = 8" if "length st = 8" for st bs
    using that by (induction bs arbitrary: st) (simp_all add: ref_compress_def len)
  then show ?thesis by (simp add: ref_sha256_def state_bytes_def sha_initial_def length_concat comp_def sum_list_triv)
qed

text \<open>HMAC and PBKDF2 as their standards define them, for a key of one block of 32 bytes.\<close>

definition ref_hmac :: "bytes \<Rightarrow> bytes \<Rightarrow> bytes" where
  "ref_hmac key msg =
     (let k0 = (if length key > 64 then ref_sha256 key else key); k = k0 @ replicate (64 - length k0) 0
      in ref_sha256 (map (\<lambda>b. b XOR 0x5c) k @ ref_sha256 (map (\<lambda>b. b XOR 0x36) k @ msg)))"

definition ref_u :: "bytes \<Rightarrow> bytes \<Rightarrow> nat \<Rightarrow> bytes" where
  "ref_u password salt n = (ref_hmac password ^^ n) (ref_hmac password (salt @ [0, 0, 0, 1]))"

lemma hmac_sha256_ref: "hmac_sha256 key msg = ref_hmac key msg"
proof -
  have "sha256_final (sha256_update (sha256_update (sha256_init (replicate 64 0)) a) b) = ref_sha256 (a @ b)" for a b
    using sha256_final_ref [OF sha256_update_absorbed, of "replicate 64 0" "a @ b"] by (simp add: sha256_update_def)
  then show ?thesis by (simp add: hmac_sha256_def ref_hmac_def normalized_key_def sha256_ref Let_def)
qed

lemma length_ref_hmac [simp]: "length (ref_hmac key msg) = 32"
  by (simp add: ref_hmac_def Let_def)

lemma length_ref_u [simp]: "length (ref_u password salt n) = 32"
  by (cases n) (simp_all add: ref_u_def)

lemma pbkdf2_loop_ref:
  "pbkdf2_loop n pw (ref_u pw salt i) out = foldl (map2 (XOR)) out (map (ref_u pw salt) [Suc i..<Suc i + n])"
proof (induction n arbitrary: i out)
  case (Suc n)
  have "hmac_sha256 pw (ref_u pw salt i) = ref_u pw salt (Suc i)" by (simp add: hmac_sha256_ref ref_u_def)
  moreover have "[Suc i..<Suc i + Suc n] = Suc i # [Suc (Suc i)..<Suc (Suc i) + n]" by (simp add: upt_conv_Cons del: upt_Suc)
  ultimately show ?case using Suc.IH [of "Suc i"] by (simp only: pbkdf2_loop.simps Let_def list.map foldl_Cons)
qed simp

lemma pbkdf2_sha256_ref:
  "pbkdf2_sha256 password salt c =
     foldl (map2 (XOR)) (ref_u (text_bytes password) salt 0) (map (ref_u (text_bytes password) salt) [1..<nat c])"
proof -
  have "hmac_sha256 (text_bytes password) (salt @ [0, 0, 0, 1]) = ref_u (text_bytes password) salt 0"
    by (simp add: hmac_sha256_ref ref_u_def)
  moreover have "[Suc 0..<Suc 0 + nat (c - 1)] = [1..<nat c]" by (cases "c \<ge> 1") (simp_all add: nat_diff_distrib del: upt_Suc)
  ultimately show ?thesis unfolding pbkdf2_sha256_def Let_def by (simp only: pbkdf2_loop_ref)
qed

lemma length_pbkdf2 [simp]: "length (pbkdf2_sha256 password salt c) = 32"
proof -
  have "length (foldl (map2 (XOR)) out (map (ref_u pw salt) is)) = 32" if "length out = 32" for out pw "is"
    using that by (induction "is" arbitrary: out) auto
  then show ?thesis by (simp add: pbkdf2_sha256_ref)
qed

section \<open>The stored form\<close>

lemma strtol_dec:
  assumes "t = [] \<or> \<not> ascii_digit (hd t)"
  shows "strtol (dec_nat n @ t) = Some (int n, t)"
proof -
  have d: "dec_nat n \<noteq> []" "list_all ascii_digit (dec_nat n)" "digits_to_nat (dec_nat n) = n"
    using dec_nat_digits [of n] by auto
  then obtain c cs where c: "dec_nat n = c # cs" "ascii_digit c" by (cases "dec_nat n") auto
  have "dropWhile c_space (dec_nat n @ t) = dec_nat n @ t" using c ascii_digit_not_space by simp
  moreover have "takeWhile ascii_digit (dec_nat n @ t) = dec_nat n" "dropWhile ascii_digit (dec_nat n @ t) = t"
    using d(2) assms by (auto simp: list_all_iff takeWhile_append2 dropWhile_append2 takeWhile_eq_Nil_iff dropWhile_eq_self_iff)
  ultimately show ?thesis using c d ascii_digit_not_space [OF c(2)] by (simp add: strtol_def Let_def)
qed

lemma verify_pbkdf2_text:
  assumes "length salt = 16" "length key = 32" "10000 \<le> n" "n \<le> 10000000"
  shows "verify_pbkdf2 password (dec_nat n @ ''$'' @ bytes_to_hex salt @ ''$'' @ bytes_to_hex key) \<longleftrightarrow>
    pbkdf2_sha256 password salt (int n) = key"
proof -
  let ?t = "bytes_to_hex salt @ ''$'' @ bytes_to_hex key"
  have "strtol (dec_nat n @ ''$'' @ ?t) = Some (int n, ''$'' @ ?t)" by (rule strtol_dec) (simp add: ascii_digit_def)
  moreover have "\<forall>c \<in> set (bytes_to_hex salt). c \<noteq> CHR ''$''" using bytes_to_hex_no_dollar [of salt] by metis
  then have "takeWhile (\<lambda>c. c \<noteq> CHR ''$'') ?t = bytes_to_hex salt"
      "dropWhile (\<lambda>c. c \<noteq> CHR ''$'') ?t = ''$'' @ bytes_to_hex key"
    by (simp_all add: takeWhile_append2 dropWhile_append2)
  ultimately show ?thesis using assms
    by (simp add: verify_pbkdf2_def Let_def hex_to_bytes_hex ct_compare_eq)
qed

lemma dec_iterations: "dec PBKDF2_ITERATIONS = dec_nat 120000" "length (dec_nat 120000) = 6"
  by (simp_all add: dec_def PBKDF2_ITERATIONS_def dec_nat.simps)

lemma hash_password_text:
  assumes "length salt = 16"
  shows "auth_hash_password (Some salt) pw = Some (PBKDF2_PREFIX @ dec_nat 120000 @ ''$'' @ bytes_to_hex salt @ ''$'' @
    bytes_to_hex (pbkdf2_sha256 pw salt PBKDF2_ITERATIONS))"
  using assms
  by (simp add: auth_hash_password_def Let_def dec_iterations PBKDF2_PREFIX_def AUTH_PASSWORD_HASH_LEN_def)

text \<open>The key row behind an accepted header.\<close>

definition valid_key :: "int \<Rightarrow> string option \<Rightarrow> tables \<Rightarrow> string \<Rightarrow> string \<Rightarrow> bool" where
  "valid_key now hdr t role user \<longleftrightarrow> (\<exists>key k. hdr = Some key \<and> length key = 64 \<and> list_all isxdigit key \<and>
     k \<in> set (t_api_keys t) \<and> ak_key_hash k = sha256_hex key \<and> \<not> ak_revoked k \<and>
     (ak_expires_at k \<le> 0 \<or> now \<le> ak_expires_at k) \<and> role = buf 16 (ak_role k) \<and> user = buf 128 (ak_user_id k))"

lemma auth_check_key:
  assumes "auth_check_role_user now hdr d = (Some (role, user), d')"
  shows "valid_key now hdr (db_tables d) role user"
proof -
  obtain key where key: "hdr = Some key" "length key = 64" "list_all isxdigit key"
    and run: "db_resolve_api_key_full now (sha256_hex key) 128 d = (Some (role, user), d')"
    using assms by (auto simp: auth_check_role_user_def extract_key_hash_def split: option.splits if_splits)
  then obtain k where k: "find (\<lambda>k. ak_key_hash k = sha256_hex key \<and> \<not> ak_revoked k) (t_api_keys (db_tables d)) = Some k"
    "ak_expires_at k \<le> 0 \<or> now \<le> ak_expires_at k" "role = buf 16 (ak_role k)" "user = buf 128 (ak_user_id k)"
    by (auto simp: db_resolve_api_key_full_def sql_read_def sql_next_def
        split: list.splits sql_outcome.splits prod.splits option.splits if_splits)
  have "k \<in> set (t_api_keys (db_tables d))" "ak_key_hash k = sha256_hex key" "\<not> ak_revoked k"
    using k(1) by (auto simp: find_Some_iff)
  then show ?thesis using key k(2-4) by (auto simp: valid_key_def)
qed

lemma auth_check_works:
  assumes "db_plan d = []" "length key = 64" "list_all isxdigit key" "ak_expires_at k \<le> 0 \<or> now \<le> ak_expires_at k"
    "find (\<lambda>k. ak_key_hash k = sha256_hex key \<and> \<not> ak_revoked k) (t_api_keys (db_tables d)) = Some k"
  shows "auth_check_role_user now (Some key) d = (Some (buf 16 (ak_role k), buf 128 (ak_user_id k)), d)"
  using assms by (auto simp: auth_check_role_user_def extract_key_hash_def db_resolve_api_key_full_def)

lemma auth_check_tables: "auth_check_role_user now hdr d = (r, d') \<Longrightarrow> db_tables d' = db_tables d"
  by (auto simp: auth_check_role_user_def db_resolve_api_key_full_def split: option.splits dest: arg_cong [of _ _ "\<lambda>x. db_tables (snd x)"])

section \<open>Claims\<close>

text \<open>
  C39: a stored password verifies exactly the password it was made from. For every salt the system
  delivers, hashing succeeds within the buffer, the result does not ask for rehashing, and a password is
  accepted against it if and only if PBKDF2 derives the same key from it with this salt; a missing
  password or a missing record is never accepted.
\<close>

theorem password_roundtrip:
  assumes "length salt = 16"
  shows "\<exists>stored. auth_hash_password (Some salt) pw = Some stored \<and> length stored < AUTH_PASSWORD_HASH_LEN \<and>
    \<not> auth_password_needs_rehash (Some stored) \<and>
    (\<forall>pw'. auth_verify_password (Some pw') (Some stored) \<longleftrightarrow>
       pbkdf2_sha256 pw' salt PBKDF2_ITERATIONS = pbkdf2_sha256 pw salt PBKDF2_ITERATIONS) \<and>
    \<not> auth_verify_password None (Some stored) \<and> \<not> auth_verify_password (Some pw) None"
proof -
  let ?key = "pbkdf2_sha256 pw salt PBKDF2_ITERATIONS"
  let ?t = "dec_nat 120000 @ ''$'' @ bytes_to_hex salt @ ''$'' @ bytes_to_hex ?key"
  let ?stored = "PBKDF2_PREFIX @ ?t"
  note h = hash_password_text [OF assms, of pw]
  have len: "length ?stored < AUTH_PASSWORD_HASH_LEN"
    using assms by (simp add: PBKDF2_PREFIX_def AUTH_PASSWORD_HASH_LEN_def dec_iterations)
  have "strtol ?t = Some (int 120000, ''$'' @ bytes_to_hex salt @ ''$'' @ bytes_to_hex ?key)"
    by (rule strtol_dec) (simp add: ascii_digit_def)
  then have "\<not> auth_password_needs_rehash (Some ?stored)"
    by (simp add: auth_password_needs_rehash_def PBKDF2_ITERATIONS_def)
  moreover have "auth_verify_password (Some pw') (Some ?stored) \<longleftrightarrow> pbkdf2_sha256 pw' salt PBKDF2_ITERATIONS = ?key" for pw'
    using verify_pbkdf2_text [of salt ?key 120000 pw'] assms by (simp add: auth_verify_password_def PBKDF2_ITERATIONS_def)
  moreover have "\<not> auth_verify_password None (Some ?stored)" "\<not> auth_verify_password (Some pw) None"
    by (simp_all add: auth_verify_password_def)
  ultimately show ?thesis using h len by blast
qed

theorem password_roundtrip_witness:
  "\<exists>stored. auth_hash_password (Some (replicate 16 7)) ''secret'' = Some stored \<and>
     auth_verify_password (Some ''secret'') (Some stored)"
  using password_roundtrip [of "replicate 16 7" "''secret''"] by auto

text \<open>
  \<open>pbkdf2_sha256\<close> is PBKDF2 with HMAC-SHA-256 of the standards, for a key of 32 bytes: the
  exclusive or of the first \<open>c\<close> iterates of HMAC, started on the salt followed by the block number 1. The
  key of HMAC is hashed when longer than a block and padded with zeros.
\<close>

theorem pbkdf2_correct:
  "pbkdf2_sha256 password salt c =
     foldl (map2 (XOR)) (ref_u (text_bytes password) salt 0) (map (ref_u (text_bytes password) salt) [1..<nat c]) \<and>
   ref_u (text_bytes password) salt 0 = hmac_sha256 (text_bytes password) (salt @ [0, 0, 0, 1]) \<and>
   hmac_sha256 key msg = ref_hmac key msg \<and> sha256 msg = ref_sha256 msg"
  by (simp add: pbkdf2_sha256_ref hmac_sha256_ref ref_u_def sha256_ref)

text \<open>
  A request is let in only with a key of 64 hexadecimal digits whose hash is in the table, not
  revoked and not expired, and it gets the role and the user of that row. Any other header, or a
  failing statement, lets nobody in; and with a database that works the first unrevoked row decides.
\<close>

theorem auth_check_sound:
  assumes "auth_check_role_user now hdr d = (r, d')"
  shows "(\<forall>role user. r = Some (role, user) \<longrightarrow> valid_key now hdr (db_tables d) role user) \<and>
    (\<forall>key k. db_plan d = [] \<and> hdr = Some key \<and> length key = 64 \<and> list_all isxdigit key \<and>
      find (\<lambda>k. ak_key_hash k = sha256_hex key \<and> \<not> ak_revoked k) (t_api_keys (db_tables d)) = Some k \<and>
      (ak_expires_at k \<le> 0 \<or> now \<le> ak_expires_at k) \<longrightarrow> r = Some (buf 16 (ak_role k), buf 128 (ak_user_id k)))"
  using assms auth_check_key auth_check_works by fastforce

definition demo_key :: string where "demo_key = replicate 64 CHR ''a''"

theorem auth_check_sound_witness:
  "fst (auth_check_role_user 5 (Some demo_key) (opened_db (empty_tables\<lparr>t_api_keys :=
     [\<lparr> ak_key_hash = sha256_hex demo_key, ak_label = [], ak_role = ''admin'', ak_user_id = ''u'', ak_created_at = 0,
        ak_expires_at = 9, ak_revoked = False \<rparr>]\<rparr>))) = Some (''admin'', ''u'')"
proof -
  let ?k = "\<lparr> ak_key_hash = sha256_hex demo_key, ak_label = [], ak_role = ''admin'', ak_user_id = ''u'', ak_created_at = 0,
        ak_expires_at = 9, ak_revoked = False \<rparr>"
  let ?d = "opened_db (empty_tables\<lparr>t_api_keys := [?k]\<rparr>)"
  obtain r d' where run: "auth_check_role_user 5 (Some demo_key) ?d = (r, d')" by force
  have key: "length demo_key = 64" "list_all isxdigit demo_key"
    by (simp_all add: demo_key_def isxdigit_def list_all_iff less_eq_char_def)
  have d: "db_plan ?d = []" "t_api_keys (db_tables ?d) = [?k]" by simp_all
  have "db_plan ?d = [] \<and> Some demo_key = Some demo_key \<and> length demo_key = 64 \<and> list_all isxdigit demo_key \<and>
      find (\<lambda>k. ak_key_hash k = sha256_hex demo_key \<and> \<not> ak_revoked k) (t_api_keys (db_tables ?d)) = Some ?k \<and>
      (ak_expires_at ?k \<le> 0 \<or> 5 \<le> ak_expires_at ?k)"
    unfolding d using key by simp
  then have "r = Some (buf 16 (ak_role ?k), buf 128 (ak_user_id ?k))"
    by (rule auth_check_sound [OF run, THEN conjunct2, THEN spec, THEN spec, THEN mp])
  then show ?thesis unfolding run by (simp add: buf_def)
qed

end
