(* ===== verification/Http.thy ===== *)
theory Http
  imports Scheduling AppCommand Auth
begin

text \<open>
  What the handlers of \<open>src/http/routes.c\<close> share: the request as mongoose hands it over, the answers,
  the state of the HTTP side, and the helpers at the head of the file. The decoding of the request is
  mongoose's: its headers, query variables and body are fields of \<open>request\<close>, and so is the IPv4 address of
  the peer. \<open>rq_var name n\<close> is what \<open>mg_http_get_var\<close> returns for a buffer of \<open>n\<close> bytes and what the buffer
  holds afterwards. An answer is its code with the message of \<open>http_error\<close>, the JSON tree given to
  \<open>http_json_reply\<close>, or a body with its content type; the first message of an event stream; or the path
  of the file that mongoose sends.
\<close>

section \<open>Model\<close>

record request =
  rq_method :: string
  rq_uri :: string
  rq_header :: "string \<Rightarrow> string option"
  rq_var :: "string \<Rightarrow> nat \<Rightarrow> int \<times> string"
  rq_body :: string
  rq_peer :: "32 word"

datatype reply =
  Http_Error int string | Http_Json int json | Http_Text int string string | Http_Stream json | Http_File string

record login_rl =
  rl_ip :: "32 word"
  rl_attempts :: int
  rl_window_start :: int

record http_sys =
  hs_core :: sched_sys
  hs_accepting_jobs :: bool
  hs_login_rl :: "login_rl list"

text \<open>
  What the operating system and the libraries answer to one request: memory, random bytes, the parser,
  files. \<open>re_child i\<close> is the allocation and the entropy of the \<open>i\<close>-th job a request creates, \<open>re_salt i\<close> the
  salt of the \<open>i\<close>-th password it hashes, \<open>re_write_ok i\<close> says whether the \<open>i\<close>-th file it writes is stored,
  \<open>re_wf_raw\<close> is what the buffer of \<open>gen_wf_id\<close> holds, and \<open>re_to_int\<close> what the compiler makes of a number
  an \<open>int\<close> cannot hold, whose conversion C leaves undefined.
\<close>

record req_env =
  re_exec :: exec_env
  re_files :: app_files
  re_alloc_ok :: bool
  re_calloc_ok :: bool
  re_child :: "nat \<Rightarrow> bool \<times> entropy"
  re_push_ok :: "nat \<Rightarrow> bool"
  re_fopen_ok :: bool
  re_random :: "8 word list option"
  re_salt :: "nat \<Rightarrow> 8 word list option"
  re_present :: "string \<Rightarrow> bool"
  re_print_ok :: bool
  re_write_ok :: "nat \<Rightarrow> bool"
  re_wf_raw :: "8 word list"
  re_to_int :: "cnum \<Rightarrow> int"

abbreviation on_core :: "(sched_sys \<Rightarrow> sched_sys) \<Rightarrow> http_sys \<Rightarrow> http_sys" where
  "on_core f h \<equiv> h\<lparr>hs_core := f (hs_core h)\<rparr>"

subsection \<open>Helpers\<close>

definition c_trunc :: "real \<Rightarrow> int" where
  "c_trunc v = (if v \<ge> 0 then \<lfloor>v\<rfloor> else \<lceil>v\<rceil>)"

definition c_int :: "req_env \<Rightarrow> cnum \<Rightarrow> int" where
  "c_int env v =
     (case v of
        Finite x \<Rightarrow> if -(2^31) \<le> c_trunc x \<and> c_trunc x < 2^31 then c_trunc x else re_to_int env v
      | Infinite _ \<Rightarrow> re_to_int env v)"

fun clamp_int :: "cnum \<Rightarrow> int \<Rightarrow> int \<Rightarrow> int" where
  "clamp_int (Finite v) lo hi = (if v < of_int lo then lo else if v > of_int hi then hi else c_trunc v)"
| "clamp_int (Infinite positive) lo hi = (if positive then hi else lo)"

text \<open>\<open>cJSON_IsNumber(x) ? clamp_int(x->valuedouble, lo, hi) : dflt\<close>\<close>

definition clamp_item :: "json option \<Rightarrow> int \<Rightarrow> int \<Rightarrow> int \<Rightarrow> int" where
  "clamp_item x dflt lo hi = (case x of Some (JNumber v) \<Rightarrow> clamp_int v lo hi | _ \<Rightarrow> dflt)"

definition parse_query_int :: "request \<Rightarrow> string \<Rightarrow> int \<Rightarrow> int \<Rightarrow> int \<Rightarrow> int option" where
  "parse_query_int rq name default_value min_value max_value =
     (let (len, value) = rq_var rq name 64 in
      if len \<le> 0 then Some default_value
      else case strtol value of
        Some (parsed, []) \<Rightarrow>
          if parsed < min_value \<or> parsed > max_value \<or> parsed > 2 ^ 31 - 1 then None else Some parsed
      | _ \<Rightarrow> None)"

text \<open>\<open>None\<close> is -1, \<open>Some None\<close> is 0, \<open>Some (Some v)\<close> is 1 with the value.\<close>

definition json_optional_int :: "json \<Rightarrow> string \<Rightarrow> int \<Rightarrow> int \<Rightarrow> int option option" where
  "json_optional_int obj name min_value max_value =
     (case get_item obj name of
        None \<Rightarrow> Some None
      | Some item \<Rightarrow> map_option Some (whole_number item min_value max_value))"

definition copy_optional_string :: "json \<Rightarrow> string \<Rightarrow> nat \<Rightarrow> string option option" where
  "copy_optional_string obj name out_len =
     (case get_item obj name of
        None \<Rightarrow> Some None
      | Some (JString s) \<Rightarrow> if length s \<ge> out_len then None else Some (Some s)
      | Some _ \<Rightarrow> None)"

definition safe_cloud_arg :: "string \<Rightarrow> bool" where
  "safe_cloud_arg v \<longleftrightarrow> v \<noteq> [] \<and> hd v \<noteq> CHR ''-'' \<and> list_all (\<lambda>c. is_alnum c \<or> c \<in> set ''-_./:,='') v"

definition slash :: "char \<Rightarrow> bool" where "slash c \<longleftrightarrow> c = CHR ''/''"

fun skip_segments :: "nat \<Rightarrow> string \<Rightarrow> string" where
  "skip_segments 0 p = p"
| "skip_segments (Suc n) p = skip_segments n (dropWhile slash (dropWhile (\<lambda>c. \<not> slash c) p))"

definition extract_segment :: "string \<Rightarrow> nat \<Rightarrow> nat \<Rightarrow> string" where
  "extract_segment uri seg_index out_len =
     buf out_len (takeWhile (\<lambda>c. \<not> slash c) (skip_segments seg_index (dropWhile slash uri)))"

definition jnum :: "int \<Rightarrow> json" where
  "jnum n = JNumber (Finite (of_int n))"

definition job_to_json :: "job \<Rightarrow> json" where
  "job_to_json job = JObject
     [(''id'', JString (j_id job)), (''command'', JString (j_command job)),
      (''status'', JString (job_status_str (j_status job))), (''priority'', jnum (j_priority job)),
      (''req_cores'', jnum (j_req_cores job)), (''req_gpu'', jnum (j_req_gpu job)),
      (''req_ram_mb'', jnum (j_req_ram_mb job)), (''req_disk_mb'', jnum (j_req_disk_mb job)),
      (''machine_id'', JString (j_machine_id job)), (''submitted_at'', jnum (j_submitted_at job)),
      (''started_at'', jnum (j_started_at job)), (''ended_at'', jnum (j_ended_at job)),
      (''exit_code'', jnum (j_exit_code job)), (''timeout_seconds'', jnum (j_timeout_seconds job)),
      (''status_reason'', JString (j_status_reason job)), (''input_files'', JString (j_input_files job)),
      (''user_id'', JString (j_user_id job)), (''app_id'', JString (j_app_id job)),
      (''depends_on'', JString (j_depends_on job)), (''workflow_id'', JString (j_workflow_id job)),
      (''batch_id'', JString (j_batch_id job)), (''same_machine_as'', JString (j_same_machine_as job))]"

subsection \<open>The database of the core\<close>

text \<open>A query of a handler, and a statement whose result it ignores.\<close>

definition ask :: "(db \<Rightarrow> 'a \<times> db) \<Rightarrow> http_sys \<Rightarrow> 'a \<times> http_sys" where
  "ask q h = (let (r, d) = q (sy_db (hs_core h)) in (r, on_core (\<lambda>s. s\<lparr>sy_db := d\<rparr>) h))"

definition tell :: "(db \<Rightarrow> 'a \<times> db) \<Rightarrow> http_sys \<Rightarrow> http_sys" where
  "tell q h = snd (ask q h)"

abbreviation now_of :: "http_sys \<Rightarrow> int" where
  "now_of h \<equiv> sy_now (hs_core h)"

section \<open>Laws\<close>

lemma clamp_int_range: "lo \<le> hi \<Longrightarrow> lo \<le> clamp_int v lo hi \<and> clamp_int v lo hi \<le> hi"
  by (cases "(v, lo, hi)" rule: clamp_int.cases) (auto simp: c_trunc_def le_floor_iff ceiling_le_iff le_ceiling_iff floor_le_iff)

lemma clamp_item_range: "lo \<le> hi \<Longrightarrow> lo \<le> dflt \<Longrightarrow> dflt \<le> hi \<Longrightarrow> lo \<le> clamp_item x dflt lo hi \<and> clamp_item x dflt lo hi \<le> hi"
  using clamp_int_range by (auto simp: clamp_item_def split: option.splits json.splits)

lemma parse_query_int_range:
  "parse_query_int rq name dflt lo hi = Some v \<Longrightarrow> lo \<le> dflt \<Longrightarrow> dflt \<le> hi \<Longrightarrow> lo \<le> v \<and> v \<le> hi"
  by (auto simp: parse_query_int_def split: if_splits option.splits list.splits prod.splits)

lemma ask_core [simp]:
  "hs_core (snd (ask q h)) = (hs_core h)\<lparr>sy_db := snd (q (sy_db (hs_core h)))\<rparr>"
  "hs_accepting_jobs (snd (ask q h)) = hs_accepting_jobs h" "hs_login_rl (snd (ask q h)) = hs_login_rl h"
  "fst (ask q h) = fst (q (sy_db (hs_core h)))"
  by (simp_all add: ask_def split: prod.splits)

lemma tell_core [simp]:
  "hs_core (tell q h) = (hs_core h)\<lparr>sy_db := snd (q (sy_db (hs_core h)))\<rparr>"
  "hs_accepting_jobs (tell q h) = hs_accepting_jobs h" "hs_login_rl (tell q h) = hs_login_rl h"
  by (simp_all add: tell_def)

end
