(* ===== verification/Submission.thy ===== *)
theory Submission
  imports Http
begin

text \<open>
  The handlers of \<open>src/http/routes.c\<close> on single jobs: submission with its idempotency key, release,
  cancellation, retry, purge, upload of input files, and \<open>src/http/batches.c\<close>. A handler returns its
  answer and the new state; submission may hang in the resolution of a template, hence its option.
\<close>

section \<open>Model\<close>

abbreviation is_admin :: "string \<Rightarrow> bool" where
  "is_admin role \<equiv> role = ''admin''"

definition disk :: "disk_op \<Rightarrow> http_sys \<Rightarrow> http_sys" where
  "disk x = on_core (sched_log x)"

subsection \<open>Submission\<close>

text \<open>-1: refused, 0: absent, 1: present with its text.\<close>

definition extract_idempotency_key :: "string option \<Rightarrow> nat \<Rightarrow> int \<times> string" where
  "extract_idempotency_key header out_len =
     (case header of
        None \<Rightarrow> (0, [])
      | Some s \<Rightarrow>
          if s = [] then (0, [])
          else if length s \<ge> out_len then (-1, [])
          else if list_all (\<lambda>c. is_alnum c \<or> c \<in> set ''_-.:'') s then (1, s) else (-1, s))"

definition item_text :: "json option \<Rightarrow> string" where
  "item_text x = (case string_value x of Some s \<Rightarrow> s | None \<Rightarrow> [])"

text \<open>The command of the request: resolved from an application, or given. \<open>None\<close>: it never comes.\<close>

definition submit_source ::
  "app_files \<Rightarrow> config \<Rightarrow> json \<Rightarrow> (string + string \<times> string option \<times> app_resources option) option" where
  "submit_source af cfg req =
     (let jcmd = string_value (get_item req ''command''); app_id = item_text (get_item req ''app_id'') in
      if cf_command_mode cfg = ''app_only'' then
        (if jcmd \<noteq> None then
           Some (Inl (''Raw '' @ sq ''command'' @ '' not allowed in app_only mode; use '' @ sq ''app_id'' @ '' + '' @ sq ''parameters''))
         else if app_id = [] then Some (Inl (''Missing '' @ sq ''app_id'' @ '' (required in app_only mode)''))
         else case resolve_app_command af app_id (get_item req ''parameters'') JOB_CMD_LEN of
           None \<Rightarrow> None
         | Some (Inl e) \<Rightarrow> Some (Inl e)
         | Some (Inr (cmd, env_json, res)) \<Rightarrow> Some (Inr (cmd, env_json, Some res)))
      else
        (case jcmd of
           None \<Rightarrow> Some (Inl (''Missing '' @ sq ''command''))
         | Some cmd \<Rightarrow>
             if app_id = [] then Some (Inr (buf JOB_CMD_LEN cmd, None, None))
             else case resolve_app_command af app_id None JOB_CMD_LEN of
               None \<Rightarrow> None
             | Some (Inl e) \<Rightarrow> Some (Inr (buf JOB_CMD_LEN cmd, None, None))
             | Some (Inr (_, env_json, _)) \<Rightarrow> Some (Inr (buf JOB_CMD_LEN cmd, env_json, None))))"

fun join_files :: "json list \<Rightarrow> string \<Rightarrow> string + string" where
  "join_files [] acc = Inr acc"
| "join_files (f # fs) acc =
     (case f of
        JString name \<Rightarrow>
          if \<not> transfer_valid_filename name then Inl ''Invalid input filename''
          else if length acc + (if acc \<noteq> [] then 1 else 0) + length name + 1 > 2048
          then Inl ''Input file list is too long''
          else join_files fs (acc @ (if acc \<noteq> [] then '','' else []) @ name)
      | _ \<Rightarrow> Inl ''Invalid input filename'')"

definition input_file_list :: "json \<Rightarrow> string + string" where
  "input_file_list req =
     (case get_item req ''input_files'' of
        None \<Rightarrow> Inr []
      | Some (JArray fs) \<Rightarrow> join_files fs []
      | Some _ \<Rightarrow> Inl (sq ''input_files'' @ '' must be an array''))"

definition may_depend :: "string \<Rightarrow> string \<Rightarrow> job option \<Rightarrow> bool" where
  "may_depend auth_user auth_role dep =
     (case dep of None \<Rightarrow> False
      | Some j \<Rightarrow> is_admin auth_role \<or> j_user_id j \<noteq> [] \<and> j_user_id j = auth_user)"

fun join_deps :: "string \<Rightarrow> string \<Rightarrow> json list \<Rightarrow> string \<Rightarrow> http_sys \<Rightarrow> (string + string) \<times> http_sys" where
  "join_deps auth_user auth_role [] acc h = (Inr acc, h)"
| "join_deps auth_user auth_role (dep # deps) acc h =
     (case dep of
        JString (c # cs) \<Rightarrow>
          let (j, h1) = ask (db_get_job (c # cs)) h in
          if \<not> may_depend auth_user auth_role j then (Inl (buf 256 (''Dependency job not found: '' @ c # cs)), h1)
          else join_deps auth_user auth_role deps
                 (buf 2048 (buf 2048 (acc @ (if acc \<noteq> [] then '','' else [])) @ c # cs)) h1
      | _ \<Rightarrow> join_deps auth_user auth_role deps acc h)"

definition dependency_list :: "string \<Rightarrow> string \<Rightarrow> json \<Rightarrow> http_sys \<Rightarrow> (string + string) \<times> http_sys" where
  "dependency_list auth_user auth_role req h =
     (case get_item req ''depends_on'' of
        Some (JArray deps) \<Rightarrow> join_deps auth_user auth_role deps [] h
      | Some (JString (c # cs)) \<Rightarrow>
          let (j, h1) = ask (db_get_job (c # cs)) h in
          if \<not> may_depend auth_user auth_role j then (Inl (buf 256 (''Dependency job not found: '' @ c # cs)), h1)
          else (Inr (buf 2048 (c # cs)), h1)
      | _ \<Rightarrow> (Inr [], h))"

definition first_item :: "json \<Rightarrow> string \<Rightarrow> string \<Rightarrow> json option" where
  "first_item req a b = (case get_item req a of None \<Rightarrow> get_item req b | x \<Rightarrow> x)"

definition submit_create ::
  "req_env \<Rightarrow> string \<Rightarrow> json \<Rightarrow> string \<Rightarrow> app_resources option \<Rightarrow> http_sys \<Rightarrow> job option \<times> http_sys" where
  "submit_create env auth_user req cmd res h =
     (let want = (\<lambda>f a b dflt lo hi. case res of Some r \<Rightarrow> f r | None \<Rightarrow> clamp_item (first_item req a b) dflt lo hi);
          user_id = (if auth_user \<noteq> [] then auth_user else item_text (get_item req ''user_id''));
          (job, core) = job_create_ex (fst (re_child env 0)) (snd (re_child env 0))
            (cf_work_dir (xe_config (re_exec env))) cmd (clamp_item (get_item req ''priority'') 50 0 100)
            (want ap_req_cores ''req_cores'' ''cores'' 1 1 10000) (want ap_req_gpu ''req_gpu'' ''gpu'' 0 0 1000)
            (want ap_req_ram_mb ''req_ram_mb'' ''ram_mb'' 0 0 10000000)
            (want ap_req_disk_mb ''req_disk_mb'' ''disk_mb'' 0 0 10000000)
            (Some user_id) (Some (item_text (get_item req ''app_id''))) (hs_core h)
      in (job, h\<lparr>hs_core := core\<rparr>))"

definition store_env :: "req_env \<Rightarrow> job \<Rightarrow> string option \<Rightarrow> http_sys \<Rightarrow> http_sys" where
  "store_env env job env_json h =
     (case env_json of
        None \<Rightarrow> h
      | Some content \<Rightarrow>
          let h1 = disk (Init_Dirs (j_id job)) h in
          if re_fopen_ok env then disk (Write_File (buf 768 (j_input_dir job @ ''/.app_env.json'')) content) h1 else h1)"

definition held_reason :: "string \<Rightarrow> string \<Rightarrow> string" where
  "held_reason deps files = buf 256
     (if deps \<noteq> [] \<and> files \<noteq> [] then ''Waiting for dependencies and input files''
      else if deps \<noteq> [] then ''Waiting for dependencies: '' @ deps
      else ''Waiting for input files: '' @ files)"

definition submit_hold :: "job \<Rightarrow> string \<Rightarrow> string \<Rightarrow> http_sys \<Rightarrow> reply \<times> http_sys" where
  "submit_hold job deps files h =
     (let why = held_reason deps files;
          job1 = job\<lparr>j_input_files := buf 2048 files, j_status := JOB_STATUS_CREATED, j_status_reason := why\<rparr>;
          h1 = tell (db_update_job_status (j_id job) JOB_STATUS_CREATED 0 0) h;
          h2 = (if files \<noteq> [] then tell (db_update_input_files (j_id job) files) h1 else h1);
          h3 = tell (db_update_status_reason (j_id job) why) h2
      in (Http_Json 201 (job_to_json job1), disk (Init_Dirs (j_id job)) h3))"

definition submit_finish ::
  "req_env \<Rightarrow> string \<Rightarrow> string option \<Rightarrow> job \<Rightarrow> string \<Rightarrow> string \<Rightarrow> int \<Rightarrow> http_sys \<Rightarrow> reply \<times> http_sys" where
  "submit_finish env auth_user key job0 deps files timeout h0 =
     (let job1 = (if deps \<noteq> [] then job0\<lparr>j_depends_on := buf 2048 deps\<rparr> else job0);
          h1 = (if deps \<noteq> [] then tell (db_update_depends_on (j_id job0) deps) h0 else h0);
          job = (if timeout > 0 then job1\<lparr>j_timeout_seconds := timeout\<rparr> else job1);
          h2 = (if timeout > 0 then tell (db_update_job_timeout (j_id job0) timeout) h1 else h1);
          (stored, h3) = (case key of
             None \<Rightarrow> (0, h2)
           | Some k \<Rightarrow> ask (db_store_submission_key (now_of h2) auth_user k (j_id job0)) h2) in
      if stored \<noteq> 0 then
        let (_, _, core) = job_set_status_r (xe_print (re_exec env)) job JOB_STATUS_FAILED
                             (Some ''Failed to persist idempotency key'') (hs_core h3)
        in (Http_Error 500 ''Failed to persist idempotency key'', disk (Cleanup_Job (j_id job0)) (h3\<lparr>hs_core := core\<rparr>))
      else if files \<noteq> [] \<or> deps \<noteq> [] then submit_hold job deps files h3
      else (Http_Json 201 (job_to_json job), on_core (push_job (re_push_ok env 0) job) h3))"

definition submit_checked ::
  "req_env \<Rightarrow> string \<Rightarrow> string \<Rightarrow> string option \<Rightarrow> json \<Rightarrow> string \<Rightarrow> string option \<Rightarrow> app_resources option \<Rightarrow>
   http_sys \<Rightarrow> reply \<times> http_sys" where
  "submit_checked env auth_user auth_role key req cmd env_json res h =
     (case input_file_list req of
        Inl e \<Rightarrow> (Http_Error 400 e, h)
      | Inr files \<Rightarrow>
          (case dependency_list auth_user auth_role req h of
             (Inl e, h1) \<Rightarrow> (Http_Error 400 e, h1)
           | (Inr deps, h1) \<Rightarrow>
               (case submit_create env auth_user req cmd res h1 of
                  (None, h2) \<Rightarrow> (Http_Error 500 ''Failed to create job'', h2)
                | (Some job, h2) \<Rightarrow>
                    submit_finish env auth_user key job deps files
                      (clamp_item (get_item req ''timeout_seconds'') 0 0 604800) (store_env env job env_json h2))))"

definition submit_new ::
  "req_env \<Rightarrow> request \<Rightarrow> string \<Rightarrow> string \<Rightarrow> string option \<Rightarrow> http_sys \<Rightarrow> (reply \<times> http_sys) option" where
  "submit_new env rq auth_user auth_role key h =
     (if \<not> hs_accepting_jobs h then
        Some (Http_Error 503 ''Scheduler is draining and not accepting new jobs'', h)
      else case af_parse (re_files env) (buf 4096 (rq_body rq)) of
        None \<Rightarrow> Some (Http_Error 400 ''Invalid JSON'', h)
      | Some req \<Rightarrow>
          (case submit_source (re_files env) (xe_config (re_exec env)) req of
             None \<Rightarrow> None
           | Some (Inl e) \<Rightarrow> Some (Http_Error 400 e, h)
           | Some (Inr (cmd, env_json, res)) \<Rightarrow>
               Some (submit_checked env auth_user auth_role key req cmd env_json res h)))"

definition submit_job ::
  "req_env \<Rightarrow> request \<Rightarrow> string \<Rightarrow> string \<Rightarrow> http_sys \<Rightarrow> (reply \<times> http_sys) option" where
  "submit_job env rq auth_user auth_role h =
     (let (present, key) = extract_idempotency_key (rq_header rq ''Idempotency-Key'') 129 in
      if present < 0 \<or> present \<noteq> 0 \<and> auth_user = [] then
        Some (Http_Error 400 ''Idempotency-Key must be 1-128 safe characters and requires a bound user'', h)
      else if present = 0 then submit_new env rq auth_user auth_role None h
      else
        (case ask (db_get_submission_job auth_user key JOB_ID_LEN) h of
           (None, h1) \<Rightarrow> Some (Http_Error 500 ''Failed to check idempotency key'', h1)
         | (Some None, h1) \<Rightarrow> submit_new env rq auth_user auth_role (Some key) h1
         | (Some (Some existing_job_id), h1) \<Rightarrow>
             (case ask (db_get_job existing_job_id) h1 of
                (None, h2) \<Rightarrow> Some (Http_Error 500 ''Idempotency record is inconsistent'', h2)
              | (Some job, h2) \<Rightarrow>
                  Some (if re_print_ok env then Http_Json 200 (job_to_json job)
                        else Http_Error 500 ''Out of memory'', h2))))"

subsection \<open>Operations on one job\<close>

definition get_job :: "string \<Rightarrow> http_sys \<Rightarrow> reply \<times> http_sys" where
  "get_job job_id h =
     (case ask (db_get_job job_id) h of
        (None, h1) \<Rightarrow> (Http_Error 404 ''Job not found'', h1)
      | (Some job, h1) \<Rightarrow> (Http_Json 200 (job_to_json job), h1))"

definition release_job :: "req_env \<Rightarrow> string \<Rightarrow> http_sys \<Rightarrow> reply \<times> http_sys" where
  "release_job env job_id h =
     (case ask (db_get_job job_id) h of
        (None, h1) \<Rightarrow> (Http_Error 404 ''Job not found'', h1)
      | (Some job, h1) \<Rightarrow>
          if j_status job \<noteq> JOB_STATUS_CREATED then (Http_Error 409 ''Job is not in CREATED state'', h1)
          else let (_, job', core) = job_set_status_r (xe_print (re_exec env)) job JOB_STATUS_QUEUED
                                       (Some ''Released manually by user'') (hs_core h1)
               in (Http_Json 200 (job_to_json job'), h1\<lparr>hs_core := push_job (re_push_ok env 0) job' core\<rparr>))"

definition cancel_job :: "req_env \<Rightarrow> string \<Rightarrow> http_sys \<Rightarrow> reply \<times> http_sys" where
  "cancel_job env job_id h =
     (case ask (db_get_job job_id) h of
        (None, h1) \<Rightarrow> (Http_Error 404 ''Job not found'', h1)
      | (Some job, h1) \<Rightarrow>
          if terminal (j_status job) then (Http_Error 409 ''Job already in terminal state'', h1)
          else let (r, core) = scheduler_cancel_job (re_exec env) (Some job_id) (Some ''Cancelled by user'') (hs_core h1);
                   h2 = h1\<lparr>hs_core := core\<rparr>
               in if r \<noteq> 0 then (Http_Error 409 ''Job could not be cancelled'', h2) else get_job job_id h2)"

text \<open>The way out when the retried job cannot be read, printed or queued.\<close>

definition retry_failed :: "string \<Rightarrow> http_sys \<Rightarrow> reply \<times> http_sys" where
  "retry_failed job_id h =
     (Http_Error 500 ''Failed to queue retry'', tell (db_update_job_status job_id JOB_STATUS_FAILED (-1) (now_of h)) h)"

definition retry_requeue :: "req_env \<Rightarrow> string \<Rightarrow> http_sys \<Rightarrow> reply \<times> http_sys" where
  "retry_requeue env job_id h =
     (case ask (db_get_job job_id) h of
        (None, h1) \<Rightarrow> retry_failed job_id h1
      | (Some job, h1) \<Rightarrow>
          if \<not> re_print_ok env then retry_failed job_id h1
          else let (r, q) = queue_push (re_push_ok env 0) (sy_queue (hs_core h1)) (Some job);
                   h2 = on_core (\<lambda>s. s\<lparr>sy_queue := q\<rparr>) h1
               in if r \<noteq> 0 then retry_failed job_id h2 else (Http_Json 200 (job_to_json job), h2))"

definition retry_job :: "req_env \<Rightarrow> string \<Rightarrow> http_sys \<Rightarrow> reply \<times> http_sys" where
  "retry_job env job_id h =
     (case ask (db_get_job job_id) h of
        (None, h1) \<Rightarrow> (Http_Error 404 ''Job not found'', h1)
      | (Some previous, h1) \<Rightarrow>
          if j_status previous \<notin> {JOB_STATUS_FAILED, JOB_STATUS_CANCELLED}
          then (Http_Error 409 ''Only FAILED or CANCELLED jobs can be retried'', h1)
          else if executor_is_active job_id (hs_core h1)
          then (Http_Error 409 ''Previous process is still terminating'', h1)
          else let h2 = on_core (\<lambda>s. s\<lparr>sy_queue := snd (queue_remove (sy_queue s) (Some job_id))\<rparr>) h1;
                   (r, h3) = ask (db_retry_job job_id) h2
               in if r \<noteq> 0 then (Http_Error 409 ''Job could not be retried'', h3)
                  else retry_requeue env job_id (disk (Reset_Outputs job_id) h3))"

definition purge_jobs :: "req_env \<Rightarrow> http_sys \<Rightarrow> reply \<times> http_sys" where
  "purge_jobs env h =
     (if \<not> re_alloc_ok env then (Http_Error 500 ''Out of memory'', h)
      else let (jobs, h1) = ask (db_list_jobs 4096) h;
               dead = filter (\<lambda>j. terminal (j_status j)) jobs;
               h2 = fold (\<lambda>j. disk (Cleanup_Job (j_id j))) dead h1;
               (deleted, h3) = ask db_purge_jobs h2
           in (Http_Json 200 (JObject [(''deleted'', jnum deleted), (''cleaned'', jnum (int (length dead)))]), h3))"

subsection \<open>Uploads\<close>

text \<open>
  The loop of \<open>check_and_auto_release\<close>: only leading blanks of a name are skipped, and the names come
  from \<open>strtok\<close>. \<open>re_present\<close> tells which files can be opened.
\<close>

definition all_files_present :: "req_env \<Rightarrow> string \<Rightarrow> string \<Rightarrow> bool" where
  "all_files_present env input_dir input_files =
     list_all (\<lambda>tok. let name = dropWhile (\<lambda>c. c = CHR '' '') tok in
                 transfer_valid_filename name \<and> re_present env (buf 768 (input_dir @ ''/'' @ name)))
       (strtok CHR '','' (buf 2048 input_files))"

definition check_and_auto_release :: "req_env \<Rightarrow> string \<Rightarrow> http_sys \<Rightarrow> http_sys" where
  "check_and_auto_release env job_id h =
     (case ask (db_get_job job_id) h of
        (None, h1) \<Rightarrow> h1
      | (Some job, h1) \<Rightarrow>
          if j_status job \<noteq> JOB_STATUS_CREATED \<or> j_input_files job = [] then h1
          else if all_files_present env (store_input_dir (cf_work_dir (xe_config (re_exec env))) job_id 512) (j_input_files job)
          then let (_, job', core) = job_set_status_r (xe_print (re_exec env)) job JOB_STATUS_QUEUED
                                       (Some ''All input files received via upload'') (hs_core h1)
               in h1\<lparr>hs_core := push_job (re_push_ok env 0) job' core\<rparr>
          else h1)"

text \<open>\<open>None\<close> is -1. \<open>re_fopen_ok\<close>: the file is opened, written and closed.\<close>

definition upload_handle :: "req_env \<Rightarrow> string \<Rightarrow> string \<Rightarrow> string \<Rightarrow> http_sys \<Rightarrow> int option \<times> http_sys" where
  "upload_handle env job_id filename data h =
     (let path = buf 768 (store_input_dir (cf_work_dir (xe_config (re_exec env))) job_id 512 @ ''/'' @ filename) in
      if \<not> transfer_valid_filename filename then (None, h)
      else let h1 = disk (Init_Dirs job_id) h in
           if re_fopen_ok env then (Some (int (length data)), disk (Write_File path data) h1) else (None, h1))"

text \<open>
  \<open>mg_url_decode\<close> is mongoose's: \<open>decoded\<close> is its output, \<open>None\<close> when it fails. An output with a NUL
  is longer than its \<open>strlen\<close>.
\<close>

definition decode_filename_segment :: "string option \<Rightarrow> string option" where
  "decode_filename_segment decoded =
     (case decoded of
        None \<Rightarrow> None
      | Some s \<Rightarrow> if char_of (0 :: nat) \<notin> set s \<and> transfer_valid_filename s then Some s else None)"

definition upload_input :: "req_env \<Rightarrow> request \<Rightarrow> string \<Rightarrow> string option \<Rightarrow> http_sys \<Rightarrow> reply \<times> http_sys" where
  "upload_input env rq job_id decoded h =
     (if int (length (rq_body rq)) > 512 * 1024 * 1024 then (Http_Error 413 ''Upload too large (max 512 MB)'', h)
      else case decode_filename_segment decoded of
        None \<Rightarrow> (Http_Error 400 ''Invalid filename'', h)
      | Some filename \<Rightarrow>
          (case upload_handle env job_id filename (rq_body rq) h of
             (None, h1) \<Rightarrow> (Http_Error 500 ''Upload failed'', h1)
           | (Some written, h1) \<Rightarrow>
               (Http_Json 200 (JObject [(''bytes'', jnum written)]), check_and_auto_release env job_id h1)))"

section \<open>Laws\<close>

text \<open>The tables, and the rows of the jobs.\<close>

abbreviation tabs :: "http_sys \<Rightarrow> tables" where
  "tabs h \<equiv> db_tables (sy_db (hs_core h))"

abbreviation working :: "http_sys \<Rightarrow> bool" where
  "working h \<equiv> db_plan (sy_db (hs_core h)) = []"

abbreviation queue_of :: "http_sys \<Rightarrow> queue option" where
  "queue_of h \<equiv> sy_queue (hs_core h)"

text \<open>A working database whose last job row is new.\<close>

definition fresh_row :: "http_sys \<Rightarrow> job_row list \<Rightarrow> job_row \<Rightarrow> bool" where
  "fresh_row h rows row \<longleftrightarrow> working h \<and> t_jobs (tabs h) = rows @ [row] \<and> r_id row \<notin> r_id ` set rows"

lemma update_last_row:
  "r_id row \<notin> r_id ` set rows \<Longrightarrow> fst (update_rows (\<lambda>r. r_id r = r_id row) f (rows @ [row])) = rows @ [f row]"
  by (auto simp: update_rows_def image_iff intro!: map_idI)

lemma update_job_working:
  "db_plan d = [] \<Longrightarrow> update_job i f d =
     (0, d\<lparr>db_tables := (db_tables d)\<lparr>t_jobs := fst (update_rows (\<lambda>r. r_id r = i) f (t_jobs (db_tables d)))\<rparr>\<rparr>)"
  unfolding update_job_def
  by (rule sql_run_ok [where n = "snd (update_rows (\<lambda>r. r_id r = i) f (t_jobs (db_tables d)))"])
    (simp_all add: update_jobs_def split_beta)

lemma fresh_tell:
  assumes "fresh_row h rows row" "\<And>r. r_id (f r) = r_id r" "i = r_id row"
  shows "fresh_row (tell (update_job i f) h) rows (f row)"
    "t_submission_keys (tabs (tell (update_job i f) h)) = t_submission_keys (tabs h)"
  using assms update_last_row [of row rows f] by (simp_all add: fresh_row_def update_job_working)

lemma fresh_disk [simp]:
  "fresh_row (disk x h) rows row = fresh_row h rows row" "tabs (disk x h) = tabs h" "queue_of (disk x h) = queue_of h"
  "sy_db (hs_core (disk x h)) = sy_db (hs_core h)" "hs_accepting_jobs (disk x h) = hs_accepting_jobs h"
  "now_of (disk x h) = now_of h"
  by (simp_all add: disk_def sched_log_def fresh_row_def)

lemma store_env_frame [simp]:
  "fresh_row (store_env env job e h) rows row = fresh_row h rows row" "tabs (store_env env job e h) = tabs h"
  "queue_of (store_env env job e h) = queue_of h" "now_of (store_env env job e h) = now_of h"
  by (simp_all add: store_env_def Let_def split: option.splits)

lemma ask_read:
  assumes "working h" "\<And>d. db_plan d = [] \<Longrightarrow> q d = (f (db_tables d), d)"
  shows "ask q h = (f (tabs h), h)"
  using assms by (simp add: ask_def)

lemma ask_get_job:
  "working h \<Longrightarrow> ask (db_get_job i) h = (map_option (row_to_job True) (find (\<lambda>r. r_id r = i) (t_jobs (tabs h))), h)"
  by (rule ask_read) (simp_all add: db_get_job_def)

lemma join_deps_working:
  assumes "working h" "join_deps u role deps acc h = (r, h')"
  shows "h' = h \<and> (\<forall>out. r = Inr out \<longrightarrow> (length acc < 2048 \<longrightarrow> length out < 2048) \<and>
    (\<forall>d. JString d \<in> set deps \<and> d \<noteq> [] \<and> \<not> is_admin role \<longrightarrow>
       (\<exists>row \<in> set (t_jobs (tabs h)). r_id row = d \<and> u \<noteq> [] \<and> buf JOB_USER_LEN (r_user_id row) = u)))"
  using assms(2)
proof (induction deps arbitrary: acc)
  case Nil
  then show ?case by auto
next
  case (Cons dep deps)
  show ?case
  proof (cases "\<exists>c cs. dep = JString (c # cs)")
    case True
    then obtain c cs where dep: "dep = JString (c # cs)" by auto
    let ?d = "c # cs" and ?f = "find (\<lambda>r. r_id r = c # cs) (t_jobs (tabs h))"
    show ?thesis
    proof (cases "may_depend u role (map_option (row_to_job True) ?f)")
      case False
      then show ?thesis using Cons.prems dep assms(1) by (auto simp: ask_get_job)
    next
      case m: True
      then obtain row where f: "?f = Some row" by (cases ?f) (auto simp: may_depend_def)
      then have row: "row \<in> set (t_jobs (tabs h))" "r_id row = ?d" by (auto simp: find_Some_iff)
      let ?acc = "buf 2048 (buf 2048 (acc @ (if acc \<noteq> [] then '','' else [])) @ ?d)"
      have run: "join_deps u role deps ?acc h = (r, h')"
        using Cons.prems dep m assms(1) by (simp add: ask_get_job)
      have "length ?acc < 2048" by (rule length_buf_less) simp
      moreover have "\<not> is_admin role \<Longrightarrow> u \<noteq> [] \<and> buf JOB_USER_LEN (r_user_id row) = u"
        using m f by (auto simp: may_depend_def row_to_job_def)
      ultimately show ?thesis using Cons.IH [OF run] row dep by auto
    qed
  next
    case False
    then have run: "join_deps u role deps acc h = (r, h')"
      using Cons.prems by (auto split: json.splits list.splits)
    show ?thesis using Cons.IH [OF run] False by (auto simp: neq_Nil_conv)
  qed
qed

lemma dependency_list_working:
  assumes "working h" "dependency_list u role req h = (r, h')"
  shows "h' = h \<and> (\<forall>out. r = Inr out \<longrightarrow> length out < 2048)"
proof (cases "\<exists>deps. get_item req ''depends_on'' = Some (JArray deps)")
  case True
  then show ?thesis using assms join_deps_working [OF assms(1)] by (fastforce simp: dependency_list_def)
next
  case False
  have "length (buf 2048 x) < 2048" for x by (rule length_buf_less) simp
  then show ?thesis using assms False
    by (auto simp: dependency_list_def ask_get_job split: option.splits json.splits list.splits if_splits)
qed

lemma join_files_length: "join_files fs acc = Inr out \<Longrightarrow> length acc < 2048 \<Longrightarrow> length out < 2048"
  by (induction fs arbitrary: acc) (auto split: json.splits if_splits)

lemma input_file_list_length: "input_file_list req = Inr files \<Longrightarrow> length files < 2048"
  by (auto simp: input_file_list_def dest: join_files_length split: option.splits json.splits)

subsection \<open>Creation\<close>

text \<open>The fields of a job as \<open>job_create_ex\<close> makes it.\<close>

definition new_fields :: "job \<Rightarrow> bool" where
  "new_fields j \<longleftrightarrow> Db.job_fits j \<and> j_status j = JOB_STATUS_QUEUED \<and> j_machine_id j = [] \<and> j_exit_code j = 0 \<and>
     j_started_at j = 0 \<and> j_ended_at j = 0 \<and> j_status_reason j = [] \<and> j_input_files j = [] \<and> j_depends_on j = [] \<and>
     j_timeout_seconds j = 0"

lemma length_job_new_id: "length (job_new_id e) < JOB_ID_LEN"
  using length_gen_uuid length_buf_less [of JOB_ID_LEN] by (auto simp: job_new_id_def JOB_ID_LEN_def split: entropy.splits)

lemma new_job_fields: "new_fields (new_job w (job_new_id e) cmd p c g r dk u a now)"
proof -
  have "length (buf n x) < n" if "0 < n" for n x using length_buf_less [OF that] .
  then show ?thesis using length_job_new_id [of e]
    by (simp add: new_fields_def new_job_def Db.job_fits_def job_zero_def store_input_dir_def store_output_dir_def
        JOB_CMD_LEN_def JOB_USER_LEN_def JOB_APP_LEN_def JOB_ID_LEN_def)
qed

lemma job_create_ex_working:
  assumes "db_plan (sy_db s) = []" "job_create_ex ok e w cmd p c g r dk u a s = (jo, s')"
  shows "case jo of None \<Rightarrow> s' = s
    | Some j \<Rightarrow> j = new_job w (job_new_id e) cmd p c g r dk u a (sy_now s) \<and>
        j_id j \<notin> r_id ` set (t_jobs (db_tables (sy_db s))) \<and>
        s' = s\<lparr>sy_db := (sy_db s)\<lparr>db_tables := (db_tables (sy_db s))\<lparr>t_jobs :=
               t_jobs (db_tables (sy_db s)) @ [insert_job_row j]\<rparr>\<rparr>\<rparr>"
proof (cases ok)
  case False
  then show ?thesis using assms by (auto simp: job_create_ex_def)
next
  case True
  define j where "j = new_job w (job_new_id e) cmd p c g r dk u a (sy_now s)"
  let ?d = "sy_db s"
  have i: "db_insert_job j ?d = (if j_id j \<in> r_id ` set (t_jobs (db_tables ?d)) then (-1, ?d)
      else (0, ?d\<lparr>db_tables := (db_tables ?d)\<lparr>t_jobs := t_jobs (db_tables ?d) @ [insert_job_row j]\<rparr>\<rparr>))"
    using assms(1) by (simp add: db_insert_job_def sql_run_def sql_write_def)
  have "job_create_ex ok e w cmd p c g r dk u a s = (let (r, d) = db_insert_job j ?d in
      if r \<noteq> 0 then (None, s\<lparr>sy_db := d\<rparr>) else (Some j, s\<lparr>sy_db := d\<rparr>))"
    using True unfolding j_def by (simp add: job_create_ex_def Let_def)
  then show ?thesis using assms(2) i unfolding j_def [symmetric] by (auto split: if_splits)
qed

subsection \<open>Submission with a working database\<close>

text \<open>
  What \<open>submit_finish\<close> leaves of a new job: its row is the last one and reads back as the job of the
  answer; a job with neither inputs nor dependencies is QUEUED and pushed, any other is CREATED and held.
\<close>

definition accepted :: "req_env \<Rightarrow> string \<Rightarrow> http_sys \<Rightarrow> job \<Rightarrow> http_sys \<Rightarrow> bool" where
  "accepted env key_user h job h' \<longleftrightarrow>
     (\<exists>row. fresh_row h' (t_jobs (tabs h)) row \<and> r_id row = j_id job \<and> row_to_job True row = job) \<and>
     length (j_id job) < JOB_ID_LEN \<and>
     (if j_input_files job = [] \<and> j_depends_on job = []
      then j_status job = JOB_STATUS_QUEUED \<and> queue_of h' = snd (queue_push (re_push_ok env 0) (queue_of h) (Some job))
      else j_status job = JOB_STATUS_CREATED \<and> queue_of h' = queue_of h)"

lemma read_back: "new_fields j \<Longrightarrow> row_to_job True (insert_job_row j) = j"
  using row_to_job_insert [of j] by (simp add: new_fields_def)

text \<open>Reading a row commutes with the updates of a submission.\<close>

lemma row_to_job_updates:
  "row_to_job True (r\<lparr>r_depends_on := deps\<rparr>) = (row_to_job True r)\<lparr>j_depends_on := buf 2048 deps\<rparr>"
  "row_to_job True (r\<lparr>r_timeout_seconds := t\<rparr>) = (row_to_job True r)\<lparr>j_timeout_seconds := t\<rparr>"
  "row_to_job True (r\<lparr>r_status := st, r_exit_code := Some e, r_ended_at := Some en\<rparr>) =
     (row_to_job True r)\<lparr>j_status := st, j_exit_code := e, j_ended_at := en\<rparr>"
  "row_to_job True (r\<lparr>r_input_files := files\<rparr>) = (row_to_job True r)\<lparr>j_input_files := buf 2048 files\<rparr>"
  "row_to_job True (r\<lparr>r_status_reason := why\<rparr>) = (row_to_job True r)\<lparr>j_status_reason := buf 256 why\<rparr>"
  by (simp_all add: row_to_job_def col_int_def)

text \<open>The new row after a statement on it, with the job read from it.\<close>

definition holds_job :: "http_sys \<Rightarrow> job_row list \<Rightarrow> job \<Rightarrow> bool" where
  "holds_job h rows job \<longleftrightarrow> (\<exists>row. fresh_row h rows row \<and> r_id row = j_id job \<and> row_to_job True row = job)"

lemma holds_tell:
  assumes "holds_job h rows job" "i = j_id job" "\<And>r. r_id (f r) = r_id r"
    "\<And>r. row_to_job True (f r) = g (row_to_job True r)" "j_id (g job) = j_id job"
  shows "holds_job (tell (update_job i f) h) rows (g job)"
  using assms fresh_tell(1) unfolding holds_job_def by metis

lemma holds_depends:
  "holds_job h rows job \<Longrightarrow>
   holds_job (tell (db_update_depends_on (j_id job) x) h) rows (job\<lparr>j_depends_on := buf 2048 x\<rparr>)"
  unfolding db_update_depends_on_def
  by (erule holds_tell [where g = "\<lambda>j. j\<lparr>j_depends_on := buf 2048 x\<rparr>"]) (simp_all add: row_to_job_updates)

lemma holds_timeout:
  "holds_job h rows job \<Longrightarrow>
   holds_job (tell (db_update_job_timeout (j_id job) x) h) rows (job\<lparr>j_timeout_seconds := x\<rparr>)"
  unfolding db_update_job_timeout_def
  by (erule holds_tell [where g = "\<lambda>j. j\<lparr>j_timeout_seconds := x\<rparr>"]) (simp_all add: row_to_job_updates)

lemma holds_input_files:
  "holds_job h rows job \<Longrightarrow>
   holds_job (tell (db_update_input_files (j_id job) x) h) rows (job\<lparr>j_input_files := buf 2048 x\<rparr>)"
  unfolding db_update_input_files_def
  by (erule holds_tell [where g = "\<lambda>j. j\<lparr>j_input_files := buf 2048 x\<rparr>"]) (simp_all add: row_to_job_updates)

lemma holds_reason:
  "holds_job h rows job \<Longrightarrow>
   holds_job (tell (db_update_status_reason (j_id job) x) h) rows (job\<lparr>j_status_reason := buf 256 x\<rparr>)"
  unfolding db_update_status_reason_def
  by (erule holds_tell [where g = "\<lambda>j. j\<lparr>j_status_reason := buf 256 x\<rparr>"]) (simp_all add: row_to_job_updates)

lemma holds_status:
  "holds_job h rows job \<Longrightarrow>
   holds_job (tell (db_update_job_status (j_id job) st e en) h) rows (job\<lparr>j_status := st, j_exit_code := e, j_ended_at := en\<rparr>)"
  unfolding db_update_job_status_def
  by (erule holds_tell [where g = "\<lambda>j. j\<lparr>j_status := st, j_exit_code := e, j_ended_at := en\<rparr>"]) (simp_all add: row_to_job_updates)

lemma holds_disk [simp]: "holds_job (disk x h) rows job = holds_job h rows job"
  by (simp add: holds_job_def)

lemma holds_store_key:
  assumes "holds_job h rows job" "ask (db_store_submission_key now u k i) h = (r, h')"
  shows "r = 0" "holds_job h' rows job" "queue_of h' = queue_of h" "now_of h' = now_of h"
    "t_submission_keys (tabs h') = filter (\<lambda>s. \<not> (su_user_id s = u \<and> su_idempotency_key s = k)) (t_submission_keys (tabs h)) @
       [\<lparr> su_user_id = u, su_idempotency_key = k, su_job_id = i, su_created_at = now \<rparr>]"
proof -
  have w: "working h" using assms(1) by (auto simp: holds_job_def fresh_row_def)
  note run = assms(2) [unfolded ask_def db_store_submission_key_def]
  show "r = 0" "queue_of h' = queue_of h" "now_of h' = now_of h"
    "t_submission_keys (tabs h') = filter (\<lambda>s. \<not> (su_user_id s = u \<and> su_idempotency_key s = k)) (t_submission_keys (tabs h)) @
       [\<lparr> su_user_id = u, su_idempotency_key = k, su_job_id = i, su_created_at = now \<rparr>]"
    using run w by auto
  show "holds_job h' rows job" using run w assms(1) by (auto simp: holds_job_def fresh_row_def)
qed

text \<open>The last part of a submission; \<open>keys\<close> are the idempotency keys it leaves.\<close>

lemma submit_hold_working:
  assumes "holds_job h rows job" "new_fields (job\<lparr>j_depends_on := [], j_timeout_seconds := 0\<rparr>)"
    "submit_hold job deps files h = (reply, h')" "length files < 2048"
  shows "\<exists>job'. reply = Http_Json 201 (job_to_json job') \<and> holds_job h' rows job' \<and> queue_of h' = queue_of h \<and>
    j_status job' = JOB_STATUS_CREATED \<and> j_id job' = j_id job \<and> j_user_id job' = j_user_id job \<and>
    j_command job' = j_command job \<and> j_input_files job' = files \<and> j_depends_on job' = j_depends_on job \<and>
    t_submission_keys (tabs h') = t_submission_keys (tabs h)"
proof -
  define w where "w = held_reason deps files"
  define j1 where "j1 = job\<lparr>j_status := JOB_STATUS_CREATED\<rparr>"
  define j2 where "j2 = j1\<lparr>j_input_files := files\<rparr>"
  define h1 where "h1 = tell (db_update_job_status (j_id job) JOB_STATUS_CREATED 0 0) h"
  define h2 where "h2 = (if files \<noteq> [] then tell (db_update_input_files (j_id job) files) h1 else h1)"
  define h3 where "h3 = tell (db_update_status_reason (j_id job) w) h2"
  have n: "j_exit_code job = 0" "j_ended_at job = 0" "j_input_files job = []" using assms(2) by (simp_all add: new_fields_def)
  have b: "buf 256 w = w" "buf 2048 files = files" using assms(4) by (simp_all add: w_def held_reason_def buf_def)
  have "job\<lparr>j_status := JOB_STATUS_CREATED, j_exit_code := 0, j_ended_at := 0\<rparr> = j1"
    unfolding j1_def by (rule job.equality; simp add: n)
  then have 1: "holds_job h1 rows j1" using holds_status [OF assms(1), of JOB_STATUS_CREATED 0 0] by (simp add: h1_def)
  have id1: "j_id j1 = j_id job" "j_id j2 = j_id job" by (simp_all add: j2_def j1_def)
  have "files = [] \<Longrightarrow> j1 = j2" unfolding j2_def j1_def by (rule job.equality; simp add: n)
  then have 2: "holds_job h2 rows j2"
    using 1 holds_input_files [OF 1, of files] unfolding id1 b h2_def j2_def [symmetric] by (cases "files = []") auto
  have 3: "holds_job h3 rows (j2\<lparr>j_status_reason := w\<rparr>)" using holds_reason [OF 2, of w] unfolding id1 b by (simp add: h3_def)
  have "j2\<lparr>j_status_reason := w\<rparr> = job\<lparr>j_input_files := files, j_status := JOB_STATUS_CREATED, j_status_reason := w\<rparr>"
    unfolding j2_def j1_def by (rule job.equality; simp)
  then have "reply = Http_Json 201 (job_to_json (j2\<lparr>j_status_reason := w\<rparr>))" "h' = disk (Init_Dirs (j_id job)) h3"
    using assms(3) b unfolding submit_hold_def Let_def w_def [symmetric] h1_def [symmetric] h2_def [symmetric] h3_def [symmetric]
    by simp_all
  moreover have "t_submission_keys (tabs h3) = t_submission_keys (tabs h)" "queue_of h3 = queue_of h"
    using assms(1) by (simp_all add: holds_job_def fresh_row_def h3_def h2_def h1_def db_update_defs update_job_working)
  ultimately show ?thesis using 3 by (intro exI [of _ "j2\<lparr>j_status_reason := w\<rparr>"]) (simp add: j2_def j1_def)
qed

lemma submit_finish_working:
  assumes "holds_job h rows job" "new_fields job" "length deps < 2048" "length files < 2048"
    "submit_finish env u key job deps files timeout h = (reply, h')"
  shows "\<exists>job'. reply = Http_Json 201 (job_to_json job') \<and> holds_job h' rows job' \<and> j_id job' = j_id job \<and>
    j_user_id job' = j_user_id job \<and> j_command job' = j_command job \<and> j_input_files job' = files \<and> j_depends_on job' = deps \<and>
    (if files = [] \<and> deps = [] then j_status job' = JOB_STATUS_QUEUED \<and>
       queue_of h' = snd (queue_push (re_push_ok env 0) (queue_of h) (Some job'))
     else j_status job' = JOB_STATUS_CREATED \<and> queue_of h' = queue_of h) \<and>
    (\<forall>k. key = Some k \<longrightarrow> (\<exists>olds. t_submission_keys (tabs h') =
       filter (\<lambda>s. \<not> (su_user_id s = u \<and> su_idempotency_key s = k)) olds @
       [\<lparr> su_user_id = u, su_idempotency_key = k, su_job_id = j_id job, su_created_at = now_of h \<rparr>]))"
proof -
  define j1 where "j1 = (if deps \<noteq> [] then job\<lparr>j_depends_on := buf 2048 deps\<rparr> else job)"
  define h1 where "h1 = (if deps \<noteq> [] then tell (db_update_depends_on (j_id job) deps) h else h)"
  define j where "j = (if timeout > 0 then j1\<lparr>j_timeout_seconds := timeout\<rparr> else j1)"
  define h2 where "h2 = (if timeout > 0 then tell (db_update_job_timeout (j_id job) timeout) h1 else h1)"
  have d: "buf 2048 deps = deps" using assms(3) by (simp add: buf_def)
  have 1: "holds_job h1 rows j1" using assms(1) holds_depends by (simp add: h1_def j1_def)
  have "j_id j1 = j_id job" by (simp add: j1_def)
  then have 2: "holds_job h2 rows j" using 1 holds_timeout [OF 1, of timeout] by (simp add: h2_def j_def)
  have q2: "queue_of h2 = queue_of h" "now_of h2 = now_of h" by (simp_all add: h2_def h1_def)
  have j: "j_id j = j_id job" "j_user_id j = j_user_id job" "j_command j = j_command job" "j_depends_on j = deps"
    "j_input_files j = []" "j_status j = JOB_STATUS_QUEUED"
    using assms(2) d by (simp_all add: new_fields_def j_def j1_def)
  have nf: "new_fields (j\<lparr>j_depends_on := [], j_timeout_seconds := 0\<rparr>)"
    using assms(2) by (auto simp: new_fields_def Db.job_fits_def j_def j1_def)
  obtain stored h3 where 3: "(case key of None \<Rightarrow> (0, h2)
      | Some k \<Rightarrow> ask (db_store_submission_key (now_of h2) u k (j_id job)) h2) = (stored, h3)" by force
  have h3: "stored = 0" "holds_job h3 rows j" "queue_of h3 = queue_of h"
    using 3 2 q2 holds_store_key(1-3) [OF 2] by (cases key; simp)+
  have keys: "\<forall>k. key = Some k \<longrightarrow> (\<exists>olds. t_submission_keys (tabs h3) =
       filter (\<lambda>s. \<not> (su_user_id s = u \<and> su_idempotency_key s = k)) olds @
       [\<lparr> su_user_id = u, su_idempotency_key = k, su_job_id = j_id job, su_created_at = now_of h \<rparr>])"
    using 3 q2(2) holds_store_key(5) [OF 2] by (cases key) auto
  have run: "(reply, h') = (if files \<noteq> [] \<or> deps \<noteq> [] then submit_hold j deps files h3
      else (Http_Json 201 (job_to_json j), on_core (push_job (re_push_ok env 0) j) h3))"
    using assms(5) h3(1) 3 unfolding submit_finish_def Let_def j1_def [symmetric] h1_def [symmetric] j_def [symmetric] h2_def [symmetric]
    by simp
  show ?thesis
  proof (cases "files \<noteq> [] \<or> deps \<noteq> []")
    case True
    then have hold: "submit_hold j deps files h3 = (reply, h')" using run by simp
    from submit_hold_working [OF h3(2) nf hold assms(4)] obtain job' where job': "reply = Http_Json 201 (job_to_json job')"
      "holds_job h' rows job'" "queue_of h' = queue_of h3" "j_status job' = JOB_STATUS_CREATED" "j_id job' = j_id j"
      "j_user_id job' = j_user_id j" "j_command job' = j_command j" "j_input_files job' = files"
      "j_depends_on job' = j_depends_on j" "t_submission_keys (tabs h') = t_submission_keys (tabs h3)" by blast
    show ?thesis unfolding job'(10) using job'(1-9) j(1-4) True h3(3) keys by (intro exI [of _ job']) auto
  next
    case False
    then have "reply = Http_Json 201 (job_to_json j)" "h' = on_core (push_job (re_push_ok env 0) j) h3" using run by simp_all
    moreover have "holds_job (on_core (push_job (re_push_ok env 0) j) h3) rows j"
      using h3(2) by (simp add: holds_job_def fresh_row_def push_job_def)
    moreover have "queue_of (on_core (push_job (re_push_ok env 0) j) h3) = snd (queue_push (re_push_ok env 0) (queue_of h) (Some j))"
      "tabs (on_core (push_job (re_push_ok env 0) j) h3) = tabs h3"
      using h3(3) by (simp_all add: push_job_def)
    ultimately show ?thesis using False j keys by (intro exI [of _ j]) simp
  qed
qed

lemma resolve_length:
  "resolve_app_command af app_id params n = Some (Inr (cmd, env_json, res)) \<Longrightarrow> length cmd \<le> n - 1"
  by (auto simp: resolve_app_command_def resolve_app_command_legacy_def refuse_def buf_def Let_def
      split: if_splits sum.splits option.splits)

lemma submit_source_command:
  assumes "submit_source af cfg req = Some (Inr (cmd, env_json, res))"
  shows "length cmd < JOB_CMD_LEN" "cf_command_mode cfg = ''app_only'' \<Longrightarrow>
    \<exists>app_id env_json res. resolve_app_command af app_id (get_item req ''parameters'') JOB_CMD_LEN = Some (Inr (cmd, env_json, res))"
proof -
  have L: "length (buf JOB_CMD_LEN x) < JOB_CMD_LEN" for x by (rule length_buf_less) (simp add: JOB_CMD_LEN_def)
  have R: "length c < JOB_CMD_LEN" if "resolve_app_command af a p JOB_CMD_LEN = Some (Inr (c, e, r))" for a p c e r
    using resolve_length [OF that] by (simp add: JOB_CMD_LEN_def)
  show "length cmd < JOB_CMD_LEN"
    using assms by (auto simp: submit_source_def Let_def L dest: R split: if_splits option.splits sum.splits)
  show "\<exists>app_id env_json res. resolve_app_command af app_id (get_item req ''parameters'') JOB_CMD_LEN = Some (Inr (cmd, env_json, res))"
    if "cf_command_mode cfg = ''app_only''"
    using assms that by (auto simp: submit_source_def Let_def split: if_splits option.splits sum.splits)
qed

text \<open>What the answer 201 means, for a request whose body is \<open>req\<close>.\<close>

definition created ::
  "req_env \<Rightarrow> json \<Rightarrow> string \<Rightarrow> string \<Rightarrow> http_sys \<Rightarrow> job \<Rightarrow> http_sys \<Rightarrow> bool" where
  "created env req u role h job h' \<longleftrightarrow>
     holds_job h' (t_jobs (tabs h)) job \<and> length (j_id job) < JOB_ID_LEN \<and>
     (u \<noteq> [] \<longrightarrow> j_user_id job = buf JOB_USER_LEN u) \<and>
     (cf_command_mode (xe_config (re_exec env)) = ''app_only'' \<longrightarrow> (\<exists>app_id env_json res.
        resolve_app_command (re_files env) app_id (get_item req ''parameters'') JOB_CMD_LEN = Some (Inr (j_command job, env_json, res)))) \<and>
     (if j_input_files job = [] \<and> j_depends_on job = []
      then j_status job = JOB_STATUS_QUEUED \<and> queue_of h' = snd (queue_push (re_push_ok env 0) (queue_of h) (Some job))
      else j_status job = JOB_STATUS_CREATED \<and> queue_of h' = queue_of h) \<and>
     (\<forall>deps d. get_item req ''depends_on'' = Some (JArray deps) \<and> JString d \<in> set deps \<and> d \<noteq> [] \<and> \<not> is_admin role \<longrightarrow>
        (\<exists>row \<in> set (t_jobs (tabs h)). r_id row = d \<and> u \<noteq> [] \<and> buf JOB_USER_LEN (r_user_id row) = u))"

lemma submit_checked_working:
  assumes w: "working h" and src: "submit_source (re_files env) (xe_config (re_exec env)) req = Some (Inr (cmd, env_json, res))"
    and run: "submit_checked env u role key req cmd env_json res h = (reply, h')"
  shows "(\<exists>job. reply = Http_Json 201 (job_to_json job) \<and> created env req u role h job h' \<and>
      (\<forall>k. key = Some k \<longrightarrow> (\<exists>olds. t_submission_keys (tabs h') =
         filter (\<lambda>s. \<not> (su_user_id s = u \<and> su_idempotency_key s = k)) olds @
         [\<lparr> su_user_id = u, su_idempotency_key = k, su_job_id = j_id job, su_created_at = now_of h \<rparr>]))) \<or>
    (\<exists>code msg. reply = Http_Error code msg \<and> h' = h)"
proof (cases "input_file_list req")
  case (Inl e)
  then show ?thesis using run by (auto simp: submit_checked_def)
next
  case files: (Inr files)
  obtain r h1 where dep: "dependency_list u role req h = (r, h1)" by force
  have h1: "h1 = h" using dependency_list_working [OF w dep] by simp
  show ?thesis
  proof (cases r)
    case (Inl e)
    then show ?thesis using run files dep h1 by (auto simp: submit_checked_def)
  next
    case deps: (Inr deps)
    have len: "length deps < 2048" "length files < 2048"
      using dependency_list_working [OF w dep] deps input_file_list_length [OF files] by auto
    have own: "\<exists>row \<in> set (t_jobs (tabs h)). r_id row = d \<and> u \<noteq> [] \<and> buf JOB_USER_LEN (r_user_id row) = u"
      if "get_item req ''depends_on'' = Some (JArray ds)" "JString d \<in> set ds" "d \<noteq> []" "\<not> is_admin role" for ds d
      using join_deps_working [OF w] dep deps that by (fastforce simp: dependency_list_def)
    obtain jo h2 where cr: "submit_create env u req cmd res h = (jo, h2)" by force
    obtain e wd p c g m dk a s2 where core: "job_create_ex (fst (re_child env 0)) e wd cmd p c g m dk
        (Some (if u \<noteq> [] then u else item_text (get_item req ''user_id''))) a (hs_core h) = (jo, s2)" "h2 = h\<lparr>hs_core := s2\<rparr>"
      using cr by (auto simp: submit_create_def Let_def split: prod.splits)
    show ?thesis
    proof (cases jo)
      case None
      then show ?thesis using job_create_ex_working [OF w core(1)] core(2) run files dep deps cr h1
        by (auto simp: submit_checked_def)
    next
      case (Some job)
      note J = job_create_ex_working [OF w core(1), unfolded Some option.case]
      note J2 = J [THEN conjunct2, THEN conjunct1] and J3 = J [THEN conjunct2, THEN conjunct2]
      have nf: "new_fields job" using J new_job_fields by blast
      have nj: "j_user_id job = buf JOB_USER_LEN (if u \<noteq> [] then u else item_text (get_item req ''user_id''))"
        "j_command job = cmd"
        using J submit_source_command(1) [OF src] by (simp_all add: new_job_def col_text_def buf_def)
      let ?h3 = "store_env env job env_json h2"
      have fr: "fresh_row h2 (t_jobs (tabs h)) (insert_job_row job)"
        using J2 J3 core(2) w by (simp add: fresh_row_def insert_job_row_def)
      then have hold: "holds_job ?h3 (t_jobs (tabs h)) job"
        using read_back [OF nf] by (auto simp: holds_job_def insert_job_row_def)
      have q: "queue_of ?h3 = queue_of h" "now_of ?h3 = now_of h" using J3 core(2) by simp_all
      have fin: "submit_finish env u key job deps files (clamp_item (get_item req ''timeout_seconds'') 0 0 604800) ?h3 = (reply, h')"
        using run files dep deps cr h1 Some by (simp add: submit_checked_def)
      have len_id: "length (j_id job) < JOB_ID_LEN" using nf by (simp add: new_fields_def Db.job_fits_def)
      from submit_finish_working [OF hold nf len fin] obtain job' where
        job': "reply = Http_Json 201 (job_to_json job')" "holds_job h' (t_jobs (tabs h)) job'" "j_id job' = j_id job"
          "j_user_id job' = j_user_id job" "j_command job' = j_command job" "j_input_files job' = files" "j_depends_on job' = deps"
        and st: "if files = [] \<and> deps = [] then j_status job' = JOB_STATUS_QUEUED \<and>
             queue_of h' = snd (queue_push (re_push_ok env 0) (queue_of ?h3) (Some job'))
           else j_status job' = JOB_STATUS_CREATED \<and> queue_of h' = queue_of ?h3"
        and keys: "\<forall>k. key = Some k \<longrightarrow> (\<exists>olds. t_submission_keys (tabs h') =
           filter (\<lambda>s. \<not> (su_user_id s = u \<and> su_idempotency_key s = k)) olds @
           [\<lparr> su_user_id = u, su_idempotency_key = k, su_job_id = j_id job, su_created_at = now_of ?h3 \<rparr>])"
        by blast
      have "created env req u role h job' h'" unfolding created_def job'(3-7)
        using job'(2) len_id nj own st submit_source_command(2) [OF src] unfolding q by simp
      then show ?thesis using job'(1) keys unfolding q job'(3) [symmetric] by blast
    qed
  qed
qed

lemma submit_new_working:
  assumes "working h" "submit_new env rq u role key h = Some (reply, h')"
  shows "(\<exists>req job. af_parse (re_files env) (buf 4096 (rq_body rq)) = Some req \<and> hs_accepting_jobs h \<and>
      reply = Http_Json 201 (job_to_json job) \<and> created env req u role h job h' \<and>
      (\<forall>k. key = Some k \<longrightarrow> (\<exists>olds. t_submission_keys (tabs h') =
         filter (\<lambda>s. \<not> (su_user_id s = u \<and> su_idempotency_key s = k)) olds @
         [\<lparr> su_user_id = u, su_idempotency_key = k, su_job_id = j_id job, su_created_at = now_of h \<rparr>]))) \<or>
    (\<exists>code msg. reply = Http_Error code msg \<and> h' = h)"
proof -
  consider (error) code msg where "reply = Http_Error code msg" "h' = h"
    | (run) req cmd env_json res where "hs_accepting_jobs h" "af_parse (re_files env) (buf 4096 (rq_body rq)) = Some req"
        "submit_source (re_files env) (xe_config (re_exec env)) req = Some (Inr (cmd, env_json, res))"
        "submit_checked env u role key req cmd env_json res h = (reply, h')"
    using assms(2) by (auto simp: submit_new_def split: if_splits option.splits sum.splits)
  then show ?thesis
  proof cases
    case error
    then show ?thesis by (intro disjI2 exI conjI)
  next
    case run
    from submit_checked_working [OF assms(1) run(3,4)] show ?thesis using run(1,2) by blast
  qed
qed

lemma created_row:
  assumes "created env req u role h job h'"
  obtains row where "working h'" "t_jobs (tabs h') = t_jobs (tabs h) @ [row]" "r_id row = j_id job"
    "j_id job \<notin> r_id ` set (t_jobs (tabs h))" "row_to_job True row = job" "buf JOB_ID_LEN (j_id job) = j_id job"
proof -
  have "holds_job h' (t_jobs (tabs h)) job" "length (j_id job) < JOB_ID_LEN" using assms unfolding created_def by blast+
  moreover from this(2) have "buf JOB_ID_LEN (j_id job) = j_id job" by (simp add: buf_def)
  ultimately show ?thesis using that unfolding holds_job_def fresh_row_def by metis
qed

lemma find_last: "\<forall>x \<in> set xs. \<not> P x \<Longrightarrow> P y \<Longrightarrow> find P (xs @ [y]) = Some y"
  by (induction xs) auto

lemma ask_submission:
  "working h \<Longrightarrow> ask (db_get_submission_job u k JOB_ID_LEN) h =
     (Some (map_option (\<lambda>s. buf JOB_ID_LEN (su_job_id s))
        (find (\<lambda>s. su_user_id s = u \<and> su_idempotency_key s = k \<and> su_job_id s \<in> r_id ` set (t_jobs (tabs h)))
           (t_submission_keys (tabs h)))), h)"
  by (rule ask_read) (simp_all add: db_get_submission_job_def JOB_ID_LEN_def)

lemma submit_job_working:
  assumes "working h" "submit_job env rq u role h = Some (reply, h')"
  obtains (created) req job where "af_parse (re_files env) (buf 4096 (rq_body rq)) = Some req" "hs_accepting_jobs h"
      "reply = Http_Json 201 (job_to_json job)" "created env req u role h job h'"
      "\<And>k. rq_header rq ''Idempotency-Key'' = Some k \<Longrightarrow> k \<noteq> [] \<Longrightarrow>
         extract_idempotency_key (Some k) 129 = (1, k) \<and> u \<noteq> [] \<and> (\<exists>olds. t_submission_keys (tabs h') =
         filter (\<lambda>s. \<not> (su_user_id s = u \<and> su_idempotency_key s = k)) olds @
         [\<lparr> su_user_id = u, su_idempotency_key = k, su_job_id = j_id job, su_created_at = now_of h \<rparr>])"
  | (known) job where "reply = Http_Json 200 (job_to_json job)" "h' = h"
  | (error) code msg where "reply = Http_Error code msg" "h' = h"
proof -
  obtain p key where pk: "extract_idempotency_key (rq_header rq ''Idempotency-Key'') 129 = (p, key)" by force
  have key: "rq_header rq ''Idempotency-Key'' = Some k \<Longrightarrow> k \<noteq> [] \<Longrightarrow> p \<ge> 0 \<Longrightarrow> p = 1 \<and> key = k" for k
    using pk by (auto simp: extract_idempotency_key_def split: if_splits)
  consider (bad) "p < 0 \<or> p \<noteq> 0 \<and> u = []" | (absent) "p = 0" | (present) "p > 0" "u \<noteq> []" by linarith
  then show thesis
  proof cases
    case bad
    then show ?thesis using assms(2) pk error by (auto simp: submit_job_def)
  next
    case absent
    then have "submit_new env rq u role None h = Some (reply, h')" using assms(2) pk by (simp add: submit_job_def)
    from submit_new_working [OF assms(1) this] show ?thesis using created error absent key by fastforce
  next
    case present
    show ?thesis
    proof (cases "find (\<lambda>s. su_user_id s = u \<and> su_idempotency_key s = key \<and> su_job_id s \<in> r_id ` set (t_jobs (tabs h)))
        (t_submission_keys (tabs h))")
      case None
      then have new: "submit_new env rq u role (Some key) h = Some (reply, h')"
        using assms(2) pk present by (auto simp: submit_job_def ask_submission [OF assms(1)])
      from submit_new_working [OF assms(1) this] show ?thesis
      proof (elim disjE exE conjE)
        fix req job
        assume J: "af_parse (re_files env) (buf 4096 (rq_body rq)) = Some req" "hs_accepting_jobs h"
          "reply = Http_Json 201 (job_to_json job)" "created env req u role h job h'"
          "\<forall>k. Some key = Some k \<longrightarrow> (\<exists>olds. t_submission_keys (tabs h') =
             filter (\<lambda>s. \<not> (su_user_id s = u \<and> su_idempotency_key s = k)) olds @
             [\<lparr> su_user_id = u, su_idempotency_key = k, su_job_id = j_id job, su_created_at = now_of h \<rparr>])"
        show thesis using created [OF J(1-4)] J(5) key pk present by force
      next
        fix code msg assume "reply = Http_Error code msg" "h' = h"
        then show thesis by (rule error)
      qed
    next
      case (Some s)
      then show ?thesis using assms(2) pk present known error
        by (auto simp: submit_job_def ask_submission [OF assms(1)] ask_get_job [OF assms(1)] split: option.splits if_splits)
    qed
  qed
qed

lemma submit_job_returns: "submit_job env rq u role h \<noteq> None"
proof -
  have r: "(resolve_app_command af a p n = None) = False" for af a p n using resolve_app_command_returns by simp
  have s: "(submit_source af cfg req = None) = False" for af cfg req
    by (simp add: submit_source_def Let_def r split: option.split sum.split)
  have n: "(submit_new env rq u role key h = None) = False" for key h
    by (simp add: submit_new_def s split: option.split sum.split prod.split)
  show ?thesis by (simp add: submit_job_def Let_def n del: not_None_eq split: prod.split option.split)
qed

section \<open>Claims\<close>


text \<open>
  C19: a key makes a submission idempotent. When a request with an Idempotency-Key was accepted, a later
  one of the same user with the same key, whatever else it says, gets the very same job with the answer
  200 and changes nothing.
\<close>

theorem submit_job_idempotent:
  assumes "db_plan (sy_db (hs_core h)) = []" "submit_job env rq user role h = Some (Http_Json 201 body, h1)"
    "rq_header rq ''Idempotency-Key'' = Some key" "key \<noteq> []"
    "rq_header rq2 ''Idempotency-Key'' = Some key" "re_print_ok env2"
  shows "submit_job env2 rq2 user role2 h1 = Some (Http_Json 200 body, h1)"
  using assms(1,2)
proof (cases rule: submit_job_working)
  case (created req job)
  note k = created(5) [OF assms(3,4)]
  from created_row [OF created(4)] obtain row where row: "working h1" "t_jobs (tabs h1) = t_jobs (tabs h) @ [row]" "r_id row = j_id job"
    "j_id job \<notin> r_id ` set (t_jobs (tabs h))" "row_to_job True row = job" "buf JOB_ID_LEN (j_id job) = j_id job" by metis
  have "find (\<lambda>s. su_user_id s = user \<and> su_idempotency_key s = key \<and> su_job_id s \<in> r_id ` set (t_jobs (tabs h1)))
      (t_submission_keys (tabs h1)) = Some \<lparr> su_user_id = user, su_idempotency_key = key, su_job_id = j_id job, su_created_at = now_of h \<rparr>"
    using k row(2,3) by (auto intro!: find_last)
  moreover have "find (\<lambda>r. r_id r = j_id job) (t_jobs (tabs h1)) = Some row"
    using row(2-4) by (auto simp: image_iff intro!: find_last)
  ultimately show ?thesis using k assms(5,6) row created(3)
    by (simp add: submit_job_def ask_submission [OF row(1)] ask_get_job [OF row(1)])
qed auto

text \<open>A request, its environment and a state to apply the claims to.\<close>

definition demo_body :: json where
  "demo_body = JObject [(''command'', JString ''run''), (''priority'', jnum 7), (''req_cores'', jnum 2)]"

definition demo_http_env :: req_env where
  "demo_http_env = \<lparr> re_exec = demo_env\<lparr>xe_config := config_defaults\<lparr>cf_command_mode := ''free''\<rparr>\<rparr>,
     re_files = demo_files\<lparr>af_parse := (\<lambda>_. Some demo_body)\<rparr>, re_alloc_ok = True, re_calloc_ok = True, re_child = (\<lambda>_. (True, No_Urandom 1 2)),
     re_push_ok = (\<lambda>_. True), re_fopen_ok = True, re_random = None, re_salt = (\<lambda>_. None), re_present = (\<lambda>_. True), re_print_ok = True,
     re_write_ok = (\<lambda>_. True), re_wf_raw = replicate 16 9, re_to_int = (\<lambda>_. 0) \<rparr>"

definition demo_request :: request where
  "demo_request = \<lparr> rq_method = ''POST'', rq_uri = ''/jobs'', rq_header = (\<lambda>n. if n = ''Idempotency-Key'' then Some ''k1'' else None),
     rq_var = (\<lambda>_ _. (-4, [])), rq_body = ''{}'', rq_peer = 0x0A000001 \<rparr>"

definition demo_http :: http_sys where
  "demo_http = \<lparr> hs_core = demo_sched, hs_accepting_jobs = True, hs_login_rl = [] \<rparr>"

definition is_created :: "reply \<Rightarrow> bool" where
  "is_created r = (case r of Http_Json c _ \<Rightarrow> c = 201 | _ \<Rightarrow> False)"

lemma demo_submit: "map_option (is_created \<circ> fst) (submit_job demo_http_env demo_request ''ann'' ''user'' demo_http) = Some True"
  by code_simp

lemma demo_http_working: "db_plan (sy_db (hs_core demo_http)) = []"
  by (simp add: demo_http_def demo_sched_def exec_sys.defs demo_exec_def life_sys.defs demo_life_def)


theorem submit_job_idempotent_witness:
  "\<exists>body h1. submit_job demo_http_env demo_request ''ann'' ''user'' demo_http = Some (Http_Json 201 body, h1) \<and>
     submit_job demo_http_env (demo_request\<lparr>rq_body := ''other''\<rparr>) ''ann'' ''admin'' h1 = Some (Http_Json 200 body, h1)"
proof -
  obtain r h1 where run: "submit_job demo_http_env demo_request ''ann'' ''user'' demo_http = Some (r, h1)" "is_created r"
    using demo_submit by (cases "submit_job demo_http_env demo_request ''ann'' ''user'' demo_http") auto
  obtain body where b: "r = Http_Json 201 body"
    using demo_http_working run(1)
  proof (cases rule: submit_job_working)
    case (created req job)
    then show ?thesis using that by blast
  next
    case (known job)
    then show ?thesis using run(2) by (simp add: is_created_def)
  next
    case (error code msg)
    then show ?thesis using run(2) by (simp add: is_created_def)
  qed
  have "submit_job demo_http_env (demo_request\<lparr>rq_body := ''other''\<rparr>) ''ann'' ''admin'' h1 = Some (Http_Json 200 body, h1)"
    by (rule submit_job_idempotent [OF demo_http_working run(1) [unfolded b]])
      (simp_all add: demo_request_def demo_http_env_def)
  then show ?thesis using run(1) b by blast
qed

text \<open>
  C15: an upload releases a job too early. A held job waits for its files and for its dependencies; when
  the last file arrives, the job is QUEUED and pushed although a job it depends on still runs.
\<close>

definition demo_waiting :: http_sys where
  "demo_waiting = demo_http\<lparr>hs_core := demo_sched\<lparr>sy_db := opened_db (empty_tables\<lparr>t_jobs :=
     [insert_job_row (job_zero\<lparr>j_id := ''parent'', j_status := JOB_STATUS_RUNNING\<rparr>),
      insert_job_row (job_zero\<lparr>j_id := ''child'', j_status := JOB_STATUS_CREATED, j_depends_on := ''parent'',
        j_input_files := ''mesh.in''\<rparr>)]\<rparr>)\<rparr>\<rparr>"

theorem upload_ignores_dependencies:
  "fst (db_check_deps_status ''parent'' (sy_db (hs_core demo_waiting))) = 1 \<and>
   db_status (sy_db (hs_core (check_and_auto_release demo_http_env ''child'' demo_waiting))) ''child'' = Some JOB_STATUS_QUEUED \<and>
   map_option (map j_id \<circ> q_heap) (queue_of (check_and_auto_release demo_http_env ''child'' demo_waiting)) = Some [''child'']"
  by (intro conjI; code_simp)

end
