(* ===== verification/Batches.thy ===== *)
theory Batches
  imports Submission
begin

text \<open>
  \<open>src/http/batches.c\<close>: many jobs submitted in one transaction, and the progress of such a batch.
\<close>

section \<open>Model\<close>

definition MAX_BATCH_JOBS :: nat where "MAX_BATCH_JOBS = 1000"
definition MAX_BATCH_BODY :: int where "MAX_BATCH_BODY = 16 * 1024 * 1024"

definition bounded_int :: "json option \<Rightarrow> int \<Rightarrow> int \<Rightarrow> int \<Rightarrow> int" where
  "bounded_int v default_value min_value max_value =
     (case v of
        Some (JNumber (Finite x)) \<Rightarrow>
          if x < of_int min_value then min_value else if x > of_int max_value then max_value else c_trunc x
      | Some (JNumber (Infinite positive)) \<Rightarrow> if positive then max_value else min_value
      | _ \<Rightarrow> default_value)"

text \<open>\<open>None\<close>: the random source gave no 16 bytes.\<close>

definition generate_batch_id :: "8 word list option \<Rightarrow> nat \<Rightarrow> string option" where
  "generate_batch_id raw out_len =
     (case raw of
        Some b \<Rightarrow> if length b = 16 then Some (buf out_len (concat (map hex2 b))) else None
      | None \<Rightarrow> None)"

definition batch_to_json :: "batch_row \<Rightarrow> job_stats \<Rightarrow> json" where
  "batch_to_json b st =
     (let completed = st_succeeded st + st_failed st + st_cancelled st in JObject
        [(''id'', JString (ba_id b)), (''name'', JString (ba_name b)), (''user_id'', JString (ba_user_id b)),
         (''created_at'', jnum (ba_created_at b)), (''total'', jnum (st_total st)), (''created'', jnum (st_created st)),
         (''queued'', jnum (st_queued st)), (''running'', jnum (st_running st)), (''succeeded'', jnum (st_succeeded st)),
         (''failed'', jnum (st_failed st)), (''cancelled'', jnum (st_cancelled st)), (''completed'', jnum completed),
         (''progress'', JNumber (Finite (if st_total st > 0 then of_int completed / of_int (st_total st) else 0)))])"

definition valid_batch_job :: "json \<Rightarrow> bool" where
  "valid_batch_job def =
     (case def of
        JObject _ \<Rightarrow>
          (case get_item def ''command'' of
             Some (JString cmd) \<Rightarrow> cmd \<noteq> [] \<and> length cmd < JOB_CMD_LEN
           | _ \<Rightarrow> False)
      | _ \<Rightarrow> False)"

text \<open>One round of the loop inside the transaction; \<open>None\<close> is the jump to \<open>transaction_failed\<close>.\<close>

definition batch_job :: "req_env \<Rightarrow> batch_row \<Rightarrow> nat \<Rightarrow> json \<Rightarrow> http_sys \<Rightarrow> job option \<times> http_sys" where
  "batch_job env b i def h =
     (let (jo, core) = job_create_ex (fst (re_child env i)) (snd (re_child env i)) (cf_work_dir (xe_config (re_exec env)))
            (item_text (get_item def ''command'')) (bounded_int (get_item def ''priority'') 50 0 100)
            (bounded_int (get_item def ''req_cores'') 1 1 10000) (bounded_int (get_item def ''req_gpu'') 0 0 1000)
            (bounded_int (get_item def ''req_ram_mb'') 0 0 10000000) (bounded_int (get_item def ''req_disk_mb'') 0 0 10000000)
            (Some (ba_user_id b)) (Some (item_text (get_item def ''app_id''))) (hs_core h);
          h1 = h\<lparr>hs_core := core\<rparr> in
      case jo of
        None \<Rightarrow> (None, h1)
      | Some job0 \<Rightarrow>
          let timeout = bounded_int (get_item def ''timeout_seconds'') 0 0 604800;
              job = job0\<lparr>j_batch_id := buf 64 (ba_id b), j_timeout_seconds := timeout\<rparr>;
              (r1, h2) = ask (db_update_job_batch_id (j_id job) (ba_id b)) h1 in
          if r1 \<noteq> 0 then (None, h2)
          else if timeout > 0 then
            (let (r2, h3) = ask (db_update_job_timeout (j_id job) timeout) h2
             in (if r2 \<noteq> 0 then None else Some job, h3))
          else (Some job, h2))"

fun batch_jobs :: "req_env \<Rightarrow> batch_row \<Rightarrow> nat \<Rightarrow> json list \<Rightarrow> http_sys \<Rightarrow> job list option \<times> http_sys" where
  "batch_jobs env b i [] h = (Some [], h)"
| "batch_jobs env b i (def # defs) h =
     (case batch_job env b i def h of
        (None, h1) \<Rightarrow> (None, h1)
      | (Some job, h1) \<Rightarrow>
          (case batch_jobs env b (Suc i) defs h1 of
             (None, h2) \<Rightarrow> (None, h2)
           | (Some jobs, h2) \<Rightarrow> (Some (job # jobs), h2)))"

text \<open>The transaction: all the rows, or the way out with a rollback.\<close>

definition batch_transaction :: "req_env \<Rightarrow> batch_row \<Rightarrow> json list \<Rightarrow> http_sys \<Rightarrow> job list option \<times> http_sys" where
  "batch_transaction env b defs h =
     (let (r, h1) = ask db_begin h in
      if r \<noteq> 0 then (None, tell db_rollback h1)
      else let (r, h2) = ask (db_insert_batch b) h1 in
           if r \<noteq> 0 then (None, tell db_rollback h2)
           else case batch_jobs env b 0 defs h2 of
             (None, h3) \<Rightarrow> (None, tell db_rollback h3)
           | (Some jobs, h3) \<Rightarrow>
               let (r, h4) = ask db_commit h3 in
               if r \<noteq> 0 then (None, tell db_rollback h4) else (Some jobs, h4))"

fun batch_push :: "req_env \<Rightarrow> nat \<Rightarrow> job list \<Rightarrow> http_sys \<Rightarrow> http_sys" where
  "batch_push env i [] h = h"
| "batch_push env i (job # jobs) h =
     batch_push env (Suc i) jobs (on_core (push_job (re_push_ok env i) job) (disk (Init_Dirs (j_id job)) h))"

definition batch_stats :: "string \<Rightarrow> http_sys \<Rightarrow> job_stats option \<times> http_sys" where
  "batch_stats batch_id = ask (db_get_batch_stats batch_id)"

text \<open>From the transaction to the answer.\<close>

definition batch_run :: "req_env \<Rightarrow> batch_row \<Rightarrow> json list \<Rightarrow> http_sys \<Rightarrow> reply \<times> http_sys" where
  "batch_run env b defs h =
     (case batch_transaction env b defs h of
        (None, h1) \<Rightarrow> (Http_Error 500 ''Batch submission failed; no jobs were committed'', h1)
      | (Some jobs, h1) \<Rightarrow>
          let (st, h2) = batch_stats (ba_id b) (batch_push env 0 jobs h1)
          in (Http_Json 201 (batch_to_json b (case st of None \<Rightarrow> stats_zero | Some x \<Rightarrow> x)), h2))"

definition batches_submit :: "req_env \<Rightarrow> request \<Rightarrow> string \<Rightarrow> http_sys \<Rightarrow> reply \<times> http_sys" where
  "batches_submit env rq auth_user h =
     (if rq_body rq = [] \<or> int (length (rq_body rq)) > MAX_BATCH_BODY then
        (Http_Error 413 ''Batch body must be between 1 byte and 16 MB'', h)
      else if \<not> re_alloc_ok env then (Http_Error 500 ''Out of memory'', h)
      else case af_parse (re_files env) (rq_body rq) of
        None \<Rightarrow> (Http_Error 400 ''Invalid JSON'', h)
      | Some req \<Rightarrow>
          let defs = array_members (get_item req ''jobs'') in
          if length defs < 1 \<or> length defs > MAX_BATCH_JOBS then
            (Http_Error 400 (sq ''jobs'' @ '' must contain between 1 and 1000 jobs''), h)
          else if \<not> list_all valid_batch_job defs then
            (Http_Error 400 ''Every batch job requires a command shorter than 512 bytes'', h)
          else case generate_batch_id (re_random env) 64 of
            None \<Rightarrow> (Http_Error 500 ''Failed to generate batch id'', h)
          | Some bid \<Rightarrow>
              let b = \<lparr> ba_id = bid, ba_name = buf 256 (item_text (get_item req ''name'')),
                        ba_user_id = buf 128 auth_user, ba_created_at = now_of h \<rparr> in
              if \<not> re_calloc_ok env then (Http_Error 500 ''Out of memory'', h) else batch_run env b defs h)"

definition batches_get :: "string \<Rightarrow> string \<Rightarrow> string \<Rightarrow> http_sys \<Rightarrow> reply \<times> http_sys" where
  "batches_get batch_id auth_user auth_role h =
     (case ask (db_get_batch batch_id) h of
        (None, h1) \<Rightarrow> (Http_Error 404 ''Batch not found'', h1)
      | (Some b, h1) \<Rightarrow>
          if \<not> is_admin auth_role \<and> ba_user_id b \<noteq> auth_user then (Http_Error 404 ''Batch not found'', h1)
          else case batch_stats batch_id h1 of
            (None, h2) \<Rightarrow> (Http_Error 500 ''Failed to read batch stats'', h2)
          | (Some st, h2) \<Rightarrow> (Http_Json 200 (batch_to_json b st), h2))"

section \<open>Laws\<close>

text \<open>The row of a job of the batch, and its definition in the request.\<close>

definition batch_row_ok :: "batch_row \<Rightarrow> json \<Rightarrow> job_row \<Rightarrow> bool" where
  "batch_row_ok b def row \<longleftrightarrow> r_batch_id row = ba_id b \<and> r_status row = JOB_STATUS_QUEUED \<and>
     r_user_id row = buf JOB_USER_LEN (ba_user_id b) \<and> get_item def ''command'' = Some (JString (r_command row))"

lemma update_job_last:
  assumes "update_job i f d = (0, d')" "t_jobs (db_tables d) = rows @ [row]" "i = r_id row" "r_id row \<notin> r_id ` set rows"
  shows "db_tables d' = (db_tables d)\<lparr>t_jobs := rows @ [f row]\<rparr>"
  using sql_run_0D [OF assms(1) [unfolded update_job_def]] assms(2-4) update_last_row [OF assms(4), of f]
  by (auto simp: update_jobs_def split: prod.splits)

text \<open>A round of the loop leaves everything but the database alone, and adds one row.\<close>

lemma batch_job_step:
  assumes "batch_job env b i def h = (jo, h1)" "in_txn t (sy_db (hs_core h))" "valid_batch_job def"
  shows "in_txn t (sy_db (hs_core h1)) \<and> (\<exists>d. h1 = on_core (\<lambda>s. s\<lparr>sy_db := d\<rparr>) h) \<and>
    (\<forall>job. jo = Some job \<longrightarrow> (\<exists>row. tabs h1 = (tabs h)\<lparr>t_jobs := t_jobs (tabs h) @ [row]\<rparr> \<and> r_id row = j_id job \<and>
       r_id row \<notin> r_id ` set (t_jobs (tabs h)) \<and> batch_row_ok b def row))"
proof -
  obtain cmd where cmd: "get_item def ''command'' = Some (JString cmd)" "length cmd < JOB_CMD_LEN"
    using assms(3) by (cases def) (auto simp: valid_batch_job_def split: option.split_asm json.split_asm)
  define j where "j = new_job (cf_work_dir (xe_config (re_exec env))) (job_new_id (snd (re_child env i))) cmd
     (bounded_int (get_item def ''priority'') 50 0 100)
     (bounded_int (get_item def ''req_cores'') 1 1 10000) (bounded_int (get_item def ''req_gpu'') 0 0 1000)
     (bounded_int (get_item def ''req_ram_mb'') 0 0 10000000) (bounded_int (get_item def ''req_disk_mb'') 0 0 10000000)
     (Some (ba_user_id b)) (Some (item_text (get_item def ''app_id''))) (now_of h)"
  define timeout where "timeout = bounded_int (get_item def ''timeout_seconds'') 0 0 604800"
  have j: "j_command j = cmd" "j_status j = JOB_STATUS_QUEUED" "j_user_id j = buf JOB_USER_LEN (ba_user_id b)"
    using cmd(2) by (simp_all add: j_def new_job_def col_text_def buf_def)
  have item: "item_text (get_item def ''command'') = cmd" using cmd by (simp add: item_text_def)
  let ?d = "sy_db (hs_core h)"
  obtain r0 d0 where 0: "db_insert_job j ?d = (r0, d0)" by force
  obtain r1 d1 where 1: "db_update_job_batch_id (j_id j) (ba_id b) d0 = (r1, d1)" by force
  obtain r2 d2 where 2: "db_update_job_timeout (j_id j) timeout d1 = (r2, d2)" by force
  have run: "(jo, h1) = (if \<not> fst (re_child env i) then (None, h)
     else if r0 \<noteq> 0 then (None, on_core (\<lambda>s. s\<lparr>sy_db := d0\<rparr>) h)
     else if r1 \<noteq> 0 then (None, on_core (\<lambda>s. s\<lparr>sy_db := d1\<rparr>) h)
     else if timeout > 0 then
       (if r2 \<noteq> 0 then None else Some (j\<lparr>j_batch_id := buf 64 (ba_id b), j_timeout_seconds := timeout\<rparr>), on_core (\<lambda>s. s\<lparr>sy_db := d2\<rparr>) h)
     else (Some (j\<lparr>j_batch_id := buf 64 (ba_id b), j_timeout_seconds := timeout\<rparr>), on_core (\<lambda>s. s\<lparr>sy_db := d1\<rparr>) h))"
    using assms(1) 0 1 2 unfolding batch_job_def job_create_ex_def item timeout_def [symmetric] Let_def j_def [symmetric] ask_def
    by (auto split: if_splits)
  have t0: "in_txn t d0" using in_txn_run [OF assms(2) 0 [unfolded db_insert_job_def]] .
  have t1: "in_txn t d1" using in_txn_run [OF t0 1 [unfolded db_update_job_batch_id_def update_job_def]] .
  have t2: "in_txn t d2" using in_txn_run [OF t1 2 [unfolded db_update_job_timeout_def update_job_def]] .
  define added where "added d \<longleftrightarrow> (\<exists>row. db_tables d = (tabs h)\<lparr>t_jobs := t_jobs (tabs h) @ [row]\<rparr> \<and> r_id row = j_id j \<and>
       r_id row \<notin> r_id ` set (t_jobs (tabs h)) \<and> batch_row_ok b def row)" for d :: db
  have rows: "added d1"
    if z: "r0 = 0" "r1 = 0"
  proof -
    note I = db_insert_job_0 [OF 0 [unfolded z(1)]]
    let ?r = "insert_job_row j"
    have rid: "r_id ?r = j_id j" by (simp add: insert_job_row_def)
    have f: "j_id j \<notin> r_id ` set (t_jobs (tabs h))" using I(1) by (simp add: job_row_of_None)
    have "db_tables d1 = (db_tables d0)\<lparr>t_jobs := t_jobs (tabs h) @ [?r\<lparr>r_batch_id := ba_id b\<rparr>]\<rparr>"
    proof (rule update_job_last [OF 1 [unfolded z(2) db_update_job_batch_id_def]])
      show "t_jobs (db_tables d0) = t_jobs (tabs h) @ [?r]" using I(2) by simp
    qed (use f rid in simp_all)
    then show ?thesis using I(2) f j cmd unfolding added_def
      by (intro exI [of _ "?r\<lparr>r_batch_id := ba_id b\<rparr>"]) (simp add: batch_row_ok_def insert_job_row_def)
  qed
  have rows2: "added d2"
    if z: "r0 = 0" "r1 = 0" "r2 = 0"
  proof -
    from rows [OF z(1,2), unfolded added_def] obtain row where row: "db_tables d1 = (tabs h)\<lparr>t_jobs := t_jobs (tabs h) @ [row]\<rparr>" "r_id row = j_id j"
       "r_id row \<notin> r_id ` set (t_jobs (tabs h))" "batch_row_ok b def row" by blast
    have "db_tables d2 = (db_tables d1)\<lparr>t_jobs := t_jobs (tabs h) @ [row\<lparr>r_timeout_seconds := timeout\<rparr>]\<rparr>"
      using update_job_last [OF 2 [unfolded z(3) db_update_job_timeout_def], of "t_jobs (tabs h)" row] row by simp
    then show ?thesis using row unfolding added_def by (intro exI [of _ "row\<lparr>r_timeout_seconds := timeout\<rparr>"]) (simp add: batch_row_ok_def)
  qed
  define at_db where "at_db d = on_core (\<lambda>s. s\<lparr>sy_db := d\<rparr>) h" for d
  have at: "sy_db (hs_core (at_db e)) = e" for e by (simp add: at_db_def)
  have h: "at_db ?d = h" by (simp add: at_db_def)
  define new_id where "new_id = j_id j"
  have "in_txn t (sy_db (hs_core h1)) \<and> (\<exists>d. h1 = at_db d) \<and> (\<forall>job. jo = Some job \<longrightarrow> added (sy_db (hs_core h1)) \<and> j_id job = new_id)"
    using run [folded at_db_def] rows rows2 t0 t1 t2 assms(2) at h [symmetric] by (auto simp: new_id_def split: if_splits)
  then show ?thesis unfolding at_db_def added_def new_id_def by metis
qed

lemma batch_jobs_steps:
  assumes "batch_jobs env b i defs h = (r, h1)" "in_txn t (sy_db (hs_core h))" "list_all valid_batch_job defs"
  shows "in_txn t (sy_db (hs_core h1)) \<and> (\<exists>d. h1 = on_core (\<lambda>s. s\<lparr>sy_db := d\<rparr>) h) \<and>
    (\<forall>jobs. r = Some jobs \<longrightarrow> (\<exists>rows. tabs h1 = (tabs h)\<lparr>t_jobs := t_jobs (tabs h) @ rows\<rparr> \<and> map r_id rows = map j_id jobs \<and>
       distinct (map r_id rows) \<and> r_id ` set rows \<inter> r_id ` set (t_jobs (tabs h)) = {} \<and> list_all2 (batch_row_ok b) defs rows))"
  using assms
proof (induction defs arbitrary: i h r h1)
  case Nil
  then show ?case by (auto intro: exI [of _ "sy_db (hs_core h)"])
next
  case (Cons def defs)
  obtain jo h2 where 1: "batch_job env b i def h = (jo, h2)" by force
  have v: "valid_batch_job def" "list_all valid_batch_job defs" using Cons.prems(3) by simp_all
  note S = batch_job_step [OF 1 Cons.prems(2) v(1)]
  obtain d where d: "h2 = on_core (\<lambda>s. s\<lparr>sy_db := d\<rparr>) h" using S by blast
  show ?case
  proof (cases jo)
    case None
    then show ?thesis using S 1 Cons.prems(1) by auto
  next
    case (Some job)
    obtain r2 h3 where 2: "batch_jobs env b (Suc i) defs h2 = (r2, h3)" by force
    have t2: "in_txn t (sy_db (hs_core h2))" using S by blast
    note I = Cons.IH [OF 2 t2 v(2)]
    have out: "h1 = h3" "r = map_option ((#) job) r2" using 1 2 Some Cons.prems(1) by (auto split: option.splits)
    obtain d' where d': "h3 = on_core (\<lambda>s. s\<lparr>sy_db := d'\<rparr>) h2" using I by blast
    have fr: "\<exists>d. h1 = on_core (\<lambda>s. s\<lparr>sy_db := d\<rparr>) h" using d d' out by (intro exI [of _ d']) simp
    from S Some obtain row where row: "tabs h2 = (tabs h)\<lparr>t_jobs := t_jobs (tabs h) @ [row]\<rparr>" "r_id row = j_id job"
      "r_id row \<notin> r_id ` set (t_jobs (tabs h))" "batch_row_ok b def row" by blast
    have "\<exists>rows. tabs h1 = (tabs h)\<lparr>t_jobs := t_jobs (tabs h) @ rows\<rparr> \<and> map r_id rows = map j_id jobs \<and>
       distinct (map r_id rows) \<and> r_id ` set rows \<inter> r_id ` set (t_jobs (tabs h)) = {} \<and> list_all2 (batch_row_ok b) (def # defs) rows"
      if rj: "r = Some jobs" for jobs
    proof -
      obtain js where js: "r2 = Some js" "jobs = job # js" using rj out(2) by (cases r2) auto
      obtain rows where R: "tabs h3 = (tabs h2)\<lparr>t_jobs := t_jobs (tabs h2) @ rows\<rparr>" "map r_id rows = map j_id js"
        "distinct (map r_id rows)" "r_id ` set rows \<inter> r_id ` set (t_jobs (tabs h2)) = {}" "list_all2 (batch_row_ok b) defs rows"
        using I js(1) by blast
      have "r_id ` set rows = j_id ` set js" using R(2) by (metis list.set_map)
      then show ?thesis using R row js(2) out(1) by (intro exI [of _ "row # rows"]) (auto simp: row(1))
    qed
    then show ?thesis using fr I out(1) by blast
  qed
qed

lemma batch_push_frame:
  "sy_db (hs_core (batch_push env i jobs h)) = sy_db (hs_core h)"
  by (induction jobs arbitrary: i h) (simp_all add: push_job_def)

text \<open>The jobs pushed one after the other; \<open>ok i\<close>: the queue can grow for the \<open>i\<close>-th.\<close>

fun push_all :: "(nat \<Rightarrow> bool) \<Rightarrow> nat \<Rightarrow> job list \<Rightarrow> queue option \<Rightarrow> queue option" where
  "push_all ok i [] q = q"
| "push_all ok i (j # js) q = push_all ok (Suc i) js (snd (queue_push (ok i) q (Some j)))"

lemma batch_push_queue: "queue_of (batch_push env i jobs h) = push_all (re_push_ok env) i jobs (queue_of h)"
  by (induction jobs arbitrary: i h) (simp_all add: push_job_def)

text \<open>The whole transaction, whichever statement fails.\<close>

lemma batch_transaction_atomic:
  assumes "batch_transaction env b defs h = (r, h1)" "db_idle (sy_db (hs_core h))" "list_all valid_batch_job defs"
  shows "db_idle (sy_db (hs_core h1)) \<and> queue_of h1 = queue_of h \<and>
    (case r of None \<Rightarrow> tabs h1 = tabs h
     | Some jobs \<Rightarrow> \<exists>rows. tabs h1 = (tabs h)\<lparr>t_batches := t_batches (tabs h) @ [b], t_jobs := t_jobs (tabs h) @ rows\<rparr> \<and>
         map r_id rows = map j_id jobs \<and> distinct (map r_id rows) \<and>
         r_id ` set rows \<inter> r_id ` set (t_jobs (tabs h)) = {} \<and> list_all2 (batch_row_ok b) defs rows)"
proof -
  let ?d = "sy_db (hs_core h)" and ?t = "tabs h"
  let ?at = "\<lambda>d. on_core (\<lambda>s. s\<lparr>sy_db := d\<rparr>) h"
  obtain r0 d0 where 0: "db_begin ?d = (r0, d0)" by force
  obtain r1 d1 where 1: "db_insert_batch b d0 = (r1, d1)" by force
  obtain r2 h2 where 2: "batch_jobs env b 0 defs (?at d1) = (r2, h2)" by force
  obtain r3 d3 where 3: "db_commit (sy_db (hs_core h2)) = (r3, d3)" by force
  have run: "(r, h1) = (if r0 \<noteq> 0 then (None, ?at (snd (db_rollback d0)))
     else if r1 \<noteq> 0 then (None, ?at (snd (db_rollback d1)))
     else case r2 of None \<Rightarrow> (None, tell db_rollback h2)
        | Some jobs \<Rightarrow> if r3 \<noteq> 0 then (None, tell db_rollback (on_core (\<lambda>s. s\<lparr>sy_db := d3\<rparr>) h2))
                       else (Some jobs, on_core (\<lambda>s. s\<lparr>sy_db := d3\<rparr>) h2))"
    using assms(1) 0 1 2 3 unfolding batch_transaction_def Let_def ask_def tell_def
    by (auto simp: split_beta split: if_splits option.splits)
  note B = db_begin_cases [OF assms(2) 0]
  have rb: "db_idle d' \<Longrightarrow> snd (db_rollback d') = d'" for d' by (simp add: db_rollback_def db_idle_def)
  have rt: "db_idle (snd (db_rollback d')) \<and> db_tables (snd (db_rollback d')) = ?t" if "in_txn ?t d'" for d'
    using db_rollback_restores [OF that] by (metis prod.collapse)
  show ?thesis
  proof (cases "r0 = 0")
    case False
    then show ?thesis using run B rb by auto
  next
    case True
    have t0: "in_txn ?t d0" "db_tables d0 = ?t" using B True by auto
    have t1: "in_txn ?t d1" using in_txn_run [OF t0(1) 1 [unfolded db_insert_batch_def]] .
    show ?thesis
    proof (cases "r1 = 0")
      case False
      then show ?thesis using run True rt [OF t1] by simp
    next
      case r1: True
      have tb: "db_tables d1 = ?t\<lparr>t_batches := t_batches ?t @ [b]\<rparr>"
        using sql_run_0D [OF 1 [unfolded r1 db_insert_batch_def]] t0(2) by (auto split: if_splits)
      note S = batch_jobs_steps [OF 2 _ assms(3), of ?t]
      have S': "in_txn ?t (sy_db (hs_core h2))" "\<exists>d. h2 = on_core (\<lambda>s. s\<lparr>sy_db := d\<rparr>) (?at d1)" using S t1 by simp_all
      have q2: "queue_of h2 = queue_of h" using S'(2) by auto
      note C = db_commit_cases [OF S'(1) 3]
      show ?thesis
      proof (cases r2)
        case None
        then show ?thesis using run True r1 rt [OF S'(1)] q2 by simp
      next
        case (Some jobs)
        then obtain rows where R: "tabs h2 = (db_tables d1)\<lparr>t_jobs := t_jobs (db_tables d1) @ rows\<rparr>" "map r_id rows = map j_id jobs"
          "distinct (map r_id rows)" "r_id ` set rows \<inter> r_id ` set (t_jobs (db_tables d1)) = {}" "list_all2 (batch_row_ok b) defs rows"
          using S t1 by auto
        show ?thesis
        proof (cases "r3 = 0")
          case False
          then show ?thesis using run True r1 Some C rb q2 by auto
        next
          case r3: True
          then show ?thesis using run True r1 Some C q2 R tb by auto
        qed
      qed
    qed
  qed
qed

section \<open>Claims\<close>

text \<open>
  C10: a batch is committed as a whole or not at all. Whichever statement of the transaction fails, and
  whatever memory and random source answer: the answer 201 means that one row was added for the batch
  and one, QUEUED, for each job of the request, in its order, under new and distinct identifiers, with
  its command, for the user of the key, and that these jobs were pushed in that order; any other answer
  leaves every table and the queue as they were. No transaction is left open.
\<close>

theorem batches_submit_atomic:
  assumes "db_idle (sy_db (hs_core h))" "batches_submit env rq user h = (reply, h')"
  shows "db_idle (sy_db (hs_core h')) \<and>
    ((\<exists>code msg. reply = Http_Error code msg \<and> tabs h' = tabs h \<and> queue_of h' = queue_of h) \<or>
     (\<exists>body req b rows jobs. reply = Http_Json 201 body \<and> af_parse (re_files env) (rq_body rq) = Some req \<and>
        tabs h' = (tabs h)\<lparr>t_batches := t_batches (tabs h) @ [b], t_jobs := t_jobs (tabs h) @ rows\<rparr> \<and>
        1 \<le> length rows \<and> length rows \<le> MAX_BATCH_JOBS \<and> distinct (map r_id rows) \<and>
        r_id ` set rows \<inter> r_id ` set (t_jobs (tabs h)) = {} \<and> ba_user_id b = buf 128 user \<and>
        list_all2 (\<lambda>def row. get_item def ''command'' = Some (JString (r_command row)) \<and> r_status row = JOB_STATUS_QUEUED \<and>
          r_batch_id row = ba_id b \<and> r_user_id row = buf 128 user) (array_members (get_item req ''jobs'')) rows \<and>
        map j_id jobs = map r_id rows \<and> queue_of h' = push_all (re_push_ok env) 0 jobs (queue_of h)))"
proof -
  consider (early) code msg where "reply = Http_Error code msg" "h' = h"
    | (run) req b where "af_parse (re_files env) (rq_body rq) = Some req"
        "1 \<le> length (array_members (get_item req ''jobs''))" "length (array_members (get_item req ''jobs'')) \<le> MAX_BATCH_JOBS"
        "list_all valid_batch_job (array_members (get_item req ''jobs''))" "ba_user_id b = buf 128 user"
        "batch_run env b (array_members (get_item req ''jobs'')) h = (reply, h')"
    using assms(2) unfolding batches_submit_def Let_def
    by (auto simp: not_less Suc_le_eq intro: that(2) [rotated 5] split: if_splits option.splits)
  then show ?thesis
  proof cases
    case early
    then show ?thesis using assms(1) by blast
  next
    case run
    obtain r h1 where tr: "batch_transaction env b (array_members (get_item req ''jobs'')) h = (r, h1)" by force
    note A = batch_transaction_atomic [OF tr assms(1) run(4)]
    show ?thesis
    proof (cases r)
      case None
      then have "reply = Http_Error 500 ''Batch submission failed; no jobs were committed''" "h' = h1"
        using run(6) tr by (simp_all add: batch_run_def)
      then show ?thesis using A None by auto
    next
      case (Some jobs)
      then obtain rows where R: "tabs h1 = (tabs h)\<lparr>t_batches := t_batches (tabs h) @ [b], t_jobs := t_jobs (tabs h) @ rows\<rparr>"
        "map r_id rows = map j_id jobs" "distinct (map r_id rows)" "r_id ` set rows \<inter> r_id ` set (t_jobs (tabs h)) = {}"
        "list_all2 (batch_row_ok b) (array_members (get_item req ''jobs'')) rows" using A by auto
      obtain st h2 where st: "batch_stats (ba_id b) (batch_push env 0 jobs h1) = (st, h2)" by force
      define d where "d = snd (db_get_batch_stats (ba_id b) (sy_db (hs_core h1)))"
      have d: "h2 = on_core (\<lambda>s. s\<lparr>sy_db := d\<rparr>) (batch_push env 0 jobs h1)"
        using st by (auto simp: batch_stats_def ask_def batch_push_frame d_def split: prod.splits)
      have d': "db_tables d = tabs h1" "db_idle d"
        using db_idle_read [OF conjunct1 [OF A] prod.collapse [symmetric]] by (simp_all add: d_def db_get_batch_stats_def)
      have "buf JOB_USER_LEN (ba_user_id b) = buf 128 user" using run(5) by (simp add: JOB_USER_LEN_def buf_def)
      then have L: "list_all2 (\<lambda>def row. get_item def ''command'' = Some (JString (r_command row)) \<and> r_status row = JOB_STATUS_QUEUED \<and>
          r_batch_id row = ba_id b \<and> r_user_id row = buf 128 user) (array_members (get_item req ''jobs'')) rows"
        using R(5) by (auto simp: batch_row_ok_def elim: list_all2_mono)
      have q: "queue_of h2 = push_all (re_push_ok env) 0 jobs (queue_of h)" using d batch_push_queue A by simp
      have r: "reply = Http_Json 201 (batch_to_json b (case st of None \<Rightarrow> stats_zero | Some x \<Rightarrow> x))" and h: "h' = h2"
        using run(6) tr st Some by (simp_all add: batch_run_def)
      have t: "tabs h2 = (tabs h)\<lparr>t_batches := t_batches (tabs h) @ [b], t_jobs := t_jobs (tabs h) @ rows\<rparr>"
        "db_idle (sy_db (hs_core h2))" using d d' R(1) by simp_all
      have n: "1 \<le> length rows" "length rows \<le> MAX_BATCH_JOBS" using run(2,3) list_all2_lengthD [OF L] by simp_all
      show ?thesis unfolding h using t(2) r run(1) t(1) n R(3,4) run(5) L R(2) [symmetric] q by blast
    qed
  qed
qed

text \<open>A batch of two jobs.\<close>

definition demo_batch :: json where
  "demo_batch = JObject [(''name'', JString ''sweep''), (''jobs'', JArray
     [JObject [(''command'', JString ''run 1''), (''timeout_seconds'', jnum 60)], JObject [(''command'', JString ''run 2'')]])]"

definition demo_batch_env :: req_env where
  "demo_batch_env = demo_http_env\<lparr>re_files := demo_files\<lparr>af_parse := (\<lambda>_. Some demo_batch)\<rparr>,
     re_child := (\<lambda>i. (True, No_Urandom i 2)), re_random := Some (replicate 16 7)\<rparr>"

definition reply_code :: "reply \<Rightarrow> int" where
  "reply_code r = (case r of Http_Error c _ \<Rightarrow> c | Http_Json c _ \<Rightarrow> c | Http_Text c _ _ \<Rightarrow> c | _ \<Rightarrow> 200)"

lemma demo_batch_created: "is_created (fst (batches_submit demo_batch_env demo_request ''ann'' demo_http))"
  by code_simp

theorem batches_submit_atomic_witness:
  "\<exists>reply h' rows. batches_submit demo_batch_env demo_request ''ann'' demo_http = (reply, h') \<and>
     t_jobs (tabs h') = t_jobs (tabs demo_http) @ rows \<and> length rows \<ge> 1 \<and> db_idle (sy_db (hs_core h'))"
proof -
  obtain reply h' where run: "batches_submit demo_batch_env demo_request ''ann'' demo_http = (reply, h')" by force
  have c: "is_created reply" using demo_batch_created run by simp
  have i: "db_idle (sy_db (hs_core demo_http))"
    by (simp add: demo_http_def demo_sched_def exec_sys.defs demo_exec_def life_sys.defs demo_life_def)
  show ?thesis using batches_submit_atomic [OF i run] run c by (auto simp: is_created_def)
qed

text \<open>
  A batch passes the checks of a submission by. A server that only runs registered applications and
  that is being drained refuses the plain command of a request with 503 and 400, but the same commands in
  a batch are stored and queued.
\<close>

theorem batch_bypasses_checks:
  "let env = demo_batch_env\<lparr>re_exec := demo_env\<lparr>xe_config := config_defaults\<lparr>cf_command_mode := ''app_only''\<rparr>\<rparr>\<rparr>;
       draining = demo_http\<lparr>hs_accepting_jobs := False\<rparr>; (reply, h) = batches_submit env demo_request ''ann'' draining in
   map_option (reply_code \<circ> fst) (submit_job env demo_request ''ann'' ''user'' draining) = Some 503 \<and>
   map_option (reply_code \<circ> fst) (submit_job (env\<lparr>re_files := re_files demo_http_env\<rparr>) demo_request ''ann'' ''user'' demo_http) = Some 400 \<and>
   reply_code reply = 201 \<and> map r_command (t_jobs (tabs h)) = map r_command (t_jobs (tabs draining)) @ [''run 1'', ''run 2''] \<and>
   map_option (map j_command \<circ> q_heap) (queue_of h) = Some [''run 1'', ''run 2'']"
  by code_simp

end
