(* ===== verification/Accounts.thy ===== *)
theory Accounts
  imports Batches
begin

text \<open>
  The handlers of \<open>src/http/routes.c\<close> for accounts: the limit on login attempts, login and passwords,
  and the administration of users, API keys and quotas.
\<close>

section \<open>Model\<close>

abbreviation reply_ok :: reply where
  "reply_ok \<equiv> Http_Json 200 (JObject [(''ok'', JBool True)])"

subsection \<open>Login attempts\<close>

definition LOGIN_RL_SLOTS :: nat where "LOGIN_RL_SLOTS = 64"
definition LOGIN_RL_MAX :: int where "LOGIN_RL_MAX = 5"
definition LOGIN_RL_WINDOW :: int where "LOGIN_RL_WINDOW = 60"

definition login_rl_init :: "login_rl list" where
  "login_rl_init = replicate LOGIN_RL_SLOTS \<lparr> rl_ip = 0, rl_attempts = 0, rl_window_start = 0 \<rparr>"

text \<open>The first loop: the slot of the address, counted up; \<open>None\<close> when there is none.\<close>

fun login_count :: "32 word \<Rightarrow> int \<Rightarrow> login_rl list \<Rightarrow> (bool \<times> login_rl list) option" where
  "login_count ip now [] = None"
| "login_count ip now (s # rl) =
     (if rl_ip s = ip then
        if now - rl_window_start s > LOGIN_RL_WINDOW then
          Some (True, s\<lparr>rl_attempts := 1, rl_window_start := now\<rparr> # rl)
        else Some (rl_attempts s + 1 \<le> LOGIN_RL_MAX, s\<lparr>rl_attempts := rl_attempts s + 1\<rparr> # rl)
      else map_option (\<lambda>(ok, rl'). (ok, s # rl')) (login_count ip now rl))"

text \<open>The second loop: the first empty slot, or the one whose window started first.\<close>

fun oldest_slot :: "login_rl list \<Rightarrow> login_rl list \<Rightarrow> nat \<Rightarrow> nat \<Rightarrow> nat" where
  "oldest_slot all [] i oldest = oldest"
| "oldest_slot all (s # rl) i oldest =
     (if rl_ip s = 0 then i
      else oldest_slot all rl (Suc i) (if rl_window_start s < rl_window_start (all ! oldest) then i else oldest))"

definition login_rate_check :: "32 word \<Rightarrow> int \<Rightarrow> login_rl list \<Rightarrow> bool \<times> login_rl list" where
  "login_rate_check ip now rl =
     (case login_count ip now rl of
        Some r \<Rightarrow> r
      | None \<Rightarrow> (True, rl[oldest_slot rl rl 0 0 := \<lparr> rl_ip = ip, rl_attempts = 1, rl_window_start = now \<rparr>]))"

subsection \<open>Login and passwords\<close>

text \<open>The raw key and its hash; \<open>None\<close> is -1. \<open>raw\<close> is what the random source gave.\<close>

definition generate_api_key_for_user ::
  "int \<Rightarrow> bytes option \<Rightarrow> string \<Rightarrow> string \<Rightarrow> db \<Rightarrow> (string \<times> string) option \<times> db" where
  "generate_api_key_for_user now raw user_id role d =
     (case raw of
        None \<Rightarrow> (None, d)
      | Some b \<Rightarrow>
          if length b \<noteq> 32 then (None, d)
          else let raw_hex = bytes_to_hex b; hash = auth_hash_key raw_hex;
                   (r, d') = db_insert_api_key_full now hash ''auto-login'' (Some role) (Some user_id) (now + 86400) d
               in (if r = 0 then Some (raw_hex, hash) else None, d'))"

text \<open>What follows once the account is known to be open to the password.\<close>

definition login_session :: "req_env \<Rightarrow> string \<Rightarrow> http_sys \<Rightarrow> reply \<times> http_sys" where
  "login_session env uid h =
     (let (previous, h1) = ask (db_find_user_key (now_of h) uid 65) h;
          (key, h2) = ask (generate_api_key_for_user (now_of h) (re_random env) uid ''user'') h1 in
      case key of
        None \<Rightarrow> (Http_Error 500 ''Failed to create login session'', h2)
      | Some (raw_hex, hash) \<Rightarrow>
          let h3 = (case previous of None \<Rightarrow> h2 | Some key_hash \<Rightarrow> tell (db_revoke_api_key key_hash) h2) in
          if \<not> re_alloc_ok env \<or> \<not> re_print_ok env then
            (Http_Error 500 ''Out of memory'', tell (db_revoke_api_key hash) h3)
          else (Http_Json 200 (JObject [(''user_id'', JString uid), (''api_key'', JString raw_hex), (''role'', JString ''user'')]), h3))"

definition login_verified :: "req_env \<Rightarrow> string \<Rightarrow> string \<Rightarrow> http_sys \<Rightarrow> reply \<times> http_sys" where
  "login_verified env uid password h =
     (case ask (db_get_user_auth uid AUTH_PASSWORD_HASH_LEN) h of
        (None, h1) \<Rightarrow> (Http_Error 401 ''Invalid user_id or password'', h1)
      | (Some (stored_hash, enabled), h1) \<Rightarrow>
          if \<not> auth_verify_password (Some password) (Some stored_hash) then
            (Http_Error 401 ''Invalid user_id or password'', h1)
          else if enabled = 0 then (Http_Error 403 ''Account disabled'', h1)
          else login_session env uid
            (if auth_password_needs_rehash (Some stored_hash) then
               case auth_hash_password (re_salt env 0) password of
                 None \<Rightarrow> h1
               | Some upgraded_hash \<Rightarrow> tell (db_set_user_password uid upgraded_hash) h1
             else h1))"

definition auth_login :: "req_env \<Rightarrow> request \<Rightarrow> http_sys \<Rightarrow> reply \<times> http_sys" where
  "auth_login env rq h0 =
     (let (ok, rl) = login_rate_check (rq_peer rq) (now_of h0) (hs_login_rl h0); h = h0\<lparr>hs_login_rl := rl\<rparr> in
      if \<not> ok then (Http_Error 429 ''Too many login attempts. Try again later.'', h)
      else case af_parse (re_files env) (buf 2048 (rq_body rq)) of
        None \<Rightarrow> (Http_Error 400 ''Invalid JSON'', h)
      | Some req \<Rightarrow>
          let uid = item_text (get_item req ''user_id''); pwd = item_text (get_item req ''password'') in
          if uid = [] \<or> pwd = [] \<or> \<not> safe_cli_name uid \<or> length pwd > 128 then
            (Http_Error 400 (''Invalid '' @ sq ''user_id'' @ '' and/or '' @ sq ''password''), h)
          else login_verified env (buf 128 uid) (buf 256 pwd) h)"

definition auth_change_password :: "req_env \<Rightarrow> request \<Rightarrow> string \<Rightarrow> http_sys \<Rightarrow> reply \<times> http_sys" where
  "auth_change_password env rq auth_user_id h =
     (if auth_user_id = [] then (Http_Error 403 ''API key not bound to a user'', h)
      else case af_parse (re_files env) (buf 2048 (rq_body rq)) of
        None \<Rightarrow> (Http_Error 400 ''Invalid JSON'', h)
      | Some req \<Rightarrow>
          let old = item_text (get_item req ''old_password''); new = item_text (get_item req ''new_password'') in
          if old = [] \<or> new = [] then
            (Http_Error 400 (''Missing '' @ sq ''old_password'' @ '' and/or '' @ sq ''new_password''), h)
          else case ask (db_get_user_auth auth_user_id AUTH_PASSWORD_HASH_LEN) h of
            (None, h1) \<Rightarrow> (Http_Error 401 ''Old password is incorrect'', h1)
          | (Some (stored_hash, _), h1) \<Rightarrow>
              if \<not> auth_verify_password (Some old) (Some stored_hash) then
                (Http_Error 401 ''Old password is incorrect'', h1)
              else if length new < 12 \<or> length new > 128 then
                (Http_Error 400 ''New password must contain 12-128 characters'', h1)
              else case auth_hash_password (re_salt env 0) new of
                None \<Rightarrow> (Http_Error 500 ''Failed to generate password hash'', h1)
              | Some new_hash \<Rightarrow>
                  let (rc, h2) = ask (db_set_user_password auth_user_id new_hash) h1
                  in (if rc \<noteq> 0 then Http_Error 500 ''Failed to update password'' else reply_ok, h2))"

definition auth_methods :: reply where
  "auth_methods = Http_Json 200 (JObject [(''methods'', JArray [JString ''password'', JString ''api_key''])])"

definition auth_me :: "req_env \<Rightarrow> string \<Rightarrow> string \<Rightarrow> reply" where
  "auth_me env user_id role =
     (if \<not> re_alloc_ok env \<or> \<not> re_print_ok env then Http_Error 500 ''Out of memory''
      else Http_Json 200 (JObject [(''user_id'', JString user_id), (''role'', JString role)]))"

subsection \<open>Quotas\<close>

definition quota_to_json :: "quota \<Rightarrow> json" where
  "quota_to_json q = JObject
     [(''user_id'', JString (qu_user_id q)), (''app_id'', JString (qu_app_id q)), (''max_jobs'', jnum (qu_max_jobs q)),
      (''max_ram_mb'', jnum (qu_max_ram_mb q)), (''max_cores'', jnum (qu_max_cores q)),
      (''max_concurrent'', jnum (qu_max_concurrent q))]"

definition list_quotas :: "req_env \<Rightarrow> http_sys \<Rightarrow> reply \<times> http_sys" where
  "list_quotas env h =
     (if \<not> re_alloc_ok env then (Http_Error 500 ''Out of memory'', h)
      else let (qs, h1) = ask (db_list_quotas 256) h in (Http_Json 200 (JArray (map quota_to_json qs)), h1))"

text \<open>\<open>if (cJSON_IsNumber(j)) field = (int)j->valuedouble\<close>, on a field that is zero.\<close>

definition number_field :: "req_env \<Rightarrow> json option \<Rightarrow> int" where
  "number_field env x = (case x of Some (JNumber v) \<Rightarrow> c_int env v | _ \<Rightarrow> 0)"

definition upsert_quota :: "req_env \<Rightarrow> request \<Rightarrow> http_sys \<Rightarrow> reply \<times> http_sys" where
  "upsert_quota env rq h =
     (case af_parse (re_files env) (buf 2048 (rq_body rq)) of
        None \<Rightarrow> (Http_Error 400 ''Invalid JSON'', h)
      | Some req \<Rightarrow>
          let num = (\<lambda>n. number_field env (get_item req n));
              q = \<lparr> qu_user_id = buf 128 (item_text (get_item req ''user_id'')), qu_app_id = buf 128 (item_text (get_item req ''app_id'')),
                    qu_max_jobs = num ''max_jobs'', qu_max_ram_mb = num ''max_ram_mb'', qu_max_cores = num ''max_cores'',
                    qu_max_concurrent = num ''max_concurrent'' \<rparr>;
              (rc, h1) = ask (db_update_quota q) h;
              (rc, h2) = (if rc \<noteq> 0 then ask (db_insert_quota q) h1 else (rc, h1)) in
          (if rc \<noteq> 0 then Http_Error 500 ''Failed to save quota'' else Http_Json 200 (quota_to_json q), h2))"

definition delete_quota :: "req_env \<Rightarrow> request \<Rightarrow> http_sys \<Rightarrow> reply \<times> http_sys" where
  "delete_quota env rq h =
     (case af_parse (re_files env) (buf 1024 (rq_body rq)) of
        None \<Rightarrow> (Http_Error 400 ''Invalid JSON'', h)
      | Some req \<Rightarrow>
          let (rc, h1) = ask (db_delete_quota (buf 128 (item_text (get_item req ''user_id''))) (buf 128 (item_text (get_item req ''app_id'')))) h
          in (if rc \<noteq> 0 then Http_Error 404 ''Quota not found'' else reply_ok, h1))"

subsection \<open>API keys\<close>

definition masked_hash :: "string \<Rightarrow> string" where
  "masked_hash hash = buf 20 (take 8 hash @ ''...'' @ (if length hash > 4 then drop (length hash - 4) hash else hash))"

definition key_to_json :: "key_row \<Rightarrow> json" where
  "key_to_json k = JObject
     [(''key_hash_masked'', JString (masked_hash (ak_key_hash k))), (''key_hash'', JString (ak_key_hash k)),
      (''label'', JString (ak_label k)), (''role'', JString (ak_role k)), (''user_id'', JString (ak_user_id k)),
      (''created_at'', jnum (ak_created_at k)), (''expires_at'', jnum (ak_expires_at k)), (''revoked'', JBool (ak_revoked k))]"

definition list_keys :: "req_env \<Rightarrow> http_sys \<Rightarrow> reply \<times> http_sys" where
  "list_keys env h =
     (if \<not> re_alloc_ok env then (Http_Error 500 ''Out of memory'', h)
      else let (ks, h1) = ask (db_list_api_keys 256) h in (Http_Json 200 (JArray (map key_to_json ks)), h1))"

text \<open>The checked fields of a new key: label, role, user and expiry, or the message of the refusal.\<close>

definition key_label :: "json option \<Rightarrow> string + string" where
  "key_label j =
     (case j of
        None \<Rightarrow> Inr ''default''
      | Some (JString s) \<Rightarrow>
          if s = [] \<or> length s \<ge> 128 then Inl ''label must contain 1-127 characters''
          else if list_ex (\<lambda>c. c < CHR 0x20 \<or> c = CHR 0x7f) s then Inl ''label contains control characters''
          else Inr s
      | Some _ \<Rightarrow> Inl ''label must be a string'')"

definition key_text :: "string \<Rightarrow> string \<Rightarrow> nat \<Rightarrow> json option \<Rightarrow> string + string" where
  "key_text name dflt n j =
     (case j of
        None \<Rightarrow> Inr dflt
      | Some (JString s) \<Rightarrow> if length s \<ge> n then Inl (name @ '' is too long'') else Inr s
      | Some _ \<Rightarrow> Inl (name @ '' must be a string''))"

definition key_expiry :: "int \<Rightarrow> json option \<Rightarrow> string + int" where
  "key_expiry now j =
     (case (case j of None \<Rightarrow> Some 0 | Some x \<Rightarrow> whole_number x 0 4102444800) of
        None \<Rightarrow> Inl ''expires_at must be a valid Unix timestamp''
      | Some e \<Rightarrow> if e \<noteq> 0 \<and> e \<le> now then Inl ''expires_at must be in the future'' else Inr e)"

definition key_identity :: "string \<Rightarrow> string \<Rightarrow> string option" where
  "key_identity role user_id =
     (if role \<noteq> ''admin'' \<and> role \<noteq> ''user'' then Some (''role must be '' @ sq ''admin'' @ '' or '' @ sq ''user'')
      else if user_id \<noteq> [] \<and> \<not> safe_cli_name user_id \<or> role = ''user'' \<and> user_id = [] then Some ''A user key requires a valid user_id''
      else None)"

definition key_fields :: "int \<Rightarrow> json \<Rightarrow> string + string \<times> string \<times> string \<times> int" where
  "key_fields now req =
     (case key_label (get_item req ''label'') of Inl e \<Rightarrow> Inl e | Inr label \<Rightarrow>
      case key_text ''role'' ''user'' 16 (get_item req ''role'') of Inl e \<Rightarrow> Inl e | Inr role \<Rightarrow>
      case key_text ''user_id'' [] 128 (get_item req ''user_id'') of Inl e \<Rightarrow> Inl e | Inr user_id \<Rightarrow>
      case key_expiry now (get_item req ''expires_at'') of Inl e \<Rightarrow> Inl e | Inr expires_at \<Rightarrow>
      case key_identity role user_id of Some e \<Rightarrow> Inl e | None \<Rightarrow> Inr (label, role, user_id, expires_at))"

definition insert_key :: "req_env \<Rightarrow> string \<Rightarrow> string \<Rightarrow> string \<Rightarrow> int \<Rightarrow> http_sys \<Rightarrow> reply \<times> http_sys" where
  "insert_key env label role user_id expires_at h =
     (case re_random env of
        None \<Rightarrow> (Http_Error 500 ''Cannot generate random key'', h)
      | Some raw \<Rightarrow>
          if length raw \<noteq> 32 then (Http_Error 500 ''Cannot generate random key'', h)
          else
            let raw_hex = bytes_to_hex raw;
                (rc, h1) = ask (db_insert_api_key_full (now_of h) (auth_hash_key raw_hex) label (Some role) (Some user_id) expires_at) h in
            if rc \<noteq> 0 then (Http_Error 500 ''Failed to create key (duplicate?)'', h1)
            else if \<not> re_alloc_ok env \<or> \<not> re_print_ok env then (Http_Error 500 ''Out of memory'', h1)
            else (Http_Json 201 (JObject [(''api_key'', JString raw_hex), (''label'', JString label), (''role'', JString role),
                    (''user_id'', JString user_id), (''expires_at'', jnum expires_at)]), h1))"

definition create_key :: "req_env \<Rightarrow> request \<Rightarrow> http_sys \<Rightarrow> reply \<times> http_sys" where
  "create_key env rq h =
     (case af_parse (re_files env) (buf 2048 (rq_body rq)) of
        None \<Rightarrow> (Http_Error 400 ''Invalid JSON'', h)
      | Some req \<Rightarrow>
          (case key_fields (now_of h) req of
             Inl e \<Rightarrow> (Http_Error 400 e, h)
           | Inr (label, role, user_id, expires_at) \<Rightarrow>
               if user_id = [] then insert_key env label role user_id expires_at h
               else case ask (db_get_user user_id) h of
                 (None, h1) \<Rightarrow> (Http_Error 400 ''user_id does not reference an enabled user'', h1)
               | (Some user, h1) \<Rightarrow>
                   if us_enabled user = 0 then (Http_Error 400 ''user_id does not reference an enabled user'', h1)
                   else insert_key env label role user_id expires_at h1))"

definition revoke_key :: "req_env \<Rightarrow> request \<Rightarrow> http_sys \<Rightarrow> reply \<times> http_sys" where
  "revoke_key env rq h =
     (case af_parse (re_files env) (buf 1024 (rq_body rq)) of
        None \<Rightarrow> (Http_Error 400 ''Invalid JSON'', h)
      | Some req \<Rightarrow>
          let jhash = string_value (get_item req ''key_hash''); jkey = string_value (get_item req ''api_key'');
              bad = Http_Error 400 ''api_key or key_hash must contain 64 hexadecimal characters'' in
          (case (if jhash \<noteq> None then jhash else jkey) of
             None \<Rightarrow> (bad, h)
           | Some identifier \<Rightarrow>
               if length identifier \<noteq> 64 \<or> \<not> list_all isxdigit identifier then (bad, h)
               else let hash = (if jhash \<noteq> None then identifier else auth_hash_key identifier);
                        (rc, h1) = ask (db_revoke_api_key hash) h
                    in (if rc \<noteq> 0 then Http_Error 404 ''Key not found'' else reply_ok, h1)))"

subsection \<open>Users\<close>

definition user_record_to_json :: "user_row \<Rightarrow> (string \<times> json) list" where
  "user_record_to_json u =
     [(''user_id'', JString (us_user_id u)), (''display_name'', JString (us_display_name u)), (''email'', JString (us_email u)),
      (''enabled'', JBool (us_enabled u \<noteq> 0)), (''created_at'', jnum (us_created_at u))]"

text \<open>One row of \<open>db_list_users\<close>: the jobs of a user, by state.\<close>

record user_info =
  ui_user_id :: string
  ui_total_jobs :: int
  ui_running :: int
  ui_in_queue :: int
  ui_held :: int
  ui_finished :: int
  ui_failed :: int

definition count_status :: "job_status list \<Rightarrow> job_row list \<Rightarrow> int" where
  "count_status ss rows = int (length (filter (\<lambda>r. r_status r \<in> set ss) rows))"

definition db_list_users :: "int \<Rightarrow> db \<Rightarrow> user_info list \<times> db" where
  "db_list_users max_count = sql_read (\<lambda>t.
     map (\<lambda>u. let rows = filter (\<lambda>r. r_user_id r = u) (t_jobs t) in
            \<lparr> ui_user_id = buf 128 u, ui_total_jobs = int (length rows),
              ui_running = count_status [JOB_STATUS_LEGACY_1, JOB_STATUS_RUNNING] rows,
              ui_in_queue = count_status [JOB_STATUS_QUEUED] rows, ui_held = count_status [JOB_STATUS_CREATED] rows,
              ui_finished = count_status [JOB_STATUS_SUCCEEDED] rows, ui_failed = count_status [JOB_STATUS_FAILED] rows \<rparr>)
       (take (nat max_count) (sort (remdups (filter (\<lambda>u. u \<noteq> []) (map r_user_id (t_jobs t))))))) [] []"

definition user_info_to_json :: "user_info \<Rightarrow> (string \<times> json) list" where
  "user_info_to_json i =
     [(''total_jobs'', jnum (ui_total_jobs i)), (''running'', jnum (ui_running i)), (''in_queue'', jnum (ui_in_queue i)),
      (''held'', jnum (ui_held i)), (''finished'', jnum (ui_finished i)), (''failed'', jnum (ui_failed i))]"

definition list_users :: "req_env \<Rightarrow> http_sys \<Rightarrow> reply \<times> http_sys" where
  "list_users env h =
     (if \<not> re_alloc_ok env then (Http_Error 500 ''Out of memory'', h)
      else let (recs, h1) = ask (db_list_user_records 512) h; (info, h2) = ask (db_list_users 512) h1 in
        (Http_Json 200 (JArray (map (\<lambda>u. JObject (user_record_to_json u @
           (case find (\<lambda>i. ui_user_id i = us_user_id u) info of None \<Rightarrow> [] | Some i \<Rightarrow> user_info_to_json i))) recs)), h2))"

definition enabled_field :: "json \<Rightarrow> int \<Rightarrow> int" where
  "enabled_field req old = (case get_item req ''enabled'' of Some (JBool b) \<Rightarrow> of_bool b | _ \<Rightarrow> old)"

definition text_field :: "json \<Rightarrow> string \<Rightarrow> nat \<Rightarrow> string \<Rightarrow> string" where
  "text_field req name n old = (case string_value (get_item req name) of Some s \<Rightarrow> buf n s | None \<Rightarrow> old)"

text \<open>The hash of the password of a new user: \<open>None\<close> is a refusal, \<open>Some None\<close> no password.\<close>

definition user_password :: "bytes option \<Rightarrow> json option \<Rightarrow> string option option" where
  "user_password salt jpwd =
     (case jpwd of
        None \<Rightarrow> Some None
      | Some (JString pw) \<Rightarrow> if length pw < 12 \<or> length pw > 128 then None else map_option Some (auth_hash_password salt pw)
      | Some _ \<Rightarrow> None)"

definition refused_user :: "string \<Rightarrow> string \<Rightarrow> json" where
  "refused_user uid msg = JObject [(''user_id'', JString uid), (''error'', JString msg)]"

text \<open>One round of the loop: whether the user was created, the entry of the answer, the state.\<close>

definition create_user_item :: "bytes option \<Rightarrow> json \<Rightarrow> http_sys \<Rightarrow> bool \<times> json \<times> http_sys" where
  "create_user_item salt item h =
     (let uid = item_text (get_item item ''user_id'') in
      if uid = [] then (False, JObject [(''error'', JString ''missing user_id'')], h)
      else if \<not> safe_cli_name uid then
        (False, refused_user uid (''user_id must contain only letters, digits, '' @ sq ''_'' @ '' or '' @ sq ''-''), h)
      else case user_password salt (get_item item ''password'') of
        None \<Rightarrow> (False, refused_user uid ''password must contain 12-128 characters'', h)
      | Some pw \<Rightarrow>
          let u = \<lparr> us_user_id = buf 128 uid, us_display_name = text_field item ''display_name'' 256 [],
                    us_email = text_field item ''email'' 256 [], us_password_hash = [], us_enabled = enabled_field item 1, us_created_at = 0 \<rparr>;
              (rc, h1) = ask (db_create_user (now_of h) u) h in
          if rc \<noteq> 0 then (False, refused_user (us_user_id u) ''already exists or DB error'', h1)
          else
            let (rc, h2) = (case pw of None \<Rightarrow> (0, h1) | Some hash \<Rightarrow> ask (db_set_user_password (us_user_id u) hash) h1) in
            if rc \<noteq> 0 then (False, refused_user (us_user_id u) ''failed to store password'', tell (db_delete_user (us_user_id u)) h2)
            else let (saved, h3) = ask (db_get_user (us_user_id u)) h2
                 in (True, JObject (user_record_to_json (case saved of None \<Rightarrow> u | Some v \<Rightarrow> v)), h3))"

fun create_user_items :: "req_env \<Rightarrow> nat \<Rightarrow> json list \<Rightarrow> http_sys \<Rightarrow> (bool \<times> json) list \<times> http_sys" where
  "create_user_items env i [] h = ([], h)"
| "create_user_items env i (item # items) h =
     (let (ok, r, h1) = create_user_item (re_salt env i) item h; (rs, h2) = create_user_items env (Suc i) items h1
      in ((ok, r) # rs, h2))"

definition create_users :: "req_env \<Rightarrow> request \<Rightarrow> http_sys \<Rightarrow> reply \<times> http_sys" where
  "create_users env rq h =
     (if \<not> re_alloc_ok env then (Http_Error 500 ''Out of memory'', h)
      else case af_parse (re_files env) (rq_body rq) of
        None \<Rightarrow> (Http_Error 400 ''Invalid JSON'', h)
      | Some req \<Rightarrow>
          let (rs, h1) = create_user_items env 0 (case req of JArray xs \<Rightarrow> xs | _ \<Rightarrow> [req]) h;
              created = length (filter fst rs); failed = length rs - created in
          (Http_Json (if created > 0 then 201 else 400)
             (JObject [(''created'', jnum (int created)), (''failed'', jnum (int failed)), (''users'', JArray (map snd rs))]), h1))"

definition update_user :: "req_env \<Rightarrow> request \<Rightarrow> http_sys \<Rightarrow> reply \<times> http_sys" where
  "update_user env rq h =
     (case af_parse (re_files env) (buf 2048 (rq_body rq)) of
        None \<Rightarrow> (Http_Error 400 ''Invalid JSON'', h)
      | Some req \<Rightarrow>
          let uid = item_text (get_item req ''user_id'') in
          if uid = [] then (Http_Error 400 (''Missing '' @ sq ''user_id''), h)
          else case ask (db_get_user uid) h of
            (None, h1) \<Rightarrow> (Http_Error 404 ''User not found'', h1)
          | (Some u0, h1) \<Rightarrow>
              let u = u0\<lparr>us_display_name := text_field req ''display_name'' 256 (us_display_name u0),
                         us_email := text_field req ''email'' 256 (us_email u0), us_enabled := enabled_field req (us_enabled u0)\<rparr>;
                  (rc, h2) = ask (db_update_user u) h1
              in (if rc \<noteq> 0 then Http_Error 500 ''Failed to update user'' else Http_Json 200 (JObject (user_record_to_json u)), h2))"

definition delete_user :: "req_env \<Rightarrow> request \<Rightarrow> http_sys \<Rightarrow> reply \<times> http_sys" where
  "delete_user env rq h =
     (case af_parse (re_files env) (buf 1024 (rq_body rq)) of
        None \<Rightarrow> (Http_Error 400 ''Invalid JSON'', h)
      | Some req \<Rightarrow>
          let uid = item_text (get_item req ''user_id'') in
          if uid = [] then (Http_Error 400 (''Missing '' @ sq ''user_id''), h)
          else let (rc, h1) = ask (db_delete_user (buf 128 uid)) h
               in (if rc \<noteq> 0 then Http_Error 404 ''User not found'' else reply_ok, h1))"

section \<open>Laws\<close>

subsection \<open>The limit on logins\<close>

text \<open>A sequence of attempts, each an address and a time, against the table.\<close>

fun login_checks :: "(32 word \<times> int) list \<Rightarrow> login_rl list \<Rightarrow> bool list" where
  "login_checks [] rl = []"
| "login_checks ((ip, now) # es) rl =
     (let (ok, rl') = login_rate_check ip now rl in ok # login_checks es rl')"

text \<open>The answers to one address.\<close>

definition answers_to :: "32 word \<Rightarrow> (32 word \<times> int) list \<Rightarrow> bool list \<Rightarrow> bool list" where
  "answers_to ip es as = map snd (filter (\<lambda>(e, a). fst e = ip) (zip es as))"

text \<open>The table after the addresses \<open>seen\<close>, in that order, with their counts and windows.\<close>

definition rl_table :: "32 word list \<Rightarrow> (32 word \<Rightarrow> int) \<Rightarrow> (32 word \<Rightarrow> int) \<Rightarrow> nat \<Rightarrow> login_rl list" where
  "rl_table seen cnt ws n = map (\<lambda>ip. \<lparr> rl_ip = ip, rl_attempts = cnt ip, rl_window_start = ws ip \<rparr>) seen @
     replicate n \<lparr> rl_ip = 0, rl_attempts = 0, rl_window_start = 0 \<rparr>"

lemma login_count_seen:
  "ip \<in> set seen \<Longrightarrow> distinct seen \<Longrightarrow> now - ws ip \<le> LOGIN_RL_WINDOW \<Longrightarrow>
   login_count ip now (rl_table seen cnt ws n) = Some (cnt ip + 1 \<le> LOGIN_RL_MAX, rl_table seen (cnt(ip := cnt ip + 1)) ws n)"
  by (induction seen) (auto simp: rl_table_def)

lemma login_count_unseen:
  assumes "ip \<notin> set seen" "ip \<noteq> 0"
  shows "login_count ip now (rl_table seen cnt ws n) = None"
proof -
  have z: "login_count ip now (replicate n \<lparr> rl_ip = 0, rl_attempts = 0, rl_window_start = 0 \<rparr>) = None"
    using assms(2) by (induction n) auto
  show ?thesis using assms(1) z by (induction seen) (auto simp: rl_table_def)
qed

lemma oldest_slot_empty:
  "0 \<notin> set seen \<Longrightarrow> oldest_slot all (rl_table seen cnt ws (Suc n)) i j = i + length seen"
  by (induction seen arbitrary: i j) (auto simp: rl_table_def)

lemma login_rate_new:
  assumes "ip \<notin> set seen" "ip \<noteq> 0" "0 \<notin> set seen"
  shows "login_rate_check ip now (rl_table seen cnt ws (Suc n)) =
    (True, rl_table (seen @ [ip]) (cnt(ip := 1)) (ws(ip := now)) n)"
proof -
  have "(rl_table seen cnt ws (Suc n))[length seen := \<lparr> rl_ip = ip, rl_attempts = 1, rl_window_start = now \<rparr>] =
      rl_table (seen @ [ip]) (cnt(ip := 1)) (ws(ip := now)) n"
    using assms(1) by (auto simp: rl_table_def list_update_append)
  then show ?thesis using assms by (simp add: login_rate_check_def login_count_unseen oldest_slot_empty)
qed

text \<open>From any table: the next answers to an address count on from what was counted.\<close>

lemma login_checks_count:
  assumes "distinct seen" "0 \<notin> set seen" "0 \<notin> fst ` set es" "\<forall>x. x \<notin> set seen \<longrightarrow> cnt x = 0"
    "\<forall>x \<in> set seen. t0 \<le> ws x" "\<forall>e \<in> set es. t0 \<le> snd e \<and> snd e \<le> t0 + LOGIN_RL_WINDOW"
    "card (set seen \<union> fst ` set es) \<le> length seen + n"
  shows "answers_to ip es (login_checks es (rl_table seen cnt ws n)) =
    map (\<lambda>k. cnt ip + int k < LOGIN_RL_MAX) [0..<length (filter (\<lambda>e. fst e = ip) es)]"
  using assms
proof (induction es arbitrary: seen cnt ws n)
  case Nil
  then show ?case by (simp add: answers_to_def)
next
  case (Cons e es)
  obtain x now where e: "e = (x, now)" by force
  define c where "c = length (filter (\<lambda>e. fst e = ip) es)"
  have shift: "map (\<lambda>k. a + int k < LOGIN_RL_MAX) [0..<Suc m] = (a < LOGIN_RL_MAX) # map (\<lambda>k. a + 1 + int k < LOGIN_RL_MAX) [0..<m]" for a m
    by (simp add: upt_conv_Cons map_Suc_upt [symmetric] comp_def algebra_simps del: upt_Suc)
  show ?case
  proof (cases "x \<in> set seen")
    case True
    have w: "now - ws x \<le> LOGIN_RL_WINDOW" using Cons.prems(5,6) True e by force
    have "answers_to ip es (login_checks es (rl_table seen (cnt(x := cnt x + 1)) ws n)) =
        map (\<lambda>k. (cnt(x := cnt x + 1)) ip + int k < LOGIN_RL_MAX) [0..<c]"
      unfolding c_def using Cons.prems True e by (intro Cons.IH) (auto simp: insert_absorb)
    moreover have "login_checks (e # es) (rl_table seen cnt ws n) =
        (cnt x < LOGIN_RL_MAX) # login_checks es (rl_table seen (cnt(x := cnt x + 1)) ws n)"
      using login_count_seen [of x seen now ws cnt n, OF True Cons.prems(1) w] by (auto simp: e login_rate_check_def)
    ultimately show ?thesis using shift [of "cnt ip" c] by (auto simp: answers_to_def e c_def simp del: upt_Suc)
  next
    case False
    have x: "x \<noteq> 0" using Cons.prems(3) e by auto
    have card: "card (set (seen @ [x]) \<union> fst ` set es) \<le> length seen + n" using Cons.prems(7) e by simp
    moreover have "card (set (seen @ [x])) \<le> card (set (seen @ [x]) \<union> fst ` set es)" by (intro card_mono) auto
    ultimately have "n \<noteq> 0" using Cons.prems(1) False by (cases n) (auto simp: distinct_card)
    then obtain m where m: "n = Suc m" by (cases n) auto
    have "answers_to ip es (login_checks es (rl_table (seen @ [x]) (cnt(x := 1)) (ws(x := now)) m)) =
        map (\<lambda>k. (cnt(x := 1)) ip + int k < LOGIN_RL_MAX) [0..<c]"
      unfolding c_def using Cons.prems False x e m card by (intro Cons.IH) auto
    moreover have "login_checks (e # es) (rl_table seen cnt ws n) =
        True # login_checks es (rl_table (seen @ [x]) (cnt(x := 1)) (ws(x := now)) m)"
      using login_rate_new [OF False x Cons.prems(2), of now cnt ws m] by (simp add: e m)
    moreover have "cnt x = 0" using Cons.prems(4) False by simp
    ultimately show ?thesis using shift [of "cnt ip" c]
      by (auto simp: answers_to_def e c_def LOGIN_RL_MAX_def simp del: upt_Suc)
  qed
qed

subsection \<open>Keys\<close>

lemma find_SomeD:
  assumes "find P xs = Some x"
  shows "x \<in> set xs" "P x"
  using assms by (auto simp: find_Some_iff)

lemma isxdigit_hex: "list_all isxdigit (bytes_to_hex bs)"
proof -
  have v: "isxdigit c" if "hex_value c \<noteq> -1" for c
    using that by (auto simp: hex_value_def isxdigit_def split: if_splits)
  have d: "isxdigit (hex_digit d)" if "d < 16" for d :: "8 word"
    using v [of "hex_digit d"] hex_value_digit [OF that] uint_ge_0 [of d] by simp
  show ?thesis using d [OF nibbles(2)] d [OF nibbles(3)] by (auto simp: bytes_to_hex_def hex2_def list_all_iff)
qed

lemma auth_check_found:
  assumes "db_plan d = []" "length key = 64" "list_all isxdigit key"
    "find (\<lambda>k. ak_key_hash k = sha256_hex key \<and> \<not> ak_revoked k) (t_api_keys (db_tables d)) = Some k"
  shows "fst (auth_check_role_user t (Some key) d) =
    (if ak_expires_at k > 0 \<and> ak_expires_at k < t then None else Some (buf 16 (ak_role k), buf 128 (ak_user_id k)))"
  using assms by (simp add: auth_check_role_user_def extract_key_hash_def db_resolve_api_key_full_def)

text \<open>What \<open>key_hash\<close> columns hold: the code only stores hashes of 64 digits.\<close>

definition short_hashes :: "tables \<Rightarrow> bool" where
  "short_hashes t \<longleftrightarrow> (\<forall>k \<in> set (t_api_keys t). length (ak_key_hash k) \<le> 64)"

definition session_key :: "int \<Rightarrow> string \<Rightarrow> string \<Rightarrow> key_row" where
  "session_key now uid hash = \<lparr> ak_key_hash = hash, ak_label = ''auto-login'', ak_role = ''user'', ak_user_id = uid,
     ak_created_at = now, ak_expires_at = now + 86400, ak_revoked = False \<rparr>"

lemma login_session_200:
  assumes "working h" "short_hashes (tabs h)" "login_session env uid h = (Http_Json code body, h')"
  obtains b f where "length b = 32" "\<And>k. ak_key_hash (f k) = ak_key_hash k" "auth_hash_key (bytes_to_hex b) \<notin> ak_key_hash ` set (t_api_keys (tabs h))"
    "body = JObject [(''user_id'', JString uid), (''api_key'', JString (bytes_to_hex b)), (''role'', JString ''user'')]" "working h'"
    "tabs h' = (tabs h)\<lparr>t_api_keys := map f (t_api_keys (tabs h)) @ [session_key (now_of h) uid (auth_hash_key (bytes_to_hex b))]\<rparr>"
proof -
  let ?d = "sy_db (hs_core h)" and ?ks = "t_api_keys (tabs h)"
  obtain previous where prev: "ask (db_find_user_key (now_of h) uid 65) h = (previous, h)"
    "previous = map_option (\<lambda>k. buf 65 (ak_key_hash k))
       (find (\<lambda>k. ak_user_id k = uid \<and> \<not> ak_revoked k \<and> (ak_expires_at k = 0 \<or> ak_expires_at k > now_of h)) ?ks)"
    using ask_read [OF assms(1), of "db_find_user_key (now_of h) uid 65"] by (simp add: db_find_user_key_def)
  obtain key h2 where gen: "ask (generate_api_key_for_user (now_of h) (re_random env) uid ''user'') h = (key, h2)" by force
  have step: "login_session env uid h = (case key of None \<Rightarrow> (Http_Error 500 ''Failed to create login session'', h2)
      | Some (raw_hex, hash) \<Rightarrow>
          let h3 = (case previous of None \<Rightarrow> h2 | Some key_hash \<Rightarrow> tell (db_revoke_api_key key_hash) h2) in
          if \<not> re_alloc_ok env \<or> \<not> re_print_ok env then
            (Http_Error 500 ''Out of memory'', tell (db_revoke_api_key hash) h3)
          else (Http_Json 200 (JObject [(''user_id'', JString uid), (''api_key'', JString raw_hex), (''role'', JString ''user'')]), h3))"
    unfolding login_session_def prev(1) by (simp add: gen)
  obtain b where b: "re_random env = Some b" "length b = 32" "key = Some (bytes_to_hex b, auth_hash_key (bytes_to_hex b))"
    using assms(3) gen unfolding step
    by (auto simp: ask_def generate_api_key_for_user_def Let_def split: option.splits if_splits prod.splits)
  let ?hash = "auth_hash_key (bytes_to_hex b)"
  let ?new = "session_key (now_of h) uid ?hash"
  have fresh: "?hash \<notin> ak_key_hash ` set ?ks"
    and h2: "tabs h2 = (tabs h)\<lparr>t_api_keys := ?ks @ [?new]\<rparr>" "working h2"
    using gen b assms(1)
    by (auto simp: ask_def generate_api_key_for_user_def db_insert_api_key_full_def sql_run_def sql_write_def col_text_def
        session_key_def Let_def split: if_splits prod.splits)
  define f where "f k = (if previous = Some (ak_key_hash k) then k\<lparr>ak_revoked := True\<rparr> else k)" for k :: key_row
  have "previous \<noteq> Some ?hash"
  proof
    assume "previous = Some ?hash"
    then obtain k where k: "k \<in> set ?ks" "buf 65 (ak_key_hash k) = ?hash" using prev(2) by (auto dest: find_SomeD(1))
    then have "ak_key_hash k = ?hash" using assms(2) by (auto simp: short_hashes_def buf_def)
    then show False using k(1) fresh by (metis imageI)
  qed
  then have "f ?new = ?new" by (simp add: f_def session_key_def)
  define h3 where "h3 = (case previous of None \<Rightarrow> h2 | Some key_hash \<Rightarrow> tell (db_revoke_api_key key_hash) h2)"
  have h3: "tabs h3 = (tabs h)\<lparr>t_api_keys := map f ?ks @ [?new]\<rparr>" "working h3"
    using h2 \<open>f ?new = ?new\<close> by (auto simp: h3_def f_def [abs_def] db_revoke_api_key_def update_rows_def split: option.splits)
  have "body = JObject [(''user_id'', JString uid), (''api_key'', JString (bytes_to_hex b)), (''role'', JString ''user'')]" "h' = h3"
    using assms(3) unfolding step b(3) by (auto simp: h3_def Let_def split: if_splits)
  moreover have "ak_key_hash (f k) = ak_key_hash k" for k by (simp add: f_def)
  ultimately show ?thesis using that [OF b(2) _ fresh, of f] h3 by simp
qed

lemma login_session_works:
  assumes "working h" "re_random env = Some b" "length b = 32" "re_alloc_ok env" "re_print_ok env"
    "auth_hash_key (bytes_to_hex b) \<notin> ak_key_hash ` set (t_api_keys (tabs h))"
  shows "\<exists>h'. login_session env uid h =
    (Http_Json 200 (JObject [(''user_id'', JString uid), (''api_key'', JString (bytes_to_hex b)), (''role'', JString ''user'')]), h')"
proof -
  have "ask (db_find_user_key (now_of h) uid 65) h = (fst (ask (db_find_user_key (now_of h) uid 65) h), h)"
    using ask_read [OF assms(1), of "db_find_user_key (now_of h) uid 65"] by (simp add: db_find_user_key_def)
  moreover have "\<exists>h2. ask (generate_api_key_for_user (now_of h) (re_random env) uid ''user'') h = (Some (bytes_to_hex b, auth_hash_key (bytes_to_hex b)), h2)"
    using assms by (simp add: ask_def generate_api_key_for_user_def db_insert_api_key_full_def Let_def)
  ultimately show ?thesis using assms(4,5) unfolding login_session_def by (auto simp: Let_def)
qed

lemma item_text_Some: "item_text x \<noteq> [] \<Longrightarrow> x = Some (JString (item_text x))"
  by (cases x rule: string_value.cases) (auto simp: item_text_def)

lemma auth_login_200:
  assumes "auth_login env rq h = (Http_Json code body, h')"
  obtains req uid pw rl where "af_parse (re_files env) (buf 2048 (rq_body rq)) = Some req"
    "get_item req ''user_id'' = Some (JString uid)" "get_item req ''password'' = Some (JString pw)"
    "safe_cli_name uid" "length pw \<le> 128" "login_verified env (buf 128 uid) (buf 256 pw) (h\<lparr>hs_login_rl := rl\<rparr>) = (Http_Json code body, h')"
proof -
  from assms obtain req rl where r: "af_parse (re_files env) (buf 2048 (rq_body rq)) = Some req"
    "item_text (get_item req ''user_id'') \<noteq> []" "item_text (get_item req ''password'') \<noteq> []"
    "safe_cli_name (item_text (get_item req ''user_id''))" "length (item_text (get_item req ''password'')) \<le> 128"
    "login_verified env (buf 128 (item_text (get_item req ''user_id''))) (buf 256 (item_text (get_item req ''password''))) (h\<lparr>hs_login_rl := rl\<rparr>) = (Http_Json code body, h')"
    unfolding auth_login_def Let_def
    by (cases "login_rate_check (rq_peer rq) (now_of h) (hs_login_rl h)") (auto simp: not_less split: if_splits option.splits)
  show ?thesis using that [OF r(1) item_text_Some [OF r(2)] item_text_Some [OF r(3)] r(4-6)] .
qed

text \<open>Storing a password changes the users only.\<close>

lemma set_password_frame:
  assumes "working h"
  shows "working (tell (db_set_user_password uid hash) h)"
    "t_api_keys (tabs (tell (db_set_user_password uid hash) h)) = t_api_keys (tabs h)"
    "t_jobs (tabs (tell (db_set_user_password uid hash) h)) = t_jobs (tabs h)"
  using assms by (auto simp: db_set_user_password_def sql_run_some_def sql_write_def update_users_def Let_def split: prod.splits)

lemma login_verified_200:
  assumes "working h" "login_verified env uid pw h = (Http_Json code body, h')"
  shows "\<exists>u h2. u \<in> set (t_users (tabs h)) \<and> us_user_id u = uid \<and> us_enabled u \<noteq> 0 \<and>
    auth_verify_password (Some pw) (Some (buf AUTH_PASSWORD_HASH_LEN (us_password_hash u))) \<and>
    working h2 \<and> t_api_keys (tabs h2) = t_api_keys (tabs h) \<and> t_jobs (tabs h2) = t_jobs (tabs h) \<and> now_of h2 = now_of h \<and>
    login_session env uid h2 = (Http_Json code body, h')"
proof -
  have q: "ask (db_get_user_auth uid AUTH_PASSWORD_HASH_LEN) h =
      (map_option (\<lambda>u. (buf AUTH_PASSWORD_HASH_LEN (us_password_hash u), us_enabled u)) (find (\<lambda>u. us_user_id u = uid) (t_users (tabs h))), h)"
    by (rule ask_read [OF assms(1)]) (simp add: db_get_user_auth_def)
  from assms(2) obtain u where u: "find (\<lambda>u. us_user_id u = uid) (t_users (tabs h)) = Some u"
    "auth_verify_password (Some pw) (Some (buf AUTH_PASSWORD_HASH_LEN (us_password_hash u)))" "us_enabled u \<noteq> 0"
    "login_session env uid (if auth_password_needs_rehash (Some (buf AUTH_PASSWORD_HASH_LEN (us_password_hash u))) then
        case auth_hash_password (re_salt env 0) pw of None \<Rightarrow> h | Some up \<Rightarrow> tell (db_set_user_password uid up) h else h) = (Http_Json code body, h')"
    unfolding login_verified_def q by (auto split: option.splits if_splits)
  let ?h2 = "if auth_password_needs_rehash (Some (buf AUTH_PASSWORD_HASH_LEN (us_password_hash u))) then
        case auth_hash_password (re_salt env 0) pw of None \<Rightarrow> h | Some up \<Rightarrow> tell (db_set_user_password uid up) h else h"
  have "working ?h2 \<and> t_api_keys (tabs ?h2) = t_api_keys (tabs h) \<and> t_jobs (tabs ?h2) = t_jobs (tabs h) \<and> now_of ?h2 = now_of h"
    using set_password_frame [OF assms(1)] assms(1) by (auto split: option.splits)
  then show ?thesis using find_SomeD [OF u(1)] u(2-4) by blast
qed

lemma sql_run_some_keys:
  assumes "db_plan d = []" "\<And>t t' n. f t = Some (t', n) \<Longrightarrow> t_api_keys t' = t_api_keys t" "sql_run_some f d = (r, d')"
  shows "t_api_keys (db_tables d') = t_api_keys (db_tables d)" "db_plan d' = []"
  using assms by (auto simp: sql_run_some_def sql_write_def split: option.splits prod.splits if_splits)

lemma account_statements:
  "db_plan d = [] \<Longrightarrow> t_api_keys (db_tables (snd (db_delete_user u d))) = t_api_keys (db_tables d) \<and> db_plan (snd (db_delete_user u d)) = []"
  "db_plan d = [] \<Longrightarrow> t_api_keys (db_tables (snd (db_update_user v d))) = t_api_keys (db_tables d) \<and> db_plan (snd (db_update_user v d)) = []"
  "db_plan d = [] \<Longrightarrow> t_api_keys (db_tables (snd (db_set_user_password u w d))) = t_api_keys (db_tables d) \<and> db_plan (snd (db_set_user_password u w d)) = []"
  unfolding db_delete_user_def db_update_user_def db_set_user_password_def
  by (rule conjI; rule sql_run_some_keys [OF _ _ prod.collapse [symmetric]]; auto simp: update_users_def split: prod.splits)+

definition same_keys :: "http_sys \<Rightarrow> http_sys \<Rightarrow> bool" where
  "same_keys h h' \<longleftrightarrow> t_api_keys (tabs h') = t_api_keys (tabs h) \<and> working h'"

lemma delete_user_keys: "working h \<Longrightarrow> same_keys h (snd (delete_user env rq h))"
  using account_statements(1) by (auto simp: delete_user_def same_keys_def Let_def case_prod_beta split: option.split)

lemma update_user_keys:
  assumes "working h"
  shows "same_keys h (snd (update_user env rq h))"
proof -
  have q: "ask (db_get_user uid) h = (map_option read_user (find (\<lambda>u. us_user_id u = uid) (t_users (tabs h))), h)" for uid
    by (rule ask_read [OF assms]) (simp add: db_get_user_def)
  show ?thesis using assms account_statements(2)
    by (auto simp: update_user_def q same_keys_def Let_def case_prod_beta split: option.split)
qed

lemma change_password_keys:
  assumes "working h"
  shows "same_keys h (snd (auth_change_password env rq user h))"
proof -
  have q: "ask (db_get_user_auth uid n) h = (map_option (\<lambda>u. (buf n (us_password_hash u), us_enabled u))
      (find (\<lambda>u. us_user_id u = uid) (t_users (tabs h))), h)" for uid n
    by (rule ask_read [OF assms]) (simp add: db_get_user_auth_def)
  show ?thesis using assms account_statements(3)
    by (auto simp: auth_change_password_def q same_keys_def Let_def case_prod_beta split: option.split)
qed

section \<open>Claims\<close>



text \<open>
  C20: a login gives a key that works. The answer 200 means that the user exists, is enabled and gave his
  password; the key in the answer then authenticates requests as this user, with the role user, for 24
  hours and not longer. No job is touched.
\<close>

theorem auth_login_roundtrip:
  assumes "working h" "short_hashes (tabs h)" "0 \<le> now_of h" "auth_login env rq h = (Http_Json code body, h')"
  shows "\<exists>req u pw key. af_parse (re_files env) (buf 2048 (rq_body rq)) = Some req \<and> u \<in> set (t_users (tabs h)) \<and>
    get_item req ''user_id'' = Some (JString (us_user_id u)) \<and> get_item req ''password'' = Some (JString pw) \<and>
    us_enabled u \<noteq> 0 \<and> auth_verify_password (Some pw) (Some (buf AUTH_PASSWORD_HASH_LEN (us_password_hash u))) \<and>
    body = JObject [(''user_id'', JString (us_user_id u)), (''api_key'', JString key), (''role'', JString ''user'')] \<and>
    (\<forall>t. fst (auth_check_role_user t (Some key) (sy_db (hs_core h'))) =
       (if t \<le> now_of h + 86400 then Some (''user'', us_user_id u) else None)) \<and>
    t_jobs (tabs h') = t_jobs (tabs h)"
proof -
  obtain req uid pw rl where req: "af_parse (re_files env) (buf 2048 (rq_body rq)) = Some req"
    "get_item req ''user_id'' = Some (JString uid)" "get_item req ''password'' = Some (JString pw)"
    "safe_cli_name uid" "length pw \<le> 128" "login_verified env (buf 128 uid) (buf 256 pw) (h\<lparr>hs_login_rl := rl\<rparr>) = (Http_Json code body, h')"
    by (rule auth_login_200 [OF assms(4)])
  let ?h = "h\<lparr>hs_login_rl := rl\<rparr>"
  have b: "buf 128 uid = uid" "buf 256 pw = pw" using req(4,5) by (simp_all add: safe_cli_name_def buf_def)
  obtain u h2 where u: "u \<in> set (t_users (tabs h))" "us_user_id u = uid" "us_enabled u \<noteq> 0"
    "auth_verify_password (Some pw) (Some (buf AUTH_PASSWORD_HASH_LEN (us_password_hash u)))"
    "working h2" "t_api_keys (tabs h2) = t_api_keys (tabs h)" "t_jobs (tabs h2) = t_jobs (tabs h)" "now_of h2 = now_of h"
    "login_session env uid h2 = (Http_Json code body, h')"
    using login_verified_200 [OF _ req(6) [unfolded b]] assms(1) by auto
  obtain b f where S: "length b = 32" "\<And>k. ak_key_hash (f k) = ak_key_hash k"
    "auth_hash_key (bytes_to_hex b) \<notin> ak_key_hash ` set (t_api_keys (tabs h2))"
    "body = JObject [(''user_id'', JString uid), (''api_key'', JString (bytes_to_hex b)), (''role'', JString ''user'')]" "working h'"
    "tabs h' = (tabs h2)\<lparr>t_api_keys := map f (t_api_keys (tabs h2)) @ [session_key (now_of h2) uid (auth_hash_key (bytes_to_hex b))]\<rparr>"
    using login_session_200 [OF u(5) _ u(9)] assms(2) u(6) by (metis short_hashes_def)
  let ?k = "session_key (now_of h2) uid (sha256_hex (bytes_to_hex b))"
  have "\<forall>k \<in> set (t_api_keys (tabs h2)). ak_key_hash (f k) \<noteq> sha256_hex (bytes_to_hex b)"
    using S(2,3) unfolding auth_hash_key_def by (metis imageI)
  then have "find (\<lambda>k. ak_key_hash k = sha256_hex (bytes_to_hex b) \<and> \<not> ak_revoked k) (t_api_keys (tabs h')) = Some ?k"
    using S(6) by (auto simp: auth_hash_key_def session_key_def intro!: find_last)
  from auth_check_found [OF S(5) _ isxdigit_hex this]
  have "fst (auth_check_role_user t (Some (bytes_to_hex b)) (sy_db (hs_core h'))) =
      (if t \<le> now_of h + 86400 then Some (''user'', uid) else None)" for t
    using S(1) assms(3) u(8) req(4) by (auto simp: session_key_def buf_def safe_cli_name_def)
  then show ?thesis using req(1-3) u(1-4,7) S(4,6) by (intro exI [of _ req] exI [of _ u] exI [of _ pw] exI [of _ "bytes_to_hex b"]) simp
qed

text \<open>An account with a password and a key, and a login.\<close>

definition demo_user :: user_row where
  "demo_user = \<lparr> us_user_id = ''ann'', us_display_name = ''Ann'', us_email = [], us_password_hash = sha256_hex ''secret'',
     us_enabled = 1, us_created_at = 0 \<rparr>"

definition demo_user_key :: key_row where
  "demo_user_key = \<lparr> ak_key_hash = sha256_hex demo_key, ak_label = ''laptop'', ak_role = ''user'', ak_user_id = ''ann'', ak_created_at = 0,
     ak_expires_at = 0, ak_revoked = False \<rparr>"

definition demo_accounts :: "key_row list \<Rightarrow> http_sys" where
  "demo_accounts keys = demo_http\<lparr>hs_core := demo_sched\<lparr>sy_db := opened_db (empty_tables\<lparr>t_users := [demo_user], t_api_keys := keys\<rparr>), sy_now := 9\<rparr>,
     hs_login_rl := login_rl_init\<rparr>"

definition demo_account_env :: "json \<Rightarrow> req_env" where
  "demo_account_env body = demo_http_env\<lparr>re_files := demo_files\<lparr>af_parse := (\<lambda>_. Some body)\<rparr>, re_random := Some (replicate 32 7)\<rparr>"

definition demo_login :: json where
  "demo_login = JObject [(''user_id'', JString ''ann''), (''password'', JString ''secret'')]"

lemma demo_accounts_simps [simp]:
  "tabs (demo_accounts keys) = empty_tables\<lparr>t_users := [demo_user], t_api_keys := keys\<rparr>" "working (demo_accounts keys)"
  "now_of (demo_accounts keys) = 9" "hs_login_rl (demo_accounts keys) = login_rl_init"
  "re_files (demo_account_env body) = demo_files\<lparr>af_parse := (\<lambda>_. Some body)\<rparr>"
  by (simp_all add: demo_accounts_def demo_account_env_def)

lemma hash_prefix: "take n (bytes_to_hex bs) \<noteq> PBKDF2_PREFIX"
  using bytes_to_hex_no_dollar [of bs] in_set_takeD [of "CHR ''$''" n "bytes_to_hex bs"] by (force simp: PBKDF2_PREFIX_def)

lemma demo_login_verifies: "auth_verify_password (Some ''secret'') (Some (buf AUTH_PASSWORD_HASH_LEN (us_password_hash demo_user)))"
proof -
  have "buf AUTH_PASSWORD_HASH_LEN (sha256_hex ''secret'') = sha256_hex ''secret''"
    by (simp add: AUTH_PASSWORD_HASH_LEN_def buf_def sha256_hex_def sha256_ref)
  then show ?thesis using bytes_to_hex_no_dollar hash_prefix
    by (simp add: auth_verify_password_def demo_user_def sha256_hex_def ct_compare_eq)
qed

lemma demo_login_ok: "\<exists>body h'. auth_login (demo_account_env demo_login) demo_request (demo_accounts []) = (Http_Json 200 body, h')"
proof -
  let ?h = "demo_accounts []" and ?env = "demo_account_env demo_login"
  obtain rl where rl: "login_rate_check (rq_peer demo_request) 9 login_rl_init = (True, rl)"
    using login_rate_new [of "rq_peer demo_request" "[]" 9 "\<lambda>_. 0" "\<lambda>_. 0" 63]
    by (simp add: rl_table_def login_rl_init_def LOGIN_RL_SLOTS_def demo_request_def)
  let ?h1 = "?h\<lparr>hs_login_rl := rl\<rparr>"
  have "\<exists>body h'. login_session ?env ''ann'' ?h1 = (Http_Json 200 body, h')"
    using login_session_works [of ?h1 ?env "replicate 32 7" "''ann''"] by (auto simp: demo_account_env_def demo_http_env_def)
  moreover have "login_verified ?env ''ann'' ''secret'' ?h1 = login_session ?env ''ann'' ?h1"
    using demo_login_verifies
    by (simp add: login_verified_def ask_def db_get_user_auth_def demo_user_def auth_hash_password_def demo_account_env_def demo_http_env_def)
  ultimately show ?thesis
    by (simp add: auth_login_def rl demo_login_def item_text_def safe_cli_name_def buf_def is_alnum_def Let_def)
qed

theorem auth_login_roundtrip_witness:
  "\<exists>key h'. auth_login (demo_account_env demo_login) demo_request (demo_accounts []) =
       (Http_Json 200 (JObject [(''user_id'', JString ''ann''), (''api_key'', JString key), (''role'', JString ''user'')]), h') \<and>
     fst (auth_check_role_user 86409 (Some key) (sy_db (hs_core h'))) = Some (''user'', ''ann'') \<and>
     fst (auth_check_role_user 86410 (Some key) (sy_db (hs_core h'))) = None"
proof -
  obtain body h' where run: "auth_login (demo_account_env demo_login) demo_request (demo_accounts []) = (Http_Json 200 body, h')"
    using demo_login_ok by blast
  have s: "short_hashes (tabs (demo_accounts []))" by (simp add: short_hashes_def)
  from auth_login_roundtrip [OF _ s _ run] show ?thesis using run by (auto simp: demo_user_def)
qed

text \<open>
  C24: the account of a user can be changed or deleted, but his keys stay: whatever delete_user, update_user
  and auth_change_password answer, every key is accepted, with the same role and user, as before.
\<close>

theorem keys_survive_account:
  assumes "working h" "delete_user env rq h = (reply, h') \<or> update_user env rq h = (reply, h') \<or> auth_change_password env rq user h = (reply, h')"
  shows "fst (auth_check_role_user t hdr (sy_db (hs_core h'))) = fst (auth_check_role_user t hdr (sy_db (hs_core h)))"
proof -
  have "same_keys h h'"
    using assms delete_user_keys update_user_keys change_password_keys by (metis snd_conv)
  then show ?thesis using assms(1)
    by (simp add: same_keys_def auth_check_role_user_def db_resolve_api_key_full_def split: option.splits)
qed

theorem keys_survive_account_witness:
  "let h = demo_accounts [demo_user_key]; env = demo_account_env (JObject [(''user_id'', JString ''ann'')]);
       (reply, h') = delete_user env demo_request h in
   reply = reply_ok \<and> t_users (tabs h') = [] \<and> fst (auth_check_role_user 100 (Some demo_key) (sy_db (hs_core h'))) = Some (''user'', ''ann'')"
proof -
  let ?h = "demo_accounts [demo_user_key]" and ?env = "demo_account_env (JObject [(''user_id'', JString ''ann'')])"
  obtain reply h' where run: "delete_user ?env demo_request ?h = (reply, h')" by force
  have "reply = reply_ok \<and> t_users (tabs h') = []"
    using run by (auto simp: delete_user_def ask_def item_text_def db_delete_user_def sql_run_some_def sql_write_def demo_user_def buf_def
        split: prod.splits)
  moreover have "fst (auth_check_role_user 100 (Some demo_key) (sy_db (hs_core ?h))) = Some (''user'', ''ann'')"
    by (subst auth_check_found [where k = demo_user_key])
      (simp_all add: demo_user_key_def demo_key_def isxdigit_def list_all_iff less_eq_char_def)
  ultimately show ?thesis using keys_survive_account [of ?h ?env demo_request reply h' "[]" 100 "Some demo_key"] run by simp
qed

end
