(* ===== verification/Workflows.thy ===== *)
theory Workflows
  imports Batches
begin

text \<open>
  Workflows, from \<open>src/http/routes.c\<close>: the saved templates with their owners and favorites, and the
  submission of many jobs that depend on one another in one transaction.
\<close>

section \<open>Model\<close>

abbreviation reply_done :: reply where
  "reply_done \<equiv> Http_Json 200 (JObject [(''ok'', JBool True)])"

subsection \<open>Saved workflows\<close>

text \<open>The argument is the buffer \<open>raw\<close>, filled from the random source or left as it was.\<close>

definition gen_wf_id :: "8 word list \<Rightarrow> nat \<Rightarrow> string" where
  "gen_wf_id raw len = buf len (concat (map hex2 (take 16 raw)))"

definition workflow_to_json :: "req_env \<Rightarrow> workflow_row \<Rightarrow> bool \<Rightarrow> json" where
  "workflow_to_json env w fav = JObject
     [(''id'', JString (wf_id w)), (''name'', JString (wf_name w)), (''owner_id'', JString (wf_owner_id w)),
      (''is_global'', JBool (wf_is_global w \<noteq> 0)),
      (''steps'', case af_parse (re_files env) (wf_steps_json w) of Some steps \<Rightarrow> steps | None \<Rightarrow> JArray []),
      (''created_at'', jnum (wf_created_at w)), (''updated_at'', jnum (wf_updated_at w)), (''is_favorite'', JBool fav)]"

fun workflow_items :: "req_env \<Rightarrow> string \<Rightarrow> workflow_row list \<Rightarrow> http_sys \<Rightarrow> json list \<times> http_sys" where
  "workflow_items env user [] h = ([], h)"
| "workflow_items env user (w # ws) h =
     (let (fav, h1) = ask (db_is_workflow_favorite user (wf_id w)) h; (rest, h2) = workflow_items env user ws h1
      in (workflow_to_json env w fav # rest, h2))"

definition list_saved_workflows :: "req_env \<Rightarrow> string \<Rightarrow> string \<Rightarrow> http_sys \<Rightarrow> reply \<times> http_sys" where
  "list_saved_workflows env user role h =
     (if \<not> re_alloc_ok env then (Http_Error 500 ''Out of memory'', h)
      else let (ws, h1) = ask (db_list_workflows (Some (if is_admin role then [] else user)) 128) h;
               (items, h2) = workflow_items env user ws h1
           in (Http_Json 200 (JArray items), h2))"

text \<open>\<open>steps\<close> is the printed array.\<close>

definition update_saved :: "string \<Rightarrow> string \<Rightarrow> string \<Rightarrow> string \<Rightarrow> int \<Rightarrow> string \<Rightarrow> http_sys \<Rightarrow> reply \<times> http_sys" where
  "update_saved i user role name is_global steps h =
     (case ask (db_get_workflow i) h of
        (None, h1) \<Rightarrow> (Http_Error 404 ''Workflow not found'', h1)
      | (Some w, h1) \<Rightarrow>
          if wf_owner_id w \<noteq> user \<and> \<not> is_admin role then
            (Http_Error 403 (''Cannot edit another user'' @ [CHR 0x27] @ ''s workflow''), h1)
          else (reply_done, tell (db_update_workflow (w\<lparr>wf_name := buf 256 name, wf_is_global := is_global,
                              wf_steps_json := buf 16384 steps, wf_updated_at := now_of h1\<rparr>)) h1))"

definition create_saved :: "req_env \<Rightarrow> string \<Rightarrow> string \<Rightarrow> int \<Rightarrow> string \<Rightarrow> http_sys \<Rightarrow> reply \<times> http_sys" where
  "create_saved env user name is_global steps h =
     (let w = \<lparr> wf_id = gen_wf_id (re_wf_raw env) 64, wf_name = buf 256 name, wf_owner_id = buf 128 user, wf_is_global = is_global,
                wf_steps_json = buf 16384 steps, wf_created_at = now_of h, wf_updated_at = now_of h \<rparr>;
          (rc, h1) = ask (db_insert_workflow w) h
      in (if rc \<noteq> 0 then Http_Error 500 ''Failed to save workflow''
          else Http_Json 201 (JObject [(''id'', JString (wf_id w)), (''name'', JString (wf_name w)), (''ok'', JBool True)]), h1))"

text \<open>\<open>None\<close>: the printer has no memory, and the code copies from a null pointer.\<close>

definition save_workflow :: "req_env \<Rightarrow> request \<Rightarrow> string \<Rightarrow> string \<Rightarrow> http_sys \<Rightarrow> (reply \<times> http_sys) option" where
  "save_workflow env rq user role h =
     (case af_parse (re_files env) (buf 32768 (rq_body rq)) of
        None \<Rightarrow> Some (Http_Error 400 ''Invalid JSON'', h)
      | Some req \<Rightarrow>
          let name = item_text (get_item req ''name''); steps = array_members (get_item req ''steps'');
              want_global = (if get_item req ''is_global'' = Some (JBool True) then 1 else 0 :: int);
              i = item_text (get_item req ''id'') in
          if name = [] then Some (Http_Error 400 (''Missing '' @ sq ''name''), h)
          else if steps = [] then Some (Http_Error 400 (''Missing or empty '' @ sq ''steps'' @ '' array''), h)
          else if want_global \<noteq> 0 \<and> \<not> is_admin role then Some (Http_Error 403 ''Only admins can create global workflows'', h)
          else map_option (\<lambda>s. if i \<noteq> [] then update_saved i user role name want_global s h
                               else create_saved env user name want_global s h) (af_print (re_files env) (JArray steps)))"

definition delete_saved_workflow :: "string \<Rightarrow> string \<Rightarrow> string \<Rightarrow> http_sys \<Rightarrow> reply \<times> http_sys" where
  "delete_saved_workflow i user role h =
     (case ask (db_get_workflow i) h of
        (None, h1) \<Rightarrow> (Http_Error 404 ''Workflow not found'', h1)
      | (Some w, h1) \<Rightarrow>
          if wf_owner_id w \<noteq> user \<and> \<not> is_admin role then
            (Http_Error 403 (''Cannot delete another user'' @ [CHR 0x27] @ ''s workflow''), h1)
          else (reply_done, tell (db_delete_workflow i) h1))"

definition toggle_workflow_favorite :: "string \<Rightarrow> string \<Rightarrow> http_sys \<Rightarrow> reply \<times> http_sys" where
  "toggle_workflow_favorite i user h =
     (case ask (db_get_workflow i) h of
        (None, h1) \<Rightarrow> (Http_Error 404 ''Workflow not found'', h1)
      | (Some _, h1) \<Rightarrow>
          let (fav, h2) = ask (db_is_workflow_favorite user i) h1 in
          if fav then (Http_Json 200 (JObject [(''is_favorite'', JBool False)]), tell (db_remove_workflow_favorite user i) h2)
          else (Http_Json 200 (JObject [(''is_favorite'', JBool True)]), tell (db_add_workflow_favorite user i) h2))"

subsection \<open>Submission\<close>

definition MAX_WORKFLOW_STEPS :: nat where "MAX_WORKFLOW_STEPS = 64"

definition append_csv_value :: "nat \<Rightarrow> string \<Rightarrow> string \<Rightarrow> string option" where
  "append_csv_value capacity buffer v =
     (if length buffer + (if buffer \<noteq> [] then 1 else 0) + length v + 1 > capacity then None
      else Some (buffer @ (if buffer \<noteq> [] then '','' else []) @ v))"

definition workflow_discard_jobs :: "job list \<Rightarrow> http_sys \<Rightarrow> http_sys" where
  "workflow_discard_jobs jobs h = fold (\<lambda>j. disk (Cleanup_Job (j_id j))) jobs h"

definition step_error :: "nat \<Rightarrow> string \<Rightarrow> string" where
  "step_error idx msg = buf 320 (''Step '' @ dec_nat idx @ '': '' @ msg)"

text \<open>The command of a step, as \<open>submit_source\<close> for a single job; an empty command counts as none.\<close>

definition step_app :: "app_files \<Rightarrow> nat \<Rightarrow> string \<Rightarrow> json \<Rightarrow> (string + string \<times> string option \<times> app_resources option) option" where
  "step_app af idx app_id step =
     (case resolve_app_command af app_id (get_item step ''parameters'') JOB_CMD_LEN of
        None \<Rightarrow> None
      | Some (Inl e) \<Rightarrow> Some (Inl (step_error idx (buf 256 e)))
      | Some (Inr (cmd, env_json, res)) \<Rightarrow> Some (Inr (cmd, env_json, Some res)))"

definition step_source :: "app_files \<Rightarrow> config \<Rightarrow> nat \<Rightarrow> json \<Rightarrow> (string + string \<times> string option \<times> app_resources option) option" where
  "step_source af cfg idx step =
     (let cmd = item_text (get_item step ''command''); app_id = item_text (get_item step ''app_id'') in
      if cf_command_mode cfg = ''app_only'' then
        (if string_value (get_item step ''command'') \<noteq> None then
           Some (Inl (step_error idx (''raw '' @ sq ''command'' @ '' not allowed in app_only mode'')))
         else if app_id = [] then Some (Inl (step_error idx (''missing '' @ sq ''app_id'' @ '' (required in app_only mode)'')))
         else step_app af idx app_id step)
      else if cmd \<noteq> [] then Some (Inr (buf JOB_CMD_LEN cmd, None, None))
      else if app_id \<noteq> [] then step_app af idx app_id step
      else Some (Inl (step_error idx (''missing '' @ sq ''command'' @ '' or '' @ sq ''app_id''))))"

text \<open>The identifiers of earlier steps, by index; \<open>ids\<close> are those of the jobs created so far.\<close>

fun step_deps :: "req_env \<Rightarrow> nat \<Rightarrow> string list \<Rightarrow> json list \<Rightarrow> string \<Rightarrow> string + string" where
  "step_deps env idx ids [] acc = Inr acc"
| "step_deps env idx ids (d # ds) acc =
     (case d of
        JNumber v \<Rightarrow>
          let dep_idx = c_int env v in
          if dep_idx < 0 \<or> dep_idx \<ge> int (length ids) \<or> v \<noteq> Finite (of_int dep_idx) then
            Inl (step_error idx (''depends_on_steps references invalid step '' @ dec dep_idx))
          else (case append_csv_value 2048 acc (ids ! nat dep_idx) of
                  None \<Rightarrow> Inl (step_error idx ''dependency list is too long'')
                | Some acc' \<Rightarrow> step_deps env idx ids ds acc')
      | _ \<Rightarrow> Inl (step_error idx ''dependency indices must be numbers''))"

definition step_dep_list :: "req_env \<Rightarrow> nat \<Rightarrow> string list \<Rightarrow> json \<Rightarrow> string + string" where
  "step_dep_list env idx ids step =
     (case get_item step ''depends_on_steps'' of
        None \<Rightarrow> Inr []
      | Some (JArray ds) \<Rightarrow> step_deps env idx ids ds []
      | Some _ \<Rightarrow> Inl (step_error idx (sq ''depends_on_steps'' @ '' must be an array'')))"

fun external_deps :: "nat \<Rightarrow> string \<Rightarrow> string \<Rightarrow> json list \<Rightarrow> string \<Rightarrow> http_sys \<Rightarrow> (string + string) \<times> http_sys" where
  "external_deps idx user role [] acc h = (Inr acc, h)"
| "external_deps idx user role (d # ds) acc h =
     (case d of
        JString (c # cs) \<Rightarrow>
          let (j, h1) = ask (db_get_job (c # cs)) h in
          if \<not> may_depend user role j then (Inl (step_error idx (''dependency job not found: '' @ c # cs)), h1)
          else (case append_csv_value 2048 acc (c # cs) of
                  None \<Rightarrow> (Inl (step_error idx ''dependency list is too long''), h1)
                | Some acc' \<Rightarrow> external_deps idx user role ds acc' h1)
      | _ \<Rightarrow> (Inl (step_error idx ''dependency IDs must be non-empty strings''), h))"

definition external_dep_list :: "nat \<Rightarrow> string \<Rightarrow> string \<Rightarrow> json \<Rightarrow> string \<Rightarrow> http_sys \<Rightarrow> (string + string) \<times> http_sys" where
  "external_dep_list idx user role step acc h =
     (case get_item step ''depends_on'' of
        None \<Rightarrow> (Inr acc, h)
      | Some (JArray ds) \<Rightarrow> external_deps idx user role ds acc h
      | Some _ \<Rightarrow> (Inl (step_error idx (sq ''depends_on'' @ '' must be an array'')), h))"

fun step_files :: "nat \<Rightarrow> json list \<Rightarrow> string \<Rightarrow> string + string" where
  "step_files idx [] acc = Inr acc"
| "step_files idx (f # fs) acc =
     (let bad = Inl (step_error idx ''invalid or oversized input file list'') in
      case f of
        JString name \<Rightarrow>
          if name = [] \<or> \<not> transfer_valid_filename name then bad
          else (case append_csv_value 2048 acc name of None \<Rightarrow> bad | Some acc' \<Rightarrow> step_files idx fs acc')
      | _ \<Rightarrow> bad)"

definition step_file_list :: "nat \<Rightarrow> json \<Rightarrow> string + string" where
  "step_file_list idx step =
     (case get_item step ''input_files'' of
        None \<Rightarrow> Inr []
      | Some (JArray fs) \<Rightarrow> step_files idx fs []
      | Some _ \<Rightarrow> Inl (step_error idx (sq ''input_files'' @ '' must be an array'')))"

definition step_create :: "req_env \<Rightarrow> nat \<Rightarrow> string \<Rightarrow> json \<Rightarrow> string \<Rightarrow> app_resources option \<Rightarrow> http_sys \<Rightarrow> job option \<times> http_sys" where
  "step_create env idx user step cmd res h =
     (let want = (\<lambda>f a b dflt lo hi. case res of Some r \<Rightarrow> f r | None \<Rightarrow> clamp_item (first_item step a b) dflt lo hi);
          (job, core) = job_create_ex (fst (re_child env idx)) (snd (re_child env idx))
            (cf_work_dir (xe_config (re_exec env))) cmd (clamp_item (get_item step ''priority'') 50 0 100)
            (want ap_req_cores ''req_cores'' ''cores'' 1 1 10000) (want ap_req_gpu ''req_gpu'' ''gpu'' 0 0 1000)
            (want ap_req_ram_mb ''req_ram_mb'' ''ram_mb'' 0 0 10000000)
            (want ap_req_disk_mb ''req_disk_mb'' ''disk_mb'' 0 0 10000000)
            (Some user) (Some (item_text (get_item step ''app_id''))) (hs_core h)
      in (job, h\<lparr>hs_core := core\<rparr>))"

definition step_reason :: "string \<Rightarrow> string \<Rightarrow> string" where
  "step_reason deps files = buf 256
     (if deps \<noteq> [] \<and> files \<noteq> [] then ''Waiting for dependencies and input files''
      else if deps \<noteq> [] then ''Waiting for dependencies: '' @ take 210 deps
      else ''Waiting for input files: '' @ take 220 files)"

definition step_details :: "string \<Rightarrow> string \<Rightarrow> string \<Rightarrow> json \<Rightarrow> job \<Rightarrow> job" where
  "step_details wfid deps files step job =
     (let job1 = job\<lparr>j_workflow_id := buf 64 wfid, j_depends_on := buf 2048 deps, j_input_files := buf 2048 files,
            j_timeout_seconds := clamp_item (get_item step ''timeout_seconds'') 0 0 604800\<rparr>;
          job2 = (if get_item step ''same_machine'' = Some (JBool True) \<and> deps \<noteq> []
                  then job1\<lparr>j_same_machine_as := buf JOB_ID_LEN (takeWhile (\<lambda>c. c \<noteq> CHR '','') deps)\<rparr> else job1)
      in if deps \<noteq> [] \<or> files \<noteq> [] then job2\<lparr>j_status := JOB_STATUS_CREATED, j_status_reason := step_reason deps files\<rparr> else job2)"

text \<open>
  The rest of a step once its job exists: directories and environment file, then the row. The result is
  the code and message of the error, if there is one; \<open>store_init_job_dirs\<close> never reports a failure.
\<close>

definition step_env :: "req_env \<Rightarrow> nat \<Rightarrow> string option \<Rightarrow> job \<Rightarrow> http_sys \<Rightarrow> bool \<times> http_sys" where
  "step_env env idx env_json job h =
     (let h1 = (if env_json \<noteq> None \<or> j_status job = JOB_STATUS_CREATED then disk (Init_Dirs (j_id job)) h else h) in
      case env_json of
        None \<Rightarrow> (True, h1)
      | Some content \<Rightarrow>
          if re_write_ok env idx then (True, disk (Write_File (buf 768 (j_input_dir job @ ''/.app_env.json'')) content) h1)
          else (False, h1))"

definition step_store :: "req_env \<Rightarrow> nat \<Rightarrow> string option \<Rightarrow> job \<Rightarrow> http_sys \<Rightarrow> (int \<times> string) option \<times> http_sys" where
  "step_store env idx env_json job h =
     (let (ok, h1) = step_env env idx env_json job h in
      if \<not> ok then (Some (500, ''Failed to store workflow application environment''), h1)
      else let (rc, h2) = ask (db_update_job_submission job) h1
           in (if rc \<noteq> 0 then Some (500, ''Failed to persist workflow job details'') else None, h2))"

text \<open>
  One step after its command is known: the error with the job if one was created, or the job.
\<close>

definition step_job ::
  "req_env \<Rightarrow> string \<Rightarrow> string \<Rightarrow> string \<Rightarrow> nat \<Rightarrow> string list \<Rightarrow> json \<Rightarrow> string \<Rightarrow> string option \<Rightarrow> app_resources option \<Rightarrow>
   http_sys \<Rightarrow> (int \<times> string \<times> job option + job) \<times> http_sys" where
  "step_job env wfid user role idx ids step cmd env_json res h =
     (case step_dep_list env idx ids step of Inl e \<Rightarrow> (Inl (400, e, None), h) | Inr deps0 \<Rightarrow>
      case external_dep_list idx user role step deps0 h of (Inl e, h1) \<Rightarrow> (Inl (400, e, None), h1) | (Inr deps, h1) \<Rightarrow>
      case step_file_list idx step of Inl e \<Rightarrow> (Inl (400, e, None), h1) | Inr files \<Rightarrow>
      case step_create env idx user step cmd res h1 of
        (None, h2) \<Rightarrow> (Inl (500, ''Failed to create workflow job'', None), h2)
      | (Some job0, h2) \<Rightarrow>
          let job = step_details wfid deps files step job0 in
          case step_store env idx env_json job h2 of
            (Some (code, msg), h3) \<Rightarrow> (Inl (code, msg, Some job), h3)
          | (None, h3) \<Rightarrow> (Inr job, h3))"

definition workflow_step ::
  "req_env \<Rightarrow> string \<Rightarrow> string \<Rightarrow> string \<Rightarrow> nat \<Rightarrow> string list \<Rightarrow> json \<Rightarrow> http_sys \<Rightarrow> ((int \<times> string \<times> job option + job) \<times> http_sys) option" where
  "workflow_step env wfid user role idx ids step h =
     (if \<not> is_object (Some step) then Some (Inl (400, ''Each step must be a JSON object'', None), h)
      else case step_source (re_files env) (xe_config (re_exec env)) idx step of
        None \<Rightarrow> None
      | Some (Inl e) \<Rightarrow> Some (Inl (400, e, None), h)
      | Some (Inr (cmd, env_json, res)) \<Rightarrow> Some (step_job env wfid user role idx ids step cmd env_json res h))"

text \<open>The loop: the error if there is one, the jobs created so far, the state.\<close>

fun workflow_steps ::
  "req_env \<Rightarrow> string \<Rightarrow> string \<Rightarrow> string \<Rightarrow> json list \<Rightarrow> job list \<Rightarrow> http_sys \<Rightarrow> ((int \<times> string) option \<times> job list \<times> http_sys) option" where
  "workflow_steps env wfid user role [] jobs h = Some (None, jobs, h)"
| "workflow_steps env wfid user role (step # steps) jobs h =
     (case workflow_step env wfid user role (length jobs) (map j_id jobs) step h of
        None \<Rightarrow> None
      | Some (Inl (code, msg, jo), h1) \<Rightarrow> Some (Some (code, msg), jobs @ (case jo of None \<Rightarrow> [] | Some j \<Rightarrow> [j]), h1)
      | Some (Inr job, h1) \<Rightarrow> workflow_steps env wfid user role steps (jobs @ [job]) h1)"

text \<open>The jobs that wait for nothing are pushed; a job the queue refuses fails. The result are the jobs as answered.\<close>

fun workflow_push :: "req_env \<Rightarrow> nat \<Rightarrow> job list \<Rightarrow> http_sys \<Rightarrow> job list \<times> http_sys" where
  "workflow_push env i [] h = ([], h)"
| "workflow_push env i (job # jobs) h =
     (let (job', h1) =
            (if j_status job = JOB_STATUS_CREATED then (job, h)
             else let (r, q) = queue_push (re_push_ok env i) (sy_queue (hs_core h)) (Some job);
                      h0 = on_core (\<lambda>s. s\<lparr>sy_queue := q\<rparr>) h in
                  if r \<noteq> 0 then
                    let (_, failed, core) = job_set_status_r (xe_print (re_exec env)) job JOB_STATUS_FAILED
                                              (Some ''Scheduler queue unavailable'') (hs_core h0)
                    in (failed, h0\<lparr>hs_core := core\<rparr>)
                  else (job, h0));
          (rest, h2) = workflow_push env (Suc i) jobs h1
      in (job' # rest, h2))"

definition workflow_answer :: "req_env \<Rightarrow> json \<Rightarrow> string \<Rightarrow> job list \<Rightarrow> reply" where
  "workflow_answer env req wfid jobs =
     (if \<not> re_alloc_ok env then Http_Error 500 ''Out of memory while building workflow response''
      else if \<not> re_print_ok env then Http_Error 500 ''Out of memory while serializing workflow response''
      else Http_Json 201 (JObject ([(''jobs'', JArray (map job_to_json jobs))] @
             (case string_value (get_item req ''name'') of Some n \<Rightarrow> [(''name'', JString n)] | None \<Rightarrow> []) @
             [(''workflow_id'', JString wfid)])))"

definition workflow_run :: "req_env \<Rightarrow> string \<Rightarrow> string \<Rightarrow> json \<Rightarrow> json list \<Rightarrow> http_sys \<Rightarrow> (reply \<times> http_sys) option" where
  "workflow_run env user role req steps h =
     (let wfid = gen_wf_id (re_wf_raw env) 64; (r, h1) = ask db_begin h in
      if r \<noteq> 0 then Some (Http_Error 503 ''Database is busy'', h1)
      else case workflow_steps env wfid user role steps [] h1 of
        None \<Rightarrow> None
      | Some (Some (code, msg), jobs, h2) \<Rightarrow> Some (Http_Error code msg, workflow_discard_jobs jobs (tell db_rollback h2))
      | Some (None, jobs, h2) \<Rightarrow>
          let (r, h3) = ask db_commit h2 in
          if r \<noteq> 0 then Some (Http_Error 500 ''Failed to commit workflow'', workflow_discard_jobs jobs h3)
          else let (answered, h4) = workflow_push env 0 jobs h3 in Some (workflow_answer env req wfid answered, h4))"

definition submit_workflow :: "req_env \<Rightarrow> request \<Rightarrow> string \<Rightarrow> string \<Rightarrow> http_sys \<Rightarrow> (reply \<times> http_sys) option" where
  "submit_workflow env rq user role h =
     (if \<not> hs_accepting_jobs h then Some (Http_Error 503 ''Scheduler is draining and not accepting new jobs'', h)
      else case af_parse (re_files env) (buf 32768 (rq_body rq)) of
        None \<Rightarrow> Some (Http_Error 400 ''Invalid JSON'', h)
      | Some req \<Rightarrow>
          (case get_item req ''steps'' of
             Some (JArray steps) \<Rightarrow>
               if length steps < 1 \<or> length steps > MAX_WORKFLOW_STEPS then
                 Some (Http_Error 400 (sq ''steps'' @ '' must have 1-'' @ dec_nat MAX_WORKFLOW_STEPS @ '' entries''), h)
               else if \<not> re_calloc_ok env then Some (Http_Error 500 ''Out of memory'', h)
               else workflow_run env user role req steps h
           | _ \<Rightarrow> Some (Http_Error 400 (''Missing '' @ sq ''steps'' @ '' array''), h)))"

section \<open>Laws\<close>

subsection \<open>Comma-separated lists\<close>

fun csv :: "string list \<Rightarrow> string" where
  "csv [] = []"
| "csv [x] = x"
| "csv (x # y # zs) = x @ '','' @ csv (y # zs)"

lemma csv_snoc: "csv (xs @ [v]) = csv xs @ (if xs \<noteq> [] then '','' else []) @ v"
  by (induction xs rule: csv.induct) simp_all

lemma csv_empty: "[] \<notin> set xs \<Longrightarrow> csv xs = [] \<longleftrightarrow> xs = []"
  by (induction xs rule: csv.induct) auto

text \<open>A list of names none of which is empty, as text that fits its buffer.\<close>

definition csv_of :: "string \<Rightarrow> string list \<Rightarrow> bool" where
  "csv_of acc xs \<longleftrightarrow> acc = csv xs \<and> [] \<notin> set xs \<and> length acc < 2048"

lemma csv_of_append:
  "csv_of acc xs \<Longrightarrow> v \<noteq> [] \<Longrightarrow> append_csv_value 2048 acc v = Some acc' \<Longrightarrow> csv_of acc' (xs @ [v])"
  using csv_empty [of xs] by (auto simp: csv_of_def append_csv_value_def csv_snoc split: if_splits)

lemma step_deps_csv:
  "step_deps env idx ids ds acc = Inr acc' \<Longrightarrow> csv_of acc xs \<Longrightarrow> [] \<notin> set ids \<Longrightarrow>
   \<exists>ys. csv_of acc' (xs @ ys) \<and> set ys \<subseteq> set ids"
proof (induction ds arbitrary: acc xs)
  case Nil
  then show ?case by (intro exI [of _ "[]"]) simp
next
  case (Cons d ds)
  obtain v where d: "d = JNumber v" using Cons.prems(1) by (cases d) auto
  define k where "k = c_int env v"
  obtain acc1 where a: "0 \<le> k" "k < int (length ids)" "append_csv_value 2048 acc (ids ! nat k) = Some acc1"
    "step_deps env idx ids ds acc1 = Inr acc'"
    using Cons.prems(1) by (auto simp: d Let_def k_def split: if_splits option.splits)
  have m: "ids ! nat k \<in> set ids" using a(1,2) by simp
  then have "ids ! nat k \<noteq> []" using Cons.prems(3) by metis
  from Cons.IH [OF a(4) csv_of_append [OF Cons.prems(2) this a(3)] Cons.prems(3)] m
  show ?case by (metis append.assoc append_Cons append_Nil insert_subset list.simps(15))
qed

subsection \<open>Steps inside the transaction\<close>

lemma db_get_job_owner:
  assumes "db_get_job i d = (Some job, d')"
  shows "\<exists>row \<in> set (t_jobs (db_tables d)). r_id row = i \<and> j_user_id job = buf JOB_USER_LEN (r_user_id row)"
proof -
  have "\<exists>row. find (\<lambda>r. r_id r = i) (t_jobs (db_tables d)) = Some row \<and> job = row_to_job True row"
    using assms by (auto simp: db_get_job_def sql_read_def sql_next_def split: list.splits sql_outcome.splits prod.splits)
  then show ?thesis by (auto simp: find_Some_iff row_to_job_def)
qed

lemma db_get_job_tables: "db_get_job i d = (r, d') \<Longrightarrow> db_tables d' = db_tables d"
  by (auto simp: db_get_job_def dest: arg_cong [of _ _ "\<lambda>x. db_tables (snd x)"])

text \<open>The state after some steps of the transaction: still in it, the queue untouched.\<close>

definition in_step :: "tables \<Rightarrow> http_sys \<Rightarrow> http_sys \<Rightarrow> bool" where
  "in_step t h h' \<longleftrightarrow> in_txn t (sy_db (hs_core h')) \<and> queue_of h' = queue_of h"

lemma in_step_read:
  assumes "in_txn t (sy_db (hs_core h))" "ask (db_get_job i) h = (j, h')"
  shows "in_step t h h'" "tabs h' = tabs h"
  using assms sql_read_cases [of _ None None "sy_db (hs_core h)"]
  by (fastforce simp: ask_def db_get_job_def in_step_def in_txn_def split: prod.splits)+

text \<open>A job the user may depend on, by the table.\<close>

definition known_job :: "tables \<Rightarrow> string \<Rightarrow> string \<Rightarrow> string \<Rightarrow> bool" where
  "known_job t user role d \<longleftrightarrow> (\<exists>row \<in> set (t_jobs t). r_id row = d \<and>
     (is_admin role \<or> user \<noteq> [] \<and> buf JOB_USER_LEN (r_user_id row) = user))"

lemma may_depend_known:
  assumes "ask (db_get_job i) h = (j, h')" "may_depend user role j"
  shows "known_job (tabs h) user role i"
  using assms by (auto simp: may_depend_def ask_def known_job_def split: option.splits prod.splits dest!: db_get_job_owner)

lemma external_deps_csv:
  assumes "external_deps idx user role ds acc h = (r, h')" "in_txn t (sy_db (hs_core h))" "csv_of acc xs"
  shows "in_step t h h' \<and> tabs h' = tabs h \<and>
    (\<forall>acc'. r = Inr acc' \<longrightarrow> (\<exists>ys. csv_of acc' (xs @ ys) \<and> (\<forall>d \<in> set ys. known_job (tabs h) user role d)))"
  using assms
proof (induction ds arbitrary: acc xs h)
  case Nil
  then show ?case by (auto simp: in_step_def intro: exI [of _ "[]"])
next
  case (Cons d ds)
  show ?case
  proof (cases "\<exists>c cs. d = JString (c # cs)")
    case False
    then show ?thesis using Cons.prems by (cases d) (auto simp: in_step_def split: list.splits)
  next
    case True
    then obtain c cs where d: "d = JString (c # cs)" by blast
    obtain j h1 where q: "ask (db_get_job (c # cs)) h = (j, h1)" by force
    note R = in_step_read [OF Cons.prems(2) q]
    show ?thesis
    proof (cases "may_depend user role j \<and> append_csv_value 2048 acc (c # cs) \<noteq> None")
      case False
      then show ?thesis using Cons.prems q R by (auto simp: d split: if_splits option.splits)
    next
      case True
      then obtain acc1 where a: "append_csv_value 2048 acc (c # cs) = Some acc1" by blast
      have k: "known_job (tabs h) user role (c # cs)" using may_depend_known [OF q] True by blast
      have "external_deps idx user role ds acc1 h1 = (r, h')" using Cons.prems(1) True a q by (simp add: d)
      note I = Cons.IH [OF this _ csv_of_append [OF Cons.prems(3) _ a]]
      have "in_txn t (sy_db (hs_core h1))" using R by (simp add: in_step_def)
      with I R have "in_step t h h' \<and> tabs h' = tabs h \<and>
        (\<forall>acc'. r = Inr acc' \<longrightarrow> (\<exists>ys. csv_of acc' ((xs @ [c # cs]) @ ys) \<and> (\<forall>d \<in> set ys. known_job (tabs h) user role d)))"
        by (simp add: in_step_def)
      then show ?thesis using k by (metis append.assoc append_Cons append_Nil set_ConsD)
    qed
  qed
qed

lemma job_new_id_nonempty: "job_new_id e \<noteq> []"
proof (cases e)
  case (Urandom b)
  then show ?thesis using length_gen_uuid [of b] by (auto simp: job_new_id_def simp del: length_0_conv)
qed (simp add: job_new_id_def buf_def JOB_ID_LEN_def)

text \<open>A row of a workflow: its owner, its workflow, what it waits for; \<open>earlier\<close> are the identifiers of earlier steps.\<close>

definition step_row :: "tables \<Rightarrow> string \<Rightarrow> string \<Rightarrow> string \<Rightarrow> string list \<Rightarrow> job_row \<Rightarrow> bool" where
  "step_row t wfid user role earlier row \<longleftrightarrow> r_workflow_id row = wfid \<and> r_user_id row = buf JOB_USER_LEN user \<and>
     r_status row = (if r_depends_on row = [] \<and> r_input_files row = [] then JOB_STATUS_QUEUED else JOB_STATUS_CREATED) \<and>
     (\<exists>deps. r_depends_on row = csv deps \<and> (\<forall>d \<in> set deps. d \<in> set earlier \<or> known_job t user role d))"

text \<open>The step added exactly the row of \<open>job\<close>.\<close>

definition step_added :: "string \<Rightarrow> string \<Rightarrow> string \<Rightarrow> string list \<Rightarrow> job \<Rightarrow> http_sys \<Rightarrow> http_sys \<Rightarrow> bool" where
  "step_added wfid user role ids job h h' \<longleftrightarrow> (\<exists>row. tabs h' = (tabs h)\<lparr>t_jobs := t_jobs (tabs h) @ [row]\<rparr> \<and>
     r_id row = j_id job \<and> j_id job \<noteq> [] \<and> r_id row \<notin> r_id ` set (t_jobs (tabs h)) \<and> r_status row = j_status job \<and>
     step_row (tabs h) wfid user role ids row)"

lemma step_files_short: "step_files idx fs acc = Inr acc' \<Longrightarrow> length acc < 2048 \<Longrightarrow> length acc' < 2048"
  by (induction idx fs acc rule: step_files.induct) (auto simp: Let_def append_csv_value_def split: json.splits if_splits option.splits)

lemma step_file_list_short: "step_file_list idx step = Inr files \<Longrightarrow> length files < 2048"
  by (auto simp: step_file_list_def split: option.splits json.splits dest: step_files_short)

lemma step_dep_list_csv:
  "step_dep_list env idx ids step = Inr acc \<Longrightarrow> [] \<notin> set ids \<Longrightarrow> \<exists>ys. csv_of acc ys \<and> set ys \<subseteq> set ids"
  using step_deps_csv [of env idx ids _ "[]" acc "[]"]
  by (auto simp: step_dep_list_def csv_of_def split: option.splits json.splits intro: exI [of _ "[]"])

lemma external_dep_list_csv:
  assumes "external_dep_list idx user role step acc h = (r, h')" "in_txn t (sy_db (hs_core h))" "csv_of acc xs"
  shows "in_step t h h' \<and> tabs h' = tabs h \<and>
    (\<forall>acc'. r = Inr acc' \<longrightarrow> (\<exists>ys. csv_of acc' (xs @ ys) \<and> (\<forall>d \<in> set ys. known_job (tabs h) user role d)))"
proof (cases "\<exists>ds. get_item step ''depends_on'' = Some (JArray ds)")
  case True
  then show ?thesis using assms external_deps_csv by (auto simp: external_dep_list_def)
next
  case False
  then show ?thesis using assms by (auto simp: external_dep_list_def in_step_def split: option.splits json.splits intro: exI [of _ "[]"])
qed

text \<open>The new row, from the insertion to the details.\<close>

lemma step_create_cases:
  assumes "step_create env idx user step cmd res h = (jo, h')" "in_txn t (sy_db (hs_core h))"
  shows "in_step t h h' \<and> (\<forall>job. jo = Some job \<longrightarrow> j_id job \<noteq> [] \<and> j_id job \<notin> r_id ` set (t_jobs (tabs h)) \<and>
     j_status job = JOB_STATUS_QUEUED \<and> j_user_id job = buf JOB_USER_LEN user \<and>
     tabs h' = (tabs h)\<lparr>t_jobs := t_jobs (tabs h) @ [insert_job_row job]\<rparr>)"
proof -
  obtain pr c g ram dsk where run: "job_create_ex (fst (re_child env idx)) (snd (re_child env idx))
      (cf_work_dir (xe_config (re_exec env))) cmd pr c g ram dsk (Some user) (Some (item_text (get_item step ''app_id''))) (hs_core h) =
      (jo, hs_core h')" "h' = h\<lparr>hs_core := hs_core h'\<rparr>"
    using assms(1) by (auto simp: step_create_def Let_def split: prod.splits)
  define job where "job = new_job (cf_work_dir (xe_config (re_exec env))) (job_new_id (snd (re_child env idx))) cmd pr c g ram dsk (Some user)
      (Some (item_text (get_item step ''app_id''))) (now_of h)"
  obtain r d where i: "db_insert_job job (sy_db (hs_core h)) = (r, d)" by force
  have j: "j_id job \<noteq> []" "j_status job = JOB_STATUS_QUEUED" "j_user_id job = buf JOB_USER_LEN user"
    using job_new_id_nonempty by (simp_all add: job_def new_job_def col_text_def)
  have t: "in_txn t d" using in_txn_run [OF assms(2) i [unfolded db_insert_job_def]] .
  have c: "(jo, hs_core h') = (if \<not> fst (re_child env idx) then (None, hs_core h)
      else if r \<noteq> 0 then (None, (hs_core h)\<lparr>sy_db := d\<rparr>) else (Some job, (hs_core h)\<lparr>sy_db := d\<rparr>))"
    using run(1) i by (simp add: job_create_ex_def Let_def job_def split: if_splits)
  have "j_id job \<notin> r_id ` set (t_jobs (tabs h))" "db_tables d = (tabs h)\<lparr>t_jobs := t_jobs (tabs h) @ [insert_job_row job]\<rparr>" if "r = 0"
    using db_insert_job_0 [OF i [unfolded that]] by (auto simp: job_row_of_None)
  then show ?thesis using c t j assms(2) by (auto simp: in_step_def split: if_splits)
qed

lemma step_store_cases:
  assumes "step_store env idx env_json job h = (r, h')" "in_txn t (sy_db (hs_core h))"
    "t_jobs (tabs h) = rows @ [row]" "r_id row = j_id job" "r_id row \<notin> r_id ` set rows"
  shows "in_step t h h' \<and> (r = None \<longrightarrow> tabs h' = (tabs h)\<lparr>t_jobs := rows @ [row\<lparr>r_status := j_status job, r_input_dir := j_input_dir job,
                    r_output_dir := j_output_dir job, r_input_files := j_input_files job,
                    r_timeout_seconds := j_timeout_seconds job, r_status_reason := j_status_reason job,
                    r_depends_on := j_depends_on job, r_workflow_id := j_workflow_id job,
                    r_same_machine_as := j_same_machine_as job\<rparr>]\<rparr>)"
proof -
  obtain ok h2 where s: "step_env env idx env_json job h = (ok, h2)" by force
  have e: "sy_db (hs_core h2) = sy_db (hs_core h)" "queue_of h2 = queue_of h"
    using s by (auto simp: step_env_def Let_def split: if_splits option.splits)
  obtain rc d where u: "db_update_job_submission job (sy_db (hs_core h)) = (rc, d)" by force
  define f where "f r = r\<lparr>r_status := j_status job, r_input_dir := j_input_dir job,
                    r_output_dir := j_output_dir job, r_input_files := j_input_files job,
                    r_timeout_seconds := j_timeout_seconds job, r_status_reason := j_status_reason job,
                    r_depends_on := j_depends_on job, r_workflow_id := j_workflow_id job,
                    r_same_machine_as := j_same_machine_as job\<rparr>" for r :: job_row
  obtain n where w: "sql_write (update_jobs (\<lambda>r. r_id r = j_id job) f) (sy_db (hs_core h)) = (n, d)" "rc = (if n = Some 1 then 0 else -1)"
    using u by (auto simp: db_update_job_submission_def f_def [abs_def] split: prod.splits)
  have t: "in_txn t d" using in_txn_write [OF assms(2) w(1)] .
  have "db_tables d = (tabs h)\<lparr>t_jobs := rows @ [f row]\<rparr>" if "rc = 0"
    using w that sql_write_cases [OF w(1)] assms(3) update_last_row [OF assms(5), of f] assms(4)
    by (auto simp: update_jobs_def split: if_splits prod.splits)
  then show ?thesis using assms(1,2) s e t u unfolding f_def by (auto simp: step_store_def ask_def in_step_def split: if_splits)
qed

lemma step_details_fields:
  assumes "csv_of deps ds" "length files < 2048" "j_status job0 = JOB_STATUS_QUEUED"
  shows "j_id (step_details wfid deps files step job0) = j_id job0" "j_user_id (step_details wfid deps files step job0) = j_user_id job0"
    "j_workflow_id (step_details wfid deps files step job0) = buf 64 wfid"
    "j_depends_on (step_details wfid deps files step job0) = deps" "j_input_files (step_details wfid deps files step job0) = files"
    "j_status (step_details wfid deps files step job0) = (if deps = [] \<and> files = [] then JOB_STATUS_QUEUED else JOB_STATUS_CREATED)"
  using assms by (auto simp: step_details_def csv_of_def buf_def Let_def)

text \<open>Creation, details and row together.\<close>

lemma step_finish:
  assumes "step_create env idx user step cmd res h = (Some job0, h1)" "in_txn t (sy_db (hs_core h))"
    "csv_of deps ds" "\<forall>d \<in> set ds. d \<in> set ids \<or> known_job (tabs h) user role d" "length files < 2048"
    "step_store env idx env_json (step_details wfid deps files step job0) h1 = (r, h')"
  shows "in_step t h h' \<and> (r = None \<longrightarrow> step_added (buf 64 wfid) user role ids (step_details wfid deps files step job0) h h')"
proof -
  define job where "job = step_details wfid deps files step job0"
  note C = step_create_cases [OF assms(1,2)]
  have C0: "in_txn t (sy_db (hs_core h1))" "queue_of h1 = queue_of h" "j_id job0 \<noteq> []" "j_id job0 \<notin> r_id ` set (t_jobs (tabs h))"
    "j_status job0 = JOB_STATUS_QUEUED" "j_user_id job0 = buf JOB_USER_LEN user"
    "tabs h1 = (tabs h)\<lparr>t_jobs := t_jobs (tabs h) @ [insert_job_row job0]\<rparr>"
    using C by (auto simp: in_step_def)
  note J = step_details_fields [OF assms(3,5) C0(5), of wfid step, folded job_def]
  have rid: "r_id (insert_job_row job0) = j_id job" by (simp add: insert_job_row_def J(1))
  have "t_jobs (tabs h1) = t_jobs (tabs h) @ [insert_job_row job0]" using C0(7) by simp
  moreover have "r_id (insert_job_row job0) \<notin> r_id ` set (t_jobs (tabs h))" using C0(4) by (simp add: rid J(1))
  ultimately have S: "in_step t h1 h'" "r = None \<longrightarrow> tabs h' = (tabs h1)\<lparr>t_jobs := t_jobs (tabs h) @ [(insert_job_row job0)\<lparr>r_status := j_status job,
      r_input_dir := j_input_dir job, r_output_dir := j_output_dir job, r_input_files := j_input_files job, r_timeout_seconds := j_timeout_seconds job,
      r_status_reason := j_status_reason job, r_depends_on := j_depends_on job, r_workflow_id := j_workflow_id job,
      r_same_machine_as := j_same_machine_as job\<rparr>]\<rparr>"
    using step_store_cases [OF assms(6) [folded job_def] C0(1) _ rid] by simp_all
  have "step_added (buf 64 wfid) user role ids job h h'" if "r = None"
  proof -
    let ?row = "(insert_job_row job0)\<lparr>r_status := j_status job, r_input_dir := j_input_dir job,
                    r_output_dir := j_output_dir job, r_input_files := j_input_files job,
                    r_timeout_seconds := j_timeout_seconds job, r_status_reason := j_status_reason job,
                    r_depends_on := j_depends_on job, r_workflow_id := j_workflow_id job,
                    r_same_machine_as := j_same_machine_as job\<rparr>"
    have "tabs h' = (tabs h)\<lparr>t_jobs := t_jobs (tabs h) @ [?row]\<rparr>" using S(2) that C0(7) by simp
    moreover have "r_user_id ?row = buf JOB_USER_LEN user" using C0(6) by (simp add: insert_job_row_def)
    moreover have "\<exists>ds. deps = csv ds \<and> (\<forall>d \<in> set ds. d \<in> set ids \<or> known_job (tabs h) user role d)"
      using assms(3,4) by (auto simp: csv_of_def)
    ultimately show ?thesis unfolding step_added_def step_row_def
      using J C0(3,4) rid by (intro exI [of _ ?row]) simp
  qed
  then show ?thesis using S(1) C0(2) by (simp add: in_step_def job_def)
qed

lemma step_job_cases:
  assumes "step_job env wfid user role idx ids step cmd env_json res h = (r, h')" "in_txn t (sy_db (hs_core h))" "[] \<notin> set ids"
  shows "in_step t h h' \<and> (\<forall>job. r = Inr job \<longrightarrow> step_added (buf 64 wfid) user role ids job h h')"
proof (cases "step_dep_list env idx ids step")
  case (Inl e)
  then show ?thesis using assms by (auto simp: step_job_def in_step_def)
next
  case deps0: (Inr deps0)
  obtain ds0 where d0: "csv_of deps0 ds0" "set ds0 \<subseteq> set ids" using step_dep_list_csv [OF deps0 assms(3)] by blast
  obtain x h1 where ext: "external_dep_list idx user role step deps0 h = (x, h1)" by force
  note E = external_dep_list_csv [OF ext assms(2) d0(1)]
  have t1: "in_txn t (sy_db (hs_core h1))" "queue_of h1 = queue_of h" "tabs h1 = tabs h" using E by (simp_all add: in_step_def)
  show ?thesis
  proof (cases "\<exists>deps files job0 h2. x = Inr deps \<and> step_file_list idx step = Inr files \<and> step_create env idx user step cmd res h1 = (Some job0, h2)")
    case False
    obtain jo h2 where c: "step_create env idx user step cmd res h1 = (jo, h2)" by force
    note C = step_create_cases [OF c t1(1)]
    show ?thesis using assms(1) False deps0 ext c C t1
      by (auto simp: step_job_def in_step_def split: sum.splits option.splits)
  next
    case True
    then obtain deps files job0 h2 where x: "x = Inr deps" and f: "step_file_list idx step = Inr files"
      and c: "step_create env idx user step cmd res h1 = (Some job0, h2)" by blast
    obtain ys where d: "csv_of deps (ds0 @ ys)" "\<forall>d \<in> set ys. known_job (tabs h) user role d" using E x by blast
    have k: "\<forall>d \<in> set (ds0 @ ys). d \<in> set ids \<or> known_job (tabs h1) user role d" using d(2) d0(2) t1(3) by auto
    obtain y h3 where st: "step_store env idx env_json (step_details wfid deps files step job0) h2 = (y, h3)" by force
    note F = step_finish [OF c t1(1) d(1) k step_file_list_short [OF f] st]
    have "h' = h3" "\<forall>j. r = Inr j \<longrightarrow> y = None \<and> j = step_details wfid deps files step job0"
      using assms(1) deps0 ext x f c st by (auto simp: step_job_def Let_def split: option.splits)
    then show ?thesis using F t1 by (auto simp: in_step_def step_added_def)
  qed
qed

lemma workflow_step_cases:
  assumes "in_txn t (sy_db (hs_core h))" "[] \<notin> set ids"
  shows "\<exists>r h'. workflow_step env wfid user role idx ids step h = Some (r, h') \<and> in_step t h h' \<and>
    (\<forall>job. r = Inr job \<longrightarrow> step_added (buf 64 wfid) user role ids job h h')"
proof -
  have "step_app af idx app_id step \<noteq> None" for af app_id
    using resolve_app_command_returns [of af app_id "get_item step ''parameters''" JOB_CMD_LEN]
    by (auto simp: step_app_def split: option.splits sum.splits)
  then have "step_source (re_files env) (xe_config (re_exec env)) idx step \<noteq> None"
    by (simp add: step_source_def Let_def)
  then obtain src where src: "step_source (re_files env) (xe_config (re_exec env)) idx step = Some src" by blast
  show ?thesis
  proof (cases "is_object (Some step) \<and> (\<exists>cmd env_json res. src = Inr (cmd, env_json, res))")
    case True
    then obtain cmd env_json res where "src = Inr (cmd, env_json, res)" by blast
    moreover obtain r h' where s: "step_job env wfid user role idx ids step cmd env_json res h = (r, h')" by force
    ultimately show ?thesis using True src step_job_cases [OF s assms] by (simp add: workflow_step_def)
  next
    case False
    then show ?thesis using src assms by (cases src) (auto simp: workflow_step_def in_step_def)
  qed
qed

text \<open>What the loop has done when it has created \<open>jobs\<close>, starting from the tables \<open>t\<close>.\<close>

definition steps_done :: "tables \<Rightarrow> string \<Rightarrow> string \<Rightarrow> string \<Rightarrow> job list \<Rightarrow> http_sys \<Rightarrow> bool" where
  "steps_done t wfid user role jobs h \<longleftrightarrow> (\<exists>rows. tabs h = t\<lparr>t_jobs := t_jobs t @ rows\<rparr> \<and> map r_id rows = map j_id jobs \<and>
     map r_status rows = map j_status jobs \<and> distinct (map r_id rows) \<and> [] \<notin> set (map r_id rows) \<and>
     r_id ` set rows \<inter> r_id ` set (t_jobs t) = {} \<and>
     (\<forall>i < length rows. step_row t wfid user role (map r_id (take i rows)) (rows ! i)))"

lemma known_job_split:
  assumes "known_job (t\<lparr>t_jobs := t_jobs t @ rows\<rparr>) user role d"
  shows "d \<in> r_id ` set rows \<or> known_job t user role d"
  using assms by (auto simp: known_job_def)

lemma steps_done_added:
  assumes "steps_done t wfid user role jobs h" "step_added wfid user role (map j_id jobs) job h h'"
  shows "steps_done t wfid user role (jobs @ [job]) h'"
proof -
  obtain rows where R: "tabs h = t\<lparr>t_jobs := t_jobs t @ rows\<rparr>" "map r_id rows = map j_id jobs" "map r_status rows = map j_status jobs"
    "distinct (map r_id rows)" "[] \<notin> set (map r_id rows)" "r_id ` set rows \<inter> r_id ` set (t_jobs t) = {}"
    "\<forall>i < length rows. step_row t wfid user role (map r_id (take i rows)) (rows ! i)"
    using assms(1) unfolding steps_done_def by blast
  obtain row where N: "tabs h' = (tabs h)\<lparr>t_jobs := t_jobs (tabs h) @ [row]\<rparr>" "r_id row = j_id job" "j_id job \<noteq> []"
    "r_id row \<notin> r_id ` set (t_jobs (tabs h))" "r_status row = j_status job" "step_row (tabs h) wfid user role (map j_id jobs) row"
    using assms(2) unfolding step_added_def by blast
  have "step_row t wfid user role (map r_id rows) row"
    using N(6) known_job_split [of t rows user role] unfolding step_row_def R(1,2) [symmetric] by (metis R(1) list.set_map)
  then have "step_row t wfid user role (map r_id (take i (rows @ [row]))) ((rows @ [row]) ! i)" if "i < length (rows @ [row])" for i
    using R(7) that by (cases "i = length rows") (auto simp: nth_append)
  moreover have "r_id row \<notin> r_id ` set rows" "r_id row \<notin> r_id ` set (t_jobs t)" using N(4) R(1) by auto
  moreover have "r_id ` set rows = j_id ` set jobs" using R(2) by (metis list.set_map)
  ultimately show ?thesis unfolding steps_done_def using R(1-6) N(1-3,5) by (intro exI [of _ "rows @ [row]"]) auto
qed

lemma workflow_steps_cases:
  assumes "in_txn t (sy_db (hs_core h))" "steps_done t (buf 64 wfid) user role jobs h" "queue_of h = q"
  shows "\<exists>err jobs' h'. workflow_steps env wfid user role steps jobs h = Some (err, jobs', h') \<and> in_txn t (sy_db (hs_core h')) \<and>
    queue_of h' = q \<and> (err = None \<longrightarrow> steps_done t (buf 64 wfid) user role jobs' h' \<and> length jobs' = length jobs + length steps)"
  using assms
proof (induction steps arbitrary: jobs h)
  case Nil
  then show ?case by simp
next
  case (Cons step steps)
  have ids: "[] \<notin> set (map j_id jobs)" using Cons.prems(2) unfolding steps_done_def by metis
  obtain r h1 where s: "workflow_step env wfid user role (length jobs) (map j_id jobs) step h = Some (r, h1)" "in_step t h h1"
    "\<forall>job. r = Inr job \<longrightarrow> step_added (buf 64 wfid) user role (map j_id jobs) job h h1"
    using workflow_step_cases [OF Cons.prems(1) ids] by blast
  show ?case
  proof (cases r)
    case (Inl e)
    then show ?thesis using s(1,2) Cons.prems(3) by (cases e) (auto simp: in_step_def)
  next
    case (Inr job)
    then have "steps_done t (buf 64 wfid) user role (jobs @ [job]) h1" using steps_done_added [OF Cons.prems(2)] s(3) by blast
    from Cons.IH [OF _ this] show ?thesis using s(1,2) Inr Cons.prems(3) by (auto simp: in_step_def)
  qed
qed

subsection \<open>After the commit\<close>

text \<open>A queue that takes jobs.\<close>

definition queue_open :: "queue option \<Rightarrow> bool" where
  "queue_open q = (case q of None \<Rightarrow> False | Some q \<Rightarrow> \<not> q_shutdown q)"

definition enqueue :: "job \<Rightarrow> queue option \<Rightarrow> queue option" where
  "enqueue job q = snd (queue_push True q (Some job))"

lemma queue_push_open:
  assumes "queue_open q"
  shows "queue_push True q (Some job) = (0, enqueue job q)" "queue_open (enqueue job q)"
  using assms by (cases q; simp add: queue_open_def enqueue_def push_locked_def Let_def)+

lemma workflow_push_open:
  assumes "queue_open (queue_of h)" "\<forall>i. re_push_ok env i"
  shows "workflow_push env i jobs h = (jobs, h\<lparr>hs_core := (hs_core h)\<lparr>sy_queue :=
      fold enqueue (filter (\<lambda>j. j_status j \<noteq> JOB_STATUS_CREATED) jobs) (queue_of h)\<rparr>\<rparr>)"
  using assms
proof (induction jobs arbitrary: i h)
  case Nil
  then show ?case by simp
next
  case (Cons job jobs)
  show ?case
  proof (cases "j_status job = JOB_STATUS_CREATED")
    case True
    then show ?thesis using Cons.IH [OF Cons.prems, of "Suc i"] by simp
  next
    case False
    let ?h = "on_core (\<lambda>s. s\<lparr>sy_queue := enqueue job (queue_of h)\<rparr>) h"
    have "queue_open (queue_of ?h)" using queue_push_open(2) [OF Cons.prems(1)] by simp
    from Cons.IH [OF this Cons.prems(2), of "Suc i"] show ?thesis
      using False Cons.prems(2) queue_push_open(1) [OF Cons.prems(1)] by simp
  qed
qed

lemma workflow_discard_frame [simp]:
  "sy_db (hs_core (workflow_discard_jobs jobs h)) = sy_db (hs_core h)" "queue_of (workflow_discard_jobs jobs h) = queue_of h"
  unfolding workflow_discard_jobs_def by (induction jobs arbitrary: h) simp_all

lemma workflow_run_atomic:
  assumes "db_idle (sy_db (hs_core h))" "queue_open (queue_of h)" "\<forall>i. re_push_ok env i" "re_alloc_ok env" "re_print_ok env"
  shows "\<exists>reply h'. workflow_run env user role req steps h = Some (reply, h') \<and> db_idle (sy_db (hs_core h')) \<and>
    ((\<exists>code msg. reply = Http_Error code msg \<and> tabs h' = tabs h \<and> queue_of h' = queue_of h) \<or>
     (\<exists>body jobs. reply = Http_Json 201 body \<and> length jobs = length steps \<and>
        steps_done (tabs h) (gen_wf_id (re_wf_raw env) 64) user role jobs h' \<and>
        queue_of h' = fold enqueue (filter (\<lambda>j. j_status j \<noteq> JOB_STATUS_CREATED) jobs) (queue_of h)))"
proof -
  let ?t = "tabs h" and ?w = "gen_wf_id (re_wf_raw env) 64"
  obtain r0 d0 where b: "db_begin (sy_db (hs_core h)) = (r0, d0)" by force
  note B = db_begin_cases [OF assms(1) b]
  let ?h1 = "on_core (\<lambda>s. s\<lparr>sy_db := d0\<rparr>) h"
  show ?thesis
  proof (cases "r0 = 0")
    case False
    then show ?thesis using B b by (simp add: workflow_run_def ask_def)
  next
    case True
    have t1: "in_txn ?t (sy_db (hs_core ?h1))" "tabs ?h1 = ?t" using B True by auto
    have "steps_done ?t (buf 64 ?w) user role [] ?h1" using t1(2) by (simp add: steps_done_def)
    from workflow_steps_cases [OF t1(1) this refl, where env = env and steps = steps]
    obtain err jobs h2 where S: "workflow_steps env ?w user role steps [] ?h1 = Some (err, jobs, h2)" "in_txn ?t (sy_db (hs_core h2))"
      "queue_of h2 = queue_of h" "err = None \<longrightarrow> steps_done ?t (buf 64 ?w) user role jobs h2 \<and> length jobs = length steps" by auto
    have w: "buf 64 ?w = ?w" by (simp add: gen_wf_id_def buf_def)
    show ?thesis
    proof (cases err)
      case (Some e)
      obtain rc d where rb: "db_rollback (sy_db (hs_core h2)) = (rc, d)" by force
      have "db_idle d" "db_tables d = ?t" using db_rollback_restores [OF S(2) rb] by simp_all
      then show ?thesis using b True S(1,3) Some rb by (cases e) (simp add: workflow_run_def ask_def)
    next
      case None
      obtain r3 d3 where c: "db_commit (sy_db (hs_core h2)) = (r3, d3)" by force
      note C = db_commit_cases [OF S(2) c]
      let ?h3 = "on_core (\<lambda>s. s\<lparr>sy_db := d3\<rparr>) h2"
      show ?thesis
      proof (cases "r3 = 0")
        case False
        then show ?thesis using b True S(1,3) None c C by (simp add: workflow_run_def ask_def)
      next
        case r3: True
        have "queue_open (queue_of ?h3)" using assms(2) S(3) by simp
        from workflow_push_open [OF this assms(3), of 0 jobs]
        have "workflow_run env user role req steps h = Some (workflow_answer env req ?w jobs, ?h3\<lparr>hs_core := (hs_core ?h3)\<lparr>sy_queue :=
            fold enqueue (filter (\<lambda>j. j_status j \<noteq> JOB_STATUS_CREATED) jobs) (queue_of h)\<rparr>\<rparr>)"
          using b True S(1,3) None c r3 by (simp add: workflow_run_def ask_def)
        moreover have "steps_done ?t ?w user role jobs (?h3\<lparr>hs_core := (hs_core ?h3)\<lparr>sy_queue := q\<rparr>\<rparr>)" for q
          using S(4) None w C r3 by (simp add: steps_done_def)
        ultimately show ?thesis using C r3 S(4) None assms(4,5) by (auto simp: workflow_answer_def)
      qed
    qed
  qed
qed

section \<open>Claims\<close>

text \<open>
  C11: a workflow is submitted as a whole and its dependencies are sound. With a queue that takes jobs,
  and whichever statement or file fails: the request is answered; an error leaves all tables and the queue
  as they were; 201 means one new row per step, in their order, all of the user and of one workflow, whose
  dependencies are earlier steps of the workflow or jobs that were there and that the user may name, so that
  no cycle can arise; steps that wait for nothing are QUEUED and pushed, the others CREATED.
\<close>

theorem submit_workflow_atomic:
  assumes "db_idle (sy_db (hs_core h))" "queue_open (queue_of h)" "\<forall>i. re_push_ok env i" "re_alloc_ok env" "re_print_ok env"
  shows "\<exists>reply h'. submit_workflow env rq user role h = Some (reply, h') \<and> db_idle (sy_db (hs_core h')) \<and>
    ((\<exists>code msg. reply = Http_Error code msg \<and> tabs h' = tabs h \<and> queue_of h' = queue_of h) \<or>
     (\<exists>req steps body rows jobs. af_parse (re_files env) (buf 32768 (rq_body rq)) = Some req \<and> hs_accepting_jobs h \<and>
        get_item req ''steps'' = Some (JArray steps) \<and> 1 \<le> length steps \<and> length steps \<le> MAX_WORKFLOW_STEPS \<and>
        reply = Http_Json 201 body \<and> length rows = length steps \<and> tabs h' = (tabs h)\<lparr>t_jobs := t_jobs (tabs h) @ rows\<rparr> \<and>
        distinct (map r_id rows) \<and> r_id ` set rows \<inter> r_id ` set (t_jobs (tabs h)) = {} \<and>
        (\<forall>i < length rows. r_workflow_id (rows ! i) = gen_wf_id (re_wf_raw env) 64 \<and> r_user_id (rows ! i) = buf JOB_USER_LEN user \<and>
           r_status (rows ! i) = (if r_depends_on (rows ! i) = [] \<and> r_input_files (rows ! i) = [] then JOB_STATUS_QUEUED else JOB_STATUS_CREATED) \<and>
           (\<exists>deps. r_depends_on (rows ! i) = csv deps \<and> (\<forall>d \<in> set deps. (\<exists>j < i. d = r_id (rows ! j)) \<or> known_job (tabs h) user role d))) \<and>
        map j_id jobs = map r_id rows \<and> map j_status jobs = map r_status rows \<and>
        queue_of h' = fold enqueue (filter (\<lambda>j. j_status j \<noteq> JOB_STATUS_CREATED) jobs) (queue_of h)))"
proof (cases "\<exists>req steps. af_parse (re_files env) (buf 32768 (rq_body rq)) = Some req \<and> hs_accepting_jobs h \<and>
    get_item req ''steps'' = Some (JArray steps) \<and> 1 \<le> length steps \<and> length steps \<le> MAX_WORKFLOW_STEPS \<and> re_calloc_ok env")
  case False
  then show ?thesis using assms(1) by (auto simp: submit_workflow_def not_less Suc_le_eq split: option.splits json.splits)
next
  case True
  then obtain req steps where R: "af_parse (re_files env) (buf 32768 (rq_body rq)) = Some req" "hs_accepting_jobs h"
    "get_item req ''steps'' = Some (JArray steps)" "1 \<le> length steps" "length steps \<le> MAX_WORKFLOW_STEPS" "re_calloc_ok env" by blast
  have run: "submit_workflow env rq user role h = workflow_run env user role req steps h"
    using R by (cases steps) (auto simp: submit_workflow_def)
  have idx: "(\<exists>j < i. d = r_id (rows ! j)) \<longleftrightarrow> d \<in> set (map r_id (take i rows))" if "i < length rows" for i d and rows :: "job_row list"
    using that by (auto simp: nth_image [symmetric] less_imp_le)
  obtain reply h' where W: "workflow_run env user role req steps h = Some (reply, h')" "db_idle (sy_db (hs_core h'))"
    "(\<exists>code msg. reply = Http_Error code msg \<and> tabs h' = tabs h \<and> queue_of h' = queue_of h) \<or>
     (\<exists>body jobs. reply = Http_Json 201 body \<and> length jobs = length steps \<and>
        steps_done (tabs h) (gen_wf_id (re_wf_raw env) 64) user role jobs h' \<and>
        queue_of h' = fold enqueue (filter (\<lambda>j. j_status j \<noteq> JOB_STATUS_CREATED) jobs) (queue_of h))"
    using workflow_run_atomic [OF assms, of user role req steps] by blast
  from W(3) show ?thesis
  proof (elim disjE exE conjE)
    fix body jobs
    assume J: "reply = Http_Json 201 body" "length jobs = length steps" "steps_done (tabs h) (gen_wf_id (re_wf_raw env) 64) user role jobs h'"
      "queue_of h' = fold enqueue (filter (\<lambda>j. j_status j \<noteq> JOB_STATUS_CREATED) jobs) (queue_of h)"
    then obtain rows where rows: "tabs h' = (tabs h)\<lparr>t_jobs := t_jobs (tabs h) @ rows\<rparr>" "map j_id jobs = map r_id rows" "map j_status jobs = map r_status rows"
      "distinct (map r_id rows)" "r_id ` set rows \<inter> r_id ` set (t_jobs (tabs h)) = {}"
      "\<forall>i < length rows. step_row (tabs h) (gen_wf_id (re_wf_raw env) 64) user role (map r_id (take i rows)) (rows ! i)"
      unfolding steps_done_def by metis
    have "length rows = length steps" using J(2) rows(2) by (metis length_map)
    then show ?thesis unfolding run using W(1,2) R(1-5) J(1,4) rows(1-5) rows(6)
      by (intro exI [of _ reply] exI [of _ h'] conjI disjI2 exI [of _ req] exI [of _ steps] exI [of _ body] exI [of _ rows] exI [of _ jobs]) (simp_all add: idx step_row_def)
  qed (use W run in auto)
qed

text \<open>A workflow of two steps.\<close>

definition demo_steps :: "json list" where
  "demo_steps = [JObject [(''command'', JString ''mesh'')],
     JObject [(''command'', JString ''solve''), (''depends_on_steps'', JArray [jnum 0]), (''same_machine'', JBool True)]]"

definition demo_flow :: json where
  "demo_flow = JObject [(''name'', JString ''study''), (''steps'', JArray demo_steps)]"

definition demo_flow_env :: req_env where
  "demo_flow_env = demo_http_env\<lparr>re_files := demo_files\<lparr>af_parse := (\<lambda>_. Some demo_flow)\<rparr>, re_child := (\<lambda>i. (True, No_Urandom i 2))\<rparr>"

lemma demo_flow_run:
  "map_option (is_created \<circ> fst) (workflow_run demo_flow_env ''ann'' ''user'' demo_flow demo_steps demo_http) = Some True"
  by code_simp

theorem submit_workflow_atomic_witness:
  "\<exists>body h' rows. submit_workflow demo_flow_env demo_request ''ann'' ''user'' demo_http = Some (Http_Json 201 body, h') \<and>
     t_jobs (tabs h') = t_jobs (tabs demo_http) @ rows \<and> length rows = 2 \<and> db_idle (sy_db (hs_core h'))"
proof -
  have q: "queue_open (queue_of demo_http)"
    by (simp add: demo_http_def demo_sched_def exec_sys.defs queue_open_def)
  have e: "\<forall>i. re_push_ok demo_flow_env i" "re_alloc_ok demo_flow_env" "re_print_ok demo_flow_env"
    "af_parse (re_files demo_flow_env) x = Some demo_flow" "hs_accepting_jobs demo_http" "re_calloc_ok demo_flow_env" for x
    by (simp_all add: demo_flow_env_def demo_http_env_def demo_http_def)
  have i: "db_idle (sy_db (hs_core demo_http))"
    by (simp add: demo_http_def demo_sched_def exec_sys.defs demo_exec_def life_sys.defs demo_life_def)
  have n: "length demo_steps = 2" by (simp add: demo_steps_def)
  have r: "submit_workflow demo_flow_env demo_request ''ann'' ''user'' demo_http = workflow_run demo_flow_env ''ann'' ''user'' demo_flow demo_steps demo_http"
    using e n by (simp add: submit_workflow_def demo_flow_def MAX_WORKFLOW_STEPS_def)
  have "map_option (is_created \<circ> fst) (submit_workflow demo_flow_env demo_request ''ann'' ''user'' demo_http) = Some True"
    unfolding r by (rule demo_flow_run)
  then show ?thesis using submit_workflow_atomic [OF i q e(1-3), of demo_request "''ann''" "''user''"] e(4) n
    by (elim exE conjE disjE) (auto simp: is_created_def demo_flow_def)
qed

text \<open>The table of templates the code makes: distinct identifiers that fit their field.\<close>

definition templates_ok :: "tables \<Rightarrow> bool" where
  "templates_ok t \<longleftrightarrow> distinct (map wf_id (t_workflows t)) \<and> (\<forall>w \<in> set (t_workflows t). length (wf_id w) < 64)"

text \<open>What a user who is no administrator may do to it.\<close>

definition templates_kept :: "string \<Rightarrow> http_sys \<Rightarrow> http_sys \<Rightarrow> bool" where
  "templates_kept user h h' \<longleftrightarrow> (\<forall>w \<in> set (t_workflows (tabs h)). buf 128 (wf_owner_id w) \<noteq> user \<longrightarrow> w \<in> set (t_workflows (tabs h'))) \<and>
    (\<forall>w \<in> set (t_workflows (tabs h')). wf_is_global w \<noteq> 0 \<longrightarrow> w \<in> set (t_workflows (tabs h)))"

lemma templates_kept_refl [simp]: "templates_kept user h h"
  by (simp add: templates_kept_def)

lemma ask_get_workflow:
  "working h \<Longrightarrow> ask (db_get_workflow k) h = (map_option read_workflow (find (\<lambda>v. wf_id v = k) (t_workflows (tabs h))), h)"
  by (rule ask_read) (simp_all add: db_get_workflow_def)

lemma templates_ok_same:
  "templates_ok t \<Longrightarrow> v \<in> set (t_workflows t) \<Longrightarrow> w \<in> set (t_workflows t) \<Longrightarrow> wf_id v = wf_id w \<Longrightarrow> v = w"
  by (meson distinct_map inj_on_def templates_ok_def)

lemma update_saved_kept:
  assumes "working h" "templates_ok (tabs h)" "\<not> is_admin role"
  shows "templates_kept user h (snd (update_saved k user role name 0 steps h))"
proof (cases "find (\<lambda>v. wf_id v = k) (t_workflows (tabs h))")
  case None
  then show ?thesis by (simp add: update_saved_def ask_get_workflow [OF assms(1)])
next
  case (Some v)
  then have v: "v \<in> set (t_workflows (tabs h))" "wf_id v = k" by (auto simp: find_Some_iff)
  then have k: "wf_id (read_workflow v) = k" using assms(2) by (auto simp: templates_ok_def read_workflow_def buf_def)
  show ?thesis
  proof (cases "buf 128 (wf_owner_id v) = user")
    case True
    then have "w \<noteq> v" if "buf 128 (wf_owner_id w) \<noteq> user" for w using that by blast
    then have other: "wf_id w \<noteq> k" if "w \<in> set (t_workflows (tabs h))" "buf 128 (wf_owner_id w) \<noteq> user" for w
      using templates_ok_same [OF assms(2) v(1)] v(2) that by metis
    then show ?thesis using True Some k assms(1)
      by (auto simp: update_saved_def ask_get_workflow templates_kept_def read_workflow_def db_update_workflow_def update_rows_def image_iff)
  next
    case False
    then show ?thesis using Some assms(3) by (simp add: update_saved_def ask_get_workflow [OF assms(1)] read_workflow_def)
  qed
qed

lemma create_saved_kept: "working h \<Longrightarrow> templates_kept user h (snd (create_saved env user name 0 steps h))"
  by (auto simp: create_saved_def templates_kept_def db_insert_workflow_def sql_run_def sql_write_def Let_def case_prod_beta)

lemma delete_saved_kept:
  assumes "working h" "templates_ok (tabs h)" "\<not> is_admin role"
  shows "templates_kept user h (snd (delete_saved_workflow k user role h))"
proof (cases "find (\<lambda>v. wf_id v = k) (t_workflows (tabs h))")
  case None
  then show ?thesis by (simp add: delete_saved_workflow_def ask_get_workflow [OF assms(1)])
next
  case (Some v)
  then have v: "v \<in> set (t_workflows (tabs h))" "wf_id v = k" by (auto simp: find_Some_iff)
  have "wf_id w \<noteq> k" if "w \<in> set (t_workflows (tabs h))" "buf 128 (wf_owner_id w) \<noteq> user" "buf 128 (wf_owner_id v) = user" for w
    using templates_ok_same [OF assms(2) v(1)] v(2) that by metis
  then show ?thesis using Some assms(1,3)
    by (auto simp: delete_saved_workflow_def ask_get_workflow read_workflow_def templates_kept_def db_delete_workflow_def)
qed

lemma toggle_kept: "working h \<Longrightarrow> templates_kept user h (snd (toggle_workflow_favorite k u h))"
  by (auto simp: toggle_workflow_favorite_def ask_get_workflow ask_read [where q = "db_is_workflow_favorite u k"] db_is_workflow_favorite_def
      templates_kept_def db_add_workflow_favorite_def db_remove_workflow_favorite_def Let_def sql_run_def sql_write_def case_prod_beta split: option.splits)

text \<open>
  C12: a user cannot touch the saved workflows of others. Whatever a user who is not an administrator asks,
  a template that belongs to someone else stays as it was, and he never makes a template global.
\<close>

theorem workflow_ownership:
  assumes "working h" "templates_ok (tabs h)" "\<not> is_admin role"
    "save_workflow env rq user role h = Some (reply, h') \<or> delete_saved_workflow k user role h = (reply, h') \<or> toggle_workflow_favorite k user h = (reply, h')"
  shows "(\<forall>w \<in> set (t_workflows (tabs h)). buf 128 (wf_owner_id w) \<noteq> user \<longrightarrow> w \<in> set (t_workflows (tabs h'))) \<and>
    (\<forall>w \<in> set (t_workflows (tabs h')). wf_is_global w \<noteq> 0 \<longrightarrow> w \<in> set (t_workflows (tabs h)))"
proof -
  have "templates_kept user h h'" if "save_workflow env rq user role h = Some (reply, h')"
    using that assms(3) update_saved_kept [OF assms(1-3)] create_saved_kept [OF assms(1)]
    by (auto simp: save_workflow_def Let_def split: option.splits if_splits; metis snd_conv)
  then have "templates_kept user h h'"
    using assms(4) delete_saved_kept [OF assms(1-3)] toggle_kept [OF assms(1)] by (metis snd_conv)
  then show ?thesis by (simp add: templates_kept_def)
qed

text \<open>A template of Bob, and Ann who tries to delete it.\<close>

definition demo_template :: workflow_row where
  "demo_template = \<lparr> wf_id = ''w1'', wf_name = ''study'', wf_owner_id = ''bob'', wf_is_global = 0, wf_steps_json = [], wf_created_at = 0, wf_updated_at = 0 \<rparr>"

definition demo_templates :: http_sys where
  "demo_templates = demo_http\<lparr>hs_core := demo_sched\<lparr>sy_db := opened_db (empty_tables\<lparr>t_workflows := [demo_template]\<rparr>)\<rparr>\<rparr>"

theorem workflow_ownership_witness:
  "demo_template \<in> set (t_workflows (tabs (snd (delete_saved_workflow ''w1'' ''ann'' ''user'' demo_templates))))"
proof -
  have h: "working demo_templates" "templates_ok (tabs demo_templates)" "t_workflows (tabs demo_templates) = [demo_template]"
    by (simp_all add: demo_templates_def templates_ok_def demo_template_def)
  show ?thesis using workflow_ownership [OF h(1,2), of "''user''" demo_flow_env demo_request "''ann''"
      "fst (delete_saved_workflow ''w1'' ''ann'' ''user'' demo_templates)" "snd (delete_saved_workflow ''w1'' ''ann'' ''user'' demo_templates)" "''w1''"]
    by (simp add: h(3)) (simp add: demo_template_def buf_def)
qed

end
