(* ===== verification/Routes.thy ===== *)
theory Routes
  imports Accounts Workflows
begin

text \<open>
  The dispatcher \<open>routes_handler\<close> at the end of \<open>src/http/routes.c\<close>: which handler a request reaches,
  with which arguments. Its sections follow the order of the code. \<open>None\<close> in a section is falling
  through to the next one.
\<close>

section \<open>Model\<close>

text \<open>
  The calls the dispatcher makes, one constructor per handler: the handlers of one job, those that get
  the identity of the caller, those of administrators, and the others. \<open>Reply_Error\<close> is
  \<open>http_error\<close>, \<open>Preflight\<close> the empty answer 204.
\<close>

datatype job_call =
    Get_Job | Cancel_Job | Retry_Job | Release_Job | Upload_Input string | Download_Output string
  | List_Job_Files | Artifacts_List | Get_Job_Deps | Get_Job_Log bool

datatype user_call =
    Auth_Me | Auth_Change_Password | Submit_Job | List_Jobs | Sse_Subscribe | List_Queue
  | Batches_Submit | Batches_Get string | List_Saved_Workflows | Save_Workflow | Submit_Workflow
  | Delete_Saved_Workflow string | Toggle_Workflow_Favorite string

datatype table_call =
    List_Quotas | Upsert_Quota | Delete_Quota | List_Keys | Create_Key | Revoke_Key | Upsert_App
  | Delete_App string | List_Users | Create_Users | Update_User | Delete_User

datatype admin_call =
    Admin_Get_Presim_Config | Admin_Update_Presim_Config | Admin_Maintenance bool | Get_Metrics | Purge_Jobs
  | Add_Machine | Remove_Machine string | Admin_List_Events | Admin_Report string | Admin_Machines_Status
  | Admin_Cloud_Provision | Admin_Cloud_Deprovision | Admin_Wol | Admin_Table table_call

datatype call =
    Reply_Error int string | Preflight | Serve_Web_Ui | Serve_Web_File string | Auth_Login | Auth_Methods
  | List_Apps | Get_App string | List_Workers | Get_Stats
  | On_Job job_call string | As_User user_call string string | As_Admin admin_call

definition uri_of :: "request \<Rightarrow> string" where "uri_of rq = buf 256 (rq_uri rq)"
definition method_of :: "request \<Rightarrow> string" where "method_of rq = buf 16 (rq_method rq)"
definition seg :: "request \<Rightarrow> nat \<Rightarrow> string" where "seg rq i = extract_segment (uri_of rq) i 128"

abbreviation forbidden_admin :: call where
  "forbidden_admin \<equiv> Reply_Error 403 ''Forbidden: admin role required''"

abbreviation not_found :: call where
  "not_found \<equiv> Reply_Error 404 ''Not found''"

abbreviation experimental_off :: call where
  "experimental_off \<equiv> Reply_Error 404 ''Experimental feature disabled''"

definition route_https :: "config \<Rightarrow> request \<Rightarrow> call option" where
  "route_https cfg rq =
     (if cf_require_https cfg \<noteq> 0 \<and> rq_header rq ''X-Forwarded-Proto'' \<noteq> Some ''https''
      then Some (Reply_Error 426 ''HTTPS required'') else None)"

definition route_cors :: "config \<Rightarrow> request \<Rightarrow> call option" where
  "route_cors cfg rq =
     (if method_of rq = ''OPTIONS'' then
        if cf_cors_allowed_origin cfg = [] \<or> rq_header rq ''Origin'' \<noteq> Some (cf_cors_allowed_origin cfg)
        then Some (Reply_Error 403 ''Cross-origin request denied'') else Some Preflight
      else None)"

definition web_path :: "request \<Rightarrow> string" where
  "web_path rq = fold (\<lambda>s rel. buf 256 (buf 256 (rel @ ''/'') @ s)) (takeWhile (\<lambda>s. s \<noteq> []) (map (seg rq) [2, 3, 4])) (buf 256 (seg rq 1))"

definition route_web :: "config \<Rightarrow> request \<Rightarrow> call option" where
  "route_web cfg rq =
     (let ui_off = Reply_Error 403 ''Web UI disabled (bastion/API-only mode)'' in
      if seg rq 0 = [] \<or> seg rq 0 = ''ui'' then Some (if cf_web_ui_enabled cfg = 0 then ui_off else Serve_Web_Ui)
      else if seg rq 0 = ''web'' \<and> method_of rq = ''GET'' \<and> seg rq 1 \<noteq> [] then
        Some (if cf_web_ui_enabled cfg = 0 then ui_off else Serve_Web_File (web_path rq))
      else None)"

definition route_public :: "request \<Rightarrow> call option" where
  "route_public rq =
     (if seg rq 0 = ''auth'' then
        if method_of rq = ''POST'' \<and> seg rq 1 = ''login'' then Some Auth_Login
        else if method_of rq = ''GET'' \<and> seg rq 1 = ''methods'' then Some Auth_Methods
        else None
      else None)"

definition route_auth :: "request \<Rightarrow> string \<Rightarrow> string \<Rightarrow> call option" where
  "route_auth rq user role =
     (if seg rq 0 = ''auth'' then
        if method_of rq = ''GET'' \<and> seg rq 1 = ''me'' then Some (As_User Auth_Me user role)
        else if method_of rq = ''POST'' \<and> seg rq 1 = ''change-password'' then Some (As_User Auth_Change_Password user role)
        else Some not_found
      else None)"

definition route_admin_gate :: "config \<Rightarrow> request \<Rightarrow> string \<Rightarrow> call option" where
  "route_admin_gate cfg rq role =
     (let m = method_of rq in
      if seg rq 0 = ''admin'' \<and> \<not> is_admin role then Some forbidden_admin
      else if seg rq 0 = ''admin'' \<and> seg rq 1 = ''presim-config'' then
        Some (if cf_experimental_features_enabled cfg = 0 then experimental_off
              else if m = ''GET'' then As_Admin Admin_Get_Presim_Config
              else if m = ''POST'' then As_Admin Admin_Update_Presim_Config else not_found)
      else if seg rq 0 = ''admin'' \<and> seg rq 1 = ''maintenance'' then
        Some (if m = ''GET'' then As_Admin (Admin_Maintenance False) else if m = ''POST'' then As_Admin (Admin_Maintenance True) else not_found)
      else if seg rq 0 = ''metrics'' then
        Some (if \<not> is_admin role then forbidden_admin
              else if m = ''GET'' \<and> seg rq 1 = [] then As_Admin Get_Metrics else not_found)
      else None)"

text \<open>A request on one job, once the caller may see it.\<close>

definition route_job :: "request \<Rightarrow> call option" where
  "route_job rq =
     (let m = method_of rq; s1 = seg rq 1; s2 = seg rq 2; s3 = seg rq 3 in
      if m = ''GET'' \<and> s2 = [] then Some (On_Job Get_Job s1)
      else if m = ''DELETE'' \<and> s2 = [] then Some (On_Job Cancel_Job s1)
      else if m = ''POST'' \<and> s2 = ''cancel'' \<and> s3 = [] then Some (On_Job Cancel_Job s1)
      else if m = ''POST'' \<and> s2 = ''retry'' \<and> s3 = [] then Some (On_Job Retry_Job s1)
      else if m = ''POST'' \<and> s2 = ''release'' \<and> s3 = [] then Some (On_Job Release_Job s1)
      else if m = ''POST'' \<and> s2 = ''input'' \<and> s3 \<noteq> [] then Some (On_Job (Upload_Input s3) s1)
      else if m = ''GET'' \<and> s2 = ''output'' \<and> s3 \<noteq> [] then Some (On_Job (Download_Output s3) s1)
      else if m = ''GET'' \<and> s2 = ''files'' \<and> s3 = [] then Some (On_Job List_Job_Files s1)
      else if m = ''GET'' \<and> s2 = ''artifacts'' \<and> s3 = [] then Some (On_Job Artifacts_List s1)
      else if m = ''GET'' \<and> s2 = ''deps'' \<and> s3 = [] then Some (On_Job Get_Job_Deps s1)
      else if m = ''GET'' \<and> s2 = ''log'' then Some (On_Job (Get_Job_Log (s3 = ''stderr'')) s1)
      else if m = ''GET'' \<and> s2 = ''logs'' then Some (On_Job (Get_Job_Log (s3 = ''stderr'')) s1)
      else None)"

definition route_jobs :: "request \<Rightarrow> string \<Rightarrow> string \<Rightarrow> http_sys \<Rightarrow> call option \<times> http_sys" where
  "route_jobs rq user role h =
     (let m = method_of rq; s1 = seg rq 1 in
      if seg rq 0 \<noteq> ''jobs'' then (None, h)
      else if m = ''POST'' \<and> s1 = [] then (Some (As_User Submit_Job user role), h)
      else if m = ''GET'' \<and> s1 = [] then (Some (As_User List_Jobs user role), h)
      else if m = ''DELETE'' \<and> s1 = [] then (Some (if \<not> is_admin role then forbidden_admin else As_Admin Purge_Jobs), h)
      else if m = ''GET'' \<and> s1 = ''events'' then (Some (As_User Sse_Subscribe user role), h)
      else if s1 = [] then (None, h)
      else if \<not> safe_cli_name s1 then (Some (Reply_Error 404 ''Job not found''), h)
      else if is_admin role then (route_job rq, h)
      else case ask (db_get_job s1) h of
        (None, h1) \<Rightarrow> (Some (Reply_Error 404 ''Job not found''), h1)
      | (Some chk, h1) \<Rightarrow>
          (if j_user_id chk = [] \<or> j_user_id chk \<noteq> user then Some (Reply_Error 404 ''Job not found'') else route_job rq, h1))"

definition route_shared :: "config \<Rightarrow> request \<Rightarrow> string \<Rightarrow> string \<Rightarrow> call option" where
  "route_shared cfg rq user role =
     (let m = method_of rq; s0 = seg rq 0; s1 = seg rq 1; s2 = seg rq 2; s3 = seg rq 3 in
      if s0 = ''queue'' \<and> m = ''GET'' \<and> s1 = [] then Some (As_User List_Queue user role)
      else if s0 = ''batches'' then
        Some (if m = ''POST'' \<and> s1 = [] then As_User Batches_Submit user role
              else if m = ''GET'' \<and> s1 \<noteq> [] \<and> s2 = [] then As_User (Batches_Get s1) user role else not_found)
      else if s0 = ''apps'' \<and> m = ''GET'' \<and> s1 = [] then Some List_Apps
      else if s0 = ''apps'' \<and> m = ''GET'' \<and> s1 \<noteq> [] \<and> s2 = [] then Some (Get_App s1)
      else if s0 = ''workflows'' then
        if cf_experimental_features_enabled cfg = 0 then Some experimental_off
        else if m = ''GET'' \<and> s1 = [] then Some (As_User List_Saved_Workflows user role)
        else if m = ''POST'' \<and> s1 = [] then Some (As_User Save_Workflow user role)
        else if m = ''POST'' \<and> s1 = ''run'' \<and> s2 = [] then Some (As_User Submit_Workflow user role)
        else if m = ''DELETE'' \<and> s1 \<noteq> [] \<and> s2 = [] then Some (As_User (Delete_Saved_Workflow s1) user role)
        else if m = ''POST'' \<and> s1 \<noteq> [] \<and> s2 = ''favorite'' \<and> s3 = [] then Some (As_User (Toggle_Workflow_Favorite s1) user role)
        else None
      else None)"

definition route_machines :: "request \<Rightarrow> string \<Rightarrow> call option" where
  "route_machines rq role =
     (let m = method_of rq; s0 = seg rq 0; s1 = seg rq 1; s2 = seg rq 2 in
      if s0 = ''workers'' then
        Some (if m = ''GET'' \<and> s1 = [] then List_Workers
              else if \<not> is_admin role then forbidden_admin
              else if m = ''POST'' \<and> s1 = [] then As_Admin Add_Machine
              else if m = ''DELETE'' \<and> s1 \<noteq> [] \<and> s2 = [] then As_Admin (Remove_Machine s1) else not_found)
      else if s0 = ''resources'' \<and> m = ''GET'' then Some List_Workers
      else if s0 = ''stats'' \<and> m = ''GET'' then Some Get_Stats
      else if s0 = ''provision'' then
        if \<not> is_admin role then Some forbidden_admin
        else if m = ''POST'' \<and> s1 = [] then Some (As_Admin Add_Machine)
        else if m = ''DELETE'' \<and> s1 \<noteq> [] then Some (As_Admin (Remove_Machine s1))
        else None
      else None)"

text \<open>The tables below \<open>/admin\<close>, reached by administrators only.\<close>

definition route_admin_data :: "request \<Rightarrow> call option" where
  "route_admin_data rq =
     (let m = method_of rq; s1 = seg rq 1; s2 = seg rq 2 in
      if seg rq 0 \<noteq> ''admin'' then None
      else if s1 = ''quotas'' \<and> s2 = [] then
        if m = ''GET'' then Some (As_Admin (Admin_Table List_Quotas)) else if m = ''POST'' \<or> m = ''PUT'' then Some (As_Admin (Admin_Table Upsert_Quota))
        else if m = ''DELETE'' then Some (As_Admin (Admin_Table Delete_Quota)) else None
      else if s1 = ''keys'' \<and> s2 = [] then
        if m = ''GET'' then Some (As_Admin (Admin_Table List_Keys)) else if m = ''POST'' then Some (As_Admin (Admin_Table Create_Key))
        else if m = ''DELETE'' then Some (As_Admin (Admin_Table Revoke_Key)) else None
      else if s1 = ''apps'' then
        if (m = ''POST'' \<or> m = ''PUT'') \<and> s2 = [] then Some (As_Admin (Admin_Table Upsert_App))
        else if m = ''DELETE'' \<and> s2 \<noteq> [] then Some (As_Admin (Admin_Table (Delete_App s2))) else None
      else if s1 = ''users'' \<and> s2 = [] then
        if m = ''GET'' then Some (As_Admin (Admin_Table List_Users)) else if m = ''POST'' then Some (As_Admin (Admin_Table Create_Users))
        else if m = ''PUT'' then Some (As_Admin (Admin_Table Update_User)) else if m = ''DELETE'' then Some (As_Admin (Admin_Table Delete_User)) else None
      else None)"

definition route_admin_ops :: "config \<Rightarrow> request \<Rightarrow> call option" where
  "route_admin_ops cfg rq =
     (let m = method_of rq; s1 = seg rq 1; s2 = seg rq 2; ex = (cf_experimental_features_enabled cfg \<noteq> 0) in
      if seg rq 0 \<noteq> ''admin'' then None
      else if s1 = ''events'' \<and> m = ''GET'' then Some (As_Admin Admin_List_Events)
      else if s1 = ''reports'' \<and> m = ''GET'' \<and> s2 = ''jobs'' then Some (As_Admin (Admin_Report ''jobs''))
      else if s1 = ''reports'' \<and> m = ''GET'' \<and> s2 = ''users'' then Some (As_Admin (Admin_Report ''users''))
      else if s1 = ''reports'' \<and> m = ''GET'' \<and> s2 = ''apps'' then Some (As_Admin (Admin_Report ''apps''))
      else if s1 = ''reports'' \<and> m = ''GET'' \<and> s2 = ''machines'' then Some (As_Admin (Admin_Report ''machines''))
      else if s1 = ''machines'' \<and> s2 = ''status'' \<and> m = ''GET'' then Some (As_Admin Admin_Machines_Status)
      else if s1 = ''cloud'' \<and> \<not> ex then Some experimental_off
      else if s1 = ''cloud'' \<and> m = ''POST'' \<and> s2 = ''provision'' then Some (As_Admin Admin_Cloud_Provision)
      else if s1 = ''cloud'' \<and> m = ''POST'' \<and> s2 = ''deprovision'' then Some (As_Admin Admin_Cloud_Deprovision)
      else if s1 = ''wol'' \<and> \<not> ex then Some experimental_off
      else if s1 = ''wol'' \<and> m = ''POST'' then Some (As_Admin Admin_Wol)
      else None)"

fun first_call :: "call option list \<Rightarrow> call option" where
  "first_call [] = None"
| "first_call (None # xs) = first_call xs"
| "first_call (Some x # xs) = Some x"

text \<open>The sections a request with a key goes through.\<close>

definition route_authenticated :: "config \<Rightarrow> request \<Rightarrow> string \<Rightarrow> string \<Rightarrow> http_sys \<Rightarrow> call \<times> http_sys" where
  "route_authenticated cfg rq role user h =
     (case first_call [route_auth rq user role, route_admin_gate cfg rq role] of
        Some x \<Rightarrow> (x, h)
      | None \<Rightarrow>
          (case route_jobs rq user role h of
             (Some x, h1) \<Rightarrow> (x, h1)
           | (None, h1) \<Rightarrow>
               (case first_call [route_shared cfg rq user role, route_machines rq role, route_admin_data rq, route_admin_ops cfg rq] of
                  Some x \<Rightarrow> (x, h1)
                | None \<Rightarrow> (not_found, h1))))"

definition routes_handler :: "config \<Rightarrow> request \<Rightarrow> http_sys \<Rightarrow> call \<times> http_sys" where
  "routes_handler cfg rq h =
     (case first_call [route_https cfg rq, route_cors cfg rq, route_web cfg rq, route_public rq] of
        Some x \<Rightarrow> (x, h)
      | None \<Rightarrow>
          (case ask (auth_check_role_user (now_of h) (rq_header rq ''X-API-Key'')) h of
             (None, h1) \<Rightarrow> (Reply_Error 401 ''Unauthorized'', h1)
           | (Some (role, user), h1) \<Rightarrow> route_authenticated cfg rq role user h1))"

section \<open>Laws\<close>

lemma first_call_in: "first_call xs = Some x \<Longrightarrow> Some x \<in> set xs"
  by (induction xs rule: first_call.induct) auto

text \<open>What a call may be, given who asks and which jobs are his: the contract of the sections.\<close>

definition permitted :: "string \<Rightarrow> string \<Rightarrow> (string \<Rightarrow> bool) \<Rightarrow> call \<Rightarrow> bool" where
  "permitted role user own x =
     (case x of
        As_Admin _ \<Rightarrow> is_admin role
      | On_Job _ i \<Rightarrow> safe_cli_name i \<and> (is_admin role \<or> own i)
      | As_User _ u r \<Rightarrow> u = user \<and> r = role
      | _ \<Rightarrow> True)"

lemma first_call_all: "list_all (pred_option P) xs \<Longrightarrow> pred_option P (first_call xs)"
  by (induction xs rule: first_call.induct) auto

lemma if_all: "(c \<Longrightarrow> P x) \<Longrightarrow> (\<not> c \<Longrightarrow> P y) \<Longrightarrow> P (if c then x else y)"
  by simp

lemma permitted_sections:
  "pred_option (permitted role user own) (route_auth rq user role)"
  "pred_option (permitted role user own) (route_admin_gate cfg rq role)"
  "pred_option (permitted role user own) (route_shared cfg rq user role)"
  "pred_option (permitted role user own) (route_machines rq role)"
  by (simp_all add: route_auth_def route_admin_gate_def route_shared_def route_machines_def permitted_def Let_def)

lemma permitted_job:
  "safe_cli_name (seg rq 1) \<Longrightarrow> is_admin role \<or> own (seg rq 1) \<Longrightarrow> pred_option (permitted role user own) (route_job rq)"
  by (simp add: route_job_def permitted_def Let_def)

lemma permitted_admin:
  assumes "seg rq 0 = ''admin'' \<Longrightarrow> is_admin role"
  shows "pred_option (permitted role user own) (route_admin_data rq)" "pred_option (permitted role user own) (route_admin_ops cfg rq)"
  using assms by (simp_all add: route_admin_data_def route_admin_ops_def permitted_def Let_def)

lemma route_admin_gate_None: "route_admin_gate cfg rq role = None \<Longrightarrow> seg rq 0 = ''admin'' \<Longrightarrow> is_admin role"
  by (simp add: route_admin_gate_def Let_def split: if_splits)

text \<open>The jobs of a user, by the table.\<close>

definition owns :: "tables \<Rightarrow> string \<Rightarrow> string \<Rightarrow> bool" where
  "owns t user i \<longleftrightarrow> user \<noteq> [] \<and> (\<exists>row \<in> set (t_jobs t). r_id row = i \<and> buf JOB_USER_LEN (r_user_id row) = user)"

lemma permitted_jobs:
  assumes "route_jobs rq user role h = (x, h')"
  shows "pred_option (permitted role user (owns (tabs h) user)) x \<and> tabs h' = tabs h"
proof (cases "seg rq 0 = ''jobs'' \<and> seg rq 1 \<noteq> [] \<and> safe_cli_name (seg rq 1) \<and> \<not> is_admin role \<and> \<not> (method_of rq = ''GET'' \<and> seg rq 1 = ''events'')")
  case False
  then show ?thesis using assms permitted_job [of rq role "owns (tabs h) user" user]
    by (auto simp: route_jobs_def Let_def permitted_def split: if_splits)
next
  case True
  obtain chk h1 where q: "ask (db_get_job (seg rq 1)) h = (chk, h1)" by force
  have t: "tabs h1 = tabs h" using q by (auto simp: ask_def split: prod.splits dest: db_get_job_tables)
  have own: "owns (tabs h) user (seg rq 1)" if "chk = Some job" "j_user_id job \<noteq> []" "j_user_id job = user" for job
    using q that by (auto simp: ask_def owns_def split: prod.splits dest!: db_get_job_owner)
  show ?thesis using assms True q t own permitted_job [of rq role "owns (tabs h) user" user]
    by (auto simp: route_jobs_def Let_def permitted_def [of _ _ _ "Reply_Error _ _"] split: if_splits option.splits)
qed

lemma permitted_authenticated:
  assumes "route_authenticated cfg rq role user h = (x, h')"
  shows "permitted role user (owns (tabs h) user) x \<and> tabs h' = tabs h"
proof -
  let ?P = "permitted role user (owns (tabs h) user)"
  obtain y h1 where j: "route_jobs rq user role h = (y, h1)" by force
  note J = permitted_jobs [OF j]
  define a where "a = first_call [route_auth rq user role, route_admin_gate cfg rq role]"
  define b where "b = first_call [route_shared cfg rq user role, route_machines rq role, route_admin_data rq, route_admin_ops cfg rq]"
  have a: "pred_option ?P a" unfolding a_def using permitted_sections by (intro first_call_all) simp
  have b: "pred_option ?P b" if "a = None"
  proof -
    have "route_admin_gate cfg rq role = None" using that by (simp add: a_def split: option.splits)
      (cases "route_auth rq user role"; cases "route_admin_gate cfg rq role"; simp)
    from permitted_admin [OF route_admin_gate_None [OF this]] show ?thesis
      unfolding b_def using permitted_sections by (intro first_call_all) simp
  qed
  have "(x, h') = (case a of Some x \<Rightarrow> (x, h) | None \<Rightarrow> (case y of Some x \<Rightarrow> (x, h1)
      | None \<Rightarrow> (case b of Some x \<Rightarrow> (x, h1) | None \<Rightarrow> (not_found, h1))))"
    using assms j by (simp add: route_authenticated_def a_def b_def split: option.splits)
  then show ?thesis using a b J by (auto simp: permitted_def [of _ _ _ not_found] split: option.splits)
qed

text \<open>The calls that need no key.\<close>

definition open_call :: "call \<Rightarrow> bool" where
  "open_call x = (case x of
     Reply_Error _ _ \<Rightarrow> True | Preflight \<Rightarrow> True | Serve_Web_Ui \<Rightarrow> True | Serve_Web_File _ \<Rightarrow> True
   | Auth_Login \<Rightarrow> True | Auth_Methods \<Rightarrow> True | _ \<Rightarrow> False)"

lemma open_sections:
  "list_all (pred_option open_call) [route_https cfg rq, route_cors cfg rq, route_web cfg rq, route_public rq]"
  by (simp add: route_https_def route_cors_def route_web_def route_public_def open_call_def Let_def)

section \<open>Claims\<close>

text \<open>
  C6: who reaches which handler. A request without a valid key gets an error, the web interface, the
  preflight answer, the login or the list of methods. With a key, the handlers of administrators are
  reached with the role admin only, the handlers of one job by administrators and by the user whose
  name is in the row of that job, and the handlers that act for a user get exactly the user and the
  role of the key. Dispatching changes no table, and where HTTPS is required nothing but the error 426
  is answered to a request that did not come over it.
\<close>

theorem routes_authorized:
  assumes "routes_handler cfg rq h = (x, h')"
  shows "tabs h' = tabs h \<and>
    (open_call x \<or> (\<exists>role user. valid_key (now_of h) (rq_header rq ''X-API-Key'') (tabs h) role user \<and>
       (case x of
          As_Admin _ \<Rightarrow> is_admin role
        | On_Job _ i \<Rightarrow> safe_cli_name i \<and> (is_admin role \<or> owns (tabs h) user i)
        | As_User _ u r \<Rightarrow> u = user \<and> r = role
        | _ \<Rightarrow> True))) \<and>
    (cf_require_https cfg \<noteq> 0 \<and> rq_header rq ''X-Forwarded-Proto'' \<noteq> Some ''https'' \<longrightarrow> x = Reply_Error 426 ''HTTPS required'')"
proof -
  define a where "a = first_call [route_https cfg rq, route_cors cfg rq, route_web cfg rq, route_public rq]"
  have a: "pred_option open_call a" unfolding a_def by (rule first_call_all [OF open_sections])
  have https: "cf_require_https cfg \<noteq> 0 \<and> rq_header rq ''X-Forwarded-Proto'' \<noteq> Some ''https'' \<longrightarrow> a = Some (Reply_Error 426 ''HTTPS required'')"
    by (simp add: a_def route_https_def)
  show ?thesis
  proof (cases a)
    case (Some y)
    then show ?thesis using assms a https by (simp add: routes_handler_def a_def)
  next
    case None
    obtain r h1 where q: "ask (auth_check_role_user (now_of h) (rq_header rq ''X-API-Key'')) h = (r, h1)" by force
    have t: "tabs h1 = tabs h" using q by (auto simp: ask_def split: prod.splits dest: auth_check_tables)
    show ?thesis
    proof (cases r)
      case None
      then show ?thesis using assms \<open>a = None\<close> q t https by (auto simp: routes_handler_def a_def open_call_def)
    next
      case (Some p)
      obtain role user where p: "p = (role, user)" by force
      have key: "valid_key (now_of h) (rq_header rq ''X-API-Key'') (tabs h) role user"
        using q Some p by (auto simp: ask_def split: prod.splits dest: auth_check_key)
      have "route_authenticated cfg rq role user h1 = (x, h')"
        using assms \<open>a = None\<close> q Some p by (simp add: routes_handler_def a_def)
      from permitted_authenticated [OF this, unfolded t permitted_def] show ?thesis using key https \<open>a = None\<close> by blast
    qed
  qed
qed

text \<open>A user asks to cancel his job.\<close>

definition demo_routes :: http_sys where
  "demo_routes = (demo_accounts [demo_user_key])\<lparr>hs_core := demo_sched\<lparr>sy_db := opened_db (empty_tables\<lparr>t_api_keys := [demo_user_key],
     t_jobs := [insert_job_row (job_zero\<lparr>j_id := ''a'', j_user_id := ''ann''\<rparr>)]\<rparr>)\<rparr>\<rparr>"

definition demo_cancel :: request where
  "demo_cancel = \<lparr> rq_method = ''DELETE'', rq_uri = ''/jobs/a'', rq_header = (\<lambda>n. if n = ''X-API-Key'' then Some demo_key else None),
     rq_var = (\<lambda>_ _. (-4, [])), rq_body = [], rq_peer = 1 \<rparr>"

lemma demo_cancel_segments: "method_of demo_cancel = ''DELETE''" "seg demo_cancel 0 = ''jobs''" "seg demo_cancel (Suc 0) = ''a''" "seg demo_cancel 2 = []"
  by code_simp+

lemma demo_routes_call: "routes_handler config_defaults demo_cancel demo_routes = (On_Job Cancel_Job ''a'', demo_routes)"
proof -
  have "auth_check_role_user t (Some demo_key) (sy_db (hs_core demo_routes)) = (Some (''user'', ''ann''), sy_db (hs_core demo_routes))" for t
    by (subst auth_check_works [where k = demo_user_key])
      (simp_all add: demo_routes_def demo_user_key_def demo_key_def isxdigit_def list_all_iff less_eq_char_def)
  then have key: "ask (auth_check_role_user t (rq_header demo_cancel ''X-API-Key'')) demo_routes = (Some (''user'', ''ann''), demo_routes)" for t
    by (simp add: ask_def demo_cancel_def)
  have "ask (db_get_job ''a'') demo_routes = (Some (row_to_job True (insert_job_row (job_zero\<lparr>j_id := ''a'', j_user_id := ''ann''\<rparr>))), demo_routes)"
    by (subst ask_get_job) (simp_all add: demo_routes_def insert_job_row_def)
  then have "route_jobs demo_cancel ''ann'' ''user'' demo_routes = (Some (On_Job Cancel_Job ''a''), demo_routes)"
    by (simp add: route_jobs_def route_job_def demo_cancel_segments Let_def safe_cli_name_def is_alnum_def row_to_job_def
        insert_job_row_def JOB_USER_LEN_def)
  then show ?thesis using key
    by (simp add: routes_handler_def route_https_def route_cors_def route_web_def route_public_def config_defaults_def
        route_authenticated_def route_auth_def route_admin_gate_def demo_cancel_segments Let_def)
qed

theorem routes_authorized_witness:
  "\<exists>role user. valid_key (now_of demo_routes) (Some demo_key) (tabs demo_routes) role user \<and> (is_admin role \<or> owns (tabs demo_routes) user ''a'')"
proof -
  have h: "rq_header demo_cancel ''X-API-Key'' = Some demo_key" by (simp add: demo_cancel_def)
  from routes_authorized [OF demo_routes_call] show ?thesis by (auto simp: open_call_def h)
qed

end
