(* ===== verification/Views.thy ===== *)
theory Views
  imports Workflows
begin

text \<open>
  The handlers of \<open>src/http/routes.c\<close> that only show something, and maintenance mode: the lists of jobs, the
  queue, the dependencies of a job, the first message of an event stream, statistics and metrics. The
  numbers the C library reads from a query (\<open>atof\<close>) are an argument, \<open>None\<close> for a NaN, whose conversion to
  \<open>int\<close> C leaves undefined and which is an argument too. The last two fields of the environment are the
  answers of the network to a wake-on-LAN packet.
\<close>

section \<open>Model\<close>

record view_env =
  ve_atof :: "string \<Rightarrow> cnum option"
  ve_nan_int :: int
  ve_socket_ok :: bool
  ve_sendto_rc :: int

text \<open>\<open>http_json_reply\<close> sends \<open>null\<close> when the printer has no memory.\<close>

definition json_reply :: "req_env \<Rightarrow> int \<Rightarrow> json \<Rightarrow> reply" where
  "json_reply env code body = Http_Json code (if re_print_ok env then body else JNull)"

definition job_status_from_text :: "string \<Rightarrow> int" where
  "job_status_from_text s =
     (if s = [] then -1
      else if s = ''IN_QUEUE'' \<or> s = ''QUEUED'' then status_code JOB_STATUS_QUEUED
      else if s = ''STARTING'' \<or> s = ''RUNNING'' then status_code JOB_STATUS_RUNNING
      else if s = ''FINISHED'' \<or> s = ''SUCCEEDED'' then status_code JOB_STATUS_SUCCEEDED
      else if s = ''CANCELLED'' then status_code JOB_STATUS_CANCELLED
      else if s = ''FAILED'' then status_code JOB_STATUS_FAILED
      else if s = ''HELD'' \<or> s = ''CREATED'' then status_code JOB_STATUS_CREATED
      else -2)"

definition list_jobs :: "req_env \<Rightarrow> request \<Rightarrow> string \<Rightarrow> string \<Rightarrow> http_sys \<Rightarrow> reply \<times> http_sys" where
  "list_jobs env rq auth_user_id auth_role h =
     (case (parse_query_int rq ''limit'' 100 1 500, parse_query_int rq ''offset'' 0 0 100000000) of
        (Some limit, Some offset) \<Rightarrow>
          let (status_len, value) = rq_var rq ''status'' 128;
              status = (if status_len > 0 then job_status_from_text value else -1);
              (app_len, app_filter) = rq_var rq ''app_id'' 128;
              (user_len, user_filter) = (if is_admin auth_role then rq_var rq ''user_id'' 128 else (0, [])) in
          if status = -2 then (Http_Error 400 ''Invalid job status filter'', h)
          else if app_len > 0 \<and> \<not> safe_cli_name app_filter then (Http_Error 400 ''Invalid app_id filter'', h)
          else if user_len > 0 \<and> \<not> safe_cli_name user_filter then (Http_Error 400 ''Invalid user_id filter'', h)
          else
            (case ask (db_query_jobs (re_calloc_ok env) (Some (if is_admin auth_role then user_filter else auth_user_id))
                         status (Some app_filter) limit offset) h of
               (None, h1) \<Rightarrow> (Http_Error 500 ''Failed to query jobs'', h1)
             | (Some jobs, h1) \<Rightarrow>
                 (if \<not> re_alloc_ok env then Http_Error 500 ''Out of memory'' else json_reply env 200 (JArray (map job_to_json jobs)), h1))
      | _ \<Rightarrow> (Http_Error 400 ''Invalid pagination parameters'', h))"

text \<open>One entry of the queue: its position among those shown.\<close>

definition queue_item :: "nat \<Rightarrow> job \<Rightarrow> json" where
  "queue_item visible job = JObject
     [(''position'', jnum (int visible + 1)), (''id'', JString (j_id job)), (''batch_id'', JString (j_batch_id job)),
      (''status'', JString (job_status_str (j_status job))), (''priority'', jnum (j_priority job)),
      (''submitted_at'', jnum (j_submitted_at job)), (''req_cores'', jnum (j_req_cores job)), (''req_gpu'', jnum (j_req_gpu job)),
      (''req_ram_mb'', jnum (j_req_ram_mb job))]"

fun queue_items :: "(job \<Rightarrow> bool) \<Rightarrow> int \<Rightarrow> nat \<Rightarrow> job list \<Rightarrow> json list" where
  "queue_items shown limit visible [] = []"
| "queue_items shown limit visible (job # jobs) =
     (if \<not> int visible < limit then []
      else if \<not> shown job then queue_items shown limit visible jobs
      else queue_item visible job # queue_items shown limit (Suc visible) jobs)"

definition queue_limit :: "view_env \<Rightarrow> request \<Rightarrow> int" where
  "queue_limit v rq =
     (let (len, value) = rq_var rq ''limit'' 32 in
      if len > 0 then (case ve_atof v value of Some x \<Rightarrow> clamp_int x 1 1000 | None \<Rightarrow> ve_nan_int v) else 100)"

definition list_queue :: "req_env \<Rightarrow> view_env \<Rightarrow> request \<Rightarrow> string \<Rightarrow> string \<Rightarrow> http_sys \<Rightarrow> reply \<times> http_sys" where
  "list_queue env v rq auth_user_id auth_role h =
     (if \<not> re_calloc_ok env then (Http_Error 500 ''Out of memory'', h)
      else let (jobs, h1) = ask (db_list_queued_jobs 1000 0) h;
               shown = (\<lambda>job. is_admin auth_role \<or> j_user_id job = auth_user_id) in
           (if \<not> re_print_ok env then Http_Error 500 ''Failed to encode queue''
            else Http_Json 200 (JArray (queue_items shown (queue_limit v rq) 0 jobs)), h1))"

text \<open>The loop over the dependencies: only leading blanks of an identifier are skipped.\<close>

fun dep_items :: "string list \<Rightarrow> http_sys \<Rightarrow> json list \<times> http_sys" where
  "dep_items [] h = ([], h)"
| "dep_items (tok # toks) h =
     (let name = dropWhile (\<lambda>c. c = CHR '' '') tok in
      if name = [] then dep_items toks h
      else let (dep, h1) = ask (db_get_job name) h;
               item = JObject ((''job_id'', JString name) #
                 (case dep of
                    Some job \<Rightarrow> [(''status'', JString (job_status_str (j_status job))), (''status_reason'', JString (j_status_reason job))]
                  | None \<Rightarrow> [(''status'', JString ''not_found'')]));
               (items, h2) = dep_items toks h1 in
           (item # items, h2))"

definition get_job_deps :: "req_env \<Rightarrow> string \<Rightarrow> http_sys \<Rightarrow> reply \<times> http_sys" where
  "get_job_deps env job_id h =
     (case ask (db_get_job job_id) h of
        (None, h1) \<Rightarrow> (Http_Error 404 ''Job not found'', h1)
      | (Some job, h1) \<Rightarrow>
          let (deps, h2) = dep_items (strtok CHR '','' (buf 2048 (j_depends_on job))) h1;
              (overall, h3) = ask (db_check_deps_status (j_depends_on job)) h2 in
          (json_reply env 200 (JObject [(''job_id'', JString (j_id job)), (''depends_on'', JString (j_depends_on job)),
             (''dependencies'', JArray deps),
             (''deps_status'', JString (if overall = 0 then ''satisfied'' else if overall = -1 then ''failed'' else ''waiting''))]), h3))"

text \<open>The first message of an event stream; the list of streams belongs to the server loop.\<close>

definition sse_subscribe :: "req_env \<Rightarrow> string \<Rightarrow> string \<Rightarrow> http_sys \<Rightarrow> reply \<times> http_sys" where
  "sse_subscribe env auth_user_id auth_role h =
     (let (jobs, h1) = (if re_alloc_ok env then ask (db_list_jobs 256) h else ([], h)) in
      (Http_Stream (JArray (map job_to_json (filter (\<lambda>job. is_admin auth_role \<or> j_user_id job = auth_user_id) jobs))), h1))"

subsection \<open>Statistics\<close>

definition sum_of :: "('a \<Rightarrow> int) \<Rightarrow> 'a list \<Rightarrow> int" where
  "sum_of f xs = sum_list (map f xs)"

definition count_of :: "('a \<Rightarrow> bool) \<Rightarrow> 'a list \<Rightarrow> int" where
  "count_of P xs = int (length (filter P xs))"

text \<open>\<open>memset\<close> and \<open>db_job_stats\<close> with its result ignored.\<close>

definition stats_or_zero :: "http_sys \<Rightarrow> job_stats \<times> http_sys" where
  "stats_or_zero h = (let (js, h1) = ask db_job_stats h in (case js of Some st \<Rightarrow> st | None \<Rightarrow> stats_zero, h1))"

definition get_stats :: "req_env \<Rightarrow> http_sys \<Rightarrow> reply \<times> http_sys" where
  "get_stats env h =
     (let (js, h1) = stats_or_zero h in
      case registry_snapshot (re_alloc_ok env) (sy_reg (hs_core h1)) of
        None \<Rightarrow> (Http_Error 500 ''Failed to snapshot machines'', h1)
      | Some ms \<Rightarrow>
          (json_reply env 200 (JObject
             [(''jobs'', JObject [(''total'', jnum (st_total js)), (''created'', jnum (st_created js)), (''queued'', jnum (st_queued js)),
                (''running'', jnum (st_running js)), (''succeeded'', jnum (st_succeeded js)), (''failed'', jnum (st_failed js)),
                (''cancelled'', jnum (st_cancelled js))]),
              (''machines'', JObject [(''total'', jnum (int (length ms))), (''enabled'', jnum (count_of m_enabled ms))]),
              (''resources'', JObject [(''cores_total'', jnum (sum_of m_cores_total ms)), (''cores_used'', jnum (sum_of m_cores_reserved ms)),
                (''ram_mb_total'', jnum (sum_of m_ram_mb_total ms)), (''ram_mb_used'', jnum (sum_of m_ram_mb_reserved ms))])]), h1))"

definition metric :: "string \<Rightarrow> int \<Rightarrow> string" where
  "metric name value = name @ '' '' @ dec value @ [newline]"

definition labelled :: "string \<Rightarrow> string \<Rightarrow> string \<Rightarrow> string" where
  "labelled name label value = name @ ''{'' @ label @ ''='' @ [dquote] @ value @ [dquote] @ ''}''"

definition metrics_body :: "job_stats \<Rightarrow> machine list \<Rightarrow> bool \<Rightarrow> string" where
  "metrics_body jobs ms accepting =
     (let online = count_of (\<lambda>m. m_probe_status m = MACHINE_ONLINE) ms;
          offline = count_of (\<lambda>m. m_probe_status m = MACHINE_OFFLINE) ms;
          probing = count_of (\<lambda>m. m_probe_status m \<notin> {MACHINE_ONLINE, MACHINE_OFFLINE}) ms;
          js = (\<lambda>st. metric (labelled ''bhc_jobs'' ''state'' st)); mst = (\<lambda>st. metric (labelled ''bhc_machines'' ''state'' st));
          rt = (\<lambda>r. metric (labelled ''bhc_resource_total'' ''resource'' r)); rr = (\<lambda>r. metric (labelled ''bhc_resource_reserved'' ''resource'' r)) in
      concat [''# HELP bhc_jobs Jobs by scheduler state.'', [newline], ''# TYPE bhc_jobs gauge'', [newline],
        js ''created'' (st_created jobs), js ''queued'' (st_queued jobs), js ''running'' (st_running jobs),
        js ''succeeded'' (st_succeeded jobs), js ''failed'' (st_failed jobs), js ''cancelled'' (st_cancelled jobs),
        ''# HELP bhc_machines Machines by availability state.'', [newline], ''# TYPE bhc_machines gauge'', [newline],
        mst ''enabled'' (count_of m_enabled ms), mst ''online'' online, mst ''offline'' offline, mst ''probing'' probing,
        ''# TYPE bhc_accepting_jobs gauge'', [newline], metric ''bhc_accepting_jobs'' (if accepting then 1 else 0),
        ''# TYPE bhc_resource_total gauge'', [newline], rt ''cores'' (sum_of m_cores_total ms), rt ''ram_mb'' (sum_of m_ram_mb_total ms),
        ''# TYPE bhc_resource_reserved gauge'', [newline], rr ''cores'' (sum_of m_cores_reserved ms), rr ''ram_mb'' (sum_of m_ram_mb_reserved ms)])"

definition get_metrics :: "req_env \<Rightarrow> http_sys \<Rightarrow> reply \<times> http_sys" where
  "get_metrics env h =
     (case ask db_job_stats h of
        (None, h1) \<Rightarrow> (Http_Error 500 ''Failed to collect metrics'', h1)
      | (Some jobs, h1) \<Rightarrow>
          (case registry_snapshot (re_alloc_ok env) (sy_reg (hs_core h1)) of
             None \<Rightarrow> (Http_Error 500 ''Failed to snapshot machines'', h1)
           | Some machines \<Rightarrow>
               let body = metrics_body jobs machines (hs_accepting_jobs h1) in
               (if length body \<ge> 4096 then Http_Error 500 ''Metrics output too large''
                else Http_Text 200 ''text/plain; version=0.0.4; charset=utf-8'' body, h1)))"

subsection \<open>Maintenance\<close>

definition push_event :: "req_env \<Rightarrow> string \<Rightarrow> string \<Rightarrow> string \<Rightarrow> http_sys \<Rightarrow> http_sys" where
  "push_event env category event_type detail = on_core (\<lambda>s.
     let (d, ring) = events_push_persistent (xe_print (re_exec env)) (sy_now s) (Some category) (Some event_type)
                       (Some detail) (Some []) (sy_db s, sy_ring s)
     in s\<lparr>sy_db := d, sy_ring := ring\<rparr>)"

definition maintenance_state :: "req_env \<Rightarrow> http_sys \<Rightarrow> reply \<times> http_sys" where
  "maintenance_state env h =
     (let (jobs, h1) = stats_or_zero h in
      (if \<not> re_alloc_ok env \<or> \<not> re_print_ok env then Http_Error 500 ''Out of memory''
       else Http_Json 200 (JObject [(''accepting_jobs'', JBool (hs_accepting_jobs h1)), (''active_jobs'', jnum (st_running jobs)),
              (''queued_jobs'', jnum (st_queued jobs + st_created jobs))]), h1))"

definition admin_maintenance :: "req_env \<Rightarrow> request \<Rightarrow> bool \<Rightarrow> http_sys \<Rightarrow> reply \<times> http_sys" where
  "admin_maintenance env rq update h =
     (if \<not> update then maintenance_state env h
      else case bool_value (Option.bind (af_parse (re_files env) (rq_body rq)) (\<lambda>request. get_item request ''accepting_jobs'')) of
        None \<Rightarrow> (Http_Error 400 (sq ''accepting_jobs'' @ '' boolean is required''), h)
      | Some accepting \<Rightarrow>
          maintenance_state env (push_event env ''system'' (if accepting then ''drain_disabled'' else ''drain_enabled'')
            (if accepting then ''Job submissions enabled'' else ''Job submissions paused'') (h\<lparr>hs_accepting_jobs := accepting\<rparr>)))"

section \<open>Laws\<close>

text \<open>No handler that shows something changes a table; queries that fail consume their failure only.\<close>

lemma tabs_ask_read: "(\<And>d r d'. q d = (r, d') \<Longrightarrow> db_tables d' = db_tables d) \<Longrightarrow> tabs (snd (ask q h)) = tabs h"
  by (cases "q (sy_db (hs_core h))") simp

lemma read_ops_tables [simp]:
  "db_tables (snd (db_query_jobs ok u st a l n d)) = db_tables d" "db_tables (snd (db_list_queued_jobs m n d)) = db_tables d"
  "db_tables (snd (db_list_jobs m d)) = db_tables d" "db_tables (snd (db_job_stats d)) = db_tables d"
  by (simp_all add: db_query_jobs_def db_list_queued_jobs_def db_list_jobs_def db_job_stats_def)

lemma select_jobs_rows:
  assumes "\<And>rs. set (order rs) = set rs"
  shows "\<exists>rows. select_jobs P order limit offset t = map (row_to_job True) rows \<and> set rows \<subseteq> {r \<in> set (t_jobs t). P r} \<and> length rows \<le> nat limit"
proof -
  let ?rows = "take (nat limit) (drop (nat offset) (order (filter P (t_jobs t))))"
  have "set ?rows \<subseteq> {r \<in> set (t_jobs t). P r}" using assms by (auto dest!: in_set_takeD in_set_dropD)
  then show ?thesis unfolding select_jobs_def by (intro exI [of _ ?rows]) auto
qed

lemma sql_read_in: "fst (sql_read f a b d) \<in> {f (db_tables d), a, b}"
  using sql_read_cases [of f a b d] by (cases "sql_read f a b d") auto

text \<open>What a reply shows, and what belongs to a user.\<close>

definition reply_items :: "reply \<Rightarrow> json set" where
  "reply_items r = (case r of Http_Json _ (JArray xs) \<Rightarrow> set xs | Http_Stream (JArray xs) \<Rightarrow> set xs | _ \<Rightarrow> {})"

definition own_items :: "tables \<Rightarrow> string \<Rightarrow> json set" where
  "own_items t user = {item. \<exists>row \<in> set (t_jobs t). buf JOB_USER_LEN (r_user_id row) = buf JOB_USER_LEN user \<and>
     (item = job_to_json (row_to_job True row) \<or> (\<exists>i. item = queue_item i (row_to_job True row)))}"

lemma queue_items_eq:
  "queue_items shown limit n jobs = map (\<lambda>(i, job). queue_item i job) (enumerate n (take (nat (limit - int n)) (filter shown jobs)))"
proof (induction jobs arbitrary: n)
  case (Cons job jobs)
  show ?case
  proof (cases "int n < limit")
    case True
    then have "nat (limit - int n) = Suc (nat (limit - int (Suc n)))" by linarith
    then show ?thesis using True Cons.IH by simp
  qed simp
qed simp

lemma queue_items_own:
  "(\<And>job i. job \<in> set jobs \<Longrightarrow> shown job \<Longrightarrow> queue_item i job \<in> S) \<Longrightarrow> set (queue_items shown limit n jobs) \<subseteq> S"
proof (induction jobs arbitrary: n)
  case (Cons job jobs)
  have "set (queue_items shown limit m jobs) \<subseteq> S" for m using Cons by simp
  then show ?case using Cons.prems [of job] by simp
qed simp

lemma list_jobs_shows:
  assumes "\<not> is_admin role" "user \<noteq> []"
  shows "reply_items (fst (list_jobs env rq user role h)) \<subseteq> own_items (tabs h) user \<and> tabs (snd (list_jobs env rq user role h)) = tabs h"
proof -
  have own: "job_to_json ` set jobs \<subseteq> own_items (tabs h) user"
    if "fst (db_query_jobs ok (Some user) st (Some app) l n (sy_db (hs_core h))) = Some jobs" for ok st app l n jobs
  proof -
    let ?P = "\<lambda>r. (col_text (Some user) = [] \<or> r_user_id r = col_text (Some user)) \<and> (st < 0 \<or> status_code (r_status r) = st) \<and>
                  (col_text (Some app) = [] \<or> r_app_id r = col_text (Some app))"
    have "jobs = select_jobs ?P newest_first l n (tabs h)"
      using that sql_read_in [of "\<lambda>t. Some (select_jobs ?P newest_first l n t)" None None "sy_db (hs_core h)"]
      by (auto simp: db_query_jobs_def split: if_splits)
    then obtain rows where "jobs = map (row_to_job True) rows" "set rows \<subseteq> {r \<in> set (t_jobs (tabs h)). ?P r}"
      using select_jobs_rows [of newest_first ?P l n "tabs h"] by (auto simp: newest_first_def)
    then show ?thesis using assms(2) by (fastforce simp: own_items_def col_text_def)
  qed
  show ?thesis
    using assms(1) own by (auto simp: list_jobs_def Let_def json_reply_def reply_items_def case_prod_beta split: option.splits)
qed

lemma selected_own:
  assumes "\<And>rs. set (order rs) = set rs" "fst (sql_read (select_jobs P order l n) [] [] (sy_db (hs_core h))) = jobs" "job \<in> set jobs" "j_user_id job = user"
  shows "job_to_json job \<in> own_items (tabs h) user \<and> queue_item i job \<in> own_items (tabs h) user"
proof -
  obtain rows where "select_jobs P order l n (tabs h) = map (row_to_job True) rows" "set rows \<subseteq> {r \<in> set (t_jobs (tabs h)). P r}"
    using select_jobs_rows [OF assms(1)] by blast
  then obtain row where "row \<in> set (t_jobs (tabs h))" "job = row_to_job True row"
    using sql_read_in [of "select_jobs P order l n" "[]" "[]" "sy_db (hs_core h)"] assms(2,3) by fastforce
  then show ?thesis using assms(4) by (auto simp: own_items_def row_to_job_def buf_def)
qed

text \<open>
  C13: lists show a user his own jobs only. Whatever somebody with a user name who is not an administrator asks for in
  the query, every entry of the answer to the list of jobs, the list of the queue and the first
  message of an event stream is made from a row of the table that belongs to him, and no table changes.
\<close>

theorem views_private:
  assumes "\<not> is_admin role" "user \<noteq> []"
    and "handler \<in> {list_jobs env rq user role, list_queue env v rq user role, sse_subscribe env user role}"
  shows "reply_items (fst (handler h)) \<subseteq> own_items (tabs h) user \<and> tabs (snd (handler h)) = tabs h"
proof -
  let ?d = "sy_db (hs_core h)"
  have queue: "set (queue_items (\<lambda>job. j_user_id job = user) l 0 (fst (db_list_queued_jobs 1000 0 ?d))) \<subseteq> own_items (tabs h) user" for l
    using selected_own [of "\<lambda>rs. sort_key r_priority (sort_key r_submitted_at (sort_key r_id rs))"]
    by (intro queue_items_own) (auto simp: db_list_queued_jobs_def)
  have list: "job_to_json job \<in> own_items (tabs h) user" if "job \<in> set (fst (db_list_jobs 256 ?d))" "j_user_id job = user" for job
    using selected_own [of newest_first "\<lambda>r. True" 256 0 h _ job user] that
    by (auto simp: db_list_jobs_def newest_first_def)
  have 1: "reply_items (fst (list_queue env v rq user role h)) \<subseteq> own_items (tabs h) user \<and> tabs (snd (list_queue env v rq user role h)) = tabs h"
    using assms(1) queue by (simp add: list_queue_def reply_items_def case_prod_beta Let_def)
  have 2: "reply_items (fst (sse_subscribe env user role h)) \<subseteq> own_items (tabs h) user \<and> tabs (snd (sse_subscribe env user role h)) = tabs h"
    using assms(1) list by (auto simp: sse_subscribe_def reply_items_def case_prod_beta Let_def)
  show ?thesis using 1 2 list_jobs_shows [OF assms(1,2)] assms(3) by auto
qed

text \<open>
  A queue with the jobs of two users, seen by one of them.
\<close>

definition demo_shared :: http_sys where
  "demo_shared = demo_http\<lparr>hs_core := demo_sched\<lparr>sy_db := opened_db (empty_tables\<lparr>t_jobs :=
     map (\<lambda>(i, u). insert_job_row (job_zero\<lparr>j_id := i, j_user_id := u, j_status := JOB_STATUS_QUEUED\<rparr>))
       [(''j1'', ''ann''), (''j2'', ''bob'')]\<rparr>)\<rparr>\<rparr>"

definition demo_view :: view_env where
  "demo_view = \<lparr> ve_atof = (\<lambda>_. None), ve_nan_int = 0, ve_socket_ok = True, ve_sendto_rc = 102 \<rparr>"

definition count_items :: "reply \<Rightarrow> nat" where
  "count_items r = (case r of Http_Json _ (JArray xs) \<Rightarrow> length xs | _ \<Rightarrow> 0)"

lemma demo_queue: "count_items (fst (list_queue demo_http_env demo_view demo_request ''ann'' ''user'' demo_shared)) = 1 \<and>
   count_items (fst (list_queue demo_http_env demo_view demo_request ''ann'' ''admin'' demo_shared)) = 2"
  by code_simp

theorem views_private_witness:
  "reply_items (fst (list_queue demo_http_env demo_view demo_request ''ann'' ''user'' demo_shared)) \<subseteq> own_items (tabs demo_shared) ''ann'' \<and>
   count_items (fst (list_queue demo_http_env demo_view demo_request ''ann'' ''user'' demo_shared)) = 1"
  using views_private [of "''user''" "''ann''" "list_queue demo_http_env demo_view demo_request ''ann'' ''user''" _ _ _ demo_shared] demo_queue by auto

end
