(* ===== verification/Probe.thy ===== *)
theory Probe
  imports Cloud Auth
begin

text \<open>
  \<open>src/resources/probe.c\<close> (the POSIX branch): whether machines can be reached, the thread that refreshes
  their states in the registry, and wake-on-LAN packets. The network and \<open>system\<close> are arguments, one
  set of answers per attempt; the clock of a refresh is one too.
\<close>

section \<open>Model\<close>

datatype probe_method = PROBE_PING | PROBE_TCP | PROBE_SSH

text \<open>\<open>getaddrinfo\<close> on host and port, \<open>socket\<close>, \<open>poll\<close> within a time, \<open>SO_ERROR\<close>, and the result of \<open>system\<close>.\<close>

record net =
  ne_resolves :: "string \<Rightarrow> string \<Rightarrow> bool"
  ne_socket :: bool
  ne_poll :: "int \<Rightarrow> int"
  ne_so_error :: int
  ne_system :: "string \<Rightarrow> int"

definition probe_tcp :: "net \<Rightarrow> string \<Rightarrow> int \<Rightarrow> int \<Rightarrow> bool" where
  "probe_tcp ne host port timeout_ms \<longleftrightarrow>
     ne_resolves ne host (buf 8 (dec port)) \<and> ne_socket ne \<and> ne_poll ne timeout_ms > 0 \<and> ne_so_error ne = 0"

definition host_char :: "char \<Rightarrow> bool" where
  "host_char c \<longleftrightarrow> CHR ''a'' \<le> c \<and> c \<le> CHR ''z'' \<or> CHR ''A'' \<le> c \<and> c \<le> CHR ''Z'' \<or>
     CHR ''0'' \<le> c \<and> c \<le> CHR ''9'' \<or> c \<in> set ''.-:''"

definition ping_command :: "string \<Rightarrow> int \<Rightarrow> string" where
  "ping_command host timeout_ms =
     (let timeout_s = (timeout_ms + 999) div 1000 in
      buf 256 (''ping -c 1 -W '' @ dec (if timeout_s < 1 then 1 else timeout_s) @ '' '' @ host @ '' >/dev/null 2>&1''))"

text \<open>The result and the command that was run, if any.\<close>

definition probe_ping :: "net \<Rightarrow> string \<Rightarrow> int \<Rightarrow> bool \<times> string option" where
  "probe_ping ne host timeout_ms =
     (if \<not> list_all host_char host then (False, None)
      else (ne_system ne (ping_command host timeout_ms) = 0, Some (ping_command host timeout_ms)))"

definition machine_is_reachable :: "net \<Rightarrow> string option \<Rightarrow> probe_method \<Rightarrow> int \<Rightarrow> int \<Rightarrow> bool \<times> string option" where
  "machine_is_reachable ne host method port timeout_ms =
     (case host of
        None \<Rightarrow> (False, None)
      | Some h \<Rightarrow>
          if h = [] then (False, None)
          else case method of
            PROBE_TCP \<Rightarrow> (probe_tcp ne h port timeout_ms, None)
          | PROBE_SSH \<Rightarrow> (probe_tcp ne h 22 timeout_ms, None)
          | PROBE_PING \<Rightarrow> probe_ping ne h timeout_ms)"

definition probe_host :: "machine \<Rightarrow> string" where
  "probe_host m = (if m_hostname m \<noteq> [] then m_hostname m else m_ip m)"

definition is_local :: "machine \<Rightarrow> bool" where
  "is_local m \<longleftrightarrow> probe_host m = ''localhost'' \<or> probe_host m = ''127.0.0.1'' \<or> m_ip m = ''127.0.0.1''"

text \<open>\<open>for (r = 0; r <= retries && !ok; r++)\<close>: \<open>n\<close> attempts are left, \<open>r\<close> is the next.\<close>

fun attempts :: "(nat \<Rightarrow> net) \<Rightarrow> string \<Rightarrow> probe_method \<Rightarrow> int \<Rightarrow> int \<Rightarrow> nat \<Rightarrow> nat \<Rightarrow> bool" where
  "attempts ne host method port timeout_ms 0 r = False"
| "attempts ne host method port timeout_ms (Suc n) r =
     (fst (machine_is_reachable (ne r) (Some host) method port timeout_ms) \<or> attempts ne host method port timeout_ms n (Suc r))"

text \<open>\<open>ne id r\<close>: what the network answers to the attempt \<open>r\<close> on a machine; \<open>now\<close>: the clock.\<close>

definition probe_machine :: "(string \<Rightarrow> nat \<Rightarrow> net) \<Rightarrow> int \<Rightarrow> probe_method \<Rightarrow> int \<Rightarrow> int \<Rightarrow> int \<Rightarrow> machine \<Rightarrow> registry \<Rightarrow> registry" where
  "probe_machine ne now method port timeout_ms retries m reg =
     (if m_type m \<noteq> MACHINE_TYPE_STATIC \<or> \<not> m_enabled m then reg
      else if is_local m then snd (registry_update_probe (m_id m) MACHINE_ONLINE now 1 reg)
      else let reg1 = snd (registry_update_probe (m_id m) MACHINE_PROBING now (-1) reg);
               ok = attempts (ne (m_id m)) (probe_host m) method port timeout_ms (nat (retries + 1)) 0 in
           snd (registry_update_probe (m_id m) (if ok then MACHINE_ONLINE else MACHINE_OFFLINE) now (if ok then 1 else 0) reg1))"

definition probe_refresh_all :: "bool \<Rightarrow> (string \<Rightarrow> nat \<Rightarrow> net) \<Rightarrow> int \<Rightarrow> probe_method \<Rightarrow> int \<Rightarrow> int \<Rightarrow> int \<Rightarrow> registry \<Rightarrow> registry" where
  "probe_refresh_all malloc_ok ne now method port timeout_ms retries reg =
     (case registry_snapshot malloc_ok reg of
        None \<Rightarrow> reg
      | Some machines \<Rightarrow> fold (probe_machine ne now method port timeout_ms retries) machines reg)"

definition probe_refresh :: "bool \<Rightarrow> (string \<Rightarrow> nat \<Rightarrow> net) \<Rightarrow> int \<Rightarrow> config \<Rightarrow> registry \<Rightarrow> registry" where
  "probe_refresh malloc_ok ne now cfg =
     probe_refresh_all malloc_ok ne now
       (if cf_probe_method cfg = ''ping'' then PROBE_PING else if cf_probe_method cfg = ''ssh'' then PROBE_SSH else PROBE_TCP)
       (cf_probe_port cfg) (cf_probe_timeout_ms cfg) (cf_probe_retries cfg)"

subsection \<open>The background thread\<close>

record probe_config =
  pc_interval_ms :: int
  pc_method :: probe_method
  pc_port :: int
  pc_timeout_ms :: int
  pc_retries :: int

record probe_state =
  pr_running :: bool
  pr_cfg :: probe_config

definition probe_start_background :: "bool \<Rightarrow> int \<Rightarrow> probe_method \<Rightarrow> int \<Rightarrow> int \<Rightarrow> int \<Rightarrow> probe_state \<Rightarrow> probe_state" where
  "probe_start_background thread_ok interval_ms method port timeout_ms retries s =
     (if pr_running s then s
      else \<lparr> pr_running = thread_ok,
             pr_cfg = \<lparr> pc_interval_ms = (if interval_ms > 0 then interval_ms else 60000), pc_method = method,
                        pc_port = (if port > 0 then port else 22), pc_timeout_ms = (if timeout_ms > 0 then timeout_ms else 3000),
                        pc_retries = (if retries \<ge> 0 then retries else 2) \<rparr> \<rparr>)"

definition probe_stop_background :: "probe_state \<Rightarrow> probe_state" where
  "probe_stop_background s = s\<lparr>pr_running := False\<rparr>"

text \<open>
  The slices slept, in milliseconds, with \<open>running k\<close> the flag as it is read the \<open>k\<close>-th time, and the
  flag at the end.
\<close>

function probe_wait_interruptible :: "(nat \<Rightarrow> bool) \<Rightarrow> nat \<Rightarrow> int \<Rightarrow> int list \<times> bool" where
  "probe_wait_interruptible running k remaining =
     (if running k \<and> remaining > 0 then
        let slice = (if remaining > 100 then 100 else remaining);
            (slept, still) = probe_wait_interruptible running (Suc k) (remaining - slice) in
        (slice # slept, still)
      else ([], running (Suc k)))"
  by pat_completeness auto
termination
  by (relation "measure (\<lambda>(running, k, remaining). nat remaining)") auto

declare probe_wait_interruptible.simps [simp del]

text \<open>
  The thread. \<open>flag k i\<close> is the flag as it is read the \<open>i\<close>-th time in round \<open>k\<close>, \<open>ne k\<close>, \<open>now k\<close> and \<open>ok k\<close> are what the
  network, the clock and \<open>malloc\<close> answer in it. The loop may run for ever, so \<open>n\<close> bounds the rounds
  looked at, and \<open>None\<close> is a thread that has not returned by then.
\<close>

fun probe_thread_fn :: "(nat \<Rightarrow> nat \<Rightarrow> bool) \<Rightarrow> (nat \<Rightarrow> string \<Rightarrow> nat \<Rightarrow> net) \<Rightarrow> (nat \<Rightarrow> int) \<Rightarrow> (nat \<Rightarrow> bool) \<Rightarrow>
    probe_config \<Rightarrow> nat \<Rightarrow> nat \<Rightarrow> registry \<Rightarrow> registry option" where
  "probe_thread_fn flag ne now ok cfg 0 k reg = None"
| "probe_thread_fn flag ne now ok cfg (Suc n) k reg =
     (if \<not> flag k 0 then Some reg
      else let reg1 = probe_refresh_all (ok k) (ne k) (now k) (pc_method cfg) (pc_port cfg) (pc_timeout_ms cfg) (pc_retries cfg) reg in
           if \<not> snd (probe_wait_interruptible (flag k) 1 (pc_interval_ms cfg)) then Some reg1
           else probe_thread_fn flag ne now ok cfg n (Suc k) reg1)"

subsection \<open>Wake-on-LAN\<close>

text \<open>
  \<open>sscanf\<close> with \<open>%02x\<close>: blanks are skipped, and of at most two characters a sign and a prefix \<open>0x\<close> are
  accepted before the digits; a negative number wraps.
\<close>

definition hex_run :: "nat \<Rightarrow> string \<Rightarrow> string" where
  "hex_run width s = takeWhile isxdigit (take width s)"

definition scan_hex2 :: "string \<Rightarrow> (int \<times> string) option" where
  "scan_hex2 s =
     (let s1 = dropWhile c_space s;
          signed = (s1 \<noteq> [] \<and> hd s1 \<in> {CHR ''-'', CHR ''+''});
          s2 = (if signed then tl s1 else s1); width = (if signed then 1 else 2);
          ds = (if width = 2 \<and> take 1 s2 = ''0'' \<and> take 1 (drop 1 s2) \<in> {''x'', ''X''} then ''0'' else hex_run width s2);
          after = (if width = 2 \<and> take 1 s2 = ''0'' \<and> take 1 (drop 1 s2) \<in> {''x'', ''X''} then drop 2 s2 else drop (length ds) s2);
          v = foldl (\<lambda>acc c. 16 * acc + hex_value c) 0 ds in
      if ds = [] then None else Some (if signed \<and> hd s1 = CHR ''-'' then (- v) mod 2 ^ 32 else v, after))"

text \<open>The format \<open>%02x:%02x:%02x:%02x:%02x:%02x\<close>: \<open>n\<close> more numbers after a colon each.\<close>

fun scan_more :: "nat \<Rightarrow> string \<Rightarrow> int list option" where
  "scan_more 0 s = Some []"
| "scan_more (Suc n) s =
     (if take 1 s = '':'' then
        case scan_hex2 (drop 1 s) of None \<Rightarrow> None | Some (v, after) \<Rightarrow> map_option (Cons v) (scan_more n after)
      else None)"

definition parse_mac :: "string \<Rightarrow> 8 word list option" where
  "parse_mac mac =
     (case scan_hex2 mac of
        None \<Rightarrow> None
      | Some (v, after) \<Rightarrow> map_option (\<lambda>vs. map of_int (v # vs)) (scan_more 5 after))"

text \<open>The result and the packet handed to \<open>sendto\<close> with its address, if it comes to that.\<close>

definition wol_send :: "bool \<Rightarrow> int \<Rightarrow> string option \<Rightarrow> string option \<Rightarrow> int \<times> (string \<times> 8 word list) option" where
  "wol_send socket_ok sendto_rc mac_address broadcast_ip =
     (case mac_address of
        None \<Rightarrow> (-1, None)
      | Some [] \<Rightarrow> (-1, None)
      | Some address \<Rightarrow>
          (case parse_mac address of
             None \<Rightarrow> (-1, None)
           | Some mac \<Rightarrow>
               let packet = replicate 6 0xFF @ concat (replicate 16 mac);
                   bcast = (case broadcast_ip of Some (c # cs) \<Rightarrow> c # cs | _ \<Rightarrow> ''255.255.255.255'') in
               if \<not> socket_ok then (-1, None)
               else (if sendto_rc < 0 then -1 else 0, Some (bcast, packet))))"

section \<open>Laws\<close>

text \<open>What a refresh makes of a machine.\<close>

definition probed :: "(string \<Rightarrow> nat \<Rightarrow> net) \<Rightarrow> int \<Rightarrow> probe_method \<Rightarrow> int \<Rightarrow> int \<Rightarrow> int \<Rightarrow> machine \<Rightarrow> machine" where
  "probed ne now method port timeout_ms retries m =
     (if m_type m \<noteq> MACHINE_TYPE_STATIC \<or> \<not> m_enabled m then m
      else if is_local m \<or> (\<exists>r < nat (retries + 1). fst (machine_is_reachable (ne (m_id m) r) (Some (probe_host m)) method port timeout_ms))
      then m\<lparr>m_probe_status := MACHINE_ONLINE, m_last_probe_time := now, m_probe_fail_count := 0\<rparr>
      else m\<lparr>m_probe_status := MACHINE_OFFLINE, m_last_probe_time := now, m_probe_fail_count := m_probe_fail_count m + 1\<rparr>)"

lemma attempts_iff:
  "attempts ne host method port t n r \<longleftrightarrow> (\<exists>k < n. fst (machine_is_reachable (ne (r + k)) (Some host) method port t))"
proof (induction n arbitrary: r)
  case (Suc n)
  have "(\<exists>k < Suc n. P k) \<longleftrightarrow> P 0 \<or> (\<exists>k < n. P (Suc k))" for P by (metis Ex_less_Suc2)
  then show ?case using Suc [of "Suc r"] by simp
qed simp

lemma find_machine_append: "m_id m \<notin> m_id ` set xs \<Longrightarrow> find_machine (xs @ m # ys) (m_id m) = Some (length xs)"
  by (induction xs) (auto simp: find_machine_def)

lemma update_probe_append:
  "m_id m \<notin> m_id ` set xs \<Longrightarrow> snd (registry_update_probe (m_id m) st t rc (xs @ m # ys)) =
     xs @ m\<lparr>m_probe_status := st, m_last_probe_time := t,
            m_probe_fail_count := (if rc > 0 then 0 else if rc = 0 then m_probe_fail_count m + 1 else m_probe_fail_count m)\<rparr> # ys"
  by (simp add: registry_update_probe_def find_machine_append)

lemma probe_machine_append:
  assumes "m_id m \<notin> m_id ` set xs"
  shows "probe_machine ne now method port t retries m (xs @ m # ys) = xs @ probed ne now method port t retries m # ys"
proof -
  let ?m = "m\<lparr>m_probe_status := MACHINE_PROBING, m_last_probe_time := now\<rparr>"
  have 1: "snd (registry_update_probe (m_id m) MACHINE_PROBING now (-1) (xs @ m # ys)) = xs @ ?m # ys"
    using update_probe_append [OF assms, of MACHINE_PROBING now "-1" ys] by simp
  have 2: "snd (registry_update_probe (m_id m) st now rc (xs @ ?m # ys)) =
     xs @ m\<lparr>m_probe_status := st, m_last_probe_time := now,
            m_probe_fail_count := (if rc > 0 then 0 else if rc = 0 then m_probe_fail_count m + 1 else m_probe_fail_count m)\<rparr> # ys" for st rc
    using update_probe_append [of ?m xs st now rc ys] assms by simp
  define ok where "ok = attempts (ne (m_id m)) (probe_host m) method port t (nat (retries + 1)) 0"
  have ok: "ok \<longleftrightarrow> (\<exists>r < nat (retries + 1). fst (machine_is_reachable (ne (m_id m) r) (Some (probe_host m)) method port t))"
    unfolding ok_def attempts_iff by simp
  show ?thesis
  proof (cases "m_type m \<noteq> MACHINE_TYPE_STATIC \<or> \<not> m_enabled m")
    case False
    then show ?thesis
    proof (cases "is_local m")
      case True
      then show ?thesis using False update_probe_append [OF assms, of MACHINE_ONLINE now 1 ys]
        by (simp add: probe_machine_def probed_def)
    next
      case other: False
      then have "probe_machine ne now method port t retries m (xs @ m # ys) =
          snd (registry_update_probe (m_id m) (if ok then MACHINE_ONLINE else MACHINE_OFFLINE) now (if ok then 1 else 0) (xs @ ?m # ys))"
        using False unfolding probe_machine_def Let_def 1 ok_def [symmetric] by simp
      then show ?thesis using False other unfolding 2 probed_def ok [symmetric] by simp
    qed
  qed (simp add: probe_machine_def probed_def)
qed

lemma probed_id [simp]: "m_id (probed ne now method port t retries m) = m_id m"
  by (simp add: probed_def)

lemma fold_probe:
  "distinct (map m_id (xs @ ms)) \<Longrightarrow> fold (probe_machine ne now method port t retries) ms (xs @ ms) = xs @ map (probed ne now method port t retries) ms"
proof (induction ms arbitrary: xs)
  case (Cons m ms)
  have "probe_machine ne now method port t retries m (xs @ m # ms) = (xs @ [probed ne now method port t retries m]) @ ms"
    using Cons.prems by (subst probe_machine_append) auto
  then show ?case using Cons.IH [of "xs @ [probed ne now method port t retries m]"] Cons.prems by simp
qed simp

text \<open>
  C29: a refresh tells which machines can be reached. In a registry with unique identifiers every
  enabled static machine ends online when it is local or answers one of the attempts, and offline with
  one more failure otherwise; nothing else of it changes, and no other machine does.
\<close>

theorem probe_refresh_correct:
  assumes "distinct (map m_id reg)"
  shows "probe_refresh_all True ne now method port t retries reg = map (probed ne now method port t retries) reg"
  using fold_probe [of "[]" reg] assms by (simp add: probe_refresh_all_def registry_snapshot_def)

lemma probed_keeps [simp]:
  "m_cores_reserved (probed ne now method port t retries m) = m_cores_reserved m"
  "m_ram_mb_reserved (probed ne now method port t retries m) = m_ram_mb_reserved m"
  by (simp_all add: probed_def)

lemma refresh_keeps:
  assumes "distinct (map m_id reg)"
  shows "map m_id (probe_refresh_all ok ne now method port t retries reg) = map m_id reg \<and>
    map m_cores_reserved (probe_refresh_all ok ne now method port t retries reg) = map m_cores_reserved reg \<and>
    map m_ram_mb_reserved (probe_refresh_all ok ne now method port t retries reg) = map m_ram_mb_reserved reg"
proof -
  have "probe_refresh_all ok ne now method port t retries reg \<in> {reg, map (probed ne now method port t retries) reg}"
    using fold_probe [of "[]" reg] assms by (simp add: probe_refresh_all_def registry_snapshot_def)
  then show ?thesis by (auto simp: comp_def)
qed

text \<open>
  The thread ends when it is told to. Once the flag is cleared, as \<open>probe_stop_background\<close> clears it, the
  thread returns at the latest at the head of the next round, so that the join of \<open>probe_stop_background\<close>
  returns; and the registry it leaves is that of its complete rounds, with the machines it started with.
\<close>

theorem probe_thread_stops:
  assumes "\<And>i. \<not> flag (k + n) i" "distinct (map m_id reg)"
  shows "\<exists>reg'. probe_thread_fn flag ne now ok cfg (Suc n) k reg = Some reg' \<and> map m_id reg' = map m_id reg \<and>
    map m_cores_reserved reg' = map m_cores_reserved reg \<and> map m_ram_mb_reserved reg' = map m_ram_mb_reserved reg"
  using assms
proof (induction n arbitrary: k reg)
  case 0
  then show ?case by simp
next
  case (Suc n)
  show ?case
  proof (cases "flag k 0")
    case True
    define r where "r = probe_refresh_all (ok k) (ne k) (now k) (pc_method cfg) (pc_port cfg) (pc_timeout_ms cfg) (pc_retries cfg) reg"
    have r: "map m_id r = map m_id reg" "map m_cores_reserved r = map m_cores_reserved reg" "map m_ram_mb_reserved r = map m_ram_mb_reserved reg"
      using refresh_keeps [OF Suc.prems(2)] unfolding r_def by blast+
    have step: "probe_thread_fn flag ne now ok cfg (Suc (Suc n)) k reg =
        (if \<not> snd (probe_wait_interruptible (flag k) 1 (pc_interval_ms cfg)) then Some r else probe_thread_fn flag ne now ok cfg (Suc n) (Suc k) r)"
      using True unfolding r_def by (simp add: Let_def)
    show ?thesis using Suc.IH [of "Suc k" r] Suc.prems r unfolding step by (auto simp del: probe_thread_fn.simps)
  qed simp
qed

text \<open>
  The pause of the thread ends. However the flag changes meanwhile, the slices slept are of at most
  a tenth of a second, together they never exceed the pause, they make up all of it when the flag stays
  set, and none follows a reading of the flag that finds it cleared.
\<close>

theorem probe_wait_bounded:
  assumes "probe_wait_interruptible running k ms = (slept, still)"
  shows "(\<forall>x \<in> set slept. 0 < x \<and> x \<le> 100) \<and> sum_list slept \<le> max 0 ms \<and>
    (\<forall>n. running (k + n) = False \<longrightarrow> length slept \<le> n) \<and> ((\<forall>n. running n) \<longrightarrow> sum_list slept = max 0 ms)"
  using assms
proof (induction running k ms arbitrary: slept rule: probe_wait_interruptible.induct)
  case (1 running k ms)
  show ?case
  proof (cases "running k \<and> ms > 0")
    case False
    then have "slept = []" using "1.prems" by (subst (asm) probe_wait_interruptible.simps) (auto split: if_splits)
    then show ?thesis using False by auto
  next
    case True
    define slice where "slice = (if ms > 100 then 100 else ms)"
    obtain s' where s': "probe_wait_interruptible running (Suc k) (ms - slice) = (s', still)" "slept = slice # s'"
      using "1.prems" True by (subst (asm) probe_wait_interruptible.simps) (auto simp: slice_def Let_def split: prod.splits)
    note ih = "1.IH" [OF True slice_def s'(1)]
    have "length slept \<le> n" if "running (k + n) = False" for n
      using that True ih s'(2) by (cases n) auto
    then show ?thesis using True ih s'(2) by (auto simp: slice_def)
  qed
qed

subsection \<open>Wake-on-LAN\<close>

lemma hex_value_char:
  assumes "0 \<le> hex_value c"
  shows "isxdigit c" "\<not> c_space c" "c \<noteq> CHR ''-''" "c \<noteq> CHR ''+''" "c \<noteq> CHR ''x''" "c \<noteq> CHR ''X''"
proof -
  have "isxdigit c" using assms by (auto simp: hex_value_def isxdigit_def split: if_splits)
  moreover have "\<not> c_space c" using assms by (auto simp: hex_value_def c_space_def less_eq_char_def split: if_splits)
  moreover have "c \<notin> {CHR ''-'', CHR ''+'', CHR ''x'', CHR ''X''}" using assms by (auto simp: hex_value_def less_eq_char_def split: if_splits)
  ultimately show "isxdigit c" "\<not> c_space c" "c \<noteq> CHR ''-''" "c \<noteq> CHR ''+''" "c \<noteq> CHR ''x''" "c \<noteq> CHR ''X''" by auto
qed

lemma uint_nibbles: "16 * uint (drop_bit 4 b) + uint (b AND 15) = uint (b :: 8 word)"
proof -
  have "b AND 15 = take_bit 4 b" by (simp add: take_bit_eq_mask mask_numeral)
  then have "uint (b AND 15) = uint b mod 16" by (simp add: take_bit_eq_mod uint_mod_distrib)
  moreover have "uint (drop_bit 4 b) = uint b div 16" by (simp add: drop_bit_eq_div uint_div_distrib)
  ultimately show ?thesis by simp
qed

lemma scan_hex2_hex2: "scan_hex2 (hex2 b @ tail) = Some (uint b, tail)"
proof -
  let ?c = "hex_digit (drop_bit 4 b)" and ?d = "hex_digit (b AND 15)"
  have v: "hex_value ?c = uint (drop_bit 4 b)" "hex_value ?d = uint (b AND 15)"
    using hex_value_digit nibbles(2,3) by blast+
  then have "0 \<le> hex_value ?c" "0 \<le> hex_value ?d" by simp_all
  note c = hex_value_char [OF this(1)] hex_value_char [OF this(2)]
  show ?thesis
    using c v uint_nibbles [of b] by (simp add: scan_hex2_def hex2_def hex_run_def Let_def)
qed

definition mac_text :: "8 word list \<Rightarrow> string" where
  "mac_text mac = hex2 (hd mac) @ concat (map (\<lambda>b. CHR '':'' # hex2 b) (tl mac))"

lemma scan_more_text: "scan_more (length bs) (concat (map (\<lambda>b. CHR '':'' # hex2 b) bs) @ tail) = Some (map uint bs)"
  by (induction bs) (simp_all add: scan_hex2_hex2)

text \<open>
  A machine is woken with its own address. The six bytes of a MAC address, written in the usual way, are
  read back, and the packet sent is six bytes 255 followed by sixteen copies of the address.
\<close>

theorem wol_roundtrip:
  assumes "length mac = 6"
  shows "parse_mac (mac_text mac) = Some mac \<and>
    wol_send True rc (Some (mac_text mac)) None = (if rc < 0 then -1 else 0, Some (''255.255.255.255'', replicate 6 255 @ concat (replicate 16 mac)))"
proof -
  obtain b bs where mac: "mac = b # bs" "length bs = 5" using assms by (cases mac) auto
  have "scan_more 5 (concat (map (\<lambda>b. CHR '':'' # hex2 b) bs)) = Some (map uint bs)"
    using scan_more_text [of bs "[]"] mac(2) by simp
  then have p: "parse_mac (mac_text mac) = Some mac" using mac(1) by (simp add: parse_mac_def mac_text_def scan_hex2_hex2 comp_def)
  have "mac_text mac \<noteq> []" using mac(1) by (simp add: mac_text_def hex2_def)
  then show ?thesis using p by (auto simp: wol_send_def Let_def neq_Nil_conv)
qed

text \<open>
  A probe runs no foreign command. The only command a probe hands to the shell is the ping of one host, and the
  host in it holds nothing but letters, digits, dots, hyphens and colons.
\<close>

theorem probe_commands_plain:
  assumes "machine_is_reachable ne (Some host) method port t = (ok, Some cmd)"
  shows "method = PROBE_PING \<and> plain host \<and> host \<noteq> [] \<and> CHR '' '' \<notin> set host \<and> cmd = ping_command host t"
proof -
  have h: "method = PROBE_PING" "list_all host_char host" "host \<noteq> []" "cmd = ping_command host t"
    using assms by (auto simp: machine_is_reachable_def probe_ping_def split: if_splits probe_method.splits)
  have "\<not> shell_meta c \<and> c \<noteq> CHR '' ''" if "host_char c" for c
    using that by (auto simp: host_char_def shell_meta_def less_eq_char_def)
  then show ?thesis using h by (auto simp: plain_def list_all_iff)
qed

subsection \<open>Witnesses\<close>

definition demo_net :: net where
  "demo_net = \<lparr> ne_resolves = (\<lambda>h p. h = ''n1''), ne_socket = True, ne_poll = (\<lambda>_. 1), ne_so_error = 0, ne_system = (\<lambda>_. 1) \<rparr>"

definition demo_hosts :: registry where
  "demo_hosts = [(demo_machine ''n1'')\<lparr>m_hostname := ''n1''\<rparr>, (demo_machine ''n2'')\<lparr>m_hostname := ''n2''\<rparr>]"

theorem probe_refresh_correct_witness:
  "map m_probe_status (probe_refresh_all True (\<lambda>_ _. demo_net) 9 PROBE_TCP 22 100 0 demo_hosts) = [MACHINE_ONLINE, MACHINE_OFFLINE]"
  by (subst probe_refresh_correct)
    (simp_all add: demo_hosts_def demo_machine_def machine_zero_def probed_def is_local_def probe_host_def machine_is_reachable_def probe_tcp_def demo_net_def)

theorem probe_thread_stops_witness:
  "\<exists>reg'. probe_thread_fn (\<lambda>k i. k < 2) (\<lambda>_ _ _. demo_net) (\<lambda>k. int k) (\<lambda>_. True)
      \<lparr> pc_interval_ms = 100, pc_method = PROBE_TCP, pc_port = 22, pc_timeout_ms = 100, pc_retries = 0 \<rparr> 3 0 demo_hosts = Some reg' \<and>
    map m_id reg' = [''n1'', ''n2'']"
  using probe_thread_stops [of "\<lambda>k i. k < 2" 0 2 demo_hosts "\<lambda>_ _ _. demo_net" "\<lambda>k. int k" "\<lambda>_. True"
      "\<lparr> pc_interval_ms = 100, pc_method = PROBE_TCP, pc_port = 22, pc_timeout_ms = 100, pc_retries = 0 \<rparr>"]
  by (auto simp add: demo_hosts_def demo_machine_def machine_zero_def eval_nat_numeral simp del: probe_thread_fn.simps)

theorem probe_wait_bounded_witness:
  "probe_wait_interruptible (\<lambda>k. k < 2) 0 250 = ([100, 100], False) \<and> sum_list [100, 100 :: int] \<le> 250"
proof -
  have "probe_wait_interruptible (\<lambda>k. k < 2) 0 250 = ([100, 100], False)"
    by (simp add: probe_wait_interruptible.simps)
  with probe_wait_bounded [OF this] show ?thesis by simp
qed

theorem wol_roundtrip_witness: "parse_mac ''00:1a:2b:3c:4d:5e'' = Some [0, 0x1a, 0x2b, 0x3c, 0x4d, 0x5e]"
proof -
  have "mac_text [0, 0x1a, 0x2b, 0x3c, 0x4d, 0x5e] = ''00:1a:2b:3c:4d:5e''" by code_simp
  with wol_roundtrip [of "[0, 0x1a, 0x2b, 0x3c, 0x4d, 0x5e]" 0] show ?thesis by simp
qed

theorem probe_commands_plain_witness:
  "machine_is_reachable demo_net (Some ''n1'') PROBE_PING 22 100 = (False, Some (ping_command ''n1'' 100)) \<and> plain ''n1''"
proof -
  have "machine_is_reachable demo_net (Some ''n1'') PROBE_PING 22 100 = (False, Some (ping_command ''n1'' 100))"
    by (simp add: machine_is_reachable_def probe_ping_def host_char_def less_eq_char_def demo_net_def)
  with probe_commands_plain [OF this] show ?thesis by simp
qed

end
