(* ===== verification/Machines.thy ===== *)
theory Machines
  imports Views Probe
begin

text \<open>
  The handlers of \<open>src/http/routes.c\<close> for machines: their lists, adding and removing one, renting and giving back
  one in a cloud, waking one, and the settings of the pre-simulation.
\<close>

section \<open>Model\<close>

definition status_text :: "machine_status \<Rightarrow> string" where
  "status_text st = (if st = MACHINE_ONLINE then ''online'' else if st = MACHINE_PROBING then ''probing'' else ''offline'')"

definition worker_to_json :: "machine \<Rightarrow> json" where
  "worker_to_json m = JObject
     [(''id'', JString (m_id m)), (''hostname'', JString (m_hostname m)), (''ip'', JString (m_ip m)), (''enabled'', JBool (m_enabled m)),
      (''status'', JString (status_text (m_probe_status m))), (''last_seen_at'', jnum (m_last_probe_time m)),
      (''cores_total'', jnum (m_cores_total m)), (''cores_reserved'', jnum (m_cores_reserved m)),
      (''gpu_total'', jnum (m_gpu_count_total m)), (''gpu_reserved'', jnum (m_gpu_count_reserved m)),
      (''ram_mb_total'', jnum (m_ram_mb_total m)), (''ram_mb_reserved'', jnum (m_ram_mb_reserved m)),
      (''disk_mb_total'', jnum (m_disk_mb_total m)), (''disk_mb_reserved'', jnum (m_disk_mb_reserved m))]"

definition list_workers :: "req_env \<Rightarrow> http_sys \<Rightarrow> reply" where
  "list_workers env h =
     (case registry_snapshot (re_alloc_ok env) (sy_reg (hs_core h)) of
        None \<Rightarrow> Http_Error 500 ''Failed to snapshot machines''
      | Some ms \<Rightarrow> json_reply env 200 (JArray (map worker_to_json ms)))"

definition machine_status_to_json :: "machine \<Rightarrow> json" where
  "machine_status_to_json m = JObject
     [(''id'', JString (m_id m)), (''hostname'', JString (m_hostname m)), (''ip'', JString (m_ip m)), (''enabled'', JBool (m_enabled m)),
      (''status'', JString (status_text (m_probe_status m))), (''last_probe_time'', jnum (m_last_probe_time m)),
      (''probe_fail_count'', jnum (m_probe_fail_count m)), (''type'', JString (if m_type m = MACHINE_TYPE_CLOUD then ''cloud'' else ''static'')),
      (''cloud_provider'', JString (m_cloud_provider m)), (''cloud_instance_id'', JString (m_cloud_instance_id m)),
      (''mac_address'', JString (m_mac_address m)), (''cores_total'', jnum (m_cores_total m)), (''cores_reserved'', jnum (m_cores_reserved m)),
      (''ram_mb_total'', jnum (m_ram_mb_total m)), (''ram_mb_reserved'', jnum (m_ram_mb_reserved m))]"

definition admin_machines_status :: "req_env \<Rightarrow> http_sys \<Rightarrow> reply" where
  "admin_machines_status env h =
     (case registry_snapshot (re_alloc_ok env) (sy_reg (hs_core h)) of
        None \<Rightarrow> Http_Error 500 ''Failed to snapshot machines''
      | Some ms \<Rightarrow> json_reply env 200 (JArray (map machine_status_to_json ms)))"

text \<open>A member that is optional: what its zeroed field holds afterwards, \<open>None\<close> when it is invalid.\<close>

definition text_or :: "json \<Rightarrow> string \<Rightarrow> nat \<Rightarrow> string option" where
  "text_or req name n = map_option (\<lambda>x. case x of Some s \<Rightarrow> s | None \<Rightarrow> []) (copy_optional_string req name n)"

definition int_or :: "json \<Rightarrow> string \<Rightarrow> int \<Rightarrow> int \<Rightarrow> int option" where
  "int_or req name lo hi = map_option (\<lambda>x. case x of Some v \<Rightarrow> v | None \<Rightarrow> 0) (json_optional_int req name lo hi)"

definition enabled_or :: "json \<Rightarrow> bool option" where
  "enabled_or req = (case get_item req ''enabled'' of None \<Rightarrow> Some True | Some (JBool b) \<Rightarrow> Some b | Some _ \<Rightarrow> None)"

definition new_machine :: "json \<Rightarrow> machine option" where
  "new_machine req =
     (case (text_or req ''id'' 64, text_or req ''hostname'' 256, text_or req ''ip'' 46, enabled_or req) of
        (Some i, Some hostname, Some ip, Some enabled) \<Rightarrow>
          (case (int_or req ''cores'' 1 10000, int_or req ''gpu_count'' 0 1000, int_or req ''ram_mb'' 0 10000000, int_or req ''disk_mb'' 0 10000000) of
             (Some cores, Some gpu, Some ram, Some space) \<Rightarrow>
               Some (machine_zero\<lparr>m_id := i, m_hostname := hostname, m_ip := ip, m_cores_total := cores, m_gpu_count_total := gpu,
                       m_ram_mb_total := ram, m_disk_mb_total := space, m_enabled := enabled, m_type := MACHINE_TYPE_STATIC,
                       m_probe_status := MACHINE_PROBING\<rparr>)
           | _ \<Rightarrow> None)
      | _ \<Rightarrow> None)"

definition safe_host :: "string \<Rightarrow> bool" where
  "safe_host s \<longleftrightarrow> list_all (\<lambda>c. c \<in> set ''abcdefghijklmnopqrstuvwxyzABCDEFGHIJKLMNOPQRSTUVWXYZ0123456789._-:'') s"

definition add_machine :: "req_env \<Rightarrow> request \<Rightarrow> http_sys \<Rightarrow> reply \<times> http_sys" where
  "add_machine env rq h =
     (case af_parse (re_files env) (buf 1024 (rq_body rq)) of
        None \<Rightarrow> (Http_Error 400 ''Invalid JSON'', h)
      | Some req \<Rightarrow>
          (case new_machine req of
             None \<Rightarrow> (Http_Error 400 ''Invalid machine parameters'', h)
           | Some m \<Rightarrow>
               if m_id m = [] \<or> m_cores_total m < 1 then (Http_Error 400 ''Invalid machine parameters'', h)
               else if \<not> (safe_host (m_id m) \<and> safe_host (m_hostname m) \<and> safe_host (m_ip m))
               then (Http_Error 400 ''Invalid characters in machine field'', h)
               else let (r, reg) = registry_upsert m (sy_reg (hs_core h)); h1 = on_core (\<lambda>s. s\<lparr>sy_reg := reg\<rparr>) h in
                    if r \<noteq> 0 then (Http_Error 409 ''Machine registry is full or machine is invalid'', h1)
                    else (Http_Json 201 (JObject [(''ok'', JBool True)]), h1)))"

definition remove_machine :: "string \<Rightarrow> http_sys \<Rightarrow> reply \<times> http_sys" where
  "remove_machine machine_id h =
     (let (result, reg) = registry_remove machine_id (sy_reg (hs_core h)); h1 = on_core (\<lambda>s. s\<lparr>sy_reg := reg\<rparr>) h in
      (if result = -2 then Http_Error 409 ''Machine still has reserved resources''
       else if result \<noteq> 0 then Http_Error 404 ''Machine not found''
       else Http_Json 200 (JObject [(''ok'', JBool True)]), h1))"

subsection \<open>Clouds\<close>

definition new_spec :: "json \<Rightarrow> cloud_spec option" where
  "new_spec body =
     (case (text_or body ''provider'' 32, text_or body ''instance_type'' 64, text_or body ''region'' 64, text_or body ''image_id'' 128, text_or body ''tags'' 512) of
        (Some provider, Some instance_type, Some region, Some image_id, Some tags) \<Rightarrow>
          (case (int_or body ''cores'' 0 10000, int_or body ''gpu_count'' 0 1000, int_or body ''ram_mb'' 0 10000000, int_or body ''disk_mb'' 0 10000000,
                 int_or body ''cores_min'' 0 10000, int_or body ''ram_mb_min'' 0 10000000, int_or body ''disk_mb_min'' 0 10000000) of
             (Some cores, Some gpu, Some ram, Some space, Some cores_min, Some ram_min, Some disk_min) \<Rightarrow>
               Some \<lparr> cs_provider = provider, cs_instance_type = instance_type, cs_region = region, cs_image_id = image_id,
                      cs_cores = cores, cs_gpu_count = gpu, cs_ram_mb = ram, cs_disk_mb = space, cs_tags = tags,
                      cs_cores_min = cores_min, cs_ram_mb_min = ram_min, cs_disk_mb_min = disk_min \<rparr>
           | _ \<Rightarrow> None)
      | _ \<Rightarrow> None)"

definition known_provider :: "string \<Rightarrow> bool" where
  "known_provider p \<longleftrightarrow> p = ''aws'' \<or> p = ''gcp'' \<or> p = ''azure''"

definition optional_arg :: "string \<Rightarrow> bool" where
  "optional_arg s \<longleftrightarrow> s = [] \<or> safe_cloud_arg s"

definition acceptable_spec :: "cloud_spec \<Rightarrow> bool" where
  "acceptable_spec spec \<longleftrightarrow> known_provider (cs_provider spec) \<and> optional_arg (cs_instance_type spec) \<and> optional_arg (cs_region spec) \<and>
     optional_arg (cs_image_id spec) \<and> \<not> (cs_provider spec = ''aws'' \<and> cs_image_id spec = [])"

text \<open>The clock names the machines of GCP and Azure.\<close>

definition admin_cloud_provision :: "req_env \<Rightarrow> request \<Rightarrow> http_sys \<Rightarrow> reply \<times> http_sys" where
  "admin_cloud_provision env rq h =
     (case af_parse (re_files env) (rq_body rq) of
        None \<Rightarrow> (Http_Error 400 ''Invalid JSON'', h)
      | Some body \<Rightarrow>
          let refused = (Http_Error 400 ''Invalid cloud provisioning parameters'', h) in
          (case new_spec body of
             None \<Rightarrow> refused
           | Some spec \<Rightarrow>
               if \<not> acceptable_spec spec then refused
               else if cs_cores_min spec > positive_or (cs_cores spec) 2 \<or> cs_ram_mb_min spec > positive_or (cs_ram_mb spec) 4096 \<or>
                       cs_disk_mb_min spec > positive_or (cs_disk_mb spec) 50000
               then (Http_Error 400 ''Cloud resource minimums cannot exceed totals'', h)
               else let (r, out_id, reg, cmds) = cloud_provision (xe_popen (re_exec env)) (now_of h) spec 128 (sy_reg (hs_core h));
                        h1 = on_core (\<lambda>s. s\<lparr>sy_reg := reg, sy_commands := sy_commands s @ cmds\<rparr>) h in
                    if r \<noteq> 0 then (Http_Error 500 ''Cloud provisioning failed'', h1)
                    else (json_reply env 201 (JObject [(''machine_id'', JString out_id), (''provider'', JString (cs_provider spec)), (''status'', JString ''provisioning'')]),
                          push_event env ''cloud'' ''provision'' out_id h1)))"

definition admin_cloud_deprovision :: "req_env \<Rightarrow> request \<Rightarrow> http_sys \<Rightarrow> reply \<times> http_sys" where
  "admin_cloud_deprovision env rq h =
     (case af_parse (re_files env) (rq_body rq) of
        None \<Rightarrow> (Http_Error 400 ''Invalid JSON'', h)
      | Some body \<Rightarrow>
          (case (text_or body ''provider'' 32, text_or body ''instance_id'' 128) of
             (Some provider, Some instance_id) \<Rightarrow>
               if \<not> known_provider provider \<or> \<not> safe_cloud_arg instance_id then (Http_Error 400 ''Invalid provider or instance_id'', h)
               else
                 let proceed =
                       (let (r, reg, cmds) = cloud_deprovision (xe_popen (re_exec env)) provider instance_id (sy_reg (hs_core h));
                            h1 = on_core (\<lambda>s. s\<lparr>sy_reg := reg, sy_commands := sy_commands s @ cmds\<rparr>) h in
                        if r \<noteq> 0 then (Http_Error 500 ''Cloud deprovision failed'', h1)
                        else (Http_Json 200 (JObject [(''ok'', JBool True)]), push_event env ''cloud'' ''deprovision'' instance_id h1)) in
                 (case registry_get_copy (sy_reg (hs_core h)) (buf 160 (''cloud-'' @ instance_id)) of
                    None \<Rightarrow> proceed
                  | Some registered \<Rightarrow>
                      if m_cloud_provider registered \<noteq> provider then (Http_Error 409 ''Cloud provider does not match registered machine'', h)
                      else if m_cores_reserved registered > 0 \<or> m_gpu_count_reserved registered > 0 \<or> m_ram_mb_reserved registered > 0 \<or>
                              m_disk_mb_reserved registered > 0 then (Http_Error 409 ''Cloud machine still has reserved resources'', h)
                      else proceed)
           | _ \<Rightarrow> (Http_Error 400 ''Invalid provider or instance_id'', h)))"

subsection \<open>Wake-on-LAN and pre-simulation\<close>

definition admin_wol :: "req_env \<Rightarrow> view_env \<Rightarrow> request \<Rightarrow> http_sys \<Rightarrow> reply \<times> http_sys" where
  "admin_wol env v rq h =
     (case af_parse (re_files env) (rq_body rq) of
        None \<Rightarrow> (Http_Error 400 ''Invalid JSON'', h)
      | Some body \<Rightarrow>
          let machine_id = buf 64 (item_text (get_item body ''machine_id'')); broadcast_ip = buf 46 (item_text (get_item body ''broadcast_ip'')) in
          if machine_id = [] then (Http_Error 400 ''Missing machine_id'', h)
          else (case registry_get_copy (sy_reg (hs_core h)) machine_id of
             None \<Rightarrow> (Http_Error 404 ''Machine not found'', h)
           | Some machine \<Rightarrow>
               if m_mac_address machine = [] then (Http_Error 400 ''Machine has no MAC address configured'', h)
               else if fst (wol_send (ve_socket_ok v) (ve_sendto_rc v) (Some (m_mac_address machine)) (if broadcast_ip = [] then None else Some broadcast_ip)) \<noteq> 0
               then (Http_Error 500 ''WoL send failed'', h)
               else (Http_Json 200 (JObject [(''ok'', JBool True), (''message'', JString ''WoL packet sent'')]),
                     push_event env ''machine'' ''wol'' (m_id machine) h)))"

definition admin_get_presim_config :: "req_env \<Rightarrow> config \<Rightarrow> reply" where
  "admin_get_presim_config env g = json_reply env 200 (JObject
     [(''presim_threshold_max'', JNumber (Finite (cf_presim_threshold_max g))), (''presim_refine_multiplier'', JNumber (Finite (cf_presim_refine_multiplier g))),
      (''presim_high_multiplier'', JNumber (Finite (cf_presim_high_multiplier g))), (''presim_uncertainty_weight'', JNumber (Finite (cf_presim_uncertainty_weight g))),
      (''presim_fidelity_map'', JString (cf_presim_fidelity_map g)), (''presim_domains'', JString (cf_presim_domains g))])"

text \<open>
  The settings changed by a request. An infinite number, which the settings here cannot hold, is
  outside the model: the result is then \<open>None\<close>.
\<close>

definition presim_number :: "json \<Rightarrow> string \<Rightarrow> (real \<Rightarrow> config \<Rightarrow> config) \<Rightarrow> config \<Rightarrow> config option" where
  "presim_number body name store g =
     (case get_item body name of
        Some (JNumber (Finite v)) \<Rightarrow> Some (store v g)
      | Some (JNumber (Infinite _)) \<Rightarrow> None
      | _ \<Rightarrow> Some g)"

definition presim_text :: "json \<Rightarrow> string \<Rightarrow> nat \<Rightarrow> (string \<Rightarrow> config \<Rightarrow> config) \<Rightarrow> config \<Rightarrow> config" where
  "presim_text body name n store g = (case get_item body name of Some (JString s) \<Rightarrow> store (buf n s) g | _ \<Rightarrow> g)"

definition admin_update_presim_config :: "req_env \<Rightarrow> request \<Rightarrow> config \<Rightarrow> (reply \<times> config) option" where
  "admin_update_presim_config env rq g =
     (case af_parse (re_files env) (rq_body rq) of
        None \<Rightarrow> Some (Http_Error 400 ''Invalid JSON'', g)
      | Some body \<Rightarrow>
          (case presim_number body ''presim_threshold_max'' (\<lambda>v g. g\<lparr>cf_presim_threshold_max := v\<rparr>) g of None \<Rightarrow> None | Some g1 \<Rightarrow>
           case presim_number body ''presim_refine_multiplier'' (\<lambda>v g. g\<lparr>cf_presim_refine_multiplier := v\<rparr>) g1 of None \<Rightarrow> None | Some g2 \<Rightarrow>
           case presim_number body ''presim_high_multiplier'' (\<lambda>v g. g\<lparr>cf_presim_high_multiplier := v\<rparr>) g2 of None \<Rightarrow> None | Some g3 \<Rightarrow>
           case presim_number body ''presim_uncertainty_weight'' (\<lambda>v g. g\<lparr>cf_presim_uncertainty_weight := v\<rparr>) g3 of None \<Rightarrow> None | Some g4 \<Rightarrow>
           Some (Http_Json 200 (JObject [(''ok'', JBool True)]),
             presim_text body ''presim_domains'' 256 (\<lambda>s g. g\<lparr>cf_presim_domains := s\<rparr>)
               (presim_text body ''presim_fidelity_map'' 64 (\<lambda>s g. g\<lparr>cf_presim_fidelity_map := s\<rparr>) g4))))"

section \<open>Laws\<close>

lemma int_or_range: "int_or req name lo hi = Some v \<Longrightarrow> lo \<le> hi \<Longrightarrow> v = 0 \<or> lo \<le> v \<and> v \<le> hi"
  by (auto simp: int_or_def json_optional_int_def dest!: whole_number_range split: option.splits)

lemma text_or_length: "text_or req name n = Some s \<Longrightarrow> 0 < n \<Longrightarrow> length s < n"
proof (cases "get_item req name")
  case (Some j)
  assume "text_or req name n = Some s" "0 < n"
  then show ?thesis using Some by (cases j) (auto simp: text_or_def copy_optional_string_def split: if_splits)
qed (simp add: text_or_def copy_optional_string_def)

lemma safe_host_plain: "safe_host s \<Longrightarrow> plain s"
proof -
  have "list_all (\<lambda>c. \<not> shell_meta c) ''abcdefghijklmnopqrstuvwxyzABCDEFGHIJKLMNOPQRSTUVWXYZ0123456789._-:''"
    by (simp add: shell_meta_def)
  then show "safe_host s \<Longrightarrow> plain s" unfolding safe_host_def plain_def list_all_iff by blast
qed

lemma new_machine_config:
  assumes "new_machine req = Some m"
  shows "config_only m"
proof -
  obtain i n p e c g r d where f: "text_or req ''id'' 64 = Some i"
    "int_or req ''cores'' 1 10000 = Some c" "int_or req ''gpu_count'' 0 1000 = Some g"
    "int_or req ''ram_mb'' 0 10000000 = Some r" "int_or req ''disk_mb'' 0 10000000 = Some d"
    and m: "m = machine_zero\<lparr>m_id := i, m_hostname := n, m_ip := p, m_cores_total := c, m_gpu_count_total := g,
        m_ram_mb_total := r, m_disk_mb_total := d, m_enabled := e, m_type := MACHINE_TYPE_STATIC, m_probe_status := MACHINE_PROBING\<rparr>"
    using assms by (auto simp: new_machine_def split: option.splits)
  note b = text_or_length [OF f(1)] int_or_range [OF f(2)] int_or_range [OF f(3)] int_or_range [OF f(4)] int_or_range [OF f(5)]
  show ?thesis using b unfolding m config_only_def by (auto simp: machine_zero_def reserved_def total_def zero_res_def res_le_iff)
qed

text \<open>A machine as the handlers may leave it: its names mean nothing to a shell.\<close>

definition plain_machine :: "machine \<Rightarrow> bool" where
  "plain_machine m \<longleftrightarrow> plain (m_id m) \<and> plain (m_hostname m) \<and> plain (m_ip m)"

lemma alloc_ok_registry:
  assumes "alloc_ok (s :: 'a alloc_sys_scheme)" "registry_ok reg" "rs.used reg = rs.used (sy_reg s)"
  shows "alloc_ok (s\<lparr>sy_reg := reg\<rparr>)"
  using assms by (simp add: alloc_ok_def)

lemma alloc_ok_upsert: "alloc_ok (s :: 'a alloc_sys_scheme) \<Longrightarrow> config_only m \<Longrightarrow> registry_upsert m (sy_reg s) = (r, reg) \<Longrightarrow> alloc_ok (s\<lparr>sy_reg := reg\<rparr>)"
  using alloc_ok_registry registry_upsert_ok used_upsert by (metis alloc_ok_def)

lemma alloc_ok_remove: "alloc_ok (s :: 'a alloc_sys_scheme) \<Longrightarrow> registry_remove i (sy_reg s) = (r, reg) \<Longrightarrow> alloc_ok (s\<lparr>sy_reg := reg\<rparr>)"
  using alloc_ok_registry registry_remove_ok used_remove by (metis alloc_ok_def)

lemma push_event_core:
  "sy_reg (hs_core (push_event env c t d h)) = sy_reg (hs_core h)" "sy_allocs (hs_core (push_event env c t d h)) = sy_allocs (hs_core h)"
  "sy_commands (hs_core (push_event env c t d h)) = sy_commands (hs_core h)"
  by (simp_all add: push_event_def Let_def case_prod_beta)

lemma alloc_ok_event: "alloc_ok (hs_core h) \<Longrightarrow> alloc_ok (hs_core (push_event env c t d h))"
  using idle_event [of "sy_db (hs_core h)" "xe_print (re_exec env)" "sy_now (hs_core h)" "Some c" "Some t" "Some d" "Some []" "sy_ring (hs_core h)"]
  by (cases "events_push_persistent (xe_print (re_exec env)) (sy_now (hs_core h)) (Some c) (Some t) (Some d) (Some []) (sy_db (hs_core h), sy_ring (hs_core h))")
    (simp add: alloc_ok_def push_event_def)

lemma upsert_members:
  assumes "registry_upsert m reg = (r, reg')" "x \<in> set reg'"
  shows "x \<in> set reg \<or> safe_machine_text (m_id m) \<and> m_id x = m_id m \<and> m_hostname x = m_hostname m \<and> m_ip x = m_ip m"
  using assms by (auto simp: registry_upsert_def Let_def split: if_splits option.splits dest!: set_update_subset_insert [THEN subsetD])

lemma safe_machine_text_plain: "safe_machine_text s \<Longrightarrow> plain s"
  by (auto simp: safe_machine_text_def safe_machine_char_def plain_def shell_meta_def list_all_iff less_eq_char_def)

lemma remove_members: "registry_remove i reg = (r, reg') \<Longrightarrow> set reg' \<subseteq> set reg"
proof -
  assume run: "registry_remove i reg = (r, reg')"
  have "mset reg' \<subseteq># mset reg" using registry_remove_cases [OF run] by (auto split: option.splits if_splits)
  then show ?thesis by (metis set_mset_mono set_mset_mset)
qed

lemma new_spec_fits: "new_spec body = Some spec \<Longrightarrow> spec_fits spec"
proof -
  assume "new_spec body = Some spec"
  then obtain c g r d where f: "int_or body ''cores'' 0 10000 = Some c" "int_or body ''gpu_count'' 0 1000 = Some g"
    "int_or body ''ram_mb'' 0 10000000 = Some r" "int_or body ''disk_mb'' 0 10000000 = Some d"
    and s: "cs_cores spec = c" "cs_gpu_count spec = g" "cs_ram_mb spec = r" "cs_disk_mb spec = d"
    by (auto simp: new_spec_def split: option.splits)
  show ?thesis using int_or_range [OF f(1)] int_or_range [OF f(2)] int_or_range [OF f(3)] int_or_range [OF f(4)]
    unfolding spec_fits_def s by (auto simp: int32_def)
qed

text \<open>What the handlers keep: the accounting of the allocator, and names that mean nothing to a shell.\<close>

definition machines_ok :: "sched_sys \<Rightarrow> bool" where
  "machines_ok s \<longleftrightarrow> alloc_ok s \<and> (\<forall>m \<in> set (sy_reg s). plain_machine m)"

lemma machines_ok_upsert:
  assumes "machines_ok s" "config_only m" "registry_upsert m (sy_reg s) = (r, reg)" "plain (m_hostname m)" "plain (m_ip m)"
  shows "machines_ok (s\<lparr>sy_reg := reg, sy_commands := c\<rparr>)"
proof -
  have "alloc_ok (s\<lparr>sy_reg := reg\<rparr>)" using assms alloc_ok_upsert by (metis machines_ok_def)
  then have "alloc_ok (s\<lparr>sy_reg := reg, sy_commands := c\<rparr>)" by (simp add: alloc_ok_def)
  moreover have "plain_machine x" if "x \<in> set reg" for x
    using upsert_members [OF assms(3) that] assms(1,4,5) safe_machine_text_plain by (auto simp: machines_ok_def plain_machine_def)
  ultimately show ?thesis by (simp add: machines_ok_def)
qed

lemma machines_ok_remove:
  assumes "machines_ok s" "registry_remove i (sy_reg s) = (r, reg)"
  shows "machines_ok (s\<lparr>sy_reg := reg, sy_commands := c\<rparr>)"
proof -
  have "alloc_ok (s\<lparr>sy_reg := reg\<rparr>)" using assms alloc_ok_remove by (metis machines_ok_def)
  then have "alloc_ok (s\<lparr>sy_reg := reg, sy_commands := c\<rparr>)" by (simp add: alloc_ok_def)
  then show ?thesis using assms(1) remove_members [OF assms(2)] by (auto simp: machines_ok_def)
qed

lemma machines_ok_commands: "machines_ok s \<Longrightarrow> machines_ok (s\<lparr>sy_commands := c\<rparr>)"
  by (simp add: machines_ok_def alloc_ok_def)

lemma machines_ok_event: "machines_ok (hs_core h) \<Longrightarrow> machines_ok (hs_core (push_event env c t d h))"
  using alloc_ok_event by (simp add: machines_ok_def push_event_core)

lemma machines_ok_provision:
  assumes "machines_ok s" "spec_fits spec" "cloud_provision popen now spec n (sy_reg s) = (r, out, reg, cmds)"
  shows "machines_ok (s\<lparr>sy_reg := reg, sy_commands := c\<rparr>)"
  using cloud_provision_cases [OF assms(3)]
proof (elim disjE exE conjE)
  fix name
  assume "registry_upsert (cloud_machine (cs_provider spec) name spec) (sy_reg s) = (0, reg)"
  then show ?thesis
    by (rule machines_ok_upsert [OF assms(1) cloud_machine_config [OF assms(2)]])
      (simp_all add: cloud_machine_def machine_zero_def plain_def)
next
  assume "reg = sy_reg s"
  then have "s\<lparr>sy_reg := reg, sy_commands := c\<rparr> = s\<lparr>sy_commands := c\<rparr>" by simp
  then show ?thesis using machines_ok_commands [OF assms(1)] by simp
qed

lemma machines_ok_deprovision:
  assumes "machines_ok s" "cloud_deprovision popen p i (sy_reg s) = (r, reg, cmds)"
  shows "machines_ok (s\<lparr>sy_reg := reg, sy_commands := c\<rparr>)"
  using cloud_deprovision_cases [OF assms(2)]
proof (elim disjE conjE)
  assume "reg = snd (registry_remove (buf 128 (''cloud-'' @ i)) (sy_reg s))"
  then show ?thesis using machines_ok_remove [OF assms(1)] by (metis prod.collapse)
next
  assume "reg = sy_reg s"
  then have "s\<lparr>sy_reg := reg, sy_commands := c\<rparr> = s\<lparr>sy_commands := c\<rparr>" by simp
  then show ?thesis using machines_ok_commands [OF assms(1)] by simp
qed

lemma machines_ok_add: "machines_ok (hs_core h) \<Longrightarrow> machines_ok (hs_core (snd (add_machine env rq h)))"
proof -
  assume ok: "machines_ok (hs_core h)"
  have "machines_ok ((hs_core h)\<lparr>sy_reg := snd (registry_upsert m (sy_reg (hs_core h)))\<rparr>)"
    if "new_machine req = Some m" "safe_host (m_hostname m)" "safe_host (m_ip m)" for req m
    using machines_ok_upsert [OF ok new_machine_config [OF that(1)] prod.collapse [symmetric], of "sy_commands (hs_core h)"] that(2,3) safe_host_plain
    by simp
  then show ?thesis using ok by (auto simp: add_machine_def Let_def case_prod_beta split: option.splits)
qed

lemma machines_ok_cloud:
  assumes ok: "machines_ok (hs_core h)"
  shows "machines_ok (hs_core (snd (admin_cloud_provision env rq h)))" "machines_ok (hs_core (snd (admin_cloud_deprovision env rq h)))"
proof -
  have p: "machines_ok ((hs_core h)\<lparr>sy_reg := fst (snd (snd (cloud_provision pop now spec n (sy_reg (hs_core h))))), sy_commands := c\<rparr>)"
    if "new_spec body = Some spec" for body spec pop now n c
    using machines_ok_provision [OF ok new_spec_fits [OF that], of pop now n] by (metis prod.collapse)
  have d: "machines_ok ((hs_core h)\<lparr>sy_reg := fst (snd (cloud_deprovision pop q i (sy_reg (hs_core h)))), sy_commands := c\<rparr>)" for pop q i c
    using machines_ok_deprovision [OF ok, of pop q i] by (metis prod.collapse)
  show "machines_ok (hs_core (snd (admin_cloud_provision env rq h)))"
    using ok p by (auto simp: admin_cloud_provision_def Let_def case_prod_beta intro!: machines_ok_event split: option.splits)
  show "machines_ok (hs_core (snd (admin_cloud_deprovision env rq h)))"
    using ok d by (auto simp: admin_cloud_deprovision_def Let_def case_prod_beta intro!: machines_ok_event split: option.splits)
qed

text \<open>
  C15: the handlers of machines keep the books. Adding, reconfiguring and removing machines, renting
  them and giving them back, and waking them, whatever the requests say and the clouds print, leave every
  reservation equal to what the active allocations hold and within the capacity, identifiers unique, and
  every identifier, host name and address free of characters that mean something to a shell.
\<close>

theorem machine_handlers_sound:
  assumes "machines_ok (hs_core h)"
    and "handler \<in> {add_machine env rq, remove_machine i, admin_cloud_provision env rq, admin_cloud_deprovision env rq, admin_wol env v rq}"
  shows "machines_ok (hs_core (snd (handler h)))"
proof -
  obtain r reg where rm: "registry_remove i (sy_reg (hs_core h)) = (r, reg)" by force
  have "machines_ok ((hs_core h)\<lparr>sy_reg := reg\<rparr>)"
    using machines_ok_remove [OF assms(1) rm, of "sy_commands (hs_core h)"] by simp
  then have "machines_ok (hs_core (snd (remove_machine i h)))" using rm by (simp add: remove_machine_def)
  moreover have "machines_ok (hs_core (snd (admin_wol env v rq h)))"
    using assms(1) by (auto simp: admin_wol_def Let_def intro!: machines_ok_event split: option.splits)
  ultimately show ?thesis using assms machines_ok_add machines_ok_cloud by auto
qed

subsection \<open>What the handlers do not check\<close>

text \<open>A rented machine, and a request that changes its cores.\<close>

definition demo_body_machine :: json where
  "demo_body_machine = JObject [(''id'', JString ''cloud-i1''), (''cores'', jnum 16)]"

definition demo_cloud_env :: "json \<Rightarrow> req_env" where
  "demo_cloud_env body = demo_http_env\<lparr>re_files := demo_files\<lparr>af_parse := (\<lambda>_. Some body)\<rparr>\<rparr>"

definition demo_rented :: http_sys where
  "demo_rented = demo_http\<lparr>hs_core := demo_sched\<lparr>sy_reg := [cloud_machine ''gcp'' ''i1'' demo_spec]\<rparr>\<rparr>"

text \<open>
  Reconfiguring a machine forgets what the request does not mention. Changing the number of cores of a
  rented machine through the handler that adds machines makes it a static one without provider and
  instance, so that it is never given back.
\<close>

theorem add_machine_forgets:
  "map (\<lambda>m. (m_id m, m_type m, m_cloud_provider m, m_cloud_instance_id m)) (sy_reg (hs_core demo_rented)) =
     [(''cloud-i1'', MACHINE_TYPE_CLOUD, ''gcp'', ''i1'')] \<and>
   map (\<lambda>m. (m_id m, m_type m, m_cloud_provider m, m_cloud_instance_id m))
       (sy_reg (hs_core (snd (add_machine (demo_cloud_env demo_body_machine) demo_request demo_rented)))) =
     [(''cloud-i1'', MACHINE_TYPE_STATIC, [], [])]"
  by (intro conjI; code_simp)

text \<open>
  C3: the settings of the pre-simulation are changed without the checks of the configuration. From a
  valid configuration a request leads to one the validation refuses.
\<close>

definition demo_presim :: json where
  "demo_presim = JObject [(''presim_threshold_max'', jnum (-1))]"

theorem presim_update_unchecked:
  "config_validate config_defaults = Inr () \<and>
   (\<exists>g. admin_update_presim_config (demo_cloud_env demo_presim) demo_request config_defaults = Some (Http_Json 200 (JObject [(''ok'', JBool True)]), g) \<and>
        isl (config_validate g))"
proof
  show "config_validate config_defaults = Inr ()"
    by (simp add: config_validate_def config_defaults_def safe_token_def less_eq_char_def)
  show "\<exists>g. admin_update_presim_config (demo_cloud_env demo_presim) demo_request config_defaults = Some (Http_Json 200 (JObject [(''ok'', JBool True)]), g) \<and>
        isl (config_validate g)"
    by (simp add: admin_update_presim_config_def demo_cloud_env_def demo_presim_def demo_http_env_def demo_files_def jnum_def
        presim_number_def presim_text_def config_validate_def config_defaults_def)
qed

theorem machine_handlers_sound_witness:
  "machines_ok (hs_core (snd (add_machine (demo_cloud_env demo_body_machine) demo_request demo_http))) \<and>
   map m_id (sy_reg (hs_core (snd (add_machine (demo_cloud_env demo_body_machine) demo_request demo_http)))) = [''n1'', ''n2'', ''cloud-i1'']"
proof -
  have "alloc_ok demo_sched" using demo_sched_ok by (simp add: sched_ok_def)
  then have "machines_ok (hs_core demo_http)"
    by (auto simp: machines_ok_def demo_http_def demo_sched_def exec_sys.defs demo_exec_def life_sys.defs demo_life_def demo_sys_def demo_registry_def
        demo_machine_def machine_zero_def plain_machine_def plain_def shell_meta_def)
  then have "machines_ok (hs_core (snd (add_machine (demo_cloud_env demo_body_machine) demo_request demo_http)))"
    by (rule machine_handlers_sound) (rule insertI1)
  then show ?thesis by (rule conjI) code_simp
qed

end
