(* ===== verification/Reports.thy ===== *)
theory Reports
  imports Views "HOL-Library.Option_ord"
begin

text \<open>
  The reports of \<open>src/persistence/db.c\<close> and the handlers of \<open>src/http/routes.c\<close> that show them: jobs over time, per
  user, per application, allocations per machine, and the list of events. SQLite's \<open>strftime\<close> is an
  argument, \<open>None\<close> for its NULL. Groups of the same size are taken in the order of their keys.
\<close>

section \<open>Model\<close>

subsection \<open>Queries\<close>

text \<open>\<open>sqlite3_column_int\<close> keeps the low 32 bits.\<close>

definition low_int :: "int \<Rightarrow> int" where
  "low_int v = (v + 2 ^ 31) mod 2 ^ 32 - 2 ^ 31"

definition in_window :: "int \<Rightarrow> int \<Rightarrow> int \<Rightarrow> bool" where
  "in_window from_ts to_ts t \<longleftrightarrow> t \<ge> from_ts \<and> (to_ts = 0 \<or> t \<le> to_ts)"

text \<open>\<open>GROUP BY\<close>: the keys with their rows.\<close>

definition groups :: "('r \<Rightarrow> 'k :: linorder) \<Rightarrow> 'r list \<Rightarrow> ('k \<times> 'r list) list" where
  "groups key rows = map (\<lambda>k. (k, filter (\<lambda>r. key r = k) rows)) (sort (remdups (map key rows)))"

definition largest_first :: "('k \<times> 'r list) list \<Rightarrow> ('k \<times> 'r list) list" where
  "largest_first = sort_key (\<lambda>(_, rs). - int (length rs))"

text \<open>\<open>AVG\<close> of the values that are not NULL; \<open>sqlite3_column_double\<close> reads a NULL as zero.\<close>

definition average :: "real list \<Rightarrow> real" where
  "average xs = (if xs = [] then 0 else sum_list xs / real (length xs))"

definition duration :: "job_row \<Rightarrow> real option" where
  "duration r =
     (case (r_started_at r, r_ended_at r) of
        (Some s, Some e) \<Rightarrow> if e > s then Some (of_int (e - s)) else None
      | _ \<Rightarrow> None)"

definition avg_duration :: "job_row list \<Rightarrow> real" where
  "avg_duration rows = average (List.map_filter duration rows)"

definition count_in :: "job_status \<Rightarrow> job_row list \<Rightarrow> int" where
  "count_in st rows = int (length (filter (\<lambda>r. r_status r = st) rows))"

record job_time_bucket =
  jb_period :: string
  jb_total :: int
  jb_finished :: int
  jb_failed :: int
  jb_avg_duration_s :: real

record user_report =
  ur_user_id :: string
  ur_total_jobs :: int
  ur_finished :: int
  ur_failed :: int
  ur_avg_duration_s :: real
  ur_total_cores_used :: int
  ur_total_ram_mb_used :: int

record app_report =
  an_app_id :: string
  an_total_jobs :: int
  an_finished :: int
  an_failed :: int
  an_avg_duration_s :: real

record machine_report =
  mr_machine_id :: string
  mr_total_allocations :: int
  mr_total_cores_reserved :: int
  mr_total_ram_mb_reserved :: int
  mr_avg_utilization_pct :: real

definition report_format :: "string \<Rightarrow> string" where
  "report_format granularity =
     (if granularity = ''hour'' then ''%Y-%m-%d %H:00'' else if granularity = ''month'' then ''%Y-%m'' else ''%Y-%m-%d'')"

definition job_window :: "(job_row \<Rightarrow> bool) \<Rightarrow> int \<Rightarrow> int \<Rightarrow> tables \<Rightarrow> job_row list" where
  "job_window P from_ts to_ts t = filter (\<lambda>r. P r \<and> in_window from_ts to_ts (r_submitted_at r)) (t_jobs t)"

definition bucket_of :: "string option \<times> job_row list \<Rightarrow> job_time_bucket" where
  "bucket_of g = \<lparr> jb_period = buf 32 (col_text (fst g)), jb_total = low_int (int (length (snd g))),
     jb_finished = low_int (count_in JOB_STATUS_SUCCEEDED (snd g)), jb_failed = low_int (count_in JOB_STATUS_FAILED (snd g)),
     jb_avg_duration_s = avg_duration (snd g) \<rparr>"

definition db_report_jobs_over_time ::
  "(string \<Rightarrow> int \<Rightarrow> string option) \<Rightarrow> int \<Rightarrow> string \<Rightarrow> int \<Rightarrow> int \<Rightarrow> db \<Rightarrow> job_time_bucket list \<times> db" where
  "db_report_jobs_over_time strftime max_buckets granularity from_ts to_ts =
     sql_read (\<lambda>t. map bucket_of (take (nat max_buckets)
       (groups (\<lambda>r. strftime (report_format granularity) (r_submitted_at r)) (job_window (\<lambda>_. True) from_ts to_ts t)))) [] []"

definition user_report_of :: "string \<times> job_row list \<Rightarrow> user_report" where
  "user_report_of g = \<lparr> ur_user_id = buf 128 (fst g), ur_total_jobs = low_int (int (length (snd g))),
     ur_finished = low_int (count_in JOB_STATUS_SUCCEEDED (snd g)), ur_failed = low_int (count_in JOB_STATUS_FAILED (snd g)),
     ur_avg_duration_s = avg_duration (snd g), ur_total_cores_used = low_int (sum_of r_req_cores (snd g)),
     ur_total_ram_mb_used = low_int (sum_of r_req_ram_mb (snd g)) \<rparr>"

definition db_report_per_user :: "int \<Rightarrow> int \<Rightarrow> int \<Rightarrow> db \<Rightarrow> user_report list \<times> db" where
  "db_report_per_user max_count from_ts to_ts =
     sql_read (\<lambda>t. map user_report_of (take (nat max_count)
       (largest_first (groups r_user_id (job_window (\<lambda>r. r_user_id r \<noteq> []) from_ts to_ts t))))) [] []"

definition app_report_of :: "string \<times> job_row list \<Rightarrow> app_report" where
  "app_report_of g = \<lparr> an_app_id = buf 128 (fst g), an_total_jobs = low_int (int (length (snd g))),
     an_finished = low_int (count_in JOB_STATUS_SUCCEEDED (snd g)), an_failed = low_int (count_in JOB_STATUS_FAILED (snd g)),
     an_avg_duration_s = avg_duration (snd g) \<rparr>"

definition db_report_per_app :: "int \<Rightarrow> int \<Rightarrow> int \<Rightarrow> db \<Rightarrow> app_report list \<times> db" where
  "db_report_per_app max_count from_ts to_ts =
     sql_read (\<lambda>t. map app_report_of (take (nat max_count)
       (largest_first (groups r_app_id (job_window (\<lambda>r. r_app_id r \<noteq> []) from_ts to_ts t))))) [] []"

definition utilization :: "alloc_row \<Rightarrow> real" where
  "utilization a = (case al_released_at a of Some r \<Rightarrow> if r > al_allocated_at a then 100 else 0 | None \<Rightarrow> 0)"

definition machine_report_of :: "string \<times> alloc_row list \<Rightarrow> machine_report" where
  "machine_report_of g = \<lparr> mr_machine_id = buf 64 (fst g), mr_total_allocations = low_int (int (length (snd g))),
     mr_total_cores_reserved = low_int (sum_of al_cores (snd g)), mr_total_ram_mb_reserved = low_int (sum_of al_ram_mb (snd g)),
     mr_avg_utilization_pct = average (map utilization (snd g)) \<rparr>"

definition db_report_per_machine :: "int \<Rightarrow> int \<Rightarrow> int \<Rightarrow> db \<Rightarrow> machine_report list \<times> db" where
  "db_report_per_machine max_count from_ts to_ts =
     sql_read (\<lambda>t. map machine_report_of (take (nat max_count)
       (largest_first (groups al_machine_id (filter (\<lambda>a. in_window from_ts to_ts (al_allocated_at a)) (t_allocations t)))))) [] []"

definition db_count_events_by_type :: "string option \<Rightarrow> int \<Rightarrow> int \<Rightarrow> int \<Rightarrow> db \<Rightarrow> (string \<times> int) list \<times> db" where
  "db_count_events_by_type category from_ts to_ts max_types =
     sql_read (\<lambda>t. map (\<lambda>(ty, es). (buf 64 ty, low_int (int (length es)))) (take (nat max_types)
       (largest_first (groups ev_event_type
         (filter (\<lambda>e. (col_text category = [] \<or> ev_category e = col_text category) \<and> in_window from_ts to_ts (ev_created_at e)) (t_events t)))))) [] []"

subsection \<open>Handlers\<close>

text \<open>\<open>atoll\<close> and \<open>atoi\<close> of the GNU library: a number beyond 64 bits is the nearest \<open>long long\<close>, and \<open>atoi\<close> keeps its low 32 bits.\<close>

definition c_atoll :: "string \<Rightarrow> int" where
  "c_atoll s = (case strtol s of None \<Rightarrow> 0 | Some (v, _) \<Rightarrow> max (- (2 ^ 63)) (min (2 ^ 63 - 1) v))"

definition query_time :: "request \<Rightarrow> string \<Rightarrow> int" where
  "query_time rq name = (let (len, tmp) = rq_var rq name 64 in if len > 0 then c_atoll tmp else 0)"

definition event_to_json :: "event_row \<Rightarrow> json" where
  "event_to_json e = JObject
     [(''id'', jnum (ev_id e)), (''category'', JString (ev_category e)), (''event_type'', JString (ev_event_type e)), (''detail'', JString (ev_detail e)),
      (''user_id'', JString (ev_user_id e)), (''job_id'', JString (ev_job_id e)), (''machine_id'', JString (ev_machine_id e)),
      (''created_at'', jnum (ev_created_at e))]"

definition admin_list_events :: "req_env \<Rightarrow> request \<Rightarrow> http_sys \<Rightarrow> reply \<times> http_sys" where
  "admin_list_events env rq h =
     (let (category_len, tmp) = rq_var rq ''category'' 64;
          category = (if category_len > 0 then tmp else []);
          (limit_len, limit_text) = rq_var rq ''limit'' 64;
          l = low_int (c_atoll limit_text);
          limit = (if limit_len > 0 \<and> l > 0 \<and> l \<le> 1000 then l else 200) in
      if \<not> re_calloc_ok env then (Http_Error 500 ''Out of memory'', h)
      else let (evts, h1) = ask (db_list_events limit (if category \<noteq> [] then Some category else None) (query_time rq ''from'') (query_time rq ''to'')) h in
           (json_reply env 200 (JArray (map event_to_json evts)), h1))"

definition jreal :: "real \<Rightarrow> json" where
  "jreal x = JNumber (Finite x)"

definition admin_report_jobs :: "req_env \<Rightarrow> (string \<Rightarrow> int \<Rightarrow> string option) \<Rightarrow> request \<Rightarrow> http_sys \<Rightarrow> reply \<times> http_sys" where
  "admin_report_jobs env strftime rq h =
     (let (len, tmp) = rq_var rq ''granularity'' 64;
          gran = (if len > 0 \<and> (tmp = ''hour'' \<or> tmp = ''day'' \<or> tmp = ''month'') then tmp else ''day'');
          (buckets, h1) = ask (db_report_jobs_over_time strftime 365 gran (query_time rq ''from'') (query_time rq ''to'')) h in
      (json_reply env 200 (JArray (map (\<lambda>b. JObject [(''period'', JString (jb_period b)), (''total'', jnum (jb_total b)),
         (''finished'', jnum (jb_finished b)), (''failed'', jnum (jb_failed b)), (''avg_duration_s'', jreal (jb_avg_duration_s b))]) buckets)), h1))"

definition admin_report_users :: "req_env \<Rightarrow> request \<Rightarrow> http_sys \<Rightarrow> reply \<times> http_sys" where
  "admin_report_users env rq h =
     (let (reports, h1) = ask (db_report_per_user 100 (query_time rq ''from'') (query_time rq ''to'')) h in
      (json_reply env 200 (JArray (map (\<lambda>r. JObject [(''user_id'', JString (ur_user_id r)), (''total_jobs'', jnum (ur_total_jobs r)),
         (''finished'', jnum (ur_finished r)), (''failed'', jnum (ur_failed r)), (''avg_duration_s'', jreal (ur_avg_duration_s r)),
         (''total_cores_used'', jnum (ur_total_cores_used r)), (''total_ram_mb_used'', jnum (ur_total_ram_mb_used r))]) reports)), h1))"

definition admin_report_apps :: "req_env \<Rightarrow> request \<Rightarrow> http_sys \<Rightarrow> reply \<times> http_sys" where
  "admin_report_apps env rq h =
     (let (reports, h1) = ask (db_report_per_app 100 (query_time rq ''from'') (query_time rq ''to'')) h in
      (json_reply env 200 (JArray (map (\<lambda>r. JObject [(''app_id'', JString (an_app_id r)), (''total_jobs'', jnum (an_total_jobs r)),
         (''finished'', jnum (an_finished r)), (''failed'', jnum (an_failed r)), (''avg_duration_s'', jreal (an_avg_duration_s r))]) reports)), h1))"

definition admin_report_machines :: "req_env \<Rightarrow> request \<Rightarrow> http_sys \<Rightarrow> reply \<times> http_sys" where
  "admin_report_machines env rq h =
     (let (reports, h1) = ask (db_report_per_machine 100 (query_time rq ''from'') (query_time rq ''to'')) h in
      (json_reply env 200 (JArray (map (\<lambda>r. JObject [(''machine_id'', JString (mr_machine_id r)), (''total_allocations'', jnum (mr_total_allocations r)),
         (''total_cores_reserved'', jnum (mr_total_cores_reserved r)), (''total_ram_mb_reserved'', jnum (mr_total_ram_mb_reserved r)),
         (''avg_utilization_pct'', jreal (mr_avg_utilization_pct r))]) reports)), h1))"

section \<open>Laws\<close>

lemma low_int_id: "- (2 ^ 31) \<le> v \<Longrightarrow> v < 2 ^ 31 \<Longrightarrow> low_int v = v"
  by (simp add: low_int_def)

lemma groups_total: "sum_list (map (\<lambda>g. length (snd g)) (groups key rows)) = length rows"
proof -
  have "sum_list (map (\<lambda>g. length (snd g)) (groups key rows)) = (\<Sum>k \<in> set (map key rows). length (filter (\<lambda>r. key r = k) rows))"
    by (simp add: groups_def comp_def sum_list_distinct_conv_sum_set)
  also have "\<dots> = length rows"
    using sum.group [of "{..<length rows}" "key ` set rows" "\<lambda>i. key (rows ! i)" "\<lambda>_. 1 :: nat"]
    by (auto simp: length_filter_conv_card image_subset_iff conj_commute)
  finally show ?thesis .
qed

lemma groups_length: "length (groups key rows) = card (key ` set rows)"
  by (simp add: groups_def length_remdups_card_conv)

lemma group_rows: "g \<in> set (groups key rows) \<Longrightarrow> set (snd g) \<subseteq> set rows \<and> length (snd g) \<le> length rows"
  by (auto simp: groups_def)

lemma largest_first_mset: "mset (largest_first gs) = mset gs" "length (largest_first gs) = length gs" "set (largest_first gs) = set gs"
  by (simp_all add: largest_first_def)

lemma sum_list_mset: "mset xs = mset ys \<Longrightarrow> sum_list (map f xs) = (sum_list (map f ys) :: int)"
  using sum_mset_sum_list [of "map f xs"] sum_mset_sum_list [of "map f ys"] by simp

lemma sum_of_map: "sum_of f (map g xs) = sum_of (\<lambda>x. f (g x)) xs"
  by (simp add: sum_of_def comp_def)

lemma read_works: "db_plan d = [] \<Longrightarrow> fst (sql_read f a b d) = f (db_tables d)"
  by (simp add: sql_read_def sql_next_def)

lemma int_sum_list: "int (sum_list (map f xs)) = sum_list (map (\<lambda>x. int (f x)) xs)"
  by (induction xs) simp_all

text \<open>The totals of all groups, read back as \<open>int\<close>, add up to the rows.\<close>

lemma totals:
  assumes "length rows < 2 ^ 31" "set gs = set (groups key rows)" "mset gs = mset (groups key rows)"
  shows "sum_of (\<lambda>g. low_int (int (length (snd g)))) gs = int (length rows)"
proof -
  have "low_int (int (length (snd g))) = int (length (snd g))" if "g \<in> set gs" for g
    using group_rows [of g key rows] that assms(1,2) by (intro low_int_id) auto
  then have "sum_of (\<lambda>g. low_int (int (length (snd g)))) gs = sum_list (map (\<lambda>g. int (length (snd g))) gs)"
    unfolding sum_of_def by (intro arg_cong [where f = sum_list] map_cong) auto
  also have "\<dots> = sum_list (map (\<lambda>g. int (length (snd g))) (groups key rows))"
    using assms(3) by (rule sum_list_mset)
  also have "\<dots> = int (sum_list (map (\<lambda>g. length (snd g)) (groups key rows)))"
    by (rule int_sum_list [symmetric])
  finally show ?thesis by (simp add: groups_total)
qed


text \<open>
  Three jobs of two users, one of them without an application.
\<close>

definition demo_jobs :: tables where
  "demo_jobs = empty_tables\<lparr>t_jobs :=
     map (\<lambda>(i, u, a). insert_job_row (job_zero\<lparr>j_id := i, j_user_id := u, j_app_id := a, j_submitted_at := 5\<rparr>))
       [(''j1'', ''ann'', ''heat''), (''j2'', ''bob'', []), (''j3'', ''ann'', ''heat'')]\<rparr>"

lemma demo_windows:
  "length (t_jobs demo_jobs) = 3 \<and> length (job_window (\<lambda>_. True) 0 0 demo_jobs) = 3 \<and>
   length (job_window (\<lambda>r. r_user_id r \<noteq> []) 0 0 demo_jobs) = 3 \<and> length (job_window (\<lambda>r. r_app_id r \<noteq> []) 0 0 demo_jobs) = 2"
  by code_simp

lemma few_groups: "card (f ` set (job_window P a b t)) \<le> length (t_jobs t)"
proof -
  have "card (f ` set (job_window P a b t)) \<le> length (job_window P a b t)"
    by (rule le_trans [OF card_image_le card_length]) simp
  also have "\<dots> \<le> length (t_jobs t)" by (simp add: job_window_def)
  finally show ?thesis .
qed

lemma demo_few: "3 \<le> n \<Longrightarrow> card (f ` set (job_window P 0 0 demo_jobs)) \<le> n"
  using few_groups [of f P 0 0 demo_jobs] demo_windows by linarith


lemma remdups_replicate: "remdups (replicate (Suc n) x) = [x]"
  by (induction n) auto

text \<open>
  Sums beyond \<open>int\<close> wrap in a report. A user with 215 jobs of 10000000 megabytes each, the most a
  submission may ask for, is reported with a negative total of memory.
\<close>

theorem report_ram_wraps:
  "map ur_total_ram_mb_used (fst (db_report_per_user 100 0 0 (opened_db (empty_tables\<lparr>t_jobs :=
     replicate 215 (insert_job_row (job_zero\<lparr>j_user_id := ''ann'', j_req_ram_mb := 10000000\<rparr>))\<rparr>)))) = [- 2144967296]"
proof -
  let ?r = "insert_job_row (job_zero\<lparr>j_user_id := ''ann'', j_req_ram_mb := 10000000\<rparr>)"
  have r: "r_user_id ?r = ''ann''" "r_req_ram_mb ?r = 10000000" "r_submitted_at ?r = 0"
    by (simp_all add: insert_job_row_def job_zero_def)
  have "remdups (map r_user_id (replicate 215 ?r)) = [''ann'']"
    using remdups_replicate [of 214 "''ann''"] by (simp add: map_replicate r(1))
  then have one: "groups r_user_id (replicate 215 ?r) = [(''ann'', replicate 215 ?r)]"
    by (simp add: groups_def r)
  have "low_int (sum_of r_req_ram_mb (replicate 215 ?r)) = - 2144967296"
    by (simp add: sum_of_def r sum_list_replicate low_int_def)
  with one show ?thesis
    by (simp add: db_report_per_user_def read_works job_window_def in_window_def r largest_first_def user_report_of_def opened_db_def)
qed

end
