(* ===== verification/Apps.thy ===== *)
theory Apps
  imports Views
begin

text \<open>
  The handlers of \<open>src/http/routes.c\<close> for application definitions: listing, showing, storing and deleting
  them, and the directory they are kept in. Storing writes a temporary file and renames it; the files
  are the field \<open>af_file\<close> of the record the definitions are read from.
\<close>

section \<open>Model\<close>

text \<open>\<open>exe\<close> is what \<open>readlink\<close> says of the running program, cut at 511 characters.\<close>

definition exe_relative_path :: "string option \<Rightarrow> string \<Rightarrow> nat \<Rightarrow> string" where
  "exe_relative_path exe suffix buf_len =
     (case exe of
        Some (c # cs) \<Rightarrow>
          (let dir = rev (dropWhile (\<lambda>x. x \<noteq> CHR ''/'') (rev (c # cs))) in
           if dir \<noteq> [] then buf (buf_len - 1) (dir @ suffix) else buf buf_len suffix)
      | _ \<Rightarrow> buf buf_len suffix)"

definition apps_dir_path :: "config \<Rightarrow> string option \<Rightarrow> nat \<Rightarrow> string" where
  "apps_dir_path g exe len =
     (let d = cf_apps_dir g in
      if take 1 d = ''/'' \<or> take 1 d = [CHR 0x5c] \<or> (d \<noteq> [] \<and> take 1 (drop 1 d) = '':'') then buf len d
      else buf len (exe_relative_path exe d 512))"

text \<open>\<open>cJSON_DeleteItemFromObjectCaseSensitive\<close> removes the first member of that name.\<close>

fun delete_item :: "string \<Rightarrow> (string \<times> json) list \<Rightarrow> (string \<times> json) list" where
  "delete_item key [] = []"
| "delete_item key ((k, v) # kvs) = (if k = key then kvs else (k, v) # delete_item key kvs)"

definition app_for_client :: "json \<Rightarrow> json" where
  "app_for_client app = (case app of JObject kvs \<Rightarrow> JObject (delete_item ''env'' kvs) | _ \<Rightarrow> app)"

text \<open>The name of an application whose file is an entry of the directory.\<close>

definition app_entry :: "string \<Rightarrow> string option" where
  "app_entry name =
     (if CHR ''.'' \<in> set name \<and> rev (takeWhile (\<lambda>c. c \<noteq> CHR ''.'') (rev name)) = ''json'' \<and> length name > 5 \<and> length name - 5 \<le> 64
      then Some (take (length name - 5) name) else None)"

definition list_apps :: "req_env \<Rightarrow> reply" where
  "list_apps env =
     (let names = (case fs_readdir (xe_fs (re_exec env)) (af_dir (re_files env)) of None \<Rightarrow> [] | Some ns \<Rightarrow> ns);
          shown = List.map_filter (\<lambda>name. case app_entry name of None \<Rightarrow> None | Some app_id \<Rightarrow>
                    (case load_app_definition (re_files env) app_id of Inl _ \<Rightarrow> None | Inr app \<Rightarrow> Some (app_for_client app))) names in
      if \<not> re_alloc_ok env \<or> \<not> re_print_ok env then Http_Error 500 ''Out of memory'' else Http_Json 200 (JArray shown))"

definition get_app :: "req_env \<Rightarrow> string \<Rightarrow> reply" where
  "get_app env app_id =
     (if \<not> safe_cli_name app_id then Http_Error 400 ''Invalid app_id''
      else case load_app_definition (re_files env) app_id of
        Inl e \<Rightarrow> Http_Error 404 (if e \<noteq> [] then e else ''App not found'')
      | Inr app \<Rightarrow> if \<not> re_alloc_ok env \<or> \<not> re_print_ok env then Http_Error 500 ''Out of memory'' else Http_Json 200 (app_for_client app))"

text \<open>
  \<open>pretty\<close> is \<open>cJSON_Print\<close>; \<open>re_fopen_ok\<close>, \<open>re_write_ok 0\<close> and \<open>rename_ok\<close> are the answers of the
  file system. A temporary file that stays open is not seen by anybody and is gone at the end.
\<close>

definition store_app :: "req_env \<Rightarrow> bool \<Rightarrow> string \<Rightarrow> string \<Rightarrow> reply \<times> (string \<Rightarrow> string option)" where
  "store_app env rename_ok fpath contents =
     (let files = af_file (re_files env); temp_path = buf 800 (fpath @ ''.tmp'') in
      if \<not> re_fopen_ok env then (Http_Error 500 ''Cannot write app file'', files)
      else if \<not> re_write_ok env 0 then (Http_Error 500 ''Cannot write app file'', files(temp_path := None))
      else if \<not> rename_ok then (Http_Error 500 ''Cannot replace app file'', files(temp_path := None))
      else (Http_Json 200 (JObject [(''ok'', JBool True)]), files(temp_path := None, fpath := Some contents)))"

definition upsert_app :: "req_env \<Rightarrow> (json \<Rightarrow> string option) \<Rightarrow> bool \<Rightarrow> request \<Rightarrow> reply \<times> app_files" where
  "upsert_app env pretty rename_ok rq =
     (let af = re_files env in
      if rq_body rq = [] \<or> length (rq_body rq) > 65536 then (Http_Error 413 ''App definition must not exceed 64 KiB'', af)
      else case af_parse af (rq_body rq) of
        None \<Rightarrow> (Http_Error 400 ''Invalid JSON'', af)
      | Some req \<Rightarrow>
          (case validate_app_definition req of
             Inl e \<Rightarrow> (Http_Error 400 e, af)
           | Inr _ \<Rightarrow>
               (case pretty req of
                  None \<Rightarrow> (Http_Error 500 ''JSON format error'', af)
                | Some contents \<Rightarrow>
                    if length contents > 65536 then (Http_Error 413 ''Formatted app definition exceeds 64 KiB'', af)
                    else let (r, files) = store_app env rename_ok (app_path af (item_text (get_item req ''app_id''))) contents
                         in (r, af\<lparr>af_file := files\<rparr>))))"

definition delete_app :: "req_env \<Rightarrow> bool \<Rightarrow> string \<Rightarrow> reply \<times> app_files" where
  "delete_app env remove_ok app_id =
     (let af = re_files env; fpath = app_path af app_id in
      if \<not> safe_cli_name app_id then (Http_Error 400 ''Invalid app_id'', af)
      else if af_file af fpath = None \<or> \<not> remove_ok then (Http_Error 404 ''App not found'', af)
      else (Http_Json 200 (JObject [(''ok'', JBool True)]), af\<lparr>af_file := (af_file af)(fpath := None)\<rparr>))"

section \<open>Laws\<close>

lemma app_path_full: "length (af_dir af) < 512 \<Longrightarrow> length i \<le> 64 \<Longrightarrow> app_path af i = af_dir af @ ''/'' @ i @ ''.json''"
  by (simp add: app_path_def)

lemma safe_cli_length: "safe_cli_name i \<Longrightarrow> length i \<le> 64"
  by (simp add: safe_cli_name_def)

lemma app_path_inj:
  assumes "length (af_dir af) < 512" "safe_cli_name i" "safe_cli_name k"
  shows "app_path af i = app_path af k \<longleftrightarrow> i = k" "app_path af i \<noteq> buf 800 (app_path af k @ ''.tmp'')"
proof -
  note l = safe_cli_length [OF assms(2)] safe_cli_length [OF assms(3)]
  show "app_path af i = app_path af k \<longleftrightarrow> i = k" using assms(1) l by (simp add: app_path_full)
  have "last (app_path af i) = CHR ''n''" using assms(1) l by (simp add: app_path_full)
  moreover have "last (buf 800 (app_path af k @ ''.tmp'')) = CHR ''p''" using assms(1) l by (simp add: app_path_full)
  ultimately show "app_path af i \<noteq> buf 800 (app_path af k @ ''.tmp'')" by auto
qed

lemma load_cong:
  "af_dir a = af_dir b \<Longrightarrow> af_parse a = af_parse b \<Longrightarrow> af_read_ok a = af_read_ok b \<Longrightarrow> af_file a (app_path a i) = af_file b (app_path b i) \<Longrightarrow>
   load_app_definition a i = load_app_definition b i"
proof -
  assume "af_dir a = af_dir b" "af_parse a = af_parse b" "af_read_ok a = af_read_ok b" "af_file a (app_path a i) = af_file b (app_path b i)"
  then have "read_app a (af_read_ok a) i = read_app b (af_read_ok b) i" by (simp add: read_app_def split: option.split)
  then show ?thesis by (simp add: load_app_definition_def)
qed

lemma load_unsafe: "\<not> safe_cli_name i \<Longrightarrow> load_app_definition a i = refuse ''Invalid app_id characters''"
  by (simp add: load_app_definition_def)

lemma validate_id: "validate_app_definition app = Inr u \<Longrightarrow> \<exists>i. string_value (get_item app ''app_id'') = Some i \<and> safe_cli_name i"
  by (auto simp: validate_app_definition_def valid_head_def refuse_def split: json.splits option.splits if_splits sum.splits)

lemma delete_item_absent: "distinct (map fst kvs) \<Longrightarrow> key \<notin> fst ` set (delete_item key kvs)"
  by (induction kvs rule: delete_item.induct) auto

lemma app_for_client_env: "\<forall>kvs. app = JObject kvs \<longrightarrow> distinct (map fst kvs) \<Longrightarrow> get_item (app_for_client app) ''env'' = None"
  using delete_item_absent by (cases app) (auto simp: app_for_client_def map_of_eq_None_iff)


text \<open>
  Clients never see the environment of an application, where its secrets are. When the members of every definition
  have different names, no answer that shows one holds a member \<open>env\<close>.
\<close>

theorem app_env_hidden:
  assumes "\<forall>i kvs. load_app_definition (re_files env) i = Inr (JObject kvs) \<longrightarrow> distinct (map fst kvs)"
  shows "(\<forall>item \<in> reply_items (list_apps env). get_item item ''env'' = None) \<and>
    (\<forall>body. get_app env i = Http_Json 200 body \<longrightarrow> get_item body ''env'' = None)"
proof
  have hidden: "get_item (app_for_client app) ''env'' = None" if "load_app_definition (re_files env) k = Inr app" for k app
    using app_for_client_env [of app] assms that by blast
  let ?show = "\<lambda>name. case app_entry name of None \<Rightarrow> None | Some app_id \<Rightarrow>
     (case load_app_definition (re_files env) app_id of Inl _ \<Rightarrow> None | Inr app \<Rightarrow> Some (app_for_client app))"
  have "get_item item ''env'' = None" if "?show name = Some item" for name item
    using that hidden by (auto split: option.splits sum.splits)
  then have "get_item item ''env'' = None" if "item \<in> set (List.map_filter ?show names)" for item names
    using that by (auto simp: map_filter_def)
  then show "\<forall>item \<in> reply_items (list_apps env). get_item item ''env'' = None"
    by (simp add: list_apps_def Let_def reply_items_def)
  show "\<forall>body. get_app env i = Http_Json 200 body \<longrightarrow> get_item body ''env'' = None"
    using hidden by (auto simp: get_app_def split: if_splits sum.splits)
qed

subsection \<open>Witnesses\<close>

definition demo_app_env :: req_env where
  "demo_app_env = demo_http_env\<lparr>re_files := demo_files\<lparr>af_file := (\<lambda>_. None)\<rparr>\<rparr>"

definition demo_pretty :: "json \<Rightarrow> string option" where
  "demo_pretty j = (if j = demo_app then Some ''app'' else None)"

lemma demo_app_valid: "validate_app_definition demo_app = Inr ()" "string_value (get_item demo_app ''app_id'') = Some ''solver''" "safe_cli_name ''solver''"
  by code_simp+

lemma demo_upsert: "fst (upsert_app demo_app_env demo_pretty True demo_request) = Http_Json 200 (JObject [(''ok'', JBool True)])"
  using demo_app_valid(1) by (simp add: upsert_app_def demo_app_env_def demo_files_def demo_http_env_def demo_request_def demo_pretty_def store_app_def Let_def)


lemma demo_get_app: "load_app_definition demo_files ''solver'' = Inr demo_app"
  using demo_app_valid by (simp add: load_app_definition_def read_app_def demo_files_def)

theorem app_env_hidden_witness:
  "get_app (demo_http_env\<lparr>re_files := demo_files\<rparr>) ''solver'' = Http_Json 200 (app_for_client demo_app) \<and> get_item (app_for_client demo_app) ''env'' = None"
proof -
  let ?env = "demo_http_env\<lparr>re_files := demo_files\<rparr>"
  have shown: "get_app ?env ''solver'' = Http_Json 200 (app_for_client demo_app)"
    using demo_get_app demo_app_valid(3) by (simp add: get_app_def demo_http_env_def)
  have "\<forall>i kvs. load_app_definition (re_files ?env) i = Inr (JObject kvs) \<longrightarrow> distinct (map fst kvs)"
    by (auto simp: load_app_definition_def read_app_def demo_files_def demo_app_def refuse_def split: if_splits sum.splits)
  from app_env_hidden [OF this, of "''solver''"] shown show ?thesis by auto
qed

end
