(* ===== verification/Store.thy ===== *)
theory Store
  imports Lifecycle "HOL-Library.Sublist"
begin

text \<open>
  \<open>src/transfer/store.c\<close> (the POSIX branch): the directories of a job below the work directory. The
  calls of the operating system are modelled on a file system whose nodes sit at lists of names:
  directories, regular files with their contents, and symbolic links, which the resolution of a path
  follows up to 40 times. A process that owns the work directory is assumed: no call is refused for
  lack of permission. What a disk stores of the bytes written to a file is an argument.
\<close>

section \<open>The file system\<close>

datatype node = Dir_Node | File_Node string | Link_Node string

record posix =
  px_nodes :: "(string list \<times> node) list"
  px_cwd :: "string list"

definition node_at :: "posix \<Rightarrow> string list \<Rightarrow> node option" where
  "node_at d p = (if p = [] then Some Dir_Node else map_of (px_nodes d) p)"

text \<open>
  The location of a path: \<open>cs\<close> are the names still to be walked from the directory \<open>cur\<close>, \<open>links\<close> the
  links that may still be followed. The last name is followed when it is a link and \<open>follow\<close> holds or
  a slash comes after it. The location of a missing last name is where it would be created.
\<close>

function resolve :: "posix \<Rightarrow> bool \<Rightarrow> nat \<Rightarrow> string list \<Rightarrow> string list \<Rightarrow> string list option" where
  "resolve d follow links cur [] = Some cur"
| "resolve d follow links cur (c # cs) =
     (if c = [] \<or> c = ''.'' then resolve d follow links cur cs
      else if c = ''..'' then resolve d follow links (butlast cur) cs
      else case node_at d (cur @ [c]) of
        Some Dir_Node \<Rightarrow> resolve d follow links (cur @ [c]) cs
      | Some (File_Node _) \<Rightarrow> if cs = [] then Some (cur @ [c]) else None
      | Some (Link_Node target) \<Rightarrow>
          if cs = [] \<and> \<not> follow then Some (cur @ [c])
          else if links = 0 then None
          else resolve d follow (links - 1) (if take 1 target = ''/'' then [] else cur) (split_on CHR ''/'' target @ cs)
      | None \<Rightarrow> if list_all (\<lambda>s. s = []) cs then Some (cur @ [c]) else None)"
  by pat_completeness auto
termination
  by (relation "measures [\<lambda>(d, f, n, cur, cs). n, \<lambda>(d, f, n, cur, cs). length cs]") auto

definition locate :: "posix \<Rightarrow> bool \<Rightarrow> string \<Rightarrow> string list option" where
  "locate d follow path =
     (if path = [] then None
      else resolve d follow 40 (if hd path = CHR ''/'' then [] else px_cwd d) (split_on CHR ''/'' path))"

definition put_node :: "string list \<Rightarrow> node \<Rightarrow> posix \<Rightarrow> posix" where
  "put_node p n d =
     d\<lparr>px_nodes := (if node_at d p = None then px_nodes d @ [(p, n)]
                    else map (\<lambda>(q, m). (q, if q = p then n else m)) (px_nodes d))\<rparr>"

definition drop_node :: "string list \<Rightarrow> posix \<Rightarrow> posix" where
  "drop_node p d = d\<lparr>px_nodes := filter (\<lambda>(q, _). q \<noteq> p) (px_nodes d)\<rparr>"

definition entries :: "posix \<Rightarrow> string list \<Rightarrow> string list" where
  "entries d p = map last (filter (\<lambda>q. q \<noteq> [] \<and> butlast q = p) (map fst (px_nodes d)))"

definition posix_stat :: "posix \<Rightarrow> string \<Rightarrow> node option" where
  "posix_stat d path = Option.bind (locate d True path) (node_at d)"

text \<open>\<open>opendir\<close> and the names \<open>readdir\<close> then yields.\<close>

definition posix_readdir :: "posix \<Rightarrow> string \<Rightarrow> string list option" where
  "posix_readdir d path =
     (case locate d True path of
        Some p \<Rightarrow> if node_at d p = Some Dir_Node then Some (''.'' # ''..'' # entries d p) else None
      | None \<Rightarrow> None)"

definition posix_mkdir :: "string \<Rightarrow> posix \<Rightarrow> posix" where
  "posix_mkdir path d =
     (case locate d False path of
        Some p \<Rightarrow> if node_at d p = None then put_node p Dir_Node d else d
      | None \<Rightarrow> d)"

definition posix_rmdir :: "string \<Rightarrow> posix \<Rightarrow> posix" where
  "posix_rmdir path d =
     (case locate d False path of
        Some p \<Rightarrow> if p \<noteq> [] \<and> node_at d p = Some Dir_Node \<and> entries d p = [] then drop_node p d else d
      | None \<Rightarrow> d)"

text \<open>\<open>remove\<close>: a file or a link is unlinked, a directory goes to \<open>rmdir\<close>.\<close>

definition posix_remove :: "string \<Rightarrow> posix \<Rightarrow> posix" where
  "posix_remove path d =
     (case locate d False path of
        Some p \<Rightarrow>
          (case node_at d p of
             Some Dir_Node \<Rightarrow> posix_rmdir path d
           | Some _ \<Rightarrow> drop_node p d
           | None \<Rightarrow> d)
      | None \<Rightarrow> d)"

definition posix_read :: "posix \<Rightarrow> string \<Rightarrow> string option" where
  "posix_read d path = (case posix_stat d path of Some (File_Node s) \<Rightarrow> Some s | _ \<Rightarrow> None)"

text \<open>Opening for writing and writing \<open>s\<close>: \<open>None\<close> when the file cannot be opened.\<close>

definition posix_write :: "string \<Rightarrow> string \<Rightarrow> posix \<Rightarrow> posix option" where
  "posix_write path s d =
     (case locate d True path of
        Some p \<Rightarrow> if node_at d p = Some Dir_Node then None else Some (put_node p (File_Node s) d)
      | None \<Rightarrow> None)"

section \<open>Model\<close>

fun make_dir_loop :: "string \<Rightarrow> string \<Rightarrow> posix \<Rightarrow> posix" where
  "make_dir_loop seen [] d = posix_mkdir seen d"
| "make_dir_loop seen (c # cs) d =
     (if c = CHR ''/'' \<or> c = CHR 0x5c then make_dir_loop (seen @ ''/'') cs (posix_mkdir seen d)
      else make_dir_loop (seen @ [c]) cs d)"

definition make_dir :: "string \<Rightarrow> posix \<Rightarrow> posix" where
  "make_dir path d = (case buf 512 path of [] \<Rightarrow> d | c # cs \<Rightarrow> make_dir_loop [c] cs d)"

definition store_init_job_dirs :: "string \<Rightarrow> string \<Rightarrow> posix \<Rightarrow> posix" where
  "store_init_job_dirs work_dir job_id d =
     make_dir (store_output_dir work_dir job_id 512) (make_dir (store_input_dir work_dir job_id 512) d)"

text \<open>\<open>stored\<close> is what the disk keeps of the bytes written; the result does not tell.\<close>

definition copy_file :: "(string \<Rightarrow> string) \<Rightarrow> string \<Rightarrow> string \<Rightarrow> posix \<Rightarrow> int \<times> posix" where
  "copy_file stored src dst d =
     (case posix_read d src of
        None \<Rightarrow> (-1, d)
      | Some s \<Rightarrow> (case posix_write dst (stored s) d of None \<Rightarrow> (-1, d) | Some d' \<Rightarrow> (0, d')))"

fun forward_entries :: "(string \<Rightarrow> string) \<Rightarrow> string \<Rightarrow> string \<Rightarrow> string list \<Rightarrow> int \<Rightarrow> posix \<Rightarrow> int \<times> posix" where
  "forward_entries stored src_dir dst_dir [] copied d = (copied, d)"
| "forward_entries stored src_dir dst_dir (name # names) copied d =
     (let src_path = buf 512 (src_dir @ ''/'' @ name); dst_path = buf 512 (dst_dir @ ''/'' @ name) in
      if name = ''.'' \<or> name = ''..'' \<or> posix_read d src_path = None
      then forward_entries stored src_dir dst_dir names copied d
      else let (r, d') = copy_file stored src_path dst_path d in
           forward_entries stored src_dir dst_dir names (if r = 0 then copied + 1 else copied) d')"

definition store_forward_outputs :: "(string \<Rightarrow> string) \<Rightarrow> string \<Rightarrow> string \<Rightarrow> string \<Rightarrow> posix \<Rightarrow> int \<times> posix" where
  "store_forward_outputs stored work_dir parent_job_id child_job_id d =
     (let src_dir = store_output_dir work_dir parent_job_id 512; dst_dir = store_input_dir work_dir child_job_id 512;
          d1 = make_dir dst_dir d in
      case posix_readdir d1 src_dir of
        None \<Rightarrow> (0, d1)
      | Some names \<Rightarrow> forward_entries stored src_dir dst_dir names 0 d1)"

text \<open>
  The recursion of \<open>rmdir_r\<close> has a frame of the stack per level; the first argument counts the frames,
  \<open>None\<close> is running out of them. \<open>descend\<close> is the recursive call.
\<close>

fun rmdir_entries :: "(string \<Rightarrow> posix \<Rightarrow> posix option) \<Rightarrow> string \<Rightarrow> string list \<Rightarrow> posix \<Rightarrow> posix option" where
  "rmdir_entries descend path [] d = Some d"
| "rmdir_entries descend path (name # names) d =
     (let sub = buf 512 (path @ ''/'' @ name) in
      if name = ''.'' \<or> name = ''..'' then rmdir_entries descend path names d
      else if posix_stat d sub = Some Dir_Node
      then Option.bind (descend sub d) (rmdir_entries descend path names)
      else rmdir_entries descend path names (posix_remove sub d))"

primrec rmdir_r :: "nat \<Rightarrow> string \<Rightarrow> posix \<Rightarrow> posix option" where
  "rmdir_r 0 path d = None"
| "rmdir_r (Suc frames) path d =
     (case posix_readdir d path of
        None \<Rightarrow> Some d
      | Some names \<Rightarrow> map_option (posix_rmdir path) (rmdir_entries (rmdir_r frames) path names d))"

definition store_cleanup_job :: "nat \<Rightarrow> string \<Rightarrow> string \<Rightarrow> posix \<Rightarrow> posix option" where
  "store_cleanup_job frames work_dir job_id d = rmdir_r frames (buf 512 (work_dir @ ''/'' @ job_id)) d"

definition store_reset_job_outputs :: "nat \<Rightarrow> string \<Rightarrow> string \<Rightarrow> posix \<Rightarrow> posix option" where
  "store_reset_job_outputs frames work_dir job_id d =
     map_option (\<lambda>d1. posix_remove (store_stderr_path work_dir job_id 512)
                      (posix_remove (store_stdout_path work_dir job_id 512)
                        (make_dir (store_output_dir work_dir job_id 512) d1)))
       (rmdir_r frames (store_output_dir work_dir job_id 512) d)"

section \<open>Laws\<close>

subsection \<open>Paths that lead straight to a directory\<close>

definition plain_name :: "string \<Rightarrow> bool" where
  "plain_name s \<longleftrightarrow> s \<noteq> [] \<and> s \<noteq> ''.'' \<and> s \<noteq> ''..'' \<and> CHR ''/'' \<notin> set s"

definition disk_ok :: "posix \<Rightarrow> bool" where
  "disk_ok d \<longleftrightarrow> distinct (map fst (px_nodes d)) \<and>
     (\<forall>p \<in> fst ` set (px_nodes d). p \<noteq> [] \<and> list_all plain_name p \<and> node_at d (butlast p) = Some Dir_Node)"

definition steps :: "string list \<Rightarrow> string list" where
  "steps cs = filter (\<lambda>c. c \<noteq> [] \<and> c \<noteq> ''.'') cs"

definition leads_to :: "posix \<Rightarrow> string \<Rightarrow> string list \<Rightarrow> bool" where
  "leads_to d path p \<longleftrightarrow> path \<noteq> [] \<and> ''..'' \<notin> set (split_on CHR ''/'' path) \<and>
     p = (if hd path = CHR ''/'' then [] else px_cwd d) @ steps (split_on CHR ''/'' path) \<and>
     (\<forall>q. prefix q p \<longrightarrow> node_at d q = Some Dir_Node)"

lemma split_on_append: "split_on c (xs @ c # ys) = split_on c xs @ split_on c ys"
  by (induction xs) (auto split: list.splits)

lemma split_on_none: "c \<notin> set xs \<Longrightarrow> split_on c xs = [xs]"
  by (induction xs) auto

lemma resolve_dirs:
  "''..'' \<notin> set cs \<Longrightarrow> \<forall>q. prefix q (cur @ steps cs) \<longrightarrow> node_at d q = Some Dir_Node \<Longrightarrow>
   resolve d f n cur (cs @ ys) = resolve d f n (cur @ steps cs) ys"
proof (induction cs arbitrary: cur)
  case (Cons c cs)
  show ?case
  proof (cases "c = [] \<or> c = ''.''")
    case True
    then have "steps (c # cs) = steps cs" by (auto simp: steps_def)
    then show ?thesis using Cons True by auto
  next
    case False
    then have "node_at d (cur @ [c]) = Some Dir_Node" using Cons.prems by (simp add: steps_def)
    then show ?thesis using Cons.IH [of "cur @ [c]"] Cons.prems False by (auto simp: steps_def)
  qed
qed (simp add: steps_def)

lemma leads_locate: "leads_to d path p \<Longrightarrow> locate d f path = Some p"
  using resolve_dirs [of "split_on CHR ''/'' path" "if hd path = CHR ''/'' then [] else px_cwd d" d f 40 "[]"]
  by (simp add: leads_to_def locate_def)

lemma leads_locate_child:
  assumes "leads_to d path p" "plain_name n" "f \<longrightarrow> (\<forall>t. node_at d (p @ [n]) \<noteq> Some (Link_Node t))"
  shows "locate d f (path @ CHR ''/'' # n) = Some (p @ [n])"
proof -
  have "split_on CHR ''/'' (path @ CHR ''/'' # n) = split_on CHR ''/'' path @ [n]"
    using assms(2) by (simp add: split_on_append split_on_none plain_name_def)
  moreover have "resolve d f 40 p [n] = Some (p @ [n])"
    using assms(2,3) by (auto simp: plain_name_def split: option.splits node.splits)
  moreover have "resolve d f 40 (if hd path = CHR ''/'' then [] else px_cwd d) (split_on CHR ''/'' path @ [n]) = resolve d f 40 p [n]"
    using assms(1) resolve_dirs [of "split_on CHR ''/'' path" "if hd path = CHR ''/'' then [] else px_cwd d" d f 40 "[n]"]
    unfolding leads_to_def by blast
  ultimately show ?thesis using assms(1) by (simp add: locate_def leads_to_def del: resolve.simps)
qed

lemma leads_to_child:
  assumes "leads_to d path p" "plain_name n" "node_at d (p @ [n]) = Some Dir_Node"
  shows "leads_to d (path @ CHR ''/'' # n) (p @ [n])"
proof -
  have "node_at d q = Some Dir_Node" if "prefix q (p @ [n])" for q
    using that assms(1,3) by (auto simp: leads_to_def)
  then show ?thesis
    using assms(1,2) unfolding leads_to_def by (auto simp: split_on_append split_on_none plain_name_def steps_def)
qed

subsection \<open>Subtrees\<close>

text \<open>The disk without a location and everything below it.\<close>

definition prune :: "string list \<Rightarrow> posix \<Rightarrow> posix" where
  "prune p d = d\<lparr>px_nodes := filter (\<lambda>(q, _). \<not> prefix p q) (px_nodes d)\<rparr>"

lemma keys_prune: "fst ` set (px_nodes (prune p d)) = {q \<in> fst ` set (px_nodes d). \<not> prefix p q}"
  by (force simp: prune_def)

lemma node_at_prune: "p \<noteq> [] \<Longrightarrow> node_at (prune p d) q = (if prefix p q then None else node_at d q)"
proof -
  assume p: "p \<noteq> []"
  have "map_of (filter (\<lambda>(q, _). \<not> prefix p q) xs) q = (if prefix p q then None else map_of xs q)"
    for xs :: "(string list \<times> node) list"
    by (induction xs) auto
  then show ?thesis using p by (auto simp: node_at_def prune_def)
qed

lemma node_at_key: "node_at d p \<noteq> None \<longleftrightarrow> p = [] \<or> p \<in> fst ` set (px_nodes d)"
  using map_of_eq_None_iff [of "px_nodes d" p] by (auto simp: node_at_def simp del: not_None_eq)

lemma disk_ok_prune: "disk_ok d \<Longrightarrow> p \<noteq> [] \<Longrightarrow> disk_ok (prune p d)"
proof -
  assume a: "disk_ok d" "p \<noteq> []"
  have "distinct (map fst (px_nodes (prune p d)))"
    using a(1) by (auto simp: disk_ok_def prune_def distinct_map inj_on_def)
  moreover have "\<not> prefix p q \<Longrightarrow> \<not> prefix p (butlast q)" for q
    by (metis append_butlast_last_id butlast.simps(1) prefix_append prefix_order.refl)
  ultimately show ?thesis
    using a unfolding disk_ok_def keys_prune by (auto simp: node_at_prune)
qed

lemma disk_ok_prefix:
  assumes "disk_ok d" "q \<in> fst ` set (px_nodes d)" "strict_prefix r q"
  shows "node_at d r = Some Dir_Node"
  using assms(2,3)
proof (induction q rule: rev_induct)
  case (snoc x q)
  have "node_at d (butlast (q @ [x])) = Some Dir_Node" using assms(1) snoc.prems(1) unfolding disk_ok_def by blast
  then have q: "node_at d q = Some Dir_Node" by simp
  show ?case
  proof (cases "r = q \<or> q = []")
    case True
    then have "r = q" using snoc.prems(2) by (auto simp: strict_prefix_def prefix_snoc)
    then show ?thesis using q by simp
  next
    case False
    moreover have "q \<in> fst ` set (px_nodes d)" using q False node_at_key [of d q] by auto
    ultimately show ?thesis using snoc by (auto simp: strict_prefix_def)
  qed
qed auto

lemma disk_ok_file: "disk_ok d \<Longrightarrow> node_at d p \<noteq> Some Dir_Node \<Longrightarrow> q \<in> fst ` set (px_nodes d) \<Longrightarrow> prefix p q \<Longrightarrow> q = p"
  using disk_ok_prefix by (auto simp: strict_prefix_def)

lemma prune_leaf: "disk_ok d \<Longrightarrow> node_at d p \<noteq> Some Dir_Node \<Longrightarrow> prune p d = drop_node p d"
  using disk_ok_file [of d p] by (force simp: prune_def drop_node_def intro!: arg_cong [where f = "\<lambda>x. d\<lparr>px_nodes := x\<rparr>"] filter_cong)

lemma drop_absent: "p \<noteq> [] \<Longrightarrow> node_at d p = None \<Longrightarrow> drop_node p d = d"
proof -
  assume "p \<noteq> []" "node_at d p = None"
  then have "filter (\<lambda>(q, _). q \<noteq> p) (px_nodes d) = px_nodes d"
    by (intro filter_True) (auto simp: node_at_def map_of_eq_None_iff image_iff)
  then show ?thesis by (simp add: drop_node_def)
qed

lemma in_entries: "n \<in> set (entries d p) \<longleftrightarrow> p @ [n] \<in> fst ` set (px_nodes d)"
proof
  assume "n \<in> set (entries d p)"
  then obtain q where "q \<in> set (map fst (px_nodes d))" "q \<noteq> []" "butlast q = p" "last q = n" by (auto simp: entries_def)
  then show "p @ [n] \<in> fst ` set (px_nodes d)" using append_butlast_last_id [of q] by auto
next
  assume "p @ [n] \<in> fst ` set (px_nodes d)"
  then have "last (p @ [n]) \<in> set (entries d p)" unfolding entries_def set_map set_filter by (intro imageI) auto
  then show "n \<in> set (entries d p)" by simp
qed

subsection \<open>Removing a tree\<close>

definition path_len :: "string list \<Rightarrow> nat" where
  "path_len p = sum_list (map (\<lambda>c. length c + 1) p)"

text \<open>Below a location there are no links, at most \<open>n\<close> levels, and every path fits the buffer of the recursion.\<close>

definition tidy :: "nat \<Rightarrow> string \<Rightarrow> string list \<Rightarrow> posix \<Rightarrow> bool" where
  "tidy n path p d \<longleftrightarrow>
     (\<forall>q \<in> fst ` set (px_nodes d). prefix p q \<longrightarrow> length q \<le> length p + n \<and> (\<forall>t. node_at d q \<noteq> Some (Link_Node t)) \<and>
        length path + path_len (drop (length p) q) < 512)"

lemma tidy_prune: "tidy n path p d \<Longrightarrow> c \<noteq> [] \<Longrightarrow> tidy n path p (prune c d)"
  unfolding tidy_def keys_prune by (auto simp: node_at_prune)

lemma tidy_child: "tidy (Suc n) path p d \<Longrightarrow> tidy n (path @ CHR ''/'' # c) (p @ [c]) d"
proof -
  assume a: "tidy (Suc n) path p d"
  have "length (path @ CHR ''/'' # c) + path_len (drop (length (p @ [c])) q) = length path + path_len (drop (length p) q)"
    if "prefix (p @ [c]) q" for q
    using that by (auto simp: prefix_def path_len_def)
  then show ?thesis using a append_prefixD [of p "[c]"] unfolding tidy_def by force
qed

lemma below: "strict_prefix p (p @ [c])"
  by (simp add: strict_prefix_def)

lemma leads_prune:
  assumes "leads_to d path p" "strict_prefix p c"
  shows "leads_to (prune c d) path p"
proof -
  have "c \<noteq> []" using assms(2) by auto
  moreover have "\<not> prefix c q" if "prefix q p" for q using that assms(2) by (meson prefix_order.antisym_conv2 prefix_order.trans prefix_order.less_le_not_le)
  ultimately show ?thesis using assms(1) unfolding leads_to_def by (auto simp: node_at_prune prune_def [of _ d, THEN arg_cong [of _ _ px_cwd]])
qed

lemma posix_remove_leaf:
  assumes "leads_to d path p" "plain_name c" "node_at d (p @ [c]) \<noteq> Some Dir_Node"
  shows "posix_remove (path @ CHR ''/'' # c) d = drop_node (p @ [c]) d"
proof -
  have "locate d False (path @ CHR ''/'' # c) = Some (p @ [c])" using leads_locate_child [OF assms(1,2)] by simp
  then show ?thesis
    using assms(3) drop_absent [of "p @ [c]" d] by (auto simp: posix_remove_def split: option.splits node.splits)
qed

lemma node_at_drop: "p \<noteq> [] \<Longrightarrow> node_at (drop_node p d) q = (if q = p then None else node_at d q)"
proof -
  assume p: "p \<noteq> []"
  have "map_of (filter (\<lambda>(q, _). q \<noteq> p) xs) q = (if q = p then None else map_of xs q)" for xs :: "(string list \<times> node) list"
    by (induction xs) auto
  then show ?thesis using p by (auto simp: node_at_def drop_node_def)
qed

lemma leads_drop: "leads_to d path p \<Longrightarrow> q \<noteq> [] \<Longrightarrow> \<not> prefix q p \<Longrightarrow> leads_to (drop_node q d) path p"
  by (auto simp: leads_to_def node_at_drop drop_node_def [of q d, THEN arg_cong [of _ _ px_cwd]])

lemma rmdir_entries_prune:
  assumes descend: "\<And>d c. disk_ok d \<Longrightarrow> plain_name c \<Longrightarrow> leads_to d (path @ CHR ''/'' # c) (p @ [c]) \<Longrightarrow>
      tidy n (path @ CHR ''/'' # c) (p @ [c]) d \<Longrightarrow> descend (path @ CHR ''/'' # c) d = Some (prune (p @ [c]) d)"
  shows "disk_ok d \<Longrightarrow> leads_to d path p \<Longrightarrow> tidy (Suc n) path p d \<Longrightarrow> list_all plain_name names \<Longrightarrow>
    list_all (\<lambda>c. length path + length c < 511) names \<Longrightarrow>
    rmdir_entries descend path names d = Some (fold (\<lambda>c. prune (p @ [c])) names d)"
proof (induction names arbitrary: d)
  case (Cons c names)
  let ?sub = "path @ CHR ''/'' # c"
  have c: "plain_name c" "buf 512 (path @ ''/'' @ c) = ?sub" using Cons.prems by (auto simp: buf_def)
  have inv: "disk_ok (prune (p @ [c]) d)" "leads_to (prune (p @ [c]) d) path p" "tidy (Suc n) path p (prune (p @ [c]) d)"
    using Cons.prems disk_ok_prune leads_prune [OF _ below] tidy_prune by auto
  note rest = Cons.IH [OF inv] Cons.prems(4,5)
  have nl: "node_at d (p @ [c]) \<noteq> Some (Link_Node t)" for t
    using Cons.prems(3) node_at_key [of d "p @ [c]"] unfolding tidy_def by (metis append_is_Nil_conv not_Cons_self2 option.distinct(1) prefixI)
  have st: "posix_stat d ?sub = node_at d (p @ [c])"
    using leads_locate_child [OF Cons.prems(2) c(1)] nl by (simp add: posix_stat_def)
  show ?case
  proof (cases "node_at d (p @ [c]) = Some Dir_Node")
    case True
    then have "descend ?sub d = Some (prune (p @ [c]) d)"
      using descend Cons.prems c(1) leads_to_child tidy_child by blast
    then show ?thesis using True st c rest by (auto simp: Let_def plain_name_def)
  next
    case False
    then show ?thesis using posix_remove_leaf [OF Cons.prems(2) c(1) False] prune_leaf [OF Cons.prems(1) False] st c rest by (auto simp: Let_def plain_name_def)
  qed
qed simp

lemma fold_prune_nodes:
  "px_nodes (fold (\<lambda>c. prune (p @ [c])) names d) = filter (\<lambda>(q, _). \<forall>c \<in> set names. \<not> prefix (p @ [c]) q) (px_nodes d) \<and>
   px_cwd (fold (\<lambda>c. prune (p @ [c])) names d) = px_cwd d"
  by (induction names arbitrary: d) (auto simp: prune_def intro!: filter_cong)

lemma fold_prune_inv:
  "disk_ok d \<Longrightarrow> leads_to d path p \<Longrightarrow>
   disk_ok (fold (\<lambda>c. prune (p @ [c])) names d) \<and> leads_to (fold (\<lambda>c. prune (p @ [c])) names d) path p"
  by (induction names arbitrary: d) (simp_all add: disk_ok_prune leads_prune below)

lemma prune_children:
  assumes "disk_ok d" "p \<noteq> []" "node_at d p = Some Dir_Node"
  shows "drop_node p (fold (\<lambda>c. prune (p @ [c])) (entries d p) d) = prune p d \<and>
    entries (fold (\<lambda>c. prune (p @ [c])) (entries d p) d) p = []"
proof -
  have key: "q = p \<or> (\<exists>c \<in> set (entries d p). prefix (p @ [c]) q)" if q: "q \<in> fst ` set (px_nodes d)" "prefix p q" for q
  proof (cases "q = p")
    case False
    then obtain c r where cr: "q = p @ c # r" using q(2) by (metis append_Nil2 list.exhaust prefix_def)
    have "p @ [c] \<in> fst ` set (px_nodes d)"
      using disk_ok_prefix [OF assms(1) q(1), of "p @ [c]"] node_at_key [of d "p @ [c]"] q(1) cr
      by (cases r) (auto simp: strict_prefix_def)
    then show ?thesis using cr by (auto simp: in_entries)
  qed simp
  let ?e = "fold (\<lambda>c. prune (p @ [c])) (entries d p) d"
  have nodes: "px_nodes ?e = filter (\<lambda>(q, _). \<forall>c \<in> set (entries d p). \<not> prefix (p @ [c]) q) (px_nodes d)" "px_cwd ?e = px_cwd d"
    using fold_prune_nodes by blast+
  have key': "q = p \<or> (\<exists>c \<in> set (entries d p). prefix (p @ [c]) q)" if "(q, x) \<in> set (px_nodes d)" "prefix p q" for q x
    using key [of q] that by force
  have "filter (\<lambda>(q, _). q \<noteq> p) (px_nodes ?e) = filter (\<lambda>(q, _). \<not> prefix p q) (px_nodes d)"
    unfolding nodes filter_filter
    by (rule filter_cong [OF refl]) (use key' in \<open>auto dest: append_prefixD\<close>)
  then have "drop_node p ?e = prune p d" using nodes(2) by (simp add: drop_node_def prune_def)
  moreover have False if "x \<in> set (entries ?e p)" for x
  proof -
    have "p @ [x] \<in> fst ` set (px_nodes ?e)" using that by (simp only: in_entries)
    then obtain b where b: "(p @ [x], b) \<in> set (px_nodes ?e)" by (elim imageE) (metis prod.collapse)
    then have "(p @ [x], b) \<in> set (px_nodes d)" "\<forall>c \<in> set (entries d p). \<not> prefix (p @ [c]) (p @ [x])" unfolding nodes by auto
    moreover from this(1) have "x \<in> set (entries d p)" unfolding in_entries by (metis fst_conv imageI)
    ultimately show False by auto
  qed
  ultimately show ?thesis using list.set_sel(1) by blast
qed

lemma tidy_names:
  assumes "disk_ok d" "tidy n path p d"
  shows "list_all plain_name (entries d p)" "list_all (\<lambda>c. length path + length c < 511) (entries d p)"
proof -
  have "plain_name c \<and> length path + length c < 511" if "c \<in> set (entries d p)" for c
  proof -
    have k: "p @ [c] \<in> fst ` set (px_nodes d)" using that by (simp add: in_entries)
    then have "list_all plain_name (p @ [c])" using assms(1) unfolding disk_ok_def by blast
    moreover have "length path + path_len (drop (length p) (p @ [c])) < 512" using assms(2) k unfolding tidy_def by (meson prefixI)
    ultimately show ?thesis by (simp add: path_len_def)
  qed
  then show "list_all plain_name (entries d p)" "list_all (\<lambda>c. length path + length c < 511) (entries d p)"
    by (auto simp: list_all_iff)
qed

lemma rmdir_r_prune:
  "disk_ok d \<Longrightarrow> leads_to d path p \<Longrightarrow> p \<noteq> [] \<Longrightarrow> tidy n path p d \<Longrightarrow> n < frames \<Longrightarrow> rmdir_r frames path d = Some (prune p d)"
proof (induction n arbitrary: d path p frames)
  case 0
  obtain f where f: "frames = Suc f" using 0 by (cases frames) auto
  have "entries d p = []"
  proof (rule ccontr)
    assume "entries d p \<noteq> []"
    then have "p @ [hd (entries d p)] \<in> fst ` set (px_nodes d)" using in_entries by (metis list.set_sel(1))
    then show False using "0.prems"(4) by (force simp: tidy_def)
  qed
  moreover have "node_at d p = Some Dir_Node" using "0.prems"(2) by (simp add: leads_to_def)
  ultimately show ?case
    using f 0 leads_locate [of d path p] prune_children [of d p] by (simp add: posix_readdir_def posix_rmdir_def)
next
  case (Suc n)
  obtain f where f: "frames = Suc f" using Suc.prems by (cases frames) auto
  let ?e = "fold (\<lambda>c. prune (p @ [c])) (entries d p) d"
  have dir: "node_at d p = Some Dir_Node" using Suc.prems(2) by (simp add: leads_to_def)
  have "rmdir_entries (rmdir_r f) path (entries d p) d = Some ?e"
    by (rule rmdir_entries_prune [where n = n]) (use Suc f tidy_names [OF Suc.prems(1,4)] in auto)
  then have run: "rmdir_r frames path d = Some (posix_rmdir path ?e)"
    using f dir leads_locate [OF Suc.prems(2)] by (simp add: posix_readdir_def)
  have e: "leads_to ?e path p" using fold_prune_inv [OF Suc.prems(1,2)] by blast
  then have "node_at ?e p = Some Dir_Node" by (simp add: leads_to_def)
  then show ?case
    using run leads_locate [OF e] prune_children [OF Suc.prems(1,3) dir] Suc.prems(3) by (simp add: posix_rmdir_def)
qed

subsection \<open>Making directories\<close>

definition ensure :: "string list \<Rightarrow> posix \<Rightarrow> posix" where
  "ensure p d = (if node_at d p = None then put_node p Dir_Node d else d)"

lemma map_of_replace:
  "map_of (map (\<lambda>(r, m). (r, if r = p then n else m)) xs) q = (if q = p \<and> map_of xs p \<noteq> None then Some n else map_of xs q)"
proof (induction xs)
  case (Cons x xs)
  then show ?case by (cases x) (auto simp del: map_of_eq_Some_iff)
qed simp

lemma node_at_put: "p \<noteq> [] \<Longrightarrow> node_at (put_node p n d) q = (if q = p then Some n else node_at d q)"
proof (cases "node_at d p = None")
  case True
  assume "p \<noteq> []"
  then show ?thesis using True by (simp add: put_node_def node_at_def map_add_def split: option.splits)
next
  case False
  assume p: "p \<noteq> []"
  then have "map_of (px_nodes d) p \<noteq> None" using False by (simp add: node_at_def)
  then show ?thesis using p by (simp add: put_node_def node_at_def map_of_replace del: not_None_eq)
qed

lemma node_at_ensure: "p \<noteq> [] \<Longrightarrow> node_at (ensure p d) q = (if q = p \<and> node_at d p = None then Some Dir_Node else node_at d q)"
  by (simp add: ensure_def node_at_put)

lemma px_cwd_ensure: "px_cwd (ensure p d) = px_cwd d"
  by (simp add: ensure_def put_node_def)

lemma leads_ensure: "leads_to d path p \<Longrightarrow> q \<noteq> [] \<Longrightarrow> leads_to (ensure q d) path p"
  by (simp add: leads_to_def node_at_ensure px_cwd_ensure)

lemma mkdir_exists: "leads_to d path p \<Longrightarrow> posix_mkdir path d = d"
  using leads_locate [of d path p False] by (auto simp: posix_mkdir_def leads_to_def)

lemma mkdir_child: "leads_to d path p \<Longrightarrow> plain_name n \<Longrightarrow> posix_mkdir (path @ CHR ''/'' # n) d = ensure (p @ [n]) d"
  using leads_locate_child [of d path p n False] by (simp add: posix_mkdir_def ensure_def)

lemma leads_prefix:
  assumes "leads_to d (seen @ CHR ''/'' # tail) p" "seen \<noteq> []"
  shows "\<exists>q. leads_to d seen q"
proof -
  let ?q = "(if hd seen = CHR ''/'' then [] else px_cwd d) @ steps (split_on CHR ''/'' seen)"
  have "prefix ?q p" using assms by (auto simp: leads_to_def split_on_append steps_def)
  then have "\<forall>r. prefix r ?q \<longrightarrow> node_at d r = Some Dir_Node" using assms(1) prefix_order.trans unfolding leads_to_def by blast
  moreover have "''..'' \<notin> set (split_on CHR ''/'' seen)" using assms(1) by (simp add: leads_to_def split_on_append)
  ultimately have "leads_to d seen ?q" using assms(2) unfolding leads_to_def by blast
  then show ?thesis ..
qed

lemma make_dir_loop_exists:
  "leads_to d (seen @ cs) p \<Longrightarrow> seen \<noteq> [] \<Longrightarrow> CHR 0x5c \<notin> set cs \<Longrightarrow>
   make_dir_loop seen (cs @ zs) d = make_dir_loop (seen @ cs) zs d"
proof (induction cs arbitrary: seen)
  case (Cons c cs)
  have "posix_mkdir seen d = d" if "c = CHR ''/''"
    using leads_prefix [of d seen cs p] Cons.prems that mkdir_exists by auto
  then show ?case using Cons.IH [of "seen @ [c]"] Cons.prems by auto
qed simp

lemma make_dir_loop_name: "CHR ''/'' \<notin> set cs \<Longrightarrow> CHR 0x5c \<notin> set cs \<Longrightarrow> make_dir_loop seen cs d = posix_mkdir (seen @ cs) d"
  by (induction cs arbitrary: seen) auto

lemma make_dir_child:
  assumes "leads_to d path p" "plain_name n" "CHR 0x5c \<notin> set (path @ n)" "length path + length n < 511"
  shows "make_dir (path @ CHR ''/'' # n) d = ensure (p @ [n]) d"
proof -
  obtain c cs where c: "path = c # cs" using assms(1) by (cases path) (auto simp: leads_to_def)
  have n: "CHR ''/'' \<notin> set n" using assms(2) by (simp add: plain_name_def)
  have "make_dir (path @ CHR ''/'' # n) d = make_dir_loop [c] (cs @ CHR ''/'' # n) d"
    using assms(4) c by (simp add: make_dir_def)
  also have "\<dots> = make_dir_loop (path @ ''/'') n d"
    using make_dir_loop_exists [of d "[c]" cs p "CHR ''/'' # n"] mkdir_exists [OF assms(1)] assms(1,3) c by simp
  also have "\<dots> = ensure (p @ [n]) d" using make_dir_loop_name [OF n] mkdir_child [OF assms(1,2)] assms(3) by simp
  finally show ?thesis .
qed

lemma make_dir_loop_seg:
  "CHR ''/'' \<notin> set n \<Longrightarrow> CHR 0x5c \<notin> set n \<Longrightarrow> make_dir_loop seen (n @ CHR ''/'' # cs) d = make_dir_loop (seen @ n @ ''/'') cs (posix_mkdir (seen @ n) d)"
  by (induction n arbitrary: seen) auto

lemma leads_ensured:
  assumes "leads_to d path p" "plain_name n" "node_at d (p @ [n]) \<in> {None, Some Dir_Node}"
  shows "leads_to (ensure (p @ [n]) d) (path @ CHR ''/'' # n) (p @ [n])"
  using leads_to_child [OF leads_ensure [OF assms(1)] assms(2), of "p @ [n]"] assms(3) by (auto simp: node_at_ensure)

lemma make_dir_grandchild:
  assumes "leads_to d path p" "plain_name n" "plain_name m" "node_at d (p @ [n]) \<in> {None, Some Dir_Node}"
    and "CHR 0x5c \<notin> set (path @ n @ m)" "length path + length n + length m < 510"
  shows "make_dir (path @ CHR ''/'' # n @ CHR ''/'' # m) d = ensure (p @ [n, m]) (ensure (p @ [n]) d)"
proof -
  obtain c cs where c: "path = c # cs" using assms(1) by (cases path) (auto simp: leads_to_def)
  have n: "CHR ''/'' \<notin> set n" "CHR ''/'' \<notin> set m" using assms(2,3) by (simp_all add: plain_name_def)
  let ?d = "ensure (p @ [n]) d"
  have "make_dir (path @ CHR ''/'' # n @ CHR ''/'' # m) d = make_dir_loop [c] (cs @ CHR ''/'' # n @ CHR ''/'' # m) d"
    using assms(6) c by (simp add: make_dir_def)
  also have "\<dots> = make_dir_loop (path @ ''/'') (n @ CHR ''/'' # m) d"
    using make_dir_loop_exists [of d "[c]" cs p "CHR ''/'' # n @ CHR ''/'' # m"] mkdir_exists [OF assms(1)] assms(1,5) c by simp
  also have "\<dots> = posix_mkdir (path @ CHR ''/'' # n @ CHR ''/'' # m) ?d"
    using make_dir_loop_seg [OF n(1)] make_dir_loop_name [OF n(2)] mkdir_child [OF assms(1,2)] assms(5) by simp
  also have "\<dots> = ensure (p @ [n, m]) ?d"
    using mkdir_child [OF leads_ensured [OF assms(1,2,4)] assms(3)] by simp
  finally show ?thesis .
qed

subsection \<open>Claims\<close>

lemma node_key: "node_at d p = Some x \<Longrightarrow> p \<noteq> [] \<Longrightarrow> p \<in> fst ` set (px_nodes d)"
  using node_at_key by blast


text \<open>
  A job gets its directories. In a work directory reached without links, when nothing stands
  where the directories belong, or directories already do, the job's directory with its input and output
  directory exists afterwards and nothing else has changed.
\<close>

theorem store_init_job_dirs_correct:
  assumes "leads_to d work_dir w" "plain_name job_id" "CHR 0x5c \<notin> set (work_dir @ job_id)" "length work_dir + length job_id < 500"
    and "\<forall>p \<in> {w @ [job_id], w @ [job_id, ''input''], w @ [job_id, ''output'']}. node_at d p \<in> {None, Some Dir_Node}"
  shows "node_at (store_init_job_dirs work_dir job_id d) q =
    (if q \<in> {w @ [job_id], w @ [job_id, ''input''], w @ [job_id, ''output'']} then Some Dir_Node else node_at d q)"
proof -
  let ?j = "w @ [job_id]" and ?i = "w @ [job_id, ''input'']" and ?u = "w @ [job_id, ''output'']"
  let ?d = "ensure ?i (ensure ?j d)"
  have lead: "leads_to (ensure ?j d) (work_dir @ CHR ''/'' # job_id) ?j" by (rule leads_ensured) (use assms in auto)
  have fits: "store_input_dir work_dir job_id 512 = work_dir @ CHR ''/'' # job_id @ CHR ''/'' # ''input''"
    "store_output_dir work_dir job_id 512 = (work_dir @ CHR ''/'' # job_id) @ CHR ''/'' # ''output''"
    using assms(4) by (simp_all add: store_input_dir_def store_output_dir_def)
  have "make_dir (store_input_dir work_dir job_id 512) d = ?d"
    unfolding fits by (rule make_dir_grandchild [OF assms(1,2)]) (use assms in \<open>auto simp: plain_name_def\<close>)
  moreover have "make_dir (store_output_dir work_dir job_id 512) ?d = ensure ?u ?d"
    unfolding fits using make_dir_child [OF leads_ensure [OF lead], of ?i "''output''"] assms(3,4) by (simp add: plain_name_def)
  ultimately have "store_init_job_dirs work_dir job_id d = ensure ?u ?d" by (simp add: store_init_job_dirs_def)
  then show ?thesis using assms(5) by (auto simp: node_at_ensure)
qed

text \<open>
  A retry starts with empty outputs. In a work directory reached without links, and a job whose
  output directory holds no link and no path of more than 511 characters, resetting ends; the output directory is then empty, the
  two logs are gone, and nothing else has changed.
\<close>

theorem store_reset_correct:
  assumes "disk_ok d" "leads_to d work_dir w" "plain_name job_id" "node_at d (w @ [job_id]) = Some Dir_Node"
    and "CHR 0x5c \<notin> set (work_dir @ job_id)" "length work_dir + length job_id < 500"
    and "node_at d (w @ [job_id, ''output'']) = Some Dir_Node"
    and "tidy n (work_dir @ ''/'' @ job_id @ ''/output'') (w @ [job_id, ''output'']) d" "n < frames"
    and "node_at d (w @ [job_id, ''stdout.log'']) \<noteq> Some Dir_Node" "node_at d (w @ [job_id, ''stderr.log'']) \<noteq> Some Dir_Node"
  shows "\<exists>d'. store_reset_job_outputs frames work_dir job_id d = Some d' \<and>
    (\<forall>q. node_at d' q = (if q = w @ [job_id, ''output''] then Some Dir_Node
        else if prefix (w @ [job_id, ''output'']) q \<or> q = w @ [job_id, ''stdout.log''] \<or> q = w @ [job_id, ''stderr.log''] then None
        else node_at d q))"
proof -
  let ?path = "work_dir @ CHR ''/'' # job_id" and ?j = "w @ [job_id]" and ?out = "(w @ [job_id]) @ [''output'']"
  let ?so = "(w @ [job_id]) @ [''stdout.log'']" and ?se = "(w @ [job_id]) @ [''stderr.log'']"
  have fits: "store_output_dir work_dir job_id 512 = ?path @ CHR ''/'' # ''output''"
    "store_stdout_path work_dir job_id 512 = ?path @ CHR ''/'' # ''stdout.log''"
    "store_stderr_path work_dir job_id 512 = ?path @ CHR ''/'' # ''stderr.log''"
    using assms(6) by (simp_all add: store_output_dir_def store_stdout_path_def store_stderr_path_def)
  have names: "plain_name ''output''" "plain_name ''stdout.log''" "plain_name ''stderr.log''" by (simp_all add: plain_name_def)
  have lead: "leads_to d ?path ?j" by (rule leads_to_child [OF assms(2-4)])
  have "leads_to d (?path @ CHR ''/'' # ''output'') ?out" by (rule leads_to_child [OF lead names(1)]) (use assms(7) in simp)
  then have 1: "rmdir_r frames (store_output_dir work_dir job_id 512) d = Some (prune ?out d)"
    unfolding fits by (rule rmdir_r_prune [OF assms(1) _ _ _ assms(9)]) (use assms(8) in simp_all)
  let ?d = "ensure ?out (prune ?out d)"
  have lead1: "leads_to (prune ?out d) ?path ?j" by (rule leads_prune [OF lead below])
  have 2: "make_dir (store_output_dir work_dir job_id 512) (prune ?out d) = ?d"
    unfolding fits by (rule make_dir_child [OF lead1 names(1)]) (use assms(5,6) in simp_all)
  have lead2: "leads_to ?d ?path ?j" by (rule leads_ensure [OF lead1]) simp
  have 3: "posix_remove (store_stdout_path work_dir job_id 512) ?d = drop_node ?so ?d"
    unfolding fits by (rule posix_remove_leaf [OF lead2 names(2)]) (use assms(10) in \<open>simp add: node_at_ensure node_at_prune\<close>)
  have lead3: "leads_to (drop_node ?so ?d) ?path ?j" by (rule leads_drop [OF lead2]) (auto dest: prefix_length_le)
  have 4: "posix_remove (store_stderr_path work_dir job_id 512) (drop_node ?so ?d) = drop_node ?se (drop_node ?so ?d)"
    unfolding fits by (rule posix_remove_leaf [OF lead3 names(3)]) (use assms(11) in \<open>simp add: node_at_ensure node_at_prune node_at_drop\<close>)
  have "store_reset_job_outputs frames work_dir job_id d = Some (drop_node ?se (drop_node ?so ?d))"
    unfolding store_reset_job_outputs_def 1 option.map 2 3 4 ..
  then show ?thesis by (simp add: node_at_drop node_at_ensure node_at_prune)
qed

text \<open>
  A chain of directories, each the only entry of the one above, down to a path of 511 characters that
  is not empty.
\<close>

fun chain :: "posix \<Rightarrow> string \<Rightarrow> string list \<Rightarrow> bool" where
  "chain d path [] \<longleftrightarrow> length path = 511 \<and> posix_stat d path = Some Dir_Node \<and>
     (case posix_readdir d path of Some (_ # _ # n # _) \<Rightarrow> plain_name n | _ \<Rightarrow> False)"
| "chain d path (n # ns) \<longleftrightarrow> posix_readdir d path = Some [''.'', ''..'', n] \<and> plain_name n \<and> posix_stat d (path @ ''/'' @ n) = Some Dir_Node \<and>
     length path + length n < 511 \<and> chain d (path @ ''/'' @ n) ns"

lemma chain_stuck: "chain d path ns \<Longrightarrow> rmdir_r frames path d = None"
proof (induction ns arbitrary: path frames)
  case Nil
  then show ?case
  proof (induction frames)
    case (Suc frames)
    have "buf 512 (path @ ''/'' @ n) = path" for n using Suc.prems by (simp add: buf_def)
    moreover obtain n ns where "posix_readdir d path = Some (''.'' # ''..'' # n # ns)" "plain_name n"
      using Suc.prems by (auto simp: posix_readdir_def split: option.splits if_splits list.splits)
    ultimately show ?case using Suc by (auto simp: plain_name_def Let_def)
  qed simp
next
  case (Cons n ns)
  have "buf 512 (path @ ''/'' @ n) = path @ ''/'' @ n" using Cons.prems by (intro buf_id) auto
  then show ?case using Cons by (cases frames) (auto simp: plain_name_def Let_def)
qed

text \<open>
  Cleaning up does not always end. When a job leaves a chain of directories that reaches a path of
  511 characters, the buffer of 512 bytes cuts the paths of the entries below to the path of the
  directory itself, and \<open>rmdir_r\<close> calls itself on that directory for ever: no number of frames is enough.
\<close>

theorem store_cleanup_never_ends:
  "length work_dir + length job_id < 511 \<Longrightarrow> chain d (work_dir @ ''/'' @ job_id) ns \<Longrightarrow> store_cleanup_job frames work_dir job_id d = None"
  using chain_stuck [of d "work_dir @ ''/'' @ job_id" ns frames] by (simp add: store_cleanup_job_def)

text \<open>
  C4: cleaning up follows links out of the job's directory. A job that leaves a link to a directory
  elsewhere has the contents of that directory removed with its own, while the link and the
  directories above it stay.
\<close>

definition linked_disk :: posix where
  "linked_disk = \<lparr> px_nodes = [([''w''], Dir_Node), ([''w'', ''j''], Dir_Node), ([''w'', ''j'', ''output''], Dir_Node),
     ([''w'', ''j'', ''output'', ''a''], File_Node ''1''), ([''w'', ''j'', ''output'', ''l''], Link_Node ''/home''),
     ([''home''], Dir_Node), ([''home'', ''x''], File_Node ''2'')], px_cwd = [] \<rparr>"

theorem store_cleanup_follows_links:
  "map_option (map fst \<circ> px_nodes) (store_cleanup_job 9 ''/w'' ''j'' linked_disk) =
     Some [[''w''], [''w'', ''j''], [''w'', ''j'', ''output''], [''w'', ''j'', ''output'', ''l''], [''home'']]"
  by code_simp

subsection \<open>Witnesses\<close>

definition demo_disk :: posix where
  "demo_disk = \<lparr> px_nodes = [([''w''], Dir_Node), ([''w'', ''j''], Dir_Node), ([''w'', ''j'', ''output''], Dir_Node),
     ([''w'', ''j'', ''output'', ''a''], File_Node ''1''), ([''w'', ''k''], File_Node ''2'')], px_cwd = [] \<rparr>"

lemma demo_disk_leads: "leads_to demo_disk ''/w'' [''w'']"
  by (auto simp: leads_to_def demo_disk_def steps_def node_at_def prefix_Cons)


theorem store_init_job_dirs_correct_witness:
  "node_at (store_init_job_dirs ''/w'' ''k2'' demo_disk) [''w'', ''k2'', ''output''] = Some Dir_Node"
  by (subst store_init_job_dirs_correct [OF demo_disk_leads]) (simp_all add: plain_name_def demo_disk_def node_at_def)

theorem store_reset_correct_witness:
  "\<exists>d'. store_reset_job_outputs 2 ''/w'' ''j'' demo_disk = Some d' \<and> node_at d' [''w'', ''j'', ''output'', ''a''] = None \<and>
     node_at d' [''w'', ''j'', ''output''] = Some Dir_Node"
proof -
  have "disk_ok demo_disk" by (simp add: disk_ok_def demo_disk_def node_at_def plain_name_def)
  moreover have "tidy 1 (''/w'' @ ''/'' @ ''j'' @ ''/output'') ([''w''] @ [''j'', ''output'']) demo_disk" by (simp add: tidy_def demo_disk_def node_at_def path_len_def)
  ultimately obtain d' where "store_reset_job_outputs 2 ''/w'' ''j'' demo_disk = Some d'"
    "\<forall>q. node_at d' q = (if q = [''w'', ''j'', ''output''] then Some Dir_Node
        else if prefix [''w'', ''j'', ''output''] q \<or> q = [''w'', ''j'', ''stdout.log''] \<or> q = [''w'', ''j'', ''stderr.log''] then None
        else node_at demo_disk q)"
    using store_reset_correct [of demo_disk "''/w''" "[''w'']" "''j''" 1 2] demo_disk_leads
    by (auto simp: plain_name_def demo_disk_def node_at_def)
  then show ?thesis by (intro exI [of _ d']) simp
qed

definition deep_disk :: posix where
  "deep_disk = (let a = replicate 254 CHR ''a''; b = replicate 251 CHR ''b'' in
     \<lparr> px_nodes = [([''w''], Dir_Node), ([''w'', ''j''], Dir_Node), ([''w'', ''j'', a], Dir_Node), ([''w'', ''j'', a, b], Dir_Node),
         ([''w'', ''j'', a, b, ''x''], File_Node [])], px_cwd = [] \<rparr>)"

lemma deep_disk_chain: "chain deep_disk (''/w'' @ ''/'' @ ''j'') [replicate 254 CHR ''a'', replicate 251 CHR ''b'']"
  by code_simp

theorem store_cleanup_never_ends_witness: "\<forall>frames. store_cleanup_job frames ''/w'' ''j'' deep_disk = None"
  by (intro allI store_cleanup_never_ends [OF _ deep_disk_chain]) simp

end
