(* ===== verification/Files.thy ===== *)
theory Files
  imports Apps Store
begin

text \<open>
  The answers of \<open>src/http/routes.c\<close>, \<open>src/http/artifacts.c\<close> and \<open>src/transfer/download.c\<close> that come from files (POSIX
  branch): the pages of the web interface, outputs, logs, the lists of files and of artifacts, and the
  headers of \<open>src/http/response.c\<close>. Files are those of the file system of \<open>Store\<close>. A directory can be opened
  as a stream; what \<open>ftell\<close> says of it is an argument, and reading it fails. \<open>mg_http_serve_file\<close> is mongoose's:
  its answer is \<open>Http_File\<close> with the path it is given.
\<close>

section \<open>Model\<close>

subsection \<open>Headers\<close>

definition crlf :: string where
  "crlf = [CHR 0x0D, CHR 0x0A]"

definition fixed_headers :: "string list" where
  "fixed_headers =
     [''X-Content-Type-Options: nosniff'', ''X-Frame-Options: DENY'', ''Referrer-Policy: no-referrer'',
      ''Content-Security-Policy: default-src '' @ sq ''self'' @ ''; script-src '' @ sq ''self'' @ ''; style-src '' @ sq ''self'' @ '' '' @
        sq ''unsafe-inline'' @ ''; img-src '' @ sq ''self'' @ '' data:; connect-src '' @ sq ''self'' @ ''; object-src '' @ sq ''none'' @
        ''; base-uri '' @ sq ''none'' @ ''; form-action '' @ sq ''self'' @ ''; frame-ancestors '' @ sq ''none'']"

definition header_lines :: "string list \<Rightarrow> string" where
  "header_lines ls = concat (map (\<lambda>l. l @ crlf) ls)"

definition http_build_headers :: "config \<Rightarrow> nat \<Rightarrow> string option \<Rightarrow> string" where
  "http_build_headers g out_len content_type =
     (let base = header_lines ((''Content-Type: '' @ (case content_type of None \<Rightarrow> ''application/octet-stream'' | Some t \<Rightarrow> t)) # fixed_headers);
          secure = base @ header_lines [''Strict-Transport-Security: max-age=31536000; includeSubDomains''];
          sofar = (if cf_require_https g \<noteq> 0 then secure else base);
          origin = cf_cors_allowed_origin g in
      if length base \<ge> out_len then buf out_len base
      else if length sofar \<ge> out_len then buf out_len sofar
      else if origin \<noteq> [] \<and> CHR 0x0D \<notin> set origin \<and> CHR 0x0A \<notin> set origin
      then buf out_len (sofar @ header_lines [''Access-Control-Allow-Origin: '' @ origin, ''Vary: Origin''])
      else sofar)"

subsection \<open>The web interface\<close>

definition mime_for_ext :: "string \<Rightarrow> string" where
  "mime_for_ext path =
     (let ext = rev (takeWhile (\<lambda>c. c \<noteq> CHR ''.'') (rev path)) in
      if CHR ''.'' \<notin> set path then ''application/octet-stream''
      else if ext = ''html'' then ''text/html; charset=utf-8''
      else if ext = ''css'' then ''text/css; charset=utf-8''
      else if ext = ''js'' then ''application/javascript; charset=utf-8''
      else if ext = ''json'' then ''application/json; charset=utf-8''
      else if ext = ''png'' then ''image/png''
      else if ext = ''svg'' then ''image/svg+xml''
      else if ext = ''ico'' then ''image/x-icon''
      else ''application/octet-stream'')"

text \<open>What the operating system answers: \<open>readlink\<close> on the running program, memory, complete reads, and the size of an opened directory.\<close>

record file_env =
  fe_exe :: "string option"
  fe_malloc_ok :: bool
  fe_read_ok :: bool
  fe_dir_size :: int

definition forbidden_path :: "string \<Rightarrow> bool" where
  "forbidden_path file_path \<longleftrightarrow>
     strstr ''..'' file_path \<noteq> None \<or> CHR 0x5c \<in> set file_path \<or> take 1 file_path = ''/'' \<or>
     strstr ''%2e'' file_path \<noteq> None \<or> strstr ''%2E'' file_path \<noteq> None \<or> strstr ''%00'' file_path \<noteq> None"

definition web_file :: "file_env \<Rightarrow> string \<Rightarrow> string" where
  "web_file fe file_path = exe_relative_path (fe_exe fe) (buf 511 (''web/'' @ file_path)) 512"

definition serve_web_file :: "file_env \<Rightarrow> posix \<Rightarrow> string \<Rightarrow> reply" where
  "serve_web_file fe d file_path =
     (let too_large = (\<lambda>sz. sz < 0 \<or> sz > 16 * 1024 * 1024) in
      if forbidden_path file_path then Http_Error 403 ''Forbidden''
      else case posix_stat d (web_file fe file_path) of
        Some (File_Node s) \<Rightarrow>
          if too_large (int (length s)) then Http_Error 413 ''Static file too large''
          else if \<not> fe_malloc_ok fe then Http_Error 500 ''Out of memory''
          else if \<not> fe_read_ok fe then Http_Error 500 ''Failed to read static file''
          else Http_Text 200 (mime_for_ext file_path) s
      | Some Dir_Node \<Rightarrow>
          if too_large (fe_dir_size fe) then Http_Error 413 ''Static file too large''
          else if \<not> fe_malloc_ok fe then Http_Error 500 ''Out of memory''
          else if fe_dir_size fe > 0 then Http_Error 500 ''Failed to read static file''
          else Http_Text 200 (mime_for_ext file_path) []
      | _ \<Rightarrow> Http_Error 404 ''Not found'')"

definition serve_web_ui :: "file_env \<Rightarrow> posix \<Rightarrow> reply" where
  "serve_web_ui fe d = serve_web_file fe d ''index.html''"

subsection \<open>The files of a job\<close>

definition download_handle :: "string \<Rightarrow> posix \<Rightarrow> string \<Rightarrow> string \<Rightarrow> reply option" where
  "download_handle work_dir d job_id filename =
     (let path = buf 768 (store_output_dir work_dir job_id 512 @ ''/'' @ filename) in
      if \<not> transfer_valid_filename filename then None
      else if posix_stat d path = None then None
      else Some (Http_File path))"

definition download_output :: "string \<Rightarrow> posix \<Rightarrow> string \<Rightarrow> string option \<Rightarrow> reply" where
  "download_output work_dir d job_id decoded =
     (case Option.bind (decode_filename_segment decoded) (download_handle work_dir d job_id) of
        None \<Rightarrow> Http_Error 404 ''Output file not found''
      | Some r \<Rightarrow> r)"

definition get_job_log :: "string \<Rightarrow> posix \<Rightarrow> string \<Rightarrow> bool \<Rightarrow> reply" where
  "get_job_log work_dir d job_id use_stderr =
     (case posix_stat d (if use_stderr then store_stderr_path work_dir job_id 512 else store_stdout_path work_dir job_id 512) of
        Some (File_Node s) \<Rightarrow> Http_Text 200 ''text/plain; charset=utf-8'' s
      | Some Dir_Node \<Rightarrow> Http_Text 200 ''text/plain; charset=utf-8'' []
      | _ \<Rightarrow> Http_Error 404 (if use_stderr then ''stderr.log not found'' else ''stdout.log not found''))"

text \<open>The regular files of a directory with their sizes.\<close>

definition listed_file :: "posix \<Rightarrow> string \<Rightarrow> string \<Rightarrow> (string \<times> int) option" where
  "listed_file d dir name =
     (if take 1 name = ''.'' then None
      else case posix_stat d (buf 768 (dir @ ''/'' @ name)) of
        Some (File_Node s) \<Rightarrow> Some (name, int (length s))
      | _ \<Rightarrow> None)"

definition listed_files :: "posix \<Rightarrow> string \<Rightarrow> (string \<times> int) list" where
  "listed_files d dir = (case posix_readdir d dir of None \<Rightarrow> [] | Some names \<Rightarrow> List.map_filter (listed_file d dir) names)"

definition file_item :: "string \<times> int \<Rightarrow> json" where
  "file_item f = JObject [(''name'', JString (fst f)), (''size'', jnum (snd f))]"

definition log_members :: "file_env \<Rightarrow> posix \<Rightarrow> string \<Rightarrow> string \<Rightarrow> (string \<times> json) list" where
  "log_members fe d name path =
     (case posix_stat d path of
        Some (File_Node s) \<Rightarrow> [(name @ ''_size'', jnum (int (length s))), (''has_'' @ name, JBool True)]
      | Some Dir_Node \<Rightarrow> [(name @ ''_size'', jnum (fe_dir_size fe)), (''has_'' @ name, JBool True)]
      | _ \<Rightarrow> [(''has_'' @ name, JBool False)])"

definition list_job_files :: "req_env \<Rightarrow> file_env \<Rightarrow> string \<Rightarrow> posix \<Rightarrow> string \<Rightarrow> reply" where
  "list_job_files env fe work_dir d job_id = json_reply env 200 (JObject
     [(''input'', JArray (map file_item (listed_files d (store_input_dir work_dir job_id 512)))),
      (''output'', JArray (map file_item (listed_files d (store_output_dir work_dir job_id 512)))),
      (''logs'', JObject (log_members fe d ''stdout'' (store_stdout_path work_dir job_id 512) @
                          log_members fe d ''stderr'' (store_stderr_path work_dir job_id 512)))])"

subsection \<open>Artifacts\<close>

definition ARTIFACT_API_LIMIT :: int where "ARTIFACT_API_LIMIT = 4096"

definition artifact_to_json :: "artifact_row \<Rightarrow> json" where
  "artifact_to_json a = JObject
     [(''id'', jnum (ar_id a)), (''job_id'', JString (ar_job_id a)), (''type'', JString (ar_type a)), (''uri'', JString (ar_uri a)),
      (''size_bytes'', jnum (ar_size_bytes a)), (''checksum'', if ar_checksum a \<noteq> [] then JString (ar_checksum a) else JNull),
      (''created_at'', jnum (ar_created_at a))]"

definition artifacts_list :: "req_env \<Rightarrow> string \<Rightarrow> http_sys \<Rightarrow> reply \<times> http_sys" where
  "artifacts_list env job_id h =
     (if \<not> re_calloc_ok env then (Http_Error 500 ''Out of memory'', h)
      else case ask (db_list_artifacts job_id ARTIFACT_API_LIMIT) h of
        (None, h1) \<Rightarrow> (Http_Error 500 ''Failed to list artifacts'', h1)
      | (Some items, h1) \<Rightarrow>
          (if \<not> re_print_ok env then Http_Error 500 ''Failed to encode artifacts''
           else Http_Json 200 (JArray (map artifact_to_json items)), h1))"

section \<open>Laws\<close>

subsection \<open>Headers\<close>

definition one_header :: "string \<Rightarrow> bool" where
  "one_header l \<longleftrightarrow> CHR 0x0D \<notin> set l \<and> CHR 0x0A \<notin> set l"

lemma header_lines_append [simp]: "header_lines (ls @ ls') = header_lines ls @ header_lines ls'"
  by (simp add: header_lines_def)

lemma length_header_lines: "length (header_lines ls) = sum_list (map (\<lambda>l. length l + 2) ls)"
  by (simp add: header_lines_def length_concat comp_def crlf_def)

lemma fixed_one_header: "list_all one_header fixed_headers"
  by (simp add: fixed_headers_def one_header_def sq_def)

lemma fixed_length: "length (header_lines fixed_headers) < 600"
  by (simp add: length_header_lines fixed_headers_def sq_def)

text \<open>
  Every answer carries its protective headers, whole. For a type of content of at most 64 characters
  and any configured origin that fits its field, the 1536 bytes of the buffer hold complete lines: the
  type of the content, the fixed headers, the header for transport security when HTTPS is required, and
  the origin only when it cannot start a line of its own.
\<close>

theorem http_headers_complete:
  assumes "length ct \<le> 64" "one_header ct" "length (cf_cors_allowed_origin g) \<le> 255"
  shows "\<exists>ls. http_build_headers g 1536 (Some ct) = header_lines ls \<and> list_all one_header ls \<and>
    prefix ((''Content-Type: '' @ ct) # fixed_headers) ls \<and>
    (cf_require_https g \<noteq> 0 \<longrightarrow> ''Strict-Transport-Security: max-age=31536000; includeSubDomains'' \<in> set ls) \<and>
    (\<forall>l \<in> set ls. take 28 l = ''Access-Control-Allow-Origin:'' \<longrightarrow> l = ''Access-Control-Allow-Origin: '' @ cf_cors_allowed_origin g)"
proof -
  let ?sts = "''Strict-Transport-Security: max-age=31536000; includeSubDomains''"
  let ?origin = "cf_cors_allowed_origin g"
  define ls0 where "ls0 = ((''Content-Type: '' @ ct) # fixed_headers) @ (if cf_require_https g \<noteq> 0 then [?sts] else [])"
  define ls1 where "ls1 = (if ?origin \<noteq> [] \<and> one_header ?origin then [''Access-Control-Allow-Origin: '' @ ?origin, ''Vary: Origin''] else [])"
  define B where "B = header_lines ((''Content-Type: '' @ ct) # fixed_headers)"
  define S where "S = header_lines [?sts]"
  define A where "A = header_lines [''Access-Control-Allow-Origin: '' @ ?origin, ''Vary: Origin'']"
  have len: "length B < 700" "length S < 100" "length A < 400"
    using assms(1,3) fixed_length unfolding B_def S_def A_def by (simp_all add: length_header_lines)
  have "http_build_headers g 1536 (Some ct) = (if cf_require_https g \<noteq> 0 then B @ S else B) @ (if ?origin \<noteq> [] \<and> one_header ?origin then A else [])"
    unfolding http_build_headers_def Let_def option.case B_def [symmetric] S_def [symmetric] A_def [symmetric] one_header_def
    using len by (auto simp: buf_def)
  also have "\<dots> = header_lines (ls0 @ ls1)"
    unfolding ls0_def ls1_def header_lines_append B_def S_def A_def by (simp add: header_lines_def)
  finally have "http_build_headers g 1536 (Some ct) = header_lines (ls0 @ ls1)" .
  moreover have "list_all one_header (ls0 @ ls1)"
    using assms(2) fixed_one_header unfolding ls0_def ls1_def by (auto simp: one_header_def list_all_iff)
  moreover have "prefix ((''Content-Type: '' @ ct) # fixed_headers) (ls0 @ ls1)" unfolding ls0_def by simp
  moreover have "cf_require_https g \<noteq> 0 \<longrightarrow> ?sts \<in> set (ls0 @ ls1)" by (simp add: ls0_def)
  moreover have "\<forall>l \<in> set (ls0 @ ls1). take 28 l = ''Access-Control-Allow-Origin:'' \<longrightarrow> l = ''Access-Control-Allow-Origin: '' @ ?origin"
    unfolding ls0_def ls1_def by (auto simp: fixed_headers_def take_Cons')
  ultimately show ?thesis by blast
qed

subsection \<open>Paths\<close>

lemma split_on_sublist: "w \<in> set (split_on c s) \<Longrightarrow> sublist w s \<and> c \<notin> set w \<and> (w = hd (split_on c s) \<longrightarrow> prefix w s)"
proof (induction s arbitrary: w)
  case (Cons x s)
  obtain v vs where v: "split_on c s = v # vs" by (cases "split_on c s") auto
  show ?case
  proof (cases "x = c")
    case True
    then show ?thesis using Cons by (auto simp: sublist_Cons_right)
  next
    case False
    then have "w = x # v \<or> w \<in> set vs" using Cons.prems v by auto
    then show ?thesis using Cons.IH [of v] Cons.IH [of w] v False by (auto simp: sublist_Cons_right)
  qed
qed simp

lemma strstr_sublist: "sublist pat s \<Longrightarrow> strstr pat s \<noteq> None"
proof (induction s)
  case Nil
  then show ?case by (simp add: strstr.simps)
next
  case (Cons c s)
  then show ?case by (subst strstr.simps) (auto simp: sublist_Cons_right prefix_def)
qed

lemma resolve_below:
  "''..'' \<notin> set cs \<Longrightarrow> \<forall>q t. prefix cur q \<longrightarrow> node_at d q \<noteq> Some (Link_Node t) \<Longrightarrow> resolve d f n cur cs = Some q \<Longrightarrow> prefix cur q"
proof (induction cs arbitrary: cur)
  case (Cons c cs)
  have down: "prefix cur q" if "prefix (cur @ [c]) q" using that by (meson append_prefixD)
  have sub: "\<forall>q t. prefix (cur @ [c]) q \<longrightarrow> node_at d q \<noteq> Some (Link_Node t)" using Cons.prems(2) by (meson append_prefixD)
  have no: "node_at d (cur @ [c]) \<noteq> Some (Link_Node t)" for t using Cons.prems(2) by simp
  show ?case
  proof (cases "c = [] \<or> c = ''.''")
    case True
    then show ?thesis using Cons by auto
  next
    case False
    then show ?thesis using Cons.prems Cons.IH [of "cur @ [c]"] sub no down
      by (auto split: option.splits node.splits if_splits)
  qed
qed simp

definition exe_dir :: "string \<Rightarrow> string" where
  "exe_dir exe = rev (dropWhile (\<lambda>x. x \<noteq> CHR ''/'') (rev exe))"

lemma web_path:
  assumes "fe_exe fe = Some exe" "exe_dir exe \<noteq> []" "length (exe_dir exe) \<le> 500"
  shows "\<exists>f. prefix f file_path \<and> web_file fe file_path = (exe_dir exe @ ''web'') @ CHR ''/'' # f"
proof -
  obtain c cs where exe: "exe = c # cs" using assms(2) by (cases exe) (auto simp: exe_dir_def)
  have "buf 511 (''web/'' @ file_path) = ''web/'' @ take 506 file_path" by (simp add: buf_def)
  then have "web_file fe file_path = buf 511 (exe_dir exe @ ''web/'' @ take 506 file_path)"
    using assms(2) unfolding web_file_def exe_relative_path_def assms(1) exe exe_dir_def option.case list.case Let_def by simp
  also have "\<dots> = exe_dir exe @ ''web/'' @ take (506 - length (exe_dir exe)) (take 506 file_path)"
    using assms(3) by (simp add: buf_def take_Cons' numeral_eq_Suc)
  finally show ?thesis by (intro exI [of _ "take (506 - length (exe_dir exe)) (take 506 file_path)"]) (simp add: take_is_prefix)
qed

text \<open>
  C17: the web interface shows nothing but its own directory. When the directory \<open>web\<close> beside the program is
  reached without links and holds none, whatever path a client asks for, the file or directory that is opened lies in
  it, and an answer with contents has those of that file.
\<close>

theorem web_confined:
  assumes "serve_web_file fe d file_path = Http_Text code mime body"
    and "fe_exe fe = Some exe" "exe_dir exe \<noteq> []" "length (exe_dir exe) \<le> 500"
    and "leads_to d (exe_dir exe @ ''web'') p" "\<And>q t. prefix p q \<Longrightarrow> node_at d q \<noteq> Some (Link_Node t)"
  shows "\<exists>q. prefix p q \<and> locate d True (web_file fe file_path) = Some q \<and> code = 200 \<and>
    (node_at d q = Some (File_Node body) \<or> node_at d q = Some Dir_Node \<and> body = [])"
proof -
  have ok: "\<not> forbidden_path file_path" using assms(1) by (auto simp: serve_web_file_def)
  obtain f where f: "prefix f file_path" "web_file fe file_path = (exe_dir exe @ ''web'') @ CHR ''/'' # f"
    using web_path [OF assms(2,3,4)] by blast
  have "''..'' \<notin> set (split_on CHR ''/'' f)"
  proof
    assume "''..'' \<in> set (split_on CHR ''/'' f)"
    then have "sublist ''..'' file_path" using split_on_sublist f(1) by (meson prefix_imp_sublist sublist_order.order.trans)
    then show False using strstr_sublist ok by (auto simp: forbidden_path_def)
  qed
  moreover obtain st where st: "posix_stat d (web_file fe file_path) = Some st" "st = File_Node body \<or> st = Dir_Node \<and> body = []" "code = 200"
    using assms(1) ok by (auto simp: serve_web_file_def Let_def split: option.splits node.splits if_splits)
  then obtain q where q: "locate d True (web_file fe file_path) = Some q" "node_at d q = Some st"
    by (auto simp: posix_stat_def bind_eq_Some_conv)
  moreover have "locate d True (web_file fe file_path) = resolve d True 40 p (split_on CHR ''/'' f)"
    using assms(5) resolve_dirs [of "split_on CHR ''/'' (exe_dir exe @ ''web'')" "if hd (exe_dir exe @ ''web'') = CHR ''/'' then [] else px_cwd d" d True 40 "split_on CHR ''/'' f"]
    unfolding f(2) locate_def leads_to_def by (simp add: split_on_append del: append_assoc resolve.simps)
  ultimately have "prefix p q" using resolve_below [of "split_on CHR ''/'' f" p d True 40 q] assms(6) by auto
  then show ?thesis using q st by auto
qed

subsection \<open>The files of a job\<close>

lemma valid_plain: "transfer_valid_filename n \<Longrightarrow> plain_name n \<and> take 1 n \<noteq> ''.'' \<and> length n \<le> 255 \<and> char_of (0 :: nat) \<notin> set n"
proof -
  assume "transfer_valid_filename n"
  note t = transfer_valid_filename_component [OF this]
  have "take 1 n \<noteq> ''.''" using t by (cases n) simp_all
  moreover have "char_of (0 :: nat) \<notin> set n"
  proof
    assume "char_of (0 :: nat) \<in> set n"
    then have "32 \<le> (of_char (char_of (0 :: nat)) :: nat)" using t by blast
    then show False by simp
  qed
  moreover have "plain_name n" using t unfolding plain_name_def by blast
  ultimately show ?thesis using t by blast
qed

lemma short_path:
  assumes "length dir \<le> 511" "transfer_valid_filename n"
  shows "buf 768 (dir @ ''/'' @ n) = dir @ CHR ''/'' # n"
proof -
  have "length (dir @ ''/'' @ n) \<le> 768 - 1" using assms(1) valid_plain [OF assms(2)] by simp
  then show ?thesis by (subst buf_id) simp_all
qed

lemma length_output_dir: "length (store_output_dir work_dir job_id 512) \<le> 511" "length (store_input_dir work_dir job_id 512) \<le> 511"
  by (simp_all add: store_output_dir_def store_input_dir_def buf_def)

lemma listed_files_iff:
  "f \<in> set (listed_files d dir) \<longleftrightarrow> (\<exists>names. posix_readdir d dir = Some names \<and> (\<exists>name \<in> set names. listed_file d dir name = Some f))"
  by (cases "posix_readdir d dir") (force simp: listed_files_def List.map_filter_def)+

lemma listed_file_SomeD:
  "listed_file d dir name = Some (n, sz) \<Longrightarrow> name = n \<and> (\<exists>s. posix_stat d (buf 768 (dir @ ''/'' @ n)) = Some (File_Node s) \<and> sz = int (length s))"
  unfolding listed_file_def by (auto split: if_splits option.splits node.splits)


text \<open>
  An upload is listed. A file written under an acceptable name into the input directory of a job, where no
  directory or link has that name, is shown by the list of files with the size of the data, and its contents are the data.
\<close>

theorem upload_listed:
  assumes "leads_to d (store_input_dir work_dir job_id 512) p" "transfer_valid_filename n"
    and "node_at d (p @ [n]) = None \<or> (\<exists>s. node_at d (p @ [n]) = Some (File_Node s))"
  shows "\<exists>d'. posix_write (buf 768 (store_input_dir work_dir job_id 512 @ ''/'' @ n)) s d = Some d' \<and>
    (n, int (length s)) \<in> set (listed_files d' (store_input_dir work_dir job_id 512)) \<and>
    posix_read d' (store_input_dir work_dir job_id 512 @ ''/'' @ n) = Some s"
proof -
  let ?dir = "store_input_dir work_dir job_id 512"
  define d' where "d' = put_node (p @ [n]) (File_Node s) d"
  note v = valid_plain [OF assms(2)]
  have path: "buf 768 (?dir @ ''/'' @ n) = ?dir @ CHR ''/'' # n" using short_path length_output_dir(2) assms(2) by blast
  have "locate d True (?dir @ CHR ''/'' # n) = Some (p @ [n])" using v assms(3) by (intro leads_locate_child [OF assms(1)]) auto
  then have w: "posix_write (buf 768 (?dir @ ''/'' @ n)) s d = Some d'" using assms(3) unfolding path posix_write_def d'_def by auto
  have node: "node_at d' q = (if q = p @ [n] then Some (File_Node s) else node_at d q)" for q by (simp add: d'_def node_at_put)
  have lead: "leads_to d' ?dir p"
    using assms(1,3) unfolding leads_to_def node by (auto simp: d'_def put_node_def)
  have "locate d' True (?dir @ CHR ''/'' # n) = Some (p @ [n])" using v by (intro leads_locate_child [OF lead]) (auto simp: node)
  then have st: "posix_stat d' (?dir @ CHR ''/'' # n) = Some (File_Node s)" by (simp add: posix_stat_def node)
  have "n \<in> set (entries d' p)" using node_key [of d' "p @ [n]"] by (simp add: in_entries node)
  then have "(n, int (length s)) \<in> set (listed_files d' ?dir)"
    using leads_locate [OF lead, of True] st path v lead
    by (auto simp: listed_files_iff posix_readdir_def listed_file_def leads_to_def)
  then show ?thesis using w st by (auto simp: posix_read_def)
qed

text \<open>
  A download follows links. A link that a job left in its output directory makes the server read the file it
  points to, here one of another job.
\<close>

definition link_out :: posix where
  "link_out = \<lparr> px_nodes = [([''w''], Dir_Node), ([''w'', ''j''], Dir_Node), ([''w'', ''j'', ''output''], Dir_Node),
     ([''w'', ''j'', ''output'', ''x''], Link_Node ''/w/k/output/secret''), ([''w'', ''k''], Dir_Node), ([''w'', ''k'', ''output''], Dir_Node),
     ([''w'', ''k'', ''output'', ''secret''], File_Node ''2'')], px_cwd = [] \<rparr>"

theorem download_follows_links:
  "download_output ''/w'' link_out ''j'' (Some ''x'') = Http_File ''/w/j/output/x'' \<and> posix_read link_out ''/w/j/output/x'' = Some ''2''"
proof
  show "posix_read link_out ''/w/j/output/x'' = Some ''2''" by code_simp
  have "transfer_valid_filename ''x''" by (simp add: transfer_valid_filename_def is_alnum_def less_eq_char_def)
  moreover have "posix_stat link_out ''/w/j/output/x'' = Some (File_Node ''2'')" by code_simp
  ultimately show "download_output ''/w'' link_out ''j'' (Some ''x'') = Http_File ''/w/j/output/x''"
    using valid_plain [of "''x''"] by (simp add: download_output_def decode_filename_segment_def download_handle_def store_output_dir_def buf_def)
qed

subsection \<open>Witnesses\<close>

theorem http_headers_complete_witness:
  "\<exists>ls. http_build_headers config_defaults 1536 (Some ''text/html'') = header_lines ls \<and> list_all one_header ls"
proof -
  have "length ''text/html'' \<le> 64" "one_header ''text/html''" "length (cf_cors_allowed_origin config_defaults) \<le> 255"
    by (simp_all add: one_header_def config_defaults_def)
  from http_headers_complete [OF this] show ?thesis by blast
qed

definition demo_site :: posix where
  "demo_site = \<lparr> px_nodes = [([''s''], Dir_Node), ([''s'', ''web''], Dir_Node), ([''s'', ''web'', ''a.css''], File_Node ''b{}'')], px_cwd = [] \<rparr>"

definition demo_file_env :: file_env where
  "demo_file_env = \<lparr> fe_exe = Some ''/s/bhc'', fe_malloc_ok = True, fe_read_ok = True, fe_dir_size = 4096 \<rparr>"

theorem web_confined_witness:
  "serve_web_file demo_file_env demo_site ''a.css'' = Http_Text 200 ''text/css; charset=utf-8'' ''b{}'' \<and>
   (\<exists>q. prefix [''s'', ''web''] q \<and> locate demo_site True (web_file demo_file_env ''a.css'') = Some q)"
proof -
  have dir: "exe_dir ''/s/bhc'' = ''/s/''" by code_simp
  have s: "serve_web_file demo_file_env demo_site ''a.css'' = Http_Text 200 ''text/css; charset=utf-8'' ''b{}''" by code_simp
  have "leads_to demo_site (exe_dir ''/s/bhc'' @ ''web'') [''s'', ''web'']"
    unfolding dir by (auto simp: leads_to_def demo_site_def steps_def node_at_def prefix_Cons)
  moreover have "node_at demo_site q \<noteq> Some (Link_Node t)" for q t
    by (auto simp: node_at_def demo_site_def split: if_splits)
  ultimately show ?thesis
    using web_confined [OF s, of "''/s/bhc''" "[''s'', ''web'']"] s dir by (auto simp: demo_file_env_def)
qed

lemma demo_output_leads: "leads_to demo_disk (store_output_dir ''/w'' ''j'' 512) [''w'', ''j'', ''output'']"
  by (auto simp: leads_to_def store_output_dir_def demo_disk_def steps_def node_at_def prefix_Cons)


definition demo_inputs :: posix where
  "demo_inputs = \<lparr> px_nodes = [([''w''], Dir_Node), ([''w'', ''j''], Dir_Node), ([''w'', ''j'', ''input''], Dir_Node)], px_cwd = [] \<rparr>"

theorem upload_listed_witness:
  "\<exists>d'. posix_write (buf 768 (store_input_dir ''/w'' ''j'' 512 @ ''/'' @ ''a'')) ''xy'' demo_inputs = Some d' \<and>
     (''a'', 2) \<in> set (listed_files d' (store_input_dir ''/w'' ''j'' 512))"
proof -
  have "leads_to demo_inputs (store_input_dir ''/w'' ''j'' 512) [''w'', ''j'', ''input'']"
    by (auto simp: leads_to_def store_input_dir_def demo_inputs_def steps_def node_at_def prefix_Cons)
  moreover have "transfer_valid_filename ''a''" by (simp add: transfer_valid_filename_def is_alnum_def less_eq_char_def)
  moreover have "node_at demo_inputs ([''w'', ''j'', ''input''] @ [''a'']) = None" by (simp add: demo_inputs_def node_at_def)
  ultimately show ?thesis using upload_listed [of demo_inputs "''/w''" "''j''" "[''w'', ''j'', ''input'']" "''a''" "''xy''"] by auto
qed

end
