(* ===== verification/Server.thy ===== *)
theory Server
  imports Events Config
begin

text \<open>
  \<open>src/http/httpd.c\<close> (the POSIX branch): the thread of the HTTP server and the event streams of the
  clients. Mongoose is an argument: whether the address can be bound, and for every round of the
  loop what the poll did to this program (the streams it opened, the events that were pushed
  meanwhile), the connections that are closing, and the clock. A connection is its address.
\<close>

section \<open>Model\<close>

definition SSE_MAX_CONNS :: nat where "SSE_MAX_CONNS = 32"

record sse_client =
  sc_conn :: nat
  sc_user_id :: string
  sc_role :: string

definition httpd_sse_add_user :: "nat \<Rightarrow> string option \<Rightarrow> string option \<Rightarrow> sse_client list \<Rightarrow> sse_client list" where
  "httpd_sse_add_user c user_id role s_sse =
     (if length s_sse < SSE_MAX_CONNS
      then s_sse @ [\<lparr> sc_conn = c, sc_user_id = buf 128 (case user_id of None \<Rightarrow> [] | Some u \<Rightarrow> u),
                      sc_role = buf 16 (case role of None \<Rightarrow> ''user'' | Some r \<Rightarrow> r) \<rparr>]
      else s_sse)"

definition httpd_sse_add :: "nat \<Rightarrow> sse_client list \<Rightarrow> sse_client list" where
  "httpd_sse_add c = httpd_sse_add_user c (Some []) (Some ''admin'')"

text \<open>
  The loop both senders share: an entry whose connection is closing is overwritten by the last one and
  looked at again, any other gets its text, if there is one, and the loop goes on.
\<close>

function sse_loop :: "(nat \<Rightarrow> bool) \<Rightarrow> (sse_client \<Rightarrow> string option) \<Rightarrow> nat \<Rightarrow> sse_client list \<Rightarrow> sse_client list \<times> (nat \<times> string) list" where
  "sse_loop closing msg i s_sse =
     (if i < length s_sse then
        if closing (sc_conn (s_sse ! i)) then sse_loop closing msg i (butlast (s_sse[i := last s_sse]))
        else let (s', sent) = sse_loop closing msg (Suc i) s_sse in
             (s', (case msg (s_sse ! i) of None \<Rightarrow> sent | Some t \<Rightarrow> (sc_conn (s_sse ! i), t) # sent))
      else (s_sse, []))"
  by pat_completeness auto
termination
  by (relation "measure (\<lambda>(closing, msg, i, s). length s - i)") auto

declare sse_loop.simps [simp del]

definition concerns :: "event_message \<Rightarrow> sse_client \<Rightarrow> bool" where
  "concerns event cl \<longleftrightarrow> sc_role cl = ''admin'' \<or> (em_user_id event \<noteq> [] \<and> em_user_id event = sc_user_id cl)"

definition event_text :: "event_message \<Rightarrow> string" where
  "event_text event = ''data: '' @ em_json event @ [CHR 0x0A, CHR 0x0A]"

definition sse_broadcast :: "(nat \<Rightarrow> bool) \<Rightarrow> event_message \<Rightarrow> sse_client list \<Rightarrow> sse_client list \<times> (nat \<times> string) list" where
  "sse_broadcast closing event = sse_loop closing (\<lambda>cl. if concerns event cl then Some (event_text event) else None) 0"

definition keepalive :: string where
  "keepalive = '': keepalive'' @ [CHR 0x0A, CHR 0x0A]"

definition sse_heartbeat :: "(nat \<Rightarrow> bool) \<Rightarrow> sse_client list \<Rightarrow> sse_client list \<times> (nat \<times> string) list" where
  "sse_heartbeat closing = sse_loop closing (\<lambda>_. Some keepalive) 0"

subsection \<open>The thread\<close>

record poll =
  po_joined :: "(nat \<times> string \<times> string) list"
  po_pushed :: "(string \<times> string option) list"
  po_closing :: "nat \<Rightarrow> bool"
  po_millis :: "64 word"
  po_millis_after :: "64 word"

record server =
  sv_sse :: "sse_client list"
  sv_ring :: ring
  sv_hb_ts :: "64 word"
  sv_sent :: "(nat \<times> string) list"

text \<open>\<open>mg_mgr_poll\<close>: handlers subscribe, and events are pushed.\<close>

definition apply_poll :: "poll \<Rightarrow> server \<Rightarrow> server" where
  "apply_poll p s = s\<lparr>sv_sse := fold (\<lambda>(c, u, r). httpd_sse_add_user c (Some u) (Some r)) (po_joined p) (sv_sse s),
     sv_ring := fold (\<lambda>(json, u). events_push_user json u) (po_pushed p) (sv_ring s)\<rparr>"

fun broadcast_all :: "(nat \<Rightarrow> bool) \<Rightarrow> event_message list \<Rightarrow> sse_client list \<Rightarrow> sse_client list \<times> (nat \<times> string) list" where
  "broadcast_all closing [] s_sse = (s_sse, [])"
| "broadcast_all closing (e # es) s_sse =
     (let (s1, sent1) = sse_broadcast closing e s_sse; (s2, sent2) = broadcast_all closing es s1 in (s2, sent1 @ sent2))"

text \<open>One round of the loop; the difference of the clocks is one of 64 bits.\<close>

definition http_round :: "poll \<Rightarrow> server \<Rightarrow> server" where
  "http_round p s =
     (let s1 = apply_poll p s;
          (evts, r) = events_drain (int EVENTS_BUF_SIZE) (sv_ring s1);
          (cls, sent) = broadcast_all (po_closing p) evts (sv_sse s1);
          s2 = s1\<lparr>sv_ring := r, sv_sse := cls, sv_sent := sv_sent s1 @ sent\<rparr> in
      if po_millis p - sv_hb_ts s2 > 15000 then
        let (cls', beats) = sse_heartbeat (po_closing p) (sv_sse s2) in
        s2\<lparr>sv_sse := cls', sv_sent := sv_sent s2 @ beats, sv_hb_ts := po_millis_after p\<rparr>
      else s2)"

definition listen_url :: "config \<Rightarrow> string" where
  "listen_url g = buf 128 (''http://'' @ (if cf_listen_address g \<noteq> [] then cf_listen_address g else ''0.0.0.0'') @ '':'' @ dec (cf_listen_port g))"

text \<open>
  The thread over the rounds that come before the flag is read as cleared: whether the address was
  bound, and the state in which it ends. The number of rounds is that of the list, so the
  loop itself is not bounded by the model.
\<close>

definition http_thread :: "(string \<Rightarrow> bool) \<Rightarrow> config \<Rightarrow> 64 word \<Rightarrow> poll list \<Rightarrow> server \<Rightarrow> bool \<times> server" where
  "http_thread bind_ok g start polls s =
     (if \<not> bind_ok (listen_url g) then (False, s)
      else (True, (fold http_round polls (s\<lparr>sv_hb_ts := start\<rparr>))\<lparr>sv_sse := []\<rparr>))"

record httpd =
  hd_running :: bool
  hd_thread_started :: bool

definition httpd_start :: "bool \<Rightarrow> httpd \<Rightarrow> int \<times> httpd" where
  "httpd_start create_ok s =
     (if hd_thread_started s then (0, s)
      else if \<not> create_ok then (-1, s\<lparr>hd_running := False\<rparr>)
      else (0, s\<lparr>hd_running := True, hd_thread_started := True\<rparr>))"

text \<open>The thread clears the flag when it cannot bind the address.\<close>

definition bind_failed :: "httpd \<Rightarrow> httpd" where
  "bind_failed s = s\<lparr>hd_running := False\<rparr>"

definition httpd_stop :: "httpd \<Rightarrow> httpd" where
  "httpd_stop s = s\<lparr>hd_running := False, hd_thread_started := False\<rparr>"

section \<open>Laws\<close>

text \<open>What a list of clients is sent, one after the other.\<close>

definition texts :: "(sse_client \<Rightarrow> string option) \<Rightarrow> sse_client list \<Rightarrow> (nat \<times> string) list" where
  "texts msg = List.map_filter (\<lambda>cl. map_option (Pair (sc_conn cl)) (msg cl))"

definition sent_to :: "nat \<Rightarrow> (nat \<times> string) list \<Rightarrow> string list" where
  "sent_to c sent = map snd (filter (\<lambda>m. fst m = c) sent)"

definition streams :: "(nat \<Rightarrow> bool) \<Rightarrow> sse_client list \<Rightarrow> sse_client list" where
  "streams closing = filter (\<lambda>cl. \<not> closing (sc_conn cl))"

lemma texts_simps [simp]:
  "texts msg [] = []"
  "texts msg (cl # cls) = (case msg cl of None \<Rightarrow> texts msg cls | Some t \<Rightarrow> (sc_conn cl, t) # texts msg cls)"
  by (auto simp: texts_def List.map_filter_def split: option.splits)

lemma sent_to_simps [simp]:
  "sent_to c [] = []" "sent_to c (xs @ ys) = sent_to c xs @ sent_to c ys"
  "sent_to c (m # ms) = (if fst m = c then snd m # sent_to c ms else sent_to c ms)"
  by (simp_all add: sent_to_def)

lemma sent_to_none: "c \<notin> sc_conn ` set cls \<Longrightarrow> sent_to c (texts msg cls) = []"
  by (induction cls) (auto split: option.splits)

lemma sent_to_texts:
  "distinct (map sc_conn cls) \<Longrightarrow> cl \<in> set cls \<Longrightarrow> sent_to (sc_conn cl) (texts msg cls) = (case msg cl of None \<Rightarrow> [] | Some t \<Rightarrow> [t])"
proof (induction cls)
  case (Cons a cls)
  show ?case
  proof (cases "a = cl")
    case True
    then show ?thesis using Cons.prems(1) sent_to_none [of "sc_conn cl" cls msg] by (auto split: option.splits)
  next
    case False
    then have "cl \<in> set cls" "sc_conn a \<noteq> sc_conn cl" using Cons.prems by auto
    then show ?thesis using Cons by (auto split: option.splits)
  qed
qed simp

text \<open>Taking the last entry into the place of a removed one keeps the others.\<close>

lemma replace_by_last:
  assumes "i < length s"
  shows "take i (butlast (s[i := last s])) = take i s" "mset (drop i (butlast (s[i := last s]))) = mset (drop (Suc i) s)"
proof -
  obtain xs x ys where s: "s = xs @ x # ys" "length xs = i"
    using assms by (metis id_take_nth_drop length_take min.absorb4)
  show "take i (butlast (s[i := last s])) = take i s" "mset (drop i (butlast (s[i := last s]))) = mset (drop (Suc i) s)"
    unfolding s by (cases ys rule: rev_cases; simp add: s(2) list_update_append butlast_append)+
qed

lemma sse_loop_spec:
  assumes "sse_loop closing msg i s = (s', sent)" "i \<le> length s"
  shows "\<exists>t. s' = take i s @ t \<and> mset t = mset (streams closing (drop i s)) \<and> sent = texts msg t"
  using assms
proof (induction closing msg i s arbitrary: s' sent rule: sse_loop.induct)
  case (1 closing msg i s)
  consider "i \<ge> length s" | "i < length s" "closing (sc_conn (s ! i))" | "i < length s" "\<not> closing (sc_conn (s ! i))" by linarith
  then show ?case
  proof cases
    case 1
    then show ?thesis using "1.prems" by (subst (asm) sse_loop.simps) (auto simp: streams_def)
  next
    case 2
    have e: "sse_loop closing msg i (butlast (s[i := last s])) = (s', sent)"
      using "1.prems"(1) 2 by (subst (asm) sse_loop.simps) simp
    have "mset (streams closing (drop i (butlast (s[i := last s])))) = mset (streams closing (drop i s))"
      using 2 replace_by_last(2) [OF 2(1)] unfolding streams_def mset_filter by (simp add: Cons_nth_drop_Suc [symmetric])
    then show ?thesis using "1.IH"(1) [OF 2 e] 2(1) replace_by_last(1) [OF 2(1)] by auto
  next
    case 3
    obtain sent1 where e: "sse_loop closing msg (Suc i) s = (s', sent1)"
        "sent = (case msg (s ! i) of None \<Rightarrow> sent1 | Some t \<Rightarrow> (sc_conn (s ! i), t) # sent1)"
      using "1.prems"(1) 3 by (subst (asm) sse_loop.simps) (auto split: prod.splits)
    obtain t where t: "s' = take (Suc i) s @ t" "mset t = mset (streams closing (drop (Suc i) s))" "sent1 = texts msg t"
      using "1.IH"(2) [OF 3 e(1)] 3(1) by auto
    then have "s' = take i s @ (s ! i # t)" "mset (s ! i # t) = mset (streams closing (drop i s))" "sent = texts msg (s ! i # t)"
      using 3 e(2) by (auto simp: take_Suc_conv_app_nth streams_def Cons_nth_drop_Suc [symmetric])
    then show ?thesis by blast
  qed
qed

text \<open>So a sender keeps exactly the streams that are not closing, and sends each of them its text.\<close>

lemma sse_sender:
  assumes "sse_loop closing msg 0 s = (s', sent)"
  shows "mset s' = mset (streams closing s)" "sent = texts msg s'"
  using sse_loop_spec [OF assms] by auto

lemma streams_mset:
  assumes "mset s' = mset (streams closing s)"
  shows "streams closing s' = s'" "set s' = set (streams closing s)" "mset (streams closing s') = mset (streams closing s)"
    "distinct (map sc_conn s) \<Longrightarrow> distinct (map sc_conn s')"
proof -
  show s: "set s' = set (streams closing s)" using assms by (metis set_mset_mset)
  show e: "streams closing s' = s'" using s by (auto simp: streams_def intro: filter_True)
  show "mset (streams closing s') = mset (streams closing s)" using e assms by simp
  assume "distinct (map sc_conn s)"
  then have "distinct (map sc_conn (streams closing s))" by (simp add: streams_def distinct_map_filter)
  then show "distinct (map sc_conn s')" using assms by (metis mset_eq_imp_distinct_iff mset_map)
qed

definition event_msg :: "event_message \<Rightarrow> sse_client \<Rightarrow> string option" where
  "event_msg e cl = (if concerns e cl then Some (event_text e) else None)"

text \<open>What reaches a client: nothing if its connection is closing, otherwise exactly what it is sent, once.\<close>

lemma sender_delivers:
  assumes "sse_loop closing msg 0 s = (s', sent)" "distinct (map sc_conn s)" "cl \<in> set s"
  shows "sent_to (sc_conn cl) sent = (if closing (sc_conn cl) then [] else case msg cl of None \<Rightarrow> [] | Some t \<Rightarrow> [t])"
proof -
  note m = sse_sender [OF assms(1)] streams_mset [OF sse_sender(1) [OF assms(1)]]
  show ?thesis
  proof (cases "closing (sc_conn cl)")
    case True
    then have "sc_conn cl \<notin> sc_conn ` set s'" unfolding m(4) streams_def by auto
    then show ?thesis using True sent_to_none m(2) by simp
  next
    case False
    then have "cl \<in> set s'" using assms(3) unfolding m(4) by (simp add: streams_def)
    from sent_to_texts [OF m(6) [OF assms(2)] this] show ?thesis using False unfolding m(2) by simp
  qed
qed

lemma broadcast_elsewhere:
  "broadcast_all closing es s = (s', sent) \<Longrightarrow> c \<notin> sc_conn ` set s \<Longrightarrow> sent_to c sent = []"
proof (induction es arbitrary: s s' sent)
  case (Cons e es)
  obtain s1 sent1 sent2 where b: "sse_broadcast closing e s = (s1, sent1)" "broadcast_all closing es s1 = (s', sent2)" "sent = sent1 @ sent2"
    using Cons.prems(1) by (auto split: prod.splits)
  note m = sse_sender [OF b(1) [unfolded sse_broadcast_def]]
  have "c \<notin> sc_conn ` set s1" using Cons.prems(2) streams_mset(2) [OF m(1)] by (auto simp: streams_def)
  then show ?case using Cons.IH [OF b(2)] b(3) m(2) sent_to_none by simp
qed simp

lemma broadcast_delivers:
  assumes "broadcast_all closing es s = (s', sent)" "distinct (map sc_conn s)"
  shows "distinct (map sc_conn s') \<and> mset (streams closing s') = mset (streams closing s) \<and> set s' \<subseteq> set s \<and>
    (\<forall>cl \<in> set s. sent_to (sc_conn cl) sent = (if closing (sc_conn cl) then [] else map event_text (filter (\<lambda>e. concerns e cl) es)))"
  using assms
proof (induction es arbitrary: s s' sent)
  case (Cons e es)
  obtain s1 sent1 sent2 where b: "sse_broadcast closing e s = (s1, sent1)" "broadcast_all closing es s1 = (s', sent2)" "sent = sent1 @ sent2"
    using Cons.prems(1) by (auto split: prod.splits)
  have l: "sse_loop closing (event_msg e) 0 s = (s1, sent1)"
    using b(1) unfolding sse_broadcast_def event_msg_def .
  note m = streams_mset [OF sse_sender(1) [OF l]]
  note d = Cons.IH [OF b(2) m(4) [OF Cons.prems(2)]]
  have "sent_to (sc_conn cl) sent = (if closing (sc_conn cl) then [] else map event_text (filter (\<lambda>e. concerns e cl) (e # es)))"
    if cl: "cl \<in> set s" for cl
  proof (cases "closing (sc_conn cl)")
    case True
    have "sc_conn cl \<notin> sc_conn ` set s1" using True unfolding m(2) streams_def by auto
    then have "sent_to (sc_conn cl) sent2 = []" by (rule broadcast_elsewhere [OF b(2)])
    then show ?thesis using True sender_delivers [OF l Cons.prems(2) cl] b(3) by simp
  next
    case False
    then have "cl \<in> set s1" using cl unfolding m(2) by (simp add: streams_def)
    then have "sent_to (sc_conn cl) sent2 = map event_text (filter (\<lambda>e. concerns e cl) es)" using d False by simp
    then show ?thesis using False sender_delivers [OF l Cons.prems(2) cl] b(3) by (simp add: event_msg_def)
  qed
  moreover have "set s' \<subseteq> set s" using d m(2) by (auto simp: streams_def)
  ultimately show ?case using d m(3) by simp
qed simp

lemma pushes_ok: "ring_ok r \<Longrightarrow> ring_ok (fold (\<lambda>(json, u). events_push_user json u) es r)"
  by (induction es arbitrary: r) (auto simp: push_ok)


text \<open>
  The table of streams is bounded, and a client that comes when it is full is answered but never told
  anything: the list keeps at most 32 entries through every round, and a subscription beyond them changes nothing.
\<close>

theorem sse_table_full:
  assumes "length (sv_sse s) \<le> SSE_MAX_CONNS"
  shows "length (sv_sse (http_round p s)) \<le> SSE_MAX_CONNS \<and>
    (length (sv_sse s) = SSE_MAX_CONNS \<longrightarrow> httpd_sse_add_user c (Some user) (Some role) (sv_sse s) = sv_sse s)"
proof -
  have add: "length (httpd_sse_add_user c u r l) \<le> SSE_MAX_CONNS" if "length l \<le> SSE_MAX_CONNS" for c u r l
    using that by (simp add: httpd_sse_add_user_def)
  have adds: "length (fold (\<lambda>(c, u, r). httpd_sse_add_user c (Some u) (Some r)) js l) \<le> SSE_MAX_CONNS" if "length l \<le> SSE_MAX_CONNS" for js l
    using that by (induction js arbitrary: l) (auto intro: add)
  have loop: "length (fst (sse_loop closing msg 0 l)) \<le> length l" for closing msg l
  proof -
    obtain l' sent where e: "sse_loop closing msg 0 l = (l', sent)" by force
    have "length l' = length (streams closing l)" using sse_sender(1) [OF e] by (metis size_mset)
    then show ?thesis using e by (simp add: streams_def)
  qed
  have all: "length (fst (broadcast_all closing es l)) \<le> length l" for closing es l
  proof (induction es arbitrary: l)
    case (Cons e es)
    have "fst (broadcast_all closing (e # es) l) = fst (broadcast_all closing es (fst (sse_broadcast closing e l)))"
      by (simp add: case_prod_beta Let_def)
    moreover have "length (fst (sse_broadcast closing e l)) \<le> length l" unfolding sse_broadcast_def by (rule loop)
    ultimately show ?case using Cons [of "fst (sse_broadcast closing e l)"] by simp
  qed simp
  have "length (sv_sse (http_round p s)) \<le> length (sv_sse (apply_poll p s))"
    using all [of "po_closing p" _ "sv_sse (apply_poll p s)"] loop [of "po_closing p" "\<lambda>_. Some keepalive"]
    by (auto simp: http_round_def Let_def case_prod_beta sse_heartbeat_def intro: le_trans)
  also have "\<dots> \<le> SSE_MAX_CONNS" using adds [OF assms] by (simp add: apply_poll_def)
  finally show ?thesis by (simp add: httpd_sse_add_user_def)
qed

text \<open>
  A server that cannot bind its address is reported as started. \<open>httpd_start\<close> answers 0, the thread then ends,
  and another call of \<open>httpd_start\<close> answers 0 again without starting one.
\<close>

theorem httpd_bind_failure_hidden:
  "fst (httpd_start True \<lparr> hd_running = False, hd_thread_started = False \<rparr>) = 0 \<and>
   http_thread (\<lambda>_. False) g start polls s = (False, s) \<and>
   httpd_start create_ok (bind_failed (snd (httpd_start True \<lparr> hd_running = False, hd_thread_started = False \<rparr>))) =
     (0, \<lparr> hd_running = False, hd_thread_started = True \<rparr>)"
  by (simp add: httpd_start_def http_thread_def bind_failed_def)

subsection \<open>Witnesses\<close>

definition demo_server :: server where
  "demo_server = \<lparr> sv_sse = [], sv_ring = ring_init, sv_hb_ts = 0, sv_sent = [] \<rparr>"

definition demo_poll :: poll where
  "demo_poll = \<lparr> po_joined = [(1, ''root'', ''admin''), (2, ''ann'', ''user''), (3, ''bob'', ''user'')],
     po_pushed = [(''{a}'', Some ''ann''), (''{b}'', Some ''bob''), (''{c}'', None)], po_closing = (\<lambda>c. c = 3), po_millis = 5, po_millis_after = 6 \<rparr>"

lemma demo_joined: "sv_sse (apply_poll demo_poll demo_server) =
   map (\<lambda>(c, u, r). \<lparr> sc_conn = c, sc_user_id = u, sc_role = r \<rparr>) [(1, ''root'', ''admin''), (2, ''ann'', ''user''), (3, ''bob'', ''user'')]"
  by (simp add: apply_poll_def demo_poll_def demo_server_def httpd_sse_add_user_def SSE_MAX_CONNS_def)

lemma demo_messages: "messages (sv_ring (apply_poll demo_poll demo_server)) =
   [event_of ''{a}'' (Some ''ann''), event_of ''{b}'' (Some ''bob''), event_of ''{c}'' None]"
  by (simp add: apply_poll_def demo_poll_def demo_server_def push_ok push_messages last_n_def EVENTS_BUF_SIZE_def)


theorem sse_table_full_witness:
  "length (sv_sse (http_round demo_poll demo_server)) \<le> 32"
  using sse_table_full [of demo_server demo_poll 0 "[]" "[]"] by (simp add: demo_server_def SSE_MAX_CONNS_def)

end
