(* ===== verification/Service.thy ===== *)
theory Service
  imports Routes Machines Reports Files Server
begin

text \<open>
  The whole of \<open>routes_handler\<close>: a request is dispatched (\<open>Routes\<close>) and the handler it reaches is run. What a
  handler changes beside the state of the scheduler is part of the result: the stored applications,
  the configuration, or a client that joins the event streams. \<open>None\<close> is undefined behaviour of the C code.
\<close>

section \<open>Model\<close>

record service_env =
  se_req :: req_env
  se_view :: view_env
  se_file :: file_env
  se_disk :: posix
  se_decode :: "string \<Rightarrow> string option"
  se_strftime :: "string \<Rightarrow> int \<Rightarrow> string option"
  se_pretty :: "json \<Rightarrow> string option"
  se_rename_ok :: bool
  se_remove_ok :: bool

datatype change = Same | New_Apps app_files | New_Config config | Joined string string

type_synonym outcome = "(reply \<times> http_sys \<times> change) option"

abbreviation se_config :: "service_env \<Rightarrow> config" where
  "se_config se \<equiv> xe_config (re_exec (se_req se))"

definition answered :: "reply \<times> http_sys \<Rightarrow> outcome" where
  "answered x = Some (fst x, snd x, Same)"

definition perform_job :: "service_env \<Rightarrow> request \<Rightarrow> job_call \<Rightarrow> string \<Rightarrow> http_sys \<Rightarrow> outcome" where
  "perform_job se rq jc job_id h =
     (let env = se_req se; work_dir = cf_work_dir (se_config se); d = se_disk se in
      case jc of
        Get_Job \<Rightarrow> answered (get_job job_id h)
      | Cancel_Job \<Rightarrow> answered (cancel_job env job_id h)
      | Retry_Job \<Rightarrow> answered (retry_job env job_id h)
      | Release_Job \<Rightarrow> answered (release_job env job_id h)
      | Upload_Input name \<Rightarrow> answered (upload_input env rq job_id (se_decode se name) h)
      | Download_Output name \<Rightarrow> answered (download_output work_dir d job_id (se_decode se name), h)
      | List_Job_Files \<Rightarrow> answered (list_job_files env (se_file se) work_dir d job_id, h)
      | Artifacts_List \<Rightarrow> answered (artifacts_list env job_id h)
      | Get_Job_Deps \<Rightarrow> answered (get_job_deps env job_id h)
      | Get_Job_Log use_stderr \<Rightarrow> answered (get_job_log work_dir d job_id use_stderr, h))"

definition perform_user :: "service_env \<Rightarrow> request \<Rightarrow> user_call \<Rightarrow> string \<Rightarrow> string \<Rightarrow> http_sys \<Rightarrow> outcome" where
  "perform_user se rq uc user role h =
     (let env = se_req se in
      case uc of
        Auth_Me \<Rightarrow> answered (auth_me env user role, h)
      | Auth_Change_Password \<Rightarrow> answered (auth_change_password env rq user h)
      | Submit_Job \<Rightarrow> Option.bind (submit_job env rq user role h) answered
      | List_Jobs \<Rightarrow> answered (list_jobs env rq user role h)
      | Sse_Subscribe \<Rightarrow> (let (r, h1) = sse_subscribe env user role h in Some (r, h1, Joined user role))
      | List_Queue \<Rightarrow> answered (list_queue env (se_view se) rq user role h)
      | Batches_Submit \<Rightarrow> answered (batches_submit env rq user h)
      | Batches_Get i \<Rightarrow> answered (batches_get i user role h)
      | List_Saved_Workflows \<Rightarrow> answered (list_saved_workflows env user role h)
      | Save_Workflow \<Rightarrow> Option.bind (save_workflow env rq user role h) answered
      | Submit_Workflow \<Rightarrow> Option.bind (submit_workflow env rq user role h) answered
      | Delete_Saved_Workflow i \<Rightarrow> answered (delete_saved_workflow i user role h)
      | Toggle_Workflow_Favorite i \<Rightarrow> answered (toggle_workflow_favorite i user h))"

definition perform_table :: "service_env \<Rightarrow> request \<Rightarrow> table_call \<Rightarrow> http_sys \<Rightarrow> outcome" where
  "perform_table se rq tc h =
     (let env = se_req se in
      case tc of
        List_Quotas \<Rightarrow> answered (list_quotas env h)
      | Upsert_Quota \<Rightarrow> answered (upsert_quota env rq h)
      | Delete_Quota \<Rightarrow> answered (delete_quota env rq h)
      | List_Keys \<Rightarrow> answered (list_keys env h)
      | Create_Key \<Rightarrow> answered (create_key env rq h)
      | Revoke_Key \<Rightarrow> answered (revoke_key env rq h)
      | Upsert_App \<Rightarrow> (let (r, af) = upsert_app env (se_pretty se) (se_rename_ok se) rq in Some (r, h, New_Apps af))
      | Delete_App i \<Rightarrow> (let (r, af) = delete_app env (se_remove_ok se) i in Some (r, h, New_Apps af))
      | List_Users \<Rightarrow> answered (list_users env h)
      | Create_Users \<Rightarrow> answered (create_users env rq h)
      | Update_User \<Rightarrow> answered (update_user env rq h)
      | Delete_User \<Rightarrow> answered (delete_user env rq h))"

definition perform_report :: "service_env \<Rightarrow> request \<Rightarrow> string \<Rightarrow> http_sys \<Rightarrow> reply \<times> http_sys" where
  "perform_report se rq name =
     (if name = ''jobs'' then admin_report_jobs (se_req se) (se_strftime se) rq
      else if name = ''users'' then admin_report_users (se_req se) rq
      else if name = ''apps'' then admin_report_apps (se_req se) rq
      else admin_report_machines (se_req se) rq)"

definition perform_admin :: "service_env \<Rightarrow> request \<Rightarrow> admin_call \<Rightarrow> http_sys \<Rightarrow> outcome" where
  "perform_admin se rq ac h =
     (let env = se_req se in
      case ac of
        Admin_Get_Presim_Config \<Rightarrow> answered (admin_get_presim_config env (se_config se), h)
      | Admin_Update_Presim_Config \<Rightarrow>
          map_option (\<lambda>(r, g). (r, h, New_Config g)) (admin_update_presim_config env rq (se_config se))
      | Admin_Maintenance update \<Rightarrow> answered (admin_maintenance env rq update h)
      | Get_Metrics \<Rightarrow> answered (get_metrics env h)
      | Purge_Jobs \<Rightarrow> answered (purge_jobs env h)
      | Add_Machine \<Rightarrow> answered (add_machine env rq h)
      | Remove_Machine i \<Rightarrow> answered (remove_machine i h)
      | Admin_List_Events \<Rightarrow> answered (admin_list_events env rq h)
      | Admin_Report name \<Rightarrow> answered (perform_report se rq name h)
      | Admin_Machines_Status \<Rightarrow> answered (admin_machines_status env h, h)
      | Admin_Cloud_Provision \<Rightarrow> answered (admin_cloud_provision env rq h)
      | Admin_Cloud_Deprovision \<Rightarrow> answered (admin_cloud_deprovision env rq h)
      | Admin_Wol \<Rightarrow> answered (admin_wol env (se_view se) rq h)
      | Admin_Table tc \<Rightarrow> perform_table se rq tc h)"

definition perform :: "service_env \<Rightarrow> request \<Rightarrow> call \<Rightarrow> http_sys \<Rightarrow> outcome" where
  "perform se rq x h =
     (case x of
        Reply_Error code msg \<Rightarrow> answered (Http_Error code msg, h)
      | Preflight \<Rightarrow> answered (Http_Text 204 ''text/plain; charset=utf-8'' [], h)
      | Serve_Web_Ui \<Rightarrow> answered (serve_web_ui (se_file se) (se_disk se), h)
      | Serve_Web_File path \<Rightarrow> answered (serve_web_file (se_file se) (se_disk se) path, h)
      | Auth_Login \<Rightarrow> answered (auth_login (se_req se) rq h)
      | Auth_Methods \<Rightarrow> answered (auth_methods, h)
      | List_Apps \<Rightarrow> answered (list_apps (se_req se), h)
      | Get_App i \<Rightarrow> answered (get_app (se_req se) i, h)
      | List_Workers \<Rightarrow> answered (list_workers (se_req se) h, h)
      | Get_Stats \<Rightarrow> answered (get_stats (se_req se) h)
      | On_Job jc i \<Rightarrow> perform_job se rq jc i h
      | As_User uc user role \<Rightarrow> perform_user se rq uc user role h
      | As_Admin ac \<Rightarrow> perform_admin se rq ac h)"

definition serve :: "service_env \<Rightarrow> request \<Rightarrow> http_sys \<Rightarrow> outcome" where
  "serve se rq h = (let (x, h1) = routes_handler (se_config se) rq h in perform se rq x h1)"

section \<open>Laws\<close>

subsection \<open>Handlers that only read\<close>

text \<open>A state that differs at most in the outcomes of statements that were used up.\<close>

definition keeps :: "http_sys \<Rightarrow> http_sys \<Rightarrow> bool" where
  "keeps h h' \<longleftrightarrow> (\<exists>d. h' = on_core (\<lambda>s. s\<lparr>sy_db := d\<rparr>) h \<and> db_tables d = tabs h)"

lemma keeps_refl [simp]: "keeps h h"
  unfolding keeps_def by (intro exI [of _ "sy_db (hs_core h)"]) simp

lemma keeps_trans: "keeps h h1 \<Longrightarrow> keeps h1 h2 \<Longrightarrow> keeps h h2"
  by (auto simp: keeps_def)

lemma keeps_ask: "db_tables (snd (q (sy_db (hs_core h)))) = tabs h \<Longrightarrow> keeps h (snd (ask q h))"
  by (auto simp: keeps_def ask_def split: prod.splits)

lemma check_deps_tables [simp]: "db_tables (snd (check_deps toks d)) = db_tables d"
proof (induction toks arbitrary: d)
  case (Cons tok toks)
  then show ?case by (auto simp: Let_def case_prod_beta split: option.splits)
qed simp

lemma query_tables [simp]:
  "db_tables (snd (db_get_job i d)) = db_tables d" "db_tables (snd (db_get_batch i d)) = db_tables d"
  "db_tables (snd (db_get_batch_stats i d)) = db_tables d" "db_tables (snd (db_list_artifacts i n d)) = db_tables d"
  "db_tables (snd (db_list_api_keys n d)) = db_tables d" "db_tables (snd (db_list_quotas n d)) = db_tables d"
  "db_tables (snd (db_list_workflows u n d)) = db_tables d" "db_tables (snd (db_list_events n c f t d)) = db_tables d"
  "db_tables (snd (db_list_users n d)) = db_tables d" "db_tables (snd (db_list_user_records n d)) = db_tables d"
  "db_tables (snd (db_check_deps_status s d)) = db_tables d"
  "db_tables (snd (db_report_jobs_over_time sf n g f t d)) = db_tables d" "db_tables (snd (db_report_per_user n f t d)) = db_tables d"
  "db_tables (snd (db_report_per_app n f t d)) = db_tables d" "db_tables (snd (db_report_per_machine n f t d)) = db_tables d"
  by (simp_all add: db_get_job_def db_get_batch_def db_get_batch_stats_def db_list_artifacts_def db_list_api_keys_def db_list_quotas_def
      db_list_workflows_def db_list_events_def db_list_users_def db_list_user_records_def db_check_deps_status_def
      db_report_jobs_over_time_def db_report_per_user_def db_report_per_app_def db_report_per_machine_def)

lemma dep_items_keeps: "keeps h (snd (dep_items toks h))"
proof (induction toks arbitrary: h)
  case (Cons tok toks)
  show ?case using Cons [of h] Cons [of "snd (ask (db_get_job (dropWhile (\<lambda>c. c = CHR '' '') tok)) h)"]
      keeps_trans [OF keeps_ask [of "db_get_job (dropWhile (\<lambda>c. c = CHR '' '') tok)" h]]
    by (simp add: Let_def case_prod_beta)
qed simp

lemma workflow_items_keeps: "keeps h (snd (workflow_items env user ws h))"
proof (induction ws arbitrary: h)
  case (Cons w ws)
  show ?case using Cons [of "snd (ask (db_is_workflow_favorite user (wf_id w)) h)"]
      keeps_trans [OF keeps_ask [of "db_is_workflow_favorite user (wf_id w)" h]]
    by (simp add: Let_def case_prod_beta db_is_workflow_favorite_def)
qed simp

lemma views_keep:
  "keeps h (snd (get_job i h))" "keeps h (snd (list_jobs env rq user role h))" "keeps h (snd (list_queue env v rq user role h))"
  "keeps h (snd (sse_subscribe env user role h))" "keeps h (snd (artifacts_list env i h))" "keeps h (snd (list_quotas env h))"
  "keeps h (snd (list_keys env h))" "keeps h (snd (get_metrics env h))" "keeps h (snd (stats_or_zero h))"
  "keeps h (snd (admin_list_events env rq h))" "keeps h (snd (admin_report_jobs env sf rq h))" "keeps h (snd (admin_report_users env rq h))"
  "keeps h (snd (admin_report_apps env rq h))" "keeps h (snd (admin_report_machines env rq h))"
  by (simp_all add: get_job_def list_jobs_def list_queue_def sse_subscribe_def artifacts_list_def list_quotas_def list_keys_def get_metrics_def
      stats_or_zero_def admin_list_events_def admin_report_jobs_def admin_report_users_def admin_report_apps_def admin_report_machines_def
      Let_def case_prod_beta keeps_ask split: option.splits)

lemma two_queries_keep:
  "keeps h (snd (batches_get i user role h))" "keeps h (snd (list_users env h))" "keeps h (snd (list_saved_workflows env user role h))"
  "keeps h (snd (get_job_deps env i h))" "keeps h (snd (get_stats env h))" "keeps h (snd (admin_maintenance env rq False h))"
proof -
  show "keeps h (snd (batches_get i user role h))"
    using keeps_trans [OF keeps_ask [of "db_get_batch i" h] keeps_ask [of "db_get_batch_stats i" "snd (ask (db_get_batch i) h)"]]
    by (simp add: batches_get_def batch_stats_def case_prod_beta keeps_ask split: option.splits)
  show "keeps h (snd (list_users env h))"
    using keeps_trans [OF keeps_ask [of "db_list_user_records 512" h] keeps_ask [of "db_list_users 512" "snd (ask (db_list_user_records 512) h)"]]
    by (simp add: list_users_def case_prod_beta Let_def)
  show "keeps h (snd (list_saved_workflows env user role h))"
    by (simp add: list_saved_workflows_def case_prod_beta Let_def keeps_trans [OF keeps_ask workflow_items_keeps])
  show "keeps h (snd (get_job_deps env i h))"
  proof (cases "fst (ask (db_get_job i) h)")
    case (Some job)
    let ?h1 = "snd (ask (db_get_job i) h)"
    let ?h2 = "snd (dep_items (strtok CHR '','' (buf 2048 (j_depends_on job))) ?h1)"
    have "keeps h ?h2" by (rule keeps_trans [OF keeps_ask dep_items_keeps]) simp
    then have "keeps h (snd (ask (db_check_deps_status (j_depends_on job)) ?h2))" by (rule keeps_trans) (simp add: keeps_ask)
    then show ?thesis using Some by (simp add: get_job_deps_def case_prod_beta Let_def)
  qed (simp add: get_job_deps_def case_prod_beta keeps_ask)
  show "keeps h (snd (get_stats env h))" "keeps h (snd (admin_maintenance env rq False h))"
    using views_keep(9) [of h] by (simp_all add: get_stats_def admin_maintenance_def maintenance_state_def case_prod_beta Let_def split: option.splits)
qed

lemmas handlers_keep = views_keep two_queries_keep

text \<open>The calls whose handlers only read.\<close>

definition reads :: "call \<Rightarrow> bool" where
  "reads x =
     (case x of
        Auth_Login \<Rightarrow> False
      | On_Job jc _ \<Rightarrow>
          (case jc of Cancel_Job \<Rightarrow> False | Retry_Job \<Rightarrow> False | Release_Job \<Rightarrow> False | Upload_Input _ \<Rightarrow> False | _ \<Rightarrow> True)
      | As_User uc _ _ \<Rightarrow>
          (case uc of Auth_Change_Password \<Rightarrow> False | Submit_Job \<Rightarrow> False | Batches_Submit \<Rightarrow> False | Save_Workflow \<Rightarrow> False
           | Submit_Workflow \<Rightarrow> False | Delete_Saved_Workflow _ \<Rightarrow> False | Toggle_Workflow_Favorite _ \<Rightarrow> False | _ \<Rightarrow> True)
      | As_Admin ac \<Rightarrow>
          (case ac of
             Admin_Get_Presim_Config \<Rightarrow> True | Admin_Maintenance update \<Rightarrow> \<not> update | Get_Metrics \<Rightarrow> True | Admin_List_Events \<Rightarrow> True
           | Admin_Report _ \<Rightarrow> True | Admin_Machines_Status \<Rightarrow> True
           | Admin_Table tc \<Rightarrow> tc \<in> {List_Quotas, List_Keys, List_Users}
           | _ \<Rightarrow> False)
      | _ \<Rightarrow> True)"

definition joins :: "change \<Rightarrow> bool" where
  "joins c = (case c of New_Apps _ \<Rightarrow> False | New_Config _ \<Rightarrow> False | _ \<Rightarrow> True)"

lemma perform_reads:
  assumes "reads x"
  shows "\<exists>r h' c. perform se rq x h = Some (r, h', c) \<and> keeps h h' \<and> joins c"
proof (cases x)
  case (On_Job jc i)
  then show ?thesis using assms handlers_keep
    by (cases jc) (auto simp: reads_def perform_def perform_job_def answered_def joins_def Let_def)
next
  case (As_User uc user role)
  then show ?thesis using assms handlers_keep
    by (cases uc) (auto simp: reads_def perform_def perform_user_def answered_def joins_def Let_def case_prod_beta)
next
  case (As_Admin ac)
  then show ?thesis using assms handlers_keep
    by (cases ac) (auto simp: reads_def perform_def perform_admin_def perform_table_def perform_report_def answered_def joins_def Let_def)
qed (use assms handlers_keep in \<open>auto simp: reads_def perform_def answered_def joins_def\<close>)

subsection \<open>Dispatching\<close>

lemma get_sections:
  assumes "method_of rq = ''GET''"
  shows "list_all (pred_option reads) [route_https cfg rq, route_cors cfg rq, route_web cfg rq, route_public rq]"
    "list_all (pred_option reads) [route_auth rq user role, route_admin_gate cfg rq role]"
    "pred_option reads (route_job rq)"
    "list_all (pred_option reads) [route_shared cfg rq user role, route_machines rq role, route_admin_data rq, route_admin_ops cfg rq]"
  using assms
  by (simp_all add: reads_def Let_def route_https_def route_cors_def route_web_def route_public_def route_auth_def route_admin_gate_def
      route_job_def route_shared_def route_machines_def route_admin_data_def route_admin_ops_def)

lemma route_jobs_keeps: "keeps h (snd (route_jobs rq user role h))"
  by (auto simp: route_jobs_def Let_def case_prod_beta keeps_ask split: option.splits)

lemma route_authenticated_keeps: "keeps h (snd (route_authenticated cfg rq role user h))"
  using route_jobs_keeps [of h rq user role]
  by (auto simp: route_authenticated_def split: option.splits prod.splits)

lemma routes_keeps: "keeps h (snd (routes_handler cfg rq h))"
proof -
  have a: "keeps h (snd (ask (auth_check_role_user (now_of h) (rq_header rq ''X-API-Key'')) h))"
    by (intro keeps_ask) (metis auth_check_tables prod.collapse)
  show ?thesis using a keeps_trans [OF a route_authenticated_keeps]
    by (auto simp: routes_handler_def case_prod_beta split: option.splits)
qed

lemma get_reads:
  assumes "method_of rq = ''GET''"
  shows "reads (fst (routes_handler cfg rq h))"
proof -
  note g = get_sections [OF assms]
  have job: "pred_option reads (fst (route_jobs rq user role h1))" for user role h1
    using g(3) assms by (auto simp: route_jobs_def Let_def reads_def case_prod_beta split: option.splits)
  have auth: "reads (fst (route_authenticated cfg rq role user h1))" for role user h1
    using first_call_all [OF g(2), of user role cfg] first_call_all [OF g(4), of cfg user role] job [of user role h1]
    by (auto simp: route_authenticated_def reads_def [of not_found] split: option.splits prod.splits)
  show ?thesis
    using first_call_all [OF g(1), of cfg] auth
    by (auto simp: routes_handler_def reads_def [of "Reply_Error _ _"] case_prod_beta split: option.splits)
qed

section \<open>Claims\<close>

text \<open>
  C8: a request to read only reads. Whatever a client asks for with the method GET, whichever handler is
  reached and whichever statement fails, the service answers, and no table, no queue, no machine, no
  execution, no setting and no stored application changes; the one trace it can leave is a client
  that joins the event streams.
\<close>

theorem get_is_safe:
  assumes "method_of rq = ''GET''"
  shows "\<exists>r h' c. serve se rq h = Some (r, h', c) \<and> (c = Same \<or> (\<exists>user role. c = Joined user role)) \<and>
    (\<exists>d. h' = on_core (\<lambda>s. s\<lparr>sy_db := d\<rparr>) h \<and> db_tables d = tabs h)"
proof -
  obtain x h1 where x: "routes_handler (se_config se) rq h = (x, h1)" by force
  have "reads x" "keeps h h1" using get_reads [OF assms, of "se_config se" h] routes_keeps [of h "se_config se" rq] x by simp_all
  with perform_reads [of x se rq h1] obtain r h' c where "perform se rq x h1 = Some (r, h', c)" "keeps h1 h'" "joins c" by blast
  with \<open>keeps h h1\<close> have "serve se rq h = Some (r, h', c)" "keeps h h'" "joins c" by (auto simp: serve_def x intro: keeps_trans)
  then show ?thesis unfolding keeps_def joins_def by (cases c) auto
qed


text \<open>A request of a stranger, to read the queue and to cancel a job.\<close>

definition demo_service :: service_env where
  "demo_service = \<lparr> se_req = demo_http_env, se_view = demo_view, se_file = demo_file_env, se_disk = demo_site, se_decode = Some,
     se_strftime = (\<lambda>_ _. None), se_pretty = (\<lambda>_. None), se_rename_ok = True, se_remove_ok = True \<rparr>"

definition stranger :: "string \<Rightarrow> string \<Rightarrow> request" where
  "stranger m uri = \<lparr> rq_method = m, rq_uri = uri, rq_header = (\<lambda>_. None), rq_var = (\<lambda>_ _. (-4, [])), rq_body = [], rq_peer = 1 \<rparr>"

theorem get_is_safe_witness:
  "\<exists>r h' c. serve demo_service (stranger ''GET'' ''/queue'') demo_routes = Some (r, h', c) \<and> tabs h' = tabs demo_routes"
proof -
  have "method_of (stranger ''GET'' ''/queue'') = ''GET''" by (simp add: method_of_def stranger_def)
  from get_is_safe [OF this, of demo_service demo_routes] show ?thesis by auto
qed


end
