(* ===== verification/Startup.thy ===== *)
theory Startup
  imports Accounts
begin

text \<open>
  The command line of \<open>src/main.c\<close> (POSIX branch): the configuration a process starts with, and the command
  \<open>keygen\<close>, which makes the first API keys. Files, the opening of the database and the random bytes are arguments.
\<close>

section \<open>Model\<close>

definition valid_keygen_user_id :: "string \<Rightarrow> bool" where
  "valid_keygen_user_id user_id \<longleftrightarrow> user_id \<noteq> [] \<and> length user_id \<le> 64 \<and>
     list_all (\<lambda>c. is_alnum c \<or> c = CHR ''_'' \<or> c = CHR ''-'') user_id"

definition valid_keygen_label :: "string \<Rightarrow> bool" where
  "valid_keygen_label label \<longleftrightarrow> label \<noteq> [] \<and> length label \<le> 128 \<and>
     list_all (\<lambda>c. 32 \<le> (of_char c :: nat) \<and> (of_char c :: nat) \<noteq> 127) label"

record keygen_opts =
  ko_label :: string
  ko_role :: string
  ko_user :: string
  ko_conf :: string

definition keygen_defaults :: keygen_opts where
  "keygen_defaults = \<lparr> ko_label = ''default'', ko_role = ''admin'', ko_user = [], ko_conf = ''config/orchestrator.conf'' \<rparr>"

text \<open>The arguments after \<open>keygen\<close>; \<open>None\<close> for a missing value or an unknown option.\<close>

fun keygen_args :: "string list \<Rightarrow> keygen_opts \<Rightarrow> keygen_opts option" where
  "keygen_args [] ko = Some ko"
| "keygen_args [a] ko = None"
| "keygen_args (a # v # args) ko =
     (if a = ''--label'' then keygen_args args (ko\<lparr>ko_label := v\<rparr>)
      else if a = ''--conf'' then keygen_args args (ko\<lparr>ko_conf := v\<rparr>)
      else if a = ''--role'' then keygen_args args (ko\<lparr>ko_role := v\<rparr>)
      else if a = ''--user'' then keygen_args args (ko\<lparr>ko_user := v\<rparr>)
      else None)"

definition valid_keygen :: "keygen_opts \<Rightarrow> bool" where
  "valid_keygen ko \<longleftrightarrow> valid_keygen_label (ko_label ko) \<and> ko_role ko \<in> {''admin'', ''user''} \<and>
     (ko_user ko \<noteq> [] \<longrightarrow> valid_keygen_user_id (ko_user ko)) \<and> (ko_role ko = ''user'' \<longrightarrow> ko_user ko \<noteq> [])"

text \<open>Defaults, the main file, the file of the presimulation, and the validation of the result.\<close>

definition load_configuration :: "(string \<Rightarrow> real option) \<Rightarrow> (string \<Rightarrow> string option) \<Rightarrow> string \<Rightarrow> config option" where
  "load_configuration strtod files conf =
     (let (r1, g1) = config_load strtod (files conf) config_defaults;
          (r2, g2) = config_load strtod (files ''config/presim.conf'') g1 in
      if r1 \<noteq> 0 \<or> r2 \<noteq> 0 \<or> (case config_validate g2 of Inl _ \<Rightarrow> True | Inr _ \<Rightarrow> False) then None else Some g2)"

record keygen_env =
  ke_strtod :: "string \<Rightarrow> real option"
  ke_files :: "string \<Rightarrow> string option"
  ke_open :: "string \<Rightarrow> db option"
  ke_now :: int
  ke_random :: "8 word list option"

text \<open>
  The exit code, the key printed, and the database if it was opened, as it is when \<open>db_close\<close> is called.
\<close>

definition db_close :: "db \<Rightarrow> db" where
  "db_close d = d\<lparr>db_is_open := False\<rparr>"

definition keygen_insert :: "keygen_env \<Rightarrow> keygen_opts \<Rightarrow> db \<Rightarrow> int \<times> string option \<times> db option" where
  "keygen_insert ke ko d =
     (case ke_random ke of
        None \<Rightarrow> (1, None, Some d)
      | Some raw \<Rightarrow>
          if length raw \<noteq> 32 then (1, None, Some d)
          else let raw_hex = bytes_to_hex raw;
                   (result, d1) = db_insert_api_key_full (ke_now ke) (auth_hash_key raw_hex) (ko_label ko) (Some (ko_role ko)) (Some (ko_user ko)) 0 d in
               if result = 0 then (0, Some raw_hex, Some d1) else (1, None, Some d1))"

definition keygen :: "keygen_env \<Rightarrow> string list \<Rightarrow> int \<times> string option \<times> db option" where
  "keygen ke args =
     (case keygen_args args keygen_defaults of
        None \<Rightarrow> (2, None, None)
      | Some ko \<Rightarrow>
          if \<not> valid_keygen ko then (2, None, None)
          else case load_configuration (ke_strtod ke) (ke_files ke) (ko_conf ko) of
            None \<Rightarrow> (2, None, None)
          | Some g \<Rightarrow>
              (case ke_open ke (cf_db_path g) of
                 None \<Rightarrow> (1, None, None)
               | Some d \<Rightarrow>
                   if ko_user ko = [] then keygen_insert ke ko d
                   else case db_get_user_auth (ko_user ko) 256 d of
                     (None, d1) \<Rightarrow> (2, None, Some d1)
                   | (Some (_, enabled), d1) \<Rightarrow> if enabled = 0 then (2, None, Some d1) else keygen_insert ke ko d1))"

section \<open>Laws\<close>

lemma keygen_insert_ok:
  assumes "db_plan d = []" "keygen_insert ke ko d = (0, Some key, Some d')"
  shows "length key = 64 \<and> list_all isxdigit key \<and> sha256_hex key \<notin> ak_key_hash ` set (t_api_keys (db_tables d)) \<and> db_plan d' = [] \<and>
    db_tables d' = (db_tables d)\<lparr>t_api_keys := t_api_keys (db_tables d) @ [\<lparr> ak_key_hash = sha256_hex key, ak_label = ko_label ko,
      ak_role = (if ko_role ko = [] then ''user'' else ko_role ko), ak_user_id = ko_user ko, ak_created_at = ke_now ke, ak_expires_at = 0, ak_revoked = False \<rparr>]\<rparr>"
  using assms isxdigit_hex
  by (auto simp: keygen_insert_def db_insert_api_key_full_def auth_hash_key_def sql_run_def sql_write_def sql_next_def Let_def col_text_def
      split: option.splits if_splits)

lemma keygen_steps:
  assumes "keygen ke args = (0, Some key, Some d')" "\<forall>path d. ke_open ke path = Some d \<longrightarrow> db_plan d = []"
  obtains ko g d where "keygen_args args keygen_defaults = Some ko" "valid_keygen ko"
    "load_configuration (ke_strtod ke) (ke_files ke) (ko_conf ko) = Some g" "ke_open ke (cf_db_path g) = Some d" "db_plan d = []"
    "ko_user ko \<noteq> [] \<longrightarrow> (\<exists>u \<in> set (t_users (db_tables d)). us_user_id u = ko_user ko \<and> us_enabled u \<noteq> 0)"
    "keygen_insert ke ko d = (0, Some key, Some d')"
proof -
  obtain ko g d where k: "keygen_args args keygen_defaults = Some ko" "valid_keygen ko"
    "load_configuration (ke_strtod ke) (ke_files ke) (ko_conf ko) = Some g" "ke_open ke (cf_db_path g) = Some d"
    "(if ko_user ko = [] then keygen_insert ke ko d
      else case db_get_user_auth (ko_user ko) 256 d of
        (None, d1) \<Rightarrow> (2, None, Some d1)
      | (Some (_, enabled), d1) \<Rightarrow> if enabled = 0 then (2, None, Some d1) else keygen_insert ke ko d1) = (0, Some key, Some d')"
    using assms(1) by (auto simp: keygen_def split: option.splits if_splits)
  have p: "db_plan d = []" using assms(2) k(4) by blast
  have q: "db_get_user_auth (ko_user ko) 256 d =
      (map_option (\<lambda>u. (buf 256 (us_password_hash u), us_enabled u)) (find (\<lambda>u. us_user_id u = ko_user ko) (t_users (db_tables d))), d)"
    using p by (simp add: db_get_user_auth_def sql_read_def sql_next_def)
  have "\<exists>u \<in> set (t_users (db_tables d)). us_user_id u = ko_user ko \<and> us_enabled u \<noteq> 0" if "ko_user ko \<noteq> []"
    using k(5) that unfolding q by (cases "find (\<lambda>u. us_user_id u = ko_user ko) (t_users (db_tables d))") (auto simp: find_Some_iff split: if_splits)
  moreover have "keygen_insert ke ko d = (0, Some key, Some d')"
    using k(5) unfolding q by (cases "find (\<lambda>u. us_user_id u = ko_user ko) (t_users (db_tables d))") (auto split: if_splits)
  ultimately show ?thesis using that k p by blast
qed


text \<open>A key for the user of an account.\<close>

definition demo_keygen :: keygen_env where
  "demo_keygen = \<lparr> ke_strtod = (\<lambda>_. None), ke_files = (\<lambda>_. None), ke_open = (\<lambda>_. Some (opened_db (empty_tables\<lparr>t_users := [demo_user]\<rparr>))),
     ke_now = 9, ke_random = Some (replicate 32 7) \<rparr>"

lemma demo_keygen_runs: "\<exists>key d'. keygen demo_keygen [''--role'', ''user'', ''--user'', ''ann''] = (0, Some key, Some d')"
proof -
  have "load_configuration (\<lambda>_. None) (\<lambda>_. None) ''config/orchestrator.conf'' = Some config_defaults"
    by code_simp
  then show ?thesis
    by (simp add: keygen_def keygen_defaults_def valid_keygen_def valid_keygen_label_def valid_keygen_user_id_def is_alnum_def less_eq_char_def
        demo_keygen_def db_get_user_auth_def sql_read_def sql_next_def opened_db_def demo_user_def keygen_insert_def db_insert_api_key_full_def
        sql_run_def sql_write_def empty_tables_def Let_def)
qed


end
