(* ===== verification/Spec2Isabelle.thy ===== *)
theory Spec2Isabelle
  imports Queue DbMeta DbOpen Config Progress Service Startup
begin

text \<open>
  A verification development of the BHC scheduler, an orchestrator that queues jobs, reserves
  machines for them, runs them locally or over SSH and records everything in SQLite.

  \<^bold>\<open>The program and its model.\<close> An HTTP request puts a job into the database and into a priority
  queue. The scheduler thread takes the jobs in order, asks a decision core whether to refine them,
  reserves machines through the allocator, and hands them to the executor, whose launcher and watcher
  threads start a process, wait for it and give the machines back. Machines come from a provisioning
  document or are rented from a cloud provider. One theory models one part:

    \<^item> \<open>Job\<close>, \<open>Lifecycle\<close> (src/core/job.c): the \<open>Job\<close> structure, its states, the table of allowed
      transitions, creation and state changes with their rows and events;
    \<^item> \<open>Queue\<close> (src/core/queue.c): the binary heap of waiting jobs;
    \<^item> \<open>Json\<close>: the cJSON values the parts exchange, as trees; parser and printer are arguments;
    \<^item> \<open>Registry\<close>, \<open>Allocator\<close> (src/resources/registry.c, allocator.c): the machine table, the
      provisioning document, the reservations and their records;
    \<^item> \<open>Db\<close>, \<open>DbMeta\<close>, \<open>DbOpen\<close> (src/persistence/db.c): the tables and every statement on them, the schema and
      the migrations of files that older versions wrote;
    \<^item> \<open>Events\<close> (src/http/events.c), \<open>Config\<close> (src/persistence/config.c), \<open>Cloud\<close> (src/cloud/cloud.c);
    \<^item> \<open>Script\<close>, \<open>Artifacts\<close> (src/core/executor.c, src/transfer/): the run script, shell quoting, file
      names and the collection of output files;
    \<^item> \<open>Executor\<close>, \<open>Execution\<close>, \<open>ExecSafety\<close> (src/core/executor.c, POSIX branch): the operations, the
      threads as a step relation, its invariant, safety and shutdown;
    \<^item> \<open>Decision\<close> (src/decision_core_default.c): the decision core, with its doubles as real numbers;
    \<^item> \<open>Scheduler\<close>, \<open>Scheduling\<close>, \<open>Progress\<close> (src/core/scheduler.c): the loop and its correctness;
    \<^item> \<open>Sha256\<close>, \<open>Auth\<close> (src/http/auth.c): hashing, passwords and API keys;
    \<^item> \<open>Store\<close>, \<open>Probe\<close> (src/transfer/store.c, src/resources/probe.c): the directories of a job on a file system
      with links, and the probes of machines with the thread that repeats them;
    \<^item> \<open>AppCommand\<close>, \<open>Apps\<close>, \<open>Http\<close>, \<open>Submission\<close>, \<open>Workflows\<close>, \<open>Accounts\<close>, \<open>Views\<close>, \<open>Machines\<close>, \<open>Reports\<close>,
      \<open>Files\<close> (src/http/routes.c, response.c, artifacts.c, src/transfer/download.c): application definitions and
      the commands made from them, and the handlers of jobs, workflows, accounts, lists and
      statistics, machines, reports and files;
    \<^item> \<open>Batches\<close> (src/http/batches.c): batches of jobs;
    \<^item> \<open>Routes\<close>, \<open>Service\<close> (src/http/routes.c): the dispatcher, and a request from its dispatch to its answer;
    \<^item> \<open>Server\<close> (src/http/httpd.c): the thread of the server and the event streams;
    \<^item> \<open>Startup\<close> (src/main.c): the configuration of a start and the command \<open>keygen\<close>.

  \<^bold>\<open>Conventions.\<close> A structure is a record whose fields carry a prefix per structure; a pointer that may
  be null is an option; an \<open>int\<close> result of 0, -1 or -2 is an integer. Statics of a file are one state
  record, passed and returned; \<open>sched_sys\<close> extends \<open>exec_sys\<close>, which extends the allocator's \<open>alloc_sys\<close>,
  so that an operation of one part runs on the state of its callers. A call under a mutex is one atomic
  step; a thread of the executor is cut into pieces at the points where it holds no lock, and \<open>Execution\<close>
  interleaves the pieces of any number of executions with the calls of other threads. C strings are
  character lists, cut to their buffer where the code cuts them (\<open>buf\<close>).

  \<^bold>\<open>Failures.\<close> The database carries a plan, a list of outcomes for the statements to come: any statement
  may fail, and claims that need a working database say \<open>db_plan d = []\<close>. Memory allocation, thread
  creation, processes, sockets, popen, random bytes, the clock and the file system are arguments with
  arbitrary answers.

  \<^bold>\<open>What is proved.\<close> The queue serves a best job and keeps exactly the others. The books balance: every
  machine reserves the sum of the active allocations, in every interleaving and after every failure. A
  pass of the scheduler keeps all invariants and loses no job. An execution ends in a final state and
  gives its machines back; a shutdown drains. Start-up, cancellation and timeouts do what they say in
  every place a job can be. Statements in a transaction take effect together or not at all. The decision
  core stays within its budget. A database of an older version is opened without losing a row. Commands given to a shell contain no foreign metacharacter. Keys and
  passwords are checked with SHA-256 and PBKDF2 as standardised, and the key a login or \<open>keygen\<close> gives works.
  A request reaches a handler only with the rights it needs; without a key it changes nothing, with
  the method GET it only reads, and lists and event streams show a user his own jobs and events. A
  submission, a workflow or a batch is stored and queued completely or not at all. Stored applications are
  read back. The handlers of machines keep the books, a probe marks what it found, reports count every
  job once, and files are served and removed within the directories meant for them. Where the code
  departs from what it says, this is proved too.

  \<^bold>\<open>Bounds and fuel.\<close> Recursion over the file tree of artifacts stops at the depth of 33 the code has; the
  removal of a directory has a bound on its nesting, enough for the depth of the tree, and is proved to
  need more than any bound on one that makes the code recurse for ever. The resolution of a path follows
  40 links, as the operating system does. An execution takes at most nine pieces, which bounds a
  shutdown. The thread of the probes is looked at for a number of rounds and ends in the round after the
  one in which it is told to. The other loops end by a measure.

  \<^bold>\<open>Not modelled.\<close> The Windows branches; the indexes of the database; the text of answers below their JSON value and their headers; logging; the service
  wrappers, and \<open>orchestrator_run\<close>, which calls the parts one after the other; the thermal solver, an
  example workload, and the test programs; SQLite, mongoose and cJSON, which are third-party code.
\<close>

end
